(* ===== verification/Prelude.thy ===== *)
theory Prelude
  imports Main "HOL-Library.Word" "HOL-Library.Multiset" "HOL-Library.List_Lexorder" "HOL-Library.Char_ord"
    "HOL-Library.Product_Lexorder"
begin

text \<open>
  Shared vocabulary of the development: type synonyms for the machine integers the library
  uses, decimal rendering (\<open>std::to_string\<close>), the ordered containers of the C++ standard
  library as sorted association lists (\<open>std::map\<close>) and strictly sorted lists
  (\<open>std::set\<close>), bounded prefixes, and the named collections the component theories fill.
\<close>

unbundle bit_operations_syntax

named_theorems codec_simps \<open>one step of reading back what a writer produced\<close>
named_theorems enum_simps \<open>encodings of the enumerations\<close>
named_theorems frame_simps \<open>fields an operation leaves alone\<close>

type_synonym u8 = "8 word"
type_synonym u16 = "16 word"
type_synonym u32 = "32 word"
type_synonym u64 = "64 word"

section \<open>Decimal text\<close>

definition digit_char :: "nat \<Rightarrow> char" where
  "digit_char d = char_of (48 + d)"

fun decimal :: "nat \<Rightarrow> string" where
  "decimal n = (if n < 10 then [digit_char n] else decimal (n div 10) @ [digit_char (n mod 10)])"

declare decimal.simps [simp del]

lemma decimal_nonempty [simp]: "decimal n \<noteq> []"
  by (subst decimal.simps) simp

text \<open>\<open>join\<close> puts a separator between rendered items, as the \<open>if (i != 0)\<close> loops do.\<close>

fun join :: "string \<Rightarrow> string list \<Rightarrow> string" where
  "join sep [] = []"
| "join sep [x] = x"
| "join sep (x # y # xs) = x @ sep @ join sep (y # xs)"

section \<open>Ordered maps\<close>

text \<open>
  \<open>std::map\<close> iterates in key order and replaces on assignment. The model is an association
  list sorted by key; lookup is \<^term>\<open>map_of\<close>.
\<close>

type_synonym ('k, 'v) omap = "('k \<times> 'v) list"

fun om_put :: "'k::linorder \<Rightarrow> 'v \<Rightarrow> ('k, 'v) omap \<Rightarrow> ('k, 'v) omap" where
  "om_put k v [] = [(k, v)]"
| "om_put k v ((k', v') # m) =
     (if k < k' then (k, v) # (k', v') # m
      else if k = k' then (k, v) # m
      else (k', v') # om_put k v m)"

definition om_del :: "'k \<Rightarrow> ('k, 'v) omap \<Rightarrow> ('k, 'v) omap" where
  "om_del k m = filter (\<lambda>e. fst e \<noteq> k) m"

definition om_sorted :: "('k::linorder, 'v) omap \<Rightarrow> bool" where
  "om_sorted m \<longleftrightarrow> sorted_wrt (<) (map fst m)"

text \<open>The contract a client of an ordered map relies on.\<close>

locale keyed_store =
  fixes get :: "'m \<Rightarrow> 'k \<Rightarrow> 'v option"
    and put :: "'k \<Rightarrow> 'v \<Rightarrow> 'm \<Rightarrow> 'm"
    and del :: "'k \<Rightarrow> 'm \<Rightarrow> 'm"
    and ok :: "'m \<Rightarrow> bool"
  assumes get_put: "get (put k v m) = (get m)(k \<mapsto> v)"
    and get_del: "get (del k m) = (get m)(k := None)"
    and ok_put: "ok m \<Longrightarrow> ok (put k v m)"
    and ok_del: "ok m \<Longrightarrow> ok (del k m)"
begin

lemma get_put_same: "get (put k v m) k = Some v"
  by (simp add: get_put)

lemma get_put_other: "k' \<noteq> k \<Longrightarrow> get (put k v m) k' = get m k'"
  by (simp add: get_put)

lemma get_del_same: "get (del k m) k = None"
  by (simp add: get_del)

lemma get_del_other: "k' \<noteq> k \<Longrightarrow> get (del k m) k' = get m k'"
  by (simp add: get_del)

lemma put_overwrites: "get (put k v (put k w m)) = get (put k v m)"
  by (simp add: get_put)

lemma del_put_fresh: "get m k = None \<Longrightarrow> get (del k (put k v m)) = get m"
  by (auto simp: get_put get_del)

lemma ok_fold_put: "ok m \<Longrightarrow> ok (fold (\<lambda>e. put (fst e) (snd e)) es m)"
  by (induction es arbitrary: m) (auto intro: ok_put)

end

lemma map_of_om_put [simp]: "map_of (om_put k v m) = (map_of m)(k \<mapsto> v)"
  by (induction k v m rule: om_put.induct) auto

lemma map_of_om_del [simp]: "map_of (om_del k m) = (map_of m)(k := None)"
  by (induction m) (auto simp: om_del_def)

lemma fst_set_om_put [simp]: "fst ` set (om_put k v m) = insert k (fst ` set m)"
  by (induction k v m rule: om_put.induct) auto

lemma om_put_keys: "map fst (om_put k v m) = map fst (om_put k w m)"
  by (induction k v m rule: om_put.induct) auto

lemma om_sorted_put: "om_sorted m \<Longrightarrow> om_sorted (om_put k v m)"
proof (induction k v m rule: om_put.induct)
  case (1 k v)
  show ?case by (simp add: om_sorted_def)
next
  case (2 k v k' v' m)
  consider "k < k'" | "k = k'" | "k' < k" by (rule linorder_cases)
  then show ?case
  proof cases
    case 3
    with 2 have sorted: "om_sorted (om_put k v m)" and "\<forall>x\<in>fst ` set m. k' < x"
      by (auto simp: om_sorted_def)
    with 3 have "\<forall>x\<in>set (map fst (om_put k v m)). k' < x"
      by (simp only: set_map fst_set_om_put) blast
    with sorted 3 show ?thesis
      by (auto simp: om_sorted_def)
  qed (use 2(2) in \<open>auto simp: om_sorted_def intro: order_less_trans\<close>)
qed

lemma om_sorted_del: "om_sorted m \<Longrightarrow> om_sorted (om_del k m)"
  by (induction m) (auto simp: om_sorted_def om_del_def)

interpretation omap: keyed_store map_of om_put om_del om_sorted
  by unfold_locales (auto intro: om_sorted_put om_sorted_del)

lemma om_sorted_distinct: "om_sorted m \<Longrightarrow> distinct (map fst m)"
  by (simp add: om_sorted_def strict_sorted_iff)

lemma om_sorted_map_of: "om_sorted m \<Longrightarrow> (k, v) \<in> set m \<Longrightarrow> map_of m k = Some v"
  by (simp add: om_sorted_distinct)

lemma om_put_present: "om_sorted m \<Longrightarrow> map_of m k \<noteq> None \<Longrightarrow> length (om_put k v m) = length m"
proof (induction k v m rule: om_put.induct)
  case (2 k v k' v' m)
  have "map_of m k = None" if "k < k'"
    using 2(2) that by (auto simp: om_sorted_def map_of_eq_None_iff)
  with 2 show ?case
    by (auto simp: om_sorted_def split: if_splits)
qed auto

lemma om_put_absent: "map_of m k = None \<Longrightarrow> length (om_put k v m) = Suc (length m)"
  by (induction k v m rule: om_put.induct) (auto split: if_splits)

section \<open>Ordered sets\<close>

text \<open>\<open>std::set\<close>: a strictly sorted list.\<close>

definition os_insert :: "'a::linorder \<Rightarrow> 'a list \<Rightarrow> 'a list" where
  "os_insert x xs = (if x \<in> set xs then xs else insort x xs)"

lemma set_os_insert [simp]: "set (os_insert x xs) = insert x (set xs)"
  by (auto simp: os_insert_def set_insort_key)

lemma sorted_wrt_less_iff: "sorted_wrt (<) (xs :: 'a::linorder list) \<longleftrightarrow> sorted xs \<and> distinct xs"
  by (simp add: strict_sorted_iff)

lemma os_insert_strict: "sorted_wrt (<) xs \<Longrightarrow> sorted_wrt (<) (os_insert x xs)"
  by (auto simp: os_insert_def sorted_wrt_less_iff sorted_insort distinct_insort)

definition os_union :: "'a::linorder list \<Rightarrow> 'a list \<Rightarrow> 'a list" where
  "os_union xs ys = fold os_insert xs ys"

lemma set_os_union [simp]: "set (os_union xs ys) = set xs \<union> set ys"
  by (induction xs arbitrary: ys) (auto simp: os_union_def)

lemma os_union_strict: "sorted_wrt (<) ys \<Longrightarrow> sorted_wrt (<) (os_union xs ys)"
  by (induction xs arbitrary: ys) (auto simp: os_union_def os_insert_strict)

text \<open>A sorted multimap from keys to sets, as \<open>index[key].insert(id)\<close> maintains it.\<close>

definition om_add :: "'k::linorder \<Rightarrow> 'a::linorder \<Rightarrow> ('k, 'a list) omap \<Rightarrow> ('k, 'a list) omap" where
  "om_add k x m = om_put k (os_insert x (case map_of m k of None \<Rightarrow> [] | Some xs \<Rightarrow> xs)) m"

definition om_members :: "('k, 'a list) omap \<Rightarrow> 'k \<Rightarrow> 'a list" where
  "om_members m k = (case map_of m k of None \<Rightarrow> [] | Some xs \<Rightarrow> xs)"

lemma om_members_add:
  "set (om_members (om_add k x m) k') = (if k' = k then insert x (set (om_members m k)) else set (om_members m k'))"
  by (cases "k' = k"; cases "map_of m k") (simp_all add: om_members_def om_add_def)

lemma om_members_fold_add:
  "set (om_members (fold (\<lambda>k. om_add k x) ks m) k') =
     (if k' \<in> set ks then insert x (set (om_members m k')) else set (om_members m k'))"
  by (induction ks arbitrary: m) (auto simp: om_members_add)

section \<open>Lists\<close>

text \<open>Neighbouring repeats in a sorted list, as the adjacent-pair loops look for them.\<close>

fun has_adjacent_repeat :: "'a list \<Rightarrow> bool" where
  "has_adjacent_repeat (x # y # xs) = (x = y \<or> has_adjacent_repeat (y # xs))"
| "has_adjacent_repeat _ = False"

lemma sorted_no_adjacent_repeat:
  "sorted (xs :: 'a::linorder list) \<Longrightarrow> \<not> has_adjacent_repeat xs \<longleftrightarrow> distinct xs"
proof (induction xs rule: has_adjacent_repeat.induct)
  case (1 x y xs)
  then show ?case by fastforce
qed auto

text \<open>The first repeated element a loop over neighbours reports.\<close>

fun first_adjacent_repeat :: "'a list \<Rightarrow> 'a option" where
  "first_adjacent_repeat (x # y # xs) = (if x = y then Some y else first_adjacent_repeat (y # xs))"
| "first_adjacent_repeat _ = None"

lemma first_adjacent_repeat_None: "first_adjacent_repeat xs = None \<longleftrightarrow> \<not> has_adjacent_repeat xs"
  by (induction xs rule: first_adjacent_repeat.induct) auto

lemma first_adjacent_repeat_sort: "first_adjacent_repeat (sort xs) = None \<longleftrightarrow> distinct (xs :: 'a::linorder list)"
  by (simp add: first_adjacent_repeat_None sorted_no_adjacent_repeat)

lemma sorted_le_last: "sorted xs \<Longrightarrow> x \<in> set xs \<Longrightarrow> x \<le> last (xs :: 'a::linorder list)"
  by (induction xs) auto

lemma sort_strict_iff: "sorted_wrt (<) (sort xs) \<longleftrightarrow> distinct xs"
  by (simp add: sorted_wrt_less_iff)

lemma sort_eq_of_mset: "mset xs = mset ys \<Longrightarrow> sort xs = sort (ys :: 'a::linorder list)"
  by (metis properties_for_sort mset_sort sorted_sort)

lemma sort_eq_Nil [simp]: "sort xs = [] \<longleftrightarrow> xs = []"
  by (metis length_0_conv length_sort)

lemma sort_sort [simp]: "sort (sort xs) = sort (xs :: 'a::linorder list)"
  by (simp add: sort_key_id_if_sorted)

section \<open>Words\<close>

text \<open>Multiplying by an odd constant loses nothing.\<close>

lemma odd_mult_cancel:
  fixes x y p :: "'a::len word"
  assumes "odd p" "x * p = y * p"
  shows "x = y"
proof -
  have "uint x * uint p mod 2 ^ LENGTH('a) = uint y * uint p mod 2 ^ LENGTH('a)"
    using assms(2) by (metis uint_word_ariths(3))
  then have "2 ^ LENGTH('a) dvd (uint x - uint y) * uint p"
    by (simp add: mod_eq_dvd_iff left_diff_distrib)
  moreover have "coprime (2 ^ LENGTH('a)) (uint p)"
    using assms(1) bit_uint_iff [of p 0] by (simp add: bit_0 coprime_left_2_iff_odd)
  ultimately have "2 ^ LENGTH('a) dvd uint x - uint y"
    by (simp add: coprime_dvd_mult_left_iff)
  then have "uint x mod 2 ^ LENGTH('a) = uint y mod 2 ^ LENGTH('a)"
    by (rule mod_eq_dvd_iff [THEN iffD2])
  moreover have "uint z mod 2 ^ LENGTH('a) = uint z" for z :: "'a word"
    by (rule mod_pos_pos_trivial) (simp_all add: unsigned_less)
  ultimately show ?thesis by (simp add: word_uint_eq_iff)
qed

section \<open>Enumerations on the wire\<close>

text \<open>
  Every enumeration of the library that is stored or sent has the underlying type
  \<open>std::uint8_t\<close> and consecutive values from 1. A decoder checks \<open>is_defined_*\<close> on the raw
  byte and then casts; \<open>of_code\<close> is the cast, defined on exactly the values of the
  enumeration.
\<close>

lemma unat_u8: "n < 256 \<Longrightarrow> unat (of_nat n :: u8) = n"
  by (simp add: unat_of_nat)

locale wire_enum =
  fixes code :: "'a \<Rightarrow> u8"
    and "values" :: "'a list"
    and is_defined :: "u8 \<Rightarrow> bool"
    and of_code :: "u8 \<Rightarrow> 'a option"
  assumes codes: "map code values = map of_nat [1..<Suc (length values)]"
    and "values": "x \<in> set values"
    and few: "length values < 255"
    and range: "is_defined raw \<longleftrightarrow> 1 \<le> raw \<and> raw \<le> of_nat (length values)"
    and cast: "of_code raw = find (\<lambda>x. code x = raw) values"
begin

lemma code_nth: "i < length values \<Longrightarrow> code (values ! i) = of_nat (Suc i)"
  using arg_cong [OF codes, where f = "\<lambda>xs. xs ! i"] by (simp del: upt_Suc)

lemma unat_code_nth: "i < length values \<Longrightarrow> unat (code (values ! i)) = Suc i"
  using few by (simp add: code_nth unat_u8 del: of_nat_Suc)

lemma nth_ex: "\<exists>i<length values. x = values ! i"
  using "values" [of x] by (metis in_set_conv_nth)

lemma code_inject: "code x = code y \<longleftrightarrow> x = y"
  using nth_ex [of x] nth_ex [of y] unat_code_nth by (metis Suc_inject)

lemma code_le_neq: "code x \<le> code y \<Longrightarrow> x \<noteq> y \<Longrightarrow> code x < code y"
  using code_inject by (metis order_le_less)

lemma is_defined_code [simp]: "is_defined (code x)"
proof -
  obtain i where i: "i < length values" "x = values ! i" using nth_ex by blast
  with unat_code_nth [of i] few show ?thesis
    by (auto simp: range word_le_nat_alt unat_u8)
qed

lemma of_code_Some: "of_code raw = Some x \<longleftrightarrow> code x = raw"
proof
  assume "of_code raw = Some x"
  then show "code x = raw" by (auto simp: cast find_Some_iff)
next
  assume x: "code x = raw"
  then have "find (\<lambda>x. code x = raw) values \<noteq> None"
    using "values" [of x] by (auto simp: find_None_iff)
  then obtain y where "find (\<lambda>x. code x = raw) values = Some y" by auto
  moreover from this have "code y = raw" by (auto simp: find_Some_iff)
  ultimately show "of_code raw = Some x" using x code_inject cast by auto
qed

lemma of_code_code [simp]: "of_code (code x) = Some x"
  by (simp add: of_code_Some)

lemma is_defined_iff: "is_defined raw \<longleftrightarrow> of_code raw \<noteq> None"
proof
  assume d: "is_defined raw"
  then have b: "1 \<le> unat raw" "unat raw \<le> length values"
    using few by (auto simp: range word_le_nat_alt unat_u8)
  then have "unat (code (values ! (unat raw - 1))) = unat raw"
    using unat_code_nth [of "unat raw - 1"] by simp
  then have "code (values ! (unat raw - 1)) = raw" by (rule unsigned_word_eqI)
  then show "of_code raw \<noteq> None" using of_code_Some by blast
next
  assume "of_code raw \<noteq> None"
  then show "is_defined raw" using of_code_Some is_defined_code by fastforce
qed

end

text \<open>Enumerations with a parser for their names.\<close>

locale named_enum =
  fixes name :: "'a \<Rightarrow> string"
    and "values" :: "'a list"
    and from_string :: "string \<Rightarrow> 'a option"
  assumes names: "distinct (map name values)"
    and all_values: "x \<in> set values"
    and lookup: "from_string t = find (\<lambda>x. name x = t) values"
begin

lemma name_inject: "name x = name y \<longleftrightarrow> x = y"
  using names all_values by (auto simp: distinct_map inj_on_def)

lemma from_string_Some: "from_string t = Some x \<longleftrightarrow> name x = t"
proof
  assume "from_string t = Some x"
  then show "name x = t" by (auto simp: lookup find_Some_iff)
next
  assume x: "name x = t"
  then obtain y where y: "find (\<lambda>x. name x = t) values = Some y"
    using all_values [of x] by (cases "find (\<lambda>x. name x = t) values") (auto simp: find_None_iff)
  then have "name y = t" by (auto simp: find_Some_iff)
  with x y show "from_string t = Some x" using name_inject lookup by auto
qed

lemma from_string_name [simp]: "from_string (name x) = Some x"
  by (simp add: from_string_Some)

lemma from_string_None: "from_string t = None \<longleftrightarrow> (\<forall>x. name x \<noteq> t)"
  using from_string_Some by (metis not_None_eq)

end

end
