(* ===== verification/Identity.thy ===== *)
theory Identity
  imports Prelude
begin

text \<open>
  Strongly typed identities and generation counters (\<open>include/path_diversity/strong_id.hpp\<close>,
  \<open>ids.hpp\<close>, and \<open>detail::valid_identity_text\<close> of \<open>src/digest.cpp\<close>).

  \<open>StringId<Tag, MaxLen>\<close> is the phantom-tagged datatype \<open>string_id\<close>: two tags give two types.
  An identity that was never assigned has the empty view. The maximal length is an argument of
  the parsing functions. A \<open>Generation<Tag>\<close> wraps a 64-bit word; 0 means unset.
\<close>

section \<open>Text identities\<close>

datatype identity_error = IdentityError string

datatype 'tag string_id = StringId (id_view: string)

definition identity_char :: "char \<Rightarrow> bool" where
  "identity_char c =
     (let raw = (of_char c :: nat);
          alphanumeric = (97 \<le> raw \<and> raw \<le> 122) \<or> (65 \<le> raw \<and> raw \<le> 90) \<or> (48 \<le> raw \<and> raw \<le> 57);
          separator = c \<in> {CHR ''.'', CHR ''_'', CHR ''-'', CHR '':'', CHR ''/'', CHR ''#'', CHR ''@'', CHR ''+''}
      in alphanumeric \<or> separator)"

definition valid_identity_text :: "string \<Rightarrow> nat \<Rightarrow> bool" where
  "valid_identity_text text max_len =
     (if text = [] \<or> max_len < length text then False else list_all identity_char text)"

definition id_valid :: "'tag string_id \<Rightarrow> bool" where
  "id_valid i \<longleftrightarrow> length (id_view i) \<noteq> 0"

definition unset_id :: "'tag string_id" where
  "unset_id = StringId []"

definition try_parse :: "nat \<Rightarrow> string \<Rightarrow> 'tag string_id option" where
  "try_parse max_len text =
     (if \<not> valid_identity_text text max_len then None else Some (StringId text))"

definition parse_id :: "string \<Rightarrow> nat \<Rightarrow> string \<Rightarrow> identity_error + 'tag string_id" where
  "parse_id tag_name max_len text =
     (case try_parse max_len text of
        None \<Rightarrow> Inl (IdentityError (''malformed '' @ tag_name @ '' encoding''))
      | Some i \<Rightarrow> Inr i)"

definition id_from_wire :: "nat \<Rightarrow> string \<Rightarrow> 'tag string_id option" where
  "id_from_wire = try_parse"

definition id_hash :: "'tag string_id \<Rightarrow> u64" where
  "id_hash i = foldl (\<lambda>h c. (h XOR of_nat (of_char c)) * 1099511628211) 1469598103934665603 (id_view i)"

text \<open>A stored identity is unset or was accepted by the parser.\<close>

definition id_wf :: "nat \<Rightarrow> 'tag string_id \<Rightarrow> bool" where
  "id_wf max_len i \<longleftrightarrow> id_view i = [] \<or> valid_identity_text (id_view i) max_len"

instantiation string_id :: (type) linorder
begin

definition less_eq_string_id :: "'a string_id \<Rightarrow> 'a string_id \<Rightarrow> bool" where
  "less_eq_string_id a b \<longleftrightarrow> id_view a \<le> id_view b"

definition less_string_id :: "'a string_id \<Rightarrow> 'a string_id \<Rightarrow> bool" where
  "less_string_id a b \<longleftrightarrow> id_view a < id_view b"

instance
  by standard (auto simp: less_eq_string_id_def less_string_id_def string_id.expand)

end

lemma id_valid_unset [simp]: "\<not> id_valid unset_id"
  by (simp add: id_valid_def unset_id_def)

lemma valid_identity_text_nonempty [simp]: "\<not> valid_identity_text [] n"
  by (simp add: valid_identity_text_def)

lemma valid_identity_text_mono:
  "valid_identity_text t n \<Longrightarrow> n \<le> m \<Longrightarrow> valid_identity_text t m"
  by (auto simp: valid_identity_text_def split: if_splits)

lemma valid_identity_text_length: "valid_identity_text t n \<Longrightarrow> length t \<le> n"
  by (auto simp: valid_identity_text_def split: if_splits)

lemma try_parse_Some: "try_parse n t = Some i \<longleftrightarrow> valid_identity_text t n \<and> i = StringId t"
  by (auto simp: try_parse_def)

lemma try_parse_None: "try_parse n t = None \<longleftrightarrow> \<not> valid_identity_text t n"
  by (auto simp: try_parse_def)

lemma try_parse_view: "id_wf n i \<Longrightarrow> id_valid i \<Longrightarrow> try_parse n (id_view i) = Some i"
  by (cases i) (auto simp: try_parse_def id_wf_def id_valid_def)

lemma try_parse_wf: "try_parse n t = Some i \<Longrightarrow> id_wf n i \<and> id_valid i \<and> id_view i = t"
  by (auto simp: try_parse_Some id_wf_def id_valid_def)

section \<open>Generations\<close>

datatype 'tag generation = Generation (gen_value: u64)

definition gen_unset :: "'tag generation" where
  "gen_unset = Generation 0"

definition gen_from_wire :: "u64 \<Rightarrow> 'tag generation option" where
  "gen_from_wire v = (if v = 0 then None else Some (Generation v))"

definition gen_is_set :: "'tag generation \<Rightarrow> bool" where
  "gen_is_set g \<longleftrightarrow> gen_value g \<noteq> 0"

definition gen_next :: "'tag generation \<Rightarrow> 'tag generation" where
  "gen_next g = Generation (gen_value g + 1)"

definition gen_can_advance :: "u64 \<Rightarrow> bool" where
  "gen_can_advance v \<longleftrightarrow> v \<noteq> - 1"

definition gen_text :: "'tag generation \<Rightarrow> string" where
  "gen_text g = decimal (unat (gen_value g))"

instantiation generation :: (type) linorder
begin

definition less_eq_generation :: "'a generation \<Rightarrow> 'a generation \<Rightarrow> bool" where
  "less_eq_generation a b \<longleftrightarrow> gen_value a \<le> gen_value b"

definition less_generation :: "'a generation \<Rightarrow> 'a generation \<Rightarrow> bool" where
  "less_generation a b \<longleftrightarrow> gen_value a < gen_value b"

instance
  by standard (auto simp: less_eq_generation_def less_generation_def generation.expand)

end

lemma unat_plus_one:
  assumes "x \<noteq> (- 1 :: u64)"
  shows "unat (x + 1) = Suc (unat x)"
proof -
  have max: "unat (- 1 :: u64) = 2 ^ 64 - 1"
    by (simp add: unsigned_minus_1_eq_mask mask_eq_exp_minus_1)
  have "unat x \<noteq> 2 ^ 64 - 1"
    using assms max by (metis unsigned_word_eqI)
  moreover have "unat x < 2 ^ 64"
    using unsigned_less [of x] by simp
  ultimately have "Suc (unat x) < 2 ^ 64" by simp
  then show ?thesis by (simp add: unat_word_ariths)
qed

lemma gen_next_value: "gen_can_advance (gen_value g) \<Longrightarrow> unat (gen_value (gen_next g)) = Suc (unat (gen_value g))"
  by (simp add: gen_next_def gen_can_advance_def unat_plus_one)

lemma gen_next_gt: "gen_can_advance (gen_value g) \<Longrightarrow> g < gen_next g"
  by (simp add: less_generation_def word_less_nat_alt gen_next_value)

lemma gen_next_set: "gen_can_advance (gen_value g) \<Longrightarrow> gen_is_set (gen_next g)"
  using gen_next_gt [of g]
  by (auto simp: gen_is_set_def less_generation_def)

lemma gen_next_wraps: "\<not> gen_can_advance (gen_value g) \<Longrightarrow> \<not> gen_is_set (gen_next g)"
  by (simp add: gen_is_set_def gen_next_def gen_can_advance_def)

lemma gen_unset_least [simp]: "gen_unset \<le> g"
  by (simp add: less_eq_generation_def gen_unset_def)

lemma gen_is_set_unset [simp]: "\<not> gen_is_set gen_unset"
  by (simp add: gen_is_set_def gen_unset_def)

section \<open>The identity types\<close>

datatype diversity_policy_id_tag = DiversityPolicyIdTag
datatype diversity_proof_id_tag = DiversityProofIdTag
datatype path_set_id_tag = PathSetIdTag
datatype snapshot_id_tag = SnapshotIdTag
datatype worker_boot_id_tag = WorkerBootIdTag
datatype mutation_attempt_id_tag = MutationAttemptIdTag
datatype publisher_id_tag = PublisherIdTag
datatype path_id_tag = PathIdTag
datatype scope_id_tag = ScopeIdTag
datatype link_id_tag = LinkIdTag
datatype node_id_tag = NodeIdTag
datatype device_id_tag = DeviceIdTag
datatype failure_domain_id_tag = FailureDomainIdTag
datatype shared_risk_group_id_tag = SharedRiskGroupIdTag

datatype diversity_policy_generation_tag = DiversityPolicyGenerationTag
datatype diversity_proof_generation_tag = DiversityProofGenerationTag
datatype path_authority_generation_tag = PathAuthorityGenerationTag
datatype topology_generation_tag = TopologyGenerationTag
datatype failure_domain_generation_tag = FailureDomainGenerationTag
datatype coordinator_epoch_tag = CoordinatorEpochTag

type_synonym diversity_policy_id = "diversity_policy_id_tag string_id"
type_synonym diversity_proof_id = "diversity_proof_id_tag string_id"
type_synonym path_set_id = "path_set_id_tag string_id"
type_synonym snapshot_id = "snapshot_id_tag string_id"
type_synonym worker_boot_id = "worker_boot_id_tag string_id"
type_synonym mutation_attempt_id = "mutation_attempt_id_tag string_id"
type_synonym publisher_id = "publisher_id_tag string_id"
type_synonym path_id = "path_id_tag string_id"
type_synonym scope_id = "scope_id_tag string_id"
type_synonym link_id = "link_id_tag string_id"
type_synonym node_id = "node_id_tag string_id"
type_synonym device_id = "device_id_tag string_id"
type_synonym failure_domain_id = "failure_domain_id_tag string_id"
type_synonym shared_risk_group_id = "shared_risk_group_id_tag string_id"

type_synonym diversity_policy_generation = "diversity_policy_generation_tag generation"
type_synonym diversity_proof_generation = "diversity_proof_generation_tag generation"
type_synonym path_authority_generation = "path_authority_generation_tag generation"
type_synonym topology_generation = "topology_generation_tag generation"
type_synonym failure_domain_generation = "failure_domain_generation_tag generation"
type_synonym coordinator_epoch = "coordinator_epoch_tag generation"

text \<open>The \<open>MaxLen\<close> arguments of the type aliases in \<open>ids.hpp\<close>.\<close>

definition diversity_policy_id_max :: nat where "diversity_policy_id_max = 96"
definition diversity_proof_id_max :: nat where "diversity_proof_id_max = 96"
definition path_set_id_max :: nat where "path_set_id_max = 96"
definition snapshot_id_max :: nat where "snapshot_id_max = 96"
definition worker_boot_id_max :: nat where "worker_boot_id_max = 64"
definition mutation_attempt_id_max :: nat where "mutation_attempt_id_max = 96"
definition publisher_id_max :: nat where "publisher_id_max = 64"
definition path_id_max :: nat where "path_id_max = 96"
definition scope_id_max :: nat where "scope_id_max = 64"
definition failure_domain_id_max :: nat where "failure_domain_id_max = 128"
definition shared_risk_group_id_max :: nat where "shared_risk_group_id_max = 128"

lemmas id_max_defs =
  diversity_policy_id_max_def diversity_proof_id_max_def path_set_id_max_def snapshot_id_max_def
  worker_boot_id_max_def mutation_attempt_id_max_def publisher_id_max_def path_id_max_def
  scope_id_max_def failure_domain_id_max_def shared_risk_group_id_max_def

end
