(* ===== verification/Canonical.thy ===== *)
theory Canonical
  imports Identity
begin

text \<open>
  The canonical byte encoding (\<open>include/path_diversity/canonical.hpp\<close>, \<open>src/canonical.cpp\<close>).

  A \<open>ByteWriter\<close> only ever appends, so an encoder is the list of bytes it appends and writing
  twice is concatenation. A \<open>ByteReader\<close> is the suffix of the input it has not consumed. Its
  methods answer \<open>false\<close> once and set a sticky status that every caller returns at once, so a
  reading step is a function from the remaining bytes to an error or a value with the bytes left
  over. The error pairs the \<open>DecodeStatus\<close> with the classification a record decoder may attach
  (\<open>DecodeFailure\<close>; \<open>PS_OK\<close> where it leaves the reason unset).

  The lemmas show that every writer is undone by the matching reader, whatever follows it, and
  that the hand-written exchange sort of \<open>canonical_sort_unique\<close> is sorting and removing
  duplicates.
\<close>

section \<open>Statuses\<close>

datatype decode_status =
    DS_OK
  | DS_TRUNCATED
  | DS_LENGTH_OVERRUN
  | DS_TRAILING_BYTES
  | DS_INVALID_ENCODING
  | DS_LIMIT_EXCEEDED

definition decode_status_values :: "decode_status list" where
  "decode_status_values =
     [DS_OK,
      DS_TRUNCATED,
      DS_LENGTH_OVERRUN,
      DS_TRAILING_BYTES,
      DS_INVALID_ENCODING,
      DS_LIMIT_EXCEEDED]"

definition decode_status_to_string :: "decode_status \<Rightarrow> string" where
  "decode_status_to_string v = (case v of
      DS_OK \<Rightarrow> ''OK''
    | DS_TRUNCATED \<Rightarrow> ''TRUNCATED''
    | DS_LENGTH_OVERRUN \<Rightarrow> ''LENGTH_OVERRUN''
    | DS_TRAILING_BYTES \<Rightarrow> ''TRAILING_BYTES''
    | DS_INVALID_ENCODING \<Rightarrow> ''INVALID_ENCODING''
    | DS_LIMIT_EXCEEDED \<Rightarrow> ''LIMIT_EXCEEDED'')"

datatype persistence_status =
    PS_OK
  | PS_EMPTY_FILE
  | PS_MALFORMED_MAGIC
  | PS_UNSUPPORTED_VERSION
  | PS_TRUNCATED
  | PS_INTEGRITY_FAILURE
  | PS_TRAILING_BYTES
  | PS_RECORD_LIMIT_EXCEEDED
  | PS_SIZE_LIMIT_EXCEEDED
  | PS_DUPLICATE_PATH
  | PS_MALFORMED_IDENTITY
  | PS_INVALID_ENUM
  | PS_IMPOSSIBLE_GENERATION
  | PS_MATRIX_DIMENSION_MISMATCH
  | PS_UNKNOWN_REFERENCE
  | PS_INCOMPLETE_EVIDENCE_CLAIM
  | PS_INVALID_WITNESS
  | PS_ABSURD_COUNT
  | PS_ARITHMETIC_OVERFLOW
  | PS_IO_FAILURE
  | PS_ATOMIC_REPLACE_FAILURE
  | PS_LIMIT_EXCEEDED
  | PS_INTERNAL_INCONSISTENCY

definition persistence_status_values :: "persistence_status list" where
  "persistence_status_values =
     [PS_OK,
      PS_EMPTY_FILE,
      PS_MALFORMED_MAGIC,
      PS_UNSUPPORTED_VERSION,
      PS_TRUNCATED,
      PS_INTEGRITY_FAILURE,
      PS_TRAILING_BYTES,
      PS_RECORD_LIMIT_EXCEEDED,
      PS_SIZE_LIMIT_EXCEEDED,
      PS_DUPLICATE_PATH,
      PS_MALFORMED_IDENTITY,
      PS_INVALID_ENUM,
      PS_IMPOSSIBLE_GENERATION,
      PS_MATRIX_DIMENSION_MISMATCH,
      PS_UNKNOWN_REFERENCE,
      PS_INCOMPLETE_EVIDENCE_CLAIM,
      PS_INVALID_WITNESS,
      PS_ABSURD_COUNT,
      PS_ARITHMETIC_OVERFLOW,
      PS_IO_FAILURE,
      PS_ATOMIC_REPLACE_FAILURE,
      PS_LIMIT_EXCEEDED,
      PS_INTERNAL_INCONSISTENCY]"

primrec persistence_status_code :: "persistence_status \<Rightarrow> u8" where
  "persistence_status_code PS_OK = 1"
| "persistence_status_code PS_EMPTY_FILE = 2"
| "persistence_status_code PS_MALFORMED_MAGIC = 3"
| "persistence_status_code PS_UNSUPPORTED_VERSION = 4"
| "persistence_status_code PS_TRUNCATED = 5"
| "persistence_status_code PS_INTEGRITY_FAILURE = 6"
| "persistence_status_code PS_TRAILING_BYTES = 7"
| "persistence_status_code PS_RECORD_LIMIT_EXCEEDED = 8"
| "persistence_status_code PS_SIZE_LIMIT_EXCEEDED = 9"
| "persistence_status_code PS_DUPLICATE_PATH = 10"
| "persistence_status_code PS_MALFORMED_IDENTITY = 11"
| "persistence_status_code PS_INVALID_ENUM = 12"
| "persistence_status_code PS_IMPOSSIBLE_GENERATION = 13"
| "persistence_status_code PS_MATRIX_DIMENSION_MISMATCH = 14"
| "persistence_status_code PS_UNKNOWN_REFERENCE = 15"
| "persistence_status_code PS_INCOMPLETE_EVIDENCE_CLAIM = 16"
| "persistence_status_code PS_INVALID_WITNESS = 17"
| "persistence_status_code PS_ABSURD_COUNT = 18"
| "persistence_status_code PS_ARITHMETIC_OVERFLOW = 19"
| "persistence_status_code PS_IO_FAILURE = 20"
| "persistence_status_code PS_ATOMIC_REPLACE_FAILURE = 21"
| "persistence_status_code PS_LIMIT_EXCEEDED = 22"
| "persistence_status_code PS_INTERNAL_INCONSISTENCY = 23"

definition is_defined_persistence_status :: "u8 \<Rightarrow> bool" where
  "is_defined_persistence_status raw \<longleftrightarrow> persistence_status_code PS_OK \<le> raw \<and> raw \<le> persistence_status_code PS_INTERNAL_INCONSISTENCY"

definition persistence_status_of_code :: "u8 \<Rightarrow> persistence_status option" where
  "persistence_status_of_code raw = find (\<lambda>x. persistence_status_code x = raw) persistence_status_values"

definition persistence_status_to_string :: "persistence_status \<Rightarrow> string" where
  "persistence_status_to_string v = (case v of
      PS_OK \<Rightarrow> ''OK''
    | PS_EMPTY_FILE \<Rightarrow> ''EMPTY_FILE''
    | PS_MALFORMED_MAGIC \<Rightarrow> ''MALFORMED_MAGIC''
    | PS_UNSUPPORTED_VERSION \<Rightarrow> ''UNSUPPORTED_VERSION''
    | PS_TRUNCATED \<Rightarrow> ''TRUNCATED''
    | PS_INTEGRITY_FAILURE \<Rightarrow> ''INTEGRITY_FAILURE''
    | PS_TRAILING_BYTES \<Rightarrow> ''TRAILING_BYTES''
    | PS_RECORD_LIMIT_EXCEEDED \<Rightarrow> ''RECORD_LIMIT_EXCEEDED''
    | PS_SIZE_LIMIT_EXCEEDED \<Rightarrow> ''SIZE_LIMIT_EXCEEDED''
    | PS_DUPLICATE_PATH \<Rightarrow> ''DUPLICATE_PATH''
    | PS_MALFORMED_IDENTITY \<Rightarrow> ''MALFORMED_IDENTITY''
    | PS_INVALID_ENUM \<Rightarrow> ''INVALID_ENUM''
    | PS_IMPOSSIBLE_GENERATION \<Rightarrow> ''IMPOSSIBLE_GENERATION''
    | PS_MATRIX_DIMENSION_MISMATCH \<Rightarrow> ''MATRIX_DIMENSION_MISMATCH''
    | PS_UNKNOWN_REFERENCE \<Rightarrow> ''UNKNOWN_REFERENCE''
    | PS_INCOMPLETE_EVIDENCE_CLAIM \<Rightarrow> ''INCOMPLETE_EVIDENCE_CLAIM''
    | PS_INVALID_WITNESS \<Rightarrow> ''INVALID_WITNESS''
    | PS_ABSURD_COUNT \<Rightarrow> ''ABSURD_COUNT''
    | PS_ARITHMETIC_OVERFLOW \<Rightarrow> ''ARITHMETIC_OVERFLOW''
    | PS_IO_FAILURE \<Rightarrow> ''IO_FAILURE''
    | PS_ATOMIC_REPLACE_FAILURE \<Rightarrow> ''ATOMIC_REPLACE_FAILURE''
    | PS_LIMIT_EXCEEDED \<Rightarrow> ''LIMIT_EXCEEDED''
    | PS_INTERNAL_INCONSISTENCY \<Rightarrow> ''INTERNAL_INCONSISTENCY'')"

interpretation persistence_status_enum: wire_enum persistence_status_code persistence_status_values is_defined_persistence_status persistence_status_of_code
proof unfold_locales
  show "map persistence_status_code persistence_status_values = map of_nat [1..<Suc (length persistence_status_values)]"
    by (simp add: persistence_status_values_def upt_rec)
  show "x \<in> set persistence_status_values" for x
    by (cases x) (simp_all add: persistence_status_values_def)
  show "length persistence_status_values < 255"
    by (simp add: persistence_status_values_def)
  show "is_defined_persistence_status raw \<longleftrightarrow> 1 \<le> raw \<and> raw \<le> of_nat (length persistence_status_values)" for raw
    by (simp add: is_defined_persistence_status_def persistence_status_values_def)
  show "persistence_status_of_code raw = find (\<lambda>x. persistence_status_code x = raw) persistence_status_values" for raw
    by (simp add: persistence_status_of_code_def)
qed

type_synonym decode_error = "decode_status \<times> persistence_status"
type_synonym bytes = "u8 list"
type_synonym ('e, 'a) reading = "bytes \<Rightarrow> 'e + 'a \<times> bytes"
type_synonym 'a parser = "(decode_error, 'a) reading"

definition preturn :: "'a \<Rightarrow> ('e, 'a) reading" where
  "preturn x bs = Inr (x, bs)"

definition pfail :: "decode_status \<Rightarrow> 'a parser" where
  "pfail st bs = Inl (st, PS_OK)"

definition pbind :: "('e, 'a) reading \<Rightarrow> ('a \<Rightarrow> ('e, 'b) reading) \<Rightarrow> ('e, 'b) reading" where
  "pbind p f bs = (case p bs of Inl e \<Rightarrow> Inl e | Inr (x, rest) \<Rightarrow> f x rest)"

text \<open>A check between two reads: continue when it holds, otherwise stop with the error.\<close>

definition pguard :: "bool \<Rightarrow> 'e \<Rightarrow> ('e, 'a) reading \<Rightarrow> ('e, 'a) reading" where
  "pguard b e p bs = (if b then p bs else Inl e)"

lemma preturn_simp [codec_simps]: "preturn x bs = Inr (x, bs)"
  by (simp add: preturn_def)

lemma pguard_True [codec_simps]: "b \<Longrightarrow> pguard b e p bs = p bs"
  by (simp add: pguard_def)

lemma pguard_False: "\<not> b \<Longrightarrow> pguard b e p bs = Inl e"
  by (simp add: pguard_def)

lemma pbind_Inr [codec_simps]: "p bs = Inr (x, rest) \<Longrightarrow> pbind p f bs = f x rest"
  by (simp add: pbind_def)

lemma pbind_Inl: "p bs = Inl e \<Longrightarrow> pbind p f bs = Inl e"
  by (simp add: pbind_def)

lemma pbind_eq_Inr:
  "pbind p f bs = Inr r \<longleftrightarrow> (\<exists>x rest. p bs = Inr (x, rest) \<and> f x rest = Inr r)"
  by (auto simp: pbind_def split: sum.splits prod.splits)

lemma pguard_eq_Inr: "pguard b e p bs = Inr r \<longleftrightarrow> b \<and> p bs = Inr r"
  by (simp add: pguard_def)

lemma preturn_eq_Inr: "preturn x bs = Inr r \<longleftrightarrow> r = (x, bs)"
  by (auto simp: preturn_def)

lemmas parser_success = pbind_eq_Inr pguard_eq_Inr preturn_eq_Inr

section \<open>Writers\<close>

definition le_bytes :: "nat \<Rightarrow> 'a::len word \<Rightarrow> bytes" where
  "le_bytes n v = map (\<lambda>i. ucast (drop_bit (8 * i) v AND 0xff)) [0..<n]"

definition put_u8 :: "u8 \<Rightarrow> bytes" where
  "put_u8 v = [v]"

definition put_u16 :: "u16 \<Rightarrow> bytes" where
  "put_u16 v = [ucast (v AND 0xff), ucast (drop_bit 8 v AND 0xff)]"

definition put_u32 :: "u32 \<Rightarrow> bytes" where
  "put_u32 v = le_bytes 4 v"

definition put_u64 :: "u64 \<Rightarrow> bytes" where
  "put_u64 v = le_bytes 8 v"

lemma drop_bit_smaller:
  assumes "drop_bit 7 v \<noteq> 0"
  shows "unat (drop_bit 7 (v :: u64)) < unat v"
proof -
  have "unat (drop_bit 7 v) = unat v div 128"
    unfolding unat_drop_bit_eq by (simp add: drop_bit_eq_div)
  moreover have "v \<noteq> 0" using assms by auto
  then have "0 < unat v" by (simp add: unat_gt_0)
  ultimately show ?thesis by simp
qed

function put_varint :: "u64 \<Rightarrow> bytes" where
  "put_varint v =
     (let byte = ucast (v AND 0x7f); remaining = drop_bit 7 v
      in if remaining \<noteq> 0 then (byte OR 0x80) # put_varint remaining else [byte])"
  by pat_completeness auto
termination
  by (relation "measure unat") (auto simp: drop_bit_smaller)

declare put_varint.simps [simp del]

definition put_bytes :: "bytes \<Rightarrow> bytes" where
  "put_bytes xs = put_varint (of_nat (length xs)) @ xs"

definition char_byte :: "char \<Rightarrow> u8" where
  "char_byte c = of_nat (of_char c)"

definition byte_char :: "u8 \<Rightarrow> char" where
  "byte_char b = char_of (unat b)"

definition put_text :: "string \<Rightarrow> bytes" where
  "put_text t = put_bytes (map char_byte t)"

definition put_boolean :: "bool \<Rightarrow> bytes" where
  "put_boolean b = put_u8 (if b then 1 else 0)"

section \<open>Readers\<close>

definition get_u8 :: "u8 parser" where
  "get_u8 bs = (case bs of [] \<Rightarrow> Inl (DS_TRUNCATED, PS_OK) | b # rest \<Rightarrow> Inr (b, rest))"

definition get_u16 :: "u16 parser" where
  "get_u16 bs =
     (if length bs < 2 then Inl (DS_TRUNCATED, PS_OK)
      else Inr (ucast (bs ! 0) OR push_bit 8 (ucast (bs ! 1)), drop 2 bs))"

definition le_word :: "bytes \<Rightarrow> 'a::len word" where
  "le_word bs = fold (\<lambda>i value. value OR push_bit (8 * i) (ucast (bs ! i))) [0..<length bs] 0"

definition get_u32 :: "u32 parser" where
  "get_u32 bs =
     (if length bs < 4 then Inl (DS_TRUNCATED, PS_OK) else Inr (le_word (take 4 bs), drop 4 bs))"

definition get_u64 :: "u64 parser" where
  "get_u64 bs =
     (if length bs < 8 then Inl (DS_TRUNCATED, PS_OK) else Inr (le_word (take 8 bs), drop 8 bs))"

fun get_varint_from :: "u64 \<Rightarrow> nat \<Rightarrow> u64 parser" where
  "get_varint_from value shift [] = Inl (DS_TRUNCATED, PS_OK)"
| "get_varint_from value shift (byte # rest) =
     (if 63 < shift then Inl (DS_INVALID_ENCODING, PS_OK)
      else let value' = value OR push_bit shift (ucast (byte AND 0x7f))
           in if byte AND 0x80 = 0 then Inr (value', rest)
              else get_varint_from value' (shift + 7) rest)"

definition get_varint :: "u64 parser" where
  "get_varint = get_varint_from 0 0"

definition get_bytes :: "nat \<Rightarrow> bytes parser" where
  "get_bytes max_size = pbind get_varint (\<lambda>len bs.
     if of_nat max_size < unat len then Inl (DS_LIMIT_EXCEEDED, PS_OK)
     else if length bs < unat len then Inl (DS_LENGTH_OVERRUN, PS_OK)
     else Inr (take (unat len) bs, drop (unat len) bs))"

definition get_text :: "nat \<Rightarrow> string parser" where
  "get_text max_size = pbind (get_bytes max_size) (\<lambda>raw. preturn (map byte_char raw))"

definition get_boolean :: "bool parser" where
  "get_boolean = pbind get_u8 (\<lambda>raw.
     pguard (\<not> 1 < raw) (DS_INVALID_ENCODING, PS_OK) (preturn (raw = 1)))"

definition at_end :: "bytes \<Rightarrow> bool" where
  "at_end bs \<longleftrightarrow> bs = []"

section \<open>Reading back what was written\<close>

lemma bit_fold_bytes:
  "bit (fold (\<lambda>i value. value OR push_bit (8 * i) (ucast (f i :: u8))) [0..<k] (0 :: 'a::len word)) n
     \<longleftrightarrow> n < LENGTH('a) \<and> n div 8 < k \<and> bit (f (n div 8)) (n mod 8)"
proof (induction k)
  case 0
  show ?case by simp
next
  case (Suc k)
  have step: "bit (push_bit (8 * k) (ucast (f k)) :: 'a word) n
      \<longleftrightarrow> n < LENGTH('a) \<and> n div 8 = k \<and> bit (f k) (n mod 8)"
  proof (cases "n div 8 = k")
    case True
    then have "8 * k \<le> n" "n - 8 * k = n mod 8"
      by (auto simp: minus_mult_div_eq_mod)
    then show ?thesis using True by (auto simp: bit_simps)
  next
    case False
    then have "\<not> 8 * k \<le> n \<or> 8 \<le> n - 8 * k" by linarith
    then show ?thesis using False by (auto simp: bit_simps dest: bit_imp_le_length)
  qed
  show ?case
    by (simp add: Suc bit_or_iff step) (auto simp: less_Suc_eq)
qed

lemma bit_le_word:
  "bit (le_word bs :: 'a::len word) n
     \<longleftrightarrow> n < LENGTH('a) \<and> n div 8 < length bs \<and> bit (bs ! (n div 8)) (n mod 8)"
  unfolding le_word_def by (rule bit_fold_bytes)

lemma length_le_bytes [simp]: "length (le_bytes n v) = n"
  by (simp add: le_bytes_def)

lemma bit_low_byte: "bit (w AND 0xff :: 'a::len word) m \<longleftrightarrow> m < 8 \<and> bit w m"
proof -
  have "(0xff :: 'a word) = mask 8" by (simp add: mask_eq_exp_minus_1)
  then have "w AND 0xff = take_bit 8 w" by (simp only: take_bit_eq_mask)
  then show ?thesis by (simp add: bit_take_bit_iff)
qed

lemma bit_low_byte_ucast: "bit (ucast (w AND 0xff :: 'a::len word) :: u8) m \<longleftrightarrow> m < 8 \<and> bit w m"
  by (auto simp only: bit_ucast_iff bit_low_byte) (auto dest: bit_imp_le_length)

lemma bit_le_bytes: "i < n \<Longrightarrow> bit (le_bytes n (v :: 'a::len word) ! i) m \<longleftrightarrow> m < 8 \<and> bit v (8 * i + m)"
  by (simp only: le_bytes_def nth_map_upt diff_zero add_0 bit_low_byte_ucast bit_drop_bit_eq comp_def)

lemma le_word_le_bytes: "LENGTH('a) \<le> 8 * n \<Longrightarrow> le_word (le_bytes n (v :: 'a::len word)) = v"
  by (rule bit_word_eqI) (auto simp: bit_le_word bit_le_bytes)

lemma get_u8_put [codec_simps]: "get_u8 (put_u8 v @ rest) = Inr (v, rest)"
  by (simp add: get_u8_def put_u8_def)

lemma u16_halves:
  fixes v :: u16
  shows "ucast (ucast (v AND 0xff) :: u8) OR push_bit 8 (ucast (ucast (drop_bit 8 v AND 0xff) :: u8)) = v"
proof (rule bit_word_eqI)
  fix n :: nat
  assume n: "n < LENGTH(16)"
  have lo: "bit (ucast (ucast (v AND 0xff) :: u8) :: u16) n \<longleftrightarrow> n < 8 \<and> bit v n"
    using n by (simp only: bit_ucast_iff [of "ucast (v AND 0xff) :: u8"] bit_low_byte_ucast) auto
  have hi: "bit (ucast (ucast (drop_bit 8 v AND 0xff) :: u8) :: u16) m \<longleftrightarrow> m < 8 \<and> bit v (8 + m)" for m
    by (simp only: bit_ucast_iff [of "ucast (drop_bit 8 v AND 0xff) :: u8"] bit_low_byte_ucast
          bit_drop_bit_eq comp_def) auto
  show "bit (ucast (ucast (v AND 0xff) :: u8) OR push_bit 8 (ucast (ucast (drop_bit 8 v AND 0xff) :: u8)) :: u16) n
      = bit v n"
    using n by (simp only: bit_or_iff bit_push_bit_iff lo hi possible_bit_word) auto
qed

lemma get_u16_put [codec_simps]: "get_u16 (put_u16 v @ rest) = Inr (v, rest)"
  by (simp only: get_u16_def put_u16_def append.simps list.size nth_Cons_0 nth_Cons_Suc One_nat_def
        drop_Suc_Cons drop_0 numeral_2_eq_2 u16_halves) simp

lemma get_u32_put [codec_simps]: "get_u32 (put_u32 v @ rest) = Inr (v, rest)"
  by (simp add: get_u32_def put_u32_def le_word_le_bytes)

lemma get_u64_put [codec_simps]: "get_u64 (put_u64 v @ rest) = Inr (v, rest)"
  by (simp add: get_u64_def put_u64_def le_word_le_bytes)

text \<open>
  The varint reader collects seven bits per byte; reading back a value that fits above the bits
  already collected gives the combination of both.
\<close>

lemma low7: "bit (w AND 0x7f :: 'a::len word) m \<longleftrightarrow> m < 7 \<and> bit w m"
proof -
  have "(0x7f :: 'a word) = mask 7" by (simp add: mask_eq_exp_minus_1)
  then have "w AND 0x7f = take_bit 7 w" by (simp only: take_bit_eq_mask)
  then show ?thesis by (simp add: bit_take_bit_iff)
qed

lemma low7_ucast: "bit (ucast (w AND 0x7f :: 'a::len word) :: u8) m \<longleftrightarrow> m < 7 \<and> bit w m"
  by (auto simp only: bit_ucast_iff low7) (auto dest: bit_imp_le_length)

lemma varint_byte_flag: "(ucast (v AND 0x7f :: u64) OR 0x80 :: u8) AND 0x80 \<noteq> 0"
  "(ucast (v AND 0x7f :: u64) :: u8) AND 0x80 = 0"
  "(ucast (v AND 0x7f :: u64) OR 0x80 :: u8) AND 0x7f = ucast (v AND 0x7f)"
  "(ucast (v AND 0x7f :: u64) :: u8) AND 0x7f = ucast (v AND 0x7f)"
proof -
  have flag: "bit (0x80 :: u8) n \<longleftrightarrow> n = 7" for n
  proof -
    have "(0x80 :: u8) = push_bit 7 1" by simp
    then show ?thesis by (auto simp only: bit_simps) auto
  qed
  have low: "bit (0x7f :: u8) m \<longleftrightarrow> m < 7" for m
  proof -
    have "(0x7f :: u8) = mask 7" by (simp add: mask_eq_exp_minus_1)
    then show ?thesis by (auto simp only: bit_mask_iff possible_bit_word) auto
  qed
  note bits = bit_and_iff bit_or_iff low7_ucast flag low
  show "(ucast (v AND 0x7f) OR 0x80 :: u8) AND 0x80 \<noteq> 0"
  proof -
    have "bit ((ucast (v AND 0x7f) OR 0x80 :: u8) AND 0x80) 7" by (simp only: bits) simp
    then show ?thesis by (metis bit_0_eq bot_apply bot_bool_def)
  qed
  show "(ucast (v AND 0x7f) :: u8) AND 0x80 = 0"
    by (rule bit_word_eqI) (auto simp only: bits bit_0_eq bot_apply bot_bool_def)
  show "(ucast (v AND 0x7f) OR 0x80 :: u8) AND 0x7f = ucast (v AND 0x7f)"
    by (rule bit_word_eqI) (auto simp only: bits)
  show "(ucast (v AND 0x7f) :: u8) AND 0x7f = ucast (v AND 0x7f)"
    by (rule bit_word_eqI) (auto simp only: bits)
qed

lemma varint_recombine:
  fixes v :: u64
  shows "push_bit s (ucast (ucast (v AND 0x7f) :: u8)) OR push_bit (s + 7) (drop_bit 7 v) = push_bit s v"
proof (rule bit_word_eqI)
  fix n :: nat
  assume n: "n < LENGTH(64)"
  have lo: "bit (ucast (ucast (v AND 0x7f) :: u8) :: u64) m \<longleftrightarrow> m < 7 \<and> bit v m" for m
    by (simp only: bit_ucast_iff [of "ucast (v AND 0x7f) :: u8"] low7_ucast) auto
  show "bit (push_bit s (ucast (ucast (v AND 0x7f) :: u8)) OR push_bit (s + 7) (drop_bit 7 v)) n
      = bit (push_bit s v) n"
    using n by (cases "n < s + 7"; cases "n < s")
      (simp_all only: bit_or_iff bit_push_bit_iff lo possible_bit_word bit_drop_bit_eq comp_def, auto)
qed

lemma get_varint_from_put:
  "unat v < 2 ^ (64 - s) \<Longrightarrow> s \<le> 63 \<Longrightarrow>
     get_varint_from acc s (put_varint v @ rest) = Inr (acc OR push_bit s v, rest)"
proof (induction v arbitrary: acc s rule: put_varint.induct)
  case (1 v)
  show ?case
  proof (cases "drop_bit 7 v = 0")
    case True
    then have "push_bit s (ucast (ucast (v AND 0x7f) :: u8)) = push_bit s v"
      using varint_recombine [of s v] by simp
    with True "1.prems" show ?thesis
      by (subst put_varint.simps) (simp add: varint_byte_flag Let_def)
  next
    case False
    have div: "unat (drop_bit 7 v) = unat v div 128"
      unfolding unat_drop_bit_eq by (simp add: drop_bit_eq_div)
    with False have big: "128 \<le> unat v"
      by (metis div_less linorder_not_less unat_eq_zero)
    have "s + 7 \<le> 63"
    proof (rule ccontr)
      assume "\<not> s + 7 \<le> 63"
      then have "(2 :: nat) ^ (64 - s) \<le> 2 ^ 7" by (intro power_increasing) auto
      with "1.prems"(1) big show False by simp
    qed
    then have split: "(2 :: nat) ^ (64 - s) = 2 ^ (64 - (s + 7)) * 128"
    proof -
      have "64 - s = (64 - (s + 7)) + 7" using \<open>s + 7 \<le> 63\<close> by simp
      then have "(2 :: nat) ^ (64 - s) = 2 ^ (64 - (s + 7)) * 2 ^ 7" by (metis power_add)
      then show ?thesis by simp
    qed
    then have "unat (drop_bit 7 v) < 2 ^ (64 - (s + 7))"
      using "1.prems"(1) div by (simp add: less_mult_imp_div_less)
    with "1.IH" [OF refl refl False] \<open>s + 7 \<le> 63\<close> False show ?thesis
      by (subst put_varint.simps)
         (simp add: varint_byte_flag Let_def or.assoc varint_recombine)
  qed
qed

lemma get_varint_put [codec_simps]: "get_varint (put_varint v @ rest) = Inr (v, rest)"
proof -
  have "unat v < 2 ^ (64 - 0)" using unsigned_less [of v] by simp
  then show ?thesis using get_varint_from_put [of v 0 0 rest] by (simp add: get_varint_def)
qed

lemma byte_char_char_byte [simp]: "byte_char (char_byte c) = c"
proof -
  have "of_char c < (256 :: nat)" by (metis of_char_mod_256 mod_less_divisor zero_less_numeral)
  then show ?thesis by (simp add: byte_char_def char_byte_def unat_u8)
qed

lemma get_bytes_put [codec_simps]:
  "length xs \<le> m \<Longrightarrow> m < 2 ^ 64 \<Longrightarrow> get_bytes m (put_bytes xs @ rest) = Inr (xs, rest)"
  by (simp add: get_bytes_def put_bytes_def codec_simps unat_of_nat)

lemma get_text_put [codec_simps]:
  "length t \<le> m \<Longrightarrow> m < 2 ^ 64 \<Longrightarrow> get_text m (put_text t @ rest) = Inr (t, rest)"
  by (simp add: get_text_def put_text_def codec_simps comp_def)

lemma get_boolean_put [codec_simps]: "get_boolean (put_boolean b @ rest) = Inr (b, rest)"
  by (simp add: get_boolean_def put_boolean_def codec_simps)

section \<open>Canonical ordering\<close>

text \<open>
  \<open>canonical_sort_unique\<close> sorts by exchanging: the outer loop fixes position \<open>i\<close>, the inner loop
  swaps every smaller later element into it. \<open>exchange_pass\<close> is one run of the inner loop on the
  element at \<open>i\<close> and the tail behind it. The second loop keeps an element when it differs
  from the last one written.
\<close>

fun exchange_pass :: "'a::linorder \<Rightarrow> 'a list \<Rightarrow> 'a \<times> 'a list" where
  "exchange_pass x [] = (x, [])"
| "exchange_pass x (y # ys) =
     (if y < x
      then (case exchange_pass y ys of (least, zs) \<Rightarrow> (least, x # zs))
      else (case exchange_pass x ys of (least, zs) \<Rightarrow> (least, y # zs)))"

lemma length_exchange_pass [simp]: "length (snd (exchange_pass x ys)) = length ys"
  by (induction x ys rule: exchange_pass.induct) (auto split: prod.splits)

function exchange_sort :: "'a::linorder list \<Rightarrow> 'a list" where
  "exchange_sort [] = []"
| "exchange_sort (x # xs) = fst (exchange_pass x xs) # exchange_sort (snd (exchange_pass x xs))"
  by pat_completeness auto
termination
  by (relation "measure length") auto

definition compact :: "'a list \<Rightarrow> 'a list" where
  "compact xs = fold (\<lambda>x out. if out = [] \<or> \<not> x = last out then out @ [x] else out) xs []"

definition canonical_sort_unique :: "'a::linorder list \<Rightarrow> 'a list" where
  "canonical_sort_unique xs = compact (exchange_sort xs)"

fun has_duplicates :: "'a list \<Rightarrow> bool" where
  "has_duplicates [] = False"
| "has_duplicates (x # xs) = (list_ex (\<lambda>y. x = y) xs \<or> has_duplicates xs)"

lemma mset_exchange_pass:
  "add_mset (fst (exchange_pass x ys)) (mset (snd (exchange_pass x ys))) = add_mset x (mset ys)"
proof (induction x ys rule: exchange_pass.induct)
  case (2 x y ys)
  then show ?case by (auto split: prod.splits)
qed simp

lemma exchange_pass_least: "\<forall>z\<in>set (snd (exchange_pass x ys)). fst (exchange_pass x ys) \<le> z"
  and exchange_pass_le: "fst (exchange_pass x ys) \<le> x"
  by (induction x ys rule: exchange_pass.induct) (auto split: prod.splits)

lemma mset_exchange_sort [simp]: "mset (exchange_sort xs) = mset xs"
  by (induction xs rule: exchange_sort.induct) (simp_all add: mset_exchange_pass)

lemma sorted_exchange_sort: "sorted (exchange_sort xs)"
proof (induction xs rule: exchange_sort.induct)
  case (2 x xs)
  have "set (exchange_sort (snd (exchange_pass x xs))) = set (snd (exchange_pass x xs))"
    by (metis mset_exchange_sort set_mset_mset)
  then show ?case using 2 exchange_pass_least [of x xs] by simp
qed simp

lemma exchange_sort_eq_sort: "exchange_sort xs = sort xs"
  by (metis mset_exchange_sort properties_for_sort sorted_exchange_sort)

lemma compact_step:
  "sorted (out @ xs) \<Longrightarrow> distinct out \<Longrightarrow>
     fold (\<lambda>x out. if out = [] \<or> \<not> x = last out then out @ [x] else out) xs out
       = sorted_list_of_set (set (out @ xs))"
proof (induction xs arbitrary: out)
  case Nil
  then show ?case by (simp add: sorted_list_of_set.idem_if_sorted_distinct)
next
  case (Cons x xs)
  have fresh: "x \<notin> set out" if "out = [] \<or> x \<noteq> last out"
  proof
    assume x: "x \<in> set out"
    with that have ne: "out \<noteq> []" "x \<noteq> last out" by auto
    from x Cons.prems(1) have "x \<le> last out" by (auto simp: sorted_append intro: sorted_le_last)
    moreover have "last out \<le> x" using Cons.prems(1) ne by (auto simp: sorted_append)
    ultimately show False using ne by auto
  qed
  have keep: "x \<in> set out" if "\<not> (out = [] \<or> x \<noteq> last out)"
    using that by (metis last_in_set)
  show ?case
  proof (cases "out = [] \<or> x \<noteq> last out")
    case True
    then show ?thesis using Cons.IH [of "out @ [x]"] Cons.prems fresh by auto
  next
    case False
    then have "sorted (out @ xs)" using Cons.prems(1) by (auto simp: sorted_append)
    then show ?thesis using False Cons.IH [of out] Cons.prems(2) keep by (auto simp: insert_absorb)
  qed
qed

lemma canonical_sort_unique_eq: "canonical_sort_unique xs = sorted_list_of_set (set xs)"
  using compact_step [of "[]" "exchange_sort xs"]
  by (simp add: canonical_sort_unique_def compact_def exchange_sort_eq_sort)

lemma set_canonical_sort_unique [simp]: "set (canonical_sort_unique xs) = set xs"
  by (simp add: canonical_sort_unique_eq)

lemma canonical_sort_unique_strict [simp]: "sorted_wrt (<) (canonical_sort_unique xs)"
  by (simp add: canonical_sort_unique_eq)

lemma canonical_sort_unique_idem [simp]:
  "canonical_sort_unique (canonical_sort_unique xs) = canonical_sort_unique xs"
  by (simp add: canonical_sort_unique_eq)

lemma has_duplicates_iff [simp]: "has_duplicates xs \<longleftrightarrow> \<not> distinct xs"
  by (induction xs) (auto simp: list_ex_iff)

section \<open>Integrity hash\<close>

definition fnv1a64_step :: "u8 \<Rightarrow> u64 \<Rightarrow> u64" where
  "fnv1a64_step b hash = (hash XOR ucast b) * 1099511628211"

definition fnv1a64 :: "bytes \<Rightarrow> u64" where
  "fnv1a64 bs = fold fnv1a64_step bs 14695981039346656037"

end
