(* ===== verification/Domain.thy ===== *)
theory Domain
  imports Canonical
begin

text \<open>
  Structural entities, correlated-failure relations, evidence coverage, diversity classes and
  path compositions (\<open>include/path_diversity/domain.hpp\<close>, \<open>diversity_class.hpp\<close>,
  \<open>src/domain.cpp\<close>). Each enumeration interprets \<open>wire_enum\<close> on its own codes.
\<close>

section \<open>Enumerations\<close>

datatype entity_kind =
    EK_ENDPOINT
  | EK_NODE
  | EK_LINK
  | EK_DEVICE

definition entity_kind_values :: "entity_kind list" where
  "entity_kind_values =
     [EK_ENDPOINT,
      EK_NODE,
      EK_LINK,
      EK_DEVICE]"

primrec entity_kind_code :: "entity_kind \<Rightarrow> u8" where
  "entity_kind_code EK_ENDPOINT = 1"
| "entity_kind_code EK_NODE = 2"
| "entity_kind_code EK_LINK = 3"
| "entity_kind_code EK_DEVICE = 4"

definition is_defined_entity_kind :: "u8 \<Rightarrow> bool" where
  "is_defined_entity_kind raw \<longleftrightarrow> entity_kind_code EK_ENDPOINT \<le> raw \<and> raw \<le> entity_kind_code EK_DEVICE"

definition entity_kind_of_code :: "u8 \<Rightarrow> entity_kind option" where
  "entity_kind_of_code raw = find (\<lambda>x. entity_kind_code x = raw) entity_kind_values"

definition entity_kind_to_string :: "entity_kind \<Rightarrow> string" where
  "entity_kind_to_string v = (case v of
      EK_ENDPOINT \<Rightarrow> ''ENDPOINT''
    | EK_NODE \<Rightarrow> ''NODE''
    | EK_LINK \<Rightarrow> ''LINK''
    | EK_DEVICE \<Rightarrow> ''DEVICE'')"

interpretation entity_kind_enum: wire_enum entity_kind_code entity_kind_values is_defined_entity_kind entity_kind_of_code
proof unfold_locales
  show "map entity_kind_code entity_kind_values = map of_nat [1..<Suc (length entity_kind_values)]"
    by (simp add: entity_kind_values_def upt_rec)
  show "x \<in> set entity_kind_values" for x
    by (cases x) (simp_all add: entity_kind_values_def)
  show "length entity_kind_values < 255"
    by (simp add: entity_kind_values_def)
  show "is_defined_entity_kind raw \<longleftrightarrow> 1 \<le> raw \<and> raw \<le> of_nat (length entity_kind_values)" for raw
    by (simp add: is_defined_entity_kind_def entity_kind_values_def)
  show "entity_kind_of_code raw = find (\<lambda>x. entity_kind_code x = raw) entity_kind_values" for raw
    by (simp add: entity_kind_of_code_def)
qed

instantiation entity_kind :: linorder
begin

definition less_eq_entity_kind :: "entity_kind \<Rightarrow> entity_kind \<Rightarrow> bool" where
  "less_eq_entity_kind a b \<longleftrightarrow> entity_kind_code a \<le> entity_kind_code b"

definition less_entity_kind :: "entity_kind \<Rightarrow> entity_kind \<Rightarrow> bool" where
  "less_entity_kind a b \<longleftrightarrow> entity_kind_code a < entity_kind_code b"

instance
  by standard (auto simp: less_eq_entity_kind_def less_entity_kind_def entity_kind_enum.code_inject order_less_le)

end

datatype domain_relation =
    DR_FAILURE_DOMAIN
  | DR_RACK
  | DR_POD
  | DR_SITE
  | DR_POWER_DOMAIN
  | DR_CONDUIT
  | DR_COOLING

definition domain_relation_values :: "domain_relation list" where
  "domain_relation_values =
     [DR_FAILURE_DOMAIN,
      DR_RACK,
      DR_POD,
      DR_SITE,
      DR_POWER_DOMAIN,
      DR_CONDUIT,
      DR_COOLING]"

primrec domain_relation_code :: "domain_relation \<Rightarrow> u8" where
  "domain_relation_code DR_FAILURE_DOMAIN = 1"
| "domain_relation_code DR_RACK = 2"
| "domain_relation_code DR_POD = 3"
| "domain_relation_code DR_SITE = 4"
| "domain_relation_code DR_POWER_DOMAIN = 5"
| "domain_relation_code DR_CONDUIT = 6"
| "domain_relation_code DR_COOLING = 7"

definition is_defined_domain_relation :: "u8 \<Rightarrow> bool" where
  "is_defined_domain_relation raw \<longleftrightarrow> domain_relation_code DR_FAILURE_DOMAIN \<le> raw \<and> raw \<le> domain_relation_code DR_COOLING"

definition domain_relation_of_code :: "u8 \<Rightarrow> domain_relation option" where
  "domain_relation_of_code raw = find (\<lambda>x. domain_relation_code x = raw) domain_relation_values"

definition domain_relation_to_string :: "domain_relation \<Rightarrow> string" where
  "domain_relation_to_string v = (case v of
      DR_FAILURE_DOMAIN \<Rightarrow> ''FAILURE_DOMAIN''
    | DR_RACK \<Rightarrow> ''RACK''
    | DR_POD \<Rightarrow> ''POD''
    | DR_SITE \<Rightarrow> ''SITE''
    | DR_POWER_DOMAIN \<Rightarrow> ''POWER_DOMAIN''
    | DR_CONDUIT \<Rightarrow> ''CONDUIT''
    | DR_COOLING \<Rightarrow> ''COOLING'')"

interpretation domain_relation_enum: wire_enum domain_relation_code domain_relation_values is_defined_domain_relation domain_relation_of_code
proof unfold_locales
  show "map domain_relation_code domain_relation_values = map of_nat [1..<Suc (length domain_relation_values)]"
    by (simp add: domain_relation_values_def upt_rec)
  show "x \<in> set domain_relation_values" for x
    by (cases x) (simp_all add: domain_relation_values_def)
  show "length domain_relation_values < 255"
    by (simp add: domain_relation_values_def)
  show "is_defined_domain_relation raw \<longleftrightarrow> 1 \<le> raw \<and> raw \<le> of_nat (length domain_relation_values)" for raw
    by (simp add: is_defined_domain_relation_def domain_relation_values_def)
  show "domain_relation_of_code raw = find (\<lambda>x. domain_relation_code x = raw) domain_relation_values" for raw
    by (simp add: domain_relation_of_code_def)
qed

instantiation domain_relation :: linorder
begin

definition less_eq_domain_relation :: "domain_relation \<Rightarrow> domain_relation \<Rightarrow> bool" where
  "less_eq_domain_relation a b \<longleftrightarrow> domain_relation_code a \<le> domain_relation_code b"

definition less_domain_relation :: "domain_relation \<Rightarrow> domain_relation \<Rightarrow> bool" where
  "less_domain_relation a b \<longleftrightarrow> domain_relation_code a < domain_relation_code b"

instance
  by standard (auto simp: less_eq_domain_relation_def less_domain_relation_def domain_relation_enum.code_inject order_less_le)

end

datatype evidence_coverage =
    EV_COMPLETE
  | EV_PARTIAL
  | EV_ABSENT

definition evidence_coverage_values :: "evidence_coverage list" where
  "evidence_coverage_values =
     [EV_COMPLETE,
      EV_PARTIAL,
      EV_ABSENT]"

primrec evidence_coverage_code :: "evidence_coverage \<Rightarrow> u8" where
  "evidence_coverage_code EV_COMPLETE = 1"
| "evidence_coverage_code EV_PARTIAL = 2"
| "evidence_coverage_code EV_ABSENT = 3"

definition is_defined_coverage :: "u8 \<Rightarrow> bool" where
  "is_defined_coverage raw \<longleftrightarrow> evidence_coverage_code EV_COMPLETE \<le> raw \<and> raw \<le> evidence_coverage_code EV_ABSENT"

definition evidence_coverage_of_code :: "u8 \<Rightarrow> evidence_coverage option" where
  "evidence_coverage_of_code raw = find (\<lambda>x. evidence_coverage_code x = raw) evidence_coverage_values"

definition evidence_coverage_to_string :: "evidence_coverage \<Rightarrow> string" where
  "evidence_coverage_to_string v = (case v of
      EV_COMPLETE \<Rightarrow> ''COMPLETE''
    | EV_PARTIAL \<Rightarrow> ''PARTIAL''
    | EV_ABSENT \<Rightarrow> ''ABSENT'')"

interpretation evidence_coverage_enum: wire_enum evidence_coverage_code evidence_coverage_values is_defined_coverage evidence_coverage_of_code
proof unfold_locales
  show "map evidence_coverage_code evidence_coverage_values = map of_nat [1..<Suc (length evidence_coverage_values)]"
    by (simp add: evidence_coverage_values_def upt_rec)
  show "x \<in> set evidence_coverage_values" for x
    by (cases x) (simp_all add: evidence_coverage_values_def)
  show "length evidence_coverage_values < 255"
    by (simp add: evidence_coverage_values_def)
  show "is_defined_coverage raw \<longleftrightarrow> 1 \<le> raw \<and> raw \<le> of_nat (length evidence_coverage_values)" for raw
    by (simp add: is_defined_coverage_def evidence_coverage_values_def)
  show "evidence_coverage_of_code raw = find (\<lambda>x. evidence_coverage_code x = raw) evidence_coverage_values" for raw
    by (simp add: evidence_coverage_of_code_def)
qed

datatype diversity_class =
    DC_LINK_DISJOINT
  | DC_TRANSIT_NODE_DISJOINT
  | DC_DEVICE_DISJOINT
  | DC_RACK_DISJOINT
  | DC_POD_DISJOINT
  | DC_SITE_DISJOINT
  | DC_FAILURE_DOMAIN_DISJOINT
  | DC_SHARED_RISK_GROUP_DISJOINT

definition diversity_class_values :: "diversity_class list" where
  "diversity_class_values =
     [DC_LINK_DISJOINT,
      DC_TRANSIT_NODE_DISJOINT,
      DC_DEVICE_DISJOINT,
      DC_RACK_DISJOINT,
      DC_POD_DISJOINT,
      DC_SITE_DISJOINT,
      DC_FAILURE_DOMAIN_DISJOINT,
      DC_SHARED_RISK_GROUP_DISJOINT]"

primrec diversity_class_code :: "diversity_class \<Rightarrow> u8" where
  "diversity_class_code DC_LINK_DISJOINT = 1"
| "diversity_class_code DC_TRANSIT_NODE_DISJOINT = 2"
| "diversity_class_code DC_DEVICE_DISJOINT = 3"
| "diversity_class_code DC_RACK_DISJOINT = 4"
| "diversity_class_code DC_POD_DISJOINT = 5"
| "diversity_class_code DC_SITE_DISJOINT = 6"
| "diversity_class_code DC_FAILURE_DOMAIN_DISJOINT = 7"
| "diversity_class_code DC_SHARED_RISK_GROUP_DISJOINT = 8"

definition is_defined_diversity_class :: "u8 \<Rightarrow> bool" where
  "is_defined_diversity_class raw \<longleftrightarrow> diversity_class_code DC_LINK_DISJOINT \<le> raw \<and> raw \<le> diversity_class_code DC_SHARED_RISK_GROUP_DISJOINT"

definition diversity_class_of_code :: "u8 \<Rightarrow> diversity_class option" where
  "diversity_class_of_code raw = find (\<lambda>x. diversity_class_code x = raw) diversity_class_values"

definition diversity_class_to_string :: "diversity_class \<Rightarrow> string" where
  "diversity_class_to_string v = (case v of
      DC_LINK_DISJOINT \<Rightarrow> ''LINK_DISJOINT''
    | DC_TRANSIT_NODE_DISJOINT \<Rightarrow> ''TRANSIT_NODE_DISJOINT''
    | DC_DEVICE_DISJOINT \<Rightarrow> ''DEVICE_DISJOINT''
    | DC_RACK_DISJOINT \<Rightarrow> ''RACK_DISJOINT''
    | DC_POD_DISJOINT \<Rightarrow> ''POD_DISJOINT''
    | DC_SITE_DISJOINT \<Rightarrow> ''SITE_DISJOINT''
    | DC_FAILURE_DOMAIN_DISJOINT \<Rightarrow> ''FAILURE_DOMAIN_DISJOINT''
    | DC_SHARED_RISK_GROUP_DISJOINT \<Rightarrow> ''SHARED_RISK_GROUP_DISJOINT'')"

definition diversity_class_from_string :: "string \<Rightarrow> diversity_class option" where
  "diversity_class_from_string text = find (\<lambda>x. diversity_class_to_string x = text) diversity_class_values"

interpretation diversity_class_enum: wire_enum diversity_class_code diversity_class_values is_defined_diversity_class diversity_class_of_code
proof unfold_locales
  show "map diversity_class_code diversity_class_values = map of_nat [1..<Suc (length diversity_class_values)]"
    by (simp add: diversity_class_values_def upt_rec)
  show "x \<in> set diversity_class_values" for x
    by (cases x) (simp_all add: diversity_class_values_def)
  show "length diversity_class_values < 255"
    by (simp add: diversity_class_values_def)
  show "is_defined_diversity_class raw \<longleftrightarrow> 1 \<le> raw \<and> raw \<le> of_nat (length diversity_class_values)" for raw
    by (simp add: is_defined_diversity_class_def diversity_class_values_def)
  show "diversity_class_of_code raw = find (\<lambda>x. diversity_class_code x = raw) diversity_class_values" for raw
    by (simp add: diversity_class_of_code_def)
qed

interpretation diversity_class_name: named_enum diversity_class_to_string diversity_class_values diversity_class_from_string
proof unfold_locales
  show "distinct (map diversity_class_to_string diversity_class_values)"
    by (simp add: diversity_class_values_def diversity_class_to_string_def)
  show "x \<in> set diversity_class_values" for x
    by (cases x) (simp_all add: diversity_class_values_def)
  show "diversity_class_from_string t = find (\<lambda>x. diversity_class_to_string x = t) diversity_class_values" for t
    by (simp add: diversity_class_from_string_def)
qed

instantiation diversity_class :: linorder
begin

definition less_eq_diversity_class :: "diversity_class \<Rightarrow> diversity_class \<Rightarrow> bool" where
  "less_eq_diversity_class a b \<longleftrightarrow> diversity_class_code a \<le> diversity_class_code b"

definition less_diversity_class :: "diversity_class \<Rightarrow> diversity_class \<Rightarrow> bool" where
  "less_diversity_class a b \<longleftrightarrow> diversity_class_code a < diversity_class_code b"

instance
  by standard (auto simp: less_eq_diversity_class_def less_diversity_class_def diversity_class_enum.code_inject order_less_le)

end

section \<open>Entity references\<close>

datatype entity_ref = EntityRef (er_kind: entity_kind) (er_id: string)

definition entity_ref_less :: "entity_ref \<Rightarrow> entity_ref \<Rightarrow> bool" where
  "entity_ref_less l r =
     (if er_kind l \<noteq> er_kind r then er_kind l < er_kind r else er_id l < er_id r)"

definition entity_ref_render :: "entity_ref \<Rightarrow> string" where
  "entity_ref_render e = entity_kind_to_string (er_kind e) @ '' '' @ er_id e"

definition entity_ref_encode :: "entity_ref \<Rightarrow> bytes" where
  "entity_ref_encode e = put_u8 (entity_kind_code (er_kind e)) @ put_text (er_id e)"

instantiation entity_ref :: linorder
begin

definition less_entity_ref :: "entity_ref \<Rightarrow> entity_ref \<Rightarrow> bool" where
  "less_entity_ref a b \<longleftrightarrow> entity_ref_less a b"

definition less_eq_entity_ref :: "entity_ref \<Rightarrow> entity_ref \<Rightarrow> bool" where
  "less_eq_entity_ref a b \<longleftrightarrow> entity_ref_less a b \<or> a = b"

instance
  by (standard, auto simp: less_entity_ref_def less_eq_entity_ref_def entity_ref_less_def
    entity_ref.expand split: if_splits, metis entity_ref.expand linorder_less_linear)

end

section \<open>Membership evidence\<close>

record domain_evidence =
  de_coverage :: evidence_coverage
  de_generation :: failure_domain_generation
  de_domains :: "failure_domain_id list"

record srlg_evidence =
  se_coverage :: evidence_coverage
  se_generation :: failure_domain_generation
  se_groups :: "shared_risk_group_id list"

definition de_complete :: "domain_evidence \<Rightarrow> bool" where
  "de_complete e \<longleftrightarrow> de_coverage e = EV_COMPLETE"

definition se_complete :: "srlg_evidence \<Rightarrow> bool" where
  "se_complete e \<longleftrightarrow> se_coverage e = EV_COMPLETE"

definition de_canonicalize :: "domain_evidence \<Rightarrow> domain_evidence" where
  "de_canonicalize e = e\<lparr>de_domains := canonical_sort_unique (de_domains e)\<rparr>"

definition se_canonicalize :: "srlg_evidence \<Rightarrow> srlg_evidence" where
  "se_canonicalize e = e\<lparr>se_groups := canonical_sort_unique (se_groups e)\<rparr>"

text \<open>Default member initializers.\<close>

definition default_domain_evidence :: domain_evidence where
  "default_domain_evidence = \<lparr>de_coverage = EV_ABSENT, de_generation = gen_unset, de_domains = []\<rparr>"

definition default_srlg_evidence :: srlg_evidence where
  "default_srlg_evidence = \<lparr>se_coverage = EV_ABSENT, se_generation = gen_unset, se_groups = []\<rparr>"

section \<open>Relations behind a class\<close>

definition required_domain_relations :: "diversity_class \<Rightarrow> domain_relation list" where
  "required_domain_relations k = (case k of
      DC_LINK_DISJOINT \<Rightarrow> []
    | DC_TRANSIT_NODE_DISJOINT \<Rightarrow> []
    | DC_DEVICE_DISJOINT \<Rightarrow> []
    | DC_SHARED_RISK_GROUP_DISJOINT \<Rightarrow> []
    | DC_RACK_DISJOINT \<Rightarrow> [DR_RACK]
    | DC_POD_DISJOINT \<Rightarrow> [DR_POD]
    | DC_SITE_DISJOINT \<Rightarrow> [DR_SITE]
    | DC_FAILURE_DOMAIN_DISJOINT \<Rightarrow> [])"

definition is_domain_backed :: "diversity_class \<Rightarrow> bool" where
  "is_domain_backed k = (case k of
      DC_RACK_DISJOINT \<Rightarrow> True
    | DC_POD_DISJOINT \<Rightarrow> True
    | DC_SITE_DISJOINT \<Rightarrow> True
    | DC_FAILURE_DOMAIN_DISJOINT \<Rightarrow> True
    | DC_LINK_DISJOINT \<Rightarrow> False
    | DC_TRANSIT_NODE_DISJOINT \<Rightarrow> False
    | DC_DEVICE_DISJOINT \<Rightarrow> False
    | DC_SHARED_RISK_GROUP_DISJOINT \<Rightarrow> False)"

section \<open>Path composition\<close>

record path_composition =
  pc_path :: path_id
  pc_authority_generation :: path_authority_generation
  pc_topology_generation :: topology_generation
  pc_sources :: "node_id list"
  pc_destinations :: "node_id list"
  pc_transit_nodes :: "node_id list"
  pc_links :: "link_id list"
  pc_devices :: "device_id list"
  pc_link_coverage :: evidence_coverage
  pc_node_coverage :: evidence_coverage
  pc_device_coverage :: evidence_coverage
  pc_endpoint_coverage :: evidence_coverage

definition default_path_composition :: path_composition where
  "default_path_composition =
     \<lparr>pc_path = unset_id, pc_authority_generation = gen_unset, pc_topology_generation = gen_unset,
      pc_sources = [], pc_destinations = [], pc_transit_nodes = [], pc_links = [], pc_devices = [],
      pc_link_coverage = EV_COMPLETE, pc_node_coverage = EV_COMPLETE,
      pc_device_coverage = EV_COMPLETE, pc_endpoint_coverage = EV_COMPLETE\<rparr>"

definition all_topology_complete :: "path_composition \<Rightarrow> bool" where
  "all_topology_complete c \<longleftrightarrow>
     pc_link_coverage c = EV_COMPLETE \<and> pc_node_coverage c = EV_COMPLETE \<and>
     pc_device_coverage c = EV_COMPLETE \<and> pc_endpoint_coverage c = EV_COMPLETE"

definition pc_canonicalize :: "path_composition \<Rightarrow> path_composition" where
  "pc_canonicalize c =
     c\<lparr>pc_sources := sort (pc_sources c), pc_destinations := sort (pc_destinations c),
       pc_transit_nodes := sort (pc_transit_nodes c), pc_links := sort (pc_links c),
       pc_devices := sort (pc_devices c)\<rparr>"

definition has_repeated_topology_elements :: "path_composition \<Rightarrow> bool" where
  "has_repeated_topology_elements c \<longleftrightarrow>
     has_adjacent_repeat (pc_sources c) \<or> has_adjacent_repeat (pc_destinations c) \<or>
     has_adjacent_repeat (pc_transit_nodes c) \<or> has_adjacent_repeat (pc_links c) \<or>
     has_adjacent_repeat (pc_devices c)"

lemma repeated_topology_iff:
  "\<not> has_repeated_topology_elements (pc_canonicalize c) \<longleftrightarrow>
     distinct (pc_sources c) \<and> distinct (pc_destinations c) \<and> distinct (pc_transit_nodes c) \<and>
     distinct (pc_links c) \<and> distinct (pc_devices c)"
  by (simp add: has_repeated_topology_elements_def pc_canonicalize_def sorted_no_adjacent_repeat)

lemma pc_canonicalize_idem [simp]: "pc_canonicalize (pc_canonicalize c) = pc_canonicalize c"
  by (simp add: pc_canonicalize_def)

end
