(* ===== verification/Limits.thy ===== *)
theory Limits
  imports Domain
begin

text \<open>
  The bounds every subsystem consults and the notice that names the one that refused
  (\<open>include/path_diversity/limits.hpp\<close>, \<open>src/limits.cpp\<close>). Every bound is an unsigned machine
  integer; \<open>limits_wf\<close> states the widths. The lemmas show what a self-consistent set of limits
  guarantees the evaluator.
\<close>

section \<open>Limits\<close>

record limits =
  max_policies :: nat
  max_proofs :: nat
  max_paths_per_proof :: nat
  max_required_classes :: nat
  max_conflicts_per_proof :: nat
  max_pairwise_cells :: nat
  max_domain_evidence_entries :: nat
  max_query_results :: nat
  max_history :: nat
  max_batch_size :: nat
  max_publishers :: nat
  max_frame_bytes :: nat
  max_persistence_record_bytes :: nat
  max_explanation_entries :: nat
  max_k_subset_paths :: nat
  max_snapshot_paths :: nat
  max_identity_length :: nat
  max_attempts_tracked :: nat
  max_wire_assembly_bytes :: nat
  max_store_records :: nat
  max_store_bytes :: nat
  max_diff_entries :: nat
  max_topology_dependencies :: nat

definition default_limits :: limits where
  "default_limits =
     \<lparr>max_policies = 4096,
      max_proofs = 100000,
      max_paths_per_proof = 64,
      max_required_classes = 8,
      max_conflicts_per_proof = 256,
      max_pairwise_cells = 4096,
      max_domain_evidence_entries = 4096,
      max_query_results = 1024,
      max_history = 4096,
      max_batch_size = 256,
      max_publishers = 64,
      max_frame_bytes = 65536,
      max_persistence_record_bytes = 65536,
      max_explanation_entries = 256,
      max_k_subset_paths = 10,
      max_snapshot_paths = 64,
      max_identity_length = 128,
      max_attempts_tracked = 4096,
      max_wire_assembly_bytes = 262144,
      max_store_records = 200000,
      max_store_bytes = 268435456,
      max_diff_entries = 1024,
      max_topology_dependencies = 4096\<rparr>"

definition limits_wf :: "limits \<Rightarrow> bool" where
  "limits_wf l \<longleftrightarrow>
     max_policies l < 2 ^ 32 \<and>
     max_proofs l < 2 ^ 32 \<and>
     max_paths_per_proof l < 2 ^ 32 \<and>
     max_required_classes l < 2 ^ 32 \<and>
     max_conflicts_per_proof l < 2 ^ 32 \<and>
     max_pairwise_cells l < 2 ^ 32 \<and>
     max_domain_evidence_entries l < 2 ^ 32 \<and>
     max_query_results l < 2 ^ 32 \<and>
     max_history l < 2 ^ 32 \<and>
     max_batch_size l < 2 ^ 32 \<and>
     max_publishers l < 2 ^ 32 \<and>
     max_frame_bytes l < 2 ^ 32 \<and>
     max_persistence_record_bytes l < 2 ^ 32 \<and>
     max_explanation_entries l < 2 ^ 32 \<and>
     max_k_subset_paths l < 2 ^ 32 \<and>
     max_snapshot_paths l < 2 ^ 32 \<and>
     max_identity_length l < 2 ^ 32 \<and>
     max_attempts_tracked l < 2 ^ 32 \<and>
     max_wire_assembly_bytes l < 2 ^ 32 \<and>
     max_store_records l < 2 ^ 32 \<and>
     max_store_bytes l < 2 ^ 64 \<and>
     max_diff_entries l < 2 ^ 32 \<and>
     max_topology_dependencies l < 2 ^ 32"

definition self_consistent :: "limits \<Rightarrow> bool" where
  "self_consistent l =
     (if max_policies l = 0 \<or> max_proofs l = 0 \<or> max_paths_per_proof l < 2 \<or>
         max_required_classes l = 0 \<or> max_conflicts_per_proof l = 0 \<or> max_pairwise_cells l = 0 \<or>
         max_domain_evidence_entries l = 0 \<or> max_query_results l = 0 \<or> max_history l = 0 \<or>
         max_batch_size l = 0 \<or> max_publishers l = 0 \<or> max_frame_bytes l = 0 \<or>
         max_persistence_record_bytes l = 0 \<or> max_explanation_entries l = 0 \<or>
         max_k_subset_paths l < 2 \<or> max_snapshot_paths l < 2 \<or> max_identity_length l = 0 \<or>
         max_attempts_tracked l = 0 \<or> max_wire_assembly_bytes l < max_frame_bytes l \<or>
         max_store_records l = 0 \<or> max_store_bytes l = 0 \<or> max_diff_entries l = 0 \<or>
         max_topology_dependencies l = 0
      then False
      else let n = (of_nat (max_paths_per_proof l) :: u64); cells = (n * (n - 1)) div 2
           in if (of_nat (max_pairwise_cells l) :: u64) < cells then False
              else if max_paths_per_proof l < max_k_subset_paths l then False
              else if max_paths_per_proof l < max_snapshot_paths l then False
              else True)"

definition limits_render :: "limits \<Rightarrow> string" where
  "limits_render l =
     ''max_policies='' @ decimal (max_policies l) @
     '' max_proofs='' @ decimal (max_proofs l) @
     '' max_paths_per_proof='' @ decimal (max_paths_per_proof l) @
     '' max_required_classes='' @ decimal (max_required_classes l) @
     '' max_conflicts_per_proof='' @ decimal (max_conflicts_per_proof l) @
     '' max_pairwise_cells='' @ decimal (max_pairwise_cells l) @
     '' max_domain_evidence_entries='' @ decimal (max_domain_evidence_entries l) @
     '' max_query_results='' @ decimal (max_query_results l) @
     '' max_history='' @ decimal (max_history l) @
     '' max_batch_size='' @ decimal (max_batch_size l) @
     '' max_publishers='' @ decimal (max_publishers l) @
     '' max_frame_bytes='' @ decimal (max_frame_bytes l) @
     '' max_persistence_record_bytes='' @ decimal (max_persistence_record_bytes l) @
     '' max_explanation_entries='' @ decimal (max_explanation_entries l) @
     '' max_k_subset_paths='' @ decimal (max_k_subset_paths l) @
     '' max_snapshot_paths='' @ decimal (max_snapshot_paths l) @
     '' max_identity_length='' @ decimal (max_identity_length l) @
     '' max_attempts_tracked='' @ decimal (max_attempts_tracked l) @
     '' max_wire_assembly_bytes='' @ decimal (max_wire_assembly_bytes l) @
     '' max_store_records='' @ decimal (max_store_records l) @
     '' max_store_bytes='' @ decimal (max_store_bytes l) @
     '' max_diff_entries='' @ decimal (max_diff_entries l) @
     '' max_topology_dependencies='' @ decimal (max_topology_dependencies l)"

section \<open>Which bound refused\<close>

datatype resource_bound =
    RB_MAX_POLICIES
  | RB_MAX_PROOFS
  | RB_MAX_PATHS_PER_PROOF
  | RB_MAX_REQUIRED_CLASSES
  | RB_MAX_CONFLICTS_PER_PROOF
  | RB_MAX_PAIRWISE_CELLS
  | RB_MAX_DOMAIN_EVIDENCE_ENTRIES
  | RB_MAX_QUERY_RESULTS
  | RB_MAX_HISTORY
  | RB_MAX_BATCH_SIZE
  | RB_MAX_PUBLISHERS
  | RB_MAX_FRAME_BYTES
  | RB_MAX_PERSISTENCE_RECORD_BYTES
  | RB_MAX_EXPLANATION_ENTRIES
  | RB_MAX_K_SUBSET_PATHS
  | RB_MAX_SNAPSHOT_PATHS
  | RB_MAX_IDENTITY_LENGTH
  | RB_MAX_ATTEMPTS_TRACKED
  | RB_MAX_WIRE_ASSEMBLY_BYTES
  | RB_MAX_STORE_RECORDS
  | RB_MAX_STORE_BYTES
  | RB_MAX_DIFF_ENTRIES
  | RB_MAX_TOPOLOGY_DEPENDENCIES

definition resource_bound_values :: "resource_bound list" where
  "resource_bound_values =
     [RB_MAX_POLICIES,
      RB_MAX_PROOFS,
      RB_MAX_PATHS_PER_PROOF,
      RB_MAX_REQUIRED_CLASSES,
      RB_MAX_CONFLICTS_PER_PROOF,
      RB_MAX_PAIRWISE_CELLS,
      RB_MAX_DOMAIN_EVIDENCE_ENTRIES,
      RB_MAX_QUERY_RESULTS,
      RB_MAX_HISTORY,
      RB_MAX_BATCH_SIZE,
      RB_MAX_PUBLISHERS,
      RB_MAX_FRAME_BYTES,
      RB_MAX_PERSISTENCE_RECORD_BYTES,
      RB_MAX_EXPLANATION_ENTRIES,
      RB_MAX_K_SUBSET_PATHS,
      RB_MAX_SNAPSHOT_PATHS,
      RB_MAX_IDENTITY_LENGTH,
      RB_MAX_ATTEMPTS_TRACKED,
      RB_MAX_WIRE_ASSEMBLY_BYTES,
      RB_MAX_STORE_RECORDS,
      RB_MAX_STORE_BYTES,
      RB_MAX_DIFF_ENTRIES,
      RB_MAX_TOPOLOGY_DEPENDENCIES]"

primrec resource_bound_code :: "resource_bound \<Rightarrow> u8" where
  "resource_bound_code RB_MAX_POLICIES = 1"
| "resource_bound_code RB_MAX_PROOFS = 2"
| "resource_bound_code RB_MAX_PATHS_PER_PROOF = 3"
| "resource_bound_code RB_MAX_REQUIRED_CLASSES = 4"
| "resource_bound_code RB_MAX_CONFLICTS_PER_PROOF = 5"
| "resource_bound_code RB_MAX_PAIRWISE_CELLS = 6"
| "resource_bound_code RB_MAX_DOMAIN_EVIDENCE_ENTRIES = 7"
| "resource_bound_code RB_MAX_QUERY_RESULTS = 8"
| "resource_bound_code RB_MAX_HISTORY = 9"
| "resource_bound_code RB_MAX_BATCH_SIZE = 10"
| "resource_bound_code RB_MAX_PUBLISHERS = 11"
| "resource_bound_code RB_MAX_FRAME_BYTES = 12"
| "resource_bound_code RB_MAX_PERSISTENCE_RECORD_BYTES = 13"
| "resource_bound_code RB_MAX_EXPLANATION_ENTRIES = 14"
| "resource_bound_code RB_MAX_K_SUBSET_PATHS = 15"
| "resource_bound_code RB_MAX_SNAPSHOT_PATHS = 16"
| "resource_bound_code RB_MAX_IDENTITY_LENGTH = 17"
| "resource_bound_code RB_MAX_ATTEMPTS_TRACKED = 18"
| "resource_bound_code RB_MAX_WIRE_ASSEMBLY_BYTES = 19"
| "resource_bound_code RB_MAX_STORE_RECORDS = 20"
| "resource_bound_code RB_MAX_STORE_BYTES = 21"
| "resource_bound_code RB_MAX_DIFF_ENTRIES = 22"
| "resource_bound_code RB_MAX_TOPOLOGY_DEPENDENCIES = 23"

definition is_defined_resource_bound :: "u8 \<Rightarrow> bool" where
  "is_defined_resource_bound raw \<longleftrightarrow> resource_bound_code RB_MAX_POLICIES \<le> raw \<and> raw \<le> resource_bound_code RB_MAX_TOPOLOGY_DEPENDENCIES"

definition resource_bound_of_code :: "u8 \<Rightarrow> resource_bound option" where
  "resource_bound_of_code raw = find (\<lambda>x. resource_bound_code x = raw) resource_bound_values"

definition resource_bound_to_string :: "resource_bound \<Rightarrow> string" where
  "resource_bound_to_string v = (case v of
      RB_MAX_POLICIES \<Rightarrow> ''max_policies''
    | RB_MAX_PROOFS \<Rightarrow> ''max_proofs''
    | RB_MAX_PATHS_PER_PROOF \<Rightarrow> ''max_paths_per_proof''
    | RB_MAX_REQUIRED_CLASSES \<Rightarrow> ''max_required_classes''
    | RB_MAX_CONFLICTS_PER_PROOF \<Rightarrow> ''max_conflicts_per_proof''
    | RB_MAX_PAIRWISE_CELLS \<Rightarrow> ''max_pairwise_cells''
    | RB_MAX_DOMAIN_EVIDENCE_ENTRIES \<Rightarrow> ''max_domain_evidence_entries''
    | RB_MAX_QUERY_RESULTS \<Rightarrow> ''max_query_results''
    | RB_MAX_HISTORY \<Rightarrow> ''max_history''
    | RB_MAX_BATCH_SIZE \<Rightarrow> ''max_batch_size''
    | RB_MAX_PUBLISHERS \<Rightarrow> ''max_publishers''
    | RB_MAX_FRAME_BYTES \<Rightarrow> ''max_frame_bytes''
    | RB_MAX_PERSISTENCE_RECORD_BYTES \<Rightarrow> ''max_persistence_record_bytes''
    | RB_MAX_EXPLANATION_ENTRIES \<Rightarrow> ''max_explanation_entries''
    | RB_MAX_K_SUBSET_PATHS \<Rightarrow> ''max_k_subset_paths''
    | RB_MAX_SNAPSHOT_PATHS \<Rightarrow> ''max_snapshot_paths''
    | RB_MAX_IDENTITY_LENGTH \<Rightarrow> ''max_identity_length''
    | RB_MAX_ATTEMPTS_TRACKED \<Rightarrow> ''max_attempts_tracked''
    | RB_MAX_WIRE_ASSEMBLY_BYTES \<Rightarrow> ''max_wire_assembly_bytes''
    | RB_MAX_STORE_RECORDS \<Rightarrow> ''max_store_records''
    | RB_MAX_STORE_BYTES \<Rightarrow> ''max_store_bytes''
    | RB_MAX_DIFF_ENTRIES \<Rightarrow> ''max_diff_entries''
    | RB_MAX_TOPOLOGY_DEPENDENCIES \<Rightarrow> ''max_topology_dependencies'')"

interpretation resource_bound_enum: wire_enum resource_bound_code resource_bound_values is_defined_resource_bound resource_bound_of_code
proof unfold_locales
  show "map resource_bound_code resource_bound_values = map of_nat [1..<Suc (length resource_bound_values)]"
    by (simp add: resource_bound_values_def upt_rec)
  show "x \<in> set resource_bound_values" for x
    by (cases x) (simp_all add: resource_bound_values_def)
  show "length resource_bound_values < 255"
    by (simp add: resource_bound_values_def)
  show "is_defined_resource_bound raw \<longleftrightarrow> 1 \<le> raw \<and> raw \<le> of_nat (length resource_bound_values)" for raw
    by (simp add: is_defined_resource_bound_def resource_bound_values_def)
  show "resource_bound_of_code raw = find (\<lambda>x. resource_bound_code x = raw) resource_bound_values" for raw
    by (simp add: resource_bound_of_code_def)
qed

record resource_limit_notice =
  rn_bound :: resource_bound
  rn_observed :: u64
  rn_allowed :: u64

definition notice_render :: "resource_limit_notice \<Rightarrow> string" where
  "notice_render n =
     ''RESOURCE_LIMIT '' @ resource_bound_to_string (rn_bound n) @ '': observed '' @
     decimal (unat (rn_observed n)) @ '', allowed '' @ decimal (unat (rn_allowed n))"

definition resource_notice :: "resource_bound \<Rightarrow> nat \<Rightarrow> nat \<Rightarrow> resource_limit_notice" where
  "resource_notice b observed allowed =
     \<lparr>rn_bound = b, rn_observed = of_nat observed, rn_allowed = of_nat allowed\<rparr>"

section \<open>What self-consistent limits guarantee\<close>

lemma pair_count_u64:
  assumes "n < 2 ^ 32"
  shows "unat (((of_nat n :: u64) * (of_nat n - 1)) div 2) = n * (n - 1) div 2"
proof (cases "n = 0")
  case True
  then show ?thesis by simp
next
  case False
  have one: "of_nat n - 1 = (of_nat (n - 1) :: u64)"
    using False by (simp add: of_nat_diff)
  have "n * (n - 1) < 2 ^ 32 * 2 ^ 32"
    using assms False by (intro mult_strict_mono) auto
  then have "n * (n - 1) < 2 ^ 64" by simp
  moreover have "(of_nat n :: u64) * (of_nat n - 1) = of_nat (n * (n - 1))"
    by (simp only: one of_nat_mult)
  ultimately show ?thesis
    by (simp add: unat_div unat_of_nat del: of_nat_mult)
qed

lemma self_consistent_iff:
  assumes "limits_wf l"
  shows "self_consistent l \<Longrightarrow> max_paths_per_proof l * (max_paths_per_proof l - 1) div 2 \<le> max_pairwise_cells l"
    and "self_consistent l \<Longrightarrow> 2 \<le> max_paths_per_proof l"
    and "self_consistent l \<Longrightarrow> max_k_subset_paths l \<le> max_paths_per_proof l"
    and "self_consistent l \<Longrightarrow> max_snapshot_paths l \<le> max_paths_per_proof l"
    and "self_consistent l \<Longrightarrow> max_frame_bytes l \<le> max_wire_assembly_bytes l"
proof -
  assume sc: "self_consistent l"
  have n: "max_paths_per_proof l < 2 ^ 32" and c: "max_pairwise_cells l < 2 ^ 32"
    using assms by (auto simp: limits_wf_def)
  have "\<not> (of_nat (max_pairwise_cells l) :: u64)
      < ((of_nat (max_paths_per_proof l) :: u64) * (of_nat (max_paths_per_proof l) - 1)) div 2"
    using sc by (simp add: self_consistent_def Let_def split: if_splits)
  then show "max_paths_per_proof l * (max_paths_per_proof l - 1) div 2 \<le> max_pairwise_cells l"
    using c by (simp only: word_less_nat_alt not_less pair_count_u64 [OF n]) (simp add: unat_of_nat)
qed (auto simp: self_consistent_def Let_def split: if_splits)

end
