(* ===== verification/Digest.thy ===== *)
theory Digest
  imports Limits
begin

text \<open>
  The 128-bit content digest and the identities minted from it (\<open>include/path_diversity/digest.hpp\<close>,
  \<open>src/digest.cpp\<close>, the derived identities of \<open>src/limits.cpp\<close>, \<open>version.hpp\<close>).

  The digest state is four 32-bit limbs, least significant first, exactly as the code keeps them;
  \<open>limbs_word\<close> reads them as one 128-bit word. The lemmas show that the schoolbook multiplication
  is multiplication modulo \<open>2 ^ 128\<close>, that updating continues a digest where it stopped, and that
  a change of one byte always changes the digest.
\<close>

section \<open>Versions\<close>

definition kPersistenceFormatVersion :: nat where "kPersistenceFormatVersion = 1"
definition kCanonicalEncodingVersion :: nat where "kCanonicalEncodingVersion = 1"
definition kDigestSchemeVersion :: nat where "kDigestSchemeVersion = 1"
definition kWireProtocolVersion :: nat where "kWireProtocolVersion = 1"
definition kDiversityRuleSetVersion :: nat where "kDiversityRuleSetVersion = 1"

definition version_report :: string where
  "version_report =
     ''Path Diversity Fabric'' @ '' '' @ ''1.0.0'' @ '' (persistence '' @ decimal kPersistenceFormatVersion @
     '', canonical '' @ decimal kCanonicalEncodingVersion @ '', digest '' @ decimal kDigestSchemeVersion @
     '', wire '' @ decimal kWireProtocolVersion @ '', rule set '' @ decimal kDiversityRuleSetVersion @ '')''"

section \<open>Multiply and update\<close>

definition kOffsetBasis :: "u32 list" where
  "kOffsetBasis = [0x6295c58d, 0x62b82175, 0x07bb0142, 0x6c62272e]"

definition kPrime :: "u32 list" where
  "kPrime = [0x0000013b, 0x00000000, 0x00000001, 0x00000000]"

text \<open>One step of the inner loop: the limb \<open>i + j\<close> and the carry.\<close>

definition fnv_limb :: "u32 \<Rightarrow> u32 \<Rightarrow> u32 \<Rightarrow> u64 \<Rightarrow> u32 \<times> u64" where
  "fnv_limb out_limb state_limb prime_limb carry =
     (let current = ucast out_limb + ucast state_limb * ucast prime_limb + carry
      in (ucast (current AND 0xffffffff), drop_bit 32 current))"

definition fnv_row :: "u32 list \<Rightarrow> nat \<Rightarrow> u32 list \<Rightarrow> u32 list" where
  "fnv_row state i out =
     fst (fold (\<lambda>j (out, carry).
            case fnv_limb (out ! (i + j)) (state ! j) (kPrime ! i) carry of
              (limb, carry') \<Rightarrow> (out[i + j := limb], carry')) [0..<4 - i] (out, 0))"

definition fnv_multiply :: "u32 list \<Rightarrow> u32 list" where
  "fnv_multiply state = fold (fnv_row state) [0..<4] [0, 0, 0, 0]"

definition fnv_byte :: "u8 \<Rightarrow> u32 list \<Rightarrow> u32 list" where
  "fnv_byte b state = fnv_multiply (state[0 := state ! 0 XOR ucast b])"

definition fnv_update :: "u32 list \<Rightarrow> bytes \<Rightarrow> u32 list" where
  "fnv_update state bs = fold fnv_byte bs state"

definition fnv_finalize :: "u32 list \<Rightarrow> bytes" where
  "fnv_finalize state =
     concat (map (\<lambda>i. [ucast (state ! i AND 0xff), ucast (drop_bit 8 (state ! i) AND 0xff),
                       ucast (drop_bit 16 (state ! i) AND 0xff),
                       ucast (drop_bit 24 (state ! i) AND 0xff)]) [0..<4])"

section \<open>The digest\<close>

datatype digest = Digest (digest_bytes: bytes)

definition zero_digest :: digest where
  "zero_digest = Digest (replicate 16 0)"

definition digest_of :: "bytes \<Rightarrow> digest" where
  "digest_of bs = Digest (fnv_finalize (fnv_update kOffsetBasis bs))"

definition digest_state :: "digest \<Rightarrow> u32 list" where
  "digest_state d =
     map (\<lambda>i. ucast (digest_bytes d ! (4 * i)) OR push_bit 8 (ucast (digest_bytes d ! (4 * i + 1))) OR
              push_bit 16 (ucast (digest_bytes d ! (4 * i + 2))) OR
              push_bit 24 (ucast (digest_bytes d ! (4 * i + 3)))) [0..<4]"

definition digest_update :: "bytes \<Rightarrow> digest \<Rightarrow> digest" where
  "digest_update bs d = Digest (fnv_finalize (fnv_update (digest_state d) bs))"

definition digest_update_u8 :: "u8 \<Rightarrow> digest \<Rightarrow> digest" where
  "digest_update_u8 v = digest_update [v]"

definition digest_update_u16 :: "u16 \<Rightarrow> digest \<Rightarrow> digest" where
  "digest_update_u16 v = digest_update [ucast (v AND 0xff), ucast (drop_bit 8 v AND 0xff)]"

definition digest_update_u32 :: "u32 \<Rightarrow> digest \<Rightarrow> digest" where
  "digest_update_u32 v = digest_update (le_bytes 4 v)"

definition digest_update_u64 :: "u64 \<Rightarrow> digest \<Rightarrow> digest" where
  "digest_update_u64 v = digest_update (le_bytes 8 v)"

text \<open>The local loop of \<open>update_varint\<close> is the loop of \<open>ByteWriter::varint\<close>.\<close>

definition digest_update_varint :: "u64 \<Rightarrow> digest \<Rightarrow> digest" where
  "digest_update_varint v = digest_update (put_varint v)"

definition digest_update_bytes :: "bytes \<Rightarrow> digest \<Rightarrow> digest" where
  "digest_update_bytes bs d =
     (let d = digest_update_varint (of_nat (length bs)) d
      in if length bs \<noteq> 0 then digest_update bs d else d)"

definition digest_update_text :: "string \<Rightarrow> digest \<Rightarrow> digest" where
  "digest_update_text t = digest_update_bytes (map char_byte t)"

definition hex_digits :: string where
  "hex_digits = ''0123456789abcdef''"

definition digest_hex :: "digest \<Rightarrow> string" where
  "digest_hex d =
     concat (map (\<lambda>b. [hex_digits ! unat (drop_bit 4 b AND 0x0f), hex_digits ! unat (b AND 0x0f)])
       (digest_bytes d))"

definition digest_low64 :: "digest \<Rightarrow> u64" where
  "digest_low64 d = fold (\<lambda>i value. value OR push_bit (8 * i) (ucast (digest_bytes d ! i))) [0..<8] 0"

definition digest_hash :: "digest \<Rightarrow> u64" where
  "digest_hash d = fold (\<lambda>b folded. push_bit 8 folded XOR ucast b) (digest_bytes d) 0 XOR digest_low64 d"

definition mint_prefixed :: "string \<Rightarrow> digest \<Rightarrow> string" where
  "mint_prefixed prefix d = prefix @ digest_hex d"

section \<open>Derived identities\<close>

text \<open>
  \<open>parse\<close> throws on malformed text; \<open>parsed\<close> is its value where it returns. The lemma
  \<open>mint_parses\<close> below shows that it never throws on minted text.
\<close>

definition parsed :: "identity_error + 'tag string_id \<Rightarrow> 'tag string_id" where
  "parsed r = (case r of Inl e \<Rightarrow> unset_id | Inr i \<Rightarrow> i)"

definition derived_path_set_id :: "digest \<Rightarrow> path_set_id" where
  "derived_path_set_id d =
     parsed (parse_id ''PathSetId'' path_set_id_max (mint_prefixed ''pset-'' d))"

definition derived_proof_id :: "digest \<Rightarrow> diversity_proof_id" where
  "derived_proof_id d =
     parsed (parse_id ''DiversityProofId'' diversity_proof_id_max (mint_prefixed ''dproof-'' d))"

definition derived_snapshot_id :: "digest \<Rightarrow> snapshot_id" where
  "derived_snapshot_id d =
     parsed (parse_id ''SnapshotId'' snapshot_id_max (mint_prefixed ''dsnap-'' d))"

definition derived_policy_id :: "digest \<Rightarrow> diversity_policy_id" where
  "derived_policy_id d =
     parsed (parse_id ''DiversityPolicyId'' diversity_policy_id_max (mint_prefixed ''dpol-'' d))"

definition default_scope :: scope_id where
  "default_scope = parsed (parse_id ''ScopeId'' scope_id_max ''scope-default'')"

section \<open>Digest bytes and minted text\<close>

definition digest_wf :: "digest \<Rightarrow> bool" where
  "digest_wf d \<longleftrightarrow> length (digest_bytes d) = 16"

lemma length_fnv_finalize [simp]: "length (fnv_finalize s) = 16"
  by (simp add: fnv_finalize_def numeral_eq_Suc)

lemma digest_wf_of [simp]: "digest_wf (digest_of bs)"
  and digest_wf_update [simp]: "digest_wf (digest_update bs d)"
  and digest_wf_zero [simp]: "digest_wf zero_digest"
  by (simp_all add: digest_wf_def digest_of_def digest_update_def zero_digest_def)

lemma hex_digit_ok: "n < 16 \<Longrightarrow> identity_char (hex_digits ! n)"
  by (auto simp: less_Suc_eq numeral_eq_Suc hex_digits_def identity_char_def)

lemma nibble_less: "unat (b AND 0x0f :: u8) < 16"
proof -
  have "(0x0f :: u8) = mask 4" by (simp add: mask_eq_exp_minus_1)
  then have "b AND 0x0f = take_bit 4 b" by (simp only: take_bit_eq_mask)
  then show ?thesis by (simp add: take_bit_eq_mod unat_mod)
qed

lemma length_digest_hex: "length (digest_hex d) = 2 * length (digest_bytes d)"
  by (simp add: digest_hex_def length_concat comp_def sum_list_triv)

lemma digest_hex_chars: "list_all identity_char (digest_hex d)"
  unfolding digest_hex_def list_all_iff
  by (auto intro!: hex_digit_ok nibble_less)

lemma mint_valid:
  "digest_wf d \<Longrightarrow> list_all identity_char p \<Longrightarrow> length p + 32 \<le> n \<Longrightarrow> valid_identity_text (mint_prefixed p d) n"
  using digest_hex_chars [of d] length_digest_hex [of d]
  by (auto simp: valid_identity_text_def mint_prefixed_def digest_wf_def)

lemma mint_parses:
  assumes "digest_wf d"
  shows "id_view (derived_path_set_id d) = mint_prefixed ''pset-'' d"
    and "id_view (derived_proof_id d) = mint_prefixed ''dproof-'' d"
    and "id_view (derived_snapshot_id d) = mint_prefixed ''dsnap-'' d"
    and "id_view (derived_policy_id d) = mint_prefixed ''dpol-'' d"
  using mint_valid [OF assms, of "''pset-''" path_set_id_max] mint_valid [OF assms, of "''dproof-''" diversity_proof_id_max]
    mint_valid [OF assms, of "''dsnap-''" snapshot_id_max] mint_valid [OF assms, of "''dpol-''" diversity_policy_id_max]
  by (simp_all add: derived_path_set_id_def derived_proof_id_def derived_snapshot_id_def
      derived_policy_id_def parsed_def parse_id_def try_parse_def id_max_defs identity_char_def)

lemma derived_ids_valid [simp]:
  assumes "digest_wf d"
  shows "id_valid (derived_path_set_id d)" "id_valid (derived_proof_id d)"
    "id_valid (derived_snapshot_id d)" "id_valid (derived_policy_id d)"
  by (simp_all add: id_valid_def mint_parses [OF assms] mint_prefixed_def)

lemma default_scope_view: "default_scope = StringId ''scope-default''"
  by (simp add: default_scope_def parsed_def parse_id_def try_parse_def valid_identity_text_def
      identity_char_def scope_id_max_def)

section \<open>The multiplication is multiplication modulo 2 ^ 128\<close>

lemma unat_lt32: "unat (x :: u32) < 4294967296"
  using unsigned_less [of x] by simp

lemma fnv_limb:
  assumes "fnv_limb out_limb s p c = (l, c')" "unat c < 2 ^ 32"
  shows "unat l + 2 ^ 32 * unat c' = unat out_limb + unat s * unat p + unat c" "unat c' < 2 ^ 32"
proof -
  define X where "X = unat out_limb + unat s * unat p + unat c"
  have b: "unat out_limb \<le> 2 ^ 32 - 1" "unat s \<le> 2 ^ 32 - 1" "unat p \<le> 2 ^ 32 - 1" "unat c \<le> 2 ^ 32 - 1"
    using unat_lt32 [of out_limb] unat_lt32 [of s] unat_lt32 [of p] assms(2) by auto
  then have "unat s * unat p \<le> (2 ^ 32 - 1) * (2 ^ 32 - 1)" by (intro mult_le_mono)
  with b have X: "X < 2 ^ 64" by (simp add: X_def)
  define cur :: "u64" where "cur = ucast out_limb + ucast s * ucast p + c"
  have wide: "unat (ucast x :: u64) = unat x" for x :: "u32"
    using unat_lt32 [of x] by (simp add: unsigned_ucast_eq take_bit_nat_eq_self_iff)
  have cur: "unat cur = X"
    using X by (simp add: cur_def X_def unat_word_ariths wide mod_simps)
  have mask: "(0xffffffff :: u64) = mask 32" by (simp add: mask_eq_exp_minus_1)
  have l: "unat l = X mod 2 ^ 32" and c': "unat c' = X div 2 ^ 32"
  proof -
    have "l = ucast (cur AND mask 32)" "c' = drop_bit 32 cur"
      using assms(1) unfolding fnv_limb_def Let_def cur_def [symmetric] mask by blast+
    then show "unat l = X mod 2 ^ 32" "unat c' = X div 2 ^ 32"
      by (simp_all add: cur unsigned_ucast_eq take_bit_eq_mod drop_bit_eq_div unat_mod unat_div
            flip: take_bit_eq_mask)
  qed
  show "unat l + 2 ^ 32 * unat c' = unat out_limb + unat s * unat p + unat c"
    by (simp add: l c' X_def)
  show "unat c' < 2 ^ 32" using X by (simp add: c' less_mult_imp_div_less)
qed
definition limbs_nat :: "u32 list \<Rightarrow> nat" where
  "limbs_nat s = unat (s ! 0) + 2 ^ 32 * unat (s ! 1) + 2 ^ 64 * unat (s ! 2) + 2 ^ 96 * unat (s ! 3)"

definition limbs_word :: "u32 list \<Rightarrow> 128 word" where
  "limbs_word s = of_nat (limbs_nat s)"

lemma list4: "length s = 4 \<longleftrightarrow> (\<exists>a b c d. s = [a, b, c, d])"
  by (auto simp: numeral_eq_Suc length_Suc_conv)

lemma upt_rows: "[0..<4 - 0] = [0, 1, 2, 3::nat]" "[0..<4 - 1] = [0, 1, 2::nat]" "[0..<3] = [0, 1, 2::nat]" "[0..<4 - 2] = [0, 1::nat]" "[0..<2] = [0, 1::nat]"
  "[0..<4 - 3] = [0::nat]" "[0..<4] = [0, 1, 2, 3::nat]"
  by (simp_all add: upt_rec)

lemma fnv_row:
  assumes "i < 4" "length s = 4" "length out = 4"
  shows "length (fnv_row s i out) = 4"
    and "\<exists>c. limbs_nat (fnv_row s i out) + 2 ^ 128 * c = limbs_nat out + 2 ^ (32 * i) * unat (kPrime ! i) * limbs_nat s"
proof -
  obtain s0 s1 s2 s3 o0 o1 o2 o3 where eq: "s = [s0, s1, s2, s3]" "out = [o0, o1, o2, o3]"
    using assms(2,3) by (auto simp: list4)
  define p where "p = kPrime ! i"
  note P = p_def [symmetric]
  have z: "unat (0 :: u64) < 2 ^ 32" by simp
  consider "i = 0" | "i = 1" | "i = 2" | "i = 3" using assms(1) by fastforce
  then have "length (fnv_row s i out) = 4 \<and> (\<exists>c. limbs_nat (fnv_row s i out) + 2 ^ 128 * c = limbs_nat out + 2 ^ (32 * i) * unat p * limbs_nat s)"
  proof cases
    case 1
    obtain l0 c0 where 0: "fnv_limb o0 s0 p 0 = (l0, c0)" by fastforce
    obtain l1 c1 where 1: "fnv_limb o1 s1 p c0 = (l1, c1)" by fastforce
    obtain l2 c2 where 2: "fnv_limb o2 s2 p c1 = (l2, c2)" by fastforce
    obtain l3 c3 where 3: "fnv_limb o3 s3 p c2 = (l3, c3)" by fastforce
    note f0 = fnv_limb [OF 0 z]
    note f1 = fnv_limb [OF 1 f0(2)]
    note f2 = fnv_limb [OF 2 f1(2)]
    note f3 = fnv_limb [OF 3 f2(2)]
    have r: "fnv_row s i out = [l0, l1, l2, l3]"
      using 0 1 2 3 P \<open>i = 0\<close> by (simp add: fnv_row_def upt_rows eq)
    have "limbs_nat [l0, l1, l2, l3] + 2 ^ 128 * unat c3 = limbs_nat out + 2 ^ (32 * i) * unat p * limbs_nat s"
      using f0(1) f1(1) f2(1) f3(1) by (simp add: limbs_nat_def eq \<open>i = 0\<close> algebra_simps)
    then show ?thesis unfolding r by - (rule conjI, simp, rule exI, assumption)
  next
    case 2
    obtain l0 c0 where 0: "fnv_limb o1 s0 p 0 = (l0, c0)" by fastforce
    obtain l1 c1 where 1: "fnv_limb o2 s1 p c0 = (l1, c1)" by fastforce
    obtain l2 c2 where 2: "fnv_limb o3 s2 p c1 = (l2, c2)" by fastforce
    note f0 = fnv_limb [OF 0 z]
    note f1 = fnv_limb [OF 1 f0(2)]
    note f2 = fnv_limb [OF 2 f1(2)]
    have r: "fnv_row s i out = [o0, l0, l1, l2]"
      using 0 1 2 P \<open>i = 1\<close> by (simp add: fnv_row_def upt_rows eq)
    have "limbs_nat [o0, l0, l1, l2] + 2 ^ 128 * (unat c2 + unat p * unat s3) = limbs_nat out + 2 ^ (32 * i) * unat p * limbs_nat s"
      using f0(1) f1(1) f2(1) by (simp add: limbs_nat_def eq \<open>i = 1\<close> algebra_simps)
    then show ?thesis unfolding r by - (rule conjI, simp, rule exI, assumption)
  next
    case 3
    obtain l0 c0 where 0: "fnv_limb o2 s0 p 0 = (l0, c0)" by fastforce
    obtain l1 c1 where 1: "fnv_limb o3 s1 p c0 = (l1, c1)" by fastforce
    note f0 = fnv_limb [OF 0 z]
    note f1 = fnv_limb [OF 1 f0(2)]
    have r: "fnv_row s i out = [o0, o1, l0, l1]"
      using 0 1 P \<open>i = 2\<close> by (simp add: fnv_row_def upt_rows eq)
    have "limbs_nat [o0, o1, l0, l1] + 2 ^ 128 * (unat c1 + unat p * unat s2 + 2 ^ 32 * unat p * unat s3) = limbs_nat out + 2 ^ (32 * i) * unat p * limbs_nat s"
      using f0(1) f1(1) by (simp add: limbs_nat_def eq \<open>i = 2\<close> algebra_simps)
    then show ?thesis unfolding r by - (rule conjI, simp, rule exI, assumption)
  next
    case 4
    obtain l0 c0 where 0: "fnv_limb o3 s0 p 0 = (l0, c0)" by fastforce
    note f0 = fnv_limb [OF 0 z]
    have r: "fnv_row s i out = [o0, o1, o2, l0]"
      using 0 P \<open>i = 3\<close> by (simp add: fnv_row_def upt_rows eq)
    have "limbs_nat [o0, o1, o2, l0] + 2 ^ 128 * (unat c0 + unat p * unat s1 + 2 ^ 32 * unat p * unat s2 + 2 ^ 64 * unat p * unat s3) = limbs_nat out + 2 ^ (32 * i) * unat p * limbs_nat s"
      using f0(1) by (simp add: limbs_nat_def eq \<open>i = 3\<close> algebra_simps)
    then show ?thesis unfolding r by - (rule conjI, simp, rule exI, assumption)
  qed
  then show "length (fnv_row s i out) = 4"
    and "\<exists>c. limbs_nat (fnv_row s i out) + 2 ^ 128 * c = limbs_nat out + 2 ^ (32 * i) * unat (kPrime ! i) * limbs_nat s"
    by (simp_all add: p_def)
qed

lemma fnv_row_word:
  assumes "i < 4" "length s = 4" "length out = 4"
  shows "limbs_word (fnv_row s i out) = limbs_word out + 2 ^ (32 * i) * ucast (kPrime ! i) * limbs_word s"
proof -
  obtain c where "limbs_nat (fnv_row s i out) + 2 ^ 128 * c = limbs_nat out + 2 ^ (32 * i) * unat (kPrime ! i) * limbs_nat s"
    using fnv_row(2) [OF assms] by blast
  then have "(of_nat (limbs_nat (fnv_row s i out) + 2 ^ 128 * c) :: 128 word)
      = of_nat (limbs_nat out + 2 ^ (32 * i) * unat (kPrime ! i) * limbs_nat s)" by simp
  moreover have "(of_nat (2 ^ 128 * c) :: 128 word) = 0"
    by (simp only: word_of_nat_eq_0_iff) simp
  moreover have "(of_nat (unat x) :: 128 word) = ucast x" for x :: u32
    using unat_lt32 [of x]
    by (intro unsigned_word_eqI) (simp add: unsigned_of_nat unsigned_ucast_eq take_bit_nat_eq_self_iff)
  ultimately show ?thesis by (simp add: limbs_word_def)
qed

definition fnv128_prime :: "128 word" where
  "fnv128_prime = 2 ^ 64 + 0x13b"

lemma fnv_multiply:
  assumes "length s = 4"
  shows "length (fnv_multiply s) = 4" "limbs_word (fnv_multiply s) = limbs_word s * fnv128_prime"
proof -
  have zero: "limbs_word [0, 0, 0, 0] = 0" by (simp add: limbs_word_def limbs_nat_def)
  define r0 where "r0 = fnv_row s 0 [0, 0, 0, 0]"
  define r1 where "r1 = fnv_row s 1 r0"
  define r2 where "r2 = fnv_row s 2 r1"
  define r3 where "r3 = fnv_row s 3 r2"
  have m: "fnv_multiply s = r3"
    by (simp add: fnv_multiply_def upt_rows r0_def r1_def r2_def r3_def)
  have 0: "length r0 = 4" unfolding r0_def by (rule fnv_row(1)) (simp_all add: assms)
  have 1: "length r1 = 4" unfolding r1_def by (rule fnv_row(1)) (simp_all add: assms 0)
  have 2: "length r2 = 4" unfolding r2_def by (rule fnv_row(1)) (simp_all add: assms 1)
  show "length (fnv_multiply s) = 4"
    unfolding m r3_def by (rule fnv_row(1)) (simp_all add: assms 2)
  have w0: "limbs_word r0 = 0x13b * limbs_word s"
    unfolding r0_def by (subst fnv_row_word) (simp_all add: assms zero kPrime_def)
  have w1: "limbs_word r1 = limbs_word r0"
    unfolding r1_def by (subst fnv_row_word) (simp_all add: assms 0 kPrime_def)
  have w2: "limbs_word r2 = limbs_word r1 + 2 ^ 64 * limbs_word s"
    unfolding r2_def by (subst fnv_row_word) (simp_all add: assms 1 kPrime_def)
  have w3: "limbs_word r3 = limbs_word r2"
    unfolding r3_def by (subst fnv_row_word) (simp_all add: assms 2 kPrime_def)
  show "limbs_word (fnv_multiply s) = limbs_word s * fnv128_prime"
    unfolding m w3 w2 w1 w0 fnv128_prime_def by (simp only: distrib_left mult.commute add.commute)
qed

lemma limbs_word_bits:
  "limbs_word [a, b, c, d] = ucast a OR push_bit 32 (ucast b) OR push_bit 64 (ucast c) OR push_bit 96 (ucast d)"
proof -
  have u: "(of_nat (unat x) :: 128 word) = ucast x" for x :: u32
    using unat_lt32 [of x]
    by (intro unsigned_word_eqI) (simp add: unsigned_of_nat unsigned_ucast_eq take_bit_nat_eq_self_iff)
  have "limbs_word [a, b, c, d] = ucast a + push_bit 32 (ucast b) + push_bit 64 (ucast c) + push_bit 96 (ucast d)"
    by (simp add: limbs_word_def limbs_nat_def u push_bit_eq_mult algebra_simps)
  moreover have "ucast a + push_bit 32 (ucast b) = ucast a OR push_bit 32 (ucast b :: 128 word)"
    by (rule disjunctive_add) (auto simp: bit_simps dest: bit_imp_le_length)
  moreover have "(ucast a OR push_bit 32 (ucast b)) + push_bit 64 (ucast c) = (ucast a OR push_bit 32 (ucast b)) OR push_bit 64 (ucast c :: 128 word)"
    by (rule disjunctive_add) (auto simp: bit_simps dest: bit_imp_le_length)
  moreover have "(ucast a OR push_bit 32 (ucast b) OR push_bit 64 (ucast c)) + push_bit 96 (ucast d) = (ucast a OR push_bit 32 (ucast b) OR push_bit 64 (ucast c)) OR push_bit 96 (ucast d :: 128 word)"
    by (rule disjunctive_add) (auto simp: bit_simps dest: bit_imp_le_length)
  ultimately show ?thesis by (simp add: or.assoc)
qed

lemma limbs_word_xor:
  assumes "length s = 4"
  shows "limbs_word (s[0 := s ! 0 XOR ucast (x :: u8)]) = limbs_word s XOR ucast x"
proof -
  obtain a b c d where s: "s = [a, b, c, d]" using assms by (auto simp: list4)
  have "ucast (a XOR ucast x) = (ucast a XOR ucast x :: 128 word)"
  proof (rule bit_word_eqI)
    fix n
    show "bit (ucast (a XOR ucast x) :: 128 word) n = bit (ucast a XOR ucast x :: 128 word) n"
      using bit_imp_le_length [of x n] by (auto simp: bit_simps)
  qed
  moreover have "(ucast a XOR ucast x) OR r = (ucast a OR r) XOR ucast x"
    if r: "\<And>n. bit r n \<Longrightarrow> 32 \<le> n" for r :: "128 word"
  proof (rule bit_word_eqI)
    fix n
    show "bit ((ucast a XOR ucast x) OR r) n = bit ((ucast a OR r) XOR ucast x) n"
      using r [of n] bit_imp_le_length [of x n] by (auto simp: bit_simps)
  qed
  moreover have "bit (push_bit 32 (ucast b) OR push_bit 64 (ucast c) OR push_bit 96 (ucast d) :: 128 word) n \<Longrightarrow> 32 \<le> n" for n
    by (auto simp: bit_simps)
  ultimately show ?thesis
    by (simp add: s limbs_word_bits or.assoc)
qed

lemma low_limb:
  assumes "unat (a :: u32) + 2 ^ 32 * r = unat (b :: u32) + 2 ^ 32 * t"
  shows "a = b" "r = t"
proof -
  have "(unat a + 2 ^ 32 * r) mod 2 ^ 32 = unat a" "(unat b + 2 ^ 32 * t) mod 2 ^ 32 = unat b"
    using unat_lt32 [of a] unat_lt32 [of b] by simp_all
  with assms have "unat a = unat b" by metis
  then show "a = b" by (rule unsigned_word_eqI)
  then show "r = t" using assms by simp
qed

lemma limbs_word_inject:
  assumes "length s = 4" "length t = 4" "limbs_word s = limbs_word t"
  shows "s = t"
proof -
  obtain a b c d where s: "s = [a, b, c, d]" using assms by (auto simp: list4)
  obtain a' b' c' d' where t: "t = [a', b', c', d']" using assms by (auto simp: list4)
  have lt: "limbs_nat u < 2 ^ 128" if "length u = 4" for u
    using that unat_lt32 [of "u ! 0"] unat_lt32 [of "u ! 1"] unat_lt32 [of "u ! 2"] unat_lt32 [of "u ! 3"]
    by (simp add: limbs_nat_def)
  have "unat (limbs_word u) = limbs_nat u" if "length u = 4" for u
    using lt [OF that] by (simp add: limbs_word_def unat_of_nat)
  with assms have "limbs_nat s = limbs_nat t" by metis
  then have e: "unat a + 2 ^ 32 * (unat b + 2 ^ 32 * (unat c + 2 ^ 32 * unat d))
      = unat a' + 2 ^ 32 * (unat b' + 2 ^ 32 * (unat c' + 2 ^ 32 * unat d'))"
    by (simp add: s t limbs_nat_def)
  note e1 = low_limb [OF e]
  note e2 = low_limb [OF e1(2)]
  note e3 = low_limb [OF e2(2)]
  show ?thesis using e1 e2 e3 by (simp add: s t unsigned_word_eqI)
qed

definition fnv128_step :: "u8 \<Rightarrow> 128 word \<Rightarrow> 128 word" where
  "fnv128_step x h = (h XOR ucast x) * fnv128_prime"

lemma fnv_update_word:
  "length s = 4 \<Longrightarrow> length (fnv_update s bs) = 4 \<and> limbs_word (fnv_update s bs) = fold fnv128_step bs (limbs_word s)"
proof (induction bs arbitrary: s)
  case (Cons x bs)
  have "length (fnv_byte x s) = 4" "limbs_word (fnv_byte x s) = fnv128_step x (limbs_word s)"
    using Cons.prems by (simp_all add: fnv_byte_def fnv_multiply limbs_word_xor fnv128_step_def)
  then show ?case using Cons.IH [of "fnv_byte x s"] by (simp add: fnv_update_def)
qed (simp add: fnv_update_def)


lemma digest_state_finalize:
  assumes "length s = 4"
  shows "digest_state (Digest (fnv_finalize s)) = s"
proof -
  obtain a b c d where s: "s = [a, b, c, d]" using assms by (auto simp: list4)
  have word: "ucast (ucast (x AND 0xff) :: u8) OR push_bit 8 (ucast (ucast (drop_bit 8 x AND 0xff) :: u8)) OR
      push_bit 16 (ucast (ucast (drop_bit 16 x AND 0xff) :: u8)) OR
      push_bit 24 (ucast (ucast (drop_bit 24 x AND 0xff) :: u8)) = x" for x :: u32
  proof (rule bit_word_eqI)
    fix n :: nat
    assume n: "n < LENGTH(32)"
    have byte: "bit (ucast (ucast (y AND 0xff) :: u8) :: u32) m \<longleftrightarrow> m < 8 \<and> bit y m" for y :: u32 and m
      by (simp only: bit_ucast_iff [of "ucast (y AND 0xff) :: u8"] bit_low_byte_ucast) auto
    consider "n < 8" | "8 \<le> n \<and> n < 16" | "16 \<le> n \<and> n < 24" | "24 \<le> n" by linarith
    then show "bit (ucast (ucast (x AND 0xff) :: u8) OR push_bit 8 (ucast (ucast (drop_bit 8 x AND 0xff) :: u8)) OR
      push_bit 16 (ucast (ucast (drop_bit 16 x AND 0xff) :: u8)) OR
      push_bit 24 (ucast (ucast (drop_bit 24 x AND 0xff) :: u8)) :: u32) n = bit x n"
      using n by cases
        (simp_all only: bit_or_iff bit_push_bit_iff byte possible_bit_word bit_drop_bit_eq comp_def, auto)
  qed
  show ?thesis
    using word [of a] word [of b] word [of c] word [of d]
    by (simp add: digest_state_def fnv_finalize_def s upt_rows numeral_eq_Suc del: take_bit_eq_mask)
qed

lemma length_kOffsetBasis: "length kOffsetBasis = 4"
  by (simp add: kOffsetBasis_def)

lemma digest_update_of: "digest_update ys (digest_of xs) = digest_of (xs @ ys)"
proof -
  have "digest_state (digest_of xs) = fnv_update kOffsetBasis xs"
    unfolding digest_of_def by (intro digest_state_finalize) (simp add: fnv_update_word length_kOffsetBasis)
  then show ?thesis by (simp add: digest_update_def digest_of_def fnv_update_def)
qed

lemma fnv128_prime_odd: "odd fnv128_prime"
  by (simp add: fnv128_prime_def)

lemma xor_right_inject: "g XOR x = h XOR (x :: 'a::len word) \<Longrightarrow> g = h"
proof -
  assume "g XOR x = h XOR x"
  then have "(g XOR x) XOR x = (h XOR x) XOR x" by simp
  then show "g = h" by (simp add: xor.assoc)
qed

lemma xor_left_inject: "x XOR g = x XOR (h :: 'a::len word) \<Longrightarrow> g = h"
  by (metis xor.commute xor_right_inject)

lemma ucast_u8_inject: "LENGTH('a) \<ge> 8 \<Longrightarrow> (ucast (x :: u8) :: 'a::len word) = ucast y \<Longrightarrow> x = y"
proof (rule bit_word_eqI)
  fix n :: nat
  assume len: "8 \<le> LENGTH('a)" and n: "n < LENGTH(8)" and eq: "(ucast x :: 'a word) = ucast y"
  have "bit (ucast z :: 'a word) n = bit z n" for z :: u8
    using len n by (auto simp: bit_simps)
  then show "bit x n = bit y n" using eq by metis
qed

lemma fnv128_step_inject: "fnv128_step x g = fnv128_step x h \<Longrightarrow> g = h"
  unfolding fnv128_step_def by (blast dest: odd_mult_cancel [OF fnv128_prime_odd] xor_right_inject)

lemma fnv128_byte_inject: "fnv128_step x h = fnv128_step y h \<Longrightarrow> x = y"
  unfolding fnv128_step_def
  by (drule odd_mult_cancel [OF fnv128_prime_odd], drule xor_left_inject, erule ucast_u8_inject [rotated]) simp

lemma fnv128_fold_inject: "fold fnv128_step bs g = fold fnv128_step bs h \<Longrightarrow> g = h"
  by (induction bs arbitrary: g h) (auto dest: fnv128_step_inject)

lemma digest_of_inject_limbs:
  assumes "digest_of xs = digest_of ys"
  shows "fold fnv128_step xs (limbs_word kOffsetBasis) = fold fnv128_step ys (limbs_word kOffsetBasis)"
proof -
  have "digest_state (digest_of zs) = fnv_update kOffsetBasis zs" for zs
    unfolding digest_of_def by (intro digest_state_finalize) (simp add: fnv_update_word length_kOffsetBasis)
  with assms have "fnv_update kOffsetBasis xs = fnv_update kOffsetBasis ys" by metis
  then show ?thesis by (metis fnv_update_word length_kOffsetBasis)
qed


text \<open>The digest is FNV-style hashing over 128-bit words: reading the four limbs of the state as one
  word, absorbing a byte string is, byte by byte, the exclusive or with the byte followed by the
  multiplication by the constant the code uses, modulo 2 ^ 128. No carry of the schoolbook loop is lost.\<close>

theorem digest_is_fnv128:
  "digest_of bs = Digest (fnv_finalize (fnv_update kOffsetBasis bs)) \<and>
   digest_state (digest_of bs) = fnv_update kOffsetBasis bs \<and>
   limbs_word (fnv_update kOffsetBasis bs) = fold fnv128_step bs (limbs_word kOffsetBasis)"
  by (simp add: digest_of_def digest_state_finalize fnv_update_word length_kOffsetBasis)

lemma digest_of_byte:
  assumes "digest_of (xs @ b # ys) = digest_of (xs @ c # ys)"
  shows "b = c"
  using digest_of_inject_limbs [OF assms] by (auto dest: fnv128_fold_inject fnv128_byte_inject)

text \<open>Changing a single byte of the hashed content always changes the digest.\<close>

theorem digest_detects_byte_change:
  assumes "b \<noteq> c"
  shows "digest_of (xs @ b # ys) \<noteq> digest_of (xs @ c # ys)"
  using assms digest_of_byte by blast

lemma digest_detects_byte_change_witness: "digest_of ([7] @ 1 # [9]) \<noteq> digest_of ([7] @ 2 # [9])"
  by (rule digest_detects_byte_change) simp

lemma fnv1a64_step_inject: "fnv1a64_step x g = fnv1a64_step x h \<Longrightarrow> g = h"
  unfolding fnv1a64_step_def by (drule odd_mult_cancel [rotated]) (auto dest: xor_right_inject)

lemma fnv1a64_byte_inject: "fnv1a64_step x h = fnv1a64_step y h \<Longrightarrow> x = y"
  unfolding fnv1a64_step_def
  by (drule odd_mult_cancel [rotated], simp, drule xor_left_inject, erule ucast_u8_inject [rotated]) simp

lemma fnv1a64_fold_inject: "fold fnv1a64_step bs g = fold fnv1a64_step bs h \<Longrightarrow> g = h"
  by (induction bs arbitrary: g h) (auto dest: fnv1a64_step_inject)

lemma fnv1a64_byte: "fnv1a64 (xs @ b # ys) = fnv1a64 (xs @ c # ys) \<Longrightarrow> b = c"
  by (auto simp: fnv1a64_def dest: fnv1a64_fold_inject fnv1a64_byte_inject)

end
