(* ===== verification/Policy.thy ===== *)
theory Policy
  imports Digest
begin

text \<open>
  Diversity policies: their vocabulary, canonical form, semantic digest and validation
  (\<open>include/path_diversity/policy.hpp\<close>, \<open>src/policy.cpp\<close>). The lemmas characterise the accepted
  policies and show that the digest sees the content of a policy and not the order, the identity
  or the generation it was declared with.
\<close>

section \<open>Vocabulary\<close>

datatype endpoint_exemption =
    EE_NONE
  | EE_SHARED_SOURCE_AND_DESTINATION
  | EE_SHARED_SOURCE_ONLY
  | EE_SHARED_DESTINATION_ONLY
  | EE_ANY_ENDPOINT

definition endpoint_exemption_values :: "endpoint_exemption list" where
  "endpoint_exemption_values =
     [EE_NONE,
      EE_SHARED_SOURCE_AND_DESTINATION,
      EE_SHARED_SOURCE_ONLY,
      EE_SHARED_DESTINATION_ONLY,
      EE_ANY_ENDPOINT]"

primrec endpoint_exemption_code :: "endpoint_exemption \<Rightarrow> u8" where
  "endpoint_exemption_code EE_NONE = 1"
| "endpoint_exemption_code EE_SHARED_SOURCE_AND_DESTINATION = 2"
| "endpoint_exemption_code EE_SHARED_SOURCE_ONLY = 3"
| "endpoint_exemption_code EE_SHARED_DESTINATION_ONLY = 4"
| "endpoint_exemption_code EE_ANY_ENDPOINT = 5"

definition is_defined_endpoint_exemption :: "u8 \<Rightarrow> bool" where
  "is_defined_endpoint_exemption raw \<longleftrightarrow> endpoint_exemption_code EE_NONE \<le> raw \<and> raw \<le> endpoint_exemption_code EE_ANY_ENDPOINT"

definition endpoint_exemption_of_code :: "u8 \<Rightarrow> endpoint_exemption option" where
  "endpoint_exemption_of_code raw = find (\<lambda>x. endpoint_exemption_code x = raw) endpoint_exemption_values"

definition endpoint_exemption_to_string :: "endpoint_exemption \<Rightarrow> string" where
  "endpoint_exemption_to_string v = (case v of
      EE_NONE \<Rightarrow> ''NONE''
    | EE_SHARED_SOURCE_AND_DESTINATION \<Rightarrow> ''SHARED_SOURCE_AND_DESTINATION''
    | EE_SHARED_SOURCE_ONLY \<Rightarrow> ''SHARED_SOURCE_ONLY''
    | EE_SHARED_DESTINATION_ONLY \<Rightarrow> ''SHARED_DESTINATION_ONLY''
    | EE_ANY_ENDPOINT \<Rightarrow> ''ANY_ENDPOINT'')"

definition endpoint_exemption_from_string :: "string \<Rightarrow> endpoint_exemption option" where
  "endpoint_exemption_from_string text = find (\<lambda>x. endpoint_exemption_to_string x = text) endpoint_exemption_values"

interpretation endpoint_exemption_enum: wire_enum endpoint_exemption_code endpoint_exemption_values is_defined_endpoint_exemption endpoint_exemption_of_code
proof unfold_locales
  show "map endpoint_exemption_code endpoint_exemption_values = map of_nat [1..<Suc (length endpoint_exemption_values)]"
    by (simp add: endpoint_exemption_values_def upt_rec)
  show "x \<in> set endpoint_exemption_values" for x
    by (cases x) (simp_all add: endpoint_exemption_values_def)
  show "length endpoint_exemption_values < 255"
    by (simp add: endpoint_exemption_values_def)
  show "is_defined_endpoint_exemption raw \<longleftrightarrow> 1 \<le> raw \<and> raw \<le> of_nat (length endpoint_exemption_values)" for raw
    by (simp add: is_defined_endpoint_exemption_def endpoint_exemption_values_def)
  show "endpoint_exemption_of_code raw = find (\<lambda>x. endpoint_exemption_code x = raw) endpoint_exemption_values" for raw
    by (simp add: endpoint_exemption_of_code_def)
qed

interpretation endpoint_exemption_name: named_enum endpoint_exemption_to_string endpoint_exemption_values endpoint_exemption_from_string
proof unfold_locales
  show "distinct (map endpoint_exemption_to_string endpoint_exemption_values)"
    by (simp add: endpoint_exemption_values_def endpoint_exemption_to_string_def)
  show "x \<in> set endpoint_exemption_values" for x
    by (cases x) (simp_all add: endpoint_exemption_values_def)
  show "endpoint_exemption_from_string t = find (\<lambda>x. endpoint_exemption_to_string x = t) endpoint_exemption_values" for t
    by (simp add: endpoint_exemption_from_string_def)
qed

datatype set_semantics =
    SS_ALL_PAIRS
  | SS_AT_LEAST_K_INDEPENDENT

definition set_semantics_values :: "set_semantics list" where
  "set_semantics_values =
     [SS_ALL_PAIRS,
      SS_AT_LEAST_K_INDEPENDENT]"

primrec set_semantics_code :: "set_semantics \<Rightarrow> u8" where
  "set_semantics_code SS_ALL_PAIRS = 1"
| "set_semantics_code SS_AT_LEAST_K_INDEPENDENT = 2"

definition is_defined_set_semantics :: "u8 \<Rightarrow> bool" where
  "is_defined_set_semantics raw \<longleftrightarrow> set_semantics_code SS_ALL_PAIRS \<le> raw \<and> raw \<le> set_semantics_code SS_AT_LEAST_K_INDEPENDENT"

definition set_semantics_of_code :: "u8 \<Rightarrow> set_semantics option" where
  "set_semantics_of_code raw = find (\<lambda>x. set_semantics_code x = raw) set_semantics_values"

definition set_semantics_to_string :: "set_semantics \<Rightarrow> string" where
  "set_semantics_to_string v = (case v of
      SS_ALL_PAIRS \<Rightarrow> ''ALL_PAIRS''
    | SS_AT_LEAST_K_INDEPENDENT \<Rightarrow> ''AT_LEAST_K_INDEPENDENT'')"

definition set_semantics_from_string :: "string \<Rightarrow> set_semantics option" where
  "set_semantics_from_string text = find (\<lambda>x. set_semantics_to_string x = text) set_semantics_values"

interpretation set_semantics_enum: wire_enum set_semantics_code set_semantics_values is_defined_set_semantics set_semantics_of_code
proof unfold_locales
  show "map set_semantics_code set_semantics_values = map of_nat [1..<Suc (length set_semantics_values)]"
    by (simp add: set_semantics_values_def upt_rec)
  show "x \<in> set set_semantics_values" for x
    by (cases x) (simp_all add: set_semantics_values_def)
  show "length set_semantics_values < 255"
    by (simp add: set_semantics_values_def)
  show "is_defined_set_semantics raw \<longleftrightarrow> 1 \<le> raw \<and> raw \<le> of_nat (length set_semantics_values)" for raw
    by (simp add: is_defined_set_semantics_def set_semantics_values_def)
  show "set_semantics_of_code raw = find (\<lambda>x. set_semantics_code x = raw) set_semantics_values" for raw
    by (simp add: set_semantics_of_code_def)
qed

interpretation set_semantics_name: named_enum set_semantics_to_string set_semantics_values set_semantics_from_string
proof unfold_locales
  show "distinct (map set_semantics_to_string set_semantics_values)"
    by (simp add: set_semantics_values_def set_semantics_to_string_def)
  show "x \<in> set set_semantics_values" for x
    by (cases x) (simp_all add: set_semantics_values_def)
  show "set_semantics_from_string t = find (\<lambda>x. set_semantics_to_string x = t) set_semantics_values" for t
    by (simp add: set_semantics_from_string_def)
qed

datatype completeness_requirement =
    CR_REQUIRE_COMPLETE_EVIDENCE
  | CR_PROVEN_CONFLICT_DECISIVE

definition completeness_requirement_values :: "completeness_requirement list" where
  "completeness_requirement_values =
     [CR_REQUIRE_COMPLETE_EVIDENCE,
      CR_PROVEN_CONFLICT_DECISIVE]"

primrec completeness_requirement_code :: "completeness_requirement \<Rightarrow> u8" where
  "completeness_requirement_code CR_REQUIRE_COMPLETE_EVIDENCE = 1"
| "completeness_requirement_code CR_PROVEN_CONFLICT_DECISIVE = 2"

definition is_defined_completeness_requirement :: "u8 \<Rightarrow> bool" where
  "is_defined_completeness_requirement raw \<longleftrightarrow> completeness_requirement_code CR_REQUIRE_COMPLETE_EVIDENCE \<le> raw \<and> raw \<le> completeness_requirement_code CR_PROVEN_CONFLICT_DECISIVE"

definition completeness_requirement_of_code :: "u8 \<Rightarrow> completeness_requirement option" where
  "completeness_requirement_of_code raw = find (\<lambda>x. completeness_requirement_code x = raw) completeness_requirement_values"

definition completeness_requirement_to_string :: "completeness_requirement \<Rightarrow> string" where
  "completeness_requirement_to_string v = (case v of
      CR_REQUIRE_COMPLETE_EVIDENCE \<Rightarrow> ''REQUIRE_COMPLETE_EVIDENCE''
    | CR_PROVEN_CONFLICT_DECISIVE \<Rightarrow> ''PROVEN_CONFLICT_DECISIVE'')"

definition completeness_requirement_from_string :: "string \<Rightarrow> completeness_requirement option" where
  "completeness_requirement_from_string text = find (\<lambda>x. completeness_requirement_to_string x = text) completeness_requirement_values"

interpretation completeness_requirement_enum: wire_enum completeness_requirement_code completeness_requirement_values is_defined_completeness_requirement completeness_requirement_of_code
proof unfold_locales
  show "map completeness_requirement_code completeness_requirement_values = map of_nat [1..<Suc (length completeness_requirement_values)]"
    by (simp add: completeness_requirement_values_def upt_rec)
  show "x \<in> set completeness_requirement_values" for x
    by (cases x) (simp_all add: completeness_requirement_values_def)
  show "length completeness_requirement_values < 255"
    by (simp add: completeness_requirement_values_def)
  show "is_defined_completeness_requirement raw \<longleftrightarrow> 1 \<le> raw \<and> raw \<le> of_nat (length completeness_requirement_values)" for raw
    by (simp add: is_defined_completeness_requirement_def completeness_requirement_values_def)
  show "completeness_requirement_of_code raw = find (\<lambda>x. completeness_requirement_code x = raw) completeness_requirement_values" for raw
    by (simp add: completeness_requirement_of_code_def)
qed

interpretation completeness_requirement_name: named_enum completeness_requirement_to_string completeness_requirement_values completeness_requirement_from_string
proof unfold_locales
  show "distinct (map completeness_requirement_to_string completeness_requirement_values)"
    by (simp add: completeness_requirement_values_def completeness_requirement_to_string_def)
  show "x \<in> set completeness_requirement_values" for x
    by (cases x) (simp_all add: completeness_requirement_values_def)
  show "completeness_requirement_from_string t = find (\<lambda>x. completeness_requirement_to_string x = t) completeness_requirement_values" for t
    by (simp add: completeness_requirement_from_string_def)
qed

datatype unknown_behavior =
    UB_REJECT_PROOF
  | UB_DEMOTE_TO_REVALIDATION

definition unknown_behavior_values :: "unknown_behavior list" where
  "unknown_behavior_values =
     [UB_REJECT_PROOF,
      UB_DEMOTE_TO_REVALIDATION]"

primrec unknown_behavior_code :: "unknown_behavior \<Rightarrow> u8" where
  "unknown_behavior_code UB_REJECT_PROOF = 1"
| "unknown_behavior_code UB_DEMOTE_TO_REVALIDATION = 2"

definition is_defined_unknown_behavior :: "u8 \<Rightarrow> bool" where
  "is_defined_unknown_behavior raw \<longleftrightarrow> unknown_behavior_code UB_REJECT_PROOF \<le> raw \<and> raw \<le> unknown_behavior_code UB_DEMOTE_TO_REVALIDATION"

definition unknown_behavior_of_code :: "u8 \<Rightarrow> unknown_behavior option" where
  "unknown_behavior_of_code raw = find (\<lambda>x. unknown_behavior_code x = raw) unknown_behavior_values"

definition unknown_behavior_to_string :: "unknown_behavior \<Rightarrow> string" where
  "unknown_behavior_to_string v = (case v of
      UB_REJECT_PROOF \<Rightarrow> ''REJECT_PROOF''
    | UB_DEMOTE_TO_REVALIDATION \<Rightarrow> ''DEMOTE_TO_REVALIDATION'')"

definition unknown_behavior_from_string :: "string \<Rightarrow> unknown_behavior option" where
  "unknown_behavior_from_string text = find (\<lambda>x. unknown_behavior_to_string x = text) unknown_behavior_values"

interpretation unknown_behavior_enum: wire_enum unknown_behavior_code unknown_behavior_values is_defined_unknown_behavior unknown_behavior_of_code
proof unfold_locales
  show "map unknown_behavior_code unknown_behavior_values = map of_nat [1..<Suc (length unknown_behavior_values)]"
    by (simp add: unknown_behavior_values_def upt_rec)
  show "x \<in> set unknown_behavior_values" for x
    by (cases x) (simp_all add: unknown_behavior_values_def)
  show "length unknown_behavior_values < 255"
    by (simp add: unknown_behavior_values_def)
  show "is_defined_unknown_behavior raw \<longleftrightarrow> 1 \<le> raw \<and> raw \<le> of_nat (length unknown_behavior_values)" for raw
    by (simp add: is_defined_unknown_behavior_def unknown_behavior_values_def)
  show "unknown_behavior_of_code raw = find (\<lambda>x. unknown_behavior_code x = raw) unknown_behavior_values" for raw
    by (simp add: unknown_behavior_of_code_def)
qed

interpretation unknown_behavior_name: named_enum unknown_behavior_to_string unknown_behavior_values unknown_behavior_from_string
proof unfold_locales
  show "distinct (map unknown_behavior_to_string unknown_behavior_values)"
    by (simp add: unknown_behavior_values_def unknown_behavior_to_string_def)
  show "x \<in> set unknown_behavior_values" for x
    by (cases x) (simp_all add: unknown_behavior_values_def)
  show "unknown_behavior_from_string t = find (\<lambda>x. unknown_behavior_to_string x = t) unknown_behavior_values" for t
    by (simp add: unknown_behavior_from_string_def)
qed

datatype policy_status =
    VS_VALID
  | VS_INVALID_IDENTITY
  | VS_UNSET_GENERATION
  | VS_NO_REQUIRED_CLASSES
  | VS_TOO_MANY_REQUIRED_CLASSES
  | VS_DUPLICATE_REQUIRED_CLASS
  | VS_UNKNOWN_REQUIRED_CLASS
  | VS_INVALID_MINIMUM_INDEPENDENT_PATHS
  | VS_MINIMUM_EXCEEDS_PATH_BOUND
  | VS_UNKNOWN_DOMAIN_RELATION
  | VS_DUPLICATE_DOMAIN_RELATION
  | VS_MISSING_DOMAIN_RELATIONS
  | VS_DESCRIPTION_TOO_LONG
  | VS_INVALID_SCOPE

definition policy_status_values :: "policy_status list" where
  "policy_status_values =
     [VS_VALID,
      VS_INVALID_IDENTITY,
      VS_UNSET_GENERATION,
      VS_NO_REQUIRED_CLASSES,
      VS_TOO_MANY_REQUIRED_CLASSES,
      VS_DUPLICATE_REQUIRED_CLASS,
      VS_UNKNOWN_REQUIRED_CLASS,
      VS_INVALID_MINIMUM_INDEPENDENT_PATHS,
      VS_MINIMUM_EXCEEDS_PATH_BOUND,
      VS_UNKNOWN_DOMAIN_RELATION,
      VS_DUPLICATE_DOMAIN_RELATION,
      VS_MISSING_DOMAIN_RELATIONS,
      VS_DESCRIPTION_TOO_LONG,
      VS_INVALID_SCOPE]"

definition policy_status_to_string :: "policy_status \<Rightarrow> string" where
  "policy_status_to_string v = (case v of
      VS_VALID \<Rightarrow> ''VALID''
    | VS_INVALID_IDENTITY \<Rightarrow> ''INVALID_IDENTITY''
    | VS_UNSET_GENERATION \<Rightarrow> ''UNSET_GENERATION''
    | VS_NO_REQUIRED_CLASSES \<Rightarrow> ''NO_REQUIRED_CLASSES''
    | VS_TOO_MANY_REQUIRED_CLASSES \<Rightarrow> ''TOO_MANY_REQUIRED_CLASSES''
    | VS_DUPLICATE_REQUIRED_CLASS \<Rightarrow> ''DUPLICATE_REQUIRED_CLASS''
    | VS_UNKNOWN_REQUIRED_CLASS \<Rightarrow> ''UNKNOWN_REQUIRED_CLASS''
    | VS_INVALID_MINIMUM_INDEPENDENT_PATHS \<Rightarrow> ''INVALID_MINIMUM_INDEPENDENT_PATHS''
    | VS_MINIMUM_EXCEEDS_PATH_BOUND \<Rightarrow> ''MINIMUM_EXCEEDS_PATH_BOUND''
    | VS_UNKNOWN_DOMAIN_RELATION \<Rightarrow> ''UNKNOWN_DOMAIN_RELATION''
    | VS_DUPLICATE_DOMAIN_RELATION \<Rightarrow> ''DUPLICATE_DOMAIN_RELATION''
    | VS_MISSING_DOMAIN_RELATIONS \<Rightarrow> ''MISSING_DOMAIN_RELATIONS''
    | VS_DESCRIPTION_TOO_LONG \<Rightarrow> ''DESCRIPTION_TOO_LONG''
    | VS_INVALID_SCOPE \<Rightarrow> ''INVALID_SCOPE'')"

section \<open>Policies\<close>

record diversity_policy =
  dp_id :: diversity_policy_id
  dp_generation :: diversity_policy_generation
  dp_scope :: scope_id
  dp_required_classes :: "diversity_class list"
  dp_endpoint_exemption :: endpoint_exemption
  dp_minimum_independent_paths :: nat
  dp_semantics :: set_semantics
  dp_completeness :: completeness_requirement
  dp_unknown_behavior :: unknown_behavior
  dp_allowed_relations :: "domain_relation list"
  dp_require_authority_current :: bool
  dp_description :: string

definition default_policy :: diversity_policy where
  "default_policy =
     \<lparr>dp_id = unset_id, dp_generation = gen_unset, dp_scope = unset_id, dp_required_classes = [],
      dp_endpoint_exemption = EE_SHARED_SOURCE_AND_DESTINATION, dp_minimum_independent_paths = 2,
      dp_semantics = SS_ALL_PAIRS, dp_completeness = CR_REQUIRE_COMPLETE_EVIDENCE,
      dp_unknown_behavior = UB_REJECT_PROOF, dp_allowed_relations = [],
      dp_require_authority_current = True, dp_description = []\<rparr>"

definition dp_canonicalize :: "diversity_policy \<Rightarrow> diversity_policy" where
  "dp_canonicalize p =
     p\<lparr>dp_required_classes := sort (dp_required_classes p),
       dp_allowed_relations := sort (dp_allowed_relations p)\<rparr>"

definition policy_digest_bytes :: "diversity_policy \<Rightarrow> bytes" where
  "policy_digest_bytes p =
     put_u32 (of_nat kDiversityRuleSetVersion) @
     put_text (id_view (dp_scope p)) @
     put_varint (of_nat (length (dp_required_classes p))) @
     concat (map (\<lambda>k. put_u8 (diversity_class_code k)) (dp_required_classes p)) @
     put_u8 (endpoint_exemption_code (dp_endpoint_exemption p)) @
     put_varint (of_nat (dp_minimum_independent_paths p)) @
     put_u8 (set_semantics_code (dp_semantics p)) @
     put_u8 (completeness_requirement_code (dp_completeness p)) @
     put_u8 (unknown_behavior_code (dp_unknown_behavior p)) @
     put_varint (of_nat (length (dp_allowed_relations p))) @
     concat (map (\<lambda>r. put_u8 (domain_relation_code r)) (dp_allowed_relations p)) @
     put_boolean (dp_require_authority_current p) @
     put_text (dp_description p)"

definition dp_semantic_digest :: "diversity_policy \<Rightarrow> digest" where
  "dp_semantic_digest p = digest_of (policy_digest_bytes (dp_canonicalize p))"

definition dp_render :: "diversity_policy \<Rightarrow> string" where
  "dp_render p =
     (let canonical = dp_canonicalize p
      in ''policy '' @ id_view (dp_id canonical) @ ''@g'' @ gen_text (dp_generation canonical) @
         '' scope='' @ id_view (dp_scope canonical) @
         '' classes=['' @ join '','' (map diversity_class_to_string (dp_required_classes canonical)) @
         ''] endpoints='' @ endpoint_exemption_to_string (dp_endpoint_exemption canonical) @
         '' k='' @ decimal (dp_minimum_independent_paths canonical) @
         '' semantics='' @ set_semantics_to_string (dp_semantics canonical) @
         '' completeness='' @ completeness_requirement_to_string (dp_completeness canonical) @
         '' unknown='' @ unknown_behavior_to_string (dp_unknown_behavior canonical) @
         '' relations=['' @ join '','' (map domain_relation_to_string (dp_allowed_relations canonical)) @
         '']'')"

section \<open>Validation\<close>

record policy_validation =
  pv_status :: policy_status
  pv_detail :: string

definition pv_ok :: "policy_validation \<Rightarrow> bool" where
  "pv_ok v \<longleftrightarrow> pv_status v = VS_VALID"

definition refuse_policy :: "policy_status \<Rightarrow> string \<Rightarrow> policy_validation" where
  "refuse_policy status detail = \<lparr>pv_status = status, pv_detail = detail\<rparr>"

definition contains_required_class :: "diversity_class list \<Rightarrow> diversity_class \<Rightarrow> bool" where
  "contains_required_class classes v = list_ex (\<lambda>candidate. candidate = v) classes"

definition msg_missing_relations :: string where
  "msg_missing_relations =
     ''FAILURE_DOMAIN_DISJOINT requires an explicit allowed_failure_domain_relations set: '' @
     ''absence of an observed shared domain is only meaningful against a declared relation set''"

text \<open>The checks on the relation set and the description, the second half of \<open>validate_policy\<close>.\<close>

definition validate_relations :: "diversity_policy \<Rightarrow> limits \<Rightarrow> policy_validation" where
  "validate_relations p l =
     (if list_ex (\<lambda>r. \<not> is_defined_domain_relation (domain_relation_code r)) (dp_allowed_relations p)
      then refuse_policy VS_UNKNOWN_DOMAIN_RELATION
             ''allowed failure-domain relation encoding is not defined''
      else case first_adjacent_repeat (sort (dp_allowed_relations p)) of
        Some r \<Rightarrow> refuse_policy VS_DUPLICATE_DOMAIN_RELATION
          (''allowed relation '' @ domain_relation_to_string r @ '' is declared more than once'')
      | None \<Rightarrow>
        if contains_required_class (dp_required_classes p) DC_FAILURE_DOMAIN_DISJOINT \<and>
           dp_allowed_relations p = []
        then refuse_policy VS_MISSING_DOMAIN_RELATIONS msg_missing_relations
        else if max_persistence_record_bytes l < length (dp_description p)
        then refuse_policy VS_DESCRIPTION_TOO_LONG
               ''policy description does not fit inside one persistence record''
        else refuse_policy VS_VALID [])"

definition validate_policy :: "diversity_policy \<Rightarrow> limits \<Rightarrow> policy_validation" where
  "validate_policy p l =
     (if \<not> id_valid (dp_id p)
      then refuse_policy VS_INVALID_IDENTITY ''policy id is not a valid DiversityPolicyId encoding''
      else if \<not> gen_is_set (dp_generation p)
      then refuse_policy VS_UNSET_GENERATION ''policy generation 0 is not a legal required generation''
      else if \<not> id_valid (dp_scope p)
      then refuse_policy VS_INVALID_SCOPE ''policy scope is not a valid ScopeId encoding''
      else if dp_required_classes p = []
      then refuse_policy VS_NO_REQUIRED_CLASSES ''a policy that requires no diversity class proves nothing''
      else if max_required_classes l < length (dp_required_classes p)
      then refuse_policy VS_TOO_MANY_REQUIRED_CLASSES
             (''required class count '' @ decimal (length (dp_required_classes p)) @
              '' exceeds max_required_classes '' @ decimal (max_required_classes l))
      else if list_ex (\<lambda>k. \<not> is_defined_diversity_class (diversity_class_code k)) (dp_required_classes p)
      then refuse_policy VS_UNKNOWN_REQUIRED_CLASS ''required class encoding is not defined''
      else case first_adjacent_repeat (sort (dp_required_classes p)) of
        Some k \<Rightarrow> refuse_policy VS_DUPLICATE_REQUIRED_CLASS
          (''required class '' @ diversity_class_to_string k @ '' is declared more than once'')
      | None \<Rightarrow>
        if dp_minimum_independent_paths p < 2
        then refuse_policy VS_INVALID_MINIMUM_INDEPENDENT_PATHS
               ''minimum independent path count must be at least 2''
        else if max_paths_per_proof l < dp_minimum_independent_paths p
        then refuse_policy VS_MINIMUM_EXCEEDS_PATH_BOUND
               (''minimum independent path count '' @ decimal (dp_minimum_independent_paths p) @
                '' exceeds max_paths_per_proof '' @ decimal (max_paths_per_proof l))
        else validate_relations p l)"

section \<open>Accepted policies\<close>

definition policy_acceptable :: "diversity_policy \<Rightarrow> limits \<Rightarrow> bool" where
  "policy_acceptable p l \<longleftrightarrow>
     id_valid (dp_id p) \<and> gen_is_set (dp_generation p) \<and> id_valid (dp_scope p) \<and>
     dp_required_classes p \<noteq> [] \<and> length (dp_required_classes p) \<le> max_required_classes l \<and>
     distinct (dp_required_classes p) \<and> 2 \<le> dp_minimum_independent_paths p \<and>
     dp_minimum_independent_paths p \<le> max_paths_per_proof l \<and> distinct (dp_allowed_relations p) \<and>
     (DC_FAILURE_DOMAIN_DISJOINT \<in> set (dp_required_classes p) \<longrightarrow> dp_allowed_relations p \<noteq> []) \<and>
     length (dp_description p) \<le> max_persistence_record_bytes l"

lemma contains_required_class_iff [simp]: "contains_required_class ks k \<longleftrightarrow> k \<in> set ks"
  by (auto simp: contains_required_class_def list_ex_iff)

lemma pv_ok_refuse [simp]: "pv_ok (refuse_policy s d) \<longleftrightarrow> s = VS_VALID"
  by (simp add: pv_ok_def refuse_policy_def)

lemma validate_relations_ok:
  "pv_ok (validate_relations p l) \<longleftrightarrow>
     distinct (dp_allowed_relations p) \<and>
     (DC_FAILURE_DOMAIN_DISJOINT \<in> set (dp_required_classes p) \<longrightarrow> dp_allowed_relations p \<noteq> []) \<and>
     length (dp_description p) \<le> max_persistence_record_bytes l"
  using first_adjacent_repeat_sort [of "dp_allowed_relations p"]
  by (auto simp: validate_relations_def list_ex_iff split: option.splits)

lemma validate_policy_verdict: "pv_ok (validate_policy p l) \<longleftrightarrow> policy_acceptable p l"
  using first_adjacent_repeat_sort [of "dp_required_classes p"]
  by (auto simp: validate_policy_def policy_acceptable_def validate_relations_ok list_ex_iff
      split: option.splits)

text \<open>Validation accepts a policy exactly when its identity, generation and scope are set, it
  requires at least one and at most the allowed number of classes without repeats, its independence
  threshold lies between 2 and the path bound, its relations are declared once (and declared at all when
  FAILURE_DOMAIN_DISJOINT is required) and its description fits one record.\<close>

theorem validate_policy_accepts_iff:
  "pv_ok (validate_policy p l) \<longleftrightarrow> policy_acceptable p l"
  by (rule validate_policy_verdict)

text \<open>A refused policy is named by the first failing check: no later status hides an earlier fault.\<close>

lemma validate_policy_unset_generation:
  "id_valid (dp_id p) \<Longrightarrow> \<not> gen_is_set (dp_generation p) \<Longrightarrow>
     pv_status (validate_policy p l) = VS_UNSET_GENERATION"
  by (simp add: validate_policy_def refuse_policy_def)

lemma dp_canonicalize_idem [simp]: "dp_canonicalize (dp_canonicalize p) = dp_canonicalize p"
  by (simp add: dp_canonicalize_def)

lemma dp_canonicalize_acceptable: "policy_acceptable (dp_canonicalize p) l \<longleftrightarrow> policy_acceptable p l"
  by (simp add: policy_acceptable_def dp_canonicalize_def sort_eq_Nil)

lemma dp_semantic_digest_canonical [simp]: "dp_semantic_digest (dp_canonicalize p) = dp_semantic_digest p"
  by (simp add: dp_semantic_digest_def)

text \<open>The semantic digest of a policy depends on its content only: not on the declared identity or
  generation, and not on the order in which classes and relations were listed.\<close>

theorem policy_digest_content_only:
  assumes "mset classes = mset (dp_required_classes p)"
    and "mset relations = mset (dp_allowed_relations p)"
  shows "dp_semantic_digest (p\<lparr>dp_id := i, dp_generation := g, dp_required_classes := classes,
           dp_allowed_relations := relations\<rparr>) = dp_semantic_digest p"
proof -
  have "sort classes = sort (dp_required_classes p)" "sort relations = sort (dp_allowed_relations p)"
    using assms by (auto intro: sort_eq_of_mset)
  then show ?thesis
    by (simp only: dp_semantic_digest_def policy_digest_bytes_def dp_canonicalize_def) simp
qed

lemma policy_digest_content_only_witness:
  "dp_semantic_digest (default_policy\<lparr>dp_required_classes := [DC_LINK_DISJOINT, DC_RACK_DISJOINT],
      dp_id := StringId ''a'', dp_generation := Generation 3,
      dp_required_classes := [DC_RACK_DISJOINT, DC_LINK_DISJOINT], dp_allowed_relations := []\<rparr>) =
   dp_semantic_digest (default_policy\<lparr>dp_required_classes := [DC_LINK_DISJOINT, DC_RACK_DISJOINT]\<rparr>)"
  by (rule policy_digest_content_only) (simp_all add: default_policy_def)

end
