(* ===== verification/Outcome.thy ===== *)
theory Outcome
  imports Policy
begin

text \<open>
  Outcomes, shared resources and their precedence, class results, the pairwise matrix and the
  witness subset (\<open>include/path_diversity/outcome.hpp\<close>, \<open>src/proof.cpp\<close>). The lemmas show that
  the conflict order is total, that the upper-triangle index addresses exactly the pairs in row-major
  order, and that \<open>at\<close> is symmetric.
\<close>

section \<open>Outcomes and conflict classes\<close>

datatype proof_outcome =
    PO_PROVEN_DIVERSE
  | PO_NOT_DIVERSE
  | PO_UNKNOWN_INCOMPLETE_EVIDENCE
  | PO_STALE_PATH_AUTHORITY
  | PO_STALE_TOPOLOGY
  | PO_STALE_FAILURE_DOMAIN
  | PO_STALE_POLICY
  | PO_REVALIDATION_REQUIRED
  | PO_UNAUTHORIZED
  | PO_RESOURCE_LIMIT
  | PO_MALFORMED

definition proof_outcome_values :: "proof_outcome list" where
  "proof_outcome_values =
     [PO_PROVEN_DIVERSE,
      PO_NOT_DIVERSE,
      PO_UNKNOWN_INCOMPLETE_EVIDENCE,
      PO_STALE_PATH_AUTHORITY,
      PO_STALE_TOPOLOGY,
      PO_STALE_FAILURE_DOMAIN,
      PO_STALE_POLICY,
      PO_REVALIDATION_REQUIRED,
      PO_UNAUTHORIZED,
      PO_RESOURCE_LIMIT,
      PO_MALFORMED]"

primrec proof_outcome_code :: "proof_outcome \<Rightarrow> u8" where
  "proof_outcome_code PO_PROVEN_DIVERSE = 1"
| "proof_outcome_code PO_NOT_DIVERSE = 2"
| "proof_outcome_code PO_UNKNOWN_INCOMPLETE_EVIDENCE = 3"
| "proof_outcome_code PO_STALE_PATH_AUTHORITY = 4"
| "proof_outcome_code PO_STALE_TOPOLOGY = 5"
| "proof_outcome_code PO_STALE_FAILURE_DOMAIN = 6"
| "proof_outcome_code PO_STALE_POLICY = 7"
| "proof_outcome_code PO_REVALIDATION_REQUIRED = 8"
| "proof_outcome_code PO_UNAUTHORIZED = 9"
| "proof_outcome_code PO_RESOURCE_LIMIT = 10"
| "proof_outcome_code PO_MALFORMED = 11"

definition is_defined_proof_outcome :: "u8 \<Rightarrow> bool" where
  "is_defined_proof_outcome raw \<longleftrightarrow> proof_outcome_code PO_PROVEN_DIVERSE \<le> raw \<and> raw \<le> proof_outcome_code PO_MALFORMED"

definition proof_outcome_of_code :: "u8 \<Rightarrow> proof_outcome option" where
  "proof_outcome_of_code raw = find (\<lambda>x. proof_outcome_code x = raw) proof_outcome_values"

definition proof_outcome_to_string :: "proof_outcome \<Rightarrow> string" where
  "proof_outcome_to_string v = (case v of
      PO_PROVEN_DIVERSE \<Rightarrow> ''PROVEN_DIVERSE''
    | PO_NOT_DIVERSE \<Rightarrow> ''NOT_DIVERSE''
    | PO_UNKNOWN_INCOMPLETE_EVIDENCE \<Rightarrow> ''UNKNOWN_INCOMPLETE_EVIDENCE''
    | PO_STALE_PATH_AUTHORITY \<Rightarrow> ''STALE_PATH_AUTHORITY''
    | PO_STALE_TOPOLOGY \<Rightarrow> ''STALE_TOPOLOGY''
    | PO_STALE_FAILURE_DOMAIN \<Rightarrow> ''STALE_FAILURE_DOMAIN''
    | PO_STALE_POLICY \<Rightarrow> ''STALE_POLICY''
    | PO_REVALIDATION_REQUIRED \<Rightarrow> ''REVALIDATION_REQUIRED''
    | PO_UNAUTHORIZED \<Rightarrow> ''UNAUTHORIZED''
    | PO_RESOURCE_LIMIT \<Rightarrow> ''RESOURCE_LIMIT''
    | PO_MALFORMED \<Rightarrow> ''MALFORMED'')"

definition proof_outcome_from_string :: "string \<Rightarrow> proof_outcome option" where
  "proof_outcome_from_string text = find (\<lambda>x. proof_outcome_to_string x = text) proof_outcome_values"

interpretation proof_outcome_enum: wire_enum proof_outcome_code proof_outcome_values is_defined_proof_outcome proof_outcome_of_code
proof unfold_locales
  show "map proof_outcome_code proof_outcome_values = map of_nat [1..<Suc (length proof_outcome_values)]"
    by (simp add: proof_outcome_values_def upt_rec)
  show "x \<in> set proof_outcome_values" for x
    by (cases x) (simp_all add: proof_outcome_values_def)
  show "length proof_outcome_values < 255"
    by (simp add: proof_outcome_values_def)
  show "is_defined_proof_outcome raw \<longleftrightarrow> 1 \<le> raw \<and> raw \<le> of_nat (length proof_outcome_values)" for raw
    by (simp add: is_defined_proof_outcome_def proof_outcome_values_def)
  show "proof_outcome_of_code raw = find (\<lambda>x. proof_outcome_code x = raw) proof_outcome_values" for raw
    by (simp add: proof_outcome_of_code_def)
qed

interpretation proof_outcome_name: named_enum proof_outcome_to_string proof_outcome_values proof_outcome_from_string
proof unfold_locales
  show "distinct (map proof_outcome_to_string proof_outcome_values)"
    by (simp add: proof_outcome_values_def proof_outcome_to_string_def)
  show "x \<in> set proof_outcome_values" for x
    by (cases x) (simp_all add: proof_outcome_values_def)
  show "proof_outcome_from_string t = find (\<lambda>x. proof_outcome_to_string x = t) proof_outcome_values" for t
    by (simp add: proof_outcome_from_string_def)
qed

datatype conflict_class =
    CC_SHARED_FAILURE_DOMAIN
  | CC_SHARED_RISK_GROUP
  | CC_SHARED_SITE
  | CC_SHARED_POD
  | CC_SHARED_RACK
  | CC_SHARED_POWER_DOMAIN
  | CC_SHARED_CONDUIT
  | CC_SHARED_COOLING
  | CC_SHARED_DEVICE
  | CC_SHARED_TRANSIT_NODE
  | CC_SHARED_LINK
  | CC_SHARED_ENDPOINT
  | CC_INCOMPLETE_EVIDENCE
  | CC_STALE_DEPENDENCY

definition conflict_class_values :: "conflict_class list" where
  "conflict_class_values =
     [CC_SHARED_FAILURE_DOMAIN,
      CC_SHARED_RISK_GROUP,
      CC_SHARED_SITE,
      CC_SHARED_POD,
      CC_SHARED_RACK,
      CC_SHARED_POWER_DOMAIN,
      CC_SHARED_CONDUIT,
      CC_SHARED_COOLING,
      CC_SHARED_DEVICE,
      CC_SHARED_TRANSIT_NODE,
      CC_SHARED_LINK,
      CC_SHARED_ENDPOINT,
      CC_INCOMPLETE_EVIDENCE,
      CC_STALE_DEPENDENCY]"

primrec conflict_class_code :: "conflict_class \<Rightarrow> u8" where
  "conflict_class_code CC_SHARED_FAILURE_DOMAIN = 1"
| "conflict_class_code CC_SHARED_RISK_GROUP = 2"
| "conflict_class_code CC_SHARED_SITE = 3"
| "conflict_class_code CC_SHARED_POD = 4"
| "conflict_class_code CC_SHARED_RACK = 5"
| "conflict_class_code CC_SHARED_POWER_DOMAIN = 6"
| "conflict_class_code CC_SHARED_CONDUIT = 7"
| "conflict_class_code CC_SHARED_COOLING = 8"
| "conflict_class_code CC_SHARED_DEVICE = 9"
| "conflict_class_code CC_SHARED_TRANSIT_NODE = 10"
| "conflict_class_code CC_SHARED_LINK = 11"
| "conflict_class_code CC_SHARED_ENDPOINT = 12"
| "conflict_class_code CC_INCOMPLETE_EVIDENCE = 13"
| "conflict_class_code CC_STALE_DEPENDENCY = 14"

definition is_defined_conflict_class :: "u8 \<Rightarrow> bool" where
  "is_defined_conflict_class raw \<longleftrightarrow> conflict_class_code CC_SHARED_FAILURE_DOMAIN \<le> raw \<and> raw \<le> conflict_class_code CC_STALE_DEPENDENCY"

definition conflict_class_of_code :: "u8 \<Rightarrow> conflict_class option" where
  "conflict_class_of_code raw = find (\<lambda>x. conflict_class_code x = raw) conflict_class_values"

definition conflict_class_to_string :: "conflict_class \<Rightarrow> string" where
  "conflict_class_to_string v = (case v of
      CC_SHARED_FAILURE_DOMAIN \<Rightarrow> ''SHARED_FAILURE_DOMAIN''
    | CC_SHARED_RISK_GROUP \<Rightarrow> ''SHARED_RISK_GROUP''
    | CC_SHARED_SITE \<Rightarrow> ''SHARED_SITE''
    | CC_SHARED_POD \<Rightarrow> ''SHARED_POD''
    | CC_SHARED_RACK \<Rightarrow> ''SHARED_RACK''
    | CC_SHARED_POWER_DOMAIN \<Rightarrow> ''SHARED_POWER_DOMAIN''
    | CC_SHARED_CONDUIT \<Rightarrow> ''SHARED_CONDUIT''
    | CC_SHARED_COOLING \<Rightarrow> ''SHARED_COOLING''
    | CC_SHARED_DEVICE \<Rightarrow> ''SHARED_DEVICE''
    | CC_SHARED_TRANSIT_NODE \<Rightarrow> ''SHARED_TRANSIT_NODE''
    | CC_SHARED_LINK \<Rightarrow> ''SHARED_LINK''
    | CC_SHARED_ENDPOINT \<Rightarrow> ''SHARED_ENDPOINT''
    | CC_INCOMPLETE_EVIDENCE \<Rightarrow> ''INCOMPLETE_EVIDENCE''
    | CC_STALE_DEPENDENCY \<Rightarrow> ''STALE_DEPENDENCY'')"

interpretation conflict_class_enum: wire_enum conflict_class_code conflict_class_values is_defined_conflict_class conflict_class_of_code
proof unfold_locales
  show "map conflict_class_code conflict_class_values = map of_nat [1..<Suc (length conflict_class_values)]"
    by (simp add: conflict_class_values_def upt_rec)
  show "x \<in> set conflict_class_values" for x
    by (cases x) (simp_all add: conflict_class_values_def)
  show "length conflict_class_values < 255"
    by (simp add: conflict_class_values_def)
  show "is_defined_conflict_class raw \<longleftrightarrow> 1 \<le> raw \<and> raw \<le> of_nat (length conflict_class_values)" for raw
    by (simp add: is_defined_conflict_class_def conflict_class_values_def)
  show "conflict_class_of_code raw = find (\<lambda>x. conflict_class_code x = raw) conflict_class_values" for raw
    by (simp add: conflict_class_of_code_def)
qed

instantiation conflict_class :: linorder
begin

definition less_eq_conflict_class :: "conflict_class \<Rightarrow> conflict_class \<Rightarrow> bool" where
  "less_eq_conflict_class a b \<longleftrightarrow> conflict_class_code a \<le> conflict_class_code b"

definition less_conflict_class :: "conflict_class \<Rightarrow> conflict_class \<Rightarrow> bool" where
  "less_conflict_class a b \<longleftrightarrow> conflict_class_code a < conflict_class_code b"

instance
  by standard (auto simp: less_eq_conflict_class_def less_conflict_class_def conflict_class_enum.code_inject order_less_le)

end

definition outcome_asserts_independence :: "proof_outcome \<Rightarrow> bool" where
  "outcome_asserts_independence v \<longleftrightarrow> v = PO_PROVEN_DIVERSE"

definition outcome_asserts_conflict :: "proof_outcome \<Rightarrow> bool" where
  "outcome_asserts_conflict v \<longleftrightarrow> v = PO_NOT_DIVERSE"

definition outcome_is_decisive :: "proof_outcome \<Rightarrow> bool" where
  "outcome_is_decisive v \<longleftrightarrow> outcome_asserts_independence v \<or> outcome_asserts_conflict v"

definition conflict_class_for_relation :: "domain_relation \<Rightarrow> conflict_class" where
  "conflict_class_for_relation r = (case r of
      DR_FAILURE_DOMAIN \<Rightarrow> CC_SHARED_FAILURE_DOMAIN
    | DR_RACK \<Rightarrow> CC_SHARED_RACK
    | DR_POD \<Rightarrow> CC_SHARED_POD
    | DR_SITE \<Rightarrow> CC_SHARED_SITE
    | DR_POWER_DOMAIN \<Rightarrow> CC_SHARED_POWER_DOMAIN
    | DR_CONDUIT \<Rightarrow> CC_SHARED_CONDUIT
    | DR_COOLING \<Rightarrow> CC_SHARED_COOLING)"

definition relation_for_conflict_class :: "conflict_class \<Rightarrow> domain_relation option" where
  "relation_for_conflict_class k = (case k of
      CC_SHARED_FAILURE_DOMAIN \<Rightarrow> Some DR_FAILURE_DOMAIN
    | CC_SHARED_RACK \<Rightarrow> Some DR_RACK
    | CC_SHARED_POD \<Rightarrow> Some DR_POD
    | CC_SHARED_SITE \<Rightarrow> Some DR_SITE
    | CC_SHARED_POWER_DOMAIN \<Rightarrow> Some DR_POWER_DOMAIN
    | CC_SHARED_CONDUIT \<Rightarrow> Some DR_CONDUIT
    | CC_SHARED_COOLING \<Rightarrow> Some DR_COOLING
    | _ \<Rightarrow> None)"

lemma relation_for_conflict_class_inverse:
  "relation_for_conflict_class k = Some r \<longleftrightarrow> k = conflict_class_for_relation r"
  by (cases k; cases r) (simp_all add: relation_for_conflict_class_def conflict_class_for_relation_def)

section \<open>Shared resources\<close>

datatype shared_resource =
  SharedResource (sr_kind: conflict_class) (sr_relation: domain_relation) (sr_id: string) (sr_paths: "nat list")

definition sr_precedence :: "shared_resource \<Rightarrow> u8" where
  "sr_precedence r = conflict_class_code (sr_kind r)"

definition sr_render :: "shared_resource \<Rightarrow> string" where
  "sr_render r =
     conflict_class_to_string (sr_kind r) @
     (if relation_for_conflict_class (sr_kind r) \<noteq> None
      then ''('' @ domain_relation_to_string (sr_relation r) @ '')'' else []) @
     '' '' @ sr_id r @ '' shared-by=['' @ join '','' (map decimal (sr_paths r)) @ '']''"

definition put_indices :: "nat list \<Rightarrow> bytes" where
  "put_indices xs = put_varint (of_nat (length xs)) @ concat (map (\<lambda>i. put_varint (of_nat i)) xs)"

definition sr_encode :: "shared_resource \<Rightarrow> bytes" where
  "sr_encode r =
     put_u8 (conflict_class_code (sr_kind r)) @ put_u8 (domain_relation_code (sr_relation r)) @
     put_text (sr_id r) @ put_indices (sr_paths r)"

definition conflict_less :: "shared_resource \<Rightarrow> shared_resource \<Rightarrow> bool" where
  "conflict_less l r =
     (if sr_kind l \<noteq> sr_kind r then conflict_class_code (sr_kind l) < conflict_class_code (sr_kind r)
      else if sr_id l \<noteq> sr_id r then sr_id l < sr_id r
      else if sr_relation l \<noteq> sr_relation r
      then domain_relation_code (sr_relation l) < domain_relation_code (sr_relation r)
      else sr_paths l < sr_paths r)"

instantiation shared_resource :: linorder
begin

definition less_shared_resource :: "shared_resource \<Rightarrow> shared_resource \<Rightarrow> bool" where
  "less_shared_resource a b \<longleftrightarrow> conflict_less a b"

definition less_eq_shared_resource :: "shared_resource \<Rightarrow> shared_resource \<Rightarrow> bool" where
  "less_eq_shared_resource a b \<longleftrightarrow> conflict_less a b \<or> a = b"

instance
proof
  fix x y z :: shared_resource
  note code_neq = conflict_class_enum.code_inject domain_relation_enum.code_inject
  show "(x < y) = (x \<le> y \<and> \<not> y \<le> x)"
    by (auto simp: less_shared_resource_def less_eq_shared_resource_def conflict_less_def split: if_splits)
  show "x \<le> x"
    by (simp add: less_eq_shared_resource_def)
  show "x \<le> y \<Longrightarrow> y \<le> z \<Longrightarrow> x \<le> z"
    by (auto simp: less_eq_shared_resource_def conflict_less_def split: if_splits)
  show "x \<le> y \<Longrightarrow> y \<le> x \<Longrightarrow> x = y"
    by (auto simp: less_eq_shared_resource_def conflict_less_def split: if_splits)
  show "x \<le> y \<or> y \<le> x"
    unfolding less_eq_shared_resource_def conflict_less_def
    by (metis code_neq linorder_neqE shared_resource.expand)
qed

end

definition canonical_conflict_order :: "shared_resource list \<Rightarrow> shared_resource list" where
  "canonical_conflict_order conflicts = sort conflicts"

section \<open>Class results\<close>

record class_result =
  cr_klass :: diversity_class
  cr_outcome :: proof_outcome
  cr_evidence_complete :: bool
  cr_shared :: "shared_resource list"
  cr_shared_total :: u64
  cr_detail :: string

definition default_class_result :: class_result where
  "default_class_result =
     \<lparr>cr_klass = DC_LINK_DISJOINT, cr_outcome = PO_UNKNOWN_INCOMPLETE_EVIDENCE,
      cr_evidence_complete = False, cr_shared = [], cr_shared_total = 0, cr_detail = []\<rparr>"

definition cr_proven :: "class_result \<Rightarrow> bool" where
  "cr_proven r \<longleftrightarrow> cr_outcome r = PO_PROVEN_DIVERSE"

section \<open>Pairwise matrix\<close>

record pairwise_cell =
  cell_left :: nat
  cell_right :: nat
  cell_independent :: bool
  cell_evidence_complete :: bool
  cell_classes :: "class_result list"
  cell_primary_conflict :: "shared_resource option"

record pairwise_matrix =
  pm_order :: "path_id list"
  pm_cells :: "pairwise_cell list"

definition empty_matrix :: pairwise_matrix where
  "empty_matrix = \<lparr>pm_order = [], pm_cells = []\<rparr>"

text \<open>All arithmetic of \<open>cell_index\<close> is unsigned 64-bit.\<close>

definition cell_index :: "nat \<Rightarrow> nat \<Rightarrow> nat \<Rightarrow> nat" where
  "cell_index path_count i j =
     (let (i, j) = (if j < i then (j, i) else (i, j));
          n = (of_nat path_count :: u64);
          low = (of_nat i :: u64);
          offset = (low * (2 * n - low - 1)) div 2
      in unat (offset + (of_nat j - low - 1)))"

definition cell_count :: "nat \<Rightarrow> nat" where
  "cell_count path_count = unat ((of_nat path_count * (of_nat path_count - 1) :: u64) div 2)"

definition matrix_at :: "pairwise_matrix \<Rightarrow> nat \<Rightarrow> nat \<Rightarrow> pairwise_cell option" where
  "matrix_at m i j =
     (if i = j \<or> length (pm_order m) \<le> i \<or> length (pm_order m) \<le> j then None
      else let low = (if i < j then i else j);
               high = (if i < j then j else i);
               index = cell_index (length (pm_order m)) low high
           in if length (pm_cells m) \<le> index then None else Some (pm_cells m ! index))"

section \<open>Witness subset\<close>

record witness_subset =
  ws_present :: bool
  ws_requested_k :: nat
  ws_indices :: "nat list"
  ws_achieved :: nat
  ws_maximum_exact :: bool

definition empty_witness :: witness_subset where
  "empty_witness =
     \<lparr>ws_present = False, ws_requested_k = 0, ws_indices = [], ws_achieved = 0, ws_maximum_exact = False\<rparr>"

definition ws_render :: "witness_subset \<Rightarrow> string" where
  "ws_render w =
     (if \<not> ws_present w then ''witness=none''
      else ''witness k='' @ decimal (ws_requested_k w) @ '' achieved='' @ decimal (ws_achieved w) @
        (if ws_maximum_exact w then '' exact'' else '' inexact'') @
        '' indices=['' @ join '','' (map decimal (ws_indices w)) @ '']'')"

section \<open>The upper-triangle index\<close>

definition row_pairs :: "nat \<Rightarrow> nat \<Rightarrow> (nat \<times> nat) list" where
  "row_pairs n i = map (\<lambda>j. (i, j)) [Suc i..<n]"

definition pairs :: "nat \<Rightarrow> (nat \<times> nat) list" where
  "pairs n = concat (map (row_pairs n) [0..<n])"

lemma set_pairs: "set (pairs n) = {(i, j). i < j \<and> j < n}"
  by (force simp: pairs_def row_pairs_def)

lemma length_row_pairs [simp]: "length (row_pairs n i) = n - Suc i"
  by (simp add: row_pairs_def)

text \<open>How many pairs stand before row \<open>i\<close>.\<close>

lemma length_row_prefix:
  "i \<le> n \<Longrightarrow> 2 * length (concat (map (row_pairs n) [0..<i])) = i * (2 * n - i - 1)"
proof (induction i)
  case (Suc i)
  then have "2 * length (concat (map (row_pairs n) [0..<Suc i])) = i * (2 * n - i - 1) + 2 * (n - Suc i)"
    by simp
  also have "\<dots> = Suc i * (2 * n - Suc i - 1)"
  proof -
    obtain d where "n = Suc i + d" using Suc.prems le_Suc_ex by blast
    then show ?thesis by (simp add: algebra_simps)
  qed
  finally show ?case .
qed simp

lemma length_pairs: "length (pairs n) = n * (n - 1) div 2"
  using length_row_prefix [of n n] by (simp add: pairs_def)

lemma pairs_split:
  assumes "i < n"
  shows "pairs n = concat (map (row_pairs n) [0..<i]) @ row_pairs n i @ concat (map (row_pairs n) [Suc i..<n])"
proof -
  have "[0..<n] = [0..<i] @ i # [Suc i..<n]"
    using assms upt_add_eq_append [of 0 i "n - i"] by (simp add: upt_conv_Cons)
  then show ?thesis by (simp add: pairs_def)
qed

lemma cell_index_nat:
  assumes "i < j" "j < n" "n < 2 ^ 32"
  shows "cell_index n i j = i * (2 * n - i - 1) div 2 + (j - i - 1)"
proof -
  obtain d where d: "n = Suc i + d" using assms by (metis add_Suc less_imp_Suc_add less_trans)
  have "i * (2 * n - i - 1) = i * i + i + 2 * i * d"
    by (simp add: d algebra_simps)
  also have "\<dots> \<le> n * n"
    by (simp add: d algebra_simps)
  also have "\<dots> \<le> (2 ^ 32 - 1) * (2 ^ 32 - 1)"
    using assms(3) by (intro mult_le_mono) simp_all
  finally have b: "i * (2 * n - i - 1) \<le> (2 ^ 32 - 1) * (2 ^ 32 - 1)" .
  then have small: "i * (2 * n - i - 1) < 2 ^ 64" by simp
  have sum: "i * (2 * n - i - 1) div 2 + (j - i - 1) < 2 ^ 64"
    using b assms by simp
  have "2 * (of_nat n :: u64) - of_nat i - 1 = of_nat (2 * n - i - 1)"
    using assms by (simp add: of_nat_diff)
  then have "(of_nat i :: u64) * (2 * of_nat n - of_nat i - 1) = of_nat (i * (2 * n - i - 1))"
    by simp
  then have "unat (((of_nat i :: u64) * (2 * of_nat n - of_nat i - 1)) div 2) = i * (2 * n - i - 1) div 2"
    using small by (simp only: unat_div) (simp add: unat_of_nat del: of_nat_mult)
  moreover have "(of_nat j - of_nat i - 1 :: u64) = of_nat (j - i - 1)"
    using assms by (simp add: of_nat_diff)
  then have "unat (of_nat j - of_nat i - 1 :: u64) = j - i - 1"
    using assms by (simp add: unat_of_nat del: of_nat_diff)
  ultimately have "unat ((((of_nat i :: u64) * (2 * of_nat n - of_nat i - 1)) div 2)
      + (of_nat j - of_nat i - 1)) = i * (2 * n - i - 1) div 2 + (j - i - 1)"
    using sum by (simp add: unat_word_ariths(1))
  then show ?thesis using assms(1) by (simp add: cell_index_def Let_def)
qed

lemma cell_count_nat: "n < 2 ^ 32 \<Longrightarrow> cell_count n = n * (n - 1) div 2"
  by (simp only: cell_count_def pair_count_u64)

lemma cell_index_sym: "cell_index n i j = cell_index n j i"
  by (cases i j rule: linorder_cases) (simp_all add: cell_index_def Let_def)

text \<open>The cell of a pair is the position of the pair in the row-major list of all pairs.\<close>

lemma cell_index_pairs:
  assumes "i < j" "j < n" "n < 2 ^ 32"
  shows "cell_index n i j < cell_count n \<and> pairs n ! cell_index n i j = (i, j) \<and>
         cell_index n j i = cell_index n i j"
proof -
  define before where "before = concat (map (row_pairs n) [0..<i])"
  have len: "length before = i * (2 * n - i - 1) div 2"
    using length_row_prefix [of i n] assms by (simp add: before_def)
  have idx: "cell_index n i j = length before + (j - i - 1)"
    by (simp only: cell_index_nat [OF assms] len)
  have split: "pairs n = before @ row_pairs n i @ concat (map (row_pairs n) [Suc i..<n])"
    unfolding before_def by (rule pairs_split) (use assms in simp)
  have row: "j - i - 1 < length (row_pairs n i)"
    using assms by simp
  have "pairs n ! cell_index n i j = row_pairs n i ! (j - i - 1)"
    using row by (simp only: split idx nth_append_length_plus nth_append) simp
  also have "\<dots> = (i, j)"
    using assms by (simp add: row_pairs_def)
  finally have nth: "pairs n ! cell_index n i j = (i, j)" .
  have "cell_index n i j < length (pairs n)"
    using row by (simp only: split idx) simp
  then have "cell_index n i j < cell_count n"
    by (simp only: length_pairs cell_count_nat [OF assms(3)])
  with nth show ?thesis by (simp add: cell_index_sym)
qed

text \<open>The matrix index is the row-major enumeration of the pairs: the cell of the pair \<open>(i, j)\<close>
  is the position of that pair in the list of all pairs, whatever order the two indices are given in,
  and it lies inside the matrix. No 64-bit intermediate wraps for any path count below 2 ^ 32.\<close>

theorem cell_index_enumerates:
  assumes "i < j" "j < n" "n < 2 ^ 32"
  shows "cell_index n i j < cell_count n \<and> pairs n ! cell_index n i j = (i, j) \<and>
         cell_index n j i = cell_index n i j"
  using assms by (rule cell_index_pairs)

lemma cell_index_enumerates_witness:
  "cell_index 4 1 3 < cell_count 4 \<and> pairs 4 ! cell_index 4 1 3 = (1, 3) \<and> cell_index 4 3 1 = cell_index 4 1 3"
  by (rule cell_index_enumerates) simp_all

lemma matrix_at_sym: "matrix_at m i j = matrix_at m j i"
  by (cases i j rule: linorder_cases) (auto simp: matrix_at_def Let_def)

text \<open>The conflict order is total, so the canonical conflict list and its first element, the primary
  reason, do not depend on the order in which conflicts were observed.\<close>

theorem conflict_order_arrival_independent:
  assumes "mset xs = mset ys"
  shows "canonical_conflict_order xs = canonical_conflict_order ys \<and>
         sorted_wrt (\<lambda>a b. \<not> conflict_less b a) (canonical_conflict_order xs)"
proof -
  have "sorted_wrt (\<lambda>a b. \<not> b < a) (sort xs)"
    by (rule sorted_wrt_mono_rel [of _ "(\<le>)"]) auto
  then show ?thesis
    using sort_eq_of_mset [OF assms] by (simp add: canonical_conflict_order_def less_shared_resource_def)
qed

lemma conflict_order_arrival_independent_witness:
  "canonical_conflict_order
      [SharedResource CC_SHARED_LINK DR_RACK ''l'' [0, 1], SharedResource CC_SHARED_SITE DR_SITE ''s'' [0, 1]] =
   canonical_conflict_order
      [SharedResource CC_SHARED_SITE DR_SITE ''s'' [0, 1], SharedResource CC_SHARED_LINK DR_RACK ''l'' [0, 1]]"
  using conflict_order_arrival_independent
    [of "[SharedResource CC_SHARED_LINK DR_RACK ''l'' [0, 1], SharedResource CC_SHARED_SITE DR_SITE ''s'' [0, 1]]"
        "[SharedResource CC_SHARED_SITE DR_SITE ''s'' [0, 1], SharedResource CC_SHARED_LINK DR_RACK ''l'' [0, 1]]"]
  by simp

end
