(* ===== verification/Lifecycle.thy ===== *)
theory Lifecycle
  imports Outcome
begin

text \<open>
  The two axes of a proof, what the operator did to it and whether it still describes the world
  (\<open>include/path_diversity/lifecycle.hpp\<close>, \<open>src/lifecycle.cpp\<close>). The transition table is a step
  relation; its reachable states are characterised by rule induction.
\<close>

section \<open>States\<close>

datatype lifecycle_state =
    LS_DECLARED
  | LS_CURRENT
  | LS_REVALIDATION_REQUIRED
  | LS_SUPERSEDED
  | LS_REVOKED
  | LS_RETIRED
  | LS_HISTORICAL

definition lifecycle_state_values :: "lifecycle_state list" where
  "lifecycle_state_values =
     [LS_DECLARED,
      LS_CURRENT,
      LS_REVALIDATION_REQUIRED,
      LS_SUPERSEDED,
      LS_REVOKED,
      LS_RETIRED,
      LS_HISTORICAL]"

primrec lifecycle_state_code :: "lifecycle_state \<Rightarrow> u8" where
  "lifecycle_state_code LS_DECLARED = 1"
| "lifecycle_state_code LS_CURRENT = 2"
| "lifecycle_state_code LS_REVALIDATION_REQUIRED = 3"
| "lifecycle_state_code LS_SUPERSEDED = 4"
| "lifecycle_state_code LS_REVOKED = 5"
| "lifecycle_state_code LS_RETIRED = 6"
| "lifecycle_state_code LS_HISTORICAL = 7"

definition is_defined_lifecycle_state :: "u8 \<Rightarrow> bool" where
  "is_defined_lifecycle_state raw \<longleftrightarrow> lifecycle_state_code LS_DECLARED \<le> raw \<and> raw \<le> lifecycle_state_code LS_HISTORICAL"

definition lifecycle_state_of_code :: "u8 \<Rightarrow> lifecycle_state option" where
  "lifecycle_state_of_code raw = find (\<lambda>x. lifecycle_state_code x = raw) lifecycle_state_values"

definition lifecycle_state_to_string :: "lifecycle_state \<Rightarrow> string" where
  "lifecycle_state_to_string v = (case v of
      LS_DECLARED \<Rightarrow> ''DECLARED''
    | LS_CURRENT \<Rightarrow> ''CURRENT''
    | LS_REVALIDATION_REQUIRED \<Rightarrow> ''REVALIDATION_REQUIRED''
    | LS_SUPERSEDED \<Rightarrow> ''SUPERSEDED''
    | LS_REVOKED \<Rightarrow> ''REVOKED''
    | LS_RETIRED \<Rightarrow> ''RETIRED''
    | LS_HISTORICAL \<Rightarrow> ''HISTORICAL'')"

interpretation lifecycle_state_enum: wire_enum lifecycle_state_code lifecycle_state_values is_defined_lifecycle_state lifecycle_state_of_code
proof unfold_locales
  show "map lifecycle_state_code lifecycle_state_values = map of_nat [1..<Suc (length lifecycle_state_values)]"
    by (simp add: lifecycle_state_values_def upt_rec)
  show "x \<in> set lifecycle_state_values" for x
    by (cases x) (simp_all add: lifecycle_state_values_def)
  show "length lifecycle_state_values < 255"
    by (simp add: lifecycle_state_values_def)
  show "is_defined_lifecycle_state raw \<longleftrightarrow> 1 \<le> raw \<and> raw \<le> of_nat (length lifecycle_state_values)" for raw
    by (simp add: is_defined_lifecycle_state_def lifecycle_state_values_def)
  show "lifecycle_state_of_code raw = find (\<lambda>x. lifecycle_state_code x = raw) lifecycle_state_values" for raw
    by (simp add: lifecycle_state_of_code_def)
qed

datatype currentness =
    CN_CURRENT
  | CN_STALE_PATH_AUTHORITY
  | CN_STALE_TOPOLOGY
  | CN_STALE_FAILURE_DOMAIN
  | CN_STALE_POLICY
  | CN_STALE_EPOCH
  | CN_FENCED_PUBLISHER
  | CN_INCOMPLETE_EVIDENCE
  | CN_REVALIDATION_REQUIRED

definition currentness_values :: "currentness list" where
  "currentness_values =
     [CN_CURRENT,
      CN_STALE_PATH_AUTHORITY,
      CN_STALE_TOPOLOGY,
      CN_STALE_FAILURE_DOMAIN,
      CN_STALE_POLICY,
      CN_STALE_EPOCH,
      CN_FENCED_PUBLISHER,
      CN_INCOMPLETE_EVIDENCE,
      CN_REVALIDATION_REQUIRED]"

primrec currentness_code :: "currentness \<Rightarrow> u8" where
  "currentness_code CN_CURRENT = 1"
| "currentness_code CN_STALE_PATH_AUTHORITY = 2"
| "currentness_code CN_STALE_TOPOLOGY = 3"
| "currentness_code CN_STALE_FAILURE_DOMAIN = 4"
| "currentness_code CN_STALE_POLICY = 5"
| "currentness_code CN_STALE_EPOCH = 6"
| "currentness_code CN_FENCED_PUBLISHER = 7"
| "currentness_code CN_INCOMPLETE_EVIDENCE = 8"
| "currentness_code CN_REVALIDATION_REQUIRED = 9"

definition is_defined_currentness :: "u8 \<Rightarrow> bool" where
  "is_defined_currentness raw \<longleftrightarrow> currentness_code CN_CURRENT \<le> raw \<and> raw \<le> currentness_code CN_REVALIDATION_REQUIRED"

definition currentness_of_code :: "u8 \<Rightarrow> currentness option" where
  "currentness_of_code raw = find (\<lambda>x. currentness_code x = raw) currentness_values"

definition currentness_to_string :: "currentness \<Rightarrow> string" where
  "currentness_to_string v = (case v of
      CN_CURRENT \<Rightarrow> ''CURRENT''
    | CN_STALE_PATH_AUTHORITY \<Rightarrow> ''STALE_PATH_AUTHORITY''
    | CN_STALE_TOPOLOGY \<Rightarrow> ''STALE_TOPOLOGY''
    | CN_STALE_FAILURE_DOMAIN \<Rightarrow> ''STALE_FAILURE_DOMAIN''
    | CN_STALE_POLICY \<Rightarrow> ''STALE_POLICY''
    | CN_STALE_EPOCH \<Rightarrow> ''STALE_EPOCH''
    | CN_FENCED_PUBLISHER \<Rightarrow> ''FENCED_PUBLISHER''
    | CN_INCOMPLETE_EVIDENCE \<Rightarrow> ''INCOMPLETE_EVIDENCE''
    | CN_REVALIDATION_REQUIRED \<Rightarrow> ''REVALIDATION_REQUIRED'')"

interpretation currentness_enum: wire_enum currentness_code currentness_values is_defined_currentness currentness_of_code
proof unfold_locales
  show "map currentness_code currentness_values = map of_nat [1..<Suc (length currentness_values)]"
    by (simp add: currentness_values_def upt_rec)
  show "x \<in> set currentness_values" for x
    by (cases x) (simp_all add: currentness_values_def)
  show "length currentness_values < 255"
    by (simp add: currentness_values_def)
  show "is_defined_currentness raw \<longleftrightarrow> 1 \<le> raw \<and> raw \<le> of_nat (length currentness_values)" for raw
    by (simp add: is_defined_currentness_def currentness_values_def)
  show "currentness_of_code raw = find (\<lambda>x. currentness_code x = raw) currentness_values" for raw
    by (simp add: currentness_of_code_def)
qed

section \<open>Transitions\<close>

definition lifecycle_transition_allowed :: "lifecycle_state \<Rightarrow> lifecycle_state \<Rightarrow> bool" where
  "lifecycle_transition_allowed src dst =
     (if src = dst then True
      else case src of
        LS_DECLARED \<Rightarrow> dst = LS_CURRENT \<or> dst = LS_REVALIDATION_REQUIRED \<or> dst = LS_REVOKED \<or>
                       dst = LS_RETIRED \<or> dst = LS_SUPERSEDED
      | LS_CURRENT \<Rightarrow> dst = LS_REVALIDATION_REQUIRED \<or> dst = LS_SUPERSEDED \<or> dst = LS_REVOKED \<or>
                      dst = LS_RETIRED \<or> dst = LS_HISTORICAL
      | LS_REVALIDATION_REQUIRED \<Rightarrow> dst = LS_CURRENT \<or> dst = LS_SUPERSEDED \<or> dst = LS_REVOKED \<or>
                                    dst = LS_RETIRED \<or> dst = LS_HISTORICAL
      | LS_SUPERSEDED \<Rightarrow> dst = LS_CURRENT \<or> dst = LS_REVOKED \<or> dst = LS_RETIRED \<or> dst = LS_HISTORICAL
      | LS_HISTORICAL \<Rightarrow> dst = LS_CURRENT \<or> dst = LS_SUPERSEDED \<or> dst = LS_REVOKED \<or> dst = LS_RETIRED
      | LS_REVOKED \<Rightarrow> False
      | LS_RETIRED \<Rightarrow> False)"

definition lifecycle_is_terminal :: "lifecycle_state \<Rightarrow> bool" where
  "lifecycle_is_terminal v \<longleftrightarrow> v = LS_REVOKED \<or> v = LS_RETIRED"

definition lifecycle_is_publishable :: "lifecycle_state \<Rightarrow> bool" where
  "lifecycle_is_publishable v \<longleftrightarrow> v = LS_CURRENT"

definition currentness_is_current :: "currentness \<Rightarrow> bool" where
  "currentness_is_current v \<longleftrightarrow> v = CN_CURRENT"

definition currentness_for_outcome :: "proof_outcome \<Rightarrow> currentness" where
  "currentness_for_outcome outcome = (case outcome of
      PO_PROVEN_DIVERSE \<Rightarrow> CN_CURRENT
    | PO_NOT_DIVERSE \<Rightarrow> CN_CURRENT
    | PO_STALE_PATH_AUTHORITY \<Rightarrow> CN_STALE_PATH_AUTHORITY
    | PO_STALE_TOPOLOGY \<Rightarrow> CN_STALE_TOPOLOGY
    | PO_STALE_FAILURE_DOMAIN \<Rightarrow> CN_STALE_FAILURE_DOMAIN
    | PO_STALE_POLICY \<Rightarrow> CN_STALE_POLICY
    | PO_UNKNOWN_INCOMPLETE_EVIDENCE \<Rightarrow> CN_INCOMPLETE_EVIDENCE
    | PO_REVALIDATION_REQUIRED \<Rightarrow> CN_REVALIDATION_REQUIRED
    | PO_UNAUTHORIZED \<Rightarrow> CN_STALE_PATH_AUTHORITY
    | PO_RESOURCE_LIMIT \<Rightarrow> CN_REVALIDATION_REQUIRED
    | PO_MALFORMED \<Rightarrow> CN_REVALIDATION_REQUIRED)"

definition currentness_for_stale_generation :: currentness where
  "currentness_for_stale_generation = CN_REVALIDATION_REQUIRED"

inductive lifecycle_step :: "lifecycle_state \<Rightarrow> lifecycle_state \<Rightarrow> bool" where
  allowed: "lifecycle_transition_allowed src dst \<Longrightarrow> lifecycle_step src dst"

inductive_cases lifecycle_stepE: "lifecycle_step src dst"

text \<open>Every state but a terminal one still has a way out, and DECLARED is never re-entered.\<close>

lemma terminal_steps: "lifecycle_is_terminal s \<Longrightarrow> lifecycle_step s t \<Longrightarrow> t = s"
  by (erule lifecycle_stepE)
     (cases s; auto simp: lifecycle_is_terminal_def lifecycle_transition_allowed_def split: if_splits)

lemma declared_not_entered: "lifecycle_step s LS_DECLARED \<Longrightarrow> s = LS_DECLARED"
  by (erule lifecycle_stepE)
     (cases s; auto simp: lifecycle_transition_allowed_def split: if_splits)

lemma live_reaches_current:
  "\<not> lifecycle_is_terminal s \<Longrightarrow> lifecycle_step s LS_CURRENT"
  by (rule lifecycle_step.allowed)
     (cases s; simp add: lifecycle_is_terminal_def lifecycle_transition_allowed_def)

text \<open>A proof that was revoked or retired stays in that state under any sequence of allowed
  lifecycle transitions; from every other state each of CURRENT, REVOKED and RETIRED is one step away.\<close>

theorem lifecycle_terminal_iff:
  "(lifecycle_is_terminal s \<longleftrightarrow> (\<forall>t. lifecycle_step\<^sup>*\<^sup>* s t = (t = s))) \<and>
   (\<not> lifecycle_is_terminal s) = (lifecycle_step s LS_CURRENT \<and> lifecycle_step s LS_REVOKED \<and> lifecycle_step s LS_RETIRED)"
proof (rule conjI)
  have stays: "lifecycle_step\<^sup>*\<^sup>* s t \<Longrightarrow> t = s" if "lifecycle_is_terminal s" for t
    by (induction rule: rtranclp_induct) (use that terminal_steps in blast)+
  have leaves: "lifecycle_step s LS_REVOKED \<and> lifecycle_step s LS_RETIRED" if "\<not> lifecycle_is_terminal s"
    using that by (cases s) (simp_all add: lifecycle_step.simps lifecycle_is_terminal_def lifecycle_transition_allowed_def)
  show "(\<not> lifecycle_is_terminal s) = (lifecycle_step s LS_CURRENT \<and> lifecycle_step s LS_REVOKED \<and> lifecycle_step s LS_RETIRED)"
    using leaves live_reaches_current terminal_steps [of s LS_CURRENT]
    by (auto simp: lifecycle_is_terminal_def)
  show "lifecycle_is_terminal s \<longleftrightarrow> (\<forall>t. lifecycle_step\<^sup>*\<^sup>* s t = (t = s))"
  proof
    assume "lifecycle_is_terminal s"
    then show "\<forall>t. lifecycle_step\<^sup>*\<^sup>* s t = (t = s)" using stays by auto
  next
    assume all: "\<forall>t. lifecycle_step\<^sup>*\<^sup>* s t = (t = s)"
    show "lifecycle_is_terminal s"
    proof (rule ccontr)
      assume "\<not> lifecycle_is_terminal s"
      then have "lifecycle_step\<^sup>*\<^sup>* s LS_REVOKED" "lifecycle_step\<^sup>*\<^sup>* s LS_RETIRED" using leaves by auto
      with all have "LS_REVOKED = s" "LS_RETIRED = s" by blast+
      then show False by simp
    qed
  qed
qed

text \<open>An evaluation outcome makes a proof current exactly when it is decisive.\<close>

lemma currentness_for_outcome_current:
  "currentness_is_current (currentness_for_outcome v) \<longleftrightarrow> outcome_is_decisive v"
  by (cases v) (simp_all add: currentness_is_current_def currentness_for_outcome_def
      outcome_is_decisive_def outcome_asserts_independence_def outcome_asserts_conflict_def)

end
