(* ===== verification/PathSet.thy ===== *)
theory PathSet
  imports Lifecycle
begin

text \<open>
  Path references, proof requests and the immutable content of a proof
  (\<open>include/path_diversity/path.hpp\<close>, \<open>proof.hpp\<close>, \<open>src/pathset.cpp\<close>). The evidence views of
  \<open>path.hpp\<close> are records of functions: what a view answers is not code of this library. The lemmas
  show that a canonical request, its identity and its digest do not depend on arrival order, and
  that the semantic digest reads no lifecycle, currentness, provenance or free text.
\<close>

section \<open>Path references\<close>

datatype path_ref = PathRef (pr_path: path_id) (pr_generation: path_authority_generation)

definition path_ref_less :: "path_ref \<Rightarrow> path_ref \<Rightarrow> bool" where
  "path_ref_less l r =
     (if pr_path l \<noteq> pr_path r then pr_path l < pr_path r
      else if pr_generation l \<noteq> pr_generation r then pr_generation l < pr_generation r
      else False)"

instantiation path_ref :: linorder
begin

definition less_path_ref :: "path_ref \<Rightarrow> path_ref \<Rightarrow> bool" where
  "less_path_ref a b \<longleftrightarrow> path_ref_less a b"

definition less_eq_path_ref :: "path_ref \<Rightarrow> path_ref \<Rightarrow> bool" where
  "less_eq_path_ref a b \<longleftrightarrow> path_ref_less a b \<or> a = b"

instance
proof
  fix x y z :: path_ref
  show "(x < y) = (x \<le> y \<and> \<not> y \<le> x)"
    by (auto simp: less_path_ref_def less_eq_path_ref_def path_ref_less_def split: if_splits)
  show "x \<le> x"
    by (simp add: less_eq_path_ref_def)
  show "x \<le> y \<Longrightarrow> y \<le> z \<Longrightarrow> x \<le> z"
    by (auto simp: less_eq_path_ref_def path_ref_less_def split: if_splits)
  show "x \<le> y \<Longrightarrow> y \<le> x \<Longrightarrow> x = y"
    by (auto simp: less_eq_path_ref_def path_ref_less_def split: if_splits)
  show "x \<le> y \<or> y \<le> x"
    unfolding less_eq_path_ref_def path_ref_less_def
    by (metis linorder_neqE path_ref.expand)
qed

end

definition path_ref_render :: "path_ref \<Rightarrow> string" where
  "path_ref_render r = id_view (pr_path r) @ ''@pa'' @ gen_text (pr_generation r)"

section \<open>Evidence views\<close>

record path_authority_view =
  av_current_generation :: "path_id \<Rightarrow> path_authority_generation option"
  av_is_authorized :: "path_id \<Rightarrow> path_authority_generation \<Rightarrow> bool"

record path_structure_view =
  sv_topology_generation :: topology_generation
  sv_composition :: "path_id \<Rightarrow> path_composition option"

record failure_domain_view =
  fv_generation :: failure_domain_generation
  fv_domain_membership :: "entity_ref \<Rightarrow> domain_relation \<Rightarrow> domain_evidence"
  fv_srlg_membership :: "entity_ref \<Rightarrow> srlg_evidence"

section \<open>Path sets\<close>

definition canonical_path_order :: "path_ref list \<Rightarrow> path_ref list" where
  "canonical_path_order paths = sort paths"

definition has_duplicate_paths :: "path_ref list \<Rightarrow> bool" where
  "has_duplicate_paths paths = has_duplicates (map pr_path paths)"

definition put_path_refs :: "path_ref list \<Rightarrow> bytes" where
  "put_path_refs paths =
     concat (map (\<lambda>r. put_text (id_view (pr_path r)) @ put_u64 (gen_value (pr_generation r))) paths)"

definition path_set_digest :: "path_ref list \<Rightarrow> digest" where
  "path_set_digest paths = digest_of
     (put_u32 (of_nat kDiversityRuleSetVersion) @ put_u32 (of_nat kCanonicalEncodingVersion) @
      put_varint (of_nat (length paths)) @ put_path_refs paths)"

definition path_set_id :: "path_ref list \<Rightarrow> path_set_id" where
  "path_set_id paths = derived_path_set_id (path_set_digest paths)"

section \<open>Proof requests\<close>

record proof_request =
  rq_policy :: diversity_policy_id
  rq_policy_generation :: diversity_policy_generation
  rq_paths :: "path_ref list"

definition rq_canonicalize :: "proof_request \<Rightarrow> bool \<times> proof_request" where
  "rq_canonicalize rq =
     (let rq = rq\<lparr>rq_paths := canonical_path_order (rq_paths rq)\<rparr>
      in (\<not> has_duplicate_paths (rq_paths rq), rq))"

definition rq_digest :: "proof_request \<Rightarrow> digest" where
  "rq_digest rq = digest_of
     (put_u32 (of_nat kDiversityRuleSetVersion) @ put_u32 (of_nat kCanonicalEncodingVersion) @
      put_text (id_view (rq_policy rq)) @ put_u64 (gen_value (rq_policy_generation rq)) @
      put_u64 (of_nat (length (rq_paths rq))) @ put_path_refs (rq_paths rq))"

definition rq_path_set :: "proof_request \<Rightarrow> path_set_id" where
  "rq_path_set rq = path_set_id (rq_paths rq)"

definition proof_identity :: "proof_request \<Rightarrow> diversity_proof_id" where
  "proof_identity rq = derived_proof_id (rq_digest rq)"

section \<open>Proofs\<close>

record path_authority_binding =
  pb_path :: path_id
  pb_generation :: path_authority_generation

record dependency_binding =
  db_policy_generation :: diversity_policy_generation
  db_topology_generation :: topology_generation
  db_failure_domain_generation :: failure_domain_generation
  db_epoch :: coordinator_epoch
  db_paths :: "path_authority_binding list"
  db_topology_entities :: "entity_ref list"
  db_endpoint_exemption :: endpoint_exemption

definition default_dependencies :: dependency_binding where
  "default_dependencies =
     \<lparr>db_policy_generation = gen_unset, db_topology_generation = gen_unset,
      db_failure_domain_generation = gen_unset, db_epoch = gen_unset, db_paths = [],
      db_topology_entities = [], db_endpoint_exemption = EE_SHARED_SOURCE_AND_DESTINATION\<rparr>"

record provenance =
  pn_epoch :: coordinator_epoch
  pn_publisher :: publisher_id
  pn_boot :: worker_boot_id
  pn_attempt :: mutation_attempt_id

definition default_provenance :: provenance where
  "default_provenance =
     \<lparr>pn_epoch = gen_unset, pn_publisher = unset_id, pn_boot = unset_id, pn_attempt = unset_id\<rparr>"

record diversity_proof =
  dpf_id :: diversity_proof_id
  dpf_generation :: diversity_proof_generation
  dpf_request :: proof_request
  dpf_request_digest :: digest
  dpf_semantic_digest :: digest
  dpf_outcome :: proof_outcome
  dpf_detail :: string
  dpf_limit :: "resource_limit_notice option"
  dpf_classes :: "class_result list"
  dpf_advisories :: "class_result list"
  dpf_conflicts :: "shared_resource list"
  dpf_conflicts_total :: u64
  dpf_matrix :: pairwise_matrix
  dpf_witness :: witness_subset
  dpf_dependencies :: dependency_binding
  dpf_provenance :: provenance
  dpf_lifecycle :: lifecycle_state
  dpf_currentness :: currentness

definition empty_request :: proof_request where
  "empty_request = \<lparr>rq_policy = unset_id, rq_policy_generation = gen_unset, rq_paths = []\<rparr>"

definition default_proof :: diversity_proof where
  "default_proof =
     \<lparr>dpf_id = unset_id, dpf_generation = gen_unset, dpf_request = empty_request,
      dpf_request_digest = zero_digest, dpf_semantic_digest = zero_digest,
      dpf_outcome = PO_MALFORMED, dpf_detail = [], dpf_limit = None, dpf_classes = [],
      dpf_advisories = [], dpf_conflicts = [], dpf_conflicts_total = 0, dpf_matrix = empty_matrix,
      dpf_witness = empty_witness, dpf_dependencies = default_dependencies,
      dpf_provenance = default_provenance, dpf_lifecycle = LS_DECLARED,
      dpf_currentness = CN_REVALIDATION_REQUIRED\<rparr>"

definition dpf_current :: "diversity_proof \<Rightarrow> bool" where
  "dpf_current p \<longleftrightarrow> dpf_lifecycle p = LS_CURRENT \<and> currentness_is_current (dpf_currentness p)"

section \<open>The semantic digest\<close>

text \<open>Each function is one statement of the code: it updates the digest it is given.\<close>

definition digest_flag :: "bool \<Rightarrow> digest \<Rightarrow> digest" where
  "digest_flag b = digest_update_u8 (if b then 1 else 0)"

definition digest_count :: "nat \<Rightarrow> digest \<Rightarrow> digest" where
  "digest_count n = digest_update_varint (of_nat n)"

definition digest_conflict :: "shared_resource \<Rightarrow> digest \<Rightarrow> digest" where
  "digest_conflict c d =
     (let d = digest_update_u8 (conflict_class_code (sr_kind c)) d;
          d = digest_update_u8 (domain_relation_code (sr_relation c)) d;
          d = digest_update_text (sr_id c) d;
          d = digest_count (length (sr_paths c)) d
      in fold digest_count (sr_paths c) d)"

definition digest_class_result :: "class_result \<Rightarrow> digest \<Rightarrow> digest" where
  "digest_class_result r d =
     (let d = digest_update_u8 (diversity_class_code (cr_klass r)) d;
          d = digest_update_u8 (proof_outcome_code (cr_outcome r)) d;
          d = digest_flag (cr_evidence_complete r) d;
          d = digest_count (length (cr_shared r)) d
      in fold digest_conflict (cr_shared r) d)"

definition digest_path_ref :: "path_ref \<Rightarrow> digest \<Rightarrow> digest" where
  "digest_path_ref r d =
     digest_update_u64 (gen_value (pr_generation r)) (digest_update_text (id_view (pr_path r)) d)"

definition digest_cell :: "pairwise_cell \<Rightarrow> digest \<Rightarrow> digest" where
  "digest_cell c d =
     (let d = digest_flag (cell_independent c) d;
          d = digest_flag (cell_evidence_complete c) d;
          d = digest_count (length (cell_classes c)) d
      in fold digest_class_result (cell_classes c) d)"

definition digest_binding :: "path_authority_binding \<Rightarrow> digest \<Rightarrow> digest" where
  "digest_binding b d =
     digest_update_u64 (gen_value (pb_generation b)) (digest_update_text (id_view (pb_path b)) d)"

definition digest_entity :: "entity_ref \<Rightarrow> digest \<Rightarrow> digest" where
  "digest_entity e d =
     digest_update_text (er_id e) (digest_update_u8 (entity_kind_code (er_kind e)) d)"

definition digest_request_part :: "diversity_proof \<Rightarrow> digest \<Rightarrow> digest" where
  "digest_request_part p d =
     (let d = digest_update_u32 (of_nat kDiversityRuleSetVersion) d;
          d = digest_update_u32 (of_nat kCanonicalEncodingVersion) d;
          d = digest_update_u32 (of_nat kDigestSchemeVersion) d;
          d = digest_update_text (id_view (rq_policy (dpf_request p))) d;
          d = digest_update_u64 (gen_value (rq_policy_generation (dpf_request p))) d;
          d = digest_update_u64 (of_nat (length (rq_paths (dpf_request p)))) d
      in fold digest_path_ref (rq_paths (dpf_request p)) d)"

definition digest_result_part :: "diversity_proof \<Rightarrow> digest \<Rightarrow> digest" where
  "digest_result_part p d =
     (let d = digest_update_u8 (proof_outcome_code (dpf_outcome p)) d;
          d = (case dpf_limit p of
                 Some n \<Rightarrow> digest_update_u64 (rn_allowed n) (digest_update_u64 (rn_observed n)
                   (digest_update_u8 (resource_bound_code (rn_bound n)) (digest_update_u8 1 d)))
               | None \<Rightarrow> digest_update_u8 0 d);
          d = digest_count (length (dpf_classes p)) d;
          d = fold digest_class_result (dpf_classes p) d;
          d = digest_count (length (dpf_advisories p)) d;
          d = fold digest_class_result (dpf_advisories p) d;
          d = digest_count (length (dpf_conflicts p)) d
      in fold digest_conflict (dpf_conflicts p) d)"

definition digest_matrix_part :: "diversity_proof \<Rightarrow> digest \<Rightarrow> digest" where
  "digest_matrix_part p d =
     (let w = dpf_witness p;
          d = digest_flag (ws_present w) d;
          d = digest_update_u64 (of_nat (ws_requested_k w)) d;
          d = digest_update_u64 (of_nat (ws_achieved w)) d;
          d = digest_flag (ws_maximum_exact w) d;
          d = digest_count (length (ws_indices w)) d;
          d = fold digest_count (ws_indices w) d;
          d = digest_count (length (pm_cells (dpf_matrix p))) d
      in fold digest_cell (pm_cells (dpf_matrix p)) d)"

definition digest_dependency_part :: "diversity_proof \<Rightarrow> digest \<Rightarrow> digest" where
  "digest_dependency_part p d =
     (let b = dpf_dependencies p;
          d = digest_update_u64 (gen_value (db_policy_generation b)) d;
          d = digest_update_u64 (gen_value (db_topology_generation b)) d;
          d = digest_update_u64 (gen_value (db_failure_domain_generation b)) d;
          d = digest_update_u64 (gen_value (db_epoch b)) d;
          d = digest_update_u8 (endpoint_exemption_code (db_endpoint_exemption b)) d;
          d = digest_count (length (db_paths b)) d;
          d = fold digest_binding (db_paths b) d;
          d = digest_count (length (db_topology_entities b)) d
      in fold digest_entity (db_topology_entities b) d)"

definition proof_semantic_digest :: "diversity_proof \<Rightarrow> digest" where
  "proof_semantic_digest p =
     digest_dependency_part p (digest_matrix_part p (digest_result_part p (digest_request_part p zero_digest)))"

section \<open>Canonical requests\<close>

lemma rq_canonicalize_snd [simp]:
  "snd (rq_canonicalize rq) = rq\<lparr>rq_paths := sort (rq_paths rq)\<rparr>"
  by (simp add: rq_canonicalize_def canonical_path_order_def)

lemma rq_canonicalize_fst [simp]: "fst (rq_canonicalize rq) \<longleftrightarrow> distinct (map pr_path (rq_paths rq))"
proof -
  have "distinct (map pr_path (sort (rq_paths rq))) \<longleftrightarrow> distinct (map pr_path (rq_paths rq))"
    by (metis mset_map mset_sort mset_eq_imp_distinct_iff)
  then show ?thesis
    by (simp add: rq_canonicalize_def canonical_path_order_def has_duplicate_paths_def)
qed

lemma rq_canonicalize_idem [simp]:
  "snd (rq_canonicalize (snd (rq_canonicalize rq))) = snd (rq_canonicalize rq)"
  by simp

lemma digest_wf_semantic: "digest_wf (proof_semantic_digest p)"
proof -
  have keeps: "digest_wf (fold f xs d)" if "\<And>x d. digest_wf (f x d)" "digest_wf d" for f :: "'x \<Rightarrow> digest \<Rightarrow> digest" and xs d
    using that(2) by (induction xs arbitrary: d) (simp_all add: that(1))
  show ?thesis
    unfolding proof_semantic_digest_def digest_dependency_part_def digest_count_def Let_def
    by (rule keeps) (simp_all add: digest_entity_def digest_update_text_def digest_update_bytes_def Let_def digest_update_varint_def)
qed

lemma digest_wf_rq [simp]: "digest_wf (rq_digest rq)"
  by (simp add: rq_digest_def)

lemma proof_identity_valid [simp]: "id_valid (proof_identity rq)"
  by (simp add: proof_identity_def)

text \<open>A proof request in canonical form depends only on which path references it holds: every
  permutation of the paths canonicalizes to the same request, is accepted or rejected alike, and gets the
  same proof identity and path set identity.\<close>

theorem request_arrival_independent:
  assumes "mset paths = mset (rq_paths rq)"
  shows "rq_canonicalize (rq\<lparr>rq_paths := paths\<rparr>) = rq_canonicalize rq \<and>
         proof_identity (snd (rq_canonicalize (rq\<lparr>rq_paths := paths\<rparr>))) =
           proof_identity (snd (rq_canonicalize rq)) \<and>
         rq_path_set (snd (rq_canonicalize (rq\<lparr>rq_paths := paths\<rparr>))) =
           rq_path_set (snd (rq_canonicalize rq))"
proof -
  have "sort paths = sort (rq_paths rq)" using assms by (rule sort_eq_of_mset)
  then have "rq_canonicalize (rq\<lparr>rq_paths := paths\<rparr>) = rq_canonicalize rq"
    by (simp add: rq_canonicalize_def canonical_path_order_def)
  then show ?thesis by simp
qed

lemma request_arrival_independent_witness:
  "rq_canonicalize (empty_request\<lparr>rq_paths := [PathRef (StringId ''a'') (Generation 1), PathRef (StringId ''b'') (Generation 1)],
       rq_paths := [PathRef (StringId ''b'') (Generation 1), PathRef (StringId ''a'') (Generation 1)]\<rparr>) =
   rq_canonicalize (empty_request\<lparr>rq_paths := [PathRef (StringId ''a'') (Generation 1), PathRef (StringId ''b'') (Generation 1)]\<rparr>)"
  using request_arrival_independent [of
      "[PathRef (StringId ''b'') (Generation 1), PathRef (StringId ''a'') (Generation 1)]"
      "empty_request\<lparr>rq_paths := [PathRef (StringId ''a'') (Generation 1), PathRef (StringId ''b'') (Generation 1)]\<rparr>"]
  by simp

text \<open>What the semantic digest reads: everything but the identity, generation, request digest, detail,
  conflict total, provenance, lifecycle and currentness of the proof.\<close>

lemma proof_semantic_digest_cong:
  assumes "dpf_request p = dpf_request q" "dpf_outcome p = dpf_outcome q" "dpf_limit p = dpf_limit q"
    "dpf_classes p = dpf_classes q" "dpf_advisories p = dpf_advisories q"
    "dpf_conflicts p = dpf_conflicts q" "dpf_matrix p = dpf_matrix q" "dpf_witness p = dpf_witness q"
    "dpf_dependencies p = dpf_dependencies q"
  shows "proof_semantic_digest p = proof_semantic_digest q"
  using assms by (simp add: proof_semantic_digest_def digest_request_part_def digest_result_part_def
      digest_matrix_part_def digest_dependency_part_def)

end
