(* ===== verification/Mutation.thy ===== *)
theory Mutation
  imports PathSet
begin

text \<open>
  The result of a registry mutation (\<open>include/path_diversity/mutation.hpp\<close>, \<open>src/mutation.cpp\<close>).
  A policy or proof and the flag that says it is populated are one option.
\<close>

datatype mutation_status =
    MS_APPLIED
  | MS_IDEMPOTENT
  | MS_UNCHANGED
  | MS_UNAUTHORIZED
  | MS_FENCED_PUBLISHER
  | MS_STALE_EPOCH
  | MS_SCOPE_MISMATCH
  | MS_GENERATION_CONFLICT
  | MS_ATTEMPT_CONFLICT
  | MS_LIMIT_EXCEEDED
  | MS_MALFORMED
  | MS_NOT_FOUND
  | MS_ILLEGAL_TRANSITION
  | MS_REVALIDATION_REQUIRED

definition mutation_status_values :: "mutation_status list" where
  "mutation_status_values =
     [MS_APPLIED,
      MS_IDEMPOTENT,
      MS_UNCHANGED,
      MS_UNAUTHORIZED,
      MS_FENCED_PUBLISHER,
      MS_STALE_EPOCH,
      MS_SCOPE_MISMATCH,
      MS_GENERATION_CONFLICT,
      MS_ATTEMPT_CONFLICT,
      MS_LIMIT_EXCEEDED,
      MS_MALFORMED,
      MS_NOT_FOUND,
      MS_ILLEGAL_TRANSITION,
      MS_REVALIDATION_REQUIRED]"

primrec mutation_status_code :: "mutation_status \<Rightarrow> u8" where
  "mutation_status_code MS_APPLIED = 1"
| "mutation_status_code MS_IDEMPOTENT = 2"
| "mutation_status_code MS_UNCHANGED = 3"
| "mutation_status_code MS_UNAUTHORIZED = 4"
| "mutation_status_code MS_FENCED_PUBLISHER = 5"
| "mutation_status_code MS_STALE_EPOCH = 6"
| "mutation_status_code MS_SCOPE_MISMATCH = 7"
| "mutation_status_code MS_GENERATION_CONFLICT = 8"
| "mutation_status_code MS_ATTEMPT_CONFLICT = 9"
| "mutation_status_code MS_LIMIT_EXCEEDED = 10"
| "mutation_status_code MS_MALFORMED = 11"
| "mutation_status_code MS_NOT_FOUND = 12"
| "mutation_status_code MS_ILLEGAL_TRANSITION = 13"
| "mutation_status_code MS_REVALIDATION_REQUIRED = 14"

definition is_defined_mutation_status :: "u8 \<Rightarrow> bool" where
  "is_defined_mutation_status raw \<longleftrightarrow> mutation_status_code MS_APPLIED \<le> raw \<and> raw \<le> mutation_status_code MS_REVALIDATION_REQUIRED"

definition mutation_status_of_code :: "u8 \<Rightarrow> mutation_status option" where
  "mutation_status_of_code raw = find (\<lambda>x. mutation_status_code x = raw) mutation_status_values"

definition mutation_status_to_string :: "mutation_status \<Rightarrow> string" where
  "mutation_status_to_string v = (case v of
      MS_APPLIED \<Rightarrow> ''APPLIED''
    | MS_IDEMPOTENT \<Rightarrow> ''IDEMPOTENT''
    | MS_UNCHANGED \<Rightarrow> ''UNCHANGED''
    | MS_UNAUTHORIZED \<Rightarrow> ''UNAUTHORIZED''
    | MS_FENCED_PUBLISHER \<Rightarrow> ''FENCED_PUBLISHER''
    | MS_STALE_EPOCH \<Rightarrow> ''STALE_EPOCH''
    | MS_SCOPE_MISMATCH \<Rightarrow> ''SCOPE_MISMATCH''
    | MS_GENERATION_CONFLICT \<Rightarrow> ''GENERATION_CONFLICT''
    | MS_ATTEMPT_CONFLICT \<Rightarrow> ''ATTEMPT_CONFLICT''
    | MS_LIMIT_EXCEEDED \<Rightarrow> ''LIMIT_EXCEEDED''
    | MS_MALFORMED \<Rightarrow> ''MALFORMED''
    | MS_NOT_FOUND \<Rightarrow> ''NOT_FOUND''
    | MS_ILLEGAL_TRANSITION \<Rightarrow> ''ILLEGAL_TRANSITION''
    | MS_REVALIDATION_REQUIRED \<Rightarrow> ''REVALIDATION_REQUIRED'')"

interpretation mutation_status_enum: wire_enum mutation_status_code mutation_status_values is_defined_mutation_status mutation_status_of_code
proof unfold_locales
  show "map mutation_status_code mutation_status_values = map of_nat [1..<Suc (length mutation_status_values)]"
    by (simp add: mutation_status_values_def upt_rec)
  show "x \<in> set mutation_status_values" for x
    by (cases x) (simp_all add: mutation_status_values_def)
  show "length mutation_status_values < 255"
    by (simp add: mutation_status_values_def)
  show "is_defined_mutation_status raw \<longleftrightarrow> 1 \<le> raw \<and> raw \<le> of_nat (length mutation_status_values)" for raw
    by (simp add: is_defined_mutation_status_def mutation_status_values_def)
  show "mutation_status_of_code raw = find (\<lambda>x. mutation_status_code x = raw) mutation_status_values" for raw
    by (simp add: mutation_status_of_code_def)
qed

definition mutation_status_is_success :: "mutation_status \<Rightarrow> bool" where
  "mutation_status_is_success v \<longleftrightarrow> v = MS_APPLIED \<or> v = MS_IDEMPOTENT \<or> v = MS_UNCHANGED"

record mutation_result =
  mr_status :: mutation_status
  mr_detail :: string
  mr_limit :: "resource_limit_notice option"
  mr_policy :: "diversity_policy option"
  mr_proof :: "diversity_proof option"

definition mutation_result :: "mutation_status \<Rightarrow> string \<Rightarrow> mutation_result" where
  "mutation_result status detail =
     \<lparr>mr_status = status, mr_detail = detail, mr_limit = None, mr_policy = None, mr_proof = None\<rparr>"

definition mr_ok :: "mutation_result \<Rightarrow> bool" where
  "mr_ok r \<longleftrightarrow> mutation_status_is_success (mr_status r)"

definition mr_render :: "mutation_result \<Rightarrow> string" where
  "mr_render r =
     mutation_status_to_string (mr_status r) @
     (if mr_detail r \<noteq> [] then '': '' @ mr_detail r else []) @
     (case mr_limit r of None \<Rightarrow> [] | Some n \<Rightarrow> '' ['' @ notice_render n @ '']'') @
     (case mr_proof r of None \<Rightarrow> [] | Some p \<Rightarrow>
        '' proof='' @ id_view (dpf_id p) @ ''@g'' @ gen_text (dpf_generation p) @
        '' outcome='' @ proof_outcome_to_string (dpf_outcome p) @
        '' lifecycle='' @ lifecycle_state_to_string (dpf_lifecycle p) @
        '' currentness='' @ currentness_to_string (dpf_currentness p)) @
     (case mr_policy r of None \<Rightarrow> [] | Some p \<Rightarrow> '' policy='' @ dp_render p)"

lemma mutation_result_simps [simp]:
  "mr_status (mutation_result s d) = s" "mr_detail (mutation_result s d) = d"
  "mr_limit (mutation_result s d) = None" "mr_policy (mutation_result s d) = None"
  "mr_proof (mutation_result s d) = None"
  by (simp_all add: mutation_result_def)

end
