(* ===== verification/EvaluatePair.thy ===== *)
theory EvaluatePair
  imports Mutation
begin

text \<open>
  The evaluation of one pair of paths, class by class (\<open>src/evaluate_pair.cpp\<close>). The out-parameters
  that collect consulted domains and risk groups are further components of the result, in the order
  in which the code appends them; passing a null pointer is ignoring them.

  \<open>class_rule\<close> is the contract every class evaluator meets: given the resources the two paths
  share and whether the evidence is complete, it answers NOT_DIVERSE exactly on a shared resource,
  PROVEN_DIVERSE exactly on complete evidence without one, and UNKNOWN otherwise.
\<close>

section \<open>Inputs\<close>

record evaluation_inputs =
  in_authority :: "path_authority_view option"
  in_structure :: "path_structure_view option"
  in_domains :: "failure_domain_view option"
  in_limits :: "limits option"

section \<open>Helpers\<close>

definition join_ids :: "string list \<Rightarrow> string" where
  "join_ids values = join '', '' values"

fun intersect_from :: "'a::linorder list \<Rightarrow> 'a list \<Rightarrow> 'a list \<Rightarrow> 'a list" where
  "intersect_from out (x # xs) (y # ys) =
     (if x = y
      then intersect_from (if out = [] \<or> \<not> last out = x then out @ [x] else out) xs ys
      else if x < y then intersect_from out xs (y # ys)
      else intersect_from out (x # xs) ys)"
| "intersect_from out [] ys = out"
| "intersect_from out xs [] = out"

definition intersect_sorted :: "'a::linorder list \<Rightarrow> 'a list \<Rightarrow> 'a list" where
  "intersect_sorted left right = intersect_from [] left right"

definition path_entities :: "path_composition \<Rightarrow> entity_ref list" where
  "path_entities c =
     map (\<lambda>l. EntityRef EK_LINK (id_view l)) (pc_links c) @
     map (\<lambda>n. EntityRef EK_NODE (id_view n)) (pc_transit_nodes c) @
     map (\<lambda>n. EntityRef EK_ENDPOINT (id_view n)) (pc_sources c) @
     map (\<lambda>n. EntityRef EK_ENDPOINT (id_view n)) (pc_destinations c) @
     map (\<lambda>d. EntityRef EK_DEVICE (id_view d)) (pc_devices c)"

definition exempt_endpoints :: "path_composition \<Rightarrow> path_composition \<Rightarrow> endpoint_exemption \<Rightarrow> node_id list" where
  "exempt_endpoints left right exemption = (case exemption of
      EE_NONE \<Rightarrow> []
    | EE_SHARED_SOURCE_AND_DESTINATION \<Rightarrow>
        canonical_sort_unique (intersect_sorted (pc_sources left) (pc_sources right) @
          intersect_sorted (pc_destinations left) (pc_destinations right))
    | EE_SHARED_SOURCE_ONLY \<Rightarrow> intersect_sorted (pc_sources left) (pc_sources right)
    | EE_SHARED_DESTINATION_ONLY \<Rightarrow> intersect_sorted (pc_destinations left) (pc_destinations right)
    | EE_ANY_ENDPOINT \<Rightarrow>
        intersect_sorted (canonical_sort_unique (pc_sources left @ pc_destinations left))
          (canonical_sort_unique (pc_sources right @ pc_destinations right)))"

definition all_nodes :: "path_composition \<Rightarrow> node_id list" where
  "all_nodes c = canonical_sort_unique (pc_transit_nodes c @ pc_sources c @ pc_destinations c)"

definition make_conflict :: "conflict_class \<Rightarrow> domain_relation \<Rightarrow> string \<Rightarrow> nat \<Rightarrow> shared_resource" where
  "make_conflict kind relation i max_paths =
     SharedResource kind relation i (if 2 \<le> max_paths then [0, 1] else [0])"

definition note_incomplete :: "string \<Rightarrow> class_result \<Rightarrow> class_result" where
  "note_incomplete detail r =
     (let r = r\<lparr>cr_evidence_complete := False\<rparr>
      in if cr_detail r = [] then r\<lparr>cr_detail := detail\<rparr> else r)"

definition add_shared :: "nat \<Rightarrow> shared_resource \<Rightarrow> class_result \<Rightarrow> class_result" where
  "add_shared max_shared conflict r =
     (let r = r\<lparr>cr_shared_total := cr_shared_total r + 1\<rparr>
      in if length (cr_shared r) < max_shared
         then r\<lparr>cr_shared := canonical_conflict_order (cr_shared r @ [conflict])\<rparr>
         else r)"

text \<open>
  Every evaluator starts from a default result for its class and whether its evidence is
  complete, adds the shared resources and ends with the same three-way decision.
\<close>

definition start_result :: "diversity_class \<Rightarrow> bool \<Rightarrow> class_result" where
  "start_result klass complete =
     default_class_result\<lparr>cr_klass := klass, cr_evidence_complete := complete\<rparr>"

definition conclude_class :: "string list \<Rightarrow> string \<Rightarrow> string \<Rightarrow> class_result \<Rightarrow> class_result" where
  "conclude_class ids shared_detail missing r =
     (if ids \<noteq> [] then r\<lparr>cr_outcome := PO_NOT_DIVERSE, cr_detail := shared_detail @ join_ids ids\<rparr>
      else if \<not> cr_evidence_complete r
      then note_incomplete missing (r\<lparr>cr_outcome := PO_UNKNOWN_INCOMPLETE_EVIDENCE\<rparr>)
      else r\<lparr>cr_outcome := PO_PROVEN_DIVERSE\<rparr>)"

definition msg_link_coverage :: string where
  "msg_link_coverage =
     ''link coverage is not complete for both paths: absence of an observed shared '' @
     ''link is not evidence of link disjointness''"

definition msg_node_coverage :: string where
  "msg_node_coverage = ''node or endpoint coverage is not complete for both paths''"

definition msg_device_coverage :: string where
  "msg_device_coverage = ''device coverage is not complete for both paths''"

section \<open>Structural classes\<close>

definition evaluate_link_class :: "path_composition \<Rightarrow> path_composition \<Rightarrow> nat \<Rightarrow> class_result" where
  "evaluate_link_class left right max_shared =
     (let r = start_result DC_LINK_DISJOINT
                (pc_link_coverage left = EV_COMPLETE \<and> pc_link_coverage right = EV_COMPLETE);
          shared = intersect_sorted (pc_links left) (pc_links right);
          r = fold (\<lambda>link. add_shared max_shared
                (make_conflict CC_SHARED_LINK DR_FAILURE_DOMAIN (id_view link) 2)) shared r
      in conclude_class (map id_view shared) ''shared links: '' msg_link_coverage r)"

definition relevant_nodes :: "path_composition \<Rightarrow> path_composition \<Rightarrow> endpoint_exemption \<Rightarrow> node_id list" where
  "relevant_nodes left right exemption =
     (let exempt = exempt_endpoints left right exemption
      in filter (\<lambda>node. \<not> list_ex (\<lambda>candidate. candidate = node) exempt)
           (intersect_sorted (all_nodes left) (all_nodes right)))"

definition evaluate_transit_node_class ::
  "path_composition \<Rightarrow> path_composition \<Rightarrow> diversity_policy \<Rightarrow> nat \<Rightarrow> class_result" where
  "evaluate_transit_node_class left right policy max_shared =
     (let r = start_result DC_TRANSIT_NODE_DISJOINT
                (pc_node_coverage left = EV_COMPLETE \<and> pc_node_coverage right = EV_COMPLETE \<and>
                 pc_endpoint_coverage left = EV_COMPLETE \<and> pc_endpoint_coverage right = EV_COMPLETE);
          relevant = relevant_nodes left right (dp_endpoint_exemption policy);
          r = fold (\<lambda>node. add_shared max_shared
                (make_conflict CC_SHARED_TRANSIT_NODE DR_FAILURE_DOMAIN (id_view node) 2)) relevant r
      in conclude_class (map id_view relevant)
           (''shared nodes after endpoint exemption '' @
            endpoint_exemption_to_string (dp_endpoint_exemption policy) @ '': '')
           msg_node_coverage r)"

definition evaluate_device_class :: "path_composition \<Rightarrow> path_composition \<Rightarrow> nat \<Rightarrow> class_result" where
  "evaluate_device_class left right max_shared =
     (let r = start_result DC_DEVICE_DISJOINT
                (pc_device_coverage left = EV_COMPLETE \<and> pc_device_coverage right = EV_COMPLETE);
          shared = intersect_sorted (pc_devices left) (pc_devices right);
          r = fold (\<lambda>device. add_shared max_shared
                (make_conflict CC_SHARED_DEVICE DR_FAILURE_DOMAIN (id_view device) 2)) shared r
      in conclude_class (map id_view shared) ''shared devices: '' msg_device_coverage r)"

section \<open>Domain-backed classes\<close>

text \<open>The state of a collection loop: the members counted so far, completeness, the first gap.\<close>

type_synonym 'id membership = "('id, u32) omap \<times> bool \<times> string"

definition count_member :: "'id::linorder \<Rightarrow> ('id, u32) omap \<Rightarrow> ('id, u32) omap" where
  "count_member k m = om_put k ((case map_of m k of None \<Rightarrow> 0 | Some n \<Rightarrow> n) + 1) m"

definition collect_domain_entity ::
  "failure_domain_view \<Rightarrow> domain_relation \<Rightarrow> entity_ref \<Rightarrow> failure_domain_id membership \<Rightarrow>
   failure_domain_id membership" where
  "collect_domain_entity view relation entity st = (case st of (into, complete, missing) \<Rightarrow>
     let evidence = fv_domain_membership view entity relation;
         gap = de_coverage evidence \<noteq> EV_COMPLETE
     in (fold count_member (de_domains evidence) into,
         (if gap then False else complete),
         (if gap \<and> missing = []
          then entity_ref_render entity @ '' under '' @ domain_relation_to_string relation @ '' is '' @
               evidence_coverage_to_string (de_coverage evidence)
          else missing)))"

definition collect_domain_membership ::
  "failure_domain_view \<Rightarrow> path_composition \<Rightarrow> domain_relation \<Rightarrow> failure_domain_id membership \<Rightarrow>
   failure_domain_id membership" where
  "collect_domain_membership view c relation st =
     fold (collect_domain_entity view relation) (path_entities c) st"

definition collect_srlg_entity ::
  "failure_domain_view \<Rightarrow> entity_ref \<Rightarrow> shared_risk_group_id membership \<Rightarrow>
   shared_risk_group_id membership" where
  "collect_srlg_entity view entity st = (case st of (into, complete, missing) \<Rightarrow>
     let evidence = fv_srlg_membership view entity;
         gap = se_coverage evidence \<noteq> EV_COMPLETE
     in (fold count_member (se_groups evidence) into,
         (if gap then False else complete),
         (if gap \<and> missing = []
          then entity_ref_render entity @ '' has '' @ evidence_coverage_to_string (se_coverage evidence) @
               '' shared-risk-group coverage''
          else missing)))"

definition collect_srlg_membership ::
  "failure_domain_view \<Rightarrow> path_composition \<Rightarrow> shared_risk_group_id membership \<Rightarrow>
   shared_risk_group_id membership" where
  "collect_srlg_membership view c st = fold (collect_srlg_entity view) (path_entities c) st"

definition evaluate_domain_relation ::
  "path_composition \<Rightarrow> path_composition \<Rightarrow> diversity_class \<Rightarrow> domain_relation \<Rightarrow>
   failure_domain_view \<Rightarrow> nat \<Rightarrow> class_result \<times> failure_domain_id list" where
  "evaluate_domain_relation left right klass relation view max_shared =
     (case collect_domain_membership view left relation ([], True, []) of
        (left_domains, complete, missing) \<Rightarrow>
      case collect_domain_membership view right relation ([], complete, missing) of
        (right_domains, complete, missing) \<Rightarrow>
      let r = start_result klass complete;
          consulted = map fst left_domains @ map fst right_domains;
          shared = filter (\<lambda>d. map_of right_domains d \<noteq> None) (map fst left_domains);
          r = fold (\<lambda>d. add_shared max_shared
                (make_conflict (conflict_class_for_relation relation) relation (id_view d) 2)) shared r
      in (conclude_class (map id_view shared)
            (''shared '' @ domain_relation_to_string relation @ '' domains: '') missing r,
          consulted))"

definition evaluate_srlg_class ::
  "path_composition \<Rightarrow> path_composition \<Rightarrow> failure_domain_view \<Rightarrow> nat \<Rightarrow>
   class_result \<times> shared_risk_group_id list" where
  "evaluate_srlg_class left right view max_shared =
     (case collect_srlg_membership view left ([], True, []) of (left_groups, complete, missing) \<Rightarrow>
      case collect_srlg_membership view right ([], complete, missing) of (right_groups, complete, missing) \<Rightarrow>
      let r = start_result DC_SHARED_RISK_GROUP_DISJOINT complete;
          consulted = map fst left_groups @ map fst right_groups;
          shared = filter (\<lambda>g. map_of right_groups g \<noteq> None) (map fst left_groups);
          r = fold (\<lambda>g. add_shared max_shared
                (make_conflict CC_SHARED_RISK_GROUP DR_FAILURE_DOMAIN (id_view g) 2)) shared r
      in (conclude_class (map id_view shared) ''shared risk groups: '' missing r, consulted))"

section \<open>One class\<close>

definition msg_no_relations :: string where
  "msg_no_relations =
     ''FAILURE_DOMAIN_DISJOINT has no declared failure-domain relation set in the policy''"

definition merge_relation ::
  "nat \<Rightarrow> class_result \<Rightarrow> class_result \<Rightarrow> class_result" where
  "merge_relation max_shared partial merged =
     (let merged = (if \<not> cr_evidence_complete partial
                    then let m = merged\<lparr>cr_evidence_complete := False\<rparr>
                         in if cr_detail m = [] then m\<lparr>cr_detail := cr_detail partial\<rparr> else m
                    else merged);
          merged = fold (add_shared max_shared) (cr_shared partial) merged
      in if cr_outcome partial = PO_NOT_DIVERSE
         then let m = merged\<lparr>cr_outcome := PO_NOT_DIVERSE\<rparr>
              in if cr_detail partial \<noteq> [] \<and> cr_detail m = []
                 then m\<lparr>cr_detail := cr_detail partial\<rparr> else m
         else if cr_outcome partial = PO_UNKNOWN_INCOMPLETE_EVIDENCE \<and> cr_outcome merged \<noteq> PO_NOT_DIVERSE
         then merged\<lparr>cr_outcome := PO_UNKNOWN_INCOMPLETE_EVIDENCE\<rparr>
         else merged)"

definition failure_domain_step ::
  "path_composition \<Rightarrow> path_composition \<Rightarrow> failure_domain_view \<Rightarrow> nat \<Rightarrow> domain_relation \<Rightarrow>
   class_result \<times> failure_domain_id list \<Rightarrow> class_result \<times> failure_domain_id list" where
  "failure_domain_step left right view max_shared relation st = (case st of (merged, consulted) \<Rightarrow>
     case evaluate_domain_relation left right DC_FAILURE_DOMAIN_DISJOINT relation view max_shared of
       (partial, seen) \<Rightarrow> (merge_relation max_shared partial merged, consulted @ seen))"

definition evaluate_failure_domain_class ::
  "path_composition \<Rightarrow> path_composition \<Rightarrow> diversity_policy \<Rightarrow> failure_domain_view \<Rightarrow> nat \<Rightarrow>
   class_result \<times> failure_domain_id list" where
  "evaluate_failure_domain_class left right policy view max_shared =
     (if dp_allowed_relations policy = []
      then (default_class_result\<lparr>cr_klass := DC_FAILURE_DOMAIN_DISJOINT, cr_evidence_complete := False,
              cr_outcome := PO_UNKNOWN_INCOMPLETE_EVIDENCE, cr_detail := msg_no_relations\<rparr>, [])
      else case fold (failure_domain_step left right view max_shared) (dp_allowed_relations policy)
             ((start_result DC_FAILURE_DOMAIN_DISJOINT True)\<lparr>cr_outcome := PO_PROVEN_DIVERSE\<rparr>, []) of
           (merged, consulted) \<Rightarrow>
             (merged\<lparr>cr_shared := canonical_conflict_order (cr_shared merged)\<rparr>, consulted))"

type_synonym class_evaluation = "class_result \<times> failure_domain_id list \<times> shared_risk_group_id list"

definition domain_evaluation :: "class_result \<times> failure_domain_id list \<Rightarrow> class_evaluation" where
  "domain_evaluation e = (fst e, snd e, [])"

definition evaluate_single_class ::
  "diversity_class \<Rightarrow> path_composition \<Rightarrow> path_composition \<Rightarrow> diversity_policy \<Rightarrow>
   failure_domain_view \<Rightarrow> nat \<Rightarrow> class_evaluation" where
  "evaluate_single_class klass left right policy view max_shared = (case klass of
      DC_LINK_DISJOINT \<Rightarrow> (evaluate_link_class left right max_shared, [], [])
    | DC_TRANSIT_NODE_DISJOINT \<Rightarrow> (evaluate_transit_node_class left right policy max_shared, [], [])
    | DC_DEVICE_DISJOINT \<Rightarrow> (evaluate_device_class left right max_shared, [], [])
    | DC_SHARED_RISK_GROUP_DISJOINT \<Rightarrow>
        (case evaluate_srlg_class left right view max_shared of (r, groups) \<Rightarrow> (r, [], groups))
    | DC_RACK_DISJOINT \<Rightarrow> domain_evaluation (evaluate_domain_relation left right klass DR_RACK view max_shared)
    | DC_POD_DISJOINT \<Rightarrow> domain_evaluation (evaluate_domain_relation left right klass DR_POD view max_shared)
    | DC_SITE_DISJOINT \<Rightarrow> domain_evaluation (evaluate_domain_relation left right klass DR_SITE view max_shared)
    | DC_FAILURE_DOMAIN_DISJOINT \<Rightarrow>
        domain_evaluation (evaluate_failure_domain_class left right policy view max_shared))"

section \<open>One pair\<close>

definition classify_step ::
  "path_composition \<Rightarrow> path_composition \<Rightarrow> diversity_policy \<Rightarrow> failure_domain_view \<Rightarrow> nat \<Rightarrow>
   diversity_class \<Rightarrow> class_result list \<times> failure_domain_id list \<times> shared_risk_group_id list \<Rightarrow>
   class_result list \<times> failure_domain_id list \<times> shared_risk_group_id list" where
  "classify_step left right policy view bound klass st = (case st of (results, domains, groups) \<Rightarrow>
     case evaluate_single_class klass left right policy view bound of (r, ds, gs) \<Rightarrow>
       (results @ [r], domains @ ds, groups @ gs))"

definition classify_pair ::
  "path_composition \<Rightarrow> path_composition \<Rightarrow> diversity_policy \<Rightarrow> evaluation_inputs \<Rightarrow> nat \<Rightarrow>
   class_result list \<times> failure_domain_id list \<times> shared_risk_group_id list" where
  "classify_pair left right policy inputs max_shared_per_class =
     (case in_domains inputs of
        None \<Rightarrow> ([], [], [])
      | Some view \<Rightarrow>
        let bound = (if max_shared_per_class = 0 then 1 else max_shared_per_class);
            canonical = dp_canonicalize policy;
            advisory = filter (\<lambda>k. \<not> list_ex (\<lambda>required. required = k) (dp_required_classes canonical))
                         diversity_class_values
        in fold (classify_step left right canonical view bound) advisory
             (fold (classify_step left right canonical view bound) (dp_required_classes canonical)
               ([], [], [])))"

end
