(* ===== verification/ClassRules.thy ===== *)
theory ClassRules
  imports EvaluatePair
begin

text \<open>
  What a diversity class means, and the proof that every class evaluator of \<open>EvaluatePair\<close> decides it.
  \<open>class_shares\<close> and \<open>class_known\<close> are the specification: the identities two compositions share under
  a class, and whether the evidence of both is complete. The locale \<open>class_rule\<close> is the contract; each
  evaluator interprets it, the structural ones and the relation and risk group ones from the common
  shape \<open>class_rule_of_list\<close>, the merged FAILURE_DOMAIN_DISJOINT one by induction over the relations.
\<close>

section \<open>What a class compares\<close>

definition pc_sorted :: "path_composition \<Rightarrow> bool" where
  "pc_sorted c \<longleftrightarrow> sorted (pc_sources c) \<and> sorted (pc_destinations c) \<and> sorted (pc_transit_nodes c) \<and>
     sorted (pc_links c) \<and> sorted (pc_devices c)"

lemma pc_sorted_canonicalize [simp]: "pc_sorted (pc_canonicalize c)"
  by (simp add: pc_sorted_def pc_canonicalize_def)

definition domain_members :: "failure_domain_view \<Rightarrow> domain_relation \<Rightarrow> path_composition \<Rightarrow> failure_domain_id set" where
  "domain_members view relation c =
     (\<Union>e\<in>set (path_entities c). set (de_domains (fv_domain_membership view e relation)))"

definition domain_known :: "failure_domain_view \<Rightarrow> domain_relation \<Rightarrow> path_composition \<Rightarrow> bool" where
  "domain_known view relation c \<longleftrightarrow>
     (\<forall>e\<in>set (path_entities c). de_coverage (fv_domain_membership view e relation) = EV_COMPLETE)"

definition srlg_members :: "failure_domain_view \<Rightarrow> path_composition \<Rightarrow> shared_risk_group_id set" where
  "srlg_members view c = (\<Union>e\<in>set (path_entities c). set (se_groups (fv_srlg_membership view e)))"

definition srlg_known :: "failure_domain_view \<Rightarrow> path_composition \<Rightarrow> bool" where
  "srlg_known view c \<longleftrightarrow> (\<forall>e\<in>set (path_entities c). se_coverage (fv_srlg_membership view e) = EV_COMPLETE)"

definition nodes_of :: "path_composition \<Rightarrow> node_id set" where
  "nodes_of c = set (pc_transit_nodes c) \<union> set (pc_sources c) \<union> set (pc_destinations c)"

text \<open>The endpoints a policy exempts, as sets.\<close>

definition exempt_nodes :: "endpoint_exemption \<Rightarrow> path_composition \<Rightarrow> path_composition \<Rightarrow> node_id set" where
  "exempt_nodes exemption l r = (case exemption of
      EE_NONE \<Rightarrow> {}
    | EE_SHARED_SOURCE_AND_DESTINATION \<Rightarrow>
        (set (pc_sources l) \<inter> set (pc_sources r)) \<union> (set (pc_destinations l) \<inter> set (pc_destinations r))
    | EE_SHARED_SOURCE_ONLY \<Rightarrow> set (pc_sources l) \<inter> set (pc_sources r)
    | EE_SHARED_DESTINATION_ONLY \<Rightarrow> set (pc_destinations l) \<inter> set (pc_destinations r)
    | EE_ANY_ENDPOINT \<Rightarrow>
        (set (pc_sources l) \<union> set (pc_destinations l)) \<inter> (set (pc_sources r) \<union> set (pc_destinations r)))"

definition shared_domains :: "failure_domain_view \<Rightarrow> domain_relation \<Rightarrow> path_composition \<Rightarrow> path_composition \<Rightarrow> string set" where
  "shared_domains view relation l r = id_view ` (domain_members view relation l \<inter> domain_members view relation r)"

definition class_shares ::
  "diversity_class \<Rightarrow> diversity_policy \<Rightarrow> failure_domain_view \<Rightarrow> path_composition \<Rightarrow> path_composition \<Rightarrow> string set" where
  "class_shares klass policy view l r = (case klass of
      DC_LINK_DISJOINT \<Rightarrow> id_view ` (set (pc_links l) \<inter> set (pc_links r))
    | DC_TRANSIT_NODE_DISJOINT \<Rightarrow>
        id_view ` (nodes_of l \<inter> nodes_of r - exempt_nodes (dp_endpoint_exemption policy) l r)
    | DC_DEVICE_DISJOINT \<Rightarrow> id_view ` (set (pc_devices l) \<inter> set (pc_devices r))
    | DC_RACK_DISJOINT \<Rightarrow> shared_domains view DR_RACK l r
    | DC_POD_DISJOINT \<Rightarrow> shared_domains view DR_POD l r
    | DC_SITE_DISJOINT \<Rightarrow> shared_domains view DR_SITE l r
    | DC_FAILURE_DOMAIN_DISJOINT \<Rightarrow>
        (\<Union>relation\<in>set (dp_allowed_relations policy). shared_domains view relation l r)
    | DC_SHARED_RISK_GROUP_DISJOINT \<Rightarrow> id_view ` (srlg_members view l \<inter> srlg_members view r))"

definition relation_known :: "failure_domain_view \<Rightarrow> domain_relation \<Rightarrow> path_composition \<Rightarrow> path_composition \<Rightarrow> bool" where
  "relation_known view relation l r \<longleftrightarrow> domain_known view relation l \<and> domain_known view relation r"

definition class_known ::
  "diversity_class \<Rightarrow> diversity_policy \<Rightarrow> failure_domain_view \<Rightarrow> path_composition \<Rightarrow> path_composition \<Rightarrow> bool" where
  "class_known klass policy view l r = (case klass of
      DC_LINK_DISJOINT \<Rightarrow> pc_link_coverage l = EV_COMPLETE \<and> pc_link_coverage r = EV_COMPLETE
    | DC_TRANSIT_NODE_DISJOINT \<Rightarrow>
        pc_node_coverage l = EV_COMPLETE \<and> pc_node_coverage r = EV_COMPLETE \<and>
        pc_endpoint_coverage l = EV_COMPLETE \<and> pc_endpoint_coverage r = EV_COMPLETE
    | DC_DEVICE_DISJOINT \<Rightarrow> pc_device_coverage l = EV_COMPLETE \<and> pc_device_coverage r = EV_COMPLETE
    | DC_RACK_DISJOINT \<Rightarrow> relation_known view DR_RACK l r
    | DC_POD_DISJOINT \<Rightarrow> relation_known view DR_POD l r
    | DC_SITE_DISJOINT \<Rightarrow> relation_known view DR_SITE l r
    | DC_FAILURE_DOMAIN_DISJOINT \<Rightarrow>
        dp_allowed_relations policy \<noteq> [] \<and>
        (\<forall>relation\<in>set (dp_allowed_relations policy). relation_known view relation l r)
    | DC_SHARED_RISK_GROUP_DISJOINT \<Rightarrow> srlg_known view l \<and> srlg_known view r)"

section \<open>The contract of a class evaluator\<close>

locale class_rule =
  fixes eval :: "path_composition \<Rightarrow> path_composition \<Rightarrow> nat \<Rightarrow> class_result"
    and klass :: diversity_class
    and shares :: "path_composition \<Rightarrow> path_composition \<Rightarrow> string set"
    and known :: "path_composition \<Rightarrow> path_composition \<Rightarrow> bool"
  assumes eval_class: "cr_klass (eval l r m) = klass"
    and eval_known: "cr_evidence_complete (eval l r m) \<longleftrightarrow> known l r"
    and eval_outcome: "pc_sorted l \<Longrightarrow> pc_sorted r \<Longrightarrow>
          cr_outcome (eval l r m) =
            (if shares l r \<noteq> {} then PO_NOT_DIVERSE
             else if known l r then PO_PROVEN_DIVERSE else PO_UNKNOWN_INCOMPLETE_EVIDENCE)"
    and eval_bounded: "length (cr_shared (eval l r m)) \<le> m"
    and eval_ids: "pc_sorted l \<Longrightarrow> pc_sorted r \<Longrightarrow> sr_id ` set (cr_shared (eval l r m)) \<subseteq> shares l r"
    and eval_listed: "0 < m \<Longrightarrow> pc_sorted l \<Longrightarrow> pc_sorted r \<Longrightarrow> shares l r \<noteq> {} \<Longrightarrow> cr_shared (eval l r m) \<noteq> []"
    and eval_pair: "c \<in> set (cr_shared (eval l r m)) \<Longrightarrow> sr_paths c = [0, 1]"
    and shares_sym: "shares l r = shares r l"
    and known_sym: "known l r = known r l"
begin

lemma proven_iff:
  "pc_sorted l \<Longrightarrow> pc_sorted r \<Longrightarrow>
     cr_outcome (eval l r m) = PO_PROVEN_DIVERSE \<longleftrightarrow> shares l r = {} \<and> known l r"
  by (simp add: eval_outcome)

lemma incomplete_never_proven:
  "pc_sorted l \<Longrightarrow> pc_sorted r \<Longrightarrow> \<not> known l r \<Longrightarrow> cr_outcome (eval l r m) \<noteq> PO_PROVEN_DIVERSE"
  by (simp add: eval_outcome)

lemma outcome_sym:
  "pc_sorted l \<Longrightarrow> pc_sorted r \<Longrightarrow> cr_outcome (eval l r m) = cr_outcome (eval r l m')"
  using shares_sym [of l r] known_sym [of l r] by (simp add: eval_outcome)

lemma no_conflict_listed:
  "pc_sorted l \<Longrightarrow> pc_sorted r \<Longrightarrow> shares l r = {} \<Longrightarrow> cr_shared (eval l r m) = []"
  using eval_ids [of l r m] by (cases "cr_shared (eval l r m)") auto

lemma conflict_named:
  assumes "0 < m" "pc_sorted l" "pc_sorted r"
  shows "cr_outcome (eval l r m) = PO_NOT_DIVERSE \<longleftrightarrow> (\<exists>c\<in>set (cr_shared (eval l r m)). sr_id c \<in> shares l r)"
proof (cases "shares l r = {}")
  case True
  then show ?thesis using assms no_conflict_listed [of l r m] by (simp add: eval_outcome)
next
  case False
  then obtain c cs where "cr_shared (eval l r m) = c # cs"
    using eval_listed [OF assms] by (cases "cr_shared (eval l r m)") auto
  moreover from this have "sr_id c \<in> shares l r"
    using eval_ids [OF assms(2,3), of m] by simp
  ultimately show ?thesis using False assms by (simp add: eval_outcome)
qed

end

section \<open>The building blocks\<close>

lemma set_intersect_from:
  "sorted xs \<Longrightarrow> sorted ys \<Longrightarrow> set (intersect_from out xs ys) = set out \<union> (set xs \<inter> set ys)"
proof (induction out xs ys rule: intersect_from.induct)
  case (1 out x xs y ys)
  consider "x = y" | "x < y" | "y < x" by (rule linorder_cases)
  then show ?case
  proof cases
    case 1
    have "set (if out = [] \<or> \<not> last out = x then out @ [x] else out) = insert x (set out)"
      using last_in_set [of out] by auto
    then show ?thesis using 1 "1.IH"(1) "1.prems" by auto
  next
    case 2
    then have "x \<notin> set (y # ys)" using "1.prems" by auto
    then show ?thesis using 2 "1.IH"(2) "1.prems" by auto
  next
    case 3
    then have "y \<notin> set (x # xs)" using "1.prems" by auto
    then show ?thesis using 3 "1.IH"(3) "1.prems" by auto
  qed
qed auto

lemma set_intersect_sorted [simp]:
  "sorted xs \<Longrightarrow> sorted ys \<Longrightarrow> set (intersect_sorted xs ys) = set xs \<inter> set ys"
  by (simp add: intersect_sorted_def set_intersect_from)

lemma sorted_canonical_sort_unique [simp]: "sorted (canonical_sort_unique xs)"
  by (simp add: canonical_sort_unique_eq)

lemma set_exempt_endpoints:
  "pc_sorted l \<Longrightarrow> pc_sorted r \<Longrightarrow> set (exempt_endpoints l r e) = exempt_nodes e l r"
  by (cases e) (simp_all add: exempt_endpoints_def exempt_nodes_def pc_sorted_def)

lemma set_relevant_nodes:
  "pc_sorted l \<Longrightarrow> pc_sorted r \<Longrightarrow>
     set (relevant_nodes l r e) = nodes_of l \<inter> nodes_of r - exempt_nodes e l r"
  by (auto simp: relevant_nodes_def set_exempt_endpoints all_nodes_def nodes_of_def list_ex_iff Let_def)

lemma exempt_nodes_sym: "exempt_nodes e l r = exempt_nodes e r l"
  by (cases e) (auto simp: exempt_nodes_def)

lemma add_shared_frame [frame_simps]:
  "cr_klass (add_shared m c r) = cr_klass r" "cr_outcome (add_shared m c r) = cr_outcome r"
  "cr_evidence_complete (add_shared m c r) = cr_evidence_complete r"
  "cr_detail (add_shared m c r) = cr_detail r"
  by (simp_all add: add_shared_def Let_def)

lemma add_shared_fold_frame [frame_simps]:
  "cr_klass (fold (\<lambda>x. add_shared m (f x)) xs r) = cr_klass r"
  "cr_outcome (fold (\<lambda>x. add_shared m (f x)) xs r) = cr_outcome r"
  "cr_evidence_complete (fold (\<lambda>x. add_shared m (f x)) xs r) = cr_evidence_complete r"
  "cr_detail (fold (\<lambda>x. add_shared m (f x)) xs r) = cr_detail r"
  by (induction xs arbitrary: r) (simp_all add: frame_simps)

lemma set_add_shared: "set (cr_shared (add_shared m c r)) \<subseteq> insert c (set (cr_shared r))"
  by (auto simp: add_shared_def Let_def canonical_conflict_order_def)

lemma length_add_shared: "length (cr_shared r) \<le> m \<Longrightarrow> length (cr_shared (add_shared m c r)) \<le> m"
  by (auto simp: add_shared_def Let_def canonical_conflict_order_def)

lemma add_shared_listed: "0 < m \<Longrightarrow> cr_shared (add_shared m c r) \<noteq> []"
  by (auto simp: add_shared_def Let_def canonical_conflict_order_def)

lemma add_shared_fold_set:
  "set (cr_shared (fold (\<lambda>x. add_shared m (f x)) xs r)) \<subseteq> set (cr_shared r) \<union> f ` set xs"
proof (induction xs arbitrary: r)
  case (Cons x xs)
  show ?case using Cons.IH [of "add_shared m (f x) r"] set_add_shared [of m "f x" r] by auto
qed simp

lemma add_shared_fold_length:
  "length (cr_shared r) \<le> m \<Longrightarrow> length (cr_shared (fold (\<lambda>x. add_shared m (f x)) xs r)) \<le> m"
  by (induction xs arbitrary: r) (simp_all add: length_add_shared)

lemma add_shared_fold_keeps:
  "0 < m \<Longrightarrow> cr_shared r \<noteq> [] \<Longrightarrow> cr_shared (fold (\<lambda>x. add_shared m (f x)) xs r) \<noteq> []"
  by (induction xs arbitrary: r) (simp_all add: add_shared_listed)

lemma add_shared_fold_listed:
  "0 < m \<Longrightarrow> xs \<noteq> [] \<Longrightarrow> cr_shared (fold (\<lambda>x. add_shared m (f x)) xs r) \<noteq> []"
  by (cases xs) (simp_all add: add_shared_fold_keeps add_shared_listed)

lemma add_shared_fold_total:
  "cr_shared_total (fold (\<lambda>x. add_shared m (f x)) xs r) = cr_shared_total r + of_nat (length xs)"
  by (induction xs arbitrary: r) (simp_all add: add_shared_def Let_def)

lemma start_result_simps [simp]:
  "cr_klass (start_result k b) = k" "cr_evidence_complete (start_result k b) = b"
  "cr_shared (start_result k b) = []" "cr_shared_total (start_result k b) = 0"
  "cr_detail (start_result k b) = []"
  by (simp_all add: start_result_def default_class_result_def)

lemma conclude_class_simps [simp]:
  "cr_klass (conclude_class ids d m r) = cr_klass r"
  "cr_evidence_complete (conclude_class ids d m r) = (cr_evidence_complete r)"
  "cr_shared (conclude_class ids d m r) = cr_shared r"
  "cr_shared_total (conclude_class ids d m r) = cr_shared_total r"
  "cr_outcome (conclude_class ids d m r) =
     (if ids \<noteq> [] then PO_NOT_DIVERSE
      else if cr_evidence_complete r then PO_PROVEN_DIVERSE else PO_UNKNOWN_INCOMPLETE_EVIDENCE)"
  by (simp_all add: conclude_class_def note_incomplete_def Let_def)

text \<open>
  One evaluation from a list of shared identities: every evaluator but the merged one has this
  shape, so the contract follows from what its list holds.
\<close>

lemma class_rule_of_list:
  fixes ids :: "path_composition \<Rightarrow> path_composition \<Rightarrow> 'id list"
  assumes "\<And>l r m. eval l r m = conclude_class (map (view l r) (ids l r)) (sd l r) (ms l r)
      (fold (\<lambda>x. add_shared m (make_conflict kind rel (view l r x) 2)) (ids l r) (start_result klass (known l r)))"
    and "\<And>l r. pc_sorted l \<Longrightarrow> pc_sorted r \<Longrightarrow> view l r ` set (ids l r) = shares l r"
    and "\<And>l r. shares l r = shares r l" "\<And>l r. known l r = known r l"
  shows "class_rule eval klass shares known"
proof
  fix l r m
  let ?f = "\<lambda>x. make_conflict kind rel (view l r x) 2"
  note shape = assms(1) [of l r m]
  have listed: "set (cr_shared (eval l r m)) \<subseteq> ?f ` set (ids l r)"
    using add_shared_fold_set [of m ?f "ids l r" "start_result klass (known l r)"] by (simp add: shape)
  show "cr_klass (eval l r m) = klass" "cr_evidence_complete (eval l r m) \<longleftrightarrow> known l r"
    by (simp_all add: shape frame_simps)
  show "length (cr_shared (eval l r m)) \<le> m"
    by (simp add: shape add_shared_fold_length)
  show "c \<in> set (cr_shared (eval l r m)) \<Longrightarrow> sr_paths c = [0, 1]" for c
    using listed by (auto simp: make_conflict_def)
  show "shares l r = shares r l" "known l r = known r l" by (fact assms)+
  assume sorted: "pc_sorted l" "pc_sorted r"
  note ids = assms(2) [OF sorted]
  have empty: "ids l r = [] \<longleftrightarrow> shares l r = {}"
    using ids by (cases "ids l r") auto
  show "cr_outcome (eval l r m) = (if shares l r \<noteq> {} then PO_NOT_DIVERSE
      else if known l r then PO_PROVEN_DIVERSE else PO_UNKNOWN_INCOMPLETE_EVIDENCE)"
    by (simp add: shape frame_simps empty)
  show "sr_id ` set (cr_shared (eval l r m)) \<subseteq> shares l r"
    using listed unfolding ids [symmetric] by (fastforce simp: make_conflict_def)
  show "0 < m \<Longrightarrow> shares l r \<noteq> {} \<Longrightarrow> cr_shared (eval l r m) \<noteq> []"
    by (simp add: shape add_shared_fold_listed flip: empty)
qed


section \<open>Every evaluator meets the contract\<close>

interpretation link_rule: class_rule evaluate_link_class DC_LINK_DISJOINT
  "class_shares DC_LINK_DISJOINT policy view" "class_known DC_LINK_DISJOINT policy view" for policy view
  by (rule class_rule_of_list [where ids = "\<lambda>l r. intersect_sorted (pc_links l) (pc_links r)" and view = "\<lambda>l r. id_view"
        and sd = "\<lambda>l r. ''shared links: ''" and ms = "\<lambda>l r. msg_link_coverage"])
     (auto simp: evaluate_link_class_def class_shares_def class_known_def pc_sorted_def Let_def)

interpretation node_rule: class_rule "\<lambda>l r. evaluate_transit_node_class l r policy" DC_TRANSIT_NODE_DISJOINT
  "class_shares DC_TRANSIT_NODE_DISJOINT policy view" "class_known DC_TRANSIT_NODE_DISJOINT policy view"
  for policy view
  by (rule class_rule_of_list [where ids = "\<lambda>l r. relevant_nodes l r (dp_endpoint_exemption policy)" and view = "\<lambda>l r. id_view"
        and sd = "\<lambda>l r. ''shared nodes after endpoint exemption '' @ endpoint_exemption_to_string (dp_endpoint_exemption policy) @ '': ''"
        and ms = "\<lambda>l r. msg_node_coverage"])
     (auto simp: evaluate_transit_node_class_def class_shares_def class_known_def Let_def
        set_relevant_nodes exempt_nodes_sym)

interpretation device_rule: class_rule evaluate_device_class DC_DEVICE_DISJOINT
  "class_shares DC_DEVICE_DISJOINT policy view" "class_known DC_DEVICE_DISJOINT policy view" for policy view
  by (rule class_rule_of_list [where ids = "\<lambda>l r. intersect_sorted (pc_devices l) (pc_devices r)" and view = "\<lambda>l r. id_view"
        and sd = "\<lambda>l r. ''shared devices: ''" and ms = "\<lambda>l r. msg_device_coverage"])
     (auto simp: evaluate_device_class_def class_shares_def class_known_def pc_sorted_def Let_def)

lemma keys_count_fold: "fst ` set (fold count_member ks m) = set ks \<union> fst ` set m"
  by (induction ks arbitrary: m) (auto simp: count_member_def)

lemma collect_domain:
  "collect_domain_membership view c relation (into, complete, missing) = (into', complete', missing') \<Longrightarrow>
     fst ` set into' = domain_members view relation c \<union> fst ` set into \<and>
     complete' = (complete \<and> domain_known view relation c)"
proof -
  have "fst ` set (fst (fold (collect_domain_entity view relation) es st)) =
      (\<Union>e\<in>set es. set (de_domains (fv_domain_membership view e relation))) \<union> fst ` set (fst st) \<and>
    fst (snd (fold (collect_domain_entity view relation) es st)) =
      (fst (snd st) \<and> (\<forall>e\<in>set es. de_coverage (fv_domain_membership view e relation) = EV_COMPLETE))" for es st
  proof (induction es arbitrary: st)
    case (Cons e es)
    obtain into complete missing where st: "st = (into, complete, missing)" by (cases st)
    show ?case using Cons.IH [of "collect_domain_entity view relation e st"]
      by (auto simp: st collect_domain_entity_def Let_def keys_count_fold)
  qed simp
  from this [of "path_entities c" "(into, complete, missing)"]
  show "collect_domain_membership view c relation (into, complete, missing) = (into', complete', missing') \<Longrightarrow> ?thesis"
    by (simp add: collect_domain_membership_def domain_members_def domain_known_def)
qed

lemma collect_srlg:
  "collect_srlg_membership view c (into, complete, missing) = (into', complete', missing') \<Longrightarrow>
     fst ` set into' = srlg_members view c \<union> fst ` set into \<and> complete' = (complete \<and> srlg_known view c)"
proof -
  have "fst ` set (fst (fold (collect_srlg_entity view) es st)) =
      (\<Union>e\<in>set es. set (se_groups (fv_srlg_membership view e))) \<union> fst ` set (fst st) \<and>
    fst (snd (fold (collect_srlg_entity view) es st)) =
      (fst (snd st) \<and> (\<forall>e\<in>set es. se_coverage (fv_srlg_membership view e) = EV_COMPLETE))" for es st
  proof (induction es arbitrary: st)
    case (Cons e es)
    obtain into complete missing where st: "st = (into, complete, missing)" by (cases st)
    show ?case using Cons.IH [of "collect_srlg_entity view e st"]
      by (auto simp: st collect_srlg_entity_def Let_def keys_count_fold)
  qed simp
  from this [of "path_entities c" "(into, complete, missing)"]
  show "collect_srlg_membership view c (into, complete, missing) = (into', complete', missing') \<Longrightarrow> ?thesis"
    by (simp add: collect_srlg_membership_def srlg_members_def srlg_known_def)
qed

text \<open>What the two collection loops hand to the decision.\<close>

definition domain_run :: "failure_domain_view \<Rightarrow> domain_relation \<Rightarrow> path_composition \<Rightarrow> path_composition \<Rightarrow>
    failure_domain_id list \<times> string" where
  "domain_run view relation l r =
     (case collect_domain_membership view l relation ([], True, []) of (ls, complete, missing) \<Rightarrow>
      case collect_domain_membership view r relation ([], complete, missing) of (rs, complete, missing) \<Rightarrow>
        (filter (\<lambda>d. map_of rs d \<noteq> None) (map fst ls), missing))"

lemma evaluate_domain_relation_shape:
  "fst (evaluate_domain_relation l r klass relation view m) =
     conclude_class (map id_view (fst (domain_run view relation l r)))
       (''shared '' @ domain_relation_to_string relation @ '' domains: '') (snd (domain_run view relation l r))
       (fold (\<lambda>d. add_shared m (make_conflict (conflict_class_for_relation relation) relation (id_view d) 2))
          (fst (domain_run view relation l r)) (start_result klass (relation_known view relation l r)))"
proof -
  obtain ls c1 m1 where L: "collect_domain_membership view l relation ([], True, []) = (ls, c1, m1)"
    by (cases "collect_domain_membership view l relation ([], True, [])")
  obtain rs c2 m2 where R: "collect_domain_membership view r relation ([], c1, m1) = (rs, c2, m2)"
    by (cases "collect_domain_membership view r relation ([], c1, m1)")
  have "c2 = relation_known view relation l r"
    using collect_domain [OF L] collect_domain [OF R] by (simp add: relation_known_def)
  then show ?thesis by (simp add: evaluate_domain_relation_def domain_run_def L R Let_def)
qed

lemma domain_run_ids: "id_view ` set (fst (domain_run view relation l r)) = shared_domains view relation l r"
proof -
  obtain ls c1 m1 where L: "collect_domain_membership view l relation ([], True, []) = (ls, c1, m1)"
    by (cases "collect_domain_membership view l relation ([], True, [])")
  obtain rs c2 m2 where R: "collect_domain_membership view r relation ([], c1, m1) = (rs, c2, m2)"
    by (cases "collect_domain_membership view r relation ([], c1, m1)")
  have "fst (domain_run view relation l r) = filter (\<lambda>d. map_of rs d \<noteq> None) (map fst ls)"
    by (simp add: domain_run_def L R)
  moreover have "fst ` set ls = domain_members view relation l" "fst ` set rs = domain_members view relation r"
    using collect_domain [OF L] collect_domain [OF R] by simp_all
  ultimately have "set (fst (domain_run view relation l r)) = domain_members view relation l \<inter> domain_members view relation r"
    by (auto simp: map_of_eq_None_iff)
  then show ?thesis by (simp add: shared_domains_def)
qed

lemma shared_domains_sym: "shared_domains view relation l r = shared_domains view relation r l"
  by (simp add: shared_domains_def Int_commute)

lemma relation_known_sym: "relation_known view relation l r = relation_known view relation r l"
  by (auto simp: relation_known_def)

interpretation relation_rule: class_rule "\<lambda>l r m. fst (evaluate_domain_relation l r klass relation view m)" klass
  "shared_domains view relation" "relation_known view relation" for klass relation view
  by (rule class_rule_of_list [OF evaluate_domain_relation_shape])
     (simp_all add: domain_run_ids shared_domains_sym relation_known_sym)

definition srlg_run :: "failure_domain_view \<Rightarrow> path_composition \<Rightarrow> path_composition \<Rightarrow>
    shared_risk_group_id list \<times> string" where
  "srlg_run view l r =
     (case collect_srlg_membership view l ([], True, []) of (ls, complete, missing) \<Rightarrow>
      case collect_srlg_membership view r ([], complete, missing) of (rs, complete, missing) \<Rightarrow>
        (filter (\<lambda>d. map_of rs d \<noteq> None) (map fst ls), missing))"

lemma evaluate_srlg_class_shape:
  "fst (evaluate_srlg_class l r view m) =
     conclude_class (map id_view (fst (srlg_run view l r))) ''shared risk groups: '' (snd (srlg_run view l r))
       (fold (\<lambda>d. add_shared m (make_conflict CC_SHARED_RISK_GROUP DR_FAILURE_DOMAIN (id_view d) 2))
          (fst (srlg_run view l r))
          (start_result DC_SHARED_RISK_GROUP_DISJOINT (class_known DC_SHARED_RISK_GROUP_DISJOINT policy view l r)))"
  and srlg_run_ids: "id_view ` set (fst (srlg_run view l r)) = class_shares DC_SHARED_RISK_GROUP_DISJOINT policy view l r"
proof -
  obtain ls c1 m1 where L: "collect_srlg_membership view l ([], True, []) = (ls, c1, m1)"
    by (cases "collect_srlg_membership view l ([], True, [])")
  obtain rs c2 m2 where R: "collect_srlg_membership view r ([], c1, m1) = (rs, c2, m2)"
    by (cases "collect_srlg_membership view r ([], c1, m1)")
  have "c2 = class_known DC_SHARED_RISK_GROUP_DISJOINT policy view l r"
    using collect_srlg [OF L] collect_srlg [OF R] by (simp add: class_known_def)
  then show "fst (evaluate_srlg_class l r view m) =
     conclude_class (map id_view (fst (srlg_run view l r))) ''shared risk groups: '' (snd (srlg_run view l r))
       (fold (\<lambda>d. add_shared m (make_conflict CC_SHARED_RISK_GROUP DR_FAILURE_DOMAIN (id_view d) 2))
          (fst (srlg_run view l r))
          (start_result DC_SHARED_RISK_GROUP_DISJOINT (class_known DC_SHARED_RISK_GROUP_DISJOINT policy view l r)))"
    by (simp add: evaluate_srlg_class_def srlg_run_def L R Let_def)
  have "fst (srlg_run view l r) = filter (\<lambda>d. map_of rs d \<noteq> None) (map fst ls)"
    by (simp add: srlg_run_def L R)
  moreover have "fst ` set ls = srlg_members view l" "fst ` set rs = srlg_members view r"
    using collect_srlg [OF L] collect_srlg [OF R] by simp_all
  ultimately have "set (fst (srlg_run view l r)) = srlg_members view l \<inter> srlg_members view r"
    by (auto simp: map_of_eq_None_iff)
  then show "id_view ` set (fst (srlg_run view l r)) = class_shares DC_SHARED_RISK_GROUP_DISJOINT policy view l r"
    by (simp add: class_shares_def)
qed

interpretation srlg_rule: class_rule "\<lambda>l r m. fst (evaluate_srlg_class l r view m)" DC_SHARED_RISK_GROUP_DISJOINT
  "class_shares DC_SHARED_RISK_GROUP_DISJOINT policy view" "class_known DC_SHARED_RISK_GROUP_DISJOINT policy view"
  for policy view
  by (rule class_rule_of_list [OF evaluate_srlg_class_shape srlg_run_ids])
     (auto simp: class_shares_def class_known_def)


text \<open>Merging one relation into the FAILURE_DOMAIN_DISJOINT result.\<close>

lemma merge_relation_simps:
  "cr_klass (merge_relation m p r) = cr_klass r"
  "cr_evidence_complete (merge_relation m p r) \<longleftrightarrow> cr_evidence_complete p \<and> cr_evidence_complete r"
  "cr_shared (merge_relation m p r) = cr_shared (fold (add_shared m) (cr_shared p) r)"
  "cr_outcome (merge_relation m p r) =
     (if cr_outcome p = PO_NOT_DIVERSE then PO_NOT_DIVERSE
      else if cr_outcome p = PO_UNKNOWN_INCOMPLETE_EVIDENCE \<and> cr_outcome r \<noteq> PO_NOT_DIVERSE
      then PO_UNKNOWN_INCOMPLETE_EVIDENCE else cr_outcome r)"
proof -
  define m1 where "m1 = (if \<not> cr_evidence_complete p
      then let r' = r\<lparr>cr_evidence_complete := False\<rparr>
           in if cr_detail r' = [] then r'\<lparr>cr_detail := cr_detail p\<rparr> else r'
      else r)"
  define m2 where "m2 = fold (add_shared m) (cr_shared p) m1"
  have m1: "cr_klass m1 = cr_klass r" "cr_evidence_complete m1 \<longleftrightarrow> cr_evidence_complete p \<and> cr_evidence_complete r"
    "cr_outcome m1 = cr_outcome r" "cr_shared m1 = cr_shared r"
    by (simp_all add: m1_def Let_def)
  have m2: "cr_klass m2 = cr_klass m1" "cr_outcome m2 = cr_outcome m1"
    "cr_evidence_complete m2 = cr_evidence_complete m1"
    using add_shared_fold_frame [of m "\<lambda>x. x" "cr_shared p" m1] by (simp_all add: m2_def)
  have same: "cr_shared r = cr_shared r' \<Longrightarrow> cr_shared (fold (add_shared m) cs r) = cr_shared (fold (add_shared m) cs r')" for cs r r'
  proof (induction cs arbitrary: r r')
    case (Cons c cs)
    have "cr_shared (add_shared m c r) = cr_shared (add_shared m c r')"
      using Cons.prems by (simp add: add_shared_def Let_def)
    from Cons.IH [OF this] show ?case by simp
  qed simp
  have eq: "merge_relation m p r =
      (if cr_outcome p = PO_NOT_DIVERSE
       then let m = m2\<lparr>cr_outcome := PO_NOT_DIVERSE\<rparr>
            in if cr_detail p \<noteq> [] \<and> cr_detail m = [] then m\<lparr>cr_detail := cr_detail p\<rparr> else m
       else if cr_outcome p = PO_UNKNOWN_INCOMPLETE_EVIDENCE \<and> cr_outcome m2 \<noteq> PO_NOT_DIVERSE
       then m2\<lparr>cr_outcome := PO_UNKNOWN_INCOMPLETE_EVIDENCE\<rparr> else m2)"
    by (simp only: merge_relation_def m1_def m2_def Let_def)
  show "cr_klass (merge_relation m p r) = cr_klass r"
    "cr_evidence_complete (merge_relation m p r) \<longleftrightarrow> cr_evidence_complete p \<and> cr_evidence_complete r"
    "cr_outcome (merge_relation m p r) =
     (if cr_outcome p = PO_NOT_DIVERSE then PO_NOT_DIVERSE
      else if cr_outcome p = PO_UNKNOWN_INCOMPLETE_EVIDENCE \<and> cr_outcome r \<noteq> PO_NOT_DIVERSE
      then PO_UNKNOWN_INCOMPLETE_EVIDENCE else cr_outcome r)"
    by (simp_all add: eq Let_def m1 m2)
  have "cr_shared (merge_relation m p r) = cr_shared m2"
    by (simp add: eq Let_def)
  also have "\<dots> = cr_shared (fold (add_shared m) (cr_shared p) r)"
    unfolding m2_def by (rule same) (rule m1)
  finally show "cr_shared (merge_relation m p r) = cr_shared (fold (add_shared m) (cr_shared p) r)" .
qed

definition merge_step :: "path_composition \<Rightarrow> path_composition \<Rightarrow> failure_domain_view \<Rightarrow> nat \<Rightarrow>
    domain_relation \<Rightarrow> class_result \<Rightarrow> class_result" where
  "merge_step l r view m relation merged =
     merge_relation m (fst (evaluate_domain_relation l r DC_FAILURE_DOMAIN_DISJOINT relation view m)) merged"

lemma fst_merge_fold:
  "fst (fold (failure_domain_step l r view m) rs st) = fold (merge_step l r view m) rs (fst st)"
  by (induction rs arbitrary: st) (simp_all add: merge_step_def failure_domain_step_def split_beta)

lemma merge_fold_known:
  "cr_klass (fold (merge_step l r view m) rs c) = cr_klass c"
  "cr_evidence_complete (fold (merge_step l r view m) rs c) \<longleftrightarrow>
     cr_evidence_complete c \<and> (\<forall>relation\<in>set rs. relation_known view relation l r)"
  by (induction rs arbitrary: c) (auto simp: merge_step_def merge_relation_simps relation_rule.eval_known)

lemma merge_fold_outcome:
  assumes "pc_sorted l" "pc_sorted r"
  shows "cr_outcome (fold (merge_step l r view m) rs c) =
     (if cr_outcome c = PO_NOT_DIVERSE \<or> (\<exists>relation\<in>set rs. shared_domains view relation l r \<noteq> {}) then PO_NOT_DIVERSE
      else if \<exists>relation\<in>set rs. \<not> relation_known view relation l r then PO_UNKNOWN_INCOMPLETE_EVIDENCE
      else cr_outcome c)"
  by (induction rs arbitrary: c)
     (auto simp: merge_step_def merge_relation_simps relation_rule.eval_outcome assms)

lemma merge_step_shared:
  "set (cr_shared (merge_step l r view m relation c)) \<subseteq> set (cr_shared c) \<union>
     set (cr_shared (fst (evaluate_domain_relation l r DC_FAILURE_DOMAIN_DISJOINT relation view m)))"
  "length (cr_shared c) \<le> m \<Longrightarrow> length (cr_shared (merge_step l r view m relation c)) \<le> m"
  using add_shared_fold_set [of m "\<lambda>x. x" _ c] add_shared_fold_length [of c m "\<lambda>x. x"]
  by (simp_all add: merge_step_def merge_relation_simps)

lemma merge_fold_shared:
  "set (cr_shared (fold (merge_step l r view m) rs c)) \<subseteq> set (cr_shared c) \<union>
     (\<Union>relation\<in>set rs. set (cr_shared (fst (evaluate_domain_relation l r DC_FAILURE_DOMAIN_DISJOINT relation view m))))"
proof (induction rs arbitrary: c)
  case (Cons relation rs)
  show ?case
    using Cons.IH [of "merge_step l r view m relation c"] merge_step_shared(1) [of l r view m relation c] by auto
qed simp

lemma merge_fold_length:
  "length (cr_shared c) \<le> m \<Longrightarrow> length (cr_shared (fold (merge_step l r view m) rs c)) \<le> m"
  by (induction rs arbitrary: c) (simp_all add: merge_step_shared(2))

lemma merge_fold_listed:
  assumes "0 < m" "pc_sorted l" "pc_sorted r"
    and "cr_shared c \<noteq> [] \<or> (\<exists>relation\<in>set rs. shared_domains view relation l r \<noteq> {})"
  shows "cr_shared (fold (merge_step l r view m) rs c) \<noteq> []"
  using assms(4)
proof (induction rs arbitrary: c)
  case (Cons relation rs)
  let ?p = "fst (evaluate_domain_relation l r DC_FAILURE_DOMAIN_DISJOINT relation view m)"
  have "cr_shared (merge_step l r view m relation c) \<noteq> []"
    if "cr_shared c \<noteq> [] \<or> shared_domains view relation l r \<noteq> {}"
    using that add_shared_fold_keeps [of m c "\<lambda>x. x" "cr_shared ?p"] add_shared_fold_listed [of m "cr_shared ?p" "\<lambda>x. x" c]
      relation_rule.eval_listed [of m l r view relation DC_FAILURE_DOMAIN_DISJOINT] assms(1-3)
    by (auto simp: merge_step_def merge_relation_simps)
  then show ?case using Cons.prems Cons.IH [of "merge_step l r view m relation c"] by auto
qed simp

lemma evaluate_failure_domain_class_shape:
  "dp_allowed_relations policy \<noteq> [] \<Longrightarrow>
     fst (evaluate_failure_domain_class l r policy view m) =
       (let merged = fold (merge_step l r view m) (dp_allowed_relations policy)
          ((start_result DC_FAILURE_DOMAIN_DISJOINT True)\<lparr>cr_outcome := PO_PROVEN_DIVERSE\<rparr>)
        in merged\<lparr>cr_shared := canonical_conflict_order (cr_shared merged)\<rparr>)"
  by (simp add: evaluate_failure_domain_class_def Let_def fst_merge_fold split_beta)

interpretation failure_domain_rule: class_rule "\<lambda>l r m. fst (evaluate_failure_domain_class l r policy view m)"
  DC_FAILURE_DOMAIN_DISJOINT
  "class_shares DC_FAILURE_DOMAIN_DISJOINT policy view" "class_known DC_FAILURE_DOMAIN_DISJOINT policy view"
  for policy view
proof
  fix l r m
  let ?start = "(start_result DC_FAILURE_DOMAIN_DISJOINT True)\<lparr>cr_outcome := PO_PROVEN_DIVERSE\<rparr>"
  let ?rs = "dp_allowed_relations policy"
  let ?e = "fst (evaluate_failure_domain_class l r policy view m)"
  have none: "?e = default_class_result\<lparr>cr_klass := DC_FAILURE_DOMAIN_DISJOINT, cr_evidence_complete := False,
              cr_outcome := PO_UNKNOWN_INCOMPLETE_EVIDENCE, cr_detail := msg_no_relations\<rparr>" if "?rs = []"
    using that by (simp add: evaluate_failure_domain_class_def)
  note some = evaluate_failure_domain_class_shape [of policy l r view m, unfolded Let_def]
  have listed: "set (cr_shared ?e) \<subseteq>
     (\<Union>relation\<in>set ?rs. set (cr_shared (fst (evaluate_domain_relation l r DC_FAILURE_DOMAIN_DISJOINT relation view m))))"
    using merge_fold_shared [of l r view m ?rs ?start]
    by (cases "?rs = []") (simp_all add: none some canonical_conflict_order_def default_class_result_def)
  show "cr_klass ?e = DC_FAILURE_DOMAIN_DISJOINT"
    by (cases "?rs = []") (simp_all add: none some merge_fold_known)
  show "cr_evidence_complete ?e = class_known DC_FAILURE_DOMAIN_DISJOINT policy view l r"
    by (cases "?rs = []") (simp_all add: none some merge_fold_known class_known_def)
  show "length (cr_shared ?e) \<le> m"
    using merge_fold_length [of ?start m l r view ?rs]
    by (cases "?rs = []") (simp_all add: none some canonical_conflict_order_def default_class_result_def)
  show "c \<in> set (cr_shared ?e) \<Longrightarrow> sr_paths c = [0, 1]" for c
    using listed relation_rule.eval_pair by blast
  show "class_shares DC_FAILURE_DOMAIN_DISJOINT policy view l r = class_shares DC_FAILURE_DOMAIN_DISJOINT policy view r l"
    by (simp add: class_shares_def shared_domains_sym [of view _ l r])
  show "class_known DC_FAILURE_DOMAIN_DISJOINT policy view l r = class_known DC_FAILURE_DOMAIN_DISJOINT policy view r l"
    by (simp add: class_known_def relation_known_sym [of view _ l r])
  assume sorted: "pc_sorted l" "pc_sorted r"
  show "cr_outcome ?e = (if class_shares DC_FAILURE_DOMAIN_DISJOINT policy view l r \<noteq> {} then PO_NOT_DIVERSE
      else if class_known DC_FAILURE_DOMAIN_DISJOINT policy view l r then PO_PROVEN_DIVERSE
      else PO_UNKNOWN_INCOMPLETE_EVIDENCE)"
    by (cases "?rs = []") (simp_all add: none some merge_fold_outcome [OF sorted] class_known_def class_shares_def)
  show "sr_id ` set (cr_shared ?e) \<subseteq> class_shares DC_FAILURE_DOMAIN_DISJOINT policy view l r"
  proof
    fix i
    assume "i \<in> sr_id ` set (cr_shared ?e)"
    then obtain relation where "relation \<in> set ?rs"
      "i \<in> sr_id ` set (cr_shared (fst (evaluate_domain_relation l r DC_FAILURE_DOMAIN_DISJOINT relation view m)))"
      using listed by blast
    then have "i \<in> shared_domains view relation l r"
      using relation_rule.eval_ids [OF sorted] by (meson subsetD)
    with \<open>relation \<in> set ?rs\<close> show "i \<in> class_shares DC_FAILURE_DOMAIN_DISJOINT policy view l r"
      by (auto simp: class_shares_def)
  qed
  show "0 < m \<Longrightarrow> class_shares DC_FAILURE_DOMAIN_DISJOINT policy view l r \<noteq> {} \<Longrightarrow> cr_shared ?e \<noteq> []"
    using merge_fold_listed [OF _ sorted, of m ?start ?rs view]
    by (cases "?rs = []") (auto simp: none some class_shares_def canonical_conflict_order_def)
qed


interpretation single_rule: class_rule "\<lambda>l r m. fst (evaluate_single_class klass l r policy view m)" klass
  "class_shares klass policy view" "class_known klass policy view" for klass policy view
proof (cases klass)
  case DC_LINK_DISJOINT
  then show "class_rule (\<lambda>l r m. fst (evaluate_single_class klass l r policy view m)) klass
      (class_shares klass policy view) (class_known klass policy view)"
    using link_rule.class_rule_axioms by (simp add: evaluate_single_class_def)
next
  case DC_TRANSIT_NODE_DISJOINT
  then show "class_rule (\<lambda>l r m. fst (evaluate_single_class klass l r policy view m)) klass
      (class_shares klass policy view) (class_known klass policy view)"
    using node_rule.class_rule_axioms by (simp add: evaluate_single_class_def)
next
  case DC_DEVICE_DISJOINT
  then show "class_rule (\<lambda>l r m. fst (evaluate_single_class klass l r policy view m)) klass
      (class_shares klass policy view) (class_known klass policy view)"
    using device_rule.class_rule_axioms by (simp add: evaluate_single_class_def)
next
  case DC_RACK_DISJOINT
  have e: "class_shares DC_RACK_DISJOINT policy view = shared_domains view DR_RACK"
    "class_known DC_RACK_DISJOINT policy view = relation_known view DR_RACK"
    by (simp_all add: fun_eq_iff class_shares_def class_known_def)
  from DC_RACK_DISJOINT show "class_rule (\<lambda>l r m. fst (evaluate_single_class klass l r policy view m)) klass
      (class_shares klass policy view) (class_known klass policy view)"
    using relation_rule.class_rule_axioms by (simp add: evaluate_single_class_def domain_evaluation_def e)
next
  case DC_POD_DISJOINT
  have e: "class_shares DC_POD_DISJOINT policy view = shared_domains view DR_POD"
    "class_known DC_POD_DISJOINT policy view = relation_known view DR_POD"
    by (simp_all add: fun_eq_iff class_shares_def class_known_def)
  from DC_POD_DISJOINT show "class_rule (\<lambda>l r m. fst (evaluate_single_class klass l r policy view m)) klass
      (class_shares klass policy view) (class_known klass policy view)"
    using relation_rule.class_rule_axioms by (simp add: evaluate_single_class_def domain_evaluation_def e)
next
  case DC_SITE_DISJOINT
  have e: "class_shares DC_SITE_DISJOINT policy view = shared_domains view DR_SITE"
    "class_known DC_SITE_DISJOINT policy view = relation_known view DR_SITE"
    by (simp_all add: fun_eq_iff class_shares_def class_known_def)
  from DC_SITE_DISJOINT show "class_rule (\<lambda>l r m. fst (evaluate_single_class klass l r policy view m)) klass
      (class_shares klass policy view) (class_known klass policy view)"
    using relation_rule.class_rule_axioms by (simp add: evaluate_single_class_def domain_evaluation_def e)
next
  case DC_FAILURE_DOMAIN_DISJOINT
  then show "class_rule (\<lambda>l r m. fst (evaluate_single_class klass l r policy view m)) klass
      (class_shares klass policy view) (class_known klass policy view)"
    using failure_domain_rule.class_rule_axioms by (simp add: evaluate_single_class_def domain_evaluation_def)
next
  case DC_SHARED_RISK_GROUP_DISJOINT
  then show "class_rule (\<lambda>l r m. fst (evaluate_single_class klass l r policy view m)) klass
      (class_shares klass policy view) (class_known klass policy view)"
    using srlg_rule.class_rule_axioms by (simp add: evaluate_single_class_def split_beta)
qed

section \<open>One pair\<close>

lemma fold_classify_step:
  "fst (fold (classify_step l r p view b) ks st) = fst st @ map (\<lambda>k. fst (evaluate_single_class k l r p view b)) ks"
  by (induction ks arbitrary: st) (simp_all add: classify_step_def split_beta)

definition advisory_classes :: "diversity_policy \<Rightarrow> diversity_class list" where
  "advisory_classes p = filter (\<lambda>k. k \<notin> set (dp_required_classes p)) diversity_class_values"

lemma classify_pair_results:
  assumes "in_domains inputs = Some view" "0 < m"
  shows "fst (classify_pair l r p inputs m) =
     map (\<lambda>k. fst (evaluate_single_class k l r (dp_canonicalize p) view m))
       (sort (dp_required_classes p) @ advisory_classes p)"
proof -
  have "(\<lambda>k. \<not> list_ex (\<lambda>required. required = k) (dp_required_classes (dp_canonicalize p))) =
      (\<lambda>k. k \<notin> set (dp_required_classes p))"
    by (auto simp: fun_eq_iff list_ex_iff dp_canonicalize_def)
  then show ?thesis
    using assms by (simp add: classify_pair_def Let_def fold_classify_step advisory_classes_def dp_canonicalize_def)
qed

text \<open>C13: The decision on one pair and one class is exactly the specification of the class: NOT_DIVERSE
  when the two paths share a resource of the class (after the endpoint exemption of the policy, over every
  declared relation), otherwise PROVEN_DIVERSE when the evidence of both paths is complete, otherwise
  UNKNOWN_INCOMPLETE_EVIDENCE. Missing evidence never proves disjointness.\<close>

theorem class_decision:
  assumes "pc_sorted l" "pc_sorted r"
  shows "cr_outcome (fst (evaluate_single_class klass l r policy view m)) =
      (if class_shares klass policy view l r \<noteq> {} then PO_NOT_DIVERSE
       else if class_known klass policy view l r then PO_PROVEN_DIVERSE
       else PO_UNKNOWN_INCOMPLETE_EVIDENCE)"
  using assms by (rule single_rule.eval_outcome)

text \<open>A pair decision is independent of the order of the pair, and a NOT_DIVERSE class always names at
  least one resource that both paths really use, within the configured bound.\<close>

theorem class_conflict_named:
  assumes "pc_sorted l" "pc_sorted r" "0 < m"
  shows "cr_outcome (fst (evaluate_single_class klass l r policy view m)) =
       cr_outcome (fst (evaluate_single_class klass r l policy view m)) \<and>
     (cr_outcome (fst (evaluate_single_class klass l r policy view m)) = PO_NOT_DIVERSE) =
       (\<exists>c\<in>set (cr_shared (fst (evaluate_single_class klass l r policy view m))). sr_id c \<in> class_shares klass policy view l r) \<and>
     sr_id ` set (cr_shared (fst (evaluate_single_class klass l r policy view m))) \<subseteq> class_shares klass policy view l r \<and>
     length (cr_shared (fst (evaluate_single_class klass l r policy view m))) \<le> m"
  by (intro conjI single_rule.outcome_sym single_rule.conflict_named single_rule.eval_ids
      single_rule.eval_bounded assms)

definition absent_domain_view :: failure_domain_view where
  "absent_domain_view =
     \<lparr>fv_generation = Generation 1, fv_domain_membership = \<lambda>_ _. default_domain_evidence,
      fv_srlg_membership = \<lambda>_. default_srlg_evidence\<rparr>"

lemma class_decision_witness:
  "cr_outcome (fst (evaluate_single_class DC_LINK_DISJOINT
      (default_path_composition\<lparr>pc_links := [StringId ''a'', StringId ''b'']\<rparr>)
      (default_path_composition\<lparr>pc_links := [StringId ''b'']\<rparr>) default_policy absent_domain_view 4)) = PO_NOT_DIVERSE"
  by (subst class_decision)
     (simp_all add: pc_sorted_def default_path_composition_def class_shares_def less_eq_string_id_def)

lemma class_conflict_named_witness:
  "length (cr_shared (fst (evaluate_single_class DC_RACK_DISJOINT
      (default_path_composition\<lparr>pc_links := [StringId ''a'']\<rparr>)
      (default_path_composition\<lparr>pc_links := [StringId ''b'']\<rparr>) default_policy absent_domain_view 4))) \<le> 4"
  using class_conflict_named [of "default_path_composition\<lparr>pc_links := [StringId ''a'']\<rparr>"
      "default_path_composition\<lparr>pc_links := [StringId ''b'']\<rparr>" 4 DC_RACK_DISJOINT default_policy absent_domain_view]
  by (simp add: pc_sorted_def default_path_composition_def)

text \<open>
  The merged FAILURE_DOMAIN_DISJOINT result counts the conflicts of the bounded partial lists: with a
  bound of one and two shared domains under one relation it reports a total of one.
\<close>

definition two_domain_view :: failure_domain_view where
  "two_domain_view =
     \<lparr>fv_generation = Generation 1,
      fv_domain_membership = \<lambda>_ _. \<lparr>de_coverage = EV_COMPLETE, de_generation = Generation 1,
        de_domains = [StringId ''x'', StringId ''y'']\<rparr>,
      fv_srlg_membership = \<lambda>_. default_srlg_evidence\<rparr>"

lemma merged_total_undercounts:
  "class_shares DC_FAILURE_DOMAIN_DISJOINT (default_policy\<lparr>dp_allowed_relations := [DR_RACK]\<rparr>) two_domain_view
      (default_path_composition\<lparr>pc_links := [StringId ''a'']\<rparr>)
      (default_path_composition\<lparr>pc_links := [StringId ''b'']\<rparr>) = {''x'', ''y''} \<and>
   cr_shared_total (fst (evaluate_single_class DC_FAILURE_DOMAIN_DISJOINT
      (default_path_composition\<lparr>pc_links := [StringId ''a'']\<rparr>)
      (default_path_composition\<lparr>pc_links := [StringId ''b'']\<rparr>)
      (default_policy\<lparr>dp_allowed_relations := [DR_RACK]\<rparr>) two_domain_view 1)) = 1"
  by (auto simp: class_shares_def shared_domains_def domain_members_def two_domain_view_def path_entities_def
      default_path_composition_def default_policy_def evaluate_single_class_def domain_evaluation_def
      evaluate_failure_domain_class_def failure_domain_step_def evaluate_domain_relation_def
      collect_domain_membership_def collect_domain_entity_def count_member_def add_shared_def Let_def
      conclude_class_def start_result_def default_class_result_def merge_relation_def less_string_id_def
      canonical_conflict_order_def make_conflict_def split_beta)

end
