(* ===== verification/EvaluateGraph.thy ===== *)
theory EvaluateGraph
  imports ClassRules
begin

text \<open>
  The conflict graph and the exact maximum independent set (\<open>src/evaluate_graph.cpp\<close>,
  \<open>include/path_diversity/evaluate.hpp\<close>): adjacency from the pairwise matrix, the memoised branching
  cardinality over 64-bit candidate masks, the greedy witness, the exhaustive cross-check, witness
  verification and the aggregation of class results over pairs.

  The memo table is a map passed through the recursion. Vertex counts and indices are natural numbers;
  candidate sets are 64-bit words as in the code. \<open>IndependentSet\<close> proves the algorithms right.
\<close>

section \<open>Cells and classes\<close>

definition is_required :: "diversity_policy \<Rightarrow> diversity_class \<Rightarrow> bool" where
  "is_required p klass = list_ex (\<lambda>required. required = klass) (dp_required_classes p)"

definition remap_conflict :: "nat \<Rightarrow> nat \<Rightarrow> shared_resource \<Rightarrow> shared_resource" where
  "remap_conflict left right c = SharedResource (sr_kind c) (sr_relation c) (sr_id c) [left, right]"

definition remap_cell :: "nat \<Rightarrow> nat \<Rightarrow> class_result list \<Rightarrow> class_result list" where
  "remap_cell left right classes =
     map (\<lambda>r. r\<lparr>cr_shared := canonical_conflict_order (map (remap_conflict left right) (cr_shared r))\<rparr>) classes"

definition cell_has_conflict :: "pairwise_cell \<Rightarrow> bool" where
  "cell_has_conflict cell = list_ex (\<lambda>r. cr_outcome r = PO_NOT_DIVERSE) (cell_classes cell)"

definition cell_fully_proven :: "pairwise_cell \<Rightarrow> bool" where
  "cell_fully_proven cell =
     (\<not> list_ex (\<lambda>r. cr_outcome r \<noteq> PO_PROVEN_DIVERSE \<or> \<not> cr_evidence_complete r) (cell_classes cell))"

section \<open>Conflict graph\<close>

record conflict_graph =
  cg_path_count :: nat
  cg_adjacent :: "u8 list"

definition edge :: "conflict_graph \<Rightarrow> nat \<Rightarrow> nat \<Rightarrow> bool" where
  "edge g i j =
     (if cg_path_count g \<le> i \<or> cg_path_count g \<le> j then False
      else cg_adjacent g ! (i * cg_path_count g + j) \<noteq> 0)"

definition edge_count :: "conflict_graph \<Rightarrow> u64" where
  "edge_count g =
     fold (\<lambda>i count. fold (\<lambda>j count. if edge g i j then count + 1 else count)
             [Suc i..<cg_path_count g] count) [0..<cg_path_count g] 0"

definition neighbours :: "conflict_graph \<Rightarrow> nat \<Rightarrow> nat list" where
  "neighbours g vertex = filter (edge g vertex) [0..<cg_path_count g]"

text \<open>The symmetric graph the solver runs on: one store per direction for each conflicting pair.\<close>

definition cell_conflict :: "pairwise_matrix \<Rightarrow> bool \<Rightarrow> nat \<Rightarrow> nat \<Rightarrow> bool" where
  "cell_conflict m known_conflict_only i j =
     (case matrix_at m i j of
        None \<Rightarrow> False
      | Some cell \<Rightarrow> if known_conflict_only then cell_has_conflict cell else \<not> cell_independent cell)"

definition connect :: "nat \<Rightarrow> nat \<Rightarrow> nat \<Rightarrow> u8 list \<Rightarrow> u8 list" where
  "connect n i j adj = (adj[i * n + j := 1])[j * n + i := 1]"

definition graph_from_matrix :: "pairwise_matrix \<Rightarrow> bool \<Rightarrow> conflict_graph" where
  "graph_from_matrix m known_conflict_only =
     (let n = length (pm_order m)
      in \<lparr>cg_path_count = n,
          cg_adjacent =
            fold (\<lambda>i adj. fold (\<lambda>j adj. if cell_conflict m known_conflict_only i j
                                         then connect n i j adj else adj) [Suc i..<n] adj)
              [0..<n] (replicate (n * n) 0)\<rparr>)"

definition build_conflict_graph :: "pairwise_matrix \<Rightarrow> conflict_graph" where
  "build_conflict_graph m =
     (let n = length (pm_order m)
      in \<lparr>cg_path_count = n,
          cg_adjacent =
            fold (\<lambda>i adj. fold (\<lambda>j adj.
                if i = j then adj
                else case matrix_at m i j of
                  Some cell \<Rightarrow> if \<not> cell_independent cell then adj[i * n + j := 1] else adj
                | None \<Rightarrow> adj) [0..<n] adj)
              [0..<n] (replicate (n * n) 0)\<rparr>)"

section \<open>Maximum independent set\<close>

definition vertex_bit :: "nat \<Rightarrow> u64" where
  "vertex_bit v = push_bit v 1"

definition neighbour_mask :: "conflict_graph \<Rightarrow> nat \<Rightarrow> u64" where
  "neighbour_mask g vertex =
     fold (\<lambda>other m. if edge g vertex other then m OR vertex_bit other else m) [0..<cg_path_count g] 0"

definition has_vertex :: "u64 \<Rightarrow> nat \<Rightarrow> bool" where
  "has_vertex candidates vertex \<longleftrightarrow> drop_bit vertex candidates AND 1 \<noteq> 0"

text \<open>
  The search for the lowest candidate: it stops for every non-empty mask before the shift reaches
  the width of the word.
\<close>

function lowest_from :: "u64 \<Rightarrow> nat \<Rightarrow> nat" where
  "lowest_from candidates vertex =
     (if 64 \<le> vertex then vertex
      else if \<not> has_vertex candidates vertex then lowest_from candidates (vertex + 1) else vertex)"
  by pat_completeness auto
termination
  by (relation "measure (\<lambda>(c, v). 64 - v)") auto

declare lowest_from.simps [simp del]

definition without_vertex :: "u64 \<Rightarrow> nat \<Rightarrow> u64" where
  "without_vertex candidates vertex = candidates AND NOT (vertex_bit vertex)"

definition rest_after :: "conflict_graph \<Rightarrow> u64 \<Rightarrow> nat \<Rightarrow> u64" where
  "rest_after g candidates vertex =
     (candidates AND NOT (neighbour_mask g vertex)) AND NOT (vertex_bit vertex)"

type_synonym memo = "u64 \<Rightarrow> nat option"

definition memo_emplace :: "u64 \<Rightarrow> nat \<Rightarrow> memo \<Rightarrow> memo" where
  "memo_emplace k v m = (case m k of None \<Rightarrow> m(k \<mapsto> v) | Some _ \<Rightarrow> m)"

lemma has_vertex_bit [simp]: "has_vertex c v \<longleftrightarrow> bit c v"
  by (simp add: has_vertex_def and_one_eq bit_iff_odd_drop_bit even_iff_mod_2_eq_zero)

lemma bit_vertex_bit: "bit (vertex_bit v) n \<longleftrightarrow> n = v \<and> v < 64"
  by (auto simp: vertex_bit_def bit_simps)

lemma bit_without_vertex: "bit (without_vertex c v) n \<longleftrightarrow> bit c n \<and> n \<noteq> v"
  using bit_imp_le_length [of c n]
  by (auto simp: without_vertex_def bit_and_iff bit_not_iff bit_vertex_bit)

lemma and_less:
  fixes c d :: u64
  assumes "bit c v" "\<not> bit d v" "\<And>n. bit d n \<Longrightarrow> bit c n"
  shows "unat d < unat c"
proof -
  have eq: "d = c AND d" using assms(3) by (intro bit_word_eqI) (auto simp: bit_and_iff)
  have "c AND d \<le> c" by (simp add: word_and_le1 word_and_le2)
  with eq have "d \<le> c" by simp
  moreover have "d \<noteq> c" using assms by auto
  ultimately show ?thesis by (simp add: word_less_nat_alt [symmetric])
qed

lemma word64_zero: "(\<forall>n<64. \<not> bit (c :: u64) n) \<Longrightarrow> c = 0"
  by (rule bit_word_eqI) auto

lemma lowest_from_bit:
  assumes "c \<noteq> 0"
  shows "bit c (lowest_from c 0)" "\<And>n. n < lowest_from c 0 \<Longrightarrow> \<not> bit c n"
proof -
  have "(\<forall>n<v. \<not> bit c n) \<Longrightarrow> v \<le> 64 \<Longrightarrow> c \<noteq> 0 \<Longrightarrow>
      bit c (lowest_from c v) \<and> (\<forall>n<lowest_from c v. \<not> bit c n)" for v
  proof (induction c v rule: lowest_from.induct)
    case (1 c v)
    show ?case
    proof (cases "64 \<le> v")
      case True
      with "1.prems" have "v = 64" by simp
      with "1.prems" word64_zero [of c] show ?thesis by simp
    next
      case False
      show ?thesis
      proof (cases "bit c v")
        case True
        then have "lowest_from c v = v" using False by (simp add: lowest_from.simps)
        then show ?thesis using True "1.prems" by simp
      next
        case no: False
        then have "lowest_from c v = lowest_from c (v + 1)" using False by (simp add: lowest_from.simps [of c v])
        moreover have "\<forall>n<v + 1. \<not> bit c n" using "1.prems"(1) no by (auto simp: less_Suc_eq)
        ultimately show ?thesis using "1.IH" False no "1.prems" by simp
      qed
    qed
  qed
  from this [of 0] assms show "bit c (lowest_from c 0)" "\<And>n. n < lowest_from c 0 \<Longrightarrow> \<not> bit c n" by auto
qed

lemma without_vertex_less: "bit c v \<Longrightarrow> unat (without_vertex c v) < unat c"
  by (rule and_less [of _ v]) (auto simp: bit_without_vertex)

lemma bit_rest_after: "bit (rest_after g c v) n \<longleftrightarrow> bit c n \<and> \<not> bit (neighbour_mask g v) n \<and> n \<noteq> v"
  using bit_imp_le_length [of c n]
  by (auto simp: rest_after_def bit_and_iff bit_not_iff bit_vertex_bit)

lemma rest_after_less: "bit c v \<Longrightarrow> unat (rest_after g c v) < unat c"
  by (rule and_less [of _ v]) (auto simp: bit_rest_after)

function mis_cardinality :: "conflict_graph \<Rightarrow> u64 \<Rightarrow> memo \<Rightarrow> nat \<times> memo" where
  "mis_cardinality g candidates memo =
     (if candidates = 0 then (0, memo)
      else case memo candidates of
        Some found \<Rightarrow> (found, memo)
      | None \<Rightarrow>
        let vertex = lowest_from candidates 0 in
        case mis_cardinality g (without_vertex candidates vertex) memo of (excluded, memo) \<Rightarrow>
        case mis_cardinality g (rest_after g candidates vertex) memo of (below, memo) \<Rightarrow>
        let included = 1 + below;
            best = (if excluded < included then included else excluded)
        in (best, memo_emplace candidates best memo))"
  by pat_completeness auto
termination
  by (relation "measure (\<lambda>(g, c, m). unat c)")
     (auto simp: without_vertex_less rest_after_less lowest_from_bit)

declare mis_cardinality.simps [simp del]

text \<open>One pass of the greedy loop: the first vertex whose choice keeps the maximum.\<close>

fun witness_scan :: "conflict_graph \<Rightarrow> u64 \<Rightarrow> nat list \<Rightarrow> memo \<Rightarrow> (nat \<times> u64) option \<times> memo" where
  "witness_scan g candidates [] memo = (None, memo)"
| "witness_scan g candidates (vertex # vs) memo =
     (if \<not> has_vertex candidates vertex then witness_scan g candidates vs memo
      else let rest = rest_after g candidates vertex in
        case mis_cardinality g rest memo of (below, memo) \<Rightarrow>
        case mis_cardinality g candidates memo of (whole, memo) \<Rightarrow>
        if 1 + below = whole then (Some (vertex, rest), memo)
        else witness_scan g candidates vs memo)"

lemma witness_scan_rest:
  "witness_scan g c vs memo = (Some (v, rest), memo') \<Longrightarrow> v \<in> set vs \<and> bit c v \<and> rest = rest_after g c v"
  by (induction vs arbitrary: memo) (auto simp: Let_def split: if_splits prod.splits)

function witness_loop :: "conflict_graph \<Rightarrow> u64 \<Rightarrow> nat list \<Rightarrow> memo \<Rightarrow> nat list" where
  "witness_loop g candidates witness memo =
     (if candidates = 0 then witness
      else case witness_scan g candidates [0..<cg_path_count g] memo of
        (None, memo) \<Rightarrow> witness
      | (Some (vertex, rest), memo) \<Rightarrow> witness_loop g rest (witness @ [vertex]) memo)"
  by pat_completeness auto
termination
  by (relation "measure (\<lambda>(g, c, w, m). unat c)")
     (auto dest!: witness_scan_rest [OF sym] simp: rest_after_less)

declare witness_loop.simps [simp del]

definition all_vertices :: "nat \<Rightarrow> u64" where
  "all_vertices n = (if 64 \<le> n then - 1 else vertex_bit n - 1)"

definition mis_witness :: "conflict_graph \<Rightarrow> nat list" where
  "mis_witness g = witness_loop g (all_vertices (cg_path_count g)) [] Map.empty"

section \<open>Exhaustive cross-check\<close>

definition exhaustive_vertex :: "conflict_graph \<Rightarrow> nat \<Rightarrow> nat \<Rightarrow> bool \<times> nat list \<Rightarrow> bool \<times> nat list" where
  "exhaustive_vertex g members i st = (case st of (independent, candidate) \<Rightarrow>
     if \<not> independent then (independent, candidate)
     else if \<not> bit members i then (independent, candidate)
     else (\<not> list_ex (edge g i) candidate, candidate @ [i]))"

definition exhaustive_mask :: "conflict_graph \<Rightarrow> nat \<Rightarrow> nat list \<Rightarrow> nat list" where
  "exhaustive_mask g members best =
     (case fold (exhaustive_vertex g members) [0..<cg_path_count g] (True, []) of
        (independent, candidate) \<Rightarrow>
          if \<not> independent then best
          else if length best < length candidate then candidate else best)"

definition mis_exhaustive :: "conflict_graph \<Rightarrow> nat list" where
  "mis_exhaustive g = fold (exhaustive_mask g) [1..<2 ^ cg_path_count g] []"

definition sorted_indices_of :: "nat list \<Rightarrow> nat list" where
  "sorted_indices_of witness = sort witness"

definition verify_witness :: "pairwise_matrix \<Rightarrow> nat list \<Rightarrow> bool" where
  "verify_witness m indices =
     list_all (\<lambda>i. indices ! i < length (pm_order m) \<and>
        list_all (\<lambda>j. indices ! i \<noteq> indices ! j \<and>
            (case matrix_at m (indices ! i) (indices ! j) of
               None \<Rightarrow> False
             | Some cell \<Rightarrow> cell_independent cell \<and> cell_evidence_complete cell))
          [Suc i..<length indices]) [0..<length indices]"

text \<open>The witness the solver settles on and whether the two computations agree.\<close>

definition solve_certain :: "conflict_graph \<Rightarrow> nat \<Rightarrow> nat list \<times> bool" where
  "solve_certain g path_count =
     (let witness = sorted_indices_of (mis_witness g)
      in if path_count \<le> 16
         then let brute = sorted_indices_of (mis_exhaustive g)
              in if length brute \<noteq> length witness
                 then (if length witness < length brute then brute else witness, False)
                 else (witness, True)
         else (witness, True))"

definition maximum_independent_subset :: "pairwise_matrix \<Rightarrow> nat \<Rightarrow> limits \<Rightarrow> witness_subset option" where
  "maximum_independent_subset m requested_k l =
     (let path_count = length (pm_order m)
      in if max_k_subset_paths l < path_count \<or> 32 < path_count then None
         else case solve_certain (graph_from_matrix m False) path_count of (witness, exact) \<Rightarrow>
           Some \<lparr>ws_present = True, ws_requested_k = requested_k, ws_indices = witness,
                 ws_achieved = length witness, ws_maximum_exact = exact\<rparr>)"

section \<open>Aggregation over pairs\<close>

definition aggregate_step :: "nat \<Rightarrow> class_result \<Rightarrow> class_result \<Rightarrow> class_result" where
  "aggregate_step max_shared source out =
     (let out = (if \<not> cr_evidence_complete source
                 then let o' = out\<lparr>cr_evidence_complete := False\<rparr>
                      in if cr_detail o' = [] then o'\<lparr>cr_detail := cr_detail source\<rparr> else o'
                 else out);
          out = out\<lparr>cr_shared_total := cr_shared_total out + cr_shared_total source\<rparr>;
          out = out\<lparr>cr_shared := fold (\<lambda>c shared. if length shared < max_shared then shared @ [c] else shared)
                                  (cr_shared source) (cr_shared out)\<rparr>
      in if cr_outcome source = PO_NOT_DIVERSE
         then let o' = out\<lparr>cr_outcome := PO_NOT_DIVERSE\<rparr>
              in if cr_detail o' = [] then o'\<lparr>cr_detail := cr_detail source\<rparr> else o'
         else if cr_outcome source = PO_UNKNOWN_INCOMPLETE_EVIDENCE \<and> cr_outcome out \<noteq> PO_NOT_DIVERSE
         then let o' = out\<lparr>cr_outcome := PO_UNKNOWN_INCOMPLETE_EVIDENCE\<rparr>
              in if cr_detail o' = [] then o'\<lparr>cr_detail := cr_detail source\<rparr> else o'
         else out)"

definition aggregate_class :: "class_result list \<Rightarrow> diversity_class \<Rightarrow> nat \<Rightarrow> class_result" where
  "aggregate_class sources klass max_shared =
     (let out = fold (aggregate_step max_shared) sources
                  (default_class_result\<lparr>cr_klass := klass, cr_outcome := PO_PROVEN_DIVERSE,
                     cr_evidence_complete := True\<rparr>)
      in out\<lparr>cr_shared := canonical_conflict_order (cr_shared out)\<rparr>)"

definition gather :: "pairwise_cell list \<Rightarrow> diversity_class \<Rightarrow> class_result list" where
  "gather cells klass =
     List.map_filter (\<lambda>cell. find (\<lambda>r. cr_klass r = klass) (cell_classes cell)) cells"

end
