(* ===== verification/IndependentSet.thy ===== *)
theory IndependentSet
  imports EvaluateGraph
begin

text \<open>
  Correctness of the maximum independent set computations of \<open>EvaluateGraph\<close>. Independence and
  the independence number are stated for a relation on vertices; the locale \<open>undirected\<close> holds the
  recurrence and the greedy-choice lemmas, interpreted on the adjacency of every graph built from a
  pairwise matrix. The memo table is sound, the greedy witness is the lexicographically smallest
  maximum independent set, and the exhaustive enumeration reaches the same size.
\<close>

section \<open>Independent sets\<close>

definition indep :: "(nat \<Rightarrow> nat \<Rightarrow> bool) \<Rightarrow> nat set \<Rightarrow> bool" where
  "indep E S \<longleftrightarrow> (\<forall>i\<in>S. \<forall>j\<in>S. i \<noteq> j \<longrightarrow> \<not> E i j)"

definition alpha :: "(nat \<Rightarrow> nat \<Rightarrow> bool) \<Rightarrow> nat set \<Rightarrow> nat" where
  "alpha E S = Max (card ` {T. T \<subseteq> S \<and> indep E T})"

definition maximum_indep :: "(nat \<Rightarrow> nat \<Rightarrow> bool) \<Rightarrow> nat set \<Rightarrow> nat set \<Rightarrow> bool" where
  "maximum_indep E S T \<longleftrightarrow> T \<subseteq> S \<and> indep E T \<and> card T = alpha E S"

text \<open>What is left to choose from after taking \<open>v\<close>.\<close>

definition after :: "(nat \<Rightarrow> nat \<Rightarrow> bool) \<Rightarrow> nat set \<Rightarrow> nat \<Rightarrow> nat set" where
  "after E S v = {u \<in> S. u \<noteq> v \<and> \<not> E v u}"

lemma indep_empty [simp]: "indep E {}"
  by (simp add: indep_def)

lemma indep_subset: "indep E T \<Longrightarrow> S \<subseteq> T \<Longrightarrow> indep E S"
  by (auto simp: indep_def)

lemma alpha_attained: "finite S \<Longrightarrow> \<exists>T. maximum_indep E S T"
proof -
  assume fin: "finite S"
  then have "finite {T. T \<subseteq> S \<and> indep E T}" by simp
  moreover have "{} \<in> {T. T \<subseteq> S \<and> indep E T}" by simp
  ultimately have "alpha E S \<in> card ` {T. T \<subseteq> S \<and> indep E T}"
    unfolding alpha_def by (intro Max_in) auto
  then show ?thesis by (auto simp: maximum_indep_def)
qed

lemma alpha_ge: "finite S \<Longrightarrow> T \<subseteq> S \<Longrightarrow> indep E T \<Longrightarrow> card T \<le> alpha E S"
  unfolding alpha_def by (intro Max_ge) auto

lemma alpha_empty [simp]: "alpha E {} = 0"
  using alpha_attained [of "{}" E] by (auto simp: maximum_indep_def)

lemma alpha_mono: "finite S \<Longrightarrow> R \<subseteq> S \<Longrightarrow> alpha E R \<le> alpha E S"
  using alpha_attained [of R E] by (metis alpha_ge finite_subset maximum_indep_def subset_trans)

lemma after_subset: "after E S v \<subseteq> S"
  by (auto simp: after_def)

lemma finite_after [simp]: "finite S \<Longrightarrow> finite (after E S v)"
  by (rule finite_subset [OF after_subset])

lemma maximum_indepD:
  assumes "maximum_indep E S T"
  shows "T \<subseteq> S" "indep E T" "card T = alpha E S" "finite S \<Longrightarrow> finite T"
  using assms by (auto simp: maximum_indep_def intro: finite_subset)

text \<open>The least witness: the lexicographically smallest ascending list of a maximum independent set.\<close>

definition least_witness :: "(nat \<Rightarrow> nat \<Rightarrow> bool) \<Rightarrow> nat set \<Rightarrow> nat list \<Rightarrow> bool" where
  "least_witness E S W \<longleftrightarrow> sorted_wrt (<) W \<and> maximum_indep E S (set W) \<and>
     (\<forall>T. sorted_wrt (<) T \<and> maximum_indep E S (set T) \<longrightarrow> W \<le> T)"

lemma least_witness_empty: "least_witness E {} []"
  by (auto simp: least_witness_def maximum_indep_def)

locale undirected =
  fixes E :: "nat \<Rightarrow> nat \<Rightarrow> bool"
  assumes sym: "E i j \<longleftrightarrow> E j i"
begin

lemma indep_ordered: "indep E S \<longleftrightarrow> (\<forall>i\<in>S. \<forall>j\<in>S. i < j \<longrightarrow> \<not> E i j)"
proof
  assume ordered: "\<forall>i\<in>S. \<forall>j\<in>S. i < j \<longrightarrow> \<not> E i j"
  have "\<not> E i j" if "i \<in> S" "j \<in> S" "i \<noteq> j" for i j
    using ordered that sym [of i j] by (cases i j rule: linorder_cases) auto
  then show "indep E S" by (simp add: indep_def)
qed (auto simp: indep_def)

lemma indep_insert: "T \<subseteq> after E S v \<Longrightarrow> indep E T \<Longrightarrow> indep E (insert v T)"
  using sym by (auto simp: indep_def after_def)

lemma indep_rest: "indep E T \<Longrightarrow> v \<in> T \<Longrightarrow> T \<subseteq> S \<Longrightarrow> T - {v} \<subseteq> after E S v"
  by (auto simp: indep_def after_def)

lemma maximum_after_insert:
  assumes "finite S" "v \<in> S" "maximum_indep E (after E S v) T"
  shows "insert v T \<subseteq> S" "v \<notin> T" "indep E (insert v T)" "card (insert v T) = Suc (alpha E (after E S v))"
proof -
  note T = maximum_indepD [OF assms(3)]
  show sub: "insert v T \<subseteq> S" "v \<notin> T" using T(1) assms(2) by (auto simp: after_def)
  show "indep E (insert v T)" by (rule indep_insert [OF T(1,2)])
  show "card (insert v T) = Suc (alpha E (after E S v))"
    using T(3,4) sub assms(1) by simp
qed

lemma included_le:
  assumes "finite S" "v \<in> S"
  shows "Suc (alpha E (after E S v)) \<le> alpha E S"
proof -
  obtain T where T: "maximum_indep E (after E S v) T"
    using alpha_attained [of "after E S v"] assms(1) by auto
  note insert = maximum_after_insert [OF assms T]
  show ?thesis using alpha_ge [OF assms(1) insert(1,3)] insert(4) by simp
qed

text \<open>A vertex belongs to some maximum independent set exactly when taking it loses nothing.\<close>

lemma in_maximum_iff:
  assumes "finite S" "v \<in> S"
  shows "Suc (alpha E (after E S v)) = alpha E S \<longleftrightarrow> (\<exists>T. maximum_indep E S T \<and> v \<in> T)"
proof
  assume eq: "Suc (alpha E (after E S v)) = alpha E S"
  obtain T where T: "maximum_indep E (after E S v) T"
    using alpha_attained [of "after E S v"] assms(1) by auto
  have "maximum_indep E S (insert v T)"
    using maximum_after_insert [OF assms T] eq by (simp add: maximum_indep_def)
  then show "\<exists>T. maximum_indep E S T \<and> v \<in> T" by blast
next
  assume "\<exists>T. maximum_indep E S T \<and> v \<in> T"
  then obtain T where "maximum_indep E S T" and v: "v \<in> T" by blast
  note T = maximum_indepD [OF \<open>maximum_indep E S T\<close>]
  have "T - {v} \<subseteq> after E S v" by (rule indep_rest [OF T(2) v T(1)])
  moreover have "indep E (T - {v})" by (rule indep_subset [OF T(2)]) blast
  ultimately have "card (T - {v}) \<le> alpha E (after E S v)"
    using assms(1) by (intro alpha_ge) simp_all
  moreover have "Suc (card (T - {v})) = alpha E S"
    unfolding T(3) [symmetric] by (rule card_Suc_Diff1) (use T(4) v assms(1) in auto)
  ultimately show "Suc (alpha E (after E S v)) = alpha E S"
    using included_le [OF assms] by simp
qed

lemma alpha_rec:
  assumes "finite S" "v \<in> S"
  shows "alpha E S = max (alpha E (S - {v})) (Suc (alpha E (after E S v)))"
proof -
  obtain T where T: "maximum_indep E S T" using alpha_attained [OF assms(1)] by blast
  show ?thesis
  proof (cases "v \<in> T")
    case True
    then have "Suc (alpha E (after E S v)) = alpha E S" using T in_maximum_iff [OF assms] by blast
    then show ?thesis using alpha_mono [OF assms(1), of "S - {v}" E] by auto
  next
    case False
    then have "alpha E S \<le> alpha E (S - {v})"
      using T assms(1) alpha_ge [of "S - {v}" T E] by (auto simp: maximum_indep_def)
    then show ?thesis
      using alpha_mono [OF assms(1), of "S - {v}" E] included_le [OF assms] by auto
  qed
qed

text \<open>Greedy choice: the least vertex of any maximum independent set starts the least witness.\<close>

lemma maximum_indep_after:
  assumes "finite S" "v \<in> S" "Suc (alpha E (after E S v)) = alpha E S"
  shows "v \<notin> T \<Longrightarrow> maximum_indep E (after E S v) T \<Longrightarrow> maximum_indep E S (insert v T)"
    and "v \<notin> T \<Longrightarrow> maximum_indep E S (insert v T) \<Longrightarrow> maximum_indep E (after E S v) T"
proof -
  assume v: "v \<notin> T" and T: "maximum_indep E (after E S v) T"
  show "maximum_indep E S (insert v T)"
    using maximum_after_insert [OF assms(1,2) T] assms(3) by (simp add: maximum_indep_def)
next
  assume v: "v \<notin> T" and max: "maximum_indep E S (insert v T)"
  note T = maximum_indepD [OF max]
  have "T \<subseteq> after E S v" using v indep_rest [OF T(2) _ T(1), of v] by simp
  moreover have "indep E T" by (rule indep_subset [OF T(2)]) blast
  moreover have "card T = alpha E (after E S v)" using T(3,4) v assms(1,3) by simp
  ultimately show "maximum_indep E (after E S v) T" by (simp add: maximum_indep_def)
qed

lemma least_witness_step:
  assumes "finite S" "v \<in> S" "Suc (alpha E (after E S v)) = alpha E S"
    and least: "\<And>u. u \<in> S \<Longrightarrow> u < v \<Longrightarrow> Suc (alpha E (after E S u)) \<noteq> alpha E S"
    and W: "least_witness E (after E S v) W"
  shows "least_witness E S (v # W)"
proof -
  have lower: "v \<le> u" if "maximum_indep E S T" "u \<in> T" for T u
  proof (rule ccontr)
    assume "\<not> v \<le> u"
    moreover have "u \<in> S" using that by (auto simp: maximum_indep_def)
    ultimately show False
      using that least [of u] in_maximum_iff [OF assms(1), of u] by auto
  qed
  have vW: "v \<notin> set W" using W by (auto simp: least_witness_def maximum_indep_def after_def)
  have max: "maximum_indep E S (set (v # W))"
    using W vW maximum_indep_after(1) [OF assms(1-3)] by (simp add: least_witness_def)
  have sorted: "sorted_wrt (<) (v # W)"
    using W vW lower [OF max] by (auto simp: least_witness_def order_less_le)
  have "v # W \<le> T" if T: "sorted_wrt (<) T" "maximum_indep E S (set T)" for T
  proof (cases T)
    case Nil
    then have "alpha E S = 0" using T by (simp add: maximum_indep_def)
    then show ?thesis using assms(3) by simp
  next
    case (Cons t ts)
    have "v \<le> t" using lower [OF T(2)] Cons by simp
    moreover have "W \<le> ts" if "t = v"
    proof -
      have "v \<notin> set ts" using T Cons that by auto
      then have "maximum_indep E (after E S v) (set ts)"
        using maximum_indep_after(2) [OF assms(1-3)] T Cons that by simp
      then show ?thesis using W T Cons by (simp add: least_witness_def)
    qed
    ultimately show ?thesis using Cons by auto
  qed
  then show ?thesis using sorted max by (simp add: least_witness_def)
qed

end


section \<open>Candidate masks\<close>

definition vertices :: "u64 \<Rightarrow> nat set" where
  "vertices c = {v. bit c v}"

lemma finite_vertices [simp]: "finite (vertices c)"
proof (rule finite_subset)
  show "vertices c \<subseteq> {..<64}" using bit_imp_le_length [of c] by (auto simp: vertices_def)
qed simp

lemma vertices_zero [simp]: "vertices 0 = {}"
  by (simp add: vertices_def)

lemma vertices_empty [simp]: "vertices c = {} \<longleftrightarrow> c = 0"
  using word64_zero [of c] by (auto simp: vertices_def)

definition small_graph :: "conflict_graph \<Rightarrow> bool" where
  "small_graph g \<longleftrightarrow> cg_path_count g \<le> 64"

lemma edge_bound: "edge g i j \<Longrightarrow> i < cg_path_count g \<and> j < cg_path_count g"
  by (auto simp: edge_def split: if_splits)

lemma bit_neighbour_mask:
  "small_graph g \<Longrightarrow> bit (neighbour_mask g v) n \<longleftrightarrow> edge g v n"
proof -
  assume small: "small_graph g"
  have "bit (fold (\<lambda>other m. if edge g v other then m OR vertex_bit other else m) os m) n \<longleftrightarrow>
      bit m n \<or> (n \<in> set os \<and> n < 64 \<and> edge g v n)" for os m
    by (induction os arbitrary: m) (auto simp: bit_or_iff bit_vertex_bit)
  then show ?thesis
    using small edge_bound [of g v n] by (auto simp: neighbour_mask_def small_graph_def)
qed

lemma vertices_rest_after: "small_graph g \<Longrightarrow> vertices (rest_after g c v) = after (edge g) (vertices c) v"
  by (auto simp: vertices_def after_def bit_rest_after bit_neighbour_mask)

lemma vertices_without: "vertices (without_vertex c v) = vertices c - {v}"
  by (auto simp: vertices_def bit_without_vertex)

lemma vertices_all: "n \<le> 64 \<Longrightarrow> vertices (all_vertices n) = {..<n}"
proof -
  assume n: "n \<le> 64"
  show ?thesis
  proof (cases "n = 64")
    case True
    then show ?thesis by (auto simp: vertices_def all_vertices_def dest: bit_imp_le_length)
  next
    case False
    have "vertex_bit n - 1 = (mask n :: u64)"
      by (simp add: vertex_bit_def mask_eq_exp_minus_1 push_bit_eq_mult)
    then show ?thesis using n False by (auto simp: vertices_def all_vertices_def bit_mask_iff)
  qed
qed

section \<open>The solver\<close>

text \<open>Every entry of the memo table is the independence number of its mask.\<close>

definition memo_ok :: "conflict_graph \<Rightarrow> memo \<Rightarrow> bool" where
  "memo_ok g m \<longleftrightarrow> (\<forall>c n. m c = Some n \<longrightarrow> n = alpha (edge g) (vertices c))"

definition symmetric_graph :: "conflict_graph \<Rightarrow> bool" where
  "symmetric_graph g \<longleftrightarrow> (\<forall>i j. edge g i j = edge g j i)"

lemma undirected_edge: "symmetric_graph g \<Longrightarrow> undirected (edge g)"
  by unfold_locales (simp add: symmetric_graph_def)

lemma memo_ok_emplace: "memo_ok g m \<Longrightarrow> n = alpha (edge g) (vertices c) \<Longrightarrow> memo_ok g (memo_emplace c n m)"
  by (auto simp: memo_ok_def memo_emplace_def split: option.splits)

lemma mis_cardinality_correct:
  assumes "symmetric_graph g" "small_graph g"
  shows "memo_ok g m \<Longrightarrow> fst (mis_cardinality g c m) = alpha (edge g) (vertices c) \<and> memo_ok g (snd (mis_cardinality g c m))"
  using assms
proof (induction g c m rule: mis_cardinality.induct)
  case (1 g c m)
  note alpha_rec = undirected.alpha_rec [OF undirected_edge [OF "1.prems"(2)]]
  show ?case
  proof (cases "c = 0")
    case True
    then show ?thesis using "1.prems"(1) by (simp add: mis_cardinality.simps)
  next
    case nonempty: False
    show ?thesis
    proof (cases "m c")
      case (Some found)
      then show ?thesis using nonempty "1.prems"(1) by (simp add: mis_cardinality.simps memo_ok_def)
    next
      case None
      define v where "v = lowest_from c 0"
      have v: "v \<in> vertices c" using lowest_from_bit(1) [OF nonempty] by (simp add: v_def vertices_def)
      obtain x m1 where X: "mis_cardinality g (without_vertex c v) m = (x, m1)" by fastforce
      obtain y m2 where Y: "mis_cardinality g (rest_after g c v) m1 = (y, m2)" by fastforce
      have x: "x = alpha (edge g) (vertices c - {v})" "memo_ok g m1"
        using "1.IH"(1) [OF nonempty None v_def "1.prems"] by (simp_all add: X vertices_without)
      have y: "y = alpha (edge g) (after (edge g) (vertices c) v)" "memo_ok g m2"
        using "1.IH"(2) [OF nonempty None v_def X [symmetric] x(2) "1.prems"(2,3)]
        by (simp_all add: Y vertices_rest_after "1.prems"(3))
      have best: "(if x < 1 + y then 1 + y else x) = alpha (edge g) (vertices c)"
        using alpha_rec [OF finite_vertices v] by (simp add: x(1) y(1))
      have "mis_cardinality g c m = (let best = (if x < 1 + y then 1 + y else x) in (best, memo_emplace c best m2))"
        using nonempty None X Y by (simp add: mis_cardinality.simps [of g c m] v_def [symmetric])
      then show ?thesis using best memo_ok_emplace [OF y(2)] by (simp add: Let_def)
    qed
  qed
qed

text \<open>Taking \<open>u\<close> from the candidates keeps the maximum.\<close>

definition keeps :: "conflict_graph \<Rightarrow> u64 \<Rightarrow> nat \<Rightarrow> bool" where
  "keeps g c u \<longleftrightarrow> u \<in> vertices c \<and>
     Suc (alpha (edge g) (after (edge g) (vertices c) u)) = alpha (edge g) (vertices c)"

definition scan_ok :: "conflict_graph \<Rightarrow> u64 \<Rightarrow> nat list \<Rightarrow> (nat \<times> u64) option \<Rightarrow> bool" where
  "scan_ok g c vs found = (case found of
      None \<Rightarrow> (\<forall>u\<in>set vs. \<not> keeps g c u)
    | Some (v, rest) \<Rightarrow> keeps g c v \<and> vertices rest = after (edge g) (vertices c) v \<and>
        (\<forall>u\<in>set vs. u < v \<longrightarrow> \<not> keeps g c u))"

lemma scan_ok_skip: "\<not> keeps g c v \<Longrightarrow> scan_ok g c vs found \<Longrightarrow> scan_ok g c (v # vs) found"
  by (auto simp: scan_ok_def split: option.splits)

lemma witness_scan_correct:
  assumes "symmetric_graph g" "small_graph g"
  shows "memo_ok g m \<Longrightarrow> sorted vs \<Longrightarrow>
    memo_ok g (snd (witness_scan g c vs m)) \<and> scan_ok g c vs (fst (witness_scan g c vs m))"
proof (induction vs arbitrary: m)
  case Nil
  then show ?case by (simp add: scan_ok_def)
next
  case (Cons v vs)
  show ?case
  proof (cases "bit c v")
    case False
    then have "\<not> keeps g c v" by (simp add: keeps_def vertices_def)
    then show ?thesis using False Cons scan_ok_skip by simp
  next
    case True
    obtain y m1 where Y: "mis_cardinality g (rest_after g c v) m = (y, m1)" by fastforce
    obtain x m2 where X: "mis_cardinality g c m1 = (x, m2)" by fastforce
    have y: "y = alpha (edge g) (after (edge g) (vertices c) v)" "memo_ok g m1"
      using mis_cardinality_correct [OF assms Cons.prems(1), of "rest_after g c v"]
      by (simp_all add: Y vertices_rest_after assms(2))
    have x: "x = alpha (edge g) (vertices c)" "memo_ok g m2"
      using mis_cardinality_correct [OF assms y(2), of c] by (simp_all add: X)
    have keeps: "keeps g c v \<longleftrightarrow> 1 + y = x"
      using True by (simp add: keeps_def x y vertices_def)
    show ?thesis
    proof (cases "1 + y = x")
      case True
      have "scan_ok g c (v # vs) (Some (v, rest_after g c v))"
        using keeps True Cons.prems(2) by (auto simp: scan_ok_def vertices_rest_after assms(2))
      then show ?thesis using \<open>bit c v\<close> X Y x(2) True by simp
    next
      case False
      then show ?thesis using \<open>bit c v\<close> X Y x(2) keeps Cons.IH [of m2] Cons.prems(2) scan_ok_skip by simp
    qed
  qed
qed

lemma witness_loop_correct:
  assumes "symmetric_graph g" "small_graph g"
  shows "memo_ok g m \<Longrightarrow> vertices c \<subseteq> {..<cg_path_count g} \<Longrightarrow>
    \<exists>W. witness_loop g c w m = w @ W \<and> least_witness (edge g) (vertices c) W"
  using assms
proof (induction g c w m rule: witness_loop.induct)
  case (1 g c w m)
  note graph = undirected_edge [OF "1.prems"(3)]
  note included_le = undirected.included_le [OF graph]
    and in_maximum_iff = undirected.in_maximum_iff [OF graph]
    and least_witness_step = undirected.least_witness_step [OF graph]
  show ?case
  proof (cases "c = 0")
    case True
    then have "witness_loop g c w m = w @ []" by (subst witness_loop.simps) simp
    then show ?thesis using True least_witness_empty vertices_zero by metis
  next
    case nonempty: False
    have scan: "memo_ok g (snd (witness_scan g c [0..<cg_path_count g] m))"
      "scan_ok g c [0..<cg_path_count g] (fst (witness_scan g c [0..<cg_path_count g] m))"
      using witness_scan_correct [OF "1.prems"(3,4,1), of "[0..<cg_path_count g]" c] by simp_all
    obtain T where T: "maximum_indep (edge g) (vertices c) T" using alpha_attained [of "vertices c"] by auto
    have "T \<noteq> {}"
    proof
      assume "T = {}"
      then have "alpha (edge g) (vertices c) = 0" using T by (simp add: maximum_indep_def)
      moreover obtain u where "u \<in> vertices c" using nonempty vertices_empty by blast
      ultimately show False using included_le [of "vertices c" u] by simp
    qed
    then obtain u where "u \<in> T" by blast
    then have u: "keeps g c u"
      using T in_maximum_iff [of "vertices c" u] by (auto simp: maximum_indep_def keeps_def)
    then have "u \<in> set [0..<cg_path_count g]" using "1.prems"(2) by (auto simp: keeps_def)
    with u obtain v rest m' where S: "witness_scan g c [0..<cg_path_count g] m = (Some (v, rest), m')"
      using scan(2) by (cases "witness_scan g c [0..<cg_path_count g] m")
        (auto simp: scan_ok_def split: option.splits)
    have v: "memo_ok g m'" "keeps g c v" "vertices rest = after (edge g) (vertices c) v"
      using scan by (simp_all add: S scan_ok_def)
    have least: "Suc (alpha (edge g) (after (edge g) (vertices c) w)) \<noteq> alpha (edge g) (vertices c)"
      if "w \<in> vertices c" "w < v" for w
      using scan(2) that "1.prems"(2) by (auto simp: S scan_ok_def keeps_def)
    have "vertices rest \<subseteq> {..<cg_path_count g}"
      using v(3) after_subset "1.prems"(2) by blast
    then obtain W where W: "witness_loop g rest (w @ [v]) m' = (w @ [v]) @ W"
      "least_witness (edge g) (vertices rest) W"
      using "1.IH" [OF nonempty S [symmetric] refl refl v(1) _ "1.prems"(3,4)] by auto
    have "witness_loop g c w m = w @ (v # W)"
      using nonempty S W(1) by (simp add: witness_loop.simps [of g c])
    moreover have "least_witness (edge g) (vertices c) (v # W)"
      using least_witness_step [OF finite_vertices _ _ least] W(2) v by (simp add: keeps_def)
    ultimately show ?thesis by blast
  qed
qed

lemma mis_witness_correct:
  assumes "symmetric_graph g" "small_graph g"
  shows "least_witness (edge g) {..<cg_path_count g} (mis_witness g)"
proof -
  have v: "vertices (all_vertices (cg_path_count g)) = {..<cg_path_count g}"
    using assms(2) by (intro vertices_all) (simp add: small_graph_def)
  show ?thesis
    using witness_loop_correct [OF assms, of Map.empty "all_vertices (cg_path_count g)" "[]"]
    by (auto simp: mis_witness_def v memo_ok_def)
qed


section \<open>The exhaustive cross-check\<close>

definition chosen :: "nat \<Rightarrow> nat \<Rightarrow> nat list" where
  "chosen n members = filter (bit members) [0..<n]"

lemma exhaustive_fold:
  assumes "symmetric_graph g"
  shows "(independent \<longrightarrow> indep (edge g) (set candidate)) \<Longrightarrow> distinct (candidate @ vs) \<Longrightarrow>
    (fst (fold (exhaustive_vertex g members) vs (independent, candidate)) \<longleftrightarrow>
       independent \<and> indep (edge g) (set candidate \<union> set (filter (bit members) vs))) \<and>
    (fst (fold (exhaustive_vertex g members) vs (independent, candidate)) \<longrightarrow>
       snd (fold (exhaustive_vertex g members) vs (independent, candidate)) = candidate @ filter (bit members) vs)"
proof (induction vs arbitrary: independent candidate)
  case Nil
  then show ?case by auto
next
  case (Cons v vs)
  have new: "indep (edge g) (set (candidate @ [v])) \<longleftrightarrow> \<not> list_ex (edge g v) candidate"
    if "indep (edge g) (set candidate)"
    using that Cons.prems(2) assms by (auto simp: indep_def list_ex_iff symmetric_graph_def)
  show ?case
  proof (cases "independent \<and> bit members v")
    case False
    then have "exhaustive_vertex g members v (independent, candidate) = (independent, candidate)"
      by (auto simp: exhaustive_vertex_def)
    moreover have "filter (bit members) (v # vs) = filter (bit members) vs \<or> \<not> independent"
      using False by auto
    ultimately show ?thesis using Cons.IH [of independent candidate] Cons.prems by auto
  next
    case True
    let ?i = "\<not> list_ex (edge g v) candidate"
    have step: "exhaustive_vertex g members v (independent, candidate) = (?i, candidate @ [v])"
      using True by (simp add: exhaustive_vertex_def)
    have ok: "?i \<longrightarrow> indep (edge g) (set (candidate @ [v]))" using new True Cons.prems(1) by blast
    have bad: "\<not> indep (edge g) (set candidate \<union> set (filter (bit members) (v # vs)))" if "\<not> ?i"
      using that True new Cons.prems(1) indep_subset [of "edge g" _ "set (candidate @ [v])"] by auto
    have same: "set (candidate @ [v]) \<union> set (filter (bit members) vs) =
        set candidate \<union> set (filter (bit members) (v # vs))" using True by auto
    have IH: "(fst (fold (exhaustive_vertex g members) vs (?i, candidate @ [v])) \<longleftrightarrow>
         ?i \<and> indep (edge g) (set candidate \<union> set (filter (bit members) (v # vs)))) \<and>
       (fst (fold (exhaustive_vertex g members) vs (?i, candidate @ [v])) \<longrightarrow>
         snd (fold (exhaustive_vertex g members) vs (?i, candidate @ [v])) = (candidate @ [v]) @ filter (bit members) vs)"
      unfolding same [symmetric] by (rule Cons.IH [OF ok]) (use Cons.prems(2) in auto)
    show ?thesis
    proof (cases ?i)
      case True
      then show ?thesis unfolding fold_simps step using IH \<open>independent \<and> bit members v\<close> by simp
    next
      case False
      then show ?thesis unfolding fold_simps step using IH bad by blast
    qed
  qed
qed

lemma exhaustive_mask_eq:
  assumes "symmetric_graph g"
  shows "exhaustive_mask g members best =
    (if indep (edge g) (set (chosen (cg_path_count g) members)) \<and> length best < length (chosen (cg_path_count g) members)
     then chosen (cg_path_count g) members else best)"
  using exhaustive_fold [OF assms, of True "[]" "[0..<cg_path_count g]" members]
  by (auto simp: exhaustive_mask_def chosen_def split_beta)

lemma exhaustive_masks:
  assumes "symmetric_graph g"
  defines "n \<equiv> cg_path_count g"
  shows "length best \<le> length (fold (exhaustive_mask g) ms best)"
    and "members \<in> set ms \<Longrightarrow> indep (edge g) (set (chosen n members)) \<Longrightarrow>
      length (chosen n members) \<le> length (fold (exhaustive_mask g) ms best)"
    and "fold (exhaustive_mask g) ms best = best \<or>
      (\<exists>members\<in>set ms. indep (edge g) (set (chosen n members)) \<and> fold (exhaustive_mask g) ms best = chosen n members)"
proof (induction ms arbitrary: best)
  case (Cons x ms)
  note step = exhaustive_mask_eq [OF assms(1), of x, folded n_def]
  { case 1 show ?case using Cons.IH(1) [of "exhaustive_mask g x best"] by (auto simp: step split: if_splits) }
  { case 2 then show ?case
      using Cons.IH(1) [of "exhaustive_mask g x best"] Cons.IH(2) [of "exhaustive_mask g x best"]
      by (auto simp: step split: if_splits) }
  { case 3 show ?case using Cons.IH(3) [of "exhaustive_mask g x best"] by (auto simp: step split: if_splits) }
qed simp_all

lemma mask_of_set:
  assumes "T \<subseteq> {..<n}"
  shows "\<exists>members::nat. members < 2 ^ n \<and> set (chosen n members) = T"
proof -
  define b where "b = (horner_sum of_bool 2 (map (\<lambda>i. i \<in> T) [0..<n]) :: nat)"
  have bits: "bit b i \<longleftrightarrow> i < n \<and> i \<in> T" for i
    by (auto simp: b_def bit_horner_sum_bit_iff)
  have "take_bit n b = b" by (rule bit_eqI) (auto simp: bit_take_bit_iff bits)
  then have "b < 2 ^ n" by (metis take_bit_nat_less_exp)
  moreover have "set (chosen n b) = T" using assms by (auto simp: chosen_def bits)
  ultimately show ?thesis by blast
qed

lemma mis_exhaustive_correct:
  assumes "symmetric_graph g"
  shows "maximum_indep (edge g) {..<cg_path_count g} (set (mis_exhaustive g))" "distinct (mis_exhaustive g)"
    "length (mis_exhaustive g) = alpha (edge g) {..<cg_path_count g}"
proof -
  let ?n = "cg_path_count g"
  note all = exhaustive_masks [OF assms, where ms = "[1..<2 ^ ?n]" and best = "[]", folded mis_exhaustive_def]
  have shape: "indep (edge g) (set (mis_exhaustive g))" "set (mis_exhaustive g) \<subseteq> {..<?n}" "distinct (mis_exhaustive g)"
    using all(3) by (auto simp: chosen_def)
  obtain T where T: "maximum_indep (edge g) {..<?n} T" using alpha_attained [of "{..<?n}"] by auto
  have "alpha (edge g) {..<?n} \<le> length (mis_exhaustive g)"
  proof (cases "T = {}")
    case True
    then show ?thesis using T by (simp add: maximum_indep_def)
  next
    case False
    obtain members where m: "members < 2 ^ ?n" "set (chosen ?n members) = T"
      using mask_of_set [of T ?n] T by (auto simp: maximum_indep_def)
    have "members \<noteq> 0" using m(2) False by (auto simp: chosen_def)
    then have "members \<in> set [1..<2 ^ ?n]" using m(1) by simp
    then have "length (chosen ?n members) \<le> length (mis_exhaustive g)"
      using all(2) m(2) T by (simp add: maximum_indep_def)
    moreover have "length (chosen ?n members) = card T"
      using m(2) distinct_card [of "chosen ?n members"] by (simp add: chosen_def)
    ultimately show ?thesis using T by (simp add: maximum_indep_def)
  qed
  moreover have "card (set (mis_exhaustive g)) \<le> alpha (edge g) {..<?n}"
    using shape by (intro alpha_ge) auto
  ultimately have eq: "length (mis_exhaustive g) = alpha (edge g) {..<?n}"
    using shape(3) by (simp add: distinct_card)
  then show "length (mis_exhaustive g) = alpha (edge g) {..<cg_path_count g}" .
  show "maximum_indep (edge g) {..<cg_path_count g} (set (mis_exhaustive g))" "distinct (mis_exhaustive g)"
    using shape eq by (auto simp: maximum_indep_def distinct_card)
qed

lemma solve_certain_correct:
  assumes "symmetric_graph g" "small_graph g"
  shows "solve_certain g n = (mis_witness g, True)"
proof -
  have W: "least_witness (edge g) {..<cg_path_count g} (mis_witness g)"
    using assms by (rule mis_witness_correct)
  then have sorted: "sort (mis_witness g) = mis_witness g"
    by (simp add: least_witness_def sorted_wrt_less_iff sort_key_id_if_sorted)
  have "length (mis_witness g) = alpha (edge g) {..<cg_path_count g}"
    using W distinct_card [of "mis_witness g"] by (simp add: least_witness_def maximum_indep_def sorted_wrt_less_iff)
  then show ?thesis
    using mis_exhaustive_correct(3) [OF assms(1)]
    by (simp add: solve_certain_def sorted_indices_of_def Let_def sorted)
qed


section \<open>The graph of a matrix\<close>

lemma fold_pairs:
  "fold (\<lambda>i adj. fold (\<lambda>j adj. f i j adj) [Suc i..<n] adj) rows adj =
   fold (\<lambda>(i, j). f i j) (concat (map (row_pairs n) rows)) adj"
  by (induction rows arbitrary: adj) (simp_all add: row_pairs_def fold_map comp_def)

lemma cell_position:
  assumes "a < n" "b < n" "i < n" "j < (n :: nat)"
  shows "a * n + b = i * n + j \<longleftrightarrow> a = i \<and> b = j"
proof
  assume eq: "a * n + b = i * n + j"
  then have "(a * n + b) div n = (i * n + j) div n" "(a * n + b) mod n = (i * n + j) mod n" by simp_all
  then show "a = i \<and> b = j" using assms by simp
qed simp

lemma cell_position_less: "a < n \<Longrightarrow> b < n \<Longrightarrow> a * n + b < n * (n :: nat)"
proof -
  assume "a < n" "b < n"
  then have "a * n + b < Suc a * n" by simp
  also have "\<dots> \<le> n * n" using \<open>a < n\<close> by (intro mult_le_mono1) simp
  finally show ?thesis .
qed

lemma connect_pairs:
  assumes "length adj = n * n" "\<forall>(i, j)\<in>set ps. i < n \<and> j < n" "a < n" "b < n"
  shows "length (fold (\<lambda>(i, j) adj. if P i j then connect n i j adj else adj) ps adj) = n * n \<and>
    (fold (\<lambda>(i, j) adj. if P i j then connect n i j adj else adj) ps adj ! (a * n + b) \<noteq> 0 \<longleftrightarrow>
      adj ! (a * n + b) \<noteq> 0 \<or> (a, b) \<in> set ps \<and> P a b \<or> (b, a) \<in> set ps \<and> P b a)"
  using assms(1,2)
proof (induction ps arbitrary: adj)
  case (Cons p ps)
  obtain i j where p: "p = (i, j)" by (cases p)
  have ij: "i < n" "j < n" using Cons.prems(2) by (auto simp: p)
  note positions = cell_position [OF assms(3,4) ij] cell_position [OF assms(3,4) ij(2,1)]
    cell_position_less [OF ij] cell_position_less [OF ij(2,1)] cell_position_less [OF assms(3,4)]
  have step: "length (connect n i j adj) = n * n"
    "connect n i j adj ! (a * n + b) \<noteq> 0 \<longleftrightarrow> adj ! (a * n + b) \<noteq> 0 \<or> (a = i \<and> b = j) \<or> (a = j \<and> b = i)"
    using Cons.prems(1) positions by (auto simp: connect_def nth_list_update)
  show ?case
  proof (cases "P i j")
    case True
    then show ?thesis
      using Cons.IH [of "connect n i j adj"] Cons.prems(2) step by (auto simp: p)
  next
    case False
    then show ?thesis using Cons.IH [of adj] Cons.prems by (auto simp: p)
  qed
qed auto

lemma edge_graph_from_matrix:
  "edge (graph_from_matrix m known) i j \<longleftrightarrow>
     i < length (pm_order m) \<and> j < length (pm_order m) \<and> i \<noteq> j \<and> cell_conflict m known i j"
proof (cases "i < length (pm_order m) \<and> j < length (pm_order m)")
  case True
  define n where "n = length (pm_order m)"
  have ij: "i < n" "j < n" using True by (simp_all add: n_def)
  have sym: "cell_conflict m known j i = cell_conflict m known i j"
    by (simp add: cell_conflict_def matrix_at_sym [of m j i])
  have zero: "replicate (n * n) 0 ! (i * n + j) = (0 :: u8)"
    using cell_position_less [OF ij] by simp
  have adj: "cg_adjacent (graph_from_matrix m known) =
      fold (\<lambda>(i, j) adj. if cell_conflict m known i j then connect n i j adj else adj) (pairs n) (replicate (n * n) 0)"
    using fold_pairs [where f = "\<lambda>i j adj. if cell_conflict m known i j then connect n i j adj else adj" and n = n
        and rows = "[0..<n]"]
    by (simp add: graph_from_matrix_def Let_def pairs_def flip: n_def)
  have "edge (graph_from_matrix m known) i j \<longleftrightarrow> cg_adjacent (graph_from_matrix m known) ! (i * n + j) \<noteq> 0"
    using True by (simp add: edge_def graph_from_matrix_def n_def Let_def)
  also have "\<dots> \<longleftrightarrow> (i, j) \<in> set (pairs n) \<and> cell_conflict m known i j \<or> (j, i) \<in> set (pairs n) \<and> cell_conflict m known j i"
    unfolding adj using connect_pairs [of "replicate (n * n) 0" n "pairs n" i j] ij zero by (auto simp: set_pairs)
  also have "\<dots> \<longleftrightarrow> i \<noteq> j \<and> cell_conflict m known i j"
    using ij sym by (auto simp: set_pairs)
  finally show ?thesis using True by simp
next
  case False
  then show ?thesis by (auto simp: edge_def graph_from_matrix_def Let_def)
qed

lemma path_count_graph [simp]: "cg_path_count (graph_from_matrix m known) = length (pm_order m)"
  by (simp add: graph_from_matrix_def Let_def)

lemma symmetric_graph_from_matrix [simp]: "symmetric_graph (graph_from_matrix m known)"
  unfolding symmetric_graph_def
  by (auto simp: edge_graph_from_matrix cell_conflict_def matrix_at_sym)

interpretation matrix_graph: undirected "edge (graph_from_matrix m known)" for m known
  by (rule undirected_edge) simp

section \<open>The exact maximum\<close>

text \<open>Two paths conflict: the matrix holds a cell for the pair and the cell is not independent.\<close>

definition pair_conflict :: "pairwise_matrix \<Rightarrow> nat \<Rightarrow> nat \<Rightarrow> bool" where
  "pair_conflict m i j \<longleftrightarrow> i \<noteq> j \<and> (\<exists>cell. matrix_at m i j = Some cell \<and> \<not> cell_independent cell)"

interpretation pair_graph: undirected "pair_conflict m" for m
  by unfold_locales (auto simp: pair_conflict_def matrix_at_sym)

lemma maximum_indep_cong:
  assumes "\<And>i j. i \<in> S \<Longrightarrow> j \<in> S \<Longrightarrow> i \<noteq> j \<Longrightarrow> E i j = F i j"
  shows "maximum_indep E S T = maximum_indep F S T" "alpha E S = alpha F S" "least_witness E S = least_witness F S"
proof -
  have ind: "T \<subseteq> S \<and> indep E T \<longleftrightarrow> T \<subseteq> S \<and> indep F T" for T
    using assms unfolding indep_def by blast
  show alpha: "alpha E S = alpha F S" by (simp add: alpha_def ind)
  show max: "maximum_indep E S T = maximum_indep F S T" for T
    using ind [of T] alpha by (auto simp: maximum_indep_def)
  show "least_witness E S = least_witness F S"
    by (simp add: fun_eq_iff least_witness_def max)
qed

lemma pair_conflict_edge:
  "i < length (pm_order m) \<Longrightarrow> j < length (pm_order m) \<Longrightarrow> i \<noteq> j \<Longrightarrow>
     edge (graph_from_matrix m False) i j = pair_conflict m i j"
  by (auto simp: edge_graph_from_matrix cell_conflict_def pair_conflict_def split: option.splits)

lemma mis_witness_matrix:
  assumes "length (pm_order m) \<le> 64"
  shows "least_witness (pair_conflict m) {..<length (pm_order m)} (mis_witness (graph_from_matrix m False))"
proof -
  have "least_witness (edge (graph_from_matrix m False)) {..<length (pm_order m)} (mis_witness (graph_from_matrix m False))"
    using mis_witness_correct [of "graph_from_matrix m False"] assms by (simp add: small_graph_def)
  then show ?thesis
    using maximum_indep_cong(3) [of "{..<length (pm_order m)}" "edge (graph_from_matrix m False)" "pair_conflict m"]
      pair_conflict_edge by simp
qed

text \<open>C14: The K-independent solver is exact. For every path set it accepts it returns the lexicographically
  smallest maximum set of pairwise non-conflicting paths, its achieved size is the true maximum, and the
  branch-and-bound and exhaustive computations always agree: the inexact answer never occurs.\<close>

theorem maximum_independent_subset_exact:
  assumes "length (pm_order m) \<le> max_k_subset_paths l" "length (pm_order m) \<le> 32"
  shows "\<exists>w. maximum_independent_subset m k l = Some w \<and> ws_maximum_exact w \<and> ws_requested_k w = k \<and>
     least_witness (pair_conflict m) {..<length (pm_order m)} (ws_indices w) \<and>
     ws_achieved w = alpha (pair_conflict m) {..<length (pm_order m)}"
proof -
  let ?g = "graph_from_matrix m False"
  have W: "least_witness (pair_conflict m) {..<length (pm_order m)} (mis_witness ?g)"
    using assms(2) by (intro mis_witness_matrix) simp
  have "solve_certain ?g (length (pm_order m)) = (mis_witness ?g, True)"
    using assms(2) by (intro solve_certain_correct) (simp_all add: small_graph_def)
  then have "maximum_independent_subset m k l =
      Some \<lparr>ws_present = True, ws_requested_k = k, ws_indices = mis_witness ?g,
            ws_achieved = length (mis_witness ?g), ws_maximum_exact = True\<rparr>"
    using assms by (simp add: maximum_independent_subset_def Let_def)
  moreover have "length (mis_witness ?g) = alpha (pair_conflict m) {..<length (pm_order m)}"
    using W distinct_card [of "mis_witness ?g"] by (simp add: least_witness_def maximum_indep_def sorted_wrt_less_iff)
  ultimately show ?thesis using W by simp
qed

lemma maximum_independent_subset_exact_witness:
  "\<exists>w. maximum_independent_subset \<lparr>pm_order = [StringId ''a'', StringId ''b''], pm_cells = []\<rparr> 2 default_limits = Some w \<and>
       ws_maximum_exact w"
  using maximum_independent_subset_exact [of "\<lparr>pm_order = [StringId ''a'', StringId ''b''], pm_cells = []\<rparr>" default_limits 2]
  by (auto simp: default_limits_def)

end
