(* ===== verification/EvaluateSet.thy ===== *)
theory EvaluateSet
  imports IndependentSet
begin

text \<open>
  The evaluation of a whole path set (\<open>src/evaluate_set.cpp\<close>): shape and limits, Path Authority
  currentness, structure, the pairwise matrix, set-wise aggregation and the outcome. Each numbered step
  of \<open>evaluate_diversity\<close> is one definition; a step that returns early answers \<open>Inl\<close> the result.
  The evidence views answer the same questions alike during one evaluation; that the world may move
  meanwhile is the business of the runtime, which compares watermarks.
\<close>

section \<open>Results\<close>

record evaluation_result =
  ev_outcome :: proof_outcome
  ev_detail :: string
  ev_limit :: "resource_limit_notice option"
  ev_classes :: "class_result list"
  ev_advisories :: "class_result list"
  ev_conflicts :: "shared_resource list"
  ev_conflicts_total :: u64
  ev_matrix :: pairwise_matrix
  ev_witness :: witness_subset
  ev_dependencies :: dependency_binding
  ev_observed_topology :: topology_generation
  ev_observed_failure_domain :: failure_domain_generation
  ev_watermarks_observed :: bool
  ev_consulted_domains :: "failure_domain_id list"
  ev_consulted_risk_groups :: "shared_risk_group_id list"

definition default_result :: evaluation_result where
  "default_result =
     \<lparr>ev_outcome = PO_MALFORMED, ev_detail = [], ev_limit = None, ev_classes = [], ev_advisories = [],
      ev_conflicts = [], ev_conflicts_total = 0, ev_matrix = empty_matrix, ev_witness = empty_witness,
      ev_dependencies = default_dependencies, ev_observed_topology = gen_unset,
      ev_observed_failure_domain = gen_unset, ev_watermarks_observed = False,
      ev_consulted_domains = [], ev_consulted_risk_groups = []\<rparr>"

definition ev_proven :: "evaluation_result \<Rightarrow> bool" where
  "ev_proven r \<longleftrightarrow> ev_outcome r = PO_PROVEN_DIVERSE"

record observation =
  ob_topology :: topology_generation
  ob_domains :: failure_domain_generation
  ob_observed :: bool

definition reject :: "observation \<Rightarrow> proof_outcome \<Rightarrow> string \<Rightarrow> evaluation_result" where
  "reject ob outcome detail =
     default_result\<lparr>ev_outcome := outcome, ev_detail := detail, ev_observed_topology := ob_topology ob,
       ev_observed_failure_domain := ob_domains ob, ev_watermarks_observed := ob_observed ob\<rparr>"

definition reject_limit ::
  "observation \<Rightarrow> resource_bound \<Rightarrow> nat \<Rightarrow> nat \<Rightarrow> string \<Rightarrow> evaluation_result" where
  "reject_limit ob bound observed allowed detail =
     (reject ob PO_RESOURCE_LIMIT detail)\<lparr>ev_limit := Some (resource_notice bound observed allowed)\<rparr>"

definition unknown_outcome :: "diversity_policy \<Rightarrow> proof_outcome" where
  "unknown_outcome p =
     (if dp_unknown_behavior p = UB_DEMOTE_TO_REVALIDATION then PO_REVALIDATION_REQUIRED
      else PO_UNKNOWN_INCOMPLETE_EVIDENCE)"

definition cells_within :: "pairwise_matrix \<Rightarrow> nat list \<Rightarrow> pairwise_cell list" where
  "cells_within m chosen_paths =
     concat (map (\<lambda>a. concat (map (\<lambda>b.
         case matrix_at m (chosen_paths ! a) (chosen_paths ! b) of None \<Rightarrow> [] | Some cell \<Rightarrow> [cell])
       [Suc a..<length chosen_paths])) [0..<length chosen_paths])"

definition indices_text :: "nat list \<Rightarrow> string" where
  "indices_text indices = ''['' @ join '','' (map decimal indices) @ '']''"

section \<open>Step 1: shape and limits\<close>

definition msg_inputs :: string where
  "msg_inputs = ''evaluation requires Path Authority, topology, failure-domain and limit inputs''"

definition msg_duplicate_path :: string where
  "msg_duplicate_path =
     ''proof set contains a duplicate path identity; 1.0.0 gives duplicates no '' @
     ''semantics and rejects them''"

definition admit_paths ::
  "observation \<Rightarrow> limits \<Rightarrow> diversity_policy \<Rightarrow> proof_request \<Rightarrow> evaluation_result + path_ref list" where
  "admit_paths ob l p request =
     (case rq_canonicalize request of (unique, canonical) \<Rightarrow>
        if \<not> unique then Inl (reject ob PO_MALFORMED msg_duplicate_path)
        else let path_count = length (rq_paths canonical) in
          if path_count < 2
          then Inl (reject ob PO_MALFORMED ''a diversity proof requires at least two paths'')
          else if path_count < dp_minimum_independent_paths p
          then Inl (reject ob PO_MALFORMED
                 (''path set of '' @ decimal path_count @ '' is smaller than the policy minimum of '' @
                  decimal (dp_minimum_independent_paths p)))
          else if max_paths_per_proof l < path_count
          then Inl (reject_limit ob RB_MAX_PATHS_PER_PROOF path_count (max_paths_per_proof l)
                 ''path set exceeds max_paths_per_proof'')
          else if max_pairwise_cells l < cell_count path_count
          then Inl (reject_limit ob RB_MAX_PAIRWISE_CELLS (cell_count path_count) (max_pairwise_cells l)
                 ''pairwise matrix exceeds max_pairwise_cells'')
          else Inr (rq_paths canonical))"

definition admit_request ::
  "observation \<Rightarrow> limits \<Rightarrow> diversity_policy \<Rightarrow> proof_request \<Rightarrow> evaluation_result + path_ref list" where
  "admit_request ob l p request =
     (if \<not> self_consistent l
      then Inl (reject ob PO_MALFORMED ''configured limits are not self-consistent'')
      else let v = validate_policy p l in
        if \<not> pv_ok v
        then Inl (reject ob PO_MALFORMED
               (''policy is not valid: '' @ policy_status_to_string (pv_status v) @ '' ('' @ pv_detail v @ '')''))
        else admit_paths ob l p request)"

section \<open>Step 2: Path Authority currentness\<close>

fun check_authority ::
  "observation \<Rightarrow> path_authority_view \<Rightarrow> path_ref list \<Rightarrow> evaluation_result option" where
  "check_authority ob view [] = None"
| "check_authority ob view (r # rs) =
     (case av_current_generation view (pr_path r) of
        None \<Rightarrow> Some (reject ob PO_UNAUTHORIZED
          (''path '' @ id_view (pr_path r) @ '' has no currently authorized generation in Path Authority''))
      | Some current \<Rightarrow>
        if current \<noteq> pr_generation r
        then Some (reject ob PO_STALE_PATH_AUTHORITY
          (''path '' @ id_view (pr_path r) @ '' is bound to Path Authority generation '' @
           gen_text (pr_generation r) @ '' but Path Authority is at generation '' @ gen_text current))
        else if \<not> av_is_authorized view (pr_path r) (pr_generation r)
        then Some (reject ob PO_UNAUTHORIZED
          (''path '' @ id_view (pr_path r) @ '' at generation '' @ gen_text (pr_generation r) @
           '' is not currently authorized''))
        else check_authority ob view rs)"

section \<open>Step 3: structure\<close>

definition msg_repeats :: string where
  "msg_repeats =
     '' repeats a structural element; the upstream contract disallows '' @
     ''repeated elements and this runtime does not normalize them away''"

definition resolve_path ::
  "observation \<Rightarrow> path_structure_view \<Rightarrow> path_ref \<Rightarrow> evaluation_result + path_composition" where
  "resolve_path ob view r =
     (case sv_composition view (pr_path r) of
        None \<Rightarrow> Inl (reject ob PO_MALFORMED
          (''topology holds no composition for path '' @ id_view (pr_path r)))
      | Some c \<Rightarrow>
        if pc_authority_generation c \<noteq> pr_generation r
        then Inl (reject ob PO_STALE_PATH_AUTHORITY
          (''composition for path '' @ id_view (pr_path r) @ '' was derived under Path Authority generation '' @
           gen_text (pc_authority_generation c) @ '' but the proof binds generation '' @
           gen_text (pr_generation r)))
        else if pc_topology_generation c \<noteq> ob_topology ob
        then Inl (reject ob PO_STALE_TOPOLOGY
          (''composition for path '' @ id_view (pr_path r) @ '' was derived under topology generation '' @
           gen_text (pc_topology_generation c) @ '' but the topology view serves generation '' @
           gen_text (ob_topology ob)))
        else let c = pc_canonicalize c in
          if has_repeated_topology_elements c
          then Inl (reject ob PO_MALFORMED (''composition for path '' @ id_view (pr_path r) @ msg_repeats))
          else Inr c)"

fun resolve_paths ::
  "observation \<Rightarrow> path_structure_view \<Rightarrow> path_ref list \<Rightarrow> path_composition list \<Rightarrow> entity_ref list \<Rightarrow>
   evaluation_result + path_composition list \<times> entity_ref list" where
  "resolve_paths ob view [] compositions footprint = Inr (compositions, footprint)"
| "resolve_paths ob view (r # rs) compositions footprint =
     (case resolve_path ob view r of
        Inl e \<Rightarrow> Inl e
      | Inr c \<Rightarrow> resolve_paths ob view rs (compositions @ [c]) (footprint @ path_entities c))"

definition resolve_structure ::
  "observation \<Rightarrow> limits \<Rightarrow> path_structure_view \<Rightarrow> path_ref list \<Rightarrow>
   evaluation_result + path_composition list \<times> entity_ref list" where
  "resolve_structure ob l view paths =
     (case resolve_paths ob view paths [] [] of
        Inl e \<Rightarrow> Inl e
      | Inr (compositions, footprint) \<Rightarrow>
        let footprint = remdups_adj (sort footprint) in
        if max_topology_dependencies l < length footprint
        then Inl (reject_limit ob RB_MAX_TOPOLOGY_DEPENDENCIES (length footprint) (max_topology_dependencies l)
               ''topology dependency footprint exceeds max_topology_dependencies'')
        else Inr (compositions, footprint))"

section \<open>Step 4: pairwise evidence\<close>

definition default_cell :: pairwise_cell where
  "default_cell =
     \<lparr>cell_left = 0, cell_right = 0, cell_independent = False, cell_evidence_complete = False,
      cell_classes = [], cell_primary_conflict = None\<rparr>"

definition build_cell :: "diversity_policy \<Rightarrow> nat \<Rightarrow> nat \<Rightarrow> class_result list \<Rightarrow> pairwise_cell" where
  "build_cell p i j classes =
     (let kept = filter (\<lambda>r. is_required p (cr_klass r)) (remap_cell i j classes);
          conflicts = canonical_conflict_order (concat (map cr_shared kept))
      in \<lparr>cell_left = i, cell_right = j,
          cell_independent =
            list_all (\<lambda>r. \<not> (cr_outcome r \<noteq> PO_PROVEN_DIVERSE \<or> \<not> cr_evidence_complete r)) kept,
          cell_evidence_complete = list_all cr_evidence_complete kept,
          cell_classes = kept,
          cell_primary_conflict = (case conflicts of [] \<Rightarrow> None | c # _ \<Rightarrow> Some c)\<rparr>)"

type_synonym pair_state = "pairwise_cell list \<times> failure_domain_id list \<times> shared_risk_group_id list"

definition evaluate_pair_cell ::
  "diversity_policy \<Rightarrow> evaluation_inputs \<Rightarrow> nat \<Rightarrow> path_composition list \<Rightarrow> nat \<Rightarrow> nat \<Rightarrow>
   pair_state \<Rightarrow> pair_state" where
  "evaluate_pair_cell p inputs max_shared compositions i j st = (case st of (cells, domains, groups) \<Rightarrow>
     case classify_pair (compositions ! i) (compositions ! j) p inputs max_shared of (classes, ds, gs) \<Rightarrow>
       (cells[cell_index (length compositions) i j := build_cell p i j classes], domains @ ds, groups @ gs))"

definition evaluate_pairs ::
  "diversity_policy \<Rightarrow> evaluation_inputs \<Rightarrow> nat \<Rightarrow> path_composition list \<Rightarrow> pair_state" where
  "evaluate_pairs p inputs max_shared compositions =
     (let n = length compositions
      in fold (\<lambda>i st. fold (\<lambda>j st. evaluate_pair_cell p inputs max_shared compositions i j st) [Suc i..<n] st)
           [0..<n] (replicate (cell_count n) default_cell, [], []))"

definition bounded_consulted :: "nat \<Rightarrow> 'a::linorder list \<Rightarrow> 'a list" where
  "bounded_consulted bound ids =
     (let ids = canonical_sort_unique ids in if bound < length ids then take bound ids else ids)"

section \<open>Step 5: set-wise aggregation\<close>

record set_stage =
  st_witness :: witness_subset
  st_cells :: "pairwise_cell list"
  st_witness_found :: bool
  st_outcome :: proof_outcome
  st_detail :: string

definition msg_disagreed :: string where
  "msg_disagreed =
     ''the exact maximum independent subset could not be established: the branch-and-bound '' @
     ''and exhaustive computations disagreed, so no negative claim is made''"

definition msg_k_bound :: string where
  "msg_k_bound =
     ''exact K-independent analysis is bounded by max_k_subset_paths; '' @
     ''no heuristic substitution is offered''"

definition k_witness :: "nat \<Rightarrow> nat list \<Rightarrow> bool \<Rightarrow> nat list \<Rightarrow> witness_subset" where
  "k_witness requested certain exact indices =
     \<lparr>ws_present = True, ws_requested_k = requested, ws_indices = indices,
      ws_achieved = length certain, ws_maximum_exact = exact\<rparr>"

definition k_independent_stage :: "diversity_policy \<Rightarrow> pairwise_matrix \<Rightarrow> nat \<Rightarrow> set_stage" where
  "k_independent_stage p m path_count =
     (case solve_certain (graph_from_matrix m False) path_count of (certain, exact) \<Rightarrow>
      let optimistic = sorted_indices_of (mis_witness (graph_from_matrix m True));
          k = dp_minimum_independent_paths p
      in if k \<le> length certain
         then \<lparr>st_witness = k_witness k certain exact certain, st_cells = cells_within m certain,
               st_witness_found = True, st_outcome = PO_MALFORMED, st_detail = []\<rparr>
         else if k \<le> length optimistic
         then \<lparr>st_witness = k_witness k certain exact optimistic, st_cells = pm_cells m,
               st_witness_found = False, st_outcome = unknown_outcome p,
               st_detail = ''at most '' @ decimal (length certain) @
                 '' mutually independent paths are provable with complete evidence, but '' @
                 decimal (length optimistic) @
                 '' would be independent if the outstanding evidence were resolved''\<rparr>
         else if exact
         then \<lparr>st_witness = k_witness k certain exact certain, st_cells = pm_cells m,
               st_witness_found = False, st_outcome = PO_NOT_DIVERSE,
               st_detail = ''no subset of '' @ decimal k @
                 '' mutually independent paths exists; the largest provable subset has '' @
                 decimal (length certain) @ '' paths''\<rparr>
         else \<lparr>st_witness = k_witness k certain exact certain, st_cells = pm_cells m,
               st_witness_found = False, st_outcome = PO_REVALIDATION_REQUIRED,
               st_detail = msg_disagreed\<rparr>)"

definition set_stage ::
  "observation \<Rightarrow> limits \<Rightarrow> diversity_policy \<Rightarrow> pairwise_matrix \<Rightarrow> nat \<Rightarrow> evaluation_result + set_stage" where
  "set_stage ob l p m path_count =
     (if dp_semantics p = SS_AT_LEAST_K_INDEPENDENT
      then if max_k_subset_paths l < path_count \<or> 32 < path_count
           then Inl (reject_limit ob RB_MAX_K_SUBSET_PATHS path_count (max_k_subset_paths l) msg_k_bound)
           else Inr (k_independent_stage p m path_count)
      else Inr \<lparr>st_witness = empty_witness, st_cells = pm_cells m, st_witness_found = False,
                st_outcome = PO_MALFORMED, st_detail = []\<rparr>)"

definition aggregate_required :: "diversity_policy \<Rightarrow> nat \<Rightarrow> pairwise_cell list \<Rightarrow> class_result list" where
  "aggregate_required p max_shared cells =
     map (\<lambda>k. aggregate_class (gather cells k) k max_shared) (dp_required_classes p)"

definition aggregate_advisory :: "diversity_policy \<Rightarrow> nat \<Rightarrow> pairwise_cell list \<Rightarrow> class_result list" where
  "aggregate_advisory p max_shared cells =
     map (\<lambda>k. aggregate_class (gather cells k) k max_shared)
       (filter (\<lambda>k. \<not> is_required p k) diversity_class_values)"

section \<open>Step 6: outcome classification\<close>

definition msg_every_pair :: string where
  "msg_every_pair = ''every pair satisfies every required diversity class''"

definition msg_not_evaluated :: string where
  "msg_not_evaluated = ''a required diversity class could not be evaluated''"

definition first_detail_of :: "class_result list \<Rightarrow> string" where
  "first_detail_of results =
     fold (\<lambda>r detail. if detail = [] \<and> cr_detail r \<noteq> [] then cr_detail r else detail) results []"

definition classify_outcome ::
  "diversity_policy \<Rightarrow> set_stage \<Rightarrow> class_result list \<Rightarrow> proof_outcome \<times> string" where
  "classify_outcome p st results =
     (let any_conflict = list_ex (\<lambda>r. cr_outcome r = PO_NOT_DIVERSE) results;
          any_unknown = list_ex (\<lambda>r. cr_outcome r = PO_UNKNOWN_INCOMPLETE_EVIDENCE) results;
          any_malformed = list_ex (\<lambda>r. cr_outcome r \<noteq> PO_NOT_DIVERSE \<and>
            cr_outcome r \<noteq> PO_UNKNOWN_INCOMPLETE_EVIDENCE \<and> cr_outcome r \<noteq> PO_PROVEN_DIVERSE) results;
          first_detail = first_detail_of results
      in if any_malformed then (PO_MALFORMED, msg_not_evaluated)
         else if any_unknown \<and> dp_completeness p = CR_REQUIRE_COMPLETE_EVIDENCE
         then (unknown_outcome p, ''required evidence is incomplete: '' @ first_detail)
         else if any_conflict then (PO_NOT_DIVERSE, first_detail)
         else if any_unknown
         then (unknown_outcome p, ''required evidence is incomplete: '' @ first_detail)
         else (PO_PROVEN_DIVERSE,
               if dp_semantics p = SS_AT_LEAST_K_INDEPENDENT \<and> st_witness_found st
               then ''witness subset '' @ indices_text (ws_indices (st_witness st)) @ '' of '' @
                    decimal (dp_minimum_independent_paths p) @ '' mutually independent paths''
               else msg_every_pair))"

definition decide_outcome ::
  "diversity_policy \<Rightarrow> set_stage \<Rightarrow> class_result list \<Rightarrow> proof_outcome \<times> string" where
  "decide_outcome p st results =
     (let (outcome, detail) =
            (if st_outcome st \<noteq> PO_NOT_DIVERSE \<and> st_outcome st \<noteq> PO_REVALIDATION_REQUIRED \<and>
                st_outcome st \<noteq> PO_UNKNOWN_INCOMPLETE_EVIDENCE
             then classify_outcome p st results
             else (st_outcome st, st_detail st))
      in (outcome, if detail = [] \<and> outcome = PO_PROVEN_DIVERSE then msg_every_pair else detail))"

definition collect_conflicts :: "nat \<Rightarrow> class_result list \<Rightarrow> shared_resource list \<times> u64" where
  "collect_conflicts max_shared results =
     (let all = concat (map cr_shared results)
      in (canonical_conflict_order (take max_shared all), of_nat (length all)))"

section \<open>The evaluation\<close>

definition bind_paths :: "path_ref list \<Rightarrow> path_authority_binding list" where
  "bind_paths paths = map (\<lambda>r. \<lparr>pb_path = pr_path r, pb_generation = pr_generation r\<rparr>) paths"

definition evaluate_admitted ::
  "observation \<Rightarrow> limits \<Rightarrow> diversity_policy \<Rightarrow> evaluation_inputs \<Rightarrow> path_ref list \<Rightarrow>
   path_composition list \<Rightarrow> entity_ref list \<Rightarrow> evaluation_result" where
  "evaluate_admitted ob l p inputs paths compositions footprint =
     (case evaluate_pairs p inputs (max_conflicts_per_proof l) compositions of (cells, domains, groups) \<Rightarrow>
      let m = \<lparr>pm_order = map pr_path paths, pm_cells = cells\<rparr> in
      case set_stage ob l p m (length paths) of
        Inl e \<Rightarrow> e
      | Inr st \<Rightarrow>
        let required = aggregate_required p (max_conflicts_per_proof l) (st_cells st);
            advisory = aggregate_advisory p (max_conflicts_per_proof l) (st_cells st)
        in case decide_outcome p st required of (outcome, detail) \<Rightarrow>
           case collect_conflicts (max_conflicts_per_proof l) required of (conflicts, conflict_total) \<Rightarrow>
           \<lparr>ev_outcome = outcome, ev_detail = detail, ev_limit = None, ev_classes = required,
            ev_advisories = advisory, ev_conflicts = conflicts, ev_conflicts_total = conflict_total,
            ev_matrix = m, ev_witness = st_witness st,
            ev_dependencies =
              \<lparr>db_policy_generation = dp_generation p, db_topology_generation = ob_topology ob,
               db_failure_domain_generation = ob_domains ob, db_epoch = gen_unset,
               db_paths = bind_paths paths, db_topology_entities = footprint,
               db_endpoint_exemption = dp_endpoint_exemption p\<rparr>,
            ev_observed_topology = ob_topology ob, ev_observed_failure_domain = ob_domains ob,
            ev_watermarks_observed = True,
            ev_consulted_domains = bounded_consulted (max_domain_evidence_entries l) domains,
            ev_consulted_risk_groups = bounded_consulted (max_domain_evidence_entries l) groups\<rparr>)"

definition evaluate_under ::
  "observation \<Rightarrow> limits \<Rightarrow> path_authority_view \<Rightarrow> path_structure_view \<Rightarrow> evaluation_inputs \<Rightarrow>
   diversity_policy \<Rightarrow> proof_request \<Rightarrow> evaluation_result" where
  "evaluate_under ob l authority structure inputs p request =
     (case admit_request ob l p request of
        Inl e \<Rightarrow> e
      | Inr paths \<Rightarrow>
        case (if dp_require_authority_current p then check_authority ob authority paths else None) of
          Some e \<Rightarrow> e
        | None \<Rightarrow>
          case resolve_structure ob l structure paths of
            Inl e \<Rightarrow> e
          | Inr (compositions, footprint) \<Rightarrow>
              evaluate_admitted ob l p inputs paths compositions footprint)"

definition evaluate_diversity ::
  "proof_request \<Rightarrow> diversity_policy \<Rightarrow> evaluation_inputs \<Rightarrow> evaluation_result" where
  "evaluate_diversity request policy inputs =
     (case (in_authority inputs, in_structure inputs, in_domains inputs, in_limits inputs) of
        (Some authority, Some structure, Some domains, Some l) \<Rightarrow>
          evaluate_under
            \<lparr>ob_topology = sv_topology_generation structure, ob_domains = fv_generation domains, ob_observed = True\<rparr>
            l authority structure inputs (dp_canonicalize policy) request
      | _ \<Rightarrow> reject \<lparr>ob_topology = gen_unset, ob_domains = gen_unset, ob_observed = False\<rparr> PO_MALFORMED msg_inputs)"

end
