(* ===== verification/EvaluateSound.thy ===== *)
theory EvaluateSound
  imports EvaluateSet
begin

text \<open>
  What the outcome of \<open>evaluate_diversity\<close> means. A pair of compositions is proven when, for every required
  class, they share nothing and the evidence is complete; the cells, the aggregation and the set stage
  are each reduced to this, so that the outcome is the specification \<open>all_pairs_outcome\<close> or
  \<open>k_independent_outcome\<close> of the resolved compositions. The properties at the end are over the whole
  function, from the request as it arrives to the outcome. The sample inputs at the end are two paths over
  different links and a third that repeats the first link.
\<close>

section \<open>Cells of the matrix\<close>

text \<open>What a pair of compositions amounts to under a policy.\<close>

definition pair_proven :: "diversity_policy \<Rightarrow> failure_domain_view \<Rightarrow> path_composition \<Rightarrow> path_composition \<Rightarrow> bool" where
  "pair_proven p view l r \<longleftrightarrow>
     (\<forall>k\<in>set (dp_required_classes p). class_shares k p view l r = {} \<and> class_known k p view l r)"

definition pair_shares :: "diversity_policy \<Rightarrow> failure_domain_view \<Rightarrow> path_composition \<Rightarrow> path_composition \<Rightarrow> bool" where
  "pair_shares p view l r \<longleftrightarrow> (\<exists>k\<in>set (dp_required_classes p). class_shares k p view l r \<noteq> {})"

lemma is_required_iff [simp]: "is_required p k \<longleftrightarrow> k \<in> set (dp_required_classes p)"
  by (auto simp: is_required_def list_ex_iff)

definition canonical_policy :: "diversity_policy \<Rightarrow> bool" where
  "canonical_policy p \<longleftrightarrow> sorted (dp_required_classes p) \<and> sorted (dp_allowed_relations p)"

lemma canonical_policy_canonicalize [simp]: "canonical_policy (dp_canonicalize p)"
  by (simp add: canonical_policy_def dp_canonicalize_def)

lemma canonical_policy_fixed: "canonical_policy p \<Longrightarrow> dp_canonicalize p = p"
  by (simp add: canonical_policy_def dp_canonicalize_def sort_key_id_if_sorted)

text \<open>The result kept in a cell for a required class.\<close>

definition cell_result ::
  "diversity_policy \<Rightarrow> failure_domain_view \<Rightarrow> nat \<Rightarrow> path_composition list \<Rightarrow> nat \<Rightarrow> nat \<Rightarrow> diversity_class \<Rightarrow> class_result" where
  "cell_result p view m cs i j k =
     (let r = fst (evaluate_single_class k (cs ! i) (cs ! j) p view m)
      in r\<lparr>cr_shared := canonical_conflict_order (map (remap_conflict i j) (cr_shared r))\<rparr>)"

lemma cell_result_simps [simp]:
  "cr_klass (cell_result p view m cs i j k) = k"
  "cr_evidence_complete (cell_result p view m cs i j k) = class_known k p view (cs ! i) (cs ! j)"
  by (simp_all add: cell_result_def Let_def single_rule.eval_class single_rule.eval_known)

lemma cell_result_outcome:
  "pc_sorted (cs ! i) \<Longrightarrow> pc_sorted (cs ! j) \<Longrightarrow>
   cr_outcome (cell_result p view m cs i j k) =
     (if class_shares k p view (cs ! i) (cs ! j) \<noteq> {} then PO_NOT_DIVERSE
      else if class_known k p view (cs ! i) (cs ! j) then PO_PROVEN_DIVERSE else PO_UNKNOWN_INCOMPLETE_EVIDENCE)"
  by (simp add: cell_result_def Let_def single_rule.eval_outcome)

definition the_cell ::
  "diversity_policy \<Rightarrow> failure_domain_view \<Rightarrow> nat \<Rightarrow> path_composition list \<Rightarrow> nat \<Rightarrow> nat \<Rightarrow> pairwise_cell" where
  "the_cell p view m cs i j =
     build_cell p i j (map (\<lambda>k. fst (evaluate_single_class k (cs ! i) (cs ! j) p view m))
       (dp_required_classes p @ advisory_classes p))"

lemma the_cell_classes:
  "cell_classes (the_cell p view m cs i j) = map (cell_result p view m cs i j) (dp_required_classes p)"
proof -
  have "remap_cell i j (map (\<lambda>k. fst (evaluate_single_class k (cs ! i) (cs ! j) p view m)) ks) =
      map (cell_result p view m cs i j) ks" for ks
    by (simp add: remap_cell_def cell_result_def Let_def comp_def)
  moreover have "filter (\<lambda>r. cr_klass r \<in> set (dp_required_classes p))
      (map (cell_result p view m cs i j) (dp_required_classes p @ advisory_classes p)) =
      map (cell_result p view m cs i j) (dp_required_classes p)"
    by (auto simp: filter_map comp_def advisory_classes_def)
  ultimately show ?thesis by (simp add: the_cell_def build_cell_def Let_def del: map_append)
qed

lemma the_cell_independent:
  assumes "pc_sorted (cs ! i)" "pc_sorted (cs ! j)"
  shows "cell_independent (the_cell p view m cs i j) \<longleftrightarrow> pair_proven p view (cs ! i) (cs ! j)"
    and "cell_has_conflict (the_cell p view m cs i j) \<longleftrightarrow> pair_shares p view (cs ! i) (cs ! j)"
    and "cell_independent (the_cell p view m cs i j) \<Longrightarrow> cell_evidence_complete (the_cell p view m cs i j)"
proof -
  have ind: "cell_independent (the_cell p view m cs i j) \<longleftrightarrow>
      (\<forall>r\<in>set (cell_classes (the_cell p view m cs i j)). cr_outcome r = PO_PROVEN_DIVERSE \<and> cr_evidence_complete r)"
    and complete: "cell_evidence_complete (the_cell p view m cs i j) \<longleftrightarrow>
      (\<forall>r\<in>set (cell_classes (the_cell p view m cs i j)). cr_evidence_complete r)"
    by (auto simp: the_cell_def build_cell_def Let_def list_all_iff)
  show "cell_independent (the_cell p view m cs i j) \<longleftrightarrow> pair_proven p view (cs ! i) (cs ! j)"
    by (auto simp: ind the_cell_classes cell_result_outcome assms pair_proven_def)
  show "cell_has_conflict (the_cell p view m cs i j) \<longleftrightarrow> pair_shares p view (cs ! i) (cs ! j)"
    by (auto simp: cell_has_conflict_def the_cell_classes list_ex_iff cell_result_outcome assms pair_shares_def)
  show "cell_independent (the_cell p view m cs i j) \<Longrightarrow> cell_evidence_complete (the_cell p view m cs i j)"
    by (simp add: ind complete)
qed

lemma fold_cell_positions:
  assumes "\<forall>(i, j)\<in>set ps. i < j \<and> j < n" "n < 2 ^ 32" "length cells = cell_count n"
  shows "length (fst (fold (\<lambda>(i, j) (cells, x). (cells[cell_index n i j := f i j], g i j x)) ps (cells, x))) = cell_count n \<and>
    (\<forall>a b. a < b \<and> b < n \<longrightarrow>
       fst (fold (\<lambda>(i, j) (cells, x). (cells[cell_index n i j := f i j], g i j x)) ps (cells, x)) ! cell_index n a b =
       (if (a, b) \<in> set ps then f a b else cells ! cell_index n a b))"
  using assms(1,3)
proof (induction ps arbitrary: cells x)
  case (Cons q ps)
  obtain i j where q: "q = (i, j)" by (cases q)
  have ij: "i < j" "j < n" using Cons.prems(1) by (auto simp: q)
  have distinct: "cell_index n a b = cell_index n i j \<longleftrightarrow> a = i \<and> b = j" if "a < b" "b < n" for a b
    using cell_index_pairs [OF that assms(2)] cell_index_pairs [OF ij assms(2)] by (metis prod.inject)
  define cells' where "cells' = cells[cell_index n i j := f i j]"
  have "cell_index n i j < length cells" using cell_index_pairs [OF ij assms(2)] Cons.prems(2) by simp
  then have nth: "cells' ! cell_index n a b = (if a = i \<and> b = j then f i j else cells ! cell_index n a b)"
    if "a < b" "b < n" for a b
    using distinct [OF that] by (auto simp: cells'_def nth_list_update)
  have IH: "length (fst (fold (\<lambda>(i, j) (cells, x). (cells[cell_index n i j := f i j], g i j x)) ps (cells', g i j x))) = cell_count n \<and>
    (\<forall>a b. a < b \<and> b < n \<longrightarrow>
       fst (fold (\<lambda>(i, j) (cells, x). (cells[cell_index n i j := f i j], g i j x)) ps (cells', g i j x)) ! cell_index n a b =
       (if (a, b) \<in> set ps then f a b else cells' ! cell_index n a b))"
    using Cons.prems by (intro Cons.IH) (auto simp: cells'_def)
  show ?case using IH nth by (simp add: q flip: cells'_def)
qed auto

lemma nth_pairs_index:
  assumes "q < cell_count n" "n < 2 ^ 32"
  shows "\<exists>i j. pairs n ! q = (i, j) \<and> i < j \<and> j < n \<and> cell_index n i j = q"
proof -
  obtain i j where ij: "pairs n ! q = (i, j)" by (cases "pairs n ! q")
  have len: "q < length (pairs n)" using assms by (simp add: length_pairs cell_count_nat)
  then have "(i, j) \<in> set (pairs n)" using ij by (metis nth_mem)
  then have lt: "i < j" "j < n" by (simp_all add: set_pairs)
  have "distinct rows \<Longrightarrow> distinct (concat (map (row_pairs n) rows))" for rows
    by (induction rows) (auto simp: row_pairs_def distinct_map inj_on_def)
  then have "distinct (pairs n)" by (simp add: pairs_def)
  then have "cell_index n i j = q"
    using cell_index_pairs [OF lt assms(2)] ij len assms(2)
    by (metis cell_count_nat length_pairs nth_eq_iff_index_eq)
  then show ?thesis using ij lt by blast
qed

text \<open>The cells of an evaluation are the cells of its pairs, in row-major order.\<close>

lemma evaluate_pairs_cells:
  assumes "in_domains inputs = Some view" "0 < m" "canonical_policy p" "length cs < 2 ^ 32"
  shows "fst (evaluate_pairs p inputs m cs) = map (\<lambda>(i, j). the_cell p view m cs i j) (pairs (length cs))"
proof -
  define n where "n = length cs"
  define g where "g = (\<lambda>i j (domains, groups).
     (domains @ fst (snd (classify_pair (cs ! i) (cs ! j) p inputs m)), groups @ snd (snd (classify_pair (cs ! i) (cs ! j) p inputs m))))"
  have step: "evaluate_pair_cell p inputs m cs i j = (\<lambda>(cells, x). (cells[cell_index n i j := the_cell p view m cs i j], g i j x))" for i j
  proof -
    have "fst (classify_pair (cs ! i) (cs ! j) p inputs m) =
        map (\<lambda>k. fst (evaluate_single_class k (cs ! i) (cs ! j) p view m)) (dp_required_classes p @ advisory_classes p)"
      using classify_pair_results [OF assms(1,2)] assms(3)
      by (simp add: canonical_policy_fixed) (simp add: canonical_policy_def sort_key_id_if_sorted)
    then show ?thesis
      by (auto simp: fun_eq_iff evaluate_pair_cell_def the_cell_def g_def n_def split_beta)
  qed
  have "evaluate_pairs p inputs m cs =
      fold (\<lambda>(i, j) (cells, x). (cells[cell_index n i j := the_cell p view m cs i j], g i j x)) (pairs n)
        (replicate (cell_count n) default_cell, [], [])"
    using fold_pairs [where f = "evaluate_pair_cell p inputs m cs" and n = n and rows = "[0..<n]"]
    by (simp add: evaluate_pairs_def Let_def pairs_def step flip: n_def)
  then have run: "length (fst (evaluate_pairs p inputs m cs)) = cell_count n \<and>
     (\<forall>a b. a < b \<and> b < n \<longrightarrow> fst (evaluate_pairs p inputs m cs) ! cell_index n a b = the_cell p view m cs a b)"
    using fold_cell_positions [of "pairs n" n "replicate (cell_count n) default_cell" "the_cell p view m cs" g "([], [])"] assms(4)
    by (auto simp: set_pairs n_def)
  show ?thesis
  proof (rule nth_equalityI)
    show "length (fst (evaluate_pairs p inputs m cs)) = length (map (\<lambda>(i, j). the_cell p view m cs i j) (pairs (length cs)))"
      using run assms(4) by (simp add: length_pairs cell_count_nat n_def)
  next
    fix q
    assume q: "q < length (fst (evaluate_pairs p inputs m cs))"
    then obtain i j where ij: "pairs n ! q = (i, j)" "i < j" "j < n" "cell_index n i j = q"
      using nth_pairs_index [of q n] run assms(4) by (auto simp: n_def)
    have "q < length (pairs n)" using q run assms(4) by (simp add: length_pairs cell_count_nat n_def)
    then show "fst (evaluate_pairs p inputs m cs) ! q = map (\<lambda>(i, j). the_cell p view m cs i j) (pairs (length cs)) ! q"
      using run ij by (auto simp: n_def [symmetric])
  qed
qed

lemma matrix_at_cells:
  assumes "length (pm_order mx) = n" "pm_cells mx = map (\<lambda>(i, j). f i j) (pairs n)" "n < 2 ^ 32" "i < j" "j < n"
  shows "matrix_at mx i j = Some (f i j)" "matrix_at mx j i = Some (f i j)"
proof -
  note idx = cell_index_pairs [OF assms(4,5,3)]
  have "cell_index n i j < length (pairs n)" using idx assms(3) by (simp add: length_pairs cell_count_nat)
  then show "matrix_at mx i j = Some (f i j)"
    using assms idx by (simp add: matrix_at_def Let_def)
  then show "matrix_at mx j i = Some (f i j)" by (simp add: matrix_at_sym)
qed


section \<open>Aggregation\<close>

lemma aggregate_step_simps:
  "cr_klass (aggregate_step m s c) = cr_klass c"
  "cr_evidence_complete (aggregate_step m s c) \<longleftrightarrow> cr_evidence_complete s \<and> cr_evidence_complete c"
  "cr_outcome (aggregate_step m s c) =
     (if cr_outcome s = PO_NOT_DIVERSE then PO_NOT_DIVERSE
      else if cr_outcome s = PO_UNKNOWN_INCOMPLETE_EVIDENCE \<and> cr_outcome c \<noteq> PO_NOT_DIVERSE
      then PO_UNKNOWN_INCOMPLETE_EVIDENCE else cr_outcome c)"
  by (simp_all add: aggregate_step_def Let_def)

lemma aggregate_fold:
  "cr_klass (fold (aggregate_step m) ss c) = cr_klass c"
  "cr_evidence_complete (fold (aggregate_step m) ss c) \<longleftrightarrow> cr_evidence_complete c \<and> (\<forall>s\<in>set ss. cr_evidence_complete s)"
  "cr_outcome (fold (aggregate_step m) ss c) =
     (if cr_outcome c = PO_NOT_DIVERSE \<or> (\<exists>s\<in>set ss. cr_outcome s = PO_NOT_DIVERSE) then PO_NOT_DIVERSE
      else if \<exists>s\<in>set ss. cr_outcome s = PO_UNKNOWN_INCOMPLETE_EVIDENCE then PO_UNKNOWN_INCOMPLETE_EVIDENCE
      else cr_outcome c)"
  by (induction ss arbitrary: c) (auto simp: aggregate_step_simps)

lemma aggregate_class_simps:
  "cr_klass (aggregate_class ss k m) = k"
  "cr_evidence_complete (aggregate_class ss k m) \<longleftrightarrow> (\<forall>s\<in>set ss. cr_evidence_complete s)"
  "cr_outcome (aggregate_class ss k m) =
     (if \<exists>s\<in>set ss. cr_outcome s = PO_NOT_DIVERSE then PO_NOT_DIVERSE
      else if \<exists>s\<in>set ss. cr_outcome s = PO_UNKNOWN_INCOMPLETE_EVIDENCE then PO_UNKNOWN_INCOMPLETE_EVIDENCE
      else PO_PROVEN_DIVERSE)"
  by (simp_all add: aggregate_class_def Let_def aggregate_fold default_class_result_def)

lemma aggregate_step_bounded:
  "length (cr_shared c) \<le> m \<Longrightarrow> length (cr_shared (aggregate_step m s c)) \<le> m"
proof -
  have "length xs \<le> m \<Longrightarrow> length (fold (\<lambda>c shared. if length shared < m then shared @ [c] else shared) cs xs) \<le> m"
    for cs xs :: "shared_resource list"
    by (induction cs arbitrary: xs) auto
  then show "length (cr_shared c) \<le> m \<Longrightarrow> length (cr_shared (aggregate_step m s c)) \<le> m"
    by (simp add: aggregate_step_def Let_def)
qed

lemma aggregate_class_bounded: "length (cr_shared (aggregate_class ss k m)) \<le> m"
proof -
  have "length (cr_shared c) \<le> m \<Longrightarrow> length (cr_shared (fold (aggregate_step m) ss c)) \<le> m" for c
    by (induction ss arbitrary: c) (simp_all add: aggregate_step_bounded)
  then show ?thesis
    by (simp add: aggregate_class_def Let_def canonical_conflict_order_def default_class_result_def)
qed

lemma find_map_key: "(\<And>x. P (f x) \<longleftrightarrow> x = k) \<Longrightarrow> k \<in> set ks \<Longrightarrow> find P (map f ks) = Some (f k)"
  by (induction ks) auto

lemma gather_cells:
  "k \<in> set (dp_required_classes p) \<Longrightarrow>
     gather (map (\<lambda>(i, j). the_cell p view m cs i j) ps) k = map (\<lambda>(i, j). cell_result p view m cs i j k) ps"
  by (induction ps) (auto simp: gather_def List.map_filter_simps the_cell_classes find_map_key)

section \<open>The outcome under each set semantics\<close>

definition class_conflicts :: "diversity_policy \<Rightarrow> failure_domain_view \<Rightarrow> path_composition list \<Rightarrow> diversity_class \<Rightarrow> bool" where
  "class_conflicts p view cs k \<longleftrightarrow>
     (\<exists>i j. i < j \<and> j < length cs \<and> class_shares k p view (cs ! i) (cs ! j) \<noteq> {})"

definition class_unknown :: "diversity_policy \<Rightarrow> failure_domain_view \<Rightarrow> path_composition list \<Rightarrow> diversity_class \<Rightarrow> bool" where
  "class_unknown p view cs k \<longleftrightarrow> \<not> class_conflicts p view cs k \<and>
     (\<exists>i j. i < j \<and> j < length cs \<and> \<not> class_known k p view (cs ! i) (cs ! j))"

definition all_pairs_outcome :: "diversity_policy \<Rightarrow> failure_domain_view \<Rightarrow> path_composition list \<Rightarrow> proof_outcome" where
  "all_pairs_outcome p view cs =
     (if (\<exists>k\<in>set (dp_required_classes p). class_unknown p view cs k) \<and>
         (dp_completeness p = CR_REQUIRE_COMPLETE_EVIDENCE \<or>
          \<not> (\<exists>k\<in>set (dp_required_classes p). class_conflicts p view cs k))
      then unknown_outcome p
      else if \<exists>k\<in>set (dp_required_classes p). class_conflicts p view cs k then PO_NOT_DIVERSE
      else PO_PROVEN_DIVERSE)"

text \<open>A set of paths, by canonical index, in which every pair is proven, or free of observed conflicts.\<close>

definition proven_subset :: "diversity_policy \<Rightarrow> failure_domain_view \<Rightarrow> path_composition list \<Rightarrow> nat set \<Rightarrow> bool" where
  "proven_subset p view cs S \<longleftrightarrow> S \<subseteq> {..<length cs} \<and>
     (\<forall>i\<in>S. \<forall>j\<in>S. i < j \<longrightarrow> pair_proven p view (cs ! i) (cs ! j))"

definition conflict_free_subset :: "diversity_policy \<Rightarrow> failure_domain_view \<Rightarrow> path_composition list \<Rightarrow> nat set \<Rightarrow> bool" where
  "conflict_free_subset p view cs S \<longleftrightarrow> S \<subseteq> {..<length cs} \<and>
     (\<forall>i\<in>S. \<forall>j\<in>S. i < j \<longrightarrow> \<not> pair_shares p view (cs ! i) (cs ! j))"

definition k_independent_outcome :: "diversity_policy \<Rightarrow> failure_domain_view \<Rightarrow> path_composition list \<Rightarrow> proof_outcome" where
  "k_independent_outcome p view cs =
     (if \<exists>S. proven_subset p view cs S \<and> dp_minimum_independent_paths p \<le> card S then PO_PROVEN_DIVERSE
      else if \<exists>S. conflict_free_subset p view cs S \<and> dp_minimum_independent_paths p \<le> card S
      then unknown_outcome p else PO_NOT_DIVERSE)"

lemma unknown_outcome_cases: "unknown_outcome p = PO_REVALIDATION_REQUIRED \<or> unknown_outcome p = PO_UNKNOWN_INCOMPLETE_EVIDENCE"
  by (simp add: unknown_outcome_def)

lemma classify_outcome_cases:
  assumes "\<forall>r\<in>set rs. cr_outcome r \<in> {PO_NOT_DIVERSE, PO_UNKNOWN_INCOMPLETE_EVIDENCE, PO_PROVEN_DIVERSE}"
  shows "fst (classify_outcome p st rs) =
    (if (\<exists>r\<in>set rs. cr_outcome r = PO_UNKNOWN_INCOMPLETE_EVIDENCE) \<and>
        (dp_completeness p = CR_REQUIRE_COMPLETE_EVIDENCE \<or> \<not> (\<exists>r\<in>set rs. cr_outcome r = PO_NOT_DIVERSE))
     then unknown_outcome p
     else if \<exists>r\<in>set rs. cr_outcome r = PO_NOT_DIVERSE then PO_NOT_DIVERSE else PO_PROVEN_DIVERSE)"
proof -
  have "\<not> list_ex (\<lambda>r. cr_outcome r \<noteq> PO_NOT_DIVERSE \<and>
      cr_outcome r \<noteq> PO_UNKNOWN_INCOMPLETE_EVIDENCE \<and> cr_outcome r \<noteq> PO_PROVEN_DIVERSE) rs"
    using assms by (auto simp: list_ex_iff)
  then have none: "list_ex (\<lambda>r. cr_outcome r \<noteq> PO_NOT_DIVERSE \<and>
      cr_outcome r \<noteq> PO_UNKNOWN_INCOMPLETE_EVIDENCE \<and> cr_outcome r \<noteq> PO_PROVEN_DIVERSE) rs = False" by simp
  define C where "C = (\<exists>r\<in>set rs. cr_outcome r = PO_NOT_DIVERSE)"
  define U where "U = (\<exists>r\<in>set rs. cr_outcome r = PO_UNKNOWN_INCOMPLETE_EVIDENCE)"
  have ex: "list_ex (\<lambda>r. cr_outcome r = PO_NOT_DIVERSE) rs = C"
    "list_ex (\<lambda>r. cr_outcome r = PO_UNKNOWN_INCOMPLETE_EVIDENCE) rs = U"
    by (auto simp: C_def U_def list_ex_iff)
  show ?thesis
    unfolding classify_outcome_def Let_def none ex C_def [symmetric] U_def [symmetric] by auto
qed

lemma fst_decide_outcome:
  "fst (decide_outcome p st rs) =
     (if st_outcome st \<noteq> PO_NOT_DIVERSE \<and> st_outcome st \<noteq> PO_REVALIDATION_REQUIRED \<and>
         st_outcome st \<noteq> PO_UNKNOWN_INCOMPLETE_EVIDENCE
      then fst (classify_outcome p st rs) else st_outcome st)"
  by (simp add: decide_outcome_def split_beta)

lemma aggregate_required_cells:
  assumes "\<forall>c\<in>set cs. pc_sorted c"
    and "\<forall>(i, j)\<in>set ps. i < length cs \<and> j < length cs" 
  shows "\<forall>r\<in>set (aggregate_required p m (map (\<lambda>(i, j). the_cell p view m' cs i j) ps)).
      cr_outcome r \<in> {PO_NOT_DIVERSE, PO_UNKNOWN_INCOMPLETE_EVIDENCE, PO_PROVEN_DIVERSE}"
    and "(\<exists>r\<in>set (aggregate_required p m (map (\<lambda>(i, j). the_cell p view m' cs i j) ps)). cr_outcome r = PO_NOT_DIVERSE) \<longleftrightarrow>
      (\<exists>k\<in>set (dp_required_classes p). \<exists>(i, j)\<in>set ps. class_shares k p view (cs ! i) (cs ! j) \<noteq> {})"
    and "(\<exists>r\<in>set (aggregate_required p m (map (\<lambda>(i, j). the_cell p view m' cs i j) ps)). cr_outcome r = PO_UNKNOWN_INCOMPLETE_EVIDENCE) \<longleftrightarrow>
      (\<exists>k\<in>set (dp_required_classes p). \<not> (\<exists>(i, j)\<in>set ps. class_shares k p view (cs ! i) (cs ! j) \<noteq> {}) \<and>
         (\<exists>(i, j)\<in>set ps. \<not> class_known k p view (cs ! i) (cs ! j)))"
proof -
  have sorted: "pc_sorted (cs ! i) \<and> pc_sorted (cs ! j)" if "(i, j) \<in> set ps" for i j
    using that assms by auto
  have out: "cr_outcome (aggregate_class (gather (map (\<lambda>(i, j). the_cell p view m' cs i j) ps) k) k m) =
      (if \<exists>(i, j)\<in>set ps. class_shares k p view (cs ! i) (cs ! j) \<noteq> {} then PO_NOT_DIVERSE
       else if \<exists>(i, j)\<in>set ps. \<not> class_known k p view (cs ! i) (cs ! j) then PO_UNKNOWN_INCOMPLETE_EVIDENCE
       else PO_PROVEN_DIVERSE)" if "k \<in> set (dp_required_classes p)" for k
    using sorted by (force simp: aggregate_class_simps gather_cells [OF that] cell_result_outcome split: if_splits)
  have decided: "(cr_outcome (aggregate_class (gather (map (\<lambda>(i, j). the_cell p view m' cs i j) ps) k) k m) = PO_NOT_DIVERSE) =
      (\<exists>(i, j)\<in>set ps. class_shares k p view (cs ! i) (cs ! j) \<noteq> {}) \<and>
    (cr_outcome (aggregate_class (gather (map (\<lambda>(i, j). the_cell p view m' cs i j) ps) k) k m) = PO_UNKNOWN_INCOMPLETE_EVIDENCE) =
      (\<not> (\<exists>(i, j)\<in>set ps. class_shares k p view (cs ! i) (cs ! j) \<noteq> {}) \<and>
       (\<exists>(i, j)\<in>set ps. \<not> class_known k p view (cs ! i) (cs ! j)))" if "k \<in> set (dp_required_classes p)" for k
    unfolding out [OF that] by (simp only: if_split_asm split: if_split) blast
  show "\<forall>r\<in>set (aggregate_required p m (map (\<lambda>(i, j). the_cell p view m' cs i j) ps)).
      cr_outcome r \<in> {PO_NOT_DIVERSE, PO_UNKNOWN_INCOMPLETE_EVIDENCE, PO_PROVEN_DIVERSE}"
    by (auto simp: aggregate_required_def aggregate_class_simps)
  show "(\<exists>r\<in>set (aggregate_required p m (map (\<lambda>(i, j). the_cell p view m' cs i j) ps)). cr_outcome r = PO_NOT_DIVERSE) \<longleftrightarrow>
      (\<exists>k\<in>set (dp_required_classes p). \<exists>(i, j)\<in>set ps. class_shares k p view (cs ! i) (cs ! j) \<noteq> {})"
    using decided by (auto simp: aggregate_required_def)
  show "(\<exists>r\<in>set (aggregate_required p m (map (\<lambda>(i, j). the_cell p view m' cs i j) ps)). cr_outcome r = PO_UNKNOWN_INCOMPLETE_EVIDENCE) \<longleftrightarrow>
      (\<exists>k\<in>set (dp_required_classes p). \<not> (\<exists>(i, j)\<in>set ps. class_shares k p view (cs ! i) (cs ! j) \<noteq> {}) \<and>
         (\<exists>(i, j)\<in>set ps. \<not> class_known k p view (cs ! i) (cs ! j)))"
    using decided by (auto simp: aggregate_required_def)
qed


lemma cells_within_cells:
  assumes "length (pm_order mx) = n" "pm_cells mx = map (\<lambda>(i, j). f i j) (pairs n)" "n < 2 ^ 32"
    and "sorted_wrt (<) W" "set W \<subseteq> {..<n}"
  shows "cells_within mx W = map (\<lambda>(i, j). f i j) (map (\<lambda>(a, b). (W ! a, W ! b)) (pairs (length W)))"
proof -
  have cell: "matrix_at mx (W ! a) (W ! b) = Some (f (W ! a) (W ! b))" if "a < b" "b < length W" for a b
  proof (rule matrix_at_cells(1) [OF assms(1-3)])
    show "W ! a < W ! b" using assms(4) that by (simp add: sorted_wrt_iff_nth_less)
    show "W ! b < n" using assms(5) that nth_mem by fastforce
  qed
  have row: "concat (map (\<lambda>b. case matrix_at mx (W ! a) (W ! b) of None \<Rightarrow> [] | Some cell \<Rightarrow> [cell]) [Suc a..<length W]) =
      map (\<lambda>b. f (W ! a) (W ! b)) [Suc a..<length W]" for a
  proof -
    have "map (\<lambda>b. case matrix_at mx (W ! a) (W ! b) of None \<Rightarrow> [] | Some cell \<Rightarrow> [cell]) [Suc a..<length W] =
        map (\<lambda>b. [f (W ! a) (W ! b)]) [Suc a..<length W]"
      by (rule map_cong) (auto simp: cell)
    then have "concat (map (\<lambda>b. case matrix_at mx (W ! a) (W ! b) of None \<Rightarrow> [] | Some cell \<Rightarrow> [cell]) [Suc a..<length W]) =
        concat (map (\<lambda>b. [f (W ! a) (W ! b)]) [Suc a..<length W])" by (rule arg_cong)
    then show ?thesis by (simp only: concat_map_singleton)
  qed
  show ?thesis
    by (simp add: cells_within_def row pairs_def row_pairs_def map_concat comp_def)
qed

lemma pair_proven_known:
  "pair_proven p view l r \<Longrightarrow> k \<in> set (dp_required_classes p) \<Longrightarrow> class_shares k p view l r = {} \<and> class_known k p view l r"
  by (simp add: pair_proven_def)

lemma pair_proven_sym: "pair_proven p view l r = pair_proven p view r l"
  by (simp add: pair_proven_def single_rule.shares_sym [of _ p view l r] single_rule.known_sym [of _ p view l r])

lemma pair_shares_sym: "pair_shares p view l r = pair_shares p view r l"
  by (simp add: pair_shares_def single_rule.shares_sym [of _ p view l r])

text \<open>The facts an admitted evaluation starts from, and the matrix it builds.\<close>

definition admitted ::
  "diversity_policy \<Rightarrow> evaluation_inputs \<Rightarrow> failure_domain_view \<Rightarrow> limits \<Rightarrow> path_ref list \<Rightarrow>
   path_composition list \<Rightarrow> bool" where
  "admitted p inputs view l paths cs \<longleftrightarrow>
     in_domains inputs = Some view \<and> canonical_policy p \<and> 0 < max_conflicts_per_proof l \<and>
     (\<forall>c\<in>set cs. pc_sorted c) \<and> length paths = length cs \<and> length cs < 2 ^ 32"

lemma admittedD:
  assumes "admitted p inputs view l paths cs"
  shows "in_domains inputs = Some view" "canonical_policy p" "0 < max_conflicts_per_proof l"
    "\<forall>c\<in>set cs. pc_sorted c" "length paths = length cs" "length cs < 2 ^ 32"
  using assms by (simp_all add: admitted_def)

definition the_matrix ::
  "diversity_policy \<Rightarrow> failure_domain_view \<Rightarrow> limits \<Rightarrow> path_ref list \<Rightarrow> path_composition list \<Rightarrow> pairwise_matrix" where
  "the_matrix p view l paths cs =
     \<lparr>pm_order = map pr_path paths,
      pm_cells = map (\<lambda>(i, j). the_cell p view (max_conflicts_per_proof l) cs i j) (pairs (length cs))\<rparr>"

lemma admitted_evaluated:
  assumes "admitted p inputs view l paths cs"
  shows "fst (evaluate_pairs p inputs (max_conflicts_per_proof l) cs) = pm_cells (the_matrix p view l paths cs)"
  using evaluate_pairs_cells admittedD [OF assms] by (simp add: the_matrix_def)

lemma matrix_order [simp]: "length (pm_order (the_matrix p view l paths cs)) = length paths"
  by (simp add: the_matrix_def)

lemma matrix_cell_at:
  assumes "admitted p inputs view l paths cs" "i < j" "j < length cs"
  shows "matrix_at (the_matrix p view l paths cs) i j = Some (the_cell p view (max_conflicts_per_proof l) cs i j)"
    "matrix_at (the_matrix p view l paths cs) j i = Some (the_cell p view (max_conflicts_per_proof l) cs i j)"
  using matrix_at_cells [OF _ _ _ assms(2,3), of "the_matrix p view l paths cs"] admittedD [OF assms(1)]
  by (simp_all add: the_matrix_def)

lemma matrix_conflict_iff:
  assumes A: "admitted p inputs view l paths cs" and ij: "i < length cs" "j < length cs" "i \<noteq> j"
  shows "pair_conflict (the_matrix p view l paths cs) i j \<longleftrightarrow> \<not> pair_proven p view (cs ! i) (cs ! j)"
    and "edge (graph_from_matrix (the_matrix p view l paths cs) True) i j \<longleftrightarrow> pair_shares p view (cs ! i) (cs ! j)"
proof -
  let ?m = "the_matrix p view l paths cs"
  have sorted: "pc_sorted (cs ! i)" if "i < length cs" for i
    using admittedD(4) [OF A] that by simp
  have lt: "(pair_conflict ?m i j \<longleftrightarrow> \<not> pair_proven p view (cs ! i) (cs ! j)) \<and>
      (edge (graph_from_matrix ?m True) i j \<longleftrightarrow> pair_shares p view (cs ! i) (cs ! j))"
    if "i < j" "j < length cs" for i j
    using that the_cell_independent(1,2) [OF sorted sorted, of i j p view "max_conflicts_per_proof l"]
    by (simp add: pair_conflict_def matrix_cell_at [OF A] edge_graph_from_matrix cell_conflict_def admittedD [OF A])
  consider "i < j" | "j < i" using ij(3) by linarith
  then have "(pair_conflict ?m i j \<longleftrightarrow> \<not> pair_proven p view (cs ! i) (cs ! j)) \<and>
      (edge (graph_from_matrix ?m True) i j \<longleftrightarrow> pair_shares p view (cs ! i) (cs ! j))"
  proof cases
    case 1
    then show ?thesis using lt ij(2) by blast
  next
    case 2
    then show ?thesis
      using lt [OF 2 ij(1)] pair_graph.sym [of ?m i j] matrix_graph.sym [of ?m True i j]
        pair_proven_sym [of p view "cs ! i"] pair_shares_sym [of p view "cs ! i"] by simp
  qed
  then show "pair_conflict ?m i j \<longleftrightarrow> \<not> pair_proven p view (cs ! i) (cs ! j)"
    and "edge (graph_from_matrix ?m True) i j \<longleftrightarrow> pair_shares p view (cs ! i) (cs ! j)" by blast+
qed

lemma proven_subset_iff:
  assumes A: "admitted p inputs view l paths cs"
  shows "proven_subset p view cs S \<longleftrightarrow>
    S \<subseteq> {..<length cs} \<and> indep (pair_conflict (the_matrix p view l paths cs)) S"
proof (cases "S \<subseteq> {..<length cs}")
  case True
  then have "pair_conflict (the_matrix p view l paths cs) i j \<longleftrightarrow> \<not> pair_proven p view (cs ! i) (cs ! j)"
    if "i \<in> S" "j \<in> S" "i < j" for i j
    using that by (intro matrix_conflict_iff(1) [OF A]) auto
  then show ?thesis using True by (auto simp: proven_subset_def pair_graph.indep_ordered)
qed (simp add: proven_subset_def)

lemma conflict_free_subset_iff:
  assumes A: "admitted p inputs view l paths cs"
  shows "conflict_free_subset p view cs S \<longleftrightarrow>
    S \<subseteq> {..<length cs} \<and> indep (edge (graph_from_matrix (the_matrix p view l paths cs) True)) S"
proof (cases "S \<subseteq> {..<length cs}")
  case True
  then have "edge (graph_from_matrix (the_matrix p view l paths cs) True) i j \<longleftrightarrow> pair_shares p view (cs ! i) (cs ! j)"
    if "i \<in> S" "j \<in> S" "i < j" for i j
    using that by (intro matrix_conflict_iff(2) [OF A]) auto
  then show ?thesis using True by (auto simp: conflict_free_subset_def matrix_graph.indep_ordered)
qed (simp add: conflict_free_subset_def)

lemma achieves_iff: "finite S \<Longrightarrow> k \<le> alpha E S \<longleftrightarrow> (\<exists>T. T \<subseteq> S \<and> indep E T \<and> k \<le> card T)"
proof -
  assume fin: "finite S"
  obtain T where "maximum_indep E S T" using alpha_attained [OF fin] by blast
  note T = maximum_indepD [OF this]
  show ?thesis
  proof
    assume "k \<le> alpha E S"
    then show "\<exists>T. T \<subseteq> S \<and> indep E T \<and> k \<le> card T" using T(1-3) by (intro exI [of _ T]) simp
  next
    assume "\<exists>T. T \<subseteq> S \<and> indep E T \<and> k \<le> card T"
    then show "k \<le> alpha E S" using alpha_ge [OF fin] order_trans by blast
  qed
qed

lemma least_witness_length: "least_witness E S W \<Longrightarrow> length W = alpha E S"
  using distinct_card [of W] by (simp add: least_witness_def maximum_indep_def sorted_wrt_less_iff)

text \<open>What an admitted evaluation hands to the set stage.\<close>

lemma admitted_outcome:
  assumes A: "admitted p inputs view l paths cs"
    and stage: "set_stage ob l p (the_matrix p view l paths cs) (length cs) = Inr st"
  shows "ev_outcome (evaluate_admitted ob l p inputs paths cs footprint) =
      fst (decide_outcome p st (aggregate_required p (max_conflicts_per_proof l) (st_cells st)))"
    and "ev_witness (evaluate_admitted ob l p inputs paths cs footprint) = st_witness st"
    and "ev_matrix (evaluate_admitted ob l p inputs paths cs footprint) = the_matrix p view l paths cs"
proof -
  obtain ds gs where E: "evaluate_pairs p inputs (max_conflicts_per_proof l) cs = (pm_cells (the_matrix p view l paths cs), ds, gs)"
    using admitted_evaluated [OF A] by (cases "evaluate_pairs p inputs (max_conflicts_per_proof l) cs") auto
  have m: "\<lparr>pm_order = map pr_path paths, pm_cells = pm_cells (the_matrix p view l paths cs)\<rparr> = the_matrix p view l paths cs"
    by (simp add: the_matrix_def)
  show "ev_outcome (evaluate_admitted ob l p inputs paths cs footprint) =
      fst (decide_outcome p st (aggregate_required p (max_conflicts_per_proof l) (st_cells st)))"
    and "ev_witness (evaluate_admitted ob l p inputs paths cs footprint) = st_witness st"
    and "ev_matrix (evaluate_admitted ob l p inputs paths cs footprint) = the_matrix p view l paths cs"
    by (simp_all add: evaluate_admitted_def E m Let_def stage admittedD [OF A] split_beta)
qed

section \<open>Every pair of the set\<close>

lemma outcome_all_pairs:
  assumes A: "admitted p inputs view l paths cs" and "dp_semantics p = SS_ALL_PAIRS"
  shows "ev_outcome (evaluate_admitted ob l p inputs paths cs footprint) = all_pairs_outcome p view cs"
proof -
  let ?m = "max_conflicts_per_proof l"
  define st where "st = \<lparr>st_witness = empty_witness, st_cells = pm_cells (the_matrix p view l paths cs),
    st_witness_found = False, st_outcome = PO_MALFORMED, st_detail = []\<rparr>"
  let ?rs = "aggregate_required p ?m (st_cells st)"
  have "set_stage ob l p (the_matrix p view l paths cs) (length cs) = Inr st"
    using assms(2) by (simp add: set_stage_def st_def)
  then have "ev_outcome (evaluate_admitted ob l p inputs paths cs footprint) = fst (classify_outcome p st ?rs)"
    by (simp add: admitted_outcome [OF A] fst_decide_outcome) (simp add: st_def)
  moreover have cells: "st_cells st = map (\<lambda>(i, j). the_cell p view ?m cs i j) (pairs (length cs))"
    by (simp add: st_def the_matrix_def)
  have range: "\<forall>(i, j)\<in>set (pairs (length cs)). i < length cs \<and> j < length cs"
    by (auto simp: set_pairs)
  note agg = aggregate_required_cells [OF admittedD(4) [OF A] range, of p ?m view ?m, folded cells]
  have each: "(\<exists>(i, j)\<in>set (pairs (length cs)). Q i j) \<longleftrightarrow> (\<exists>i j. i < j \<and> j < length cs \<and> Q i j)" for Q
    by (auto simp: set_pairs)
  ultimately show ?thesis
    by (simp only: classify_outcome_cases [OF agg(1)] agg(2,3) each all_pairs_outcome_def class_conflicts_def
        class_unknown_def)
qed

section \<open>At least k independent paths\<close>

lemma certain_witness:
  assumes A: "admitted p inputs view l paths cs" and small: "length cs \<le> 32"
  defines "mx \<equiv> the_matrix p view l paths cs"
  defines "W \<equiv> mis_witness (graph_from_matrix mx False)"
  shows "solve_certain (graph_from_matrix mx False) (length cs) = (W, True)"
    and "least_witness (pair_conflict mx) {..<length cs} W"
    and "proven_subset p view cs (set W)"
    and "k \<le> length W \<longleftrightarrow> (\<exists>S. proven_subset p view cs S \<and> k \<le> card S)"
proof -
  note order = admittedD(5) [OF A]
  show "solve_certain (graph_from_matrix mx False) (length cs) = (W, True)"
    unfolding W_def mx_def using small by (intro solve_certain_correct) (simp_all add: small_graph_def order)
  show least: "least_witness (pair_conflict mx) {..<length cs} W"
    unfolding W_def mx_def using mis_witness_matrix [of "the_matrix p view l paths cs"] small by (simp add: order)
  show "proven_subset p view cs (set W)"
    using least by (simp add: least_witness_def maximum_indep_def proven_subset_iff [OF A] mx_def)
  show "k \<le> length W \<longleftrightarrow> (\<exists>S. proven_subset p view cs S \<and> k \<le> card S)"
    by (simp add: least_witness_length [OF least] achieves_iff proven_subset_iff [OF A] conj_assoc mx_def)
qed

lemma optimistic_witness:
  assumes A: "admitted p inputs view l paths cs" and small: "length cs \<le> 32"
  shows "k \<le> length (sorted_indices_of (mis_witness (graph_from_matrix (the_matrix p view l paths cs) True))) \<longleftrightarrow>
    (\<exists>S. conflict_free_subset p view cs S \<and> k \<le> card S)"
proof -
  let ?g = "graph_from_matrix (the_matrix p view l paths cs) True"
  have "least_witness (edge ?g) {..<length cs} (mis_witness ?g)"
    using mis_witness_correct [of ?g] small by (simp add: small_graph_def admittedD [OF A])
  then show ?thesis
    by (simp add: sorted_indices_of_def least_witness_length achieves_iff conflict_free_subset_iff [OF A] conj_assoc)
qed

lemma witness_classes_proven:
  assumes A: "admitted p inputs view l paths cs"
    and W: "sorted_wrt (<) W" "proven_subset p view cs (set W)"
  shows "fst (classify_outcome p st (aggregate_required p m (cells_within (the_matrix p view l paths cs) W))) = PO_PROVEN_DIVERSE"
proof -
  let ?ps = "map (\<lambda>(a, b). (W ! a, W ! b)) (pairs (length W))"
  let ?rs = "aggregate_required p m (cells_within (the_matrix p view l paths cs) W)"
  have sub: "set W \<subseteq> {..<length cs}" using W(2) by (simp add: proven_subset_def)
  have cells: "cells_within (the_matrix p view l paths cs) W =
      map (\<lambda>(i, j). the_cell p view (max_conflicts_per_proof l) cs i j) ?ps"
    by (rule cells_within_cells [where n = "length cs"])
      (use admittedD [OF A] W(1) sub in \<open>simp_all add: the_matrix_def\<close>)
  have ps: "pair_proven p view (cs ! i) (cs ! j) \<and> i < length cs \<and> j < length cs" if ij: "(i, j) \<in> set ?ps" for i j
  proof -
    obtain a b where ab: "a < b" "b < length W" "i = W ! a" "j = W ! b" using ij by (auto simp: set_pairs)
    then have "i < j" using W(1) by (simp add: sorted_wrt_iff_nth_less)
    moreover have "i \<in> set W" "j \<in> set W" using ab by auto
    ultimately show ?thesis using W(2) sub by (auto simp: proven_subset_def)
  qed
  then have range: "\<forall>(i, j)\<in>set ?ps. i < length cs \<and> j < length cs" by blast
  note agg = aggregate_required_cells [OF admittedD(4) [OF A] range, of p m view "max_conflicts_per_proof l", folded cells]
  have "\<not> (\<exists>(i, j)\<in>set ?ps. class_shares k p view (cs ! i) (cs ! j) \<noteq> {})"
    "\<not> (\<exists>(i, j)\<in>set ?ps. \<not> class_known k p view (cs ! i) (cs ! j))" if "k \<in> set (dp_required_classes p)" for k
    using ps pair_proven_known [OF _ that] by blast+
  then have "\<not> (\<exists>r\<in>set ?rs. cr_outcome r = PO_NOT_DIVERSE)"
    "\<not> (\<exists>r\<in>set ?rs. cr_outcome r = PO_UNKNOWN_INCOMPLETE_EVIDENCE)"
    unfolding agg(2,3) by blast+
  then show ?thesis by (simp only: classify_outcome_cases [OF agg(1)]) simp
qed

lemma outcome_k:
  assumes A: "admitted p inputs view l paths cs"
    and p: "dp_semantics p = SS_AT_LEAST_K_INDEPENDENT" "length cs \<le> max_k_subset_paths l" "length cs \<le> 32"
    and result: "result = evaluate_admitted ob l p inputs paths cs footprint"
  shows "ev_outcome result = k_independent_outcome p view cs"
    and "ws_maximum_exact (ev_witness result)"
    and "ws_achieved (ev_witness result) = alpha (pair_conflict (ev_matrix result)) {..<length cs}"
    and "ev_outcome result = PO_PROVEN_DIVERSE \<Longrightarrow>
      proven_subset p view cs (set (ws_indices (ev_witness result))) \<and>
      least_witness (pair_conflict (ev_matrix result)) {..<length cs} (ws_indices (ev_witness result)) \<and>
      dp_minimum_independent_paths p \<le> length (ws_indices (ev_witness result))"
proof -
  let ?mx = "the_matrix p view l paths cs" and ?k = "dp_minimum_independent_paths p"
  define W where "W = mis_witness (graph_from_matrix ?mx False)"
  define V where "V = sorted_indices_of (mis_witness (graph_from_matrix ?mx True))"
  define st where "st = k_independent_stage p ?mx (length cs)"
  note certain = certain_witness [OF A p(3), folded W_def]
  note optimistic = optimistic_witness [OF A p(3), folded V_def]
  have stage: "set_stage ob l p ?mx (length cs) = Inr st"
    using p by (simp add: set_stage_def st_def)
  note eval = admitted_outcome [OF A stage, of footprint, folded result]
  have st: "st_witness st = k_witness ?k W True (if ?k \<le> length W then W else if ?k \<le> length V then V else W)"
    "st_cells st = (if ?k \<le> length W then cells_within ?mx W else pm_cells ?mx)"
    "st_outcome st = (if ?k \<le> length W then PO_MALFORMED else if ?k \<le> length V then unknown_outcome p else PO_NOT_DIVERSE)"
    by (simp_all add: st_def k_independent_stage_def certain(1) Let_def flip: V_def)
  have sorted: "sorted_wrt (<) W" using certain(2) by (simp add: least_witness_def)
  have proven: "ev_outcome result = PO_PROVEN_DIVERSE" if "?k \<le> length W"
    using that witness_classes_proven [OF A sorted certain(3)] by (simp add: eval fst_decide_outcome st)
  have other: "ev_outcome result = (if ?k \<le> length V then unknown_outcome p else PO_NOT_DIVERSE)" if "\<not> ?k \<le> length W"
    using that unknown_outcome_cases [of p] by (auto simp: eval fst_decide_outcome st)
  show "ev_outcome result = k_independent_outcome p view cs"
    unfolding k_independent_outcome_def certain(4) [symmetric] optimistic [symmetric]
    using proven other by auto
  show "ws_maximum_exact (ev_witness result)"
    "ws_achieved (ev_witness result) = alpha (pair_conflict (ev_matrix result)) {..<length cs}"
    by (simp_all add: eval st k_witness_def least_witness_length [OF certain(2)])
  assume "ev_outcome result = PO_PROVEN_DIVERSE"
  then have "?k \<le> length W"
    using other unknown_outcome_cases [of p] by (cases "?k \<le> length W") (auto split: if_splits)
  then show "proven_subset p view cs (set (ws_indices (ev_witness result))) \<and>
      least_witness (pair_conflict (ev_matrix result)) {..<length cs} (ws_indices (ev_witness result)) \<and>
      ?k \<le> length (ws_indices (ev_witness result))"
    using certain(2,3) by (simp add: eval st k_witness_def)
qed

section \<open>Requests that reach the pairwise stage\<close>

lemma dp_canonicalize_fields [simp]:
  "dp_require_authority_current (dp_canonicalize p) = dp_require_authority_current p"
  "dp_semantics (dp_canonicalize p) = dp_semantics p"
  "dp_completeness (dp_canonicalize p) = dp_completeness p"
  "dp_minimum_independent_paths (dp_canonicalize p) = dp_minimum_independent_paths p"
  "set (dp_required_classes (dp_canonicalize p)) = set (dp_required_classes p)"
  "unknown_outcome (dp_canonicalize p) = unknown_outcome p"
  by (simp_all add: dp_canonicalize_def unknown_outcome_def)

lemma class_shares_canonical [simp]:
  "class_shares k (dp_canonicalize p) view (pc_canonicalize l) (pc_canonicalize r) = class_shares k p view l r"
  by (cases k) (simp_all add: class_shares_def shared_domains_def domain_members_def srlg_members_def nodes_of_def
      exempt_nodes_def path_entities_def pc_canonicalize_def dp_canonicalize_def split: endpoint_exemption.split)

lemma class_known_canonical [simp]:
  "class_known k (dp_canonicalize p) view (pc_canonicalize l) (pc_canonicalize r) = class_known k p view l r"
  by (cases k) (simp_all add: class_known_def relation_known_def domain_known_def srlg_known_def path_entities_def
      pc_canonicalize_def dp_canonicalize_def)

lemma pair_proven_canonical [simp]:
  "pair_proven (dp_canonicalize p) view (pc_canonicalize l) (pc_canonicalize r) = pair_proven p view l r"
  by (simp add: pair_proven_def)

lemma pair_shares_canonical [simp]:
  "pair_shares (dp_canonicalize p) view (pc_canonicalize l) (pc_canonicalize r) = pair_shares p view l r"
  by (simp add: pair_shares_def)

text \<open>The composition a path is bound to: the one the structure view holds, derived under the bound
  authority generation and the observed topology, with no repeated element.\<close>

definition bound_composition :: "path_structure_view \<Rightarrow> path_ref \<Rightarrow> path_composition \<Rightarrow> bool" where
  "bound_composition view r c \<longleftrightarrow>
     sv_composition view (pr_path r) = Some c \<and> pc_authority_generation c = pr_generation r \<and>
     pc_topology_generation c = sv_topology_generation view \<and>
     distinct (pc_sources c) \<and> distinct (pc_destinations c) \<and> distinct (pc_transit_nodes c) \<and>
     distinct (pc_links c) \<and> distinct (pc_devices c)"

lemma repeated_topology_eq:
  "has_repeated_topology_elements (pc_canonicalize c) \<longleftrightarrow>
     \<not> (distinct (pc_sources c) \<and> distinct (pc_destinations c) \<and> distinct (pc_transit_nodes c) \<and>
     distinct (pc_links c) \<and> distinct (pc_devices c))"
  using repeated_topology_iff [of c] by blast

lemma resolve_path_Inr:
  assumes "ob_topology ob = sv_topology_generation view"
  shows "resolve_path ob view r = Inr c \<longleftrightarrow> (\<exists>c0. bound_composition view r c0 \<and> c = pc_canonicalize c0)"
  using assms
  by (auto simp: resolve_path_def bound_composition_def Let_def repeated_topology_eq split: option.splits)

lemma resolve_paths_Inr:
  "resolve_paths ob view rs cs fp = Inr (cs', fp') \<Longrightarrow>
     \<exists>new. cs' = cs @ new \<and> list_all2 (\<lambda>r c. resolve_path ob view r = Inr c) rs new"
proof (induction rs arbitrary: cs fp)
  case (Cons r rs)
  then obtain c where c: "resolve_path ob view r = Inr c"
    "resolve_paths ob view rs (cs @ [c]) (fp @ path_entities c) = Inr (cs', fp')"
    by (auto split: sum.splits)
  obtain new where "cs' = (cs @ [c]) @ new" "list_all2 (\<lambda>r c. resolve_path ob view r = Inr c) rs new"
    using Cons.IH [OF c(2)] by blast
  then show ?case using c(1) by (intro exI [of _ "c # new"]) simp
qed simp

lemma resolve_structure_Inr:
  assumes "ob_topology ob = sv_topology_generation view" "resolve_structure ob l view rs = Inr (cs, fp)"
  shows "list_all2 (\<lambda>r c. \<exists>c0. bound_composition view r c0 \<and> c = pc_canonicalize c0) rs cs"
proof -
  obtain fp' where "resolve_paths ob view rs [] [] = Inr (cs, fp')"
    using assms(2) by (auto simp: resolve_structure_def Let_def split: sum.splits if_splits)
  from resolve_paths_Inr [OF this] have "list_all2 (\<lambda>r c. resolve_path ob view r = Inr c) rs cs" by simp
  then show ?thesis by (rule list_all2_mono) (simp add: resolve_path_Inr [OF assms(1)])
qed

lemma admit_request_Inr:
  assumes "admit_request ob l p request = Inr rs"
  shows "self_consistent l" "pv_ok (validate_policy p l)" "distinct (map pr_path (rq_paths request))"
    "rs = sort (rq_paths request)" "2 \<le> length rs" "length rs \<le> max_paths_per_proof l"
proof -
  have dup: "fst (rq_canonicalize request) \<longleftrightarrow> distinct (map pr_path (rq_paths request))"
    and sorted: "snd (rq_canonicalize request) = request\<lparr>rq_paths := sort (rq_paths request)\<rparr>" by simp_all
  obtain unique canonical where rq: "rq_canonicalize request = (unique, canonical)" by fastforce
  show "self_consistent l" "pv_ok (validate_policy p l)" "distinct (map pr_path (rq_paths request))"
    "rs = sort (rq_paths request)" "2 \<le> length rs" "length rs \<le> max_paths_per_proof l"
    using assms dup sorted
    by (auto simp: admit_request_def admit_paths_def Let_def rq split: if_splits)
qed

text \<open>A request that passes steps 1 to 3.\<close>

definition passes ::
  "proof_request \<Rightarrow> diversity_policy \<Rightarrow> evaluation_inputs \<Rightarrow> observation \<Rightarrow> limits \<Rightarrow>
   path_ref list \<Rightarrow> path_composition list \<Rightarrow> entity_ref list \<Rightarrow> bool" where
  "passes request policy inputs ob l rs cs fp \<longleftrightarrow>
     (\<exists>authority topology domains.
        in_authority inputs = Some authority \<and> in_structure inputs = Some topology \<and>
        in_domains inputs = Some domains \<and> in_limits inputs = Some l \<and>
        ob = \<lparr>ob_topology = sv_topology_generation topology, ob_domains = fv_generation domains, ob_observed = True\<rparr> \<and>
        admit_request ob l (dp_canonicalize policy) request = Inr rs \<and>
        (dp_require_authority_current policy \<longrightarrow> check_authority ob authority rs = None) \<and>
        resolve_structure ob l topology rs = Inr (cs, fp))"

lemma passes_evaluate:
  assumes "passes request policy inputs ob l rs cs fp"
  shows "evaluate_diversity request policy inputs = evaluate_admitted ob l (dp_canonicalize policy) inputs rs cs fp"
  using assms
  by (auto simp: passes_def evaluate_diversity_def evaluate_under_def)

lemma passes_admitted:
  assumes P: "passes request policy inputs ob l rs cs fp" and view: "in_domains inputs = Some view" and wf: "limits_wf l"
  shows "admitted (dp_canonicalize policy) inputs view l rs cs"
proof -
  obtain topology where S: "admit_request ob l (dp_canonicalize policy) request = Inr rs"
    "resolve_structure ob l topology rs = Inr (cs, fp)" "ob_topology ob = sv_topology_generation topology"
    using P by (auto simp: passes_def)
  note rs = admit_request_Inr [OF S(1)]
  note cs = resolve_structure_Inr [OF S(3,2)]
  have "pc_sorted c" if "c \<in> set cs" for c
    using cs that by (auto simp: list_all2_conv_all_nth in_set_conv_nth)
  moreover have "length rs < 2 ^ 32" using rs(6) wf by (simp add: limits_wf_def)
  moreover have "0 < max_conflicts_per_proof l" using rs(1) by (simp add: self_consistent_def split: if_splits)
  ultimately show ?thesis using list_all2_lengthD [OF cs] by (simp add: admitted_def view)
qed

lemma reject_outcome [simp]:
  "ev_outcome (reject ob out d) = out" "ev_outcome (reject_limit ob b x y d) = PO_RESOURCE_LIMIT"
  by (simp_all add: reject_def reject_limit_def default_result_def)

definition rejected_outcome :: "proof_outcome \<Rightarrow> bool" where
  "rejected_outcome out \<longleftrightarrow> out \<in> {PO_MALFORMED, PO_RESOURCE_LIMIT, PO_UNAUTHORIZED, PO_STALE_PATH_AUTHORITY, PO_STALE_TOPOLOGY}"

lemma check_authority_rejects: "check_authority ob view rs = Some e \<Longrightarrow> rejected_outcome (ev_outcome e)"
  by (induction rs) (auto simp: rejected_outcome_def split: option.splits if_splits)

lemma resolve_paths_rejects: "resolve_paths ob view rs cs fp = Inl e \<Longrightarrow> rejected_outcome (ev_outcome e)"
  by (induction rs arbitrary: cs fp)
    (auto simp: rejected_outcome_def resolve_path_def Let_def split: option.splits if_splits sum.splits)

lemma resolve_structure_rejects: "resolve_structure ob l view rs = Inl e \<Longrightarrow> rejected_outcome (ev_outcome e)"
  by (auto simp: resolve_structure_def Let_def rejected_outcome_def split: sum.splits if_splits
      dest: resolve_paths_rejects)

lemma admit_request_rejects: "admit_request ob l p request = Inl e \<Longrightarrow> rejected_outcome (ev_outcome e)"
  by (auto simp: admit_request_def admit_paths_def Let_def rejected_outcome_def split: if_splits prod.splits)

lemma decided_passes:
  assumes "\<not> rejected_outcome (ev_outcome (evaluate_diversity request policy inputs))"
  shows "\<exists>ob l rs cs fp. passes request policy inputs ob l rs cs fp"
proof -
  have some: "\<exists>authority topology domains l. in_authority inputs = Some authority \<and> in_structure inputs = Some topology \<and>
      in_domains inputs = Some domains \<and> in_limits inputs = Some l"
    using assms by (cases "in_authority inputs"; cases "in_structure inputs"; cases "in_domains inputs"; cases "in_limits inputs")
      (simp_all add: evaluate_diversity_def rejected_outcome_def)
  then obtain authority topology domains l where I: "in_authority inputs = Some authority"
    "in_structure inputs = Some topology" "in_domains inputs = Some domains" "in_limits inputs = Some l" by blast
  define ob where "ob = \<lparr>ob_topology = sv_topology_generation topology, ob_domains = fv_generation domains, ob_observed = True\<rparr>"
  have E: "\<not> rejected_outcome (ev_outcome (evaluate_under ob l authority topology inputs (dp_canonicalize policy) request))"
    using assms by (simp add: evaluate_diversity_def I ob_def)
  obtain rs where R: "admit_request ob l (dp_canonicalize policy) request = Inr rs"
    using E admit_request_rejects by (auto simp: evaluate_under_def split: sum.splits)
  have A: "dp_require_authority_current policy \<longrightarrow> check_authority ob authority rs = None"
    using E check_authority_rejects by (auto simp: evaluate_under_def R split: option.splits)
  obtain cs fp where "resolve_structure ob l topology rs = Inr (cs, fp)"
    using E A resolve_structure_rejects by (auto simp: evaluate_under_def R split: sum.splits)
  then have "passes request policy inputs ob l rs cs fp"
    unfolding passes_def using I R A ob_def by blast
  then show ?thesis by blast
qed

lemma passes_paths:
  assumes P: "passes request policy inputs ob l rs cs fp" and topology: "in_structure inputs = Some topology"
  shows "rs = sort (rq_paths request)" "distinct rs" "length cs = length rs"
    "i < length rs \<Longrightarrow> \<exists>c. bound_composition topology (rs ! i) c \<and> cs ! i = pc_canonicalize c"
proof -
  have S: "admit_request ob l (dp_canonicalize policy) request = Inr rs"
    "resolve_structure ob l topology rs = Inr (cs, fp)" "ob_topology ob = sv_topology_generation topology"
    using P topology by (auto simp: passes_def)
  show rs: "rs = sort (rq_paths request)" by (rule admit_request_Inr(4) [OF S(1)])
  show "distinct rs" using admit_request_Inr(3) [OF S(1)] by (simp add: rs distinct_map)
  note cs = resolve_structure_Inr [OF S(3,2)]
  show "length cs = length rs" using list_all2_lengthD [OF cs] by simp
  show "\<exists>c. bound_composition topology (rs ! i) c \<and> cs ! i = pc_canonicalize c" if "i < length rs"
    using cs that by (simp add: list_all2_conv_all_nth)
qed

lemma passes_pair:
  assumes P: "passes request policy inputs ob l rs cs fp" and topology: "in_structure inputs = Some topology"
    and ij: "i < length rs" "j < length rs"
  shows "\<exists>c d. bound_composition topology (rs ! i) c \<and> bound_composition topology (rs ! j) d \<and>
     pair_proven (dp_canonicalize policy) view (cs ! i) (cs ! j) = pair_proven policy view c d \<and>
     pair_shares (dp_canonicalize policy) view (cs ! i) (cs ! j) = pair_shares policy view c d"
  using passes_paths(4) [OF P topology ij(1)] passes_paths(4) [OF P topology ij(2)] by force

lemma all_pairs_outcome_decisive:
  "all_pairs_outcome p view cs = PO_PROVEN_DIVERSE \<longleftrightarrow>
     (\<forall>i j. i < j \<and> j < length cs \<longrightarrow> pair_proven p view (cs ! i) (cs ! j))"
  "all_pairs_outcome p view cs = PO_NOT_DIVERSE \<Longrightarrow>
     \<exists>i j. i < j \<and> j < length cs \<and> pair_shares p view (cs ! i) (cs ! j)"
  using unknown_outcome_cases [of p]
  by (auto simp: all_pairs_outcome_def class_unknown_def class_conflicts_def pair_proven_def pair_shares_def
      split: if_splits)

lemma k_independent_outcome_decisive:
  "k_independent_outcome p view cs = PO_NOT_DIVERSE \<longleftrightarrow>
     \<not> (\<exists>S. proven_subset p view cs S \<and> dp_minimum_independent_paths p \<le> card S) \<and>
     \<not> (\<exists>S. conflict_free_subset p view cs S \<and> dp_minimum_independent_paths p \<le> card S)"
  using unknown_outcome_cases [of p] by (auto simp: k_independent_outcome_def)

text \<open>Under either semantics a set stage that does not stop on the subset bound decides by the specification.\<close>

lemma decided_k:
  assumes P: "passes request policy inputs ob l rs cs fp" and view: "in_domains inputs = Some view" and wf: "limits_wf l"
    and topology: "in_structure inputs = Some topology"
    and k: "dp_semantics policy = SS_AT_LEAST_K_INDEPENDENT"
    and decided: "ev_outcome (evaluate_diversity request policy inputs) \<noteq> PO_RESOURCE_LIMIT"
  shows "length cs \<le> max_k_subset_paths l" "length cs \<le> 32"
proof -
  have "length rs = length cs" using passes_paths(3) [OF P topology] by simp
  then have "length cs \<le> max_k_subset_paths l \<and> length cs \<le> 32"
    using decided k
    by (auto simp: passes_evaluate [OF P] evaluate_admitted_def set_stage_def Let_def split: prod.splits if_splits)
  then show "length cs \<le> max_k_subset_paths l" "length cs \<le> 32" by simp_all
qed

section \<open>Sample inputs\<close>

definition sample_ref :: "string \<Rightarrow> path_ref" where
  "sample_ref name = PathRef (StringId name) (Generation 1)"

definition sample_composition :: "string \<Rightarrow> string \<Rightarrow> path_composition" where
  "sample_composition name link =
     default_path_composition\<lparr>pc_path := StringId name, pc_authority_generation := Generation 1,
       pc_topology_generation := Generation 1, pc_links := [StringId link]\<rparr>"

definition sample_topology :: path_structure_view where
  "sample_topology =
     \<lparr>sv_topology_generation = Generation 1,
      sv_composition = (\<lambda>p. map_of [(''a'', sample_composition ''a'' ''x''), (''b'', sample_composition ''b'' ''y''),
        (''c'', sample_composition ''c'' ''x'')] (id_view p))\<rparr>"

definition sample_authority :: path_authority_view where
  "sample_authority =
     \<lparr>av_current_generation = \<lambda>p. Some (Generation 1), av_is_authorized = \<lambda>p g. g = Generation 1\<rparr>"

definition sample_limits :: limits where
  "sample_limits =
     \<lparr>max_policies = 8, max_proofs = 8, max_paths_per_proof = 8, max_required_classes = 8,
      max_conflicts_per_proof = 8, max_pairwise_cells = 32, max_domain_evidence_entries = 8, max_query_results = 8,
      max_history = 8, max_batch_size = 8, max_publishers = 8, max_frame_bytes = 8,
      max_persistence_record_bytes = 8, max_explanation_entries = 8, max_k_subset_paths = 8, max_snapshot_paths = 8,
      max_identity_length = 8, max_attempts_tracked = 8, max_wire_assembly_bytes = 8, max_store_records = 8,
      max_store_bytes = 8, max_diff_entries = 8, max_topology_dependencies = 8\<rparr>"

definition sample_inputs :: evaluation_inputs where
  "sample_inputs =
     \<lparr>in_authority = Some sample_authority, in_structure = Some sample_topology,
      in_domains = Some absent_domain_view, in_limits = Some sample_limits\<rparr>"

definition sample_policy :: diversity_policy where
  "sample_policy =
     default_policy\<lparr>dp_id := StringId ''p'', dp_generation := Generation 1, dp_scope := StringId ''s'',
       dp_required_classes := [DC_LINK_DISJOINT]\<rparr>"

definition sample_request :: "string list \<Rightarrow> proof_request" where
  "sample_request names =
     \<lparr>rq_policy = StringId ''p'', rq_policy_generation = Generation 1, rq_paths = map sample_ref names\<rparr>"


definition sample_k_policy :: diversity_policy where
  "sample_k_policy = sample_policy\<lparr>dp_semantics := SS_AT_LEAST_K_INDEPENDENT\<rparr>"

lemma sample_simps:
  "in_structure sample_inputs = Some sample_topology" "in_domains sample_inputs = Some absent_domain_view"
  "in_limits sample_inputs = Some sample_limits" "in_authority sample_inputs = Some sample_authority"
  "limits_wf sample_limits" "max_conflicts_per_proof sample_limits = 8"
  "dp_semantics sample_policy = SS_ALL_PAIRS" "dp_semantics sample_k_policy = SS_AT_LEAST_K_INDEPENDENT"
  "dp_minimum_independent_paths sample_k_policy = 2"
  "sv_topology_generation sample_topology = Generation 1"
  "rq_paths (sample_request names) = map sample_ref names"
  "sample_ref x = sample_ref y \<longleftrightarrow> x = y"
  by (simp_all add: sample_inputs_def limits_wf_def sample_limits_def sample_policy_def sample_k_policy_def
      default_policy_def sample_topology_def sample_request_def sample_ref_def)

section \<open>What the outcomes mean\<close>

text \<open>The argument, shared with the runtime that publishes such results.\<close>

lemma all_pairs_sound:
  assumes inputs: "in_structure inputs = Some topology" "in_domains inputs = Some view"
      "in_limits inputs = Some l" "limits_wf l"
    and proven: "dp_semantics policy = SS_ALL_PAIRS"
      "ev_outcome (evaluate_diversity request policy inputs) = PO_PROVEN_DIVERSE"
    and ab: "a \<in> set (rq_paths request)" "b \<in> set (rq_paths request)" "a \<noteq> b"
  shows "\<exists>c d. bound_composition topology a c \<and> bound_composition topology b d \<and>
    (\<forall>k\<in>set (dp_required_classes policy). class_shares k policy view c d = {} \<and> class_known k policy view c d)"
proof -
  obtain ob l' rs cs fp where P: "passes request policy inputs ob l' rs cs fp"
    using decided_passes [of request policy inputs] proven(2) by (auto simp: rejected_outcome_def)
  have l: "l' = l" using P inputs(3) by (auto simp: passes_def)
  note A = passes_admitted [OF P inputs(2), unfolded l, OF inputs(4)]
  note rs = passes_paths [OF P inputs(1)]
  have "all_pairs_outcome (dp_canonicalize policy) view cs = PO_PROVEN_DIVERSE"
    using outcome_all_pairs [OF A, of ob fp] proven passes_evaluate [OF P] l by simp
  note all = all_pairs_outcome_decisive(1) [THEN iffD1, OF this, rule_format]
  obtain i j where ij: "i < length rs" "rs ! i = a" "j < length rs" "rs ! j = b"
    using ab(1,2) by (metis in_set_conv_nth rs(1) set_sort)
  then have "i < j \<or> j < i" using ab(3) by (metis linorder_neqE_nat)
  then have "pair_proven (dp_canonicalize policy) view (cs ! i) (cs ! j)"
    using all [of i j] all [of j i] ij rs(3) pair_proven_sym by metis
  then show ?thesis
    using passes_pair [OF P inputs(1) ij(1,3), of view] ij by (auto simp: pair_proven_def)
qed

text \<open>C1: A positive result over all pairs is sound. When evaluate_diversity answers PROVEN_DIVERSE under
  ALL_PAIRS, every two different paths of the request are bound to the compositions the topology view
  holds for exactly the requested authority generations and the observed topology generation, and for every
  required class the two compositions share nothing and their evidence is complete.\<close>

theorem proven_all_pairs_sound:
  assumes inputs: "in_structure inputs = Some topology" "in_domains inputs = Some view"
      "in_limits inputs = Some l" "limits_wf l"
    and proven: "dp_semantics policy = SS_ALL_PAIRS"
      "ev_outcome (evaluate_diversity request policy inputs) = PO_PROVEN_DIVERSE"
    and ab: "a \<in> set (rq_paths request)" "b \<in> set (rq_paths request)" "a \<noteq> b"
  shows "\<exists>c d. bound_composition topology a c \<and> bound_composition topology b d \<and>
    (\<forall>k\<in>set (dp_required_classes policy). class_shares k policy view c d = {} \<and> class_known k policy view c d)"
  using assms by (rule all_pairs_sound)

text \<open>C2: A positive result of the K-independent analysis is sound. When evaluate_diversity answers PROVEN_DIVERSE
  under AT_LEAST_K_INDEPENDENT, the reported witness is a strictly ascending list of at least K indices into
  the canonical path order, it is the lexicographically smallest maximum independent set of the reported
  matrix, and any two of its paths share nothing under any required class with complete evidence.\<close>

theorem proven_k_sound:
  assumes inputs: "in_structure inputs = Some topology" "in_domains inputs = Some view"
      "in_limits inputs = Some l" "limits_wf l"
    and proven: "dp_semantics policy = SS_AT_LEAST_K_INDEPENDENT"
      "ev_outcome (evaluate_diversity request policy inputs) = PO_PROVEN_DIVERSE"
    and w: "w = ws_indices (ev_witness (evaluate_diversity request policy inputs))"
  shows "dp_minimum_independent_paths policy \<le> length w \<and>
    least_witness (pair_conflict (ev_matrix (evaluate_diversity request policy inputs))) {..<length (rq_paths request)} w \<and>
    (\<forall>i\<in>set w. \<forall>j\<in>set w. i \<noteq> j \<longrightarrow>
       (\<exists>c d. bound_composition topology (sort (rq_paths request) ! i) c \<and>
          bound_composition topology (sort (rq_paths request) ! j) d \<and> pair_proven policy view c d))"
proof -
  obtain ob l' rs cs fp where P: "passes request policy inputs ob l' rs cs fp"
    using decided_passes [of request policy inputs] proven(2) by (auto simp: rejected_outcome_def)
  have l: "l' = l" using P inputs(3) by (auto simp: passes_def)
  note A = passes_admitted [OF P inputs(2), unfolded l, OF inputs(4)]
  note rs = passes_paths [OF P inputs(1)]
  have bound: "length cs \<le> max_k_subset_paths l" "length cs \<le> 32"
    using decided_k [OF P inputs(2) _ inputs(1) proven(1)] proven(2) inputs(4) l by simp_all
  have E: "evaluate_diversity request policy inputs = evaluate_admitted ob l (dp_canonicalize policy) inputs rs cs fp"
    using passes_evaluate [OF P] l by simp
  note K = outcome_k(4) [OF A _ bound E, simplified, OF proven, folded w]
  have sub: "proven_subset (dp_canonicalize policy) view cs (set w)" using K by blast
  have range: "i < length rs" if "i \<in> set w" for i
    using sub that rs(3) by (auto simp: proven_subset_def)
  have "pair_proven (dp_canonicalize policy) view (cs ! i) (cs ! j)"
    if "i \<in> set w" "j \<in> set w" "i \<noteq> j" for i j
    using sub that pair_proven_sym [of "dp_canonicalize policy" view "cs ! i" "cs ! j"]
    unfolding proven_subset_def by (cases i j rule: linorder_cases) blast+
  then have "\<forall>i\<in>set w. \<forall>j\<in>set w. i \<noteq> j \<longrightarrow>
       (\<exists>c d. bound_composition topology (rs ! i) c \<and> bound_composition topology (rs ! j) d \<and> pair_proven policy view c d)"
    using passes_pair [OF P inputs(1) range range, of _ _ view] by blast
  then show ?thesis using K rs(1,3) by simp
qed

text \<open>C7: A negative result is a fact, not a failure to find. When evaluate_diversity answers NOT_DIVERSE, under
  ALL_PAIRS two paths of the request share a resource of a required class, and under
  AT_LEAST_K_INDEPENDENT every set of K or more paths of the request contains two that do.\<close>

theorem not_diverse_sound:
  assumes inputs: "in_structure inputs = Some topology" "in_domains inputs = Some view"
      "in_limits inputs = Some l" "limits_wf l"
    and negative: "ev_outcome (evaluate_diversity request policy inputs) = PO_NOT_DIVERSE"
    and S: "S \<subseteq> set (rq_paths request)"
      "if dp_semantics policy = SS_ALL_PAIRS then S = set (rq_paths request) else dp_minimum_independent_paths policy \<le> card S"
  shows "\<exists>a\<in>S. \<exists>b\<in>S. a \<noteq> b \<and>
    (\<exists>c d. bound_composition topology a c \<and> bound_composition topology b d \<and>
       (\<exists>k\<in>set (dp_required_classes policy). class_shares k policy view c d \<noteq> {}))"
proof -
  obtain ob l' rs cs fp where P: "passes request policy inputs ob l' rs cs fp"
    using decided_passes [of request policy inputs] negative by (auto simp: rejected_outcome_def)
  have l: "l' = l" using P inputs(3) by (auto simp: passes_def)
  note A = passes_admitted [OF P inputs(2), unfolded l, OF inputs(4)]
  note rs = passes_paths [OF P inputs(1)]
  have E: "evaluate_diversity request policy inputs = evaluate_admitted ob l (dp_canonicalize policy) inputs rs cs fp"
    using passes_evaluate [OF P] l by simp
  have found: ?thesis
    if ij: "i < j" "j < length rs" "rs ! i \<in> S" "rs ! j \<in> S" "pair_shares (dp_canonicalize policy) view (cs ! i) (cs ! j)" for i j
  proof -
    have "rs ! i \<noteq> rs ! j" using ij(1,2) rs(2) by (simp add: nth_eq_iff_index_eq)
    moreover obtain c d where "bound_composition topology (rs ! i) c" "bound_composition topology (rs ! j) d"
      "pair_shares policy view c d" using passes_pair [OF P inputs(1), of i j view] ij by auto
    ultimately show ?thesis using ij(3,4) unfolding pair_shares_def by blast
  qed
  show ?thesis
  proof (cases "dp_semantics policy")
    case SS_ALL_PAIRS
    then have "all_pairs_outcome (dp_canonicalize policy) view cs = PO_NOT_DIVERSE"
      using outcome_all_pairs [OF A, of ob fp] negative E by simp
    then obtain i j where "i < j" "j < length cs" "pair_shares (dp_canonicalize policy) view (cs ! i) (cs ! j)"
      using all_pairs_outcome_decisive(2) by blast
    moreover have "S = set rs" using S(2) SS_ALL_PAIRS rs(1) by simp
    ultimately show ?thesis using found rs(3) by simp
  next
    case SS_AT_LEAST_K_INDEPENDENT
    have bound: "length cs \<le> max_k_subset_paths l" "length cs \<le> 32"
      using decided_k [OF P inputs(2) _ inputs(1) SS_AT_LEAST_K_INDEPENDENT] negative inputs(4) l by simp_all
    define T where "T = {i. i < length rs \<and> rs ! i \<in> S}"
    have "k_independent_outcome (dp_canonicalize policy) view cs = PO_NOT_DIVERSE"
      using outcome_k(1) [OF A _ bound E] SS_AT_LEAST_K_INDEPENDENT negative by simp
    then have none: "\<not> (conflict_free_subset (dp_canonicalize policy) view cs T \<and> dp_minimum_independent_paths policy \<le> card T)"
      using k_independent_outcome_decisive by force
    have "inj_on ((!) rs) T" using rs(2) by (auto simp: inj_on_def T_def nth_eq_iff_index_eq)
    moreover have "(!) rs ` T = S"
    proof
      show "(!) rs ` T \<subseteq> S" by (auto simp: T_def)
      show "S \<subseteq> (!) rs ` T"
      proof
        fix r assume r: "r \<in> S"
        then have "r \<in> set rs" using S(1) rs(1) by auto
        then obtain i where "i < length rs" "rs ! i = r" by (auto simp: in_set_conv_nth)
        then show "r \<in> (!) rs ` T" using r by (auto simp: T_def)
      qed
    qed
    ultimately have "card T = card S" using card_image by metis
    then have "\<not> conflict_free_subset (dp_canonicalize policy) view cs T"
      using none S(2) SS_AT_LEAST_K_INDEPENDENT by simp
    then obtain i j where "i \<in> T" "j \<in> T" "i < j" "pair_shares (dp_canonicalize policy) view (cs ! i) (cs ! j)"
      using rs(3) by (auto simp: conflict_free_subset_def T_def)
    then show ?thesis using found [of i j] by (simp add: T_def)
  qed
qed


lemma proven_all_pairs_sound_witness:
  "\<exists>c d. bound_composition sample_topology (sample_ref ''a'') c \<and> bound_composition sample_topology (sample_ref ''b'') d \<and>
    (\<forall>k\<in>set (dp_required_classes sample_policy).
       class_shares k sample_policy absent_domain_view c d = {} \<and> class_known k sample_policy absent_domain_view c d)"
proof (rule proven_all_pairs_sound [where inputs = sample_inputs and l = sample_limits and request = "sample_request [''a'', ''b'']"])
  show "ev_outcome (evaluate_diversity (sample_request [''a'', ''b'']) sample_policy sample_inputs) = PO_PROVEN_DIVERSE"
    by code_simp
qed (simp_all add: sample_simps)

lemma proven_k_sound_witness:
  "2 \<le> length (ws_indices (ev_witness (evaluate_diversity (sample_request [''a'', ''b'', ''c'']) sample_k_policy sample_inputs)))"
proof -
  have "ev_outcome (evaluate_diversity (sample_request [''a'', ''b'', ''c'']) sample_k_policy sample_inputs) = PO_PROVEN_DIVERSE"
    by code_simp
  then show ?thesis
    using proven_k_sound [of sample_inputs sample_topology absent_domain_view sample_limits sample_k_policy
        "sample_request [''a'', ''b'', ''c'']", OF _ _ _ _ _ _ refl]
    by (simp add: sample_simps)
qed

lemma not_diverse_sound_witness:
  "\<exists>a\<in>{sample_ref ''a'', sample_ref ''b'', sample_ref ''c''}. \<exists>b\<in>{sample_ref ''a'', sample_ref ''b'', sample_ref ''c''}. a \<noteq> b \<and>
    (\<exists>c d. bound_composition sample_topology a c \<and> bound_composition sample_topology b d \<and>
       (\<exists>k\<in>set (dp_required_classes sample_policy). class_shares k sample_policy absent_domain_view c d \<noteq> {}))"
proof (rule not_diverse_sound [where inputs = sample_inputs and l = sample_limits and request = "sample_request [''a'', ''b'', ''c'']"])
  show "ev_outcome (evaluate_diversity (sample_request [''a'', ''b'', ''c'']) sample_policy sample_inputs) = PO_NOT_DIVERSE"
    by code_simp
qed (simp_all add: sample_simps)

section \<open>Order, watermarks and bounds\<close>

text \<open>C21: The order in which the paths of a request arrive is irrelevant: evaluating a permuted request gives
  the same result, the matrix, witness indices, conflicts and detail texts included.\<close>

theorem evaluation_arrival_independent:
  assumes "mset paths = mset (rq_paths request)"
  shows "evaluate_diversity (request\<lparr>rq_paths := paths\<rparr>) policy inputs = evaluate_diversity request policy inputs"
proof -
  have "sort paths = sort (rq_paths request)" using assms by (rule sort_eq_of_mset)
  then have "rq_canonicalize (request\<lparr>rq_paths := paths\<rparr>) = rq_canonicalize request"
    by (simp add: rq_canonicalize_def canonical_path_order_def)
  then have "admit_request ob l p (request\<lparr>rq_paths := paths\<rparr>) = admit_request ob l p request" for ob l p
    by (simp add: admit_request_def admit_paths_def Let_def)
  then have "evaluate_under ob l a t inputs p (request\<lparr>rq_paths := paths\<rparr>) = evaluate_under ob l a t inputs p request"
    for ob l a t p
    by (simp add: evaluate_under_def)
  then show ?thesis by (simp only: evaluate_diversity_def)
qed

lemma evaluation_arrival_independent_witness:
  "evaluate_diversity ((sample_request [''a'', ''b''])\<lparr>rq_paths := [sample_ref ''b'', sample_ref ''a'']\<rparr>) sample_policy sample_inputs =
   evaluate_diversity (sample_request [''a'', ''b'']) sample_policy sample_inputs"
  by (rule evaluation_arrival_independent) (simp add: sample_request_def)

text \<open>The result carries the observation it was made under.\<close>

definition carries :: "observation \<Rightarrow> evaluation_result \<Rightarrow> bool" where
  "carries ob r \<longleftrightarrow> ev_observed_topology r = ob_topology ob \<and> ev_observed_failure_domain r = ob_domains ob \<and>
     ev_watermarks_observed r = ob_observed ob"

lemma carries_reject [simp]: "carries ob (reject ob out s)" "carries ob (reject_limit ob b x y s)"
  by (simp_all add: carries_def reject_def reject_limit_def)

lemma carries_check_authority: "check_authority ob view rs = Some e \<Longrightarrow> carries ob e"
  by (induction rs) (auto split: option.splits if_splits)

lemma carries_resolve_paths: "resolve_paths ob view rs cs fp = Inl e \<Longrightarrow> carries ob e"
  by (induction rs arbitrary: cs fp)
    (auto simp: resolve_path_def Let_def split: option.splits if_splits sum.splits)

lemma carries_resolve: "resolve_structure ob l view rs = Inl e \<Longrightarrow> carries ob e"
  by (auto simp: resolve_structure_def Let_def split: sum.splits if_splits dest: carries_resolve_paths)

lemma carries_admit: "admit_request ob l p request = Inl e \<Longrightarrow> carries ob e"
  by (auto simp: admit_request_def admit_paths_def Let_def split: if_splits prod.splits)

lemma carries_admitted: "ob_observed ob \<Longrightarrow> carries ob (evaluate_admitted ob l p inputs rs cs fp)"
  by (auto simp: evaluate_admitted_def set_stage_def Let_def carries_def reject_def reject_limit_def split: prod.split sum.split)

lemma evaluation_carries_watermarks:
  assumes "in_authority inputs \<noteq> None" "in_structure inputs = Some topology" "in_domains inputs = Some view"
    "in_limits inputs \<noteq> None"
  shows "ev_observed_topology (evaluate_diversity request policy inputs) = sv_topology_generation topology \<and>
    ev_observed_failure_domain (evaluate_diversity request policy inputs) = fv_generation view \<and>
    ev_watermarks_observed (evaluate_diversity request policy inputs)"
proof -
  obtain authority l where I: "in_authority inputs = Some authority" "in_limits inputs = Some l" using assms by auto
  define ob where "ob = \<lparr>ob_topology = sv_topology_generation topology, ob_domains = fv_generation view, ob_observed = True\<rparr>"
  have "carries ob (evaluate_under ob l authority topology inputs (dp_canonicalize policy) request)"
    by (auto simp: evaluate_under_def ob_def carries_admitted split: sum.split option.split
        intro: carries_admit carries_check_authority carries_resolve)
  then show ?thesis by (simp add: evaluate_diversity_def I assms carries_def) (simp add: ob_def)
qed

text \<open>Every result carries the generations observed before any other work, rejected ones included: an
  unobserved generation never looks like a moved one to a caller that compares watermarks.\<close>

theorem watermarks_are_the_observed_generations:
  assumes "in_authority inputs \<noteq> None" "in_structure inputs = Some topology" "in_domains inputs = Some view"
    "in_limits inputs \<noteq> None"
  shows "ev_observed_topology (evaluate_diversity request policy inputs) = sv_topology_generation topology \<and>
    ev_observed_failure_domain (evaluate_diversity request policy inputs) = fv_generation view \<and>
    ev_watermarks_observed (evaluate_diversity request policy inputs)"
  using assms by (rule evaluation_carries_watermarks)

lemma watermarks_are_the_observed_generations_witness:
  "ev_observed_topology (evaluate_diversity (sample_request []) sample_policy sample_inputs) = Generation 1"
  using watermarks_are_the_observed_generations [of sample_inputs sample_topology absent_domain_view "sample_request []" sample_policy]
  by (simp add: sample_simps)

text \<open>Path Authority is checked for every path: the check passes exactly when each path of the set is
  currently authorized at precisely the generation the request binds.\<close>

theorem authority_check_exact:
  "check_authority ob view rs = None \<longleftrightarrow>
     (\<forall>r\<in>set rs. av_current_generation view (pr_path r) = Some (pr_generation r) \<and>
        av_is_authorized view (pr_path r) (pr_generation r))"
  by (induction rs) (auto split: option.splits if_splits)

lemma authority_check_exact_witness:
  "check_authority \<lparr>ob_topology = gen_unset, ob_domains = gen_unset, ob_observed = True\<rparr> sample_authority
     [sample_ref ''a'', sample_ref ''b''] = None"
  using authority_check_exact [of "\<lparr>ob_topology = gen_unset, ob_domains = gen_unset, ob_observed = True\<rparr>" sample_authority "[sample_ref ''a'', sample_ref ''b'']"]
  by (simp add: sample_authority_def sample_ref_def)

text \<open>The conflict list of a result never exceeds max_conflicts_per_proof, whatever the inputs, and neither
  does the list kept for any single class.\<close>

theorem conflicts_bounded:
  assumes "in_limits inputs = Some l"
  shows "length (ev_conflicts (evaluate_diversity request policy inputs)) \<le> max_conflicts_per_proof l \<and>
    (\<forall>r\<in>set (ev_classes (evaluate_diversity request policy inputs)). length (cr_shared r) \<le> max_conflicts_per_proof l)"
proof -
  define ok where "ok = (\<lambda>r :: evaluation_result. length (ev_conflicts r) \<le> max_conflicts_per_proof l \<and>
     (\<forall>c\<in>set (ev_classes r). length (cr_shared c) \<le> max_conflicts_per_proof l))"
  have rejected: "ok (reject ob out s)" "ok (reject_limit ob b x y s)" for ob out s b x y
    by (simp_all add: ok_def reject_def reject_limit_def default_result_def)
  have authority: "check_authority ob view rs = Some e \<Longrightarrow> ok e" for ob view rs e
    by (induction rs) (auto simp: rejected split: option.splits if_splits)
  have paths: "resolve_paths ob view rs cs fp = Inl e \<Longrightarrow> ok e" for ob view rs cs fp e
    by (induction rs arbitrary: cs fp)
      (auto simp: resolve_path_def Let_def rejected split: option.splits if_splits sum.splits)
  have resolve: "resolve_structure ob l' view rs = Inl e \<Longrightarrow> ok e" for ob l' view rs e
    by (auto simp: resolve_structure_def Let_def rejected split: sum.splits if_splits dest: paths)
  have admit: "admit_request ob l' p rq = Inl e \<Longrightarrow> ok e" for ob l' p rq e
    by (auto simp: admit_request_def admit_paths_def Let_def rejected split: if_splits prod.splits)
  have final: "ok (evaluate_admitted ob l p inputs rs cs fp)" for ob p rs cs fp
    by (auto simp: evaluate_admitted_def set_stage_def Let_def rejected split: prod.split sum.split)
      (auto simp: ok_def collect_conflicts_def Let_def canonical_conflict_order_def aggregate_required_def aggregate_class_bounded)
  have "ok (evaluate_under ob l authority topology inputs p rq)" for ob authority topology p rq
    by (auto simp: evaluate_under_def final split: sum.split option.split intro: admit authority resolve)
  then have "ok (evaluate_diversity request policy inputs)"
    by (auto simp: evaluate_diversity_def assms rejected split: option.split)
  then show ?thesis by (simp add: ok_def)
qed

lemma conflicts_bounded_witness:
  "length (ev_conflicts (evaluate_diversity (sample_request [''a'', ''c'']) sample_policy sample_inputs)) \<le> 8"
  using conflicts_bounded [of sample_inputs sample_limits "sample_request [''a'', ''c'']" sample_policy]
  by (simp add: sample_simps)

end
