(* ===== verification/Authority.thy ===== *)
theory Authority
  imports EvaluateSound
begin

text \<open>
  The publication authority (\<open>include/path_diversity/authority.hpp\<close>, \<open>src/authority.cpp\<close>): the
  coordinator epoch, publisher sessions, permanent boot fencing and replay detection. Every operation takes
  and returns the state record; the mutex makes each one atomic. The salt of the identity mints comes from
  the environment and is a parameter. \<open>authority_step\<close> is the relation of all mutating operations;
  the invariants below hold in every reachable state.
\<close>

section \<open>Status codes\<close>

datatype authority_status =
    AS_ACCEPTED
  | AS_IDEMPOTENT
  | AS_UNAUTHORIZED
  | AS_FENCED_PUBLISHER
  | AS_STALE_EPOCH
  | AS_SCOPE_MISMATCH
  | AS_GENERATION_CONFLICT
  | AS_ATTEMPT_CONFLICT
  | AS_LIMIT_EXCEEDED
  | AS_MALFORMED

definition authority_status_values :: "authority_status list" where
  "authority_status_values =
     [AS_ACCEPTED,
      AS_IDEMPOTENT,
      AS_UNAUTHORIZED,
      AS_FENCED_PUBLISHER,
      AS_STALE_EPOCH,
      AS_SCOPE_MISMATCH,
      AS_GENERATION_CONFLICT,
      AS_ATTEMPT_CONFLICT,
      AS_LIMIT_EXCEEDED,
      AS_MALFORMED]"

primrec authority_status_code :: "authority_status \<Rightarrow> u8" where
  "authority_status_code AS_ACCEPTED = 1"
| "authority_status_code AS_IDEMPOTENT = 2"
| "authority_status_code AS_UNAUTHORIZED = 3"
| "authority_status_code AS_FENCED_PUBLISHER = 4"
| "authority_status_code AS_STALE_EPOCH = 5"
| "authority_status_code AS_SCOPE_MISMATCH = 6"
| "authority_status_code AS_GENERATION_CONFLICT = 7"
| "authority_status_code AS_ATTEMPT_CONFLICT = 8"
| "authority_status_code AS_LIMIT_EXCEEDED = 9"
| "authority_status_code AS_MALFORMED = 10"

definition is_defined_authority_status :: "u8 \<Rightarrow> bool" where
  "is_defined_authority_status raw \<longleftrightarrow> authority_status_code AS_ACCEPTED \<le> raw \<and> raw \<le> authority_status_code AS_MALFORMED"

definition authority_status_of_code :: "u8 \<Rightarrow> authority_status option" where
  "authority_status_of_code raw = find (\<lambda>x. authority_status_code x = raw) authority_status_values"

definition authority_status_to_string :: "authority_status \<Rightarrow> string" where
  "authority_status_to_string v = (case v of
      AS_ACCEPTED \<Rightarrow> ''ACCEPTED''
    | AS_IDEMPOTENT \<Rightarrow> ''IDEMPOTENT''
    | AS_UNAUTHORIZED \<Rightarrow> ''UNAUTHORIZED''
    | AS_FENCED_PUBLISHER \<Rightarrow> ''FENCED_PUBLISHER''
    | AS_STALE_EPOCH \<Rightarrow> ''STALE_EPOCH''
    | AS_SCOPE_MISMATCH \<Rightarrow> ''SCOPE_MISMATCH''
    | AS_GENERATION_CONFLICT \<Rightarrow> ''GENERATION_CONFLICT''
    | AS_ATTEMPT_CONFLICT \<Rightarrow> ''ATTEMPT_CONFLICT''
    | AS_LIMIT_EXCEEDED \<Rightarrow> ''LIMIT_EXCEEDED''
    | AS_MALFORMED \<Rightarrow> ''MALFORMED'')"

interpretation authority_status_enum: wire_enum authority_status_code authority_status_values is_defined_authority_status authority_status_of_code
proof unfold_locales
  show "map authority_status_code authority_status_values = map of_nat [1..<Suc (length authority_status_values)]"
    by (simp add: authority_status_values_def upt_rec)
  show "x \<in> set authority_status_values" for x
    by (cases x) (simp_all add: authority_status_values_def)
  show "length authority_status_values < 255"
    by (simp add: authority_status_values_def)
  show "is_defined_authority_status raw \<longleftrightarrow> 1 \<le> raw \<and> raw \<le> of_nat (length authority_status_values)" for raw
    by (simp add: is_defined_authority_status_def authority_status_values_def)
  show "authority_status_of_code raw = find (\<lambda>x. authority_status_code x = raw) authority_status_values" for raw
    by (simp add: authority_status_of_code_def)
qed

definition authority_status_is_success :: "authority_status \<Rightarrow> bool" where
  "authority_status_is_success v \<longleftrightarrow> v = AS_ACCEPTED \<or> v = AS_IDEMPOTENT"

definition authority_status_needs_demotion :: "authority_status \<Rightarrow> bool" where
  "authority_status_needs_demotion v \<longleftrightarrow>
     v = AS_FENCED_PUBLISHER \<or> v = AS_STALE_EPOCH \<or> v = AS_UNAUTHORIZED \<or> v = AS_SCOPE_MISMATCH"

section \<open>State\<close>

record acting_authority =
  aa_epoch :: coordinator_epoch
  aa_publisher :: publisher_id
  aa_boot :: worker_boot_id
  aa_scope :: scope_id
  aa_attempt :: mutation_attempt_id
  aa_expected_policy :: diversity_policy_generation
  aa_expected_proof :: diversity_proof_generation

record publisher_session =
  ps_publisher :: publisher_id
  ps_boot :: worker_boot_id
  ps_epoch :: coordinator_epoch
  ps_scope :: scope_id
  ps_fenced :: bool

definition session_render :: "publisher_session \<Rightarrow> string" where
  "session_render s =
     ''publisher '' @ id_view (ps_publisher s) @ '' boot='' @ id_view (ps_boot s) @
     '' epoch=g'' @ gen_text (ps_epoch s) @ '' scope='' @ id_view (ps_scope s) @
     (if ps_fenced s then '' FENCED'' else '' live'')"

record publication_authority =
  pa_limits :: limits
  pa_epoch :: coordinator_epoch
  pa_epoch_restored :: bool
  pa_sessions :: "(worker_boot_id, publisher_session) omap"
  pa_fenced :: "(worker_boot_id, bool) omap"
  pa_attempts :: "(mutation_attempt_id, digest \<times> diversity_proof_id) omap"

definition new_authority :: "limits \<Rightarrow> publication_authority" where
  "new_authority l =
     \<lparr>pa_limits = l, pa_epoch = Generation 1, pa_epoch_restored = False, pa_sessions = [],
      pa_fenced = [], pa_attempts = []\<rparr>"

section \<open>Operations\<close>

definition restore_epoch ::
  "coordinator_epoch \<Rightarrow> publication_authority \<Rightarrow> authority_status \<times> publication_authority" where
  "restore_epoch epoch pa =
     (if \<not> gen_is_set epoch then (AS_MALFORMED, pa)
      else if pa_epoch_restored pa \<and> epoch < pa_epoch pa then (AS_STALE_EPOCH, pa)
      else (AS_ACCEPTED, pa\<lparr>pa_epoch := epoch, pa_epoch_restored := True\<rparr>))"

definition is_fenced :: "publication_authority \<Rightarrow> worker_boot_id \<Rightarrow> bool" where
  "is_fenced pa boot \<longleftrightarrow> map_of (pa_fenced pa) boot = Some True"

definition replaced_boot :: "publisher_session \<Rightarrow> worker_boot_id \<times> publisher_session \<Rightarrow> bool" where
  "replaced_boot session entry \<longleftrightarrow>
     ps_publisher (snd entry) = ps_publisher session \<and> fst entry \<noteq> ps_boot session"

definition fence_replaced :: "publisher_session \<Rightarrow> publication_authority \<Rightarrow> publication_authority" where
  "fence_replaced session pa =
     pa\<lparr>pa_sessions := map (\<lambda>e. if replaced_boot session e then (fst e, (snd e)\<lparr>ps_fenced := True\<rparr>) else e) (pa_sessions pa),
        pa_fenced := fold (\<lambda>e m. if replaced_boot session e then om_put (fst e) True m else m)
          (pa_sessions pa) (pa_fenced pa)\<rparr>"

definition register_publisher ::
  "publisher_session \<Rightarrow> publication_authority \<Rightarrow> authority_status \<times> publication_authority" where
  "register_publisher session pa =
     (if \<not> id_valid (ps_publisher session) \<or> \<not> id_valid (ps_boot session) \<or> \<not> id_valid (ps_scope session) \<or>
         \<not> gen_is_set (ps_epoch session)
      then (AS_MALFORMED, pa)
      else if is_fenced pa (ps_boot session) then (AS_FENCED_PUBLISHER, pa)
      else if ps_epoch session \<noteq> pa_epoch pa then (AS_STALE_EPOCH, pa)
      else let pa = fence_replaced session pa in
        if map_of (pa_sessions pa) (ps_boot session) = None \<and>
           max_publishers (pa_limits pa) \<le> length (pa_sessions pa)
        then (AS_LIMIT_EXCEEDED, pa)
        else (AS_ACCEPTED,
          pa\<lparr>pa_sessions := om_put (ps_boot session) (session\<lparr>ps_fenced := False\<rparr>) (pa_sessions pa),
             pa_fenced := om_put (ps_boot session) False (pa_fenced pa)\<rparr>))"

definition fence_boot ::
  "worker_boot_id \<Rightarrow> publication_authority \<Rightarrow> authority_status \<times> publication_authority" where
  "fence_boot boot pa =
     (if \<not> id_valid boot then (AS_MALFORMED, pa)
      else (AS_ACCEPTED,
        pa\<lparr>pa_fenced := om_put boot True (pa_fenced pa),
           pa_sessions := (case map_of (pa_sessions pa) boot of
               None \<Rightarrow> pa_sessions pa
             | Some s \<Rightarrow> om_put boot (s\<lparr>ps_fenced := True\<rparr>) (pa_sessions pa))\<rparr>))"

definition validate_authority :: "publication_authority \<Rightarrow> acting_authority \<Rightarrow> authority_status" where
  "validate_authority pa a =
     (if \<not> id_valid (aa_publisher a) \<or> \<not> id_valid (aa_boot a) \<or> \<not> id_valid (aa_scope a) \<or>
         \<not> id_valid (aa_attempt a) \<or> \<not> gen_is_set (aa_epoch a)
      then AS_MALFORMED
      else if is_fenced pa (aa_boot a) then AS_FENCED_PUBLISHER
      else if aa_epoch a \<noteq> pa_epoch pa then AS_STALE_EPOCH
      else case map_of (pa_sessions pa) (aa_boot a) of
          None \<Rightarrow> AS_UNAUTHORIZED
        | Some s \<Rightarrow>
            if ps_fenced s then AS_FENCED_PUBLISHER
            else if ps_publisher s \<noteq> aa_publisher a then AS_UNAUTHORIZED
            else if ps_scope s \<noteq> aa_scope a then AS_SCOPE_MISMATCH
            else AS_ACCEPTED)"

definition admit ::
  "acting_authority \<Rightarrow> digest \<Rightarrow> publication_authority \<Rightarrow> authority_status \<times> publication_authority" where
  "admit a payload pa =
     (let validated = validate_authority pa a in
      if validated \<noteq> AS_ACCEPTED then (validated, pa)
      else case map_of (pa_attempts pa) (aa_attempt a) of
          Some existing \<Rightarrow> if fst existing = payload then (AS_IDEMPOTENT, pa) else (AS_ATTEMPT_CONFLICT, pa)
        | None \<Rightarrow>
            if max_attempts_tracked (pa_limits pa) \<le> length (pa_attempts pa) then (AS_LIMIT_EXCEEDED, pa)
            else (AS_ACCEPTED, pa\<lparr>pa_attempts := om_put (aa_attempt a) (payload, unset_id) (pa_attempts pa)\<rparr>))"

definition forget_attempt :: "mutation_attempt_id \<Rightarrow> publication_authority \<Rightarrow> publication_authority" where
  "forget_attempt attempt pa = pa\<lparr>pa_attempts := om_del attempt (pa_attempts pa)\<rparr>"

definition fenced_boots :: "publication_authority \<Rightarrow> worker_boot_id list" where
  "fenced_boots pa = map fst (filter snd (pa_fenced pa))"

definition session_count :: "publication_authority \<Rightarrow> nat" where
  "session_count pa = length (pa_sessions pa)"

definition authority_render :: "publication_authority \<Rightarrow> string" where
  "authority_render pa =
     ''authority epoch=g'' @ gen_text (pa_epoch pa) @ '' sessions='' @ decimal (length (pa_sessions pa)) @
     '' attempts='' @ decimal (length (pa_attempts pa)) @ '' fenced='' @ decimal (length (pa_fenced pa)) @ [CHR 0x0A] @
     concat (map (\<lambda>e. ''  '' @ session_render (snd e) @ [CHR 0x0A]) (pa_sessions pa))"

section \<open>Minted identities\<close>

text \<open>The salt is drawn once per process; the serial number counts calls of any mint.\<close>

definition hex16 :: "u64 \<Rightarrow> string" where
  "hex16 v = map (\<lambda>i. hex_digits ! unat (drop_bit (4 * i) v AND 15)) (rev [0..<16])"

definition mint_worker_boot_id :: "u64 \<Rightarrow> u64 \<Rightarrow> identity_error + worker_boot_id" where
  "mint_worker_boot_id salt serial =
     parse_id ''WorkerBootId'' worker_boot_id_max (''boot-'' @ hex16 (salt XOR (serial * 0x9e3779b97f4a7c15)))"

definition mint_publisher_id :: "u64 \<Rightarrow> u64 \<Rightarrow> string \<Rightarrow> identity_error + publisher_id" where
  "mint_publisher_id salt serial label =
     (let text = ''pub-'' @ (if label = [] then ''anonymous'' else label) @ ''-'' @
            take 8 (hex16 (salt XOR (serial * 0xbf58476d1ce4e5b9)))
      in if (try_parse publisher_id_max text :: publisher_id option) = None
         then parse_id ''PublisherId'' publisher_id_max ''pub-anonymous''
         else parse_id ''PublisherId'' publisher_id_max text)"

definition mint_mutation_attempt_id :: "u64 \<Rightarrow> u64 \<Rightarrow> identity_error + mutation_attempt_id" where
  "mint_mutation_attempt_id salt serial =
     parse_id ''MutationAttemptId'' mutation_attempt_id_max
       (''attempt-'' @ hex16 (salt XOR (serial * 0x94d049bb133111eb)))"

section \<open>Runs\<close>

inductive authority_step :: "publication_authority \<Rightarrow> publication_authority \<Rightarrow> bool" where
  restore: "authority_step pa (snd (restore_epoch e pa))"
| register: "authority_step pa (snd (register_publisher session pa))"
| fence: "authority_step pa (snd (fence_boot boot pa))"
| admit: "authority_step pa (snd (admit a payload pa))"
| forget: "authority_step pa (forget_attempt attempt pa)"

definition sessions_agree :: "publication_authority \<Rightarrow> bool" where
  "sessions_agree pa \<longleftrightarrow>
     (\<forall>b s. map_of (pa_sessions pa) b = Some s \<longrightarrow>
        ps_boot s = b \<and> id_valid b \<and> map_of (pa_fenced pa) b = Some (ps_fenced s))"

definition one_live_boot :: "publication_authority \<Rightarrow> bool" where
  "one_live_boot pa \<longleftrightarrow>
     (\<forall>b c s t. map_of (pa_sessions pa) b = Some s \<and> map_of (pa_sessions pa) c = Some t \<and>
        ps_publisher s = ps_publisher t \<and> \<not> ps_fenced s \<and> \<not> ps_fenced t \<longrightarrow> b = c)"

definition authority_bounded :: "publication_authority \<Rightarrow> bool" where
  "authority_bounded pa \<longleftrightarrow>
     om_sorted (pa_sessions pa) \<and> om_sorted (pa_fenced pa) \<and> om_sorted (pa_attempts pa) \<and>
     length (pa_sessions pa) \<le> max_publishers (pa_limits pa) \<and>
     length (pa_attempts pa) \<le> max_attempts_tracked (pa_limits pa)"

definition epoch_ok :: "publication_authority \<Rightarrow> bool" where
  "epoch_ok pa \<longleftrightarrow> gen_is_set (pa_epoch pa) \<and> (pa_epoch_restored pa \<or> pa_epoch pa = Generation 1)"

definition authority_inv :: "publication_authority \<Rightarrow> bool" where
  "authority_inv pa \<longleftrightarrow> sessions_agree pa \<and> one_live_boot pa \<and> authority_bounded pa \<and> epoch_ok pa"

lemma om_del_length: "length (om_del k m) \<le> length m"
  by (simp add: om_del_def)

lemma authority_invD:
  assumes "authority_inv pa"
  shows "sessions_agree pa" "one_live_boot pa" "authority_bounded pa" "epoch_ok pa"
  using assms by (simp_all add: authority_inv_def)

lemma new_authority_inv: "authority_inv (new_authority l)"
  by (simp add: authority_inv_def sessions_agree_def one_live_boot_def authority_bounded_def epoch_ok_def
      new_authority_def om_sorted_def gen_is_set_def)

text \<open>The loop over the sessions of \<open>register_publisher\<close>.\<close>

lemma fence_replaced_fields [simp]:
  "pa_limits (fence_replaced session pa) = pa_limits pa" "pa_epoch (fence_replaced session pa) = pa_epoch pa"
  "pa_epoch_restored (fence_replaced session pa) = pa_epoch_restored pa"
  "pa_attempts (fence_replaced session pa) = pa_attempts pa"
  "length (pa_sessions (fence_replaced session pa)) = length (pa_sessions pa)"
  "map fst (pa_sessions (fence_replaced session pa)) = map fst (pa_sessions pa)"
  by (simp_all add: fence_replaced_def)

lemma fence_replaced_sessions:
  "map_of (pa_sessions (fence_replaced session pa)) b =
     map_option (\<lambda>s. if replaced_boot session (b, s) then s\<lparr>ps_fenced := True\<rparr> else s) (map_of (pa_sessions pa) b)"
proof -
  have "map_of (map (\<lambda>e. if replaced_boot session e then (fst e, (snd e)\<lparr>ps_fenced := True\<rparr>) else e) es) b =
      map_option (\<lambda>s. if replaced_boot session (b, s) then s\<lparr>ps_fenced := True\<rparr> else s) (map_of es b)" for es
    by (induction es) (auto split: if_splits)
  then show ?thesis by (simp add: fence_replaced_def)
qed

lemma fence_replaced_fenced:
  "map_of (pa_fenced (fence_replaced session pa)) b =
     (if \<exists>e\<in>set (pa_sessions pa). replaced_boot session e \<and> fst e = b then Some True else map_of (pa_fenced pa) b)"
proof -
  have "map_of (fold (\<lambda>e m. if replaced_boot session e then om_put (fst e) True m else m) es m) b =
      (if \<exists>e\<in>set es. replaced_boot session e \<and> fst e = b then Some True else map_of m b)" for es m
    by (induction es arbitrary: m) auto
  then show ?thesis by (simp add: fence_replaced_def)
qed

lemma fence_replaced_sorted:
  "om_sorted (pa_sessions (fence_replaced session pa)) = om_sorted (pa_sessions pa)"
  "om_sorted (pa_fenced pa) \<Longrightarrow> om_sorted (pa_fenced (fence_replaced session pa))"
proof -
  show "om_sorted (pa_sessions (fence_replaced session pa)) = om_sorted (pa_sessions pa)"
    by (simp add: om_sorted_def)
  have "om_sorted m \<Longrightarrow> om_sorted (fold (\<lambda>e m. if replaced_boot session e then om_put (fst e) True m else m) es m)"
    for es m by (induction es arbitrary: m) (auto intro: om_sorted_put)
  then show "om_sorted (pa_fenced pa) \<Longrightarrow> om_sorted (pa_fenced (fence_replaced session pa))"
    by (simp add: fence_replaced_def)
qed

lemma is_fenced_replaced: "is_fenced pa b \<Longrightarrow> is_fenced (fence_replaced session pa) b"
  by (simp add: is_fenced_def fence_replaced_fenced)

lemma fenced_fixed [simp]:
  "s = s\<lparr>ps_fenced := True\<rparr> \<longleftrightarrow> ps_fenced s" "s\<lparr>ps_fenced := True\<rparr> = s \<longleftrightarrow> ps_fenced s"
  by (cases s; simp; fail)+

lemma fence_replaced_inv:
  assumes "authority_inv pa"
  shows "sessions_agree (fence_replaced session pa)" "authority_bounded (fence_replaced session pa)"
    "epoch_ok (fence_replaced session pa)" "one_live_boot (fence_replaced session pa)"
    and "map_of (pa_sessions (fence_replaced session pa)) b = Some s \<Longrightarrow> ps_publisher s = ps_publisher session \<Longrightarrow>
      b \<noteq> ps_boot session \<Longrightarrow> ps_fenced s"
proof -
  note inv = authority_invD [OF assms]
  have entry: "(\<exists>e\<in>set (pa_sessions pa). replaced_boot session e \<and> fst e = b) \<longleftrightarrow>
      (\<exists>s. map_of (pa_sessions pa) b = Some s \<and> replaced_boot session (b, s))" for b
  proof -
    have "distinct (map fst (pa_sessions pa))" using inv(3) by (simp add: authority_bounded_def om_sorted_distinct)
    then have "map_of (pa_sessions pa) b = Some s \<longleftrightarrow> (b, s) \<in> set (pa_sessions pa)" for s
      by (rule map_of_eq_Some_iff)
    then show ?thesis by force
  qed
  show "sessions_agree (fence_replaced session pa)"
    using inv(1) by (auto simp: sessions_agree_def fence_replaced_sessions fence_replaced_fenced entry
        split: if_splits)
  show "authority_bounded (fence_replaced session pa)"
    using inv(3) by (simp add: authority_bounded_def fence_replaced_sorted)
  show "epoch_ok (fence_replaced session pa)" using inv(4) by (simp add: epoch_ok_def)
  show "one_live_boot (fence_replaced session pa)"
    unfolding one_live_boot_def
  proof (intro allI impI)
    fix b c s t
    assume live: "map_of (pa_sessions (fence_replaced session pa)) b = Some s \<and>
      map_of (pa_sessions (fence_replaced session pa)) c = Some t \<and>
      ps_publisher s = ps_publisher t \<and> \<not> ps_fenced s \<and> \<not> ps_fenced t"
    have "map_of (pa_sessions pa) x = Some u"
      if "map_of (pa_sessions (fence_replaced session pa)) x = Some u" "\<not> ps_fenced u" for x u
      using that by (auto simp: fence_replaced_sessions split: if_splits)
    then have old: "map_of (pa_sessions pa) b = Some s" "map_of (pa_sessions pa) c = Some t" using live by simp_all
    show "b = c"
      by (rule inv(2) [unfolded one_live_boot_def, rule_format, of b s c t]) (use live old in simp)
  qed
  show "map_of (pa_sessions (fence_replaced session pa)) b = Some s \<Longrightarrow> ps_publisher s = ps_publisher session \<Longrightarrow>
      b \<noteq> ps_boot session \<Longrightarrow> ps_fenced s"
    by (auto simp: fence_replaced_sessions replaced_boot_def split: if_splits)
qed

section \<open>Preservation\<close>

lemma restore_epoch_inv: "authority_inv pa \<Longrightarrow> authority_inv (snd (restore_epoch e pa))"
  by (simp add: restore_epoch_def authority_inv_def sessions_agree_def one_live_boot_def authority_bounded_def epoch_ok_def)

lemma register_publisher_inv:
  assumes "authority_inv pa"
  shows "authority_inv (snd (register_publisher session pa))"
proof -
  let ?q = "fence_replaced session pa" and ?b = "ps_boot session"
  note q = fence_replaced_inv [OF assms, of session]
  have stored: "authority_inv (?q\<lparr>pa_sessions := om_put ?b (session\<lparr>ps_fenced := False\<rparr>) (pa_sessions ?q),
      pa_fenced := om_put ?b False (pa_fenced ?q)\<rparr>)"
    if "id_valid ?b" "\<not> (map_of (pa_sessions ?q) ?b = None \<and> max_publishers (pa_limits ?q) \<le> length (pa_sessions ?q))"
  proof -
    have "length (om_put ?b (session\<lparr>ps_fenced := False\<rparr>) (pa_sessions ?q)) \<le> max_publishers (pa_limits pa)"
      using that(2) q(2) om_put_present [of "pa_sessions ?q" ?b] om_put_absent [of "pa_sessions ?q" ?b]
      by (cases "map_of (pa_sessions ?q) ?b") (simp_all add: authority_bounded_def)
    then show ?thesis
      using that(1) q
      by (auto simp: authority_inv_def sessions_agree_def one_live_boot_def authority_bounded_def epoch_ok_def
          intro: om_sorted_put split: if_splits)
  qed
  have "authority_inv ?q" using q by (simp add: authority_inv_def)
  then show ?thesis using stored assms by (auto simp: register_publisher_def Let_def)
qed

lemma fence_boot_inv: "authority_inv pa \<Longrightarrow> authority_inv (snd (fence_boot boot pa))"
  using om_put_present [of "pa_sessions pa" boot]
  by (cases "map_of (pa_sessions pa) boot")
    (auto simp: fence_boot_def authority_inv_def sessions_agree_def one_live_boot_def authority_bounded_def epoch_ok_def
      intro: om_sorted_put split: if_splits)

lemma admit_inv: "authority_inv pa \<Longrightarrow> authority_inv (snd (admit a payload pa))"
  using om_put_absent [of "pa_attempts pa" "aa_attempt a"]
  by (auto simp: admit_def Let_def authority_inv_def sessions_agree_def one_live_boot_def authority_bounded_def
      epoch_ok_def intro: om_sorted_put split: option.splits)

lemma forget_attempt_inv: "authority_inv pa \<Longrightarrow> authority_inv (forget_attempt attempt pa)"
  using om_del_length [of attempt "pa_attempts pa"]
  by (simp add: forget_attempt_def authority_inv_def sessions_agree_def one_live_boot_def authority_bounded_def
      epoch_ok_def om_sorted_del)

lemma authority_step_inv: "authority_step pa pa' \<Longrightarrow> authority_inv pa \<Longrightarrow> authority_inv pa'"
  by (induction rule: authority_step.induct)
    (auto intro: restore_epoch_inv register_publisher_inv fence_boot_inv admit_inv forget_attempt_inv)

lemma authority_reachable_inv: "authority_step\<^sup>*\<^sup>* (new_authority l) pa \<Longrightarrow> authority_inv pa"
  by (induction rule: rtranclp_induct) (auto intro: new_authority_inv authority_step_inv)

lemma authority_step_fenced: "authority_step pa pa' \<Longrightarrow> is_fenced pa b \<Longrightarrow> is_fenced pa' b"
proof (induction rule: authority_step.induct)
  case (register pa session)
  then show ?case
    using is_fenced_replaced [OF register, of session] by (auto simp: register_publisher_def Let_def is_fenced_def)
qed (auto simp: restore_epoch_def fence_boot_def admit_def Let_def forget_attempt_def is_fenced_def split: option.splits)

lemma authority_step_epoch: "authority_step pa pa' \<Longrightarrow> epoch_ok pa \<Longrightarrow> pa_epoch pa \<le> pa_epoch pa' \<and> (pa_epoch_restored pa \<longrightarrow> pa_epoch_restored pa')"
proof (induction rule: authority_step.induct)
  case (restore pa e)
  have "Generation 1 \<le> e" if "gen_is_set e"
    using that by (simp add: less_eq_generation_def gen_is_set_def word_le_nat_alt unat_gt_0 Suc_le_eq)
  then show ?case using restore by (auto simp: restore_epoch_def epoch_ok_def)
qed (auto simp: register_publisher_def fence_boot_def admit_def Let_def forget_attempt_def split: option.splits)

lemma validate_not_fenced: "validate_authority pa a = AS_ACCEPTED \<Longrightarrow> \<not> is_fenced pa (aa_boot a)"
  by (simp add: validate_authority_def split: if_splits)

lemma validate_not_idempotent: "validate_authority pa a \<noteq> AS_IDEMPOTENT"
  by (simp add: validate_authority_def split: option.split)

lemma admit_success: "authority_status_is_success (fst (admit a payload pa)) \<Longrightarrow>
    validate_authority pa a = AS_ACCEPTED \<and> map_option fst (map_of (pa_attempts (snd (admit a payload pa))) (aa_attempt a)) = Some payload"
  by (auto simp: admit_def Let_def authority_status_is_success_def validate_not_idempotent split: if_splits option.splits)

lemma admit_refused: "fst (admit a payload pa) \<noteq> AS_ACCEPTED \<Longrightarrow> snd (admit a payload pa) = pa"
  by (auto simp: admit_def Let_def split: if_splits option.splits)

section \<open>What the authority guarantees\<close>

text \<open>Fencing is permanent. Whatever operations follow, a fenced boot stays fenced, and no authority that
  names it is ever accepted again, neither by validation nor by admission nor by registering it anew.\<close>

theorem fencing_is_permanent:
  assumes "is_fenced pa boot" "authority_step\<^sup>*\<^sup>* pa pa'"
  shows "is_fenced pa' boot \<and>
    (\<forall>a payload. aa_boot a = boot \<longrightarrow> validate_authority pa' a \<noteq> AS_ACCEPTED \<and>
       \<not> authority_status_is_success (fst (admit a payload pa'))) \<and>
    (\<forall>session. ps_boot session = boot \<longrightarrow> fst (register_publisher session pa') \<noteq> AS_ACCEPTED)"
proof -
  have fenced: "is_fenced pa' boot"
    using assms(2,1) by (induction rule: rtranclp_induct) (auto intro: authority_step_fenced)
  have "validate_authority pa' a \<noteq> AS_ACCEPTED" if "aa_boot a = boot" for a
    using validate_not_fenced [of pa' a] that fenced by auto
  moreover have "\<not> authority_status_is_success (fst (admit a payload pa'))" if "aa_boot a = boot" for a payload
    using admit_success [of a payload pa'] validate_not_fenced [of pa' a] that fenced by auto
  moreover have "fst (register_publisher session pa') \<noteq> AS_ACCEPTED" if "ps_boot session = boot" for session
    using fenced that by (simp add: register_publisher_def)
  ultimately show ?thesis using fenced by simp
qed

definition sample_session :: "string \<Rightarrow> publisher_session" where
  "sample_session boot =
     \<lparr>ps_publisher = StringId ''pub'', ps_boot = StringId boot, ps_epoch = Generation 1,
      ps_scope = StringId ''s'', ps_fenced = False\<rparr>"

lemma fencing_is_permanent_witness:
  "is_fenced (snd (register_publisher (sample_session ''b2'')
     (snd (fence_boot (StringId ''b1'') (new_authority default_limits))))) (StringId ''b1'')"
  using fencing_is_permanent [of "snd (fence_boot (StringId ''b1'') (new_authority default_limits))" "StringId ''b1''"
      "snd (register_publisher (sample_session ''b2'') (snd (fence_boot (StringId ''b1'') (new_authority default_limits))))"]
    r_into_rtranclp [of authority_step, OF authority_step.register]
  by (simp add: fence_boot_def is_fenced_def id_valid_def)

text \<open>In every reachable state a publisher has at most one live boot: registering a new boot has fenced the
  one it replaces, before anything else can use it. Session and attempt tables stay within their limits,
  the fence list covers every fenced session, and the coordinator epoch is set.\<close>

theorem reachable_authority_states:
  assumes "authority_step\<^sup>*\<^sup>* (new_authority l) pa"
  shows "(\<forall>b c s t. map_of (pa_sessions pa) b = Some s \<and> map_of (pa_sessions pa) c = Some t \<and>
        ps_publisher s = ps_publisher t \<and> \<not> is_fenced pa b \<and> \<not> is_fenced pa c \<longrightarrow> b = c) \<and>
    session_count pa \<le> max_publishers (pa_limits pa) \<and>
    length (pa_attempts pa) \<le> max_attempts_tracked (pa_limits pa) \<and> gen_is_set (pa_epoch pa)"
proof -
  note inv = authority_invD [OF authority_reachable_inv [OF assms]]
  have fenced: "is_fenced pa b = ps_fenced s" if "map_of (pa_sessions pa) b = Some s" for b s
    using inv(1) that by (simp add: sessions_agree_def is_fenced_def)
  have "b = c" if "map_of (pa_sessions pa) b = Some s" "map_of (pa_sessions pa) c = Some t"
    "ps_publisher s = ps_publisher t" "\<not> is_fenced pa b" "\<not> is_fenced pa c" for b c s t
    by (rule inv(2) [unfolded one_live_boot_def, rule_format, of b s c t]) (use that fenced in simp)
  then have "\<forall>b c s t. map_of (pa_sessions pa) b = Some s \<and> map_of (pa_sessions pa) c = Some t \<and>
        ps_publisher s = ps_publisher t \<and> \<not> is_fenced pa b \<and> \<not> is_fenced pa c \<longrightarrow> b = c" by blast
  then show ?thesis using inv(3,4) by (simp add: authority_bounded_def epoch_ok_def session_count_def)
qed

lemma reachable_authority_states_witness:
  "gen_is_set (pa_epoch (snd (register_publisher (sample_session ''b2'') (new_authority default_limits))))"
  using reachable_authority_states [of default_limits
      "snd (register_publisher (sample_session ''b2'') (new_authority default_limits))"]
    r_into_rtranclp [of authority_step, OF authority_step.register] by blast

text \<open>The coordinator epoch never moves backwards.\<close>

theorem epoch_monotone:
  assumes "authority_step\<^sup>*\<^sup>* (new_authority l) pa" "authority_step\<^sup>*\<^sup>* pa pa'"
  shows "pa_epoch pa \<le> pa_epoch pa'"
  using assms(2)
proof (induction rule: rtranclp_induct)
  case (step y z)
  have "authority_step\<^sup>*\<^sup>* (new_authority l) y" using assms(1) step.hyps(1) by (rule rtranclp_trans)
  then have "epoch_ok y" using authority_reachable_inv authority_invD(4) by blast
  then show ?case using authority_step_epoch [OF step.hyps(2)] step.IH by (meson order_trans)
qed simp

lemma epoch_monotone_witness:
  "pa_epoch (new_authority default_limits) \<le> pa_epoch (snd (restore_epoch (Generation 7) (new_authority default_limits)))"
  by (rule epoch_monotone [OF rtranclp.rtrancl_refl r_into_rtranclp [of authority_step, OF authority_step.restore]])

section \<open>Attempts\<close>

text \<open>The contract the runtime relies on: what is recorded for an attempt decides what happens on a replay.\<close>

locale replay_guard =
  fixes recorded :: "'s \<Rightarrow> 'i \<Rightarrow> 'd option"
    and admit_attempt :: "'a \<Rightarrow> 'd \<Rightarrow> 's \<Rightarrow> authority_status \<times> 's"
    and attempt_of :: "'a \<Rightarrow> 'i"
  assumes admitted: "authority_status_is_success (fst (admit_attempt a d s)) \<Longrightarrow>
      recorded (snd (admit_attempt a d s)) (attempt_of a) = Some d"
    and refused: "fst (admit_attempt a d s) \<noteq> AS_ACCEPTED \<Longrightarrow> snd (admit_attempt a d s) = s"
    and fresh: "fst (admit_attempt a d s) = AS_ACCEPTED \<Longrightarrow> recorded s (attempt_of a) = None"
    and kept: "i \<noteq> attempt_of a \<Longrightarrow> recorded (snd (admit_attempt a d s)) i = recorded s i"
begin

lemma recorded_kept: "recorded s i = Some d \<Longrightarrow> recorded (snd (admit_attempt a e s)) i = Some d"
proof (cases "fst (admit_attempt a e s) = AS_ACCEPTED")
  case True
  assume r: "recorded s i = Some d"
  then have "i \<noteq> attempt_of a" using fresh [OF True] by auto
  with r kept show ?thesis by simp
qed (simp add: refused)

lemma recorded_run:
  "recorded s i = Some d \<Longrightarrow> recorded (fold (\<lambda>(a, e) s. snd (admit_attempt a e s)) as s) i = Some d"
  by (induction "as" arbitrary: s) (auto simp: recorded_kept)

lemma replay_never_accepted:
  assumes "recorded s (attempt_of a) = Some d"
  shows "fst (admit_attempt a e s) \<noteq> AS_ACCEPTED" "e \<noteq> d \<Longrightarrow> \<not> authority_status_is_success (fst (admit_attempt a e s))"
proof -
  show no: "fst (admit_attempt a e s) \<noteq> AS_ACCEPTED" using assms fresh by fastforce
  show "\<not> authority_status_is_success (fst (admit_attempt a e s))" if "e \<noteq> d"
    using admitted [of a e s] refused [OF no] assms that by auto
qed

end

definition recorded_payload :: "publication_authority \<Rightarrow> mutation_attempt_id \<Rightarrow> digest option" where
  "recorded_payload pa i = map_option fst (map_of (pa_attempts pa) i)"

interpretation attempts: replay_guard recorded_payload admit aa_attempt
proof unfold_locales
  show "authority_status_is_success (fst (admit a d s)) \<Longrightarrow> recorded_payload (snd (admit a d s)) (aa_attempt a) = Some d" for a d s
    using admit_success [of a d s] by (simp add: recorded_payload_def)
  show "fst (admit a d s) \<noteq> AS_ACCEPTED \<Longrightarrow> snd (admit a d s) = s" for a d s
    by (rule admit_refused)
  show "fst (admit a d s) = AS_ACCEPTED \<Longrightarrow> recorded_payload s (aa_attempt a) = None" for a d s
    by (auto simp: admit_def Let_def recorded_payload_def split: if_splits option.splits)
  show "i \<noteq> aa_attempt a \<Longrightarrow> recorded_payload (snd (admit a d s)) i = recorded_payload s i" for i a d s
    by (auto simp: admit_def Let_def recorded_payload_def split: option.splits)
qed

text \<open>Every operation of the authority but the forgetting of the attempt \<open>i\<close>.\<close>

inductive remembering :: "mutation_attempt_id \<Rightarrow> publication_authority \<Rightarrow> publication_authority \<Rightarrow> bool" for i where
  restore: "remembering i pa (snd (restore_epoch e pa))"
| register: "remembering i pa (snd (register_publisher session pa))"
| fence: "remembering i pa (snd (fence_boot boot pa))"
| admit: "remembering i pa (snd (admit a payload pa))"
| forget: "attempt \<noteq> i \<Longrightarrow> remembering i pa (forget_attempt attempt pa)"

lemma remembering_recorded:
  "remembering i pa pa' \<Longrightarrow> recorded_payload pa i = Some d \<Longrightarrow> recorded_payload pa' i = Some d"
proof (induction rule: remembering.induct)
  case (register pa session)
  have "pa_attempts (snd (register_publisher session pa)) = pa_attempts pa"
    by (auto simp: register_publisher_def Let_def)
  then show ?case using register by (simp add: recorded_payload_def)
next
  case (admit pa a payload)
  then show ?case by (rule attempts.recorded_kept)
qed (auto simp: recorded_payload_def restore_epoch_def fence_boot_def forget_attempt_def)

text \<open>C31: Once an attempt is admitted with a payload, then as long as it is not forgotten, whatever other operations run on
  the publication authority, a replay of the attempt is never accepted as new, and a replay with a different
  payload never succeeds at all. Forgetting it, which the runtime does with an attempt it admitted and then refused,
  ends the guard: nothing is recorded for it any more.\<close>

theorem attempt_replay_guard:
  assumes "authority_status_is_success (fst (admit a payload pa))"
    and "(remembering (aa_attempt a))\<^sup>*\<^sup>* (snd (admit a payload pa)) pa'"
    and "aa_attempt b = aa_attempt a"
  shows "fst (admit b other pa') \<noteq> AS_ACCEPTED \<and>
    (other \<noteq> payload \<longrightarrow> \<not> authority_status_is_success (fst (admit b other pa'))) \<and>
    recorded_payload pa' (aa_attempt a) = Some payload \<and>
    recorded_payload (forget_attempt (aa_attempt a) pa') (aa_attempt a) = None"
proof -
  have r: "recorded_payload pa' (aa_attempt a) = Some payload"
    using assms(2) by (induction rule: rtranclp_induct) (auto intro: attempts.admitted [OF assms(1)] remembering_recorded)
  moreover have "recorded_payload (forget_attempt (aa_attempt a) pa') (aa_attempt a) = None"
    by (simp add: recorded_payload_def forget_attempt_def)
  ultimately show ?thesis using attempts.replay_never_accepted assms(3) by metis
qed

definition sample_acting :: "string \<Rightarrow> string \<Rightarrow> acting_authority" where
  "sample_acting boot attempt =
     \<lparr>aa_epoch = Generation 1, aa_publisher = StringId ''pub'', aa_boot = StringId boot, aa_scope = StringId ''s'',
      aa_attempt = StringId attempt, aa_expected_policy = gen_unset, aa_expected_proof = gen_unset\<rparr>"

lemmas sample_authority_simps =
  sample_acting_def sample_session_def admit_def validate_authority_def register_publisher_def fence_replaced_def
  new_authority_def is_fenced_def id_valid_def gen_is_set_def authority_status_is_success_def default_limits_def

lemma attempt_replay_guard_witness:
  "\<not> authority_status_is_success (fst (admit (sample_acting ''b'' ''t'') (Digest [2])
     (snd (fence_boot (StringId ''c'') (snd (admit (sample_acting ''b'' ''t'') (Digest [1])
       (snd (register_publisher (sample_session ''b'') (new_authority default_limits)))))))))"
  using attempt_replay_guard [of "sample_acting ''b'' ''t''" "Digest [1]"
      "snd (register_publisher (sample_session ''b'') (new_authority default_limits))"
      "snd (fence_boot (StringId ''c'') (snd (admit (sample_acting ''b'' ''t'') (Digest [1])
         (snd (register_publisher (sample_session ''b'') (new_authority default_limits))))))" "sample_acting ''b'' ''t''" "Digest [2]"]
    r_into_rtranclp [of "remembering (StringId ''t'')", OF remembering.fence]
  by (simp add: sample_authority_simps)

lemma hex16_inject: "hex16 v = hex16 w \<Longrightarrow> v = w"
proof -
  assume eq: "hex16 v = hex16 w"
  have nibble: "drop_bit (4 * i) v AND 15 = (drop_bit (4 * i) w AND 15 :: u64)" if "i < 16" for i
  proof -
    have "hex_digits ! unat (drop_bit (4 * i) v AND 15) = hex_digits ! unat (drop_bit (4 * i) w AND 15)"
      using eq that unfolding hex16_def map_eq_conv by auto
    moreover have "unat (x AND 15 :: u64) < 16" for x
      using word_and_le1 [of x 15] by (simp add: word_le_nat_alt)
    moreover have "distinct hex_digits" "length hex_digits = 16" by (simp_all add: hex_digits_def)
    ultimately have "unat (drop_bit (4 * i) v AND 15) = unat (drop_bit (4 * i) w AND 15)"
      by (simp add: nth_eq_iff_index_eq)
    then show ?thesis by (rule unsigned_word_eqI)
  qed
  show "v = w"
  proof (rule bit_word_eqI)
    fix n assume "n < LENGTH(64)"
    then have n: "n div 4 < 16" by simp
    have split: "bit x n = bit (drop_bit (4 * (n div 4)) x AND 15) (n mod 4)" for x :: u64
    proof -
      have small: "n mod 4 < 4" by simp
      then have "n mod 4 < 64" by linarith
      then have "bit (mask 4 :: u64) (n mod 4)" using small by (simp only: bit_mask_iff possible_bit_word) simp
      then have "bit (15 :: u64) (n mod 4)" by (simp add: mask_eq_exp_minus_1)
      then show ?thesis by (simp add: bit_and_iff bit_drop_bit_eq)
    qed
    show "bit v n = bit w n" unfolding split nibble [OF n] ..
  qed
qed

text \<open>Boot identities minted by one process never repeat: two different serial numbers give two different,
  well-formed identities.\<close>

theorem boot_mint_never_repeats:
  assumes "serial \<noteq> serial'"
  shows "\<exists>b b'. mint_worker_boot_id salt serial = Inr b \<and> mint_worker_boot_id salt serial' = Inr b' \<and>
    b \<noteq> b' \<and> id_valid b \<and> id_valid b'"
proof -
  have hex: "set (hex16 v) \<subseteq> set hex_digits" "length (hex16 v) = 16" for v
  proof -
    have "unat (x AND 15 :: u64) < length hex_digits" for x
      using word_and_le1 [of x 15] by (simp add: word_le_nat_alt hex_digits_def)
    then show "set (hex16 v) \<subseteq> set hex_digits" by (auto simp: hex16_def)
    show "length (hex16 v) = 16" by (simp add: hex16_def)
  qed
  have ok: "valid_identity_text (''boot-'' @ hex16 v) worker_boot_id_max" for v
  proof -
    have "\<forall>c\<in>set hex_digits. identity_char c" by (simp add: hex_digits_def identity_char_def)
    then have "list_all identity_char (hex16 v)" using hex(1) [of v] by (auto simp: list_all_iff)
    moreover have "list_all identity_char ''boot-''" by (simp add: identity_char_def)
    ultimately show ?thesis
      by (simp add: valid_identity_text_def hex(2) worker_boot_id_max_def)
  qed
  have "salt XOR (serial * 0x9e3779b97f4a7c15) \<noteq> salt XOR (serial' * 0x9e3779b97f4a7c15)"
    using assms odd_mult_cancel [of "0x9e3779b97f4a7c15" serial serial'] by (auto dest: xor_left_inject)
  then have "hex16 (salt XOR (serial * 0x9e3779b97f4a7c15)) \<noteq> hex16 (salt XOR (serial' * 0x9e3779b97f4a7c15))"
    using hex16_inject by blast
  then show ?thesis
    by (simp add: mint_worker_boot_id_def parse_id_def try_parse_def ok [simplified] id_valid_def)
qed

lemma boot_mint_never_repeats_witness:
  "\<exists>b b'. mint_worker_boot_id 5 1 = Inr b \<and> mint_worker_boot_id 5 2 = Inr b' \<and> b \<noteq> b' \<and> id_valid b \<and> id_valid b'"
  by (rule boot_mint_never_repeats) simp

end
