(* ===== verification/Evidence.thy ===== *)
theory Evidence
  imports Authority
begin

text \<open>
  The reference implementation of the upstream evidence views (\<open>include/path_diversity/evidence.hpp\<close>,
  \<open>src/evidence.cpp\<close>): Path Authority, Fabric Topology and Failure Domain Registry surfaces over one
  in-memory store. \<open>evidence_provider\<close> is the contract the evaluator relies on; the store meets it in
  every state its operations can build.
\<close>

section \<open>The store\<close>

record path_record =
  pr_composition :: path_composition
  pr_current :: path_authority_generation
  pr_authorized :: bool

record evidence_store =
  es_topology :: topology_generation
  es_failure_domains :: failure_domain_generation
  es_paths :: "(path_id, path_record) omap"
  es_memberships :: "(entity_ref \<times> domain_relation, domain_evidence) omap"
  es_srlg :: "(entity_ref, srlg_evidence) omap"

definition entities_of :: "path_composition \<Rightarrow> entity_ref list" where
  "entities_of c =
     map (\<lambda>l. EntityRef EK_LINK (id_view l)) (pc_links c) @
     map (\<lambda>n. EntityRef EK_NODE (id_view n)) (pc_transit_nodes c) @
     map (\<lambda>n. EntityRef EK_ENDPOINT (id_view n)) (pc_sources c) @
     map (\<lambda>n. EntityRef EK_ENDPOINT (id_view n)) (pc_destinations c) @
     map (\<lambda>d. EntityRef EK_DEVICE (id_view d)) (pc_devices c)"

lemma entities_of_path_entities: "entities_of c = path_entities c"
  by (simp add: entities_of_def path_entities_def)

definition empty_store :: evidence_store where
  "empty_store =
     \<lparr>es_topology = Generation 1, es_failure_domains = Generation 1, es_paths = [], es_memberships = [], es_srlg = []\<rparr>"

section \<open>Views\<close>

definition es_current_generation :: "evidence_store \<Rightarrow> path_id \<Rightarrow> path_authority_generation option" where
  "es_current_generation es path =
     (case map_of (es_paths es) path of
        None \<Rightarrow> None
      | Some r \<Rightarrow> if \<not> pr_authorized r then None else Some (pr_current r))"

definition es_is_authorized :: "evidence_store \<Rightarrow> path_id \<Rightarrow> path_authority_generation \<Rightarrow> bool" where
  "es_is_authorized es path generation =
     (case map_of (es_paths es) path of
        None \<Rightarrow> False
      | Some r \<Rightarrow> if \<not> pr_authorized r then False else pr_current r = generation)"

definition es_composition :: "evidence_store \<Rightarrow> path_id \<Rightarrow> path_composition option" where
  "es_composition es path = map_option pr_composition (map_of (es_paths es) path)"

definition es_domain_membership :: "evidence_store \<Rightarrow> entity_ref \<Rightarrow> domain_relation \<Rightarrow> domain_evidence" where
  "es_domain_membership es entity relation =
     (case map_of (es_memberships es) (entity, relation) of
        None \<Rightarrow> default_domain_evidence\<lparr>de_coverage := EV_ABSENT, de_generation := es_failure_domains es\<rparr>
      | Some evidence \<Rightarrow> evidence)"

definition es_srlg_membership :: "evidence_store \<Rightarrow> entity_ref \<Rightarrow> srlg_evidence" where
  "es_srlg_membership es entity =
     (case map_of (es_srlg es) entity of
        None \<Rightarrow> default_srlg_evidence\<lparr>se_coverage := EV_ABSENT, se_generation := es_failure_domains es\<rparr>
      | Some evidence \<Rightarrow> evidence)"

definition es_authority_view :: "evidence_store \<Rightarrow> path_authority_view" where
  "es_authority_view es =
     \<lparr>av_current_generation = es_current_generation es, av_is_authorized = es_is_authorized es\<rparr>"

definition es_structure_view :: "evidence_store \<Rightarrow> path_structure_view" where
  "es_structure_view es =
     \<lparr>sv_topology_generation = es_topology es, sv_composition = es_composition es\<rparr>"

definition es_domain_view :: "evidence_store \<Rightarrow> failure_domain_view" where
  "es_domain_view es =
     \<lparr>fv_generation = es_failure_domains es, fv_domain_membership = es_domain_membership es,
      fv_srlg_membership = es_srlg_membership es\<rparr>"

section \<open>Mutation\<close>

definition set_topology_generation :: "topology_generation \<Rightarrow> evidence_store \<Rightarrow> evidence_store" where
  "set_topology_generation g es = es\<lparr>es_topology := g\<rparr>"

definition advance_topology_generation :: "evidence_store \<Rightarrow> evidence_store" where
  "advance_topology_generation es =
     (if gen_can_advance (gen_value (es_topology es)) then es\<lparr>es_topology := gen_next (es_topology es)\<rparr> else es)"

definition set_failure_domain_generation :: "failure_domain_generation \<Rightarrow> evidence_store \<Rightarrow> evidence_store" where
  "set_failure_domain_generation g es = es\<lparr>es_failure_domains := g\<rparr>"

definition advance_failure_domain_generation :: "evidence_store \<Rightarrow> evidence_store" where
  "advance_failure_domain_generation es =
     (if gen_can_advance (gen_value (es_failure_domains es))
      then es\<lparr>es_failure_domains := gen_next (es_failure_domains es)\<rparr> else es)"

definition set_path :: "path_composition \<Rightarrow> evidence_store \<Rightarrow> evidence_store" where
  "set_path composition es =
     es\<lparr>es_paths := om_put (pc_path composition)
          \<lparr>pr_composition = pc_canonicalize composition, pr_current = pc_authority_generation composition,
           pr_authorized = True\<rparr> (es_paths es)\<rparr>"

definition set_path_authority ::
  "path_id \<Rightarrow> path_authority_generation \<Rightarrow> bool \<Rightarrow> evidence_store \<Rightarrow> evidence_store" where
  "set_path_authority path generation authorized es =
     (case map_of (es_paths es) path of
        None \<Rightarrow> es
      | Some r \<Rightarrow>
          es\<lparr>es_paths := om_put path
               \<lparr>pr_composition = (pr_composition r)\<lparr>pc_authority_generation := generation\<rparr>,
                pr_current = generation, pr_authorized = authorized\<rparr> (es_paths es)\<rparr>)"

definition revoke_path :: "path_id \<Rightarrow> evidence_store \<Rightarrow> evidence_store" where
  "revoke_path path es =
     (case map_of (es_paths es) path of
        None \<Rightarrow> es
      | Some r \<Rightarrow> es\<lparr>es_paths := om_put path (r\<lparr>pr_authorized := False\<rparr>) (es_paths es)\<rparr>)"

definition has_path :: "path_id \<Rightarrow> evidence_store \<Rightarrow> bool" where
  "has_path path es \<longleftrightarrow> map_of (es_paths es) path \<noteq> None"

definition set_domain_membership ::
  "entity_ref \<Rightarrow> domain_relation \<Rightarrow> evidence_coverage \<Rightarrow> failure_domain_id list \<Rightarrow> evidence_store \<Rightarrow> evidence_store" where
  "set_domain_membership entity relation coverage domains es =
     es\<lparr>es_memberships := om_put (entity, relation)
          (de_canonicalize \<lparr>de_coverage = coverage, de_generation = es_failure_domains es, de_domains = domains\<rparr>)
          (es_memberships es)\<rparr>"

definition set_srlg_membership ::
  "entity_ref \<Rightarrow> evidence_coverage \<Rightarrow> shared_risk_group_id list \<Rightarrow> evidence_store \<Rightarrow> evidence_store" where
  "set_srlg_membership entity coverage groups es =
     es\<lparr>es_srlg := om_put entity
          (se_canonicalize \<lparr>se_coverage = coverage, se_generation = es_failure_domains es, se_groups = groups\<rparr>)
          (es_srlg es)\<rparr>"

definition clear_entity :: "entity_ref \<Rightarrow> evidence_store \<Rightarrow> evidence_store" where
  "clear_entity entity es =
     es\<lparr>es_srlg := om_del entity (es_srlg es),
        es_memberships := filter (\<lambda>e. fst (fst e) \<noteq> entity) (es_memberships es)\<rparr>"

definition assign_path_entities ::
  "path_id \<Rightarrow> domain_relation \<Rightarrow> evidence_coverage \<Rightarrow> failure_domain_id list \<Rightarrow> evidence_store \<Rightarrow> evidence_store" where
  "assign_path_entities path relation coverage domains es =
     (case map_of (es_paths es) path of
        None \<Rightarrow> es
      | Some r \<Rightarrow>
          fold (\<lambda>entity. set_domain_membership entity relation coverage domains) (entities_of (pr_composition r)) es)"

definition assign_path_entities_srlg ::
  "path_id \<Rightarrow> evidence_coverage \<Rightarrow> shared_risk_group_id list \<Rightarrow> evidence_store \<Rightarrow> evidence_store" where
  "assign_path_entities_srlg path coverage groups es =
     (case map_of (es_paths es) path of
        None \<Rightarrow> es
      | Some r \<Rightarrow> fold (\<lambda>entity. set_srlg_membership entity coverage groups) (entities_of (pr_composition r)) es)"

definition es_path_count :: "evidence_store \<Rightarrow> nat" where
  "es_path_count es = length (es_paths es)"

definition membership_count :: "evidence_store \<Rightarrow> nat" where
  "membership_count es = length (es_memberships es) + length (es_srlg es)"

definition path_record_render :: "path_id \<times> path_record \<Rightarrow> string" where
  "path_record_render e =
     ''  '' @ id_view (fst e) @ '' pa=g'' @ gen_text (pr_current (snd e)) @
     (if pr_authorized (snd e) then '' authorized'' else '' unauthorized'') @
     '' links='' @ decimal (length (pc_links (pr_composition (snd e)))) @
     '' nodes='' @ decimal (length (pc_transit_nodes (pr_composition (snd e)))) @
     '' devices='' @ decimal (length (pc_devices (pr_composition (snd e)))) @ [CHR 0x0A]"

definition es_render :: "evidence_store \<Rightarrow> string" where
  "es_render es =
     ''evidence topology=g'' @ gen_text (es_topology es) @ '' failure-domains=g'' @ gen_text (es_failure_domains es) @
     '' paths='' @ decimal (length (es_paths es)) @ '' memberships='' @ decimal (length (es_memberships es)) @
     '' srlg='' @ decimal (length (es_srlg es)) @ [CHR 0x0A] @ concat (map path_record_render (es_paths es))"

section \<open>Runs\<close>

inductive evidence_step :: "evidence_store \<Rightarrow> evidence_store \<Rightarrow> bool" where
  set_topology: "evidence_step es (set_topology_generation t es)"
| advance_topology: "evidence_step es (advance_topology_generation es)"
| set_domains: "evidence_step es (set_failure_domain_generation d es)"
| advance_domains: "evidence_step es (advance_failure_domain_generation es)"
| set_path: "evidence_step es (set_path c es)"
| set_authority: "evidence_step es (set_path_authority p g a es)"
| revoke: "evidence_step es (revoke_path p es)"
| domain: "evidence_step es (set_domain_membership e r c ds es)"
| srlg: "evidence_step es (set_srlg_membership e c gs es)"
| clear: "evidence_step es (clear_entity e es)"

definition store_ok :: "evidence_store \<Rightarrow> bool" where
  "store_ok es \<longleftrightarrow> om_sorted (es_paths es) \<and> om_sorted (es_memberships es) \<and> om_sorted (es_srlg es) \<and>
     (\<forall>p r. map_of (es_paths es) p = Some r \<longrightarrow>
        pc_path (pr_composition r) = p \<and> pc_sorted (pr_composition r) \<and>
        pc_authority_generation (pr_composition r) = pr_current r)"

lemma store_ok_empty: "store_ok empty_store"
  by (simp add: store_ok_def empty_store_def om_sorted_def)

lemma om_sorted_filter: "om_sorted m \<Longrightarrow> om_sorted (filter P m)"
  by (induction m) (auto simp: om_sorted_def)

lemma pc_canonicalize_fields [simp]:
  "pc_path (pc_canonicalize c) = pc_path c"
  "pc_authority_generation (pc_canonicalize c) = pc_authority_generation c"
  "pc_topology_generation (pc_canonicalize c) = pc_topology_generation c"
  by (simp_all add: pc_canonicalize_def)

lemma evidence_step_ok: "evidence_step es es' \<Longrightarrow> store_ok es \<Longrightarrow> store_ok es'"
proof (induction rule: evidence_step.induct)
  case (set_authority es p g a)
  then show ?case
    by (auto simp: store_ok_def set_path_authority_def om_sorted_put pc_sorted_def split: option.split)
next
  case (clear es e)
  then show ?case by (simp add: store_ok_def clear_entity_def om_sorted_del om_sorted_filter)
qed (auto simp: store_ok_def set_topology_generation_def advance_topology_generation_def
      set_failure_domain_generation_def advance_failure_domain_generation_def set_path_def revoke_path_def
      set_domain_membership_def set_srlg_membership_def om_sorted_put split: option.split)

lemma assign_steps:
  "evidence_step\<^sup>*\<^sup>* es (assign_path_entities p r c ds es)" "evidence_step\<^sup>*\<^sup>* es (assign_path_entities_srlg p c gs es)"
proof -
  have "evidence_step\<^sup>*\<^sup>* es (fold (\<lambda>e. set_domain_membership e r c ds) xs es)" for xs es
    by (induction xs arbitrary: es) (auto intro: evidence_step.domain converse_rtranclp_into_rtranclp)
  moreover have "evidence_step\<^sup>*\<^sup>* es (fold (\<lambda>e. set_srlg_membership e c gs) xs es)" for xs es
    by (induction xs arbitrary: es) (auto intro: evidence_step.srlg converse_rtranclp_into_rtranclp)
  ultimately show "evidence_step\<^sup>*\<^sup>* es (assign_path_entities p r c ds es)"
    "evidence_step\<^sup>*\<^sup>* es (assign_path_entities_srlg p c gs es)"
    by (simp_all add: assign_path_entities_def assign_path_entities_srlg_def split: option.split)
qed

lemma evidence_reachable_ok: "evidence_step\<^sup>*\<^sup>* empty_store es \<Longrightarrow> store_ok es"
  by (induction rule: rtranclp_induct) (auto intro: store_ok_empty evidence_step_ok)

section \<open>The contract of the views\<close>

locale evidence_provider =
  fixes ok :: "'s \<Rightarrow> bool"
    and authority :: "'s \<Rightarrow> path_authority_view"
    and topology :: "'s \<Rightarrow> path_structure_view"
    and domains :: "'s \<Rightarrow> failure_domain_view"
  assumes authorized: "av_is_authorized (authority s) p g \<longleftrightarrow> av_current_generation (authority s) p = Some g"
    and composed: "ok s \<Longrightarrow> sv_composition (topology s) p = Some c \<Longrightarrow> pc_path c = p \<and> pc_sorted c"
    and bound: "ok s \<Longrightarrow> av_current_generation (authority s) p = Some g \<Longrightarrow>
      \<exists>c. sv_composition (topology s) p = Some c \<and> pc_authority_generation c = g"
begin

lemma check_authority_current:
  "check_authority ob (authority s) rs = None \<longleftrightarrow>
     (\<forall>r\<in>set rs. av_current_generation (authority s) (pr_path r) = Some (pr_generation r))"
  by (induction rs) (auto simp: authorized split: option.splits if_splits)

lemma authorized_composition:
  assumes "ok s" "check_authority ob (authority s) rs = None" "r \<in> set rs"
  shows "\<exists>c. sv_composition (topology s) (pr_path r) = Some c \<and> pc_path c = pr_path r \<and>
    pc_authority_generation c = pr_generation r \<and> pc_sorted c"
  using assms bound composed by (metis check_authority_current)

text \<open>What the provider serves as evaluation inputs.\<close>

definition serves :: "'s \<Rightarrow> evaluation_inputs \<Rightarrow> bool" where
  "serves s inputs \<longleftrightarrow> in_authority inputs = Some (authority s) \<and> in_structure inputs = Some (topology s) \<and>
     in_domains inputs = Some (domains s)"

lemma unauthorized_rejected:
  assumes "serves s inputs" "dp_require_authority_current policy" "r \<in> set (rq_paths request)"
    and "av_current_generation (authority s) (pr_path r) \<noteq> Some (pr_generation r)"
  shows "rejected_outcome (ev_outcome (evaluate_diversity request policy inputs))"
proof (rule ccontr)
  assume "\<not> rejected_outcome (ev_outcome (evaluate_diversity request policy inputs))"
  then obtain ob l rs cs fp where P: "passes request policy inputs ob l rs cs fp"
    using decided_passes by blast
  have "check_authority ob (authority s) rs = None" using P assms(1,2) by (auto simp: passes_def serves_def)
  moreover have "r \<in> set rs"
    using passes_paths(1) [OF P, of "topology s"] assms(1,3) by (simp add: serves_def)
  ultimately show False using assms(4) check_authority_current by blast
qed

end

interpretation store: evidence_provider store_ok es_authority_view es_structure_view es_domain_view
proof unfold_locales
  show "av_is_authorized (es_authority_view s) p g \<longleftrightarrow> av_current_generation (es_authority_view s) p = Some g" for s p g
    by (simp add: es_authority_view_def es_is_authorized_def es_current_generation_def split: option.split)
  show "store_ok s \<Longrightarrow> sv_composition (es_structure_view s) p = Some c \<Longrightarrow> pc_path c = p \<and> pc_sorted c" for s p c
    by (auto simp: es_structure_view_def es_composition_def store_ok_def)
  show "store_ok s \<Longrightarrow> av_current_generation (es_authority_view s) p = Some g \<Longrightarrow>
      \<exists>c. sv_composition (es_structure_view s) p = Some c \<and> pc_authority_generation c = g" for s p g
    by (auto simp: es_structure_view_def es_composition_def es_authority_view_def es_current_generation_def store_ok_def
        split: option.splits if_splits)
qed

definition es_inputs :: "evidence_store \<Rightarrow> limits \<Rightarrow> evaluation_inputs" where
  "es_inputs es l =
     \<lparr>in_authority = Some (es_authority_view es), in_structure = Some (es_structure_view es),
      in_domains = Some (es_domain_view es), in_limits = Some l\<rparr>"

lemma es_inputs_serves: "store.serves es (es_inputs es l)"
  by (simp add: store.serves_def es_inputs_def)

section \<open>What the store guarantees\<close>

text \<open>In every state the store can reach, an authorized path has a composition under its own identity, in
  canonical order, derived under exactly the authorized generation, and authorization and current generation
  agree.\<close>

theorem reachable_store_consistent:
  assumes "evidence_step\<^sup>*\<^sup>* empty_store es" "es_current_generation es p = Some g"
  shows "es_is_authorized es p g \<and>
    (\<exists>c. es_composition es p = Some c \<and> pc_path c = p \<and> pc_authority_generation c = g \<and> pc_canonicalize c = c)"
proof -
  note ok = evidence_reachable_ok [OF assms(1)]
  have g: "av_current_generation (es_authority_view es) p = Some g" using assms(2) by (simp add: es_authority_view_def)
  obtain c where c: "sv_composition (es_structure_view es) p = Some c" "pc_authority_generation c = g"
    using store.bound [OF ok g] by blast
  then have "pc_path c = p" "pc_sorted c" using store.composed [OF ok] by blast+
  moreover from this(2) have "pc_canonicalize c = c"
    by (simp add: pc_sorted_def pc_canonicalize_def sort_key_id_if_sorted)
  moreover have "av_is_authorized (es_authority_view es) p g" using g by (simp add: store.authorized)
  ultimately show ?thesis using c by (simp add: es_authority_view_def es_structure_view_def)
qed

lemma reachable_store_consistent_witness:
  "es_is_authorized (set_path (sample_composition ''a'' ''x'') empty_store) (StringId ''a'') (Generation 1)"
proof (rule reachable_store_consistent [THEN conjunct1])
  show "evidence_step\<^sup>*\<^sup>* empty_store (set_path (sample_composition ''a'' ''x'') empty_store)"
    by (rule r_into_rtranclp) (rule evidence_step.set_path)
  show "es_current_generation (set_path (sample_composition ''a'' ''x'') empty_store) (StringId ''a'') = Some (Generation 1)"
    by (simp add: set_path_def sample_composition_def es_current_generation_def)
qed

text \<open>Revocation takes effect at once: after a path is revoked, no request that names it is proven or
  refuted under a policy that requires current authority, whatever generation the request binds.\<close>

theorem revoked_path_is_rejected:
  assumes "dp_require_authority_current policy" "r \<in> set (rq_paths request)"
  shows "rejected_outcome (ev_outcome (evaluate_diversity request policy (es_inputs (revoke_path (pr_path r) es) l)))"
proof (rule store.unauthorized_rejected [OF es_inputs_serves assms])
  show "av_current_generation (es_authority_view (revoke_path (pr_path r) es)) (pr_path r) \<noteq> Some (pr_generation r)"
    by (simp add: es_authority_view_def es_current_generation_def revoke_path_def split: option.split)
qed

lemma revoked_path_is_rejected_witness:
  "rejected_outcome (ev_outcome (evaluate_diversity (sample_request [''a'', ''b'']) sample_policy
     (es_inputs (revoke_path (StringId ''a'') (set_path (sample_composition ''a'' ''x'') empty_store)) sample_limits)))"
  using revoked_path_is_rejected [of sample_policy "sample_ref ''a''" "sample_request [''a'', ''b'']"]
  by (simp add: sample_simps) (simp add: sample_policy_def default_policy_def sample_ref_def)

text \<open>What is stored is what is served: a membership set for an entity and a relation is returned in canonical
  order without repeats, with the coverage stated and the generation current when it was set; every other
  entry is unchanged; and a cleared entity is served as ABSENT, never as a member of no domain.\<close>

theorem membership_lookup:
  "es_domain_membership (set_domain_membership e r cov ds es) e r =
     \<lparr>de_coverage = cov, de_generation = es_failure_domains es, de_domains = sorted_list_of_set (set ds)\<rparr> \<and>
   ((e', r') \<noteq> (e, r) \<longrightarrow>
     es_domain_membership (set_domain_membership e r cov ds es) e' r' = es_domain_membership es e' r') \<and>
   de_coverage (es_domain_membership (clear_entity e es) e r) = EV_ABSENT \<and>
   se_coverage (es_srlg_membership (clear_entity e es) e) = EV_ABSENT \<and>
   (e' \<noteq> e \<longrightarrow> es_domain_membership (clear_entity e es) e' r' = es_domain_membership es e' r')"
proof -
  have "map_of (filter (\<lambda>x. fst (fst x) \<noteq> e) m) (e', r') = (if e' = e then None else map_of m (e', r'))"
    for e' r' and m :: "((entity_ref \<times> domain_relation) \<times> domain_evidence) list"
    by (induction m) auto
  then show ?thesis
    by (simp add: es_domain_membership_def set_domain_membership_def clear_entity_def es_srlg_membership_def
        de_canonicalize_def canonical_sort_unique_eq split: option.split)
qed

lemma membership_lookup_witness:
  "es_domain_membership (set_domain_membership (EntityRef EK_LINK ''x'') DR_RACK EV_COMPLETE [] empty_store)
     (EntityRef EK_LINK ''y'') DR_RACK = es_domain_membership empty_store (EntityRef EK_LINK ''y'') DR_RACK"
  using membership_lookup [of "EntityRef EK_LINK ''x''" DR_RACK EV_COMPLETE "[]" empty_store "EntityRef EK_LINK ''y''" DR_RACK]
  by simp

lemma cleared_unknown:
  assumes "e \<in> set (path_entities l) \<union> set (path_entities r)" "is_domain_backed klass"
  shows "\<not> class_known klass policy (es_domain_view (clear_entity e es)) l r"
proof -
  have "de_coverage (es_domain_membership (clear_entity e es) e rel) = EV_ABSENT" for rel
  proof -
    have "map_of (filter (\<lambda>x. fst (fst x) \<noteq> e) m) (e, rel) = None"
      for m :: "((entity_ref \<times> domain_relation) \<times> domain_evidence) list"
      by (induction m) auto
    then show ?thesis by (simp add: es_domain_membership_def clear_entity_def)
  qed
  moreover have "se_coverage (es_srlg_membership (clear_entity e es) e) = EV_ABSENT"
    by (simp add: es_srlg_membership_def clear_entity_def)
  ultimately have gone: "\<not> domain_known (es_domain_view (clear_entity e es)) rel c"
    "\<not> srlg_known (es_domain_view (clear_entity e es)) c" if "e \<in> set (path_entities c)" for rel c
    using that unfolding domain_known_def srlg_known_def by (force simp: es_domain_view_def)+
  then have dom: "\<not> relation_known (es_domain_view (clear_entity e es)) rel l r"
    and srlg: "\<not> (srlg_known (es_domain_view (clear_entity e es)) l \<and> srlg_known (es_domain_view (clear_entity e es)) r)" for rel
    using assms(1) unfolding relation_known_def by blast+
  show ?thesis
    using assms(2) dom srlg by (cases klass) (auto simp: class_known_def is_domain_backed_def)
qed

text \<open>Missing classification is never evidence of disjointness: once the registry has lost the classification of
  an entity that either path uses, no domain-backed class is proven for the pair, whatever the other
  evidence says.\<close>

theorem cleared_entity_blocks_proof:
  assumes "pc_sorted l" "pc_sorted r" "is_domain_backed klass"
    and "e \<in> set (path_entities l) \<union> set (path_entities r)"
  shows "cr_outcome (fst (evaluate_single_class klass l r policy (es_domain_view (clear_entity e es)) m)) \<noteq> PO_PROVEN_DIVERSE"
  using cleared_unknown [OF assms(4,3), of policy es] single_rule.eval_outcome [OF assms(1,2)] by auto

lemma cleared_entity_blocks_proof_witness:
  "cr_outcome (fst (evaluate_single_class DC_RACK_DISJOINT (sample_composition ''a'' ''x'') (sample_composition ''b'' ''y'')
     sample_policy (es_domain_view (clear_entity (EntityRef EK_LINK ''x'') empty_store)) 4)) \<noteq> PO_PROVEN_DIVERSE"
  by (rule cleared_entity_blocks_proof)
    (simp_all add: pc_sorted_def sample_composition_def default_path_composition_def is_domain_backed_def path_entities_def)

end
