(* ===== verification/Snapshot.thy ===== *)
theory Snapshot
  imports Evidence
begin

text \<open>
  Immutable captures of proofs and the differences between two of them
  (\<open>include/path_diversity/snapshot.hpp\<close>, \<open>src/snapshot.cpp\<close>). A diff is built by pushing entries one at
  a time; \<open>changes\<close> is the whole list of entries as a specification, and the diff is its bounded prefix.
\<close>

section \<open>Snapshots\<close>

record proof_snapshot =
  sn_id :: snapshot_id
  sn_proof :: diversity_proof_id
  sn_generation :: diversity_proof_generation
  sn_policy :: diversity_policy_id
  sn_policy_generation :: diversity_policy_generation
  sn_paths :: "path_ref list"
  sn_outcome :: proof_outcome
  sn_classes :: "class_result list"
  sn_conflicts :: "shared_resource list"
  sn_witness :: witness_subset
  sn_dependencies :: dependency_binding
  sn_lifecycle :: lifecycle_state
  sn_currentness :: currentness
  sn_provenance :: provenance
  sn_digest :: digest

definition digest_classes :: "class_result list \<Rightarrow> digest \<Rightarrow> digest" where
  "digest_classes classes d = fold digest_class_result classes (digest_count (length classes) d)"

definition snapshot_render :: "proof_snapshot \<Rightarrow> string" where
  "snapshot_render s =
     ''snapshot '' @ id_view (sn_id s) @ '' proof='' @ id_view (sn_proof s) @ ''@g'' @ gen_text (sn_generation s) @
     '' policy='' @ id_view (sn_policy s) @ ''@g'' @ gen_text (sn_policy_generation s) @
     '' outcome='' @ proof_outcome_to_string (sn_outcome s) @
     '' lifecycle='' @ lifecycle_state_to_string (sn_lifecycle s) @
     '' currentness='' @ currentness_to_string (sn_currentness s) @
     '' paths=['' @ join '','' (map path_ref_render (sn_paths s)) @ '']''"

definition snapshot_digest :: "proof_snapshot \<Rightarrow> digest" where
  "snapshot_digest s =
     (let d = digest_update_u32 (of_nat kDiversityRuleSetVersion) zero_digest;
          d = digest_update_u32 (of_nat kCanonicalEncodingVersion) d;
          d = digest_update_text (id_view (sn_proof s)) d;
          d = digest_update_u64 (gen_value (sn_generation s)) d;
          d = digest_update_text (id_view (sn_policy s)) d;
          d = digest_update_u64 (gen_value (sn_policy_generation s)) d;
          d = digest_count (length (sn_paths s)) d;
          d = fold digest_path_ref (sn_paths s) d;
          d = digest_update_u8 (proof_outcome_code (sn_outcome s)) d;
          d = digest_classes (sn_classes s) d;
          d = digest_count (length (sn_conflicts s)) d;
          d = fold digest_conflict (sn_conflicts s) d;
          w = sn_witness s;
          d = digest_flag (ws_present w) d;
          d = digest_update_u64 (of_nat (ws_requested_k w)) d;
          d = digest_update_u64 (of_nat (ws_achieved w)) d;
          d = digest_flag (ws_maximum_exact w) d;
          d = digest_count (length (ws_indices w)) d;
          d = fold digest_count (ws_indices w) d;
          b = sn_dependencies s;
          d = digest_update_u64 (gen_value (db_policy_generation b)) d;
          d = digest_update_u64 (gen_value (db_topology_generation b)) d;
          d = digest_update_u64 (gen_value (db_failure_domain_generation b)) d;
          d = digest_update_u64 (gen_value (db_epoch b)) d;
          d = digest_update_u8 (endpoint_exemption_code (db_endpoint_exemption b)) d;
          d = digest_count (length (db_paths b)) d;
          d = fold digest_binding (db_paths b) d;
          d = digest_update_u8 (lifecycle_state_code (sn_lifecycle s)) d;
          d = digest_update_u8 (currentness_code (sn_currentness s)) d;
          d = digest_update_u64 (gen_value (pn_epoch (sn_provenance s))) d;
          d = digest_update_text (id_view (pn_publisher (sn_provenance s))) d;
          d = digest_update_text (id_view (pn_boot (sn_provenance s))) d
      in digest_update_text (id_view (pn_attempt (sn_provenance s))) d)"

definition finalize_snapshot :: "proof_snapshot \<Rightarrow> proof_snapshot" where
  "finalize_snapshot s =
     (let s = s\<lparr>sn_digest := snapshot_digest s\<rparr> in s\<lparr>sn_id := derived_snapshot_id (sn_digest s)\<rparr>)"

definition capture_snapshot :: "diversity_proof \<Rightarrow> proof_snapshot" where
  "capture_snapshot p = finalize_snapshot
     \<lparr>sn_id = unset_id, sn_proof = dpf_id p, sn_generation = dpf_generation p,
      sn_policy = rq_policy (dpf_request p), sn_policy_generation = rq_policy_generation (dpf_request p),
      sn_paths = rq_paths (dpf_request p), sn_outcome = dpf_outcome p, sn_classes = dpf_classes p,
      sn_conflicts = dpf_conflicts p, sn_witness = dpf_witness p, sn_dependencies = dpf_dependencies p,
      sn_lifecycle = dpf_lifecycle p, sn_currentness = dpf_currentness p, sn_provenance = dpf_provenance p,
      sn_digest = zero_digest\<rparr>"

section \<open>Kinds of difference\<close>

datatype diff_kind =
    DK_PATH_ADDED
  | DK_PATH_REMOVED
  | DK_POLICY_CHANGED
  | DK_CONFLICT_APPEARED
  | DK_CONFLICT_DISAPPEARED
  | DK_EVIDENCE_COMPLETENESS_CHANGED
  | DK_TOPOLOGY_GENERATION_CHANGED
  | DK_FAILURE_DOMAIN_GENERATION_CHANGED
  | DK_PATH_AUTHORITY_GENERATION_CHANGED
  | DK_POLICY_GENERATION_CHANGED
  | DK_EPOCH_CHANGED
  | DK_PROOF_RESULT_CHANGED
  | DK_CURRENTNESS_CHANGED
  | DK_LIFECYCLE_CHANGED
  | DK_WITNESS_CHANGED
  | DK_CLASS_RESULT_CHANGED
  | DK_PROOF_GENERATION_CHANGED
  | DK_PROVENANCE_CHANGED

definition diff_kind_values :: "diff_kind list" where
  "diff_kind_values =
     [DK_PATH_ADDED,
      DK_PATH_REMOVED,
      DK_POLICY_CHANGED,
      DK_CONFLICT_APPEARED,
      DK_CONFLICT_DISAPPEARED,
      DK_EVIDENCE_COMPLETENESS_CHANGED,
      DK_TOPOLOGY_GENERATION_CHANGED,
      DK_FAILURE_DOMAIN_GENERATION_CHANGED,
      DK_PATH_AUTHORITY_GENERATION_CHANGED,
      DK_POLICY_GENERATION_CHANGED,
      DK_EPOCH_CHANGED,
      DK_PROOF_RESULT_CHANGED,
      DK_CURRENTNESS_CHANGED,
      DK_LIFECYCLE_CHANGED,
      DK_WITNESS_CHANGED,
      DK_CLASS_RESULT_CHANGED,
      DK_PROOF_GENERATION_CHANGED,
      DK_PROVENANCE_CHANGED]"

primrec diff_kind_code :: "diff_kind \<Rightarrow> u8" where
  "diff_kind_code DK_PATH_ADDED = 1"
| "diff_kind_code DK_PATH_REMOVED = 2"
| "diff_kind_code DK_POLICY_CHANGED = 3"
| "diff_kind_code DK_CONFLICT_APPEARED = 4"
| "diff_kind_code DK_CONFLICT_DISAPPEARED = 5"
| "diff_kind_code DK_EVIDENCE_COMPLETENESS_CHANGED = 6"
| "diff_kind_code DK_TOPOLOGY_GENERATION_CHANGED = 7"
| "diff_kind_code DK_FAILURE_DOMAIN_GENERATION_CHANGED = 8"
| "diff_kind_code DK_PATH_AUTHORITY_GENERATION_CHANGED = 9"
| "diff_kind_code DK_POLICY_GENERATION_CHANGED = 10"
| "diff_kind_code DK_EPOCH_CHANGED = 11"
| "diff_kind_code DK_PROOF_RESULT_CHANGED = 12"
| "diff_kind_code DK_CURRENTNESS_CHANGED = 13"
| "diff_kind_code DK_LIFECYCLE_CHANGED = 14"
| "diff_kind_code DK_WITNESS_CHANGED = 15"
| "diff_kind_code DK_CLASS_RESULT_CHANGED = 16"
| "diff_kind_code DK_PROOF_GENERATION_CHANGED = 17"
| "diff_kind_code DK_PROVENANCE_CHANGED = 18"

definition is_defined_diff_kind :: "u8 \<Rightarrow> bool" where
  "is_defined_diff_kind raw \<longleftrightarrow> diff_kind_code DK_PATH_ADDED \<le> raw \<and> raw \<le> diff_kind_code DK_PROVENANCE_CHANGED"

definition diff_kind_of_code :: "u8 \<Rightarrow> diff_kind option" where
  "diff_kind_of_code raw = find (\<lambda>x. diff_kind_code x = raw) diff_kind_values"

definition diff_kind_to_string :: "diff_kind \<Rightarrow> string" where
  "diff_kind_to_string v = (case v of
      DK_PATH_ADDED \<Rightarrow> ''PATH_ADDED''
    | DK_PATH_REMOVED \<Rightarrow> ''PATH_REMOVED''
    | DK_POLICY_CHANGED \<Rightarrow> ''POLICY_CHANGED''
    | DK_CONFLICT_APPEARED \<Rightarrow> ''CONFLICT_APPEARED''
    | DK_CONFLICT_DISAPPEARED \<Rightarrow> ''CONFLICT_DISAPPEARED''
    | DK_EVIDENCE_COMPLETENESS_CHANGED \<Rightarrow> ''EVIDENCE_COMPLETENESS_CHANGED''
    | DK_TOPOLOGY_GENERATION_CHANGED \<Rightarrow> ''TOPOLOGY_GENERATION_CHANGED''
    | DK_FAILURE_DOMAIN_GENERATION_CHANGED \<Rightarrow> ''FAILURE_DOMAIN_GENERATION_CHANGED''
    | DK_PATH_AUTHORITY_GENERATION_CHANGED \<Rightarrow> ''PATH_AUTHORITY_GENERATION_CHANGED''
    | DK_POLICY_GENERATION_CHANGED \<Rightarrow> ''POLICY_GENERATION_CHANGED''
    | DK_EPOCH_CHANGED \<Rightarrow> ''EPOCH_CHANGED''
    | DK_PROOF_RESULT_CHANGED \<Rightarrow> ''PROOF_RESULT_CHANGED''
    | DK_CURRENTNESS_CHANGED \<Rightarrow> ''CURRENTNESS_CHANGED''
    | DK_LIFECYCLE_CHANGED \<Rightarrow> ''LIFECYCLE_CHANGED''
    | DK_WITNESS_CHANGED \<Rightarrow> ''WITNESS_CHANGED''
    | DK_CLASS_RESULT_CHANGED \<Rightarrow> ''CLASS_RESULT_CHANGED''
    | DK_PROOF_GENERATION_CHANGED \<Rightarrow> ''PROOF_GENERATION_CHANGED''
    | DK_PROVENANCE_CHANGED \<Rightarrow> ''PROVENANCE_CHANGED'')"

interpretation diff_kind_enum: wire_enum diff_kind_code diff_kind_values is_defined_diff_kind diff_kind_of_code
proof unfold_locales
  show "map diff_kind_code diff_kind_values = map of_nat [1..<Suc (length diff_kind_values)]"
    by (simp add: diff_kind_values_def upt_rec)
  show "x \<in> set diff_kind_values" for x
    by (cases x) (simp_all add: diff_kind_values_def)
  show "length diff_kind_values < 255"
    by (simp add: diff_kind_values_def)
  show "is_defined_diff_kind raw \<longleftrightarrow> 1 \<le> raw \<and> raw \<le> of_nat (length diff_kind_values)" for raw
    by (simp add: is_defined_diff_kind_def diff_kind_values_def)
  show "diff_kind_of_code raw = find (\<lambda>x. diff_kind_code x = raw) diff_kind_values" for raw
    by (simp add: diff_kind_of_code_def)
qed

section \<open>Differences\<close>

datatype diff_entry = DiffEntry (dn_kind: diff_kind) (dn_subject: string) (dn_before: string) (dn_after: string)

record proof_diff =
  pd_left :: snapshot_id
  pd_right :: snapshot_id
  pd_entries :: "diff_entry list"
  pd_truncated :: bool
  pd_total :: u64

definition pd_empty :: "proof_diff \<Rightarrow> bool" where
  "pd_empty d \<longleftrightarrow> pd_entries d = []"

definition diff_entry_render :: "diff_entry \<Rightarrow> string" where
  "diff_entry_render e =
     diff_kind_to_string (dn_kind e) @ '' '' @ dn_subject e @ '': '' @ dn_before e @ '' -> '' @ dn_after e"

definition proof_diff_render :: "proof_diff \<Rightarrow> string" where
  "proof_diff_render d =
     ''diff '' @ id_view (pd_left d) @ '' -> '' @ id_view (pd_right d) @
     (if pd_truncated d then '' (truncated)'' else []) @ [CHR 0x0A] @
     concat (map (\<lambda>e. ''  '' @ diff_entry_render e @ [CHR 0x0A]) (pd_entries d)) @
     (if pd_entries d = [] then ''  (no differences)'' @ [CHR 0x0A] else [])"

definition push_entry :: "limits \<Rightarrow> diff_kind \<Rightarrow> string \<Rightarrow> string \<Rightarrow> string \<Rightarrow> proof_diff \<Rightarrow> proof_diff" where
  "push_entry l kind subject before now d =
     (let d = d\<lparr>pd_total := pd_total d + 1\<rparr>
      in if max_diff_entries l \<le> length (pd_entries d) then d\<lparr>pd_truncated := True\<rparr>
         else d\<lparr>pd_entries := pd_entries d @ [DiffEntry kind subject before now]\<rparr>)"

definition push_if ::
  "bool \<Rightarrow> limits \<Rightarrow> diff_kind \<Rightarrow> string \<Rightarrow> string \<Rightarrow> string \<Rightarrow> proof_diff \<Rightarrow> proof_diff" where
  "push_if c l kind subject before now d = (if c then push_entry l kind subject before now d else d)"

text \<open>The passes of \<open>diff_snapshots\<close>, in order.\<close>

definition diff_identity :: "limits \<Rightarrow> proof_snapshot \<Rightarrow> proof_snapshot \<Rightarrow> proof_diff \<Rightarrow> proof_diff" where
  "diff_identity l left right d =
     (let d = push_if (sn_proof left \<noteq> sn_proof right) l DK_PROVENANCE_CHANGED ''proof-identity''
                (id_view (sn_proof left)) (id_view (sn_proof right)) d;
          d = push_if (sn_generation left \<noteq> sn_generation right) l DK_PROOF_GENERATION_CHANGED ''generation''
                (gen_text (sn_generation left)) (gen_text (sn_generation right)) d;
          d = push_if (sn_policy left \<noteq> sn_policy right) l DK_POLICY_CHANGED ''policy''
                (id_view (sn_policy left)) (id_view (sn_policy right)) d
      in push_if (sn_policy_generation left \<noteq> sn_policy_generation right) l DK_POLICY_GENERATION_CHANGED
           ''policy-generation'' (gen_text (sn_policy_generation left)) (gen_text (sn_policy_generation right)) d)"

definition diff_path_added :: "limits \<Rightarrow> proof_snapshot \<Rightarrow> path_ref \<Rightarrow> proof_diff \<Rightarrow> proof_diff" where
  "diff_path_added l left reference d =
     (case find (\<lambda>candidate. pr_path candidate = pr_path reference) (sn_paths left) of
        Some candidate \<Rightarrow>
          push_if (pr_generation candidate \<noteq> pr_generation reference) l DK_PATH_AUTHORITY_GENERATION_CHANGED
            (id_view (pr_path reference)) (gen_text (pr_generation candidate)) (gen_text (pr_generation reference)) d
      | None \<Rightarrow> push_entry l DK_PATH_ADDED (id_view (pr_path reference)) ''-'' (path_ref_render reference) d)"

definition diff_path_removed :: "limits \<Rightarrow> proof_snapshot \<Rightarrow> path_ref \<Rightarrow> proof_diff \<Rightarrow> proof_diff" where
  "diff_path_removed l right reference d =
     (case find (\<lambda>candidate. pr_path candidate = pr_path reference) (sn_paths right) of
        Some candidate \<Rightarrow> d
      | None \<Rightarrow> push_entry l DK_PATH_REMOVED (id_view (pr_path reference)) (path_ref_render reference) ''-'' d)"

definition diff_bindings :: "limits \<Rightarrow> proof_snapshot \<Rightarrow> proof_snapshot \<Rightarrow> proof_diff \<Rightarrow> proof_diff" where
  "diff_bindings l left right d =
     (let a = sn_dependencies left; b = sn_dependencies right;
          d = push_if (db_topology_generation a \<noteq> db_topology_generation b) l DK_TOPOLOGY_GENERATION_CHANGED
                ''topology-generation'' (gen_text (db_topology_generation a)) (gen_text (db_topology_generation b)) d;
          d = push_if (db_failure_domain_generation a \<noteq> db_failure_domain_generation b) l
                DK_FAILURE_DOMAIN_GENERATION_CHANGED ''failure-domain-generation''
                (gen_text (db_failure_domain_generation a)) (gen_text (db_failure_domain_generation b)) d;
          d = push_if (db_epoch a \<noteq> db_epoch b) l DK_EPOCH_CHANGED ''epoch''
                (gen_text (db_epoch a)) (gen_text (db_epoch b)) d;
          d = push_if (sn_outcome left \<noteq> sn_outcome right) l DK_PROOF_RESULT_CHANGED ''outcome''
                (proof_outcome_to_string (sn_outcome left)) (proof_outcome_to_string (sn_outcome right)) d;
          d = push_if (sn_currentness left \<noteq> sn_currentness right) l DK_CURRENTNESS_CHANGED ''currentness''
                (currentness_to_string (sn_currentness left)) (currentness_to_string (sn_currentness right)) d
      in push_if (sn_lifecycle left \<noteq> sn_lifecycle right) l DK_LIFECYCLE_CHANGED ''lifecycle''
           (lifecycle_state_to_string (sn_lifecycle left)) (lifecycle_state_to_string (sn_lifecycle right)) d)"

definition completeness_text :: "class_result \<Rightarrow> string" where
  "completeness_text r = (if cr_evidence_complete r then ''COMPLETE'' else ''INCOMPLETE'')"

definition diff_class :: "limits \<Rightarrow> proof_snapshot \<Rightarrow> class_result \<Rightarrow> proof_diff \<Rightarrow> proof_diff" where
  "diff_class l right before d =
     (case find (\<lambda>now. cr_klass before = cr_klass now) (sn_classes right) of
        None \<Rightarrow> d
      | Some now \<Rightarrow>
          let subject = diversity_class_to_string (cr_klass before);
              d = push_if (cr_evidence_complete before \<noteq> cr_evidence_complete now) l
                    DK_EVIDENCE_COMPLETENESS_CHANGED subject (completeness_text before) (completeness_text now) d
          in push_if (cr_outcome before \<noteq> cr_outcome now) l DK_CLASS_RESULT_CHANGED subject
               (proof_outcome_to_string (cr_outcome before)) (proof_outcome_to_string (cr_outcome now)) d)"

definition same_conflict :: "shared_resource \<Rightarrow> shared_resource \<Rightarrow> bool" where
  "same_conflict conflict candidate \<longleftrightarrow> sr_kind candidate = sr_kind conflict \<and> sr_id candidate = sr_id conflict"

definition conflict_subject :: "shared_resource \<Rightarrow> string" where
  "conflict_subject c = conflict_class_to_string (sr_kind c) @ '' '' @ sr_id c"

definition diff_conflict_appeared :: "limits \<Rightarrow> proof_snapshot \<Rightarrow> shared_resource \<Rightarrow> proof_diff \<Rightarrow> proof_diff" where
  "diff_conflict_appeared l left conflict d =
     push_if (\<not> list_ex (same_conflict conflict) (sn_conflicts left)) l DK_CONFLICT_APPEARED
       (conflict_subject conflict) ''-'' (sr_render conflict) d"

definition diff_conflict_disappeared :: "limits \<Rightarrow> proof_snapshot \<Rightarrow> shared_resource \<Rightarrow> proof_diff \<Rightarrow> proof_diff" where
  "diff_conflict_disappeared l right conflict d =
     push_if (\<not> list_ex (same_conflict conflict) (sn_conflicts right)) l DK_CONFLICT_DISAPPEARED
       (conflict_subject conflict) (sr_render conflict) ''-'' d"

definition diff_snapshots :: "proof_snapshot \<Rightarrow> proof_snapshot \<Rightarrow> limits \<Rightarrow> proof_diff" where
  "diff_snapshots left right l =
     (let d = \<lparr>pd_left = sn_id left, pd_right = sn_id right, pd_entries = [], pd_truncated = False, pd_total = 0\<rparr>;
          d = diff_identity l left right d;
          d = fold (diff_path_added l left) (sn_paths right) d;
          d = fold (diff_path_removed l right) (sn_paths left) d;
          d = diff_bindings l left right d;
          d = fold (diff_class l right) (sn_classes left) d;
          d = fold (diff_conflict_appeared l left) (sn_conflicts right) d;
          d = fold (diff_conflict_disappeared l right) (sn_conflicts left) d;
          d = push_if (sn_witness left \<noteq> sn_witness right) l DK_WITNESS_CHANGED ''witness''
                (ws_render (sn_witness left)) (ws_render (sn_witness right)) d
      in push_if (sn_provenance left \<noteq> sn_provenance right) l DK_PROVENANCE_CHANGED ''provenance''
           (id_view (pn_publisher (sn_provenance left))) (id_view (pn_publisher (sn_provenance right))) d)"


section \<open>What a diff reports\<close>

definition entry_if :: "bool \<Rightarrow> diff_kind \<Rightarrow> string \<Rightarrow> string \<Rightarrow> string \<Rightarrow> diff_entry list" where
  "entry_if c kind subject before now = (if c then [DiffEntry kind subject before now] else [])"

definition path_changes :: "path_ref list \<Rightarrow> path_ref \<Rightarrow> diff_entry list" where
  "path_changes ps r = (case find (\<lambda>c. pr_path c = pr_path r) ps of
      None \<Rightarrow> [DiffEntry DK_PATH_ADDED (id_view (pr_path r)) ''-'' (path_ref_render r)]
    | Some c \<Rightarrow> entry_if (pr_generation c \<noteq> pr_generation r) DK_PATH_AUTHORITY_GENERATION_CHANGED (id_view (pr_path r))
        (gen_text (pr_generation c)) (gen_text (pr_generation r)))"

definition class_changes :: "class_result list \<Rightarrow> class_result \<Rightarrow> diff_entry list" where
  "class_changes cs b = (case find (\<lambda>c. cr_klass b = cr_klass c) cs of
      None \<Rightarrow> []
    | Some c \<Rightarrow>
        entry_if (cr_evidence_complete b \<noteq> cr_evidence_complete c) DK_EVIDENCE_COMPLETENESS_CHANGED
          (diversity_class_to_string (cr_klass b)) (completeness_text b) (completeness_text c) @
        entry_if (cr_outcome b \<noteq> cr_outcome c) DK_CLASS_RESULT_CHANGED (diversity_class_to_string (cr_klass b))
          (proof_outcome_to_string (cr_outcome b)) (proof_outcome_to_string (cr_outcome c)))"

definition changes :: "proof_snapshot \<Rightarrow> proof_snapshot \<Rightarrow> diff_entry list" where
  "changes a b =
     entry_if (sn_proof a \<noteq> sn_proof b) DK_PROVENANCE_CHANGED ''proof-identity'' (id_view (sn_proof a)) (id_view (sn_proof b)) @
     entry_if (sn_generation a \<noteq> sn_generation b) DK_PROOF_GENERATION_CHANGED ''generation''
       (gen_text (sn_generation a)) (gen_text (sn_generation b)) @
     entry_if (sn_policy a \<noteq> sn_policy b) DK_POLICY_CHANGED ''policy'' (id_view (sn_policy a)) (id_view (sn_policy b)) @
     entry_if (sn_policy_generation a \<noteq> sn_policy_generation b) DK_POLICY_GENERATION_CHANGED ''policy-generation''
       (gen_text (sn_policy_generation a)) (gen_text (sn_policy_generation b)) @
     concat (map (path_changes (sn_paths a)) (sn_paths b)) @
     concat (map (\<lambda>r. entry_if (pr_path r \<notin> pr_path ` set (sn_paths b)) DK_PATH_REMOVED (id_view (pr_path r))
       (path_ref_render r) ''-'') (sn_paths a)) @
     entry_if (db_topology_generation (sn_dependencies a) \<noteq> db_topology_generation (sn_dependencies b))
       DK_TOPOLOGY_GENERATION_CHANGED ''topology-generation'' (gen_text (db_topology_generation (sn_dependencies a)))
       (gen_text (db_topology_generation (sn_dependencies b))) @
     entry_if (db_failure_domain_generation (sn_dependencies a) \<noteq> db_failure_domain_generation (sn_dependencies b))
       DK_FAILURE_DOMAIN_GENERATION_CHANGED ''failure-domain-generation''
       (gen_text (db_failure_domain_generation (sn_dependencies a)))
       (gen_text (db_failure_domain_generation (sn_dependencies b))) @
     entry_if (db_epoch (sn_dependencies a) \<noteq> db_epoch (sn_dependencies b)) DK_EPOCH_CHANGED ''epoch''
       (gen_text (db_epoch (sn_dependencies a))) (gen_text (db_epoch (sn_dependencies b))) @
     entry_if (sn_outcome a \<noteq> sn_outcome b) DK_PROOF_RESULT_CHANGED ''outcome''
       (proof_outcome_to_string (sn_outcome a)) (proof_outcome_to_string (sn_outcome b)) @
     entry_if (sn_currentness a \<noteq> sn_currentness b) DK_CURRENTNESS_CHANGED ''currentness''
       (currentness_to_string (sn_currentness a)) (currentness_to_string (sn_currentness b)) @
     entry_if (sn_lifecycle a \<noteq> sn_lifecycle b) DK_LIFECYCLE_CHANGED ''lifecycle''
       (lifecycle_state_to_string (sn_lifecycle a)) (lifecycle_state_to_string (sn_lifecycle b)) @
     concat (map (class_changes (sn_classes b)) (sn_classes a)) @
     concat (map (\<lambda>c. entry_if (\<forall>k\<in>set (sn_conflicts a). \<not> same_conflict c k) DK_CONFLICT_APPEARED (conflict_subject c)
       ''-'' (sr_render c)) (sn_conflicts b)) @
     concat (map (\<lambda>c. entry_if (\<forall>k\<in>set (sn_conflicts b). \<not> same_conflict c k) DK_CONFLICT_DISAPPEARED (conflict_subject c)
       (sr_render c) ''-'') (sn_conflicts a)) @
     entry_if (sn_witness a \<noteq> sn_witness b) DK_WITNESS_CHANGED ''witness'' (ws_render (sn_witness a)) (ws_render (sn_witness b)) @
     entry_if (sn_provenance a \<noteq> sn_provenance b) DK_PROVENANCE_CHANGED ''provenance''
       (id_view (pn_publisher (sn_provenance a))) (id_view (pn_publisher (sn_provenance b)))"

text \<open>Pushing a list of entries; every pass of the code pushes the entries its specification lists.\<close>

definition push_all :: "limits \<Rightarrow> diff_entry list \<Rightarrow> proof_diff \<Rightarrow> proof_diff" where
  "push_all l es d = fold (\<lambda>e. push_entry l (dn_kind e) (dn_subject e) (dn_before e) (dn_after e)) es d"

named_theorems pushes \<open>a step of the diff as a list of pushed entries\<close>

lemma push_all_append: "push_all l es (push_all l fs d) = push_all l (fs @ es) d"
  by (simp add: push_all_def)

lemma push_if_pushes [pushes]: "push_if c l k s b n d = push_all l (entry_if c k s b n) d"
  by (simp add: push_if_def entry_if_def push_all_def)

lemma push_entry_pushes [pushes]: "push_entry l k s b n d = push_all l [DiffEntry k s b n] d"
  by (simp add: push_all_def)

lemma push_none: "push_all l [] d = d"
  by (simp add: push_all_def)

lemma fold_pushes:
  assumes "\<And>x d. f x d = push_all l (g x) d"
  shows "fold f xs d = push_all l (concat (map g xs)) d"
  by (induction xs arbitrary: d) (simp_all add: assms push_none push_all_append)

lemma diff_path_added_pushes: "diff_path_added l left r d = push_all l (path_changes (sn_paths left) r) d"
  by (simp add: diff_path_added_def path_changes_def pushes split: option.split)

lemma diff_path_removed_pushes: "diff_path_removed l right r d =
    push_all l (entry_if (pr_path r \<notin> pr_path ` set (sn_paths right)) DK_PATH_REMOVED (id_view (pr_path r)) (path_ref_render r) ''-'') d"
proof (cases "find (\<lambda>c. pr_path c = pr_path r) (sn_paths right)")
  case None
  then have "pr_path r \<notin> pr_path ` set (sn_paths right)" by (auto simp: find_None_iff)
  then show ?thesis by (simp add: diff_path_removed_def None entry_if_def pushes)
next
  case (Some c)
  then have "pr_path r \<in> pr_path ` set (sn_paths right)" by (metis (mono_tags, lifting) find_Some_iff image_eqI nth_mem)
  then show ?thesis by (simp add: diff_path_removed_def Some entry_if_def push_none)
qed

lemma diff_class_pushes: "diff_class l right b d = push_all l (class_changes (sn_classes right) b) d"
  by (simp add: diff_class_def class_changes_def pushes push_none push_all_append Let_def split: option.split)

lemma diff_conflict_pushes:
  "diff_conflict_appeared l left c d =
     push_all l (entry_if (\<forall>k\<in>set (sn_conflicts left). \<not> same_conflict c k) DK_CONFLICT_APPEARED (conflict_subject c) ''-'' (sr_render c)) d"
  "diff_conflict_disappeared l right c d =
     push_all l (entry_if (\<forall>k\<in>set (sn_conflicts right). \<not> same_conflict c k) DK_CONFLICT_DISAPPEARED (conflict_subject c) (sr_render c) ''-'') d"
  by (simp_all add: diff_conflict_appeared_def diff_conflict_disappeared_def pushes list_ex_iff)

lemmas diff_pass_pushes =
  fold_pushes [OF diff_path_added_pushes] fold_pushes [OF diff_path_removed_pushes] fold_pushes [OF diff_class_pushes]
  fold_pushes [OF diff_conflict_pushes(1)] fold_pushes [OF diff_conflict_pushes(2)]

lemma diff_snapshots_pushes:
  "diff_snapshots left right l = push_all l (changes left right)
     \<lparr>pd_left = sn_id left, pd_right = sn_id right, pd_entries = [], pd_truncated = False, pd_total = 0\<rparr>"
  unfolding diff_snapshots_def diff_identity_def diff_bindings_def Let_def diff_pass_pushes push_if_pushes
    push_all_append changes_def append_assoc by (rule refl)

lemma push_all_bounded:
  "length (pd_entries d) \<le> max_diff_entries l \<Longrightarrow>
   pd_entries (push_all l es d) = take (max_diff_entries l) (pd_entries d @ es) \<and>
   pd_total (push_all l es d) = pd_total d + of_nat (length es) \<and>
   pd_truncated (push_all l es d) = (pd_truncated d \<or> max_diff_entries l < length (pd_entries d) + length es) \<and>
   pd_left (push_all l es d) = pd_left d \<and> pd_right (push_all l es d) = pd_right d"
proof (induction es arbitrary: d)
  case (Cons e es)
  let ?d = "push_entry l (dn_kind e) (dn_subject e) (dn_before e) (dn_after e) d"
  have step: "push_all l (e # es) d = push_all l es ?d" by (simp add: push_all_def)
  have "length (pd_entries ?d) \<le> max_diff_entries l" using Cons.prems by (simp add: push_entry_def Let_def)
  from Cons.IH [OF this] Cons.prems show ?case
    by (auto simp: step push_entry_def Let_def take_Cons')
qed (simp_all add: push_none)

text \<open>A diff lists exactly the changes between the two snapshots, in a fixed order, up to the configured
  number of entries; the total counts all of them and the truncation flag is set exactly when some were
  dropped.\<close>

theorem diff_is_bounded_changes:
  "diff_snapshots left right l =
     \<lparr>pd_left = sn_id left, pd_right = sn_id right, pd_entries = take (max_diff_entries l) (changes left right),
      pd_truncated = (max_diff_entries l < length (changes left right)), pd_total = of_nat (length (changes left right))\<rparr>"
  by (rule proof_diff.equality)
    (simp_all add: diff_snapshots_pushes push_all_bounded)

text \<open>Everything a diff compares. Path references count as sets, conflicts by kind and identity, classes by
  verdict and completeness; bound entities, the endpoint exemption and the paths of a conflict are not compared.\<close>

definition class_key :: "class_result \<Rightarrow> diversity_class \<times> bool \<times> proof_outcome" where
  "class_key r = (cr_klass r, cr_evidence_complete r, cr_outcome r)"

definition same_content :: "proof_snapshot \<Rightarrow> proof_snapshot \<Rightarrow> bool" where
  "same_content a b \<longleftrightarrow>
     sn_proof a = sn_proof b \<and> sn_generation a = sn_generation b \<and> sn_policy a = sn_policy b \<and>
     sn_policy_generation a = sn_policy_generation b \<and> set (sn_paths a) = set (sn_paths b) \<and>
     db_topology_generation (sn_dependencies a) = db_topology_generation (sn_dependencies b) \<and>
     db_failure_domain_generation (sn_dependencies a) = db_failure_domain_generation (sn_dependencies b) \<and>
     db_epoch (sn_dependencies a) = db_epoch (sn_dependencies b) \<and> sn_outcome a = sn_outcome b \<and>
     sn_currentness a = sn_currentness b \<and> sn_lifecycle a = sn_lifecycle b \<and>
     class_key ` set (sn_classes a) = class_key ` set (sn_classes b) \<and>
     (\<lambda>c. (sr_kind c, sr_id c)) ` set (sn_conflicts a) = (\<lambda>c. (sr_kind c, sr_id c)) ` set (sn_conflicts b) \<and>
     sn_witness a = sn_witness b \<and> sn_provenance a = sn_provenance b"

lemma entry_if_Nil [simp]: "entry_if c k s b n = [] \<longleftrightarrow> \<not> c"
  by (simp add: entry_if_def)

lemma find_distinct:
  "distinct (map f xs) \<Longrightarrow> find (\<lambda>c. f c = k) xs = Some c \<longleftrightarrow> c \<in> set xs \<and> f c = k"
  "distinct (map f xs) \<Longrightarrow> find (\<lambda>c. k = f c) xs = Some c \<longleftrightarrow> c \<in> set xs \<and> f c = k"
  by (induction xs) (auto simp: image_iff)

lemma path_changes_Nil:
  assumes "distinct (map pr_path ps)"
  shows "path_changes ps r = [] \<longleftrightarrow> r \<in> set ps"
proof (cases "find (\<lambda>c. pr_path c = pr_path r) ps")
  case None
  then have "r \<notin> set ps" by (auto simp: find_None_iff)
  then show ?thesis by (simp add: path_changes_def None)
next
  case (Some c)
  then have c: "c \<in> set ps" "pr_path c = pr_path r" using find_distinct(1) [OF assms] by blast+
  then have "r \<in> set ps \<longleftrightarrow> c = r" using assms by (auto simp: distinct_map inj_on_def)
  moreover have "pr_generation c = pr_generation r \<longleftrightarrow> c = r" using c(2) path_ref.expand by auto
  ultimately show ?thesis by (simp add: path_changes_def Some)
qed

lemma class_changes_Nil:
  assumes "distinct (map cr_klass cs)" "cr_klass b \<in> cr_klass ` set cs"
  shows "class_changes cs b = [] \<longleftrightarrow> class_key b \<in> class_key ` set cs"
proof -
  obtain c where c: "c \<in> set cs" "cr_klass c = cr_klass b" using assms(2) by auto
  have f: "find (\<lambda>c. cr_klass b = cr_klass c) cs = Some c" using find_distinct(2) [OF assms(1)] c by blast
  have same: "c' = c" if "c' \<in> set cs" "cr_klass c' = cr_klass b" for c'
    using that c assms(1) unfolding distinct_map inj_on_def by metis
  have "class_key b \<in> class_key ` set cs \<longleftrightarrow> class_key b = class_key c"
  proof
    assume "class_key b \<in> class_key ` set cs"
    then obtain c' where "c' \<in> set cs" "class_key b = class_key c'" by blast
    with same [of c'] show "class_key b = class_key c" by (simp add: class_key_def)
  qed (use c in blast)
  then show ?thesis using c(2) by (simp only: class_changes_def f option.case append_is_Nil_conv entry_if_Nil class_key_def) simp
qed

lemma class_keys_cover:
  assumes "distinct (map cr_klass bs)" "cr_klass ` set as = cr_klass ` set bs"
    and sub: "class_key ` set as \<subseteq> class_key ` set bs"
  shows "class_key ` set bs \<subseteq> class_key ` set as"
proof
  fix k assume "k \<in> class_key ` set bs"
  then obtain d where d: "d \<in> set bs" "k = class_key d" by auto
  then obtain c where c: "c \<in> set as" "cr_klass c = cr_klass d" using assms(2) by (metis image_iff)
  then obtain d' where d': "d' \<in> set bs" "class_key c = class_key d'" using sub by blast
  then have "cr_klass d' = cr_klass d" using c by (simp add: class_key_def)
  then have "d' = d" using d d' assms(1) by (auto simp: distinct_map inj_on_def)
  then have "k = class_key c" using d d' by simp
  then show "k \<in> class_key ` set as" using c by blast
qed

lemma same_conflict_image:
  "(\<forall>c\<in>set bs. \<exists>k\<in>set as. same_conflict c k) \<and> (\<forall>c\<in>set as. \<exists>k\<in>set bs. same_conflict c k) \<longleftrightarrow>
   (\<lambda>c. (sr_kind c, sr_id c)) ` set as = (\<lambda>c. (sr_kind c, sr_id c)) ` set bs"
proof -
  have one: "(\<forall>c\<in>set bs. \<exists>k\<in>set as. same_conflict c k) \<longleftrightarrow>
      (\<lambda>c. (sr_kind c, sr_id c)) ` set bs \<subseteq> (\<lambda>c. (sr_kind c, sr_id c)) ` set as" for as bs
    by (simp add: image_subset_iff image_iff same_conflict_def eq_commute)
  show ?thesis by (simp only: one set_eq_subset conj_commute)
qed

text \<open>A diff between two snapshots of well-formed proofs over the same classes is empty exactly when they
  agree on everything a diff compares; in particular a snapshot does not differ from itself.\<close>

theorem diff_empty_iff:
  assumes "distinct (map pr_path (sn_paths a))" "distinct (map pr_path (sn_paths b))"
    and "distinct (map cr_klass (sn_classes a))" "distinct (map cr_klass (sn_classes b))"
    and "cr_klass ` set (sn_classes a) = cr_klass ` set (sn_classes b)" and "0 < max_diff_entries l"
  shows "pd_empty (diff_snapshots a b l) \<longleftrightarrow> same_content a b"
proof -
  have pr_path_determines: "r = r'" if "r \<in> set (sn_paths a)" "r' \<in> set (sn_paths a)" "pr_path r = pr_path r'" for r r'
    using that assms(1) by (auto simp: distinct_map inj_on_def)
  have added: "concat (map (path_changes (sn_paths a)) (sn_paths b)) = [] \<longleftrightarrow> set (sn_paths b) \<subseteq> set (sn_paths a)"
    using assms(1) by (auto simp: path_changes_Nil)
  have removed: "concat (map (\<lambda>r. entry_if (pr_path r \<notin> pr_path ` set (sn_paths b)) DK_PATH_REMOVED (id_view (pr_path r))
      (path_ref_render r) ''-'') (sn_paths a)) = [] \<longleftrightarrow> (\<forall>r\<in>set (sn_paths a). pr_path r \<in> pr_path ` set (sn_paths b))"
    by (simp only: concat_eq_Nil_conv set_map ball_simps entry_if_Nil not_not)
  have paths: "set (sn_paths a) = set (sn_paths b) \<longleftrightarrow> set (sn_paths b) \<subseteq> set (sn_paths a) \<and>
      (\<forall>r\<in>set (sn_paths a). pr_path r \<in> pr_path ` set (sn_paths b))"
    using pr_path_determines by blast
  have "class_changes (sn_classes b) r = [] \<longleftrightarrow> class_key r \<in> class_key ` set (sn_classes b)"
    if "r \<in> set (sn_classes a)" for r
    using that assms(5) by (intro class_changes_Nil [OF assms(4)]) blast
  then have "concat (map (class_changes (sn_classes b)) (sn_classes a)) = [] \<longleftrightarrow>
      class_key ` set (sn_classes a) \<subseteq> class_key ` set (sn_classes b)"
    by (simp add: image_subset_iff)
  then have classes: "class_key ` set (sn_classes a) = class_key ` set (sn_classes b) \<longleftrightarrow>
      concat (map (class_changes (sn_classes b)) (sn_classes a)) = []"
    using class_keys_cover [OF assms(4,5)] by blast
  have conflicts: "(\<lambda>c. (sr_kind c, sr_id c)) ` set (sn_conflicts a) = (\<lambda>c. (sr_kind c, sr_id c)) ` set (sn_conflicts b) \<longleftrightarrow>
      (concat (map (\<lambda>c. entry_if (\<forall>k\<in>set (sn_conflicts a). \<not> same_conflict c k) DK_CONFLICT_APPEARED (conflict_subject c)
        ''-'' (sr_render c)) (sn_conflicts b)) = [] \<and>
       concat (map (\<lambda>c. entry_if (\<forall>k\<in>set (sn_conflicts b). \<not> same_conflict c k) DK_CONFLICT_DISAPPEARED (conflict_subject c)
        (sr_render c) ''-'') (sn_conflicts a)) = [])"
    by (simp only: concat_eq_Nil_conv set_map ball_simps entry_if_Nil not_not bex_simps same_conflict_image)
  have "changes a b = [] \<longleftrightarrow> same_content a b"
    by (simp only: changes_def append_is_Nil_conv entry_if_Nil not_not same_content_def paths added removed classes
      conflicts conj_assoc)
  then show ?thesis using assms(6) by (simp add: pd_empty_def diff_snapshots_pushes push_all_bounded)
qed

definition sample_proof :: "string \<Rightarrow> u64 \<Rightarrow> diversity_proof" where
  "sample_proof path generation =
     default_proof\<lparr>dpf_id := StringId ''dproof'', dpf_generation := Generation generation,
       dpf_request := empty_request\<lparr>rq_paths := [PathRef (StringId path) (Generation 1)]\<rparr>\<rparr>"

lemma capture_snapshot_fields [simp]:
  "sn_paths (capture_snapshot p) = rq_paths (dpf_request p)" "sn_classes (capture_snapshot p) = dpf_classes p"
  "sn_conflicts (capture_snapshot p) = dpf_conflicts p" "sn_generation (capture_snapshot p) = dpf_generation p"
  "sn_proof (capture_snapshot p) = dpf_id p" "sn_dependencies (capture_snapshot p) = dpf_dependencies p"
  "sn_lifecycle (capture_snapshot p) = dpf_lifecycle p" "sn_currentness (capture_snapshot p) = dpf_currentness p"
  "sn_outcome (capture_snapshot p) = dpf_outcome p" "sn_witness (capture_snapshot p) = dpf_witness p"
  "sn_provenance (capture_snapshot p) = dpf_provenance p" "sn_policy (capture_snapshot p) = rq_policy (dpf_request p)"
  "sn_policy_generation (capture_snapshot p) = rq_policy_generation (dpf_request p)"
  by (simp_all add: capture_snapshot_def finalize_snapshot_def Let_def)

lemma diff_empty_iff_witness:
  "\<not> pd_empty (diff_snapshots (capture_snapshot (sample_proof ''a'' 1)) (capture_snapshot (sample_proof ''b'' 2)) sample_limits)"
proof -
  let ?a = "capture_snapshot (sample_proof ''a'' 1)" and ?b = "capture_snapshot (sample_proof ''b'' 2)"
  have "pd_empty (diff_snapshots ?a ?b sample_limits) \<longleftrightarrow> same_content ?a ?b"
    by (rule diff_empty_iff) (simp_all add: sample_proof_def default_proof_def sample_limits_def)
  then show ?thesis by (simp add: same_content_def sample_proof_def)
qed

text \<open>What finalizing stamps: a function of the other fields only, so that recomputing it on a decoded capture
  gives back the stored identity and digest.\<close>

lemma snapshot_digest_stamp [simp]:
  "snapshot_digest (s\<lparr>sn_digest := d\<rparr>) = snapshot_digest s" "snapshot_digest (s\<lparr>sn_id := i\<rparr>) = snapshot_digest s"
  by (simp_all add: snapshot_digest_def)

lemma finalize_idem: "finalize_snapshot (finalize_snapshot s) = finalize_snapshot s"
  by (simp add: finalize_snapshot_def Let_def)

lemma finalize_capture: "finalize_snapshot (capture_snapshot p) = capture_snapshot p"
  by (simp only: capture_snapshot_def finalize_idem)

end
