(* ===== verification/Runtime.thy ===== *)
theory Runtime
  imports Snapshot
begin

text \<open>
  The diversity runtime: its registries and reverse indexes, policy publication and the two-phase evaluation
  (\<open>include/path_diversity/runtime.hpp\<close>, \<open>src/runtime_internal.hpp\<close>, \<open>src/runtime.cpp\<close>). Every block of
  code that runs under the state lock is one function on the runtime state. The evaluation itself runs outside
  the lock: \<open>begin_evaluation\<close>, \<open>run_evaluation\<close> and \<open>commit_evaluation\<close> are its three phases, and the
  views may answer differently each time they are asked.
\<close>

section \<open>State\<close>

record proof_record =
  rec_current :: diversity_proof
  rec_history :: "diversity_proof list"
  rec_snapshots :: "proof_snapshot list"

definition empty_record :: proof_record where
  "empty_record = \<lparr>rec_current = default_proof, rec_history = [], rec_snapshots = []\<rparr>"

record runtime_stats =
  rs_evaluations :: u64
  rs_commits :: u64
  rs_unchanged :: u64
  rs_idempotent :: u64
  rs_rejected :: u64
  rs_watermark_rejections :: u64
  rs_invalidations :: u64
  rs_demotions :: u64

definition zero_stats :: runtime_stats where
  "zero_stats =
     \<lparr>rs_evaluations = 0, rs_commits = 0, rs_unchanged = 0, rs_idempotent = 0, rs_rejected = 0,
      rs_watermark_rejections = 0, rs_invalidations = 0, rs_demotions = 0\<rparr>"

type_synonym proof_ids = "diversity_proof_id list"

record runtime =
  rt_limits :: limits
  rt_publication :: publication_authority
  rt_policies :: "(diversity_policy_id, diversity_policy) omap"
  rt_proofs :: "(diversity_proof_id, proof_record) omap"
  rt_by_path :: "(path_id, proof_ids) omap"
  rt_by_domain :: "(failure_domain_id, proof_ids) omap"
  rt_by_risk_group :: "(shared_risk_group_id, proof_ids) omap"
  rt_by_entity :: "(entity_ref, proof_ids) omap"
  rt_by_policy :: "(diversity_policy_id, proof_ids) omap"
  rt_by_boot :: "(worker_boot_id, proof_ids) omap"
  rt_by_topology :: "(topology_generation, proof_ids) omap"
  rt_by_failure_domain :: "(failure_domain_generation, proof_ids) omap"
  rt_stats :: runtime_stats

definition new_runtime :: "publication_authority \<Rightarrow> limits \<Rightarrow> runtime" where
  "new_runtime pub l =
     \<lparr>rt_limits = l, rt_publication = pub, rt_policies = [], rt_proofs = [], rt_by_path = [], rt_by_domain = [],
      rt_by_risk_group = [], rt_by_entity = [], rt_by_policy = [], rt_by_boot = [], rt_by_topology = [],
      rt_by_failure_domain = [], rt_stats = zero_stats\<rparr>"

text \<open>The evidence views the runtime was built with, as they answer at one moment.\<close>

record views =
  vw_authority :: path_authority_view
  vw_structure :: path_structure_view
  vw_domains :: failure_domain_view

definition count_stat :: "(runtime_stats \<Rightarrow> runtime_stats) \<Rightarrow> runtime \<Rightarrow> runtime" where
  "count_stat f rt = rt\<lparr>rt_stats := f (rt_stats rt)\<rparr>"

definition inc_evaluations :: "runtime_stats \<Rightarrow> runtime_stats" where
  "inc_evaluations s = s\<lparr>rs_evaluations := rs_evaluations s + 1\<rparr>"

definition inc_commits :: "runtime_stats \<Rightarrow> runtime_stats" where
  "inc_commits s = s\<lparr>rs_commits := rs_commits s + 1\<rparr>"

definition inc_unchanged :: "runtime_stats \<Rightarrow> runtime_stats" where
  "inc_unchanged s = s\<lparr>rs_unchanged := rs_unchanged s + 1\<rparr>"

definition inc_idempotent :: "runtime_stats \<Rightarrow> runtime_stats" where
  "inc_idempotent s = s\<lparr>rs_idempotent := rs_idempotent s + 1\<rparr>"

definition inc_rejected :: "runtime_stats \<Rightarrow> runtime_stats" where
  "inc_rejected s = s\<lparr>rs_rejected := rs_rejected s + 1\<rparr>"

definition inc_watermark :: "runtime_stats \<Rightarrow> runtime_stats" where
  "inc_watermark s = s\<lparr>rs_watermark_rejections := rs_watermark_rejections s + 1\<rparr>"

definition inc_invalidations :: "runtime_stats \<Rightarrow> runtime_stats" where
  "inc_invalidations s = s\<lparr>rs_invalidations := rs_invalidations s + 1\<rparr>"

definition inc_demotions :: "runtime_stats \<Rightarrow> runtime_stats" where
  "inc_demotions s = s\<lparr>rs_demotions := rs_demotions s + 1\<rparr>"

definition authority_mutation :: "authority_status \<Rightarrow> mutation_status" where
  "authority_mutation status = (case status of
      AS_UNAUTHORIZED \<Rightarrow> MS_UNAUTHORIZED
    | AS_FENCED_PUBLISHER \<Rightarrow> MS_FENCED_PUBLISHER
    | AS_STALE_EPOCH \<Rightarrow> MS_STALE_EPOCH
    | AS_SCOPE_MISMATCH \<Rightarrow> MS_SCOPE_MISMATCH
    | AS_GENERATION_CONFLICT \<Rightarrow> MS_GENERATION_CONFLICT
    | AS_ATTEMPT_CONFLICT \<Rightarrow> MS_ATTEMPT_CONFLICT
    | AS_LIMIT_EXCEEDED \<Rightarrow> MS_LIMIT_EXCEEDED
    | AS_IDEMPOTENT \<Rightarrow> MS_IDEMPOTENT
    | _ \<Rightarrow> MS_UNAUTHORIZED)"

definition authority_result :: "authority_status \<Rightarrow> string \<Rightarrow> mutation_result" where
  "authority_result status detail = mutation_result (authority_mutation status) detail"

definition admit_attempt :: "acting_authority \<Rightarrow> digest \<Rightarrow> runtime \<Rightarrow> authority_status \<times> runtime" where
  "admit_attempt a payload rt =
     (case admit a payload (rt_publication rt) of (status, pub) \<Rightarrow> (status, rt\<lparr>rt_publication := pub\<rparr>))"

definition release_attempt :: "acting_authority \<Rightarrow> runtime \<Rightarrow> runtime" where
  "release_attempt a rt = rt\<lparr>rt_publication := forget_attempt (aa_attempt a) (rt_publication rt)\<rparr>"

text \<open>A refused mutation releases the attempt it reserved and is counted.\<close>

definition refuse :: "acting_authority \<Rightarrow> runtime \<Rightarrow> runtime" where
  "refuse a rt = count_stat inc_rejected (release_attempt a rt)"

section \<open>Policy registry\<close>

definition policy_generation :: "runtime \<Rightarrow> diversity_policy_id \<Rightarrow> diversity_policy_generation" where
  "policy_generation rt i =
     (case map_of (rt_policies rt) i of None \<Rightarrow> gen_unset | Some p \<Rightarrow> dp_generation p)"

definition publish_admitted ::
  "diversity_policy \<Rightarrow> acting_authority \<Rightarrow> runtime \<Rightarrow> mutation_result \<times> runtime" where
  "publish_admitted canonical a rt =
     (let existing = map_of (rt_policies rt) (dp_id canonical);
          expected = (case existing of None \<Rightarrow> gen_unset | Some p \<Rightarrow> dp_generation p)
      in if aa_expected_policy a \<noteq> expected
         then (mutation_result MS_GENERATION_CONFLICT
                 ''expected policy generation does not match the published generation'', refuse a rt)
         else if existing = None \<and> max_policies (rt_limits rt) \<le> length (rt_policies rt)
         then ((mutation_result MS_LIMIT_EXCEEDED ''policy registry is full'')
                 \<lparr>mr_limit := Some (resource_notice RB_MAX_POLICIES (length (rt_policies rt) + 1) (max_policies (rt_limits rt)))\<rparr>,
               refuse a rt)
         else if existing \<noteq> None \<and> \<not> gen_can_advance (gen_value expected)
         then (mutation_result MS_GENERATION_CONFLICT ''policy generation space is exhausted; it never wraps'',
               release_attempt a rt)
         else let next = (if existing = None then Generation 1 else gen_next expected);
                  canonical = canonical\<lparr>dp_generation := next\<rparr>
              in ((mutation_result MS_APPLIED ''policy published'')\<lparr>mr_policy := Some canonical\<rparr>,
                  rt\<lparr>rt_policies := om_put (dp_id canonical) canonical (rt_policies rt)\<rparr>))"

definition publish_policy :: "diversity_policy \<Rightarrow> acting_authority \<Rightarrow> runtime \<Rightarrow> mutation_result \<times> runtime" where
  "publish_policy policy a rt =
     (let canonical = dp_canonicalize policy;
          v = validate_policy canonical (rt_limits rt)
      in if \<not> pv_ok v
         then (mutation_result MS_MALFORMED
                 (''policy rejected: '' @ policy_status_to_string (pv_status v) @ '' ('' @ pv_detail v @ '')''), rt)
         else case admit_attempt a (dp_semantic_digest canonical) rt of (verdict, rt) \<Rightarrow>
           if verdict = AS_IDEMPOTENT
           then let rt = count_stat inc_idempotent rt;
                    r = mutation_result MS_IDEMPOTENT ''policy publication replayed exactly''
                in (case map_of (rt_policies rt) (dp_id canonical) of
                      None \<Rightarrow> (r, rt)
                    | Some p \<Rightarrow> if dp_generation p = dp_generation canonical then (r\<lparr>mr_policy := Some p\<rparr>, rt) else (r, rt))
           else if \<not> authority_status_is_success verdict
           then (authority_result verdict (''policy publication refused: '' @ authority_status_to_string verdict),
                 count_stat inc_rejected rt)
           else publish_admitted canonical a rt)"

definition published_policy :: "runtime \<Rightarrow> diversity_policy_id \<Rightarrow> diversity_policy option" where
  "published_policy rt i = map_of (rt_policies rt) i"

definition published_policies :: "runtime \<Rightarrow> diversity_policy_id list" where
  "published_policies rt = map fst (rt_policies rt)"

definition policy_count :: "runtime \<Rightarrow> nat" where
  "policy_count rt = length (rt_policies rt)"

section \<open>Evaluation, phase 1: admission under the lock\<close>

record ticket =
  tk_request :: proof_request
  tk_payload :: digest
  tk_policy :: diversity_policy

definition begin_evaluation ::
  "proof_request \<Rightarrow> acting_authority \<Rightarrow> runtime \<Rightarrow> (mutation_result + ticket) \<times> runtime" where
  "begin_evaluation request a rt =
     (case rq_canonicalize request of (unique, canonical) \<Rightarrow>
      if \<not> unique
      then (Inl (mutation_result MS_MALFORMED ''proof set contains a duplicate path identity''), rt)
      else let payload = rq_digest canonical in
        case admit_attempt a payload rt of (verdict, rt) \<Rightarrow>
          if verdict = AS_IDEMPOTENT
          then let rt = count_stat inc_idempotent rt;
                   r = mutation_result MS_IDEMPOTENT ''proof request replayed exactly''
               in (case map_of (rt_proofs rt) (proof_identity canonical) of
                     None \<Rightarrow> (Inl r, rt)
                   | Some record \<Rightarrow> (Inl (r\<lparr>mr_proof := Some (rec_current record)\<rparr>), rt))
          else if \<not> authority_status_is_success verdict
          then (Inl (authority_result verdict (''proof refused: '' @ authority_status_to_string verdict)),
                count_stat inc_rejected rt)
          else case map_of (rt_policies rt) (rq_policy canonical) of
              None \<Rightarrow> (Inl (mutation_result MS_NOT_FOUND ''no policy is published under this identity''), refuse a rt)
            | Some policy \<Rightarrow>
                if dp_generation policy \<noteq> rq_policy_generation canonical
                then (Inl (mutation_result MS_GENERATION_CONFLICT
                        (''request binds policy generation '' @ gen_text (rq_policy_generation canonical) @
                         '' but the published generation is '' @ gen_text (dp_generation policy))), refuse a rt)
                else (Inr \<lparr>tk_request = canonical, tk_payload = payload, tk_policy = policy\<rparr>,
                      count_stat inc_evaluations rt))"

section \<open>Phase 2: evaluation outside every lock\<close>

record finished_evaluation =
  fe_evaluation :: evaluation_result
  fe_topology_after :: topology_generation
  fe_domains_after :: failure_domain_generation
  fe_drift :: "string option"

definition views_inputs :: "views \<Rightarrow> limits \<Rightarrow> evaluation_inputs" where
  "views_inputs v l =
     \<lparr>in_authority = Some (vw_authority v), in_structure = Some (vw_structure v),
      in_domains = Some (vw_domains v), in_limits = Some l\<rparr>"

definition binding_moved :: "path_authority_view \<Rightarrow> path_authority_binding \<Rightarrow> bool" where
  "binding_moved view b \<longleftrightarrow>
     av_current_generation view (pb_path b) \<noteq> Some (pb_generation b) \<or>
     \<not> av_is_authorized view (pb_path b) (pb_generation b)"

definition authority_drift :: "diversity_policy \<Rightarrow> path_authority_view \<Rightarrow> evaluation_result \<Rightarrow> string option" where
  "authority_drift policy view ev =
     (if dp_require_authority_current policy
      then map_option (\<lambda>b. ''Path Authority moved for path '' @ id_view (pb_path b) @ '' while the proof was being evaluated'')
             (find (binding_moved view) (db_paths (ev_dependencies ev)))
      else None)"

text \<open>\<open>before\<close> answers during the evaluation, \<open>behind\<close> when the watermarks are read again.\<close>

definition run_evaluation :: "limits \<Rightarrow> views \<Rightarrow> views \<Rightarrow> ticket \<Rightarrow> finished_evaluation" where
  "run_evaluation l before behind t =
     (let ev = evaluate_diversity (tk_request t) (tk_policy t) (views_inputs before l)
      in \<lparr>fe_evaluation = ev, fe_topology_after = sv_topology_generation (vw_structure behind),
          fe_domains_after = fv_generation (vw_domains behind),
          fe_drift = authority_drift (tk_policy t) (vw_authority behind) ev\<rparr>)"

section \<open>Phase 3: watermark verification and commit\<close>

definition commit_guard :: "acting_authority \<Rightarrow> ticket \<Rightarrow> runtime \<Rightarrow> mutation_result option" where
  "commit_guard a t rt =
     (if (case map_of (rt_policies rt) (rq_policy (tk_request t)) of
            None \<Rightarrow> True | Some p \<Rightarrow> dp_generation p \<noteq> dp_generation (tk_policy t))
      then Some (mutation_result MS_GENERATION_CONFLICT ''the policy changed while the proof was being evaluated'')
      else if pa_epoch (rt_publication rt) \<noteq> aa_epoch a
      then Some (mutation_result MS_STALE_EPOCH
             ''the coordinator epoch advanced while the proof was being evaluated'')
      else if is_fenced (rt_publication rt) (aa_boot a)
      then Some (mutation_result MS_FENCED_PUBLISHER
             ''the publishing boot was fenced while the proof was being evaluated'')
      else None)"

text \<open>A drift the evaluation already reported precisely is not reported again.\<close>

definition reported_drift :: "finished_evaluation \<Rightarrow> string option" where
  "reported_drift fe =
     (if fe_drift fe \<noteq> None \<and> (ev_outcome (fe_evaluation fe) = PO_STALE_PATH_AUTHORITY \<or>
                                ev_outcome (fe_evaluation fe) = PO_UNAUTHORIZED)
      then None else fe_drift fe)"

definition watermark_drift :: "finished_evaluation \<Rightarrow> bool" where
  "watermark_drift fe \<longleftrightarrow>
     ev_watermarks_observed (fe_evaluation fe) \<and>
     (fe_topology_after fe \<noteq> ev_observed_topology (fe_evaluation fe) \<or>
      fe_domains_after fe \<noteq> ev_observed_failure_domain (fe_evaluation fe) \<or> reported_drift fe \<noteq> None)"

definition drift_detail :: "finished_evaluation \<Rightarrow> string" where
  "drift_detail fe =
     (case reported_drift fe of
        Some detail \<Rightarrow> detail @ ''; the late result is not current''
      | None \<Rightarrow>
          ''dependency watermarks moved while the proof was being evaluated (topology '' @
          gen_text (ev_observed_topology (fe_evaluation fe)) @ '' -> '' @ gen_text (fe_topology_after fe) @
          '', failure domains '' @ gen_text (ev_observed_failure_domain (fe_evaluation fe)) @ '' -> '' @
          gen_text (fe_domains_after fe) @ ''); the late result is not current'')"

definition settled_evaluation :: "finished_evaluation \<Rightarrow> evaluation_result" where
  "settled_evaluation fe =
     (if watermark_drift fe
      then (fe_evaluation fe)\<lparr>ev_outcome := PO_REVALIDATION_REQUIRED, ev_detail := drift_detail fe\<rparr>
      else fe_evaluation fe)"

definition settled_result :: "finished_evaluation \<Rightarrow> mutation_result" where
  "settled_result fe =
     (if watermark_drift fe then mutation_result MS_REVALIDATION_REQUIRED (drift_detail fe)
      else mutation_result MS_APPLIED ''proof committed'')"

definition committed_lifecycle :: "proof_outcome \<Rightarrow> lifecycle_state" where
  "committed_lifecycle outcome =
     (if outcome = PO_MALFORMED \<or> outcome = PO_RESOURCE_LIMIT \<or> outcome = PO_UNAUTHORIZED then LS_DECLARED
      else if outcome = PO_REVALIDATION_REQUIRED then LS_REVALIDATION_REQUIRED else LS_CURRENT)"

definition build_revision ::
  "acting_authority \<Rightarrow> ticket \<Rightarrow> evaluation_result \<Rightarrow> diversity_proof_generation \<Rightarrow> diversity_proof" where
  "build_revision a t ev generation =
     (let p = \<lparr>dpf_id = proof_identity (tk_request t), dpf_generation = generation, dpf_request = tk_request t,
            dpf_request_digest = tk_payload t, dpf_semantic_digest = zero_digest, dpf_outcome = ev_outcome ev,
            dpf_detail = ev_detail ev, dpf_limit = ev_limit ev, dpf_classes = ev_classes ev,
            dpf_advisories = ev_advisories ev, dpf_conflicts = ev_conflicts ev,
            dpf_conflicts_total = ev_conflicts_total ev, dpf_matrix = ev_matrix ev, dpf_witness = ev_witness ev,
            dpf_dependencies = (ev_dependencies ev)\<lparr>db_epoch := aa_epoch a\<rparr>,
            dpf_provenance = \<lparr>pn_epoch = aa_epoch a, pn_publisher = aa_publisher a, pn_boot = aa_boot a,
              pn_attempt = aa_attempt a\<rparr>,
            dpf_lifecycle = committed_lifecycle (ev_outcome ev),
            dpf_currentness = currentness_for_outcome (ev_outcome ev)\<rparr>
      in p\<lparr>dpf_semantic_digest := proof_semantic_digest p\<rparr>)"

definition push_bounded :: "nat \<Rightarrow> 'a \<Rightarrow> 'a list \<Rightarrow> 'a list" where
  "push_bounded bound x xs = (if bound \<le> length xs then tl xs else xs) @ [x]"

definition store_revision :: "nat \<Rightarrow> diversity_proof \<Rightarrow> proof_record \<Rightarrow> proof_record" where
  "store_revision bound p record =
     \<lparr>rec_current = p,
      rec_history = (if id_valid (dpf_id (rec_current record))
                     then push_bounded bound (rec_current record) (rec_history record) else rec_history record),
      rec_snapshots = push_bounded bound (capture_snapshot p) (rec_snapshots record)\<rparr>"

definition index_revision :: "evaluation_result \<Rightarrow> diversity_proof \<Rightarrow> runtime \<Rightarrow> runtime" where
  "index_revision ev p rt =
     (let i = dpf_id p; b = dpf_dependencies p
      in rt\<lparr>rt_by_path := fold (\<lambda>r. om_add (pr_path r) i) (rq_paths (dpf_request p)) (rt_by_path rt),
            rt_by_domain := fold (\<lambda>d. om_add d i) (ev_consulted_domains ev) (rt_by_domain rt),
            rt_by_risk_group := fold (\<lambda>g. om_add g i) (ev_consulted_risk_groups ev) (rt_by_risk_group rt),
            rt_by_entity := fold (\<lambda>e. om_add e i) (db_topology_entities b) (rt_by_entity rt),
            rt_by_policy := om_add (rq_policy (dpf_request p)) i (rt_by_policy rt),
            rt_by_boot := om_add (pn_boot (dpf_provenance p)) i (rt_by_boot rt),
            rt_by_topology := om_add (db_topology_generation b) i (rt_by_topology rt),
            rt_by_failure_domain := om_add (db_failure_domain_generation b) i (rt_by_failure_domain rt)\<rparr>)"

definition put_record :: "diversity_proof_id \<Rightarrow> proof_record \<Rightarrow> runtime \<Rightarrow> runtime" where
  "put_record i record rt = rt\<lparr>rt_proofs := om_put i record (rt_proofs rt)\<rparr>"

text \<open>The rest of the commit once the record of the identity exists.\<close>

definition commit_record ::
  "acting_authority \<Rightarrow> ticket \<Rightarrow> finished_evaluation \<Rightarrow> proof_record \<Rightarrow> runtime \<Rightarrow> mutation_result \<times> runtime" where
  "commit_record a t fe record rt =
     (let current = rec_current record; i = proof_identity (tk_request t); ev = settled_evaluation fe
      in if gen_is_set (aa_expected_proof a) \<and> aa_expected_proof a \<noteq> dpf_generation current
         then (mutation_result MS_GENERATION_CONFLICT
                 ''expected proof generation does not match the stored generation'', refuse a rt)
         else if id_valid (dpf_id current) \<and> \<not> gen_can_advance (gen_value (dpf_generation current))
         then (mutation_result MS_GENERATION_CONFLICT ''proof generation space is exhausted; it never wraps'',
               release_attempt a rt)
         else let next = (if id_valid (dpf_id current) then gen_next (dpf_generation current) else Generation 1);
                  p = build_revision a t ev next
              in if \<not> watermark_drift fe \<and> id_valid (dpf_id current) \<and>
                    dpf_semantic_digest current = dpf_semantic_digest p
                 then ((mutation_result MS_UNCHANGED ''revalidation produced an identical proof revision'')
                         \<lparr>mr_proof := Some current\<rparr>, count_stat inc_unchanged rt)
                 else ((settled_result fe)\<lparr>mr_proof := Some p\<rparr>,
                       count_stat inc_commits (index_revision ev p
                         (put_record i (store_revision (max_history (rt_limits rt)) p record) rt))))"

definition commit_evaluation ::
  "acting_authority \<Rightarrow> ticket \<Rightarrow> finished_evaluation \<Rightarrow> runtime \<Rightarrow> mutation_result \<times> runtime" where
  "commit_evaluation a t fe rt =
     (case commit_guard a t rt of
        Some r \<Rightarrow> (r, refuse a rt)
      | None \<Rightarrow>
        let rt = (if watermark_drift fe then count_stat inc_watermark rt else rt);
            i = proof_identity (tk_request t)
        in case map_of (rt_proofs rt) i of
             Some record \<Rightarrow> commit_record a t fe record rt
           | None \<Rightarrow>
               if max_proofs (rt_limits rt) \<le> length (rt_proofs rt)
               then ((mutation_result MS_LIMIT_EXCEEDED ''proof registry is full'')
                       \<lparr>mr_limit := Some (resource_notice RB_MAX_PROOFS (length (rt_proofs rt) + 1) (max_proofs (rt_limits rt)))\<rparr>,
                     refuse a rt)
               else commit_record a t fe empty_record (put_record i empty_record rt))"

section \<open>The operations\<close>

definition evaluate ::
  "views \<Rightarrow> views \<Rightarrow> proof_request \<Rightarrow> acting_authority \<Rightarrow> runtime \<Rightarrow> mutation_result \<times> runtime" where
  "evaluate before behind request a rt =
     (case begin_evaluation request a rt of
        (Inl r, rt) \<Rightarrow> (r, rt)
      | (Inr t, rt) \<Rightarrow> commit_evaluation a t (run_evaluation (rt_limits rt) before behind t) rt)"

definition revalidate ::
  "views \<Rightarrow> views \<Rightarrow> diversity_proof_id \<Rightarrow> acting_authority \<Rightarrow> runtime \<Rightarrow> mutation_result \<times> runtime" where
  "revalidate before behind i a rt =
     (case map_of (rt_proofs rt) i of
        None \<Rightarrow> (mutation_result MS_NOT_FOUND ''no proof is stored under this identity'', rt)
      | Some record \<Rightarrow>
          if lifecycle_is_terminal (dpf_lifecycle (rec_current record))
          then (mutation_result MS_ILLEGAL_TRANSITION ''a revoked or retired proof is never revalidated'', rt)
          else evaluate before behind (dpf_request (rec_current record)) a rt)"

text \<open>A batch: the derived attempt identity of an element may be too long, and parsing it then throws out of
  the loop; what earlier elements committed stays committed.\<close>

definition batch_attempt :: "acting_authority \<Rightarrow> nat \<Rightarrow> identity_error + acting_authority" where
  "batch_attempt a i =
     (case parse_id ''MutationAttemptId'' mutation_attempt_id_max (id_view (aa_attempt a) @ ''-'' @ decimal i) of
        Inl e \<Rightarrow> Inl e
      | Inr attempt \<Rightarrow> Inr (a\<lparr>aa_attempt := attempt\<rparr>))"

fun evaluate_elements ::
  "(nat \<Rightarrow> views \<times> views) \<Rightarrow> nat \<Rightarrow> proof_request list \<Rightarrow> acting_authority \<Rightarrow> runtime \<Rightarrow>
   (identity_error + mutation_result list) \<times> runtime" where
  "evaluate_elements vs i [] a rt = (Inr [], rt)"
| "evaluate_elements vs i (request # requests) a rt =
     (case batch_attempt a i of
        Inl e \<Rightarrow> (Inl e, rt)
      | Inr per_request \<Rightarrow>
          (case evaluate (fst (vs i)) (snd (vs i)) request per_request rt of (r, rt) \<Rightarrow>
             (case evaluate_elements vs (Suc i) requests a rt of
                (Inl e, rt) \<Rightarrow> (Inl e, rt)
              | (Inr rs, rt) \<Rightarrow> (Inr (r # rs), rt))))"

definition evaluate_batch ::
  "(nat \<Rightarrow> views \<times> views) \<Rightarrow> proof_request list \<Rightarrow> acting_authority \<Rightarrow> runtime \<Rightarrow>
   (identity_error + mutation_result list) \<times> runtime" where
  "evaluate_batch vs requests a rt =
     (let bound = min (length requests) (max_batch_size (rt_limits rt))
      in case evaluate_elements vs 0 (take bound requests) a rt of
           (Inl e, rt) \<Rightarrow> (Inl e, rt)
         | (Inr rs, rt) \<Rightarrow>
             (Inr (if bound < length requests
                   then rs @ [(mutation_result MS_LIMIT_EXCEEDED ''batch exceeded max_batch_size'')
                          \<lparr>mr_limit := Some (resource_notice RB_MAX_BATCH_SIZE (length requests) (max_batch_size (rt_limits rt)))\<rparr>]
                   else rs), rt))"

definition stored_proof :: "runtime \<Rightarrow> diversity_proof_id \<Rightarrow> diversity_proof option" where
  "stored_proof rt i = map_option rec_current (map_of (rt_proofs rt) i)"

definition proof_history :: "runtime \<Rightarrow> diversity_proof_id \<Rightarrow> diversity_proof list" where
  "proof_history rt i = (case map_of (rt_proofs rt) i of None \<Rightarrow> [] | Some r \<Rightarrow> rec_history r)"

definition proof_count :: "runtime \<Rightarrow> nat" where
  "proof_count rt = length (rt_proofs rt)"

end
