(* ===== verification/RuntimeOps.thy ===== *)
theory RuntimeOps
  imports Runtime
begin

text \<open>
  Lifecycle transitions, fencing, invalidation and queries of the runtime (\<open>src/runtime_ops.cpp\<close>). The
  invalidations are instances of one loop, \<open>demote_all\<close>, over the proofs an index names; its lemmas say
  exactly which proofs it touches.
\<close>

definition ops_authority_mutation :: "authority_status \<Rightarrow> mutation_status" where
  "ops_authority_mutation status = (case status of
      AS_FENCED_PUBLISHER \<Rightarrow> MS_FENCED_PUBLISHER
    | AS_STALE_EPOCH \<Rightarrow> MS_STALE_EPOCH
    | AS_SCOPE_MISMATCH \<Rightarrow> MS_SCOPE_MISMATCH
    | AS_ATTEMPT_CONFLICT \<Rightarrow> MS_ATTEMPT_CONFLICT
    | AS_LIMIT_EXCEEDED \<Rightarrow> MS_LIMIT_EXCEEDED
    | AS_GENERATION_CONFLICT \<Rightarrow> MS_GENERATION_CONFLICT
    | _ \<Rightarrow> MS_UNAUTHORIZED)"

definition is_current :: "diversity_proof \<Rightarrow> bool" where
  "is_current p \<longleftrightarrow> dpf_lifecycle p = LS_CURRENT \<and> currentness_is_current (dpf_currentness p)"

section \<open>Lifecycle transitions\<close>

definition lifecycle_payload :: "diversity_proof_id \<Rightarrow> lifecycle_state \<Rightarrow> digest" where
  "lifecycle_payload i target = digest_of (map char_byte (id_view i @ ''|'' @ lifecycle_state_to_string target))"

definition transition_record :: "nat \<Rightarrow> lifecycle_state \<Rightarrow> string \<Rightarrow> proof_record \<Rightarrow> proof_record" where
  "transition_record bound target reason record =
     (let current = rec_current record;
          history = rec_history record @ [current];
          history = (if bound < length history then tl history else history);
          current = current\<lparr>dpf_lifecycle := target, dpf_detail := reason\<rparr>;
          current = (if target \<noteq> LS_CURRENT then current\<lparr>dpf_currentness := CN_REVALIDATION_REQUIRED\<rparr> else current)
      in record\<lparr>rec_current := current, rec_history := history\<rparr>)"

definition transition_stored ::
  "diversity_proof_id \<Rightarrow> acting_authority \<Rightarrow> lifecycle_state \<Rightarrow> string \<Rightarrow> runtime \<Rightarrow> mutation_result \<times> runtime" where
  "transition_stored i a target reason rt =
     (case map_of (rt_proofs rt) i of
        None \<Rightarrow> (mutation_result MS_NOT_FOUND ''no proof is stored under this identity'', release_attempt a rt)
      | Some record \<Rightarrow>
          let current = rec_current record in
          if \<not> lifecycle_transition_allowed (dpf_lifecycle current) target
          then (mutation_result MS_ILLEGAL_TRANSITION
                  (''transition from '' @ lifecycle_state_to_string (dpf_lifecycle current) @ '' to '' @
                   lifecycle_state_to_string target @ '' is not in the transition table''), release_attempt a rt)
          else if dpf_lifecycle current = target
          then ((mutation_result MS_UNCHANGED ''proof is already in the requested lifecycle state'')
                  \<lparr>mr_proof := Some current\<rparr>, count_stat inc_unchanged rt)
          else let record = transition_record (max_history (rt_limits rt)) target reason record
               in ((mutation_result MS_APPLIED reason)\<lparr>mr_proof := Some (rec_current record)\<rparr>,
                   count_stat inc_commits (put_record i record rt)))"

definition apply_lifecycle ::
  "diversity_proof_id \<Rightarrow> acting_authority \<Rightarrow> lifecycle_state \<Rightarrow> string \<Rightarrow> runtime \<Rightarrow> mutation_result \<times> runtime" where
  "apply_lifecycle i a target reason rt =
     (case admit_attempt a (lifecycle_payload i target) rt of (verdict, rt) \<Rightarrow>
      case (if verdict = AS_IDEMPOTENT then map_of (rt_proofs rt) i else None) of
        Some record \<Rightarrow>
          if dpf_lifecycle (rec_current record) = target
          then ((mutation_result MS_IDEMPOTENT ''lifecycle transition replayed exactly'')
                  \<lparr>mr_proof := Some (rec_current record)\<rparr>, rt)
          else transition_stored i a target reason rt
      | None \<Rightarrow>
          if \<not> authority_status_is_success verdict
          then (mutation_result (ops_authority_mutation verdict)
                  (''lifecycle transition refused: '' @ authority_status_to_string verdict), count_stat inc_rejected rt)
          else transition_stored i a target reason rt)"

definition revoke :: "diversity_proof_id \<Rightarrow> acting_authority \<Rightarrow> string \<Rightarrow> runtime \<Rightarrow> mutation_result \<times> runtime" where
  "revoke i a reason = apply_lifecycle i a LS_REVOKED reason"

definition retire :: "diversity_proof_id \<Rightarrow> acting_authority \<Rightarrow> string \<Rightarrow> runtime \<Rightarrow> mutation_result \<times> runtime" where
  "retire i a reason = apply_lifecycle i a LS_RETIRED reason"

definition mark_historical :: "diversity_proof_id \<Rightarrow> acting_authority \<Rightarrow> string \<Rightarrow> runtime \<Rightarrow> mutation_result \<times> runtime" where
  "mark_historical i a reason = apply_lifecycle i a LS_HISTORICAL reason"

definition supersede :: "diversity_proof_id \<Rightarrow> acting_authority \<Rightarrow> runtime \<Rightarrow> mutation_result \<times> runtime" where
  "supersede i a = apply_lifecycle i a LS_SUPERSEDED ''superseded by an explicit operator decision''"

section \<open>Invalidation\<close>

definition demoted :: "currentness \<Rightarrow> string \<Rightarrow> proof_record \<Rightarrow> proof_record" where
  "demoted cn detail record =
     record\<lparr>rec_current := (rec_current record)
       \<lparr>dpf_lifecycle := LS_REVALIDATION_REQUIRED, dpf_currentness := cn, dpf_detail := detail\<rparr>\<rparr>"

definition demote_step ::
  "(diversity_proof \<Rightarrow> bool) \<Rightarrow> currentness \<Rightarrow> string \<Rightarrow> diversity_proof_id \<Rightarrow> proof_ids \<times> runtime \<Rightarrow> proof_ids \<times> runtime" where
  "demote_step older cn detail i st =
     (case st of (affected, rt) \<Rightarrow>
      case map_of (rt_proofs rt) i of
        None \<Rightarrow> (affected, rt)
      | Some record \<Rightarrow>
          if \<not> is_current (rec_current record) then (affected, rt)
          else if \<not> older (rec_current record) then (affected, rt)
          else (affected @ [i], count_stat inc_demotions (put_record i (demoted cn detail record) rt)))"

definition finish_demotion :: "proof_ids \<times> runtime \<Rightarrow> proof_ids \<times> runtime" where
  "finish_demotion st = (case st of (affected, rt) \<Rightarrow> (sort affected, count_stat inc_invalidations rt))"

definition demote_all ::
  "(diversity_proof \<Rightarrow> bool) \<Rightarrow> currentness \<Rightarrow> string \<Rightarrow> proof_ids \<Rightarrow> runtime \<Rightarrow> proof_ids \<times> runtime" where
  "demote_all older cn detail candidates rt = finish_demotion (fold (demote_step older cn detail) candidates ([], rt))"

definition gather_members :: "('k, proof_ids) omap \<Rightarrow> 'k list \<Rightarrow> proof_ids" where
  "gather_members index keys = fold (\<lambda>k candidates. os_union (om_members index k) candidates) keys []"

definition demote_topology_entities ::
  "entity_ref list \<Rightarrow> topology_generation \<Rightarrow> runtime \<Rightarrow> proof_ids \<times> runtime" where
  "demote_topology_entities entities generation rt =
     demote_all (\<lambda>p. db_topology_generation (dpf_dependencies p) < generation) CN_STALE_TOPOLOGY
       ''topology changed for an entity this proof depends on'' (gather_members (rt_by_entity rt) entities) rt"

text \<open>The loop over the buckets of older generations: each is demoted and erased.\<close>

fun demote_older ::
  "'g::linorder \<Rightarrow> currentness \<Rightarrow> string \<Rightarrow> ('g, proof_ids) omap \<Rightarrow> proof_ids \<times> runtime \<Rightarrow>
   ('g, proof_ids) omap \<times> (proof_ids \<times> runtime)" where
  "demote_older g cn detail [] st = ([], st)"
| "demote_older g cn detail ((k, ids) # index) st =
     (if \<not> k < g
      then (case demote_older g cn detail index st of (kept, st) \<Rightarrow> ((k, ids) # kept, st))
      else demote_older g cn detail index (fold (demote_step (\<lambda>p. True) cn detail) ids st))"

definition demote_topology_generation :: "topology_generation \<Rightarrow> runtime \<Rightarrow> proof_ids \<times> runtime" where
  "demote_topology_generation generation rt =
     (case demote_older generation CN_STALE_TOPOLOGY
         ''topology advanced past the generation this proof was evaluated against'' (rt_by_topology rt) ([], rt) of
        (kept, affected, rt) \<Rightarrow> finish_demotion (affected, rt\<lparr>rt_by_topology := kept\<rparr>))"

definition demote_failure_domain_generation :: "failure_domain_generation \<Rightarrow> runtime \<Rightarrow> proof_ids \<times> runtime" where
  "demote_failure_domain_generation generation rt =
     (case demote_older generation CN_STALE_FAILURE_DOMAIN
         ''failure-domain classification advanced past the generation this proof bound'' (rt_by_failure_domain rt) ([], rt) of
        (kept, affected, rt) \<Rightarrow> finish_demotion (affected, rt\<lparr>rt_by_failure_domain := kept\<rparr>))"

definition demote_domains ::
  "failure_domain_id list \<Rightarrow> failure_domain_generation \<Rightarrow> runtime \<Rightarrow> proof_ids \<times> runtime" where
  "demote_domains domains generation rt =
     demote_all (\<lambda>p. db_failure_domain_generation (dpf_dependencies p) < generation) CN_STALE_FAILURE_DOMAIN
       ''failure-domain membership changed for a domain this proof consulted''
       (gather_members (rt_by_domain rt) domains) rt"

definition demote_path :: "path_id \<Rightarrow> runtime \<Rightarrow> proof_ids \<times> runtime" where
  "demote_path path rt =
     (case map_of (rt_by_path rt) path of
        None \<Rightarrow> ([], count_stat inc_invalidations rt)
      | Some ids \<Rightarrow> demote_all (\<lambda>p. True) CN_STALE_PATH_AUTHORITY
          ''Path Authority changed for a path this proof binds; revalidation is required'' ids rt)"

definition demote_policy ::
  "diversity_policy_id \<Rightarrow> diversity_policy_generation \<Rightarrow> runtime \<Rightarrow> proof_ids \<times> runtime" where
  "demote_policy policy generation rt =
     (case map_of (rt_by_policy rt) policy of
        None \<Rightarrow> ([], count_stat inc_invalidations rt)
      | Some ids \<Rightarrow> demote_all (\<lambda>p. db_policy_generation (dpf_dependencies p) < generation) CN_STALE_POLICY
          ''the policy advanced past the generation this proof was evaluated against'' ids rt)"

definition demote_boot :: "worker_boot_id \<Rightarrow> runtime \<Rightarrow> proof_ids \<times> runtime" where
  "demote_boot boot rt =
     (case map_of (rt_by_boot rt) boot of
        None \<Rightarrow> ([], count_stat inc_invalidations rt)
      | Some ids \<Rightarrow> demote_all (\<lambda>p. True) CN_FENCED_PUBLISHER
          ''the publishing worker boot was fenced; live authority for this proof is gone'' ids rt)"

section \<open>Publication authority surface\<close>

definition rt_register_publisher :: "publisher_session \<Rightarrow> runtime \<Rightarrow> authority_status \<times> runtime" where
  "rt_register_publisher session rt =
     (case register_publisher session (rt_publication rt) of (status, pub) \<Rightarrow> (status, rt\<lparr>rt_publication := pub\<rparr>))"

definition fence_publication :: "worker_boot_id \<Rightarrow> runtime \<Rightarrow> runtime" where
  "fence_publication boot rt = rt\<lparr>rt_publication := snd (fence_boot boot (rt_publication rt))\<rparr>"

definition rt_fence_boot :: "worker_boot_id \<Rightarrow> runtime \<Rightarrow> proof_ids \<times> runtime" where
  "rt_fence_boot boot rt = demote_boot boot (fence_publication boot rt)"

section \<open>Refreshing currentness\<close>

record question =
  qu_id :: diversity_proof_id
  qu_path :: path_id
  qu_bound :: path_authority_generation

definition live_entries :: "runtime \<Rightarrow> (diversity_proof_id \<times> proof_record) list" where
  "live_entries rt = filter (\<lambda>e. is_current (rec_current (snd e))) (rt_proofs rt)"

definition collect_questions :: "runtime \<Rightarrow> question list" where
  "collect_questions rt =
     concat (map (\<lambda>e. map (\<lambda>b. \<lparr>qu_id = fst e, qu_path = pb_path b, qu_bound = pb_generation b\<rparr>)
       (db_paths (dpf_dependencies (rec_current (snd e))))) (live_entries rt))"

definition collect_live :: "runtime \<Rightarrow> proof_ids" where
  "collect_live rt = map fst (live_entries rt)"

definition collect_policies :: "runtime \<Rightarrow> (diversity_policy_id, proof_ids) omap" where
  "collect_policies rt =
     fold (\<lambda>e m. let policy = rq_policy (dpf_request (rec_current (snd e)))
         in om_put policy (om_members m policy @ [fst e]) m) (live_entries rt) []"

definition question_stale :: "path_authority_view \<Rightarrow> question \<Rightarrow> bool" where
  "question_stale view q \<longleftrightarrow>
     av_current_generation view (qu_path q) \<noteq> Some (qu_bound q) \<or> \<not> av_is_authorized view (qu_path q) (qu_bound q)"

definition ask_paths :: "path_authority_view \<Rightarrow> question list \<Rightarrow> proof_ids" where
  "ask_paths view questions =
     fold (\<lambda>q stale. if question_stale view q then os_insert (qu_id q) stale else stale) questions []"

definition ask_policies :: "runtime \<Rightarrow> (diversity_policy_id, proof_ids) omap \<Rightarrow> proof_ids" where
  "ask_policies rt by_policy =
     fold (\<lambda>(policy, ids) stale.
         let published = policy_generation rt policy
         in fold (\<lambda>i stale. case stored_proof rt i of
               None \<Rightarrow> stale
             | Some stored \<Rightarrow>
                 if db_policy_generation (dpf_dependencies stored) \<noteq> published then os_insert i stale else stale) ids stale)
       by_policy []"

definition refresh_step ::
  "proof_ids \<Rightarrow> proof_ids \<Rightarrow> diversity_proof_id \<Rightarrow> proof_ids \<times> runtime \<Rightarrow> proof_ids \<times> runtime" where
  "refresh_step stale_policies stale_paths i st =
     (if i \<in> set stale_policies
      then demote_step (\<lambda>p. True) CN_STALE_POLICY ''the policy generation moved past this proof'' i st
      else if i \<in> set stale_paths
      then demote_step (\<lambda>p. True) CN_STALE_PATH_AUTHORITY ''Path Authority moved past this proof binding'' i st
      else st)"

definition apply_refresh :: "proof_ids \<Rightarrow> proof_ids \<Rightarrow> proof_ids \<Rightarrow> runtime \<Rightarrow> proof_ids \<times> runtime" where
  "apply_refresh live stale_policies stale_paths rt =
     finish_demotion (fold (refresh_step stale_policies stale_paths) live ([], rt))"

definition refresh_currentness :: "views \<Rightarrow> runtime \<Rightarrow> proof_ids \<times> runtime" where
  "refresh_currentness v rt =
     apply_refresh (collect_live rt) (ask_policies rt (collect_policies rt))
       (ask_paths (vw_authority v) (collect_questions rt)) rt"

section \<open>Queries\<close>

record query_result =
  qr_proofs :: proof_ids
  qr_truncated :: bool
  qr_total :: u64

definition empty_query :: query_result where
  "empty_query = \<lparr>qr_proofs = [], qr_truncated = False, qr_total = 0\<rparr>"

fun bounded_loop :: "nat \<Rightarrow> proof_ids \<Rightarrow> query_result \<Rightarrow> query_result" where
  "bounded_loop bound [] r = r"
| "bounded_loop bound (i # ids) r =
     (if bound \<le> length (qr_proofs r) then r\<lparr>qr_truncated := True\<rparr>
      else bounded_loop bound ids (r\<lparr>qr_proofs := qr_proofs r @ [i]\<rparr>))"

definition bounded_result :: "proof_ids \<Rightarrow> nat \<Rightarrow> query_result" where
  "bounded_result source bound = bounded_loop bound source (empty_query\<lparr>qr_total := of_nat (length source)\<rparr>)"

definition query_index :: "('k, proof_ids) omap \<Rightarrow> 'k \<Rightarrow> runtime \<Rightarrow> query_result" where
  "query_index index k rt =
     (case map_of index k of None \<Rightarrow> empty_query | Some ids \<Rightarrow> bounded_result ids (max_query_results (rt_limits rt)))"

definition proofs_for_path :: "runtime \<Rightarrow> path_id \<Rightarrow> query_result" where
  "proofs_for_path rt path = query_index (rt_by_path rt) path rt"

definition proofs_for_domain :: "runtime \<Rightarrow> failure_domain_id \<Rightarrow> query_result" where
  "proofs_for_domain rt domain = query_index (rt_by_domain rt) domain rt"

definition proofs_for_entity :: "runtime \<Rightarrow> entity_ref \<Rightarrow> query_result" where
  "proofs_for_entity rt entity = query_index (rt_by_entity rt) entity rt"

definition proofs_for_policy :: "runtime \<Rightarrow> diversity_policy_id \<Rightarrow> query_result" where
  "proofs_for_policy rt policy = query_index (rt_by_policy rt) policy rt"

definition proofs_for_boot :: "runtime \<Rightarrow> worker_boot_id \<Rightarrow> query_result" where
  "proofs_for_boot rt boot = query_index (rt_by_boot rt) boot rt"

definition current_proofs :: "runtime \<Rightarrow> query_result" where
  "current_proofs rt =
     bounded_result (fold (\<lambda>e live. if is_current (rec_current (snd e)) then os_insert (fst e) live else live)
       (rt_proofs rt) []) (max_query_results (rt_limits rt))"

definition all_proofs :: "runtime \<Rightarrow> query_result" where
  "all_proofs rt = bounded_result (fold (\<lambda>e. os_insert (fst e)) (rt_proofs rt) []) (max_query_results (rt_limits rt))"

end
