(* ===== verification/RuntimeInv.thy ===== *)
theory RuntimeInv
  imports RuntimeOps
begin

text \<open>
  What the runtime keeps. Every public operation is a sequence of a few primitive updates of the state,
  \<open>micro\<close>; the invariants are proved for each primitive once and hold in every reachable state, whatever the
  interleaving of operations, evaluations in flight and changes of the evidence.
\<close>

section \<open>Frames\<close>

lemma count_stat_fields [simp]:
  "rt_limits (count_stat f rt) = rt_limits rt" "rt_publication (count_stat f rt) = rt_publication rt"
  "rt_policies (count_stat f rt) = rt_policies rt" "rt_proofs (count_stat f rt) = rt_proofs rt"
  "rt_by_path (count_stat f rt) = rt_by_path rt" "rt_by_domain (count_stat f rt) = rt_by_domain rt"
  "rt_by_risk_group (count_stat f rt) = rt_by_risk_group rt" "rt_by_entity (count_stat f rt) = rt_by_entity rt"
  "rt_by_policy (count_stat f rt) = rt_by_policy rt" "rt_by_boot (count_stat f rt) = rt_by_boot rt"
  "rt_by_topology (count_stat f rt) = rt_by_topology rt"
  "rt_by_failure_domain (count_stat f rt) = rt_by_failure_domain rt"
  "rt_stats (count_stat f rt) = f (rt_stats rt)"
  by (simp_all add: count_stat_def)

lemma put_record_fields [simp]:
  "rt_limits (put_record i r rt) = rt_limits rt" "rt_publication (put_record i r rt) = rt_publication rt"
  "rt_policies (put_record i r rt) = rt_policies rt" "rt_proofs (put_record i r rt) = om_put i r (rt_proofs rt)"
  "rt_by_path (put_record i r rt) = rt_by_path rt" "rt_by_domain (put_record i r rt) = rt_by_domain rt"
  "rt_by_risk_group (put_record i r rt) = rt_by_risk_group rt" "rt_by_entity (put_record i r rt) = rt_by_entity rt"
  "rt_by_policy (put_record i r rt) = rt_by_policy rt" "rt_by_boot (put_record i r rt) = rt_by_boot rt"
  "rt_by_topology (put_record i r rt) = rt_by_topology rt"
  "rt_by_failure_domain (put_record i r rt) = rt_by_failure_domain rt"
  "rt_stats (put_record i r rt) = rt_stats rt"
  by (simp_all add: put_record_def)

lemma release_attempt_fields [simp]:
  "rt_limits (release_attempt a rt) = rt_limits rt"
  "rt_publication (release_attempt a rt) = forget_attempt (aa_attempt a) (rt_publication rt)"
  "rt_policies (release_attempt a rt) = rt_policies rt" "rt_proofs (release_attempt a rt) = rt_proofs rt"
  "rt_by_path (release_attempt a rt) = rt_by_path rt" "rt_by_domain (release_attempt a rt) = rt_by_domain rt"
  "rt_by_risk_group (release_attempt a rt) = rt_by_risk_group rt" "rt_by_entity (release_attempt a rt) = rt_by_entity rt"
  "rt_by_policy (release_attempt a rt) = rt_by_policy rt" "rt_by_boot (release_attempt a rt) = rt_by_boot rt"
  "rt_by_topology (release_attempt a rt) = rt_by_topology rt"
  "rt_by_failure_domain (release_attempt a rt) = rt_by_failure_domain rt"
  "rt_stats (release_attempt a rt) = rt_stats rt"
  by (simp_all add: release_attempt_def)

lemma build_revision_fields [simp]:
  "dpf_id (build_revision a t ev g) = proof_identity (tk_request t)" "dpf_generation (build_revision a t ev g) = g"
  "dpf_request (build_revision a t ev g) = tk_request t" "dpf_outcome (build_revision a t ev g) = ev_outcome ev"
  "dpf_lifecycle (build_revision a t ev g) = committed_lifecycle (ev_outcome ev)"
  "dpf_currentness (build_revision a t ev g) = currentness_for_outcome (ev_outcome ev)"
  "dpf_dependencies (build_revision a t ev g) = (ev_dependencies ev)\<lparr>db_epoch := aa_epoch a\<rparr>"
  "dpf_provenance (build_revision a t ev g) =
     \<lparr>pn_epoch = aa_epoch a, pn_publisher = aa_publisher a, pn_boot = aa_boot a, pn_attempt = aa_attempt a\<rparr>"
  "dpf_semantic_digest (build_revision a t ev g) = proof_semantic_digest (build_revision a t ev g)"
  "dpf_request_digest (build_revision a t ev g) = tk_payload t"
proof -
  show "dpf_semantic_digest (build_revision a t ev g) = proof_semantic_digest (build_revision a t ev g)"
    unfolding build_revision_def Let_def
    by (simp only: diversity_proof.select_convs diversity_proof.update_convs) (rule proof_semantic_digest_cong; simp)
qed (simp_all add: build_revision_def Let_def)

lemma is_current_record: "is_current (rec_current (demoted cn detail r)) = False"
  by (simp add: is_current_def demoted_def)

lemma not_current_default [simp]: "\<not> is_current default_proof"
  by (simp add: is_current_def default_proof_def)

lemma default_proof_id [simp]: "\<not> id_valid (dpf_id default_proof)"
  by (simp add: default_proof_def id_valid_def unset_id_def)

section \<open>Primitive updates\<close>

definition next_generation :: "diversity_proof \<Rightarrow> diversity_proof_generation" where
  "next_generation current = (if id_valid (dpf_id current) then gen_next (dpf_generation current) else Generation 1)"

definition exhausted :: "diversity_proof \<Rightarrow> bool" where
  "exhausted current \<longleftrightarrow> id_valid (dpf_id current) \<and> \<not> gen_can_advance (gen_value (dpf_generation current))"

inductive micro :: "runtime \<Rightarrow> runtime \<Rightarrow> bool" where
  publication: "authority_step\<^sup>*\<^sup>* (rt_publication rt) pub \<Longrightarrow> micro rt (rt\<lparr>rt_publication := pub\<rparr>)"
| stats: "micro rt (count_stat f rt)"
| fresh_policy: "map_of (rt_policies rt) (dp_id p) = None \<Longrightarrow> length (rt_policies rt) < max_policies (rt_limits rt) \<Longrightarrow>
    dp_generation p = Generation 1 \<Longrightarrow> micro rt (rt\<lparr>rt_policies := om_put (dp_id p) p (rt_policies rt)\<rparr>)"
| next_policy: "map_of (rt_policies rt) (dp_id p) = Some q \<Longrightarrow> gen_can_advance (gen_value (dp_generation q)) \<Longrightarrow>
    dp_generation p = gen_next (dp_generation q) \<Longrightarrow> micro rt (rt\<lparr>rt_policies := om_put (dp_id p) p (rt_policies rt)\<rparr>)"
| reserve: "map_of (rt_proofs rt) i = None \<Longrightarrow> length (rt_proofs rt) < max_proofs (rt_limits rt) \<Longrightarrow>
    micro rt (put_record i empty_record rt)"
| revise: "map_of (rt_proofs rt) (proof_identity (tk_request t)) = Some record \<Longrightarrow> commit_guard a t rt = None \<Longrightarrow>
    \<not> exhausted (rec_current record) \<Longrightarrow>
    p = build_revision a t ev (next_generation (rec_current record)) \<Longrightarrow>
    micro rt (index_revision ev p (put_record (proof_identity (tk_request t))
      (store_revision (max_history (rt_limits rt)) p record) rt))"
| transition: "map_of (rt_proofs rt) i = Some record \<Longrightarrow>
    lifecycle_transition_allowed (dpf_lifecycle (rec_current record)) target \<Longrightarrow> target \<noteq> LS_CURRENT \<Longrightarrow>
    micro rt (put_record i (transition_record (max_history (rt_limits rt)) target reason record) rt)"
| demote: "map_of (rt_proofs rt) i = Some record \<Longrightarrow> is_current (rec_current record) \<Longrightarrow>
    micro rt (put_record i (demoted cn detail record) rt)"
| forget_topology:
    "(\<And>k j r. \<not> keep k \<Longrightarrow> j \<in> set (om_members (rt_by_topology rt) k) \<Longrightarrow> map_of (rt_proofs rt) j = Some r \<Longrightarrow>
       \<not> is_current (rec_current r)) \<Longrightarrow>
     micro rt (rt\<lparr>rt_by_topology := filter (\<lambda>e. keep (fst e)) (rt_by_topology rt)\<rparr>)"
| forget_domains:
    "(\<And>k j r. \<not> keep k \<Longrightarrow> j \<in> set (om_members (rt_by_failure_domain rt) k) \<Longrightarrow> map_of (rt_proofs rt) j = Some r \<Longrightarrow>
       \<not> is_current (rec_current r)) \<Longrightarrow>
     micro rt (rt\<lparr>rt_by_failure_domain := filter (\<lambda>e. keep (fst e)) (rt_by_failure_domain rt)\<rparr>)"

section \<open>Invariants\<close>

definition registry_bounded :: "runtime \<Rightarrow> bool" where
  "registry_bounded rt \<longleftrightarrow> om_sorted (rt_policies rt) \<and> om_sorted (rt_proofs rt) \<and>
     length (rt_policies rt) \<le> max_policies (rt_limits rt) \<and> length (rt_proofs rt) \<le> max_proofs (rt_limits rt) \<and>
     (\<forall>i r. map_of (rt_proofs rt) i = Some r \<longrightarrow>
        length (rec_history r) \<le> max_history (rt_limits rt) \<and> length (rec_snapshots r) \<le> max_history (rt_limits rt))"

definition policies_ok :: "runtime \<Rightarrow> bool" where
  "policies_ok rt \<longleftrightarrow> (\<forall>i p. map_of (rt_policies rt) i = Some p \<longrightarrow> dp_id p = i \<and> gen_is_set (dp_generation p))"

definition record_ok :: "diversity_proof_id \<Rightarrow> diversity_proof \<Rightarrow> bool" where
  "record_ok i p \<longleftrightarrow>
     (id_valid (dpf_id p) \<longrightarrow> dpf_id p = i \<and> proof_identity (dpf_request p) = i \<and> gen_is_set (dpf_generation p)) \<and>
     (is_current p \<longrightarrow> id_valid (dpf_id p))"

text \<open>Every index knows every stored proof; the generation indexes know every current one.\<close>

definition indexed :: "runtime \<Rightarrow> diversity_proof_id \<Rightarrow> diversity_proof \<Rightarrow> bool" where
  "indexed rt i p \<longleftrightarrow>
     (\<forall>r\<in>set (rq_paths (dpf_request p)). i \<in> set (om_members (rt_by_path rt) (pr_path r))) \<and>
     (\<forall>e\<in>set (db_topology_entities (dpf_dependencies p)). i \<in> set (om_members (rt_by_entity rt) e)) \<and>
     i \<in> set (om_members (rt_by_policy rt) (rq_policy (dpf_request p))) \<and>
     i \<in> set (om_members (rt_by_boot rt) (pn_boot (dpf_provenance p))) \<and>
     (is_current p \<longrightarrow>
        i \<in> set (om_members (rt_by_topology rt) (db_topology_generation (dpf_dependencies p))) \<and>
        i \<in> set (om_members (rt_by_failure_domain rt) (db_failure_domain_generation (dpf_dependencies p))))"

definition records_ok :: "runtime \<Rightarrow> bool" where
  "records_ok rt \<longleftrightarrow> (\<forall>i r. map_of (rt_proofs rt) i = Some r \<longrightarrow> record_ok i (rec_current r) \<and>
     (id_valid (dpf_id (rec_current r)) \<longrightarrow> indexed rt i (rec_current r)))"

definition runtime_inv :: "runtime \<Rightarrow> bool" where
  "runtime_inv rt \<longleftrightarrow> authority_inv (rt_publication rt) \<and> registry_bounded rt \<and> policies_ok rt \<and> records_ok rt"

lemma push_bounded_length: "0 < bound \<Longrightarrow> length xs \<le> bound \<Longrightarrow> length (push_bounded bound x xs) \<le> bound"
  by (auto simp: push_bounded_def)

lemma micro_limits: "micro rt rt' \<Longrightarrow> rt_limits rt' = rt_limits rt"
  by (erule micro.cases) (simp_all add: index_revision_def Let_def)

lemma index_revision_fields [simp]:
  "rt_limits (index_revision ev p rt) = rt_limits rt" "rt_publication (index_revision ev p rt) = rt_publication rt"
  "rt_policies (index_revision ev p rt) = rt_policies rt" "rt_proofs (index_revision ev p rt) = rt_proofs rt"
  "rt_stats (index_revision ev p rt) = rt_stats rt"
  by (simp_all add: index_revision_def Let_def)

lemma put_record_present: "om_sorted (rt_proofs rt) \<Longrightarrow> map_of (rt_proofs rt) i = Some r \<Longrightarrow>
    length (om_put i r' (rt_proofs rt)) = length (rt_proofs rt)"
  by (simp add: om_put_present)

lemma registry_bounded_put:
  assumes "registry_bounded rt" "map_of (rt_proofs rt) i = Some r0" "length (rec_history r) \<le> max_history (rt_limits rt)"
    "length (rec_snapshots r) \<le> max_history (rt_limits rt)"
  shows "registry_bounded (put_record i r rt)"
  using assms by (auto simp: registry_bounded_def om_sorted_put put_record_present)

lemma registry_bounded_index [simp]: "registry_bounded (index_revision ev p rt) = registry_bounded rt"
  by (simp add: registry_bounded_def)

lemma registry_record:
  assumes "registry_bounded rt" "map_of (rt_proofs rt) i = Some r"
  shows "length (rec_history r) \<le> max_history (rt_limits rt)" "length (rec_snapshots r) \<le> max_history (rt_limits rt)"
  using assms by (auto simp: registry_bounded_def)

lemma micro_bounded: "micro rt rt' \<Longrightarrow> 0 < max_history (rt_limits rt) \<Longrightarrow> registry_bounded rt \<Longrightarrow> registry_bounded rt'"
proof (induction rule: micro.induct)
  case (revise rt t stored a p ev)
  note len = registry_record [OF revise.prems(2) revise.hyps(1)]
  then show ?case
    using revise.prems registry_bounded_put [OF revise.prems(2) revise.hyps(1)]
    by (simp add: store_revision_def push_bounded_length)
next
  case (transition rt i stored target reason)
  note len = registry_record [OF transition.prems(2) transition.hyps(1)]
  show ?case
    by (rule registry_bounded_put [OF transition.prems(2) transition.hyps(1)]) (use len in \<open>auto simp: transition_record_def Let_def\<close>)
next
  case (demote rt i stored cn detail)
  show ?case
    by (rule registry_bounded_put [OF demote.prems(2) demote.hyps(1)])
      (use registry_record [OF demote.prems(2) demote.hyps(1)] in \<open>simp_all add: demoted_def\<close>)
next
  case (reserve rt i)
  then show ?case by (auto simp: registry_bounded_def om_sorted_put om_put_absent empty_record_def)
next
  case (next_policy rt p q)
  then show ?case by (auto simp: registry_bounded_def om_sorted_put om_put_present)
next
  case (fresh_policy rt p)
  then show ?case by (auto simp: registry_bounded_def om_sorted_put om_put_absent)
qed (auto simp: registry_bounded_def)

lemma micro_policies: "micro rt rt' \<Longrightarrow> policies_ok rt \<Longrightarrow> policies_ok rt'"
proof (induction rule: micro.induct)
  case (next_policy rt p q)
  then show ?case by (auto simp: policies_ok_def gen_next_set)
qed (auto simp: policies_ok_def gen_is_set_def)


lemma micro_authority: "micro rt rt' \<Longrightarrow> authority_inv (rt_publication rt) \<Longrightarrow> authority_inv (rt_publication rt')"
proof (induction rule: micro.induct)
  case (publication rt pub)
  then show ?case by (induction rule: rtranclp_induct) (auto intro: authority_step_inv)
qed simp_all

lemma fold_add_members:
  "j \<in> set (om_members (fold (\<lambda>r. om_add (key r) i) rs m) k) \<longleftrightarrow> j \<in> set (om_members m k) \<or> j = i \<and> k \<in> key ` set rs"
  using om_members_fold_add [of i "map key rs" m k] by (auto simp: fold_map comp_def)

lemma add_member: "j \<in> set (om_members (om_add k' i m) k) \<longleftrightarrow> j \<in> set (om_members m k) \<or> j = i \<and> k = k'"
  by (auto simp: om_members_add)

lemma index_members:
  "j \<in> set (om_members (rt_by_path (index_revision ev p rt)) k1) \<longleftrightarrow>
     j \<in> set (om_members (rt_by_path rt) k1) \<or> j = dpf_id p \<and> k1 \<in> pr_path ` set (rq_paths (dpf_request p))"
  "j \<in> set (om_members (rt_by_entity (index_revision ev p rt)) k2) \<longleftrightarrow>
     j \<in> set (om_members (rt_by_entity rt) k2) \<or> j = dpf_id p \<and> k2 \<in> set (db_topology_entities (dpf_dependencies p))"
  "j \<in> set (om_members (rt_by_domain (index_revision ev p rt)) k3) \<longleftrightarrow>
     j \<in> set (om_members (rt_by_domain rt) k3) \<or> j = dpf_id p \<and> k3 \<in> set (ev_consulted_domains ev)"
  "j \<in> set (om_members (rt_by_policy (index_revision ev p rt)) k4) \<longleftrightarrow>
     j \<in> set (om_members (rt_by_policy rt) k4) \<or> j = dpf_id p \<and> k4 = rq_policy (dpf_request p)"
  "j \<in> set (om_members (rt_by_boot (index_revision ev p rt)) k5) \<longleftrightarrow>
     j \<in> set (om_members (rt_by_boot rt) k5) \<or> j = dpf_id p \<and> k5 = pn_boot (dpf_provenance p)"
  "j \<in> set (om_members (rt_by_topology (index_revision ev p rt)) k6) \<longleftrightarrow>
     j \<in> set (om_members (rt_by_topology rt) k6) \<or> j = dpf_id p \<and> k6 = db_topology_generation (dpf_dependencies p)"
  "j \<in> set (om_members (rt_by_failure_domain (index_revision ev p rt)) k7) \<longleftrightarrow>
     j \<in> set (om_members (rt_by_failure_domain rt) k7) \<or> j = dpf_id p \<and> k7 = db_failure_domain_generation (dpf_dependencies p)"
  using fold_add_members [of j pr_path] fold_add_members [of j "\<lambda>x. x"]
  by (simp_all add: index_revision_def Let_def add_member)

lemma indexed_mono: "indexed rt i p \<Longrightarrow> indexed (index_revision ev q rt) i p"
  by (simp add: indexed_def index_members)

lemma indexed_self: "indexed (index_revision ev p rt) (dpf_id p) p"
  by (simp add: indexed_def index_members)

lemma indexed_put [simp]: "indexed (put_record i r rt) j p = indexed rt j p"
  by (simp add: indexed_def)

lemma indexed_count [simp]: "indexed (count_stat f rt) j p = indexed rt j p"
  by (simp add: indexed_def)

text \<open>Updates of a record that leave what the indexes read of it and do not make it current.\<close>

definition dims :: "proof_record \<Rightarrow> proof_record \<Rightarrow> bool" where
  "dims r r' \<longleftrightarrow> dpf_id (rec_current r') = dpf_id (rec_current r) \<and> dpf_request (rec_current r') = dpf_request (rec_current r) \<and>
     dpf_generation (rec_current r') = dpf_generation (rec_current r) \<and>
     dpf_dependencies (rec_current r') = dpf_dependencies (rec_current r) \<and>
     dpf_provenance (rec_current r') = dpf_provenance (rec_current r) \<and> \<not> is_current (rec_current r')"

lemma dims_demoted: "dims r (demoted cn detail r)"
  by (simp add: dims_def is_current_record) (simp add: demoted_def)

lemma dims_transition: "target \<noteq> LS_CURRENT \<Longrightarrow> dims r (transition_record bound target reason r)"
  by (simp add: dims_def transition_record_def Let_def is_current_def)

lemma records_ok_put:
  assumes "records_ok rt" "map_of (rt_proofs rt) i = Some r" "dims r r'"
  shows "records_ok (put_record i r' rt)"
  using assms by (auto simp: records_ok_def dims_def record_ok_def indexed_def)

lemma om_members_filter:
  "j \<in> set (om_members (filter (\<lambda>e. keep (fst e)) m) k) \<longleftrightarrow> keep k \<and> j \<in> set (om_members m k)"
proof -
  have "map_of (filter (\<lambda>e. keep (fst e)) m) k = (if keep k then map_of m k else None)"
    by (induction m) auto
  then show ?thesis by (simp add: om_members_def)
qed

lemma records_okD: "records_ok rt \<Longrightarrow> map_of (rt_proofs rt) i = Some r \<Longrightarrow> record_ok i (rec_current r)"
  "records_ok rt \<Longrightarrow> map_of (rt_proofs rt) i = Some r \<Longrightarrow> id_valid (dpf_id (rec_current r)) \<Longrightarrow> indexed rt i (rec_current r)"
  by (simp_all add: records_ok_def)

lemma current_indexed:
  assumes "records_ok rt" "map_of (rt_proofs rt) i = Some r" "is_current (rec_current r)"
  shows "indexed rt i (rec_current r)" "dpf_id (rec_current r) = i" "proof_identity (dpf_request (rec_current r)) = i"
  using records_okD [OF assms(1,2)] assms(3) by (auto simp: record_ok_def)

lemma micro_records: "micro rt rt' \<Longrightarrow> records_ok rt \<Longrightarrow> records_ok rt'"
proof (induction rule: micro.induct)
  case (revise rt t stored a p ev)
  let ?i = "proof_identity (tk_request t)"
  have old: "dpf_id (rec_current stored) = ?i \<Longrightarrow> gen_can_advance (gen_value (dpf_generation (rec_current stored)))"
    using revise.hyps(3) by (auto simp: exhausted_def)
  then have "gen_is_set (next_generation (rec_current stored))"
    using revise.hyps(3) by (auto simp: next_generation_def exhausted_def gen_next_set gen_is_set_def [of "Generation 1"])
  then have new: "record_ok ?i p" "dpf_id p = ?i" using revise.hyps(4) by (simp_all add: record_ok_def)
  show ?case
    unfolding records_ok_def
  proof (intro allI impI)
    fix j r
    assume r: "map_of (rt_proofs (index_revision ev p (put_record ?i (store_revision (max_history (rt_limits rt)) p stored) rt))) j = Some r"
    show "record_ok j (rec_current r) \<and> (id_valid (dpf_id (rec_current r)) \<longrightarrow>
        indexed (index_revision ev p (put_record ?i (store_revision (max_history (rt_limits rt)) p stored) rt)) j (rec_current r))"
    proof (cases "j = ?i")
      case True
      then have "rec_current r = p" using r by (auto simp: store_revision_def)
      then show ?thesis using new indexed_self [of ev p] True by simp
    next
      case False
      then have "map_of (rt_proofs rt) j = Some r" using r by simp
      then show ?thesis using records_okD [OF revise.prems] indexed_mono by auto
    qed
  qed
next
  case (transition rt i stored target reason)
  then show ?case by (blast intro: records_ok_put dims_transition)
next
  case (demote rt i stored cn detail)
  then show ?case by (blast intro: records_ok_put dims_demoted)
next
  case (forget_topology keep rt)
  then show ?case by (simp add: records_ok_def indexed_def om_members_filter) blast
next
  case (forget_domains keep rt)
  then show ?case by (simp add: records_ok_def indexed_def om_members_filter) blast
qed (auto simp: records_ok_def indexed_def record_ok_def empty_record_def)

lemma micro_inv: "micro rt rt' \<Longrightarrow> 0 < max_history (rt_limits rt) \<Longrightarrow> runtime_inv rt \<Longrightarrow> runtime_inv rt'"
  unfolding runtime_inv_def using micro_authority micro_bounded micro_policies micro_records by blast

lemma micros_limits: "micro\<^sup>*\<^sup>* rt rt' \<Longrightarrow> rt_limits rt' = rt_limits rt"
  by (induction rule: rtranclp_induct) (simp_all add: micro_limits)

lemma micros_inv:
  assumes "micro\<^sup>*\<^sup>* rt rt'" "0 < max_history (rt_limits rt)" "runtime_inv rt"
  shows "runtime_inv rt'"
  using assms by (induction rule: rtranclp_induct) (auto intro: micro_inv simp: micros_limits)

lemma new_runtime_inv: "authority_inv pub \<Longrightarrow> runtime_inv (new_runtime pub l)"
  by (simp add: runtime_inv_def new_runtime_def registry_bounded_def policies_ok_def records_ok_def om_sorted_def)

end
