(* ===== verification/RuntimeSteps.thy ===== *)
theory RuntimeSteps
  imports RuntimeInv
begin

text \<open>
  The public operations of the runtime as sequences of primitive updates, and the step relation of all of them
  but \<open>load\<close>.
\<close>

section \<open>Operations are sequences of primitive updates\<close>

lemmas micro_once = r_into_rtranclp [of micro]

lemma publication_micro: "authority_step (rt_publication rt) pub \<Longrightarrow> micro\<^sup>*\<^sup>* rt (rt\<lparr>rt_publication := pub\<rparr>)"
  by (rule micro_once [OF micro.publication]) (rule r_into_rtranclp)

lemma admit_attempt_snd: "snd (admit_attempt a payload rt) = rt\<lparr>rt_publication := snd (admit a payload (rt_publication rt))\<rparr>"
  by (simp add: admit_attempt_def split: prod.split)

lemma admit_attempt_fst: "fst (admit_attempt a payload rt) = fst (admit a payload (rt_publication rt))"
  by (simp add: admit_attempt_def split: prod.split)

lemma admit_attempt_micro: "admit_attempt a payload rt = (v, rt') \<Longrightarrow> micro\<^sup>*\<^sup>* rt rt'"
  using publication_micro [OF authority_step.admit, of rt a payload] admit_attempt_snd [of a payload rt] by simp

lemma release_micro: "micro\<^sup>*\<^sup>* rt (release_attempt a rt)"
  unfolding release_attempt_def by (rule publication_micro [OF authority_step.forget])

lemma count_micro: "micro\<^sup>*\<^sup>* rt rt' \<Longrightarrow> micro\<^sup>*\<^sup>* rt (count_stat f rt')"
  by (erule rtranclp.rtrancl_into_rtrancl) (rule micro.stats)

lemma refuse_micro: "micro\<^sup>*\<^sup>* rt (refuse a rt)"
  unfolding refuse_def by (rule count_micro) (rule release_micro)

lemma publish_admitted_micro: "micro\<^sup>*\<^sup>* rt (snd (publish_admitted p a rt))"
proof -
  let ?e = "map_of (rt_policies rt) (dp_id p)"
  have "micro rt (rt\<lparr>rt_policies := om_put (dp_id p) (p\<lparr>dp_generation := Generation 1\<rparr>) (rt_policies rt)\<rparr>)"
    if "?e = None" "length (rt_policies rt) < max_policies (rt_limits rt)"
    using micro.fresh_policy [of rt "p\<lparr>dp_generation := Generation 1\<rparr>"] that by simp
  moreover have "micro rt (rt\<lparr>rt_policies := om_put (dp_id p) (p\<lparr>dp_generation := gen_next (dp_generation q)\<rparr>) (rt_policies rt)\<rparr>)"
    if "?e = Some q" "gen_can_advance (gen_value (dp_generation q))" for q
    using micro.next_policy [of rt "p\<lparr>dp_generation := gen_next (dp_generation q)\<rparr>" q] that by simp
  ultimately show ?thesis
    by (cases ?e) (auto simp: publish_admitted_def Let_def not_le refuse_micro release_micro)
qed

lemma publish_policy_micro: "micro\<^sup>*\<^sup>* rt (snd (publish_policy p a rt))"
proof (cases "admit_attempt a (dp_semantic_digest p) rt")
  case (Pair v rt')
  have "micro\<^sup>*\<^sup>* rt' (snd (publish_policy p a rt))" if "pv_ok (validate_policy (dp_canonicalize p) (rt_limits rt))"
    using that by (auto simp: publish_policy_def Pair Let_def publish_admitted_micro count_micro split: option.split)
  moreover have "snd (publish_policy p a rt) = rt" if "\<not> pv_ok (validate_policy (dp_canonicalize p) (rt_limits rt))"
    using that by (simp add: publish_policy_def Let_def)
  ultimately show ?thesis using admit_attempt_micro [OF Pair] by (metis rtranclp.rtrancl_refl rtranclp_trans)
qed

lemma begin_micro: "micro\<^sup>*\<^sup>* rt (snd (begin_evaluation q a rt))"
proof (cases "admit_attempt a (rq_digest (snd (rq_canonicalize q))) rt")
  case (Pair v rt')
  obtain u c where c: "rq_canonicalize q = (u, c)" by fastforce
  have "micro\<^sup>*\<^sup>* rt' (snd (begin_evaluation q a rt))" if u
    using that Pair unfolding c by (auto simp: begin_evaluation_def c Let_def refuse_micro count_micro split: option.split)
  moreover have "snd (begin_evaluation q a rt) = rt" if "\<not> u"
    using that by (simp add: begin_evaluation_def c)
  ultimately show ?thesis using admit_attempt_micro [OF Pair] by (metis rtranclp.rtrancl_refl rtranclp_trans)
qed

lemma commit_guard_count [simp]: "commit_guard a t (count_stat f rt) = commit_guard a t rt"
  "commit_guard a t (put_record i r rt) = commit_guard a t rt"
  by (simp_all add: commit_guard_def)

lemma commit_record_micro:
  assumes "map_of (rt_proofs rt) (proof_identity (tk_request t)) = Some stored" "commit_guard a t rt = None"
  shows "micro\<^sup>*\<^sup>* rt (snd (commit_record a t fe stored rt))"
proof -
  have "micro\<^sup>*\<^sup>* rt (index_revision (settled_evaluation fe) p (put_record (proof_identity (tk_request t))
      (store_revision (max_history (rt_limits rt)) p stored) rt))"
    if "\<not> exhausted (rec_current stored)" "p = build_revision a t (settled_evaluation fe) (next_generation (rec_current stored))" for p
    by (rule micro_once) (rule micro.revise [OF assms that])
  then show ?thesis
    by (simp add: commit_record_def Let_def next_generation_def exhausted_def refuse_micro release_micro count_micro)
qed

lemma commit_micro: "micro\<^sup>*\<^sup>* rt (snd (commit_evaluation a t fe rt))"
proof (cases "commit_guard a t rt")
  case None
  let ?i = "proof_identity (tk_request t)"
  define rt1 where "rt1 = (if watermark_drift fe then count_stat inc_watermark rt else rt)"
  have rt1: "micro\<^sup>*\<^sup>* rt rt1" "commit_guard a t rt1 = None" "rt_proofs rt1 = rt_proofs rt" "rt_limits rt1 = rt_limits rt"
    using None by (auto simp: rt1_def intro: count_micro)
  have "micro\<^sup>*\<^sup>* rt1 (snd (commit_evaluation a t fe rt))"
  proof (cases "map_of (rt_proofs rt) ?i")
    case (Some stored)
    then have "snd (commit_evaluation a t fe rt) = snd (commit_record a t fe stored rt1)"
      by (simp add: commit_evaluation_def None rt1_def)
    then show ?thesis using commit_record_micro [of rt1 t stored a fe] rt1 Some by simp
  next
    case absent: None
    show ?thesis
    proof (cases "max_proofs (rt_limits rt) \<le> length (rt_proofs rt)")
      case True
      then have "snd (commit_evaluation a t fe rt) = refuse a rt1"
        by (simp add: commit_evaluation_def None absent rt1_def)
      then show ?thesis by (simp add: refuse_micro)
    next
      case False
      then have step: "micro rt1 (put_record ?i empty_record rt1)" using micro.reserve rt1 absent by simp
      have "snd (commit_evaluation a t fe rt) = snd (commit_record a t fe empty_record (put_record ?i empty_record rt1))"
        using False by (simp add: commit_evaluation_def None absent rt1_def)
      moreover have "micro\<^sup>*\<^sup>* (put_record ?i empty_record rt1) (snd (commit_record a t fe empty_record (put_record ?i empty_record rt1)))"
        by (rule commit_record_micro) (simp_all add: rt1)
      ultimately show ?thesis using step by (metis converse_rtranclp_into_rtranclp)
    qed
  qed
  with rt1(1) show ?thesis by (rule rtranclp_trans)
qed (simp add: commit_evaluation_def refuse_micro)

lemma transition_stored_micro:
  assumes "target \<noteq> LS_CURRENT"
  shows "micro\<^sup>*\<^sup>* rt (snd (transition_stored i a target reason rt))"
proof (cases "map_of (rt_proofs rt) i")
  case None
  then show ?thesis by (simp add: transition_stored_def release_micro)
next
  case (Some stored)
  have "micro\<^sup>*\<^sup>* rt (put_record i (transition_record (max_history (rt_limits rt)) target reason stored) rt)"
    if "lifecycle_transition_allowed (dpf_lifecycle (rec_current stored)) target"
    by (rule micro_once) (rule micro.transition [OF Some that assms])
  then show ?thesis by (simp add: transition_stored_def Some Let_def release_micro count_micro)
qed

lemma apply_lifecycle_micro:
  assumes "target \<noteq> LS_CURRENT"
  shows "micro\<^sup>*\<^sup>* rt (snd (apply_lifecycle i a target reason rt))"
proof (cases "admit_attempt a (lifecycle_payload i target) rt")
  case (Pair v rt')
  have "micro\<^sup>*\<^sup>* rt' (snd (apply_lifecycle i a target reason rt))"
    by (auto simp: apply_lifecycle_def Pair transition_stored_micro [OF assms] count_micro split: option.split)
  then show ?thesis using admit_attempt_micro [OF Pair] by (rule rtranclp_trans [rotated])
qed

section \<open>What a demotion loop does\<close>

definition hits :: "(diversity_proof \<Rightarrow> bool) \<Rightarrow> runtime \<Rightarrow> diversity_proof_id \<Rightarrow> bool" where
  "hits older rt j \<longleftrightarrow> (\<exists>r. map_of (rt_proofs rt) j = Some r \<and> is_current (rec_current r) \<and> older (rec_current r))"

definition demotes ::
  "(diversity_proof_id \<Rightarrow> proof_record \<Rightarrow> proof_record) \<Rightarrow> diversity_proof_id set \<Rightarrow> proof_ids \<times> runtime \<Rightarrow> proof_ids \<times> runtime \<Rightarrow> bool" where
  "demotes f S st st' \<longleftrightarrow> (\<exists>new. fst st' = fst st @ new \<and> distinct new \<and> set new = S) \<and>
     snd st' = (snd st)\<lparr>rt_proofs := rt_proofs (snd st'), rt_stats := rt_stats (snd st')\<rparr> \<and>
     (\<forall>j. map_of (rt_proofs (snd st')) j =
        (if j \<in> S then map_option (f j) (map_of (rt_proofs (snd st)) j) else map_of (rt_proofs (snd st)) j)) \<and>
     micro\<^sup>*\<^sup>* (snd st) (snd st')"


lemma demotesD:
  assumes "demotes f S st st'"
  shows "map_of (rt_proofs (snd st')) j = (if j \<in> S then map_option (f j) (map_of (rt_proofs (snd st)) j) else map_of (rt_proofs (snd st)) j)"
    "snd st' = (snd st)\<lparr>rt_proofs := rt_proofs (snd st'), rt_stats := rt_stats (snd st')\<rparr>"
    "micro\<^sup>*\<^sup>* (snd st) (snd st')"
  using assms unfolding demotes_def by blast+

lemma demotes_none: "demotes f {} st st"
  by (auto simp: demotes_def intro: exI [of _ "[]"])

lemma demotes_trans:
  assumes "demotes f S st st1" "demotes f T st1 st2" "S \<inter> T = {}"
  shows "demotes f (S \<union> T) st st2"
proof -
  obtain new new' where n: "fst st1 = fst st @ new" "distinct new" "set new = S"
    "fst st2 = fst st1 @ new'" "distinct new'" "set new' = T"
    using assms(1,2) unfolding demotes_def by blast
  then have "fst st2 = fst st @ (new @ new') \<and> distinct (new @ new') \<and> set (new @ new') = S \<union> T"
    using assms(3) by auto
  moreover have "snd st2 = (snd st)\<lparr>rt_proofs := rt_proofs (snd st2), rt_stats := rt_stats (snd st2)\<rparr>"
  proof -
    have "(snd st1)\<lparr>rt_proofs := x, rt_stats := y\<rparr> = (snd st)\<lparr>rt_proofs := x, rt_stats := y\<rparr>" for x y
      by (subst demotesD(2) [OF assms(1)]) simp
    with demotesD(2) [OF assms(2)] show ?thesis by (rule trans)
  qed
  moreover have "micro\<^sup>*\<^sup>* (snd st) (snd st2)"
    using demotesD(3) [OF assms(1)] demotesD(3) [OF assms(2)] by (rule rtranclp_trans)
  ultimately show ?thesis
    using assms(3) unfolding demotes_def
    by (auto simp: demotesD(1) [OF assms(1)] demotesD(1) [OF assms(2)])
qed

lemma demotes_hits:
  assumes "demotes f S st st'" "\<And>j r. \<not> is_current (rec_current (f j r))"
  shows "hits older (snd st') j \<longleftrightarrow> j \<notin> S \<and> hits older (snd st) j"
  using assms(2) by (auto simp: hits_def demotesD(1) [OF assms(1)])

lemma demote_fold:
  assumes step: "\<And>i st. demotes f {j. j = i \<and> sel j \<and> hits older (snd st) j} st (step i st)"
    and dead: "\<And>j r. \<not> is_current (rec_current (f j r))"
  shows "demotes f {j \<in> set ids. sel j \<and> hits older (snd st) j} st (fold step ids st)"
proof (induction ids arbitrary: st)
  case (Cons i ids)
  let ?S = "{j. j = i \<and> sel j \<and> hits older (snd st) j}"
  have T: "{j \<in> set ids. sel j \<and> hits older (snd (step i st)) j} = {j \<in> set ids. sel j \<and> hits older (snd st) j} - ?S"
    using demotes_hits [OF step dead] by blast
  have "demotes f (?S \<union> ({j \<in> set ids. sel j \<and> hits older (snd st) j} - ?S)) st (fold step (i # ids) st)"
    using demotes_trans [OF step [of i st] Cons.IH [of "step i st", unfolded T]] by auto
  moreover have "?S \<union> ({j \<in> set ids. sel j \<and> hits older (snd st) j} - ?S) = {j \<in> set (i # ids). sel j \<and> hits older (snd st) j}"
    by auto
  ultimately show ?case by simp
qed (simp add: demotes_none)

lemma demote_step_demotes:
  "demotes (\<lambda>j. demoted cn detail) {j. j = i \<and> hits older (snd st) j} st (demote_step older cn detail i st)"
proof (cases "map_of (rt_proofs (snd st)) i")
  case None
  then have "{j. j = i \<and> hits older (snd st) j} = {}" by (auto simp: hits_def)
  moreover from None have "demote_step older cn detail i st = st" by (cases st) (simp add: demote_step_def)
  ultimately show ?thesis by (simp only: demotes_none)
next
  case (Some stored)
  obtain acc rt where st: "st = (acc, rt)" by fastforce
  show ?thesis
  proof (cases "is_current (rec_current stored) \<and> older (rec_current stored)")
    case True
    then have S: "{j. j = i \<and> hits older (snd st) j} = {i}" using Some by (auto simp: hits_def)
    have "micro rt (put_record i (demoted cn detail stored) rt)" using Some True st by (intro micro.demote) auto
    then have "micro\<^sup>*\<^sup>* rt (count_stat inc_demotions (put_record i (demoted cn detail stored) rt))"
      by (intro count_micro) (rule micro_once)
    then show ?thesis using True Some unfolding S
      by (auto simp: st demote_step_def demotes_def count_stat_def put_record_def intro: exI [of _ "[i]"])
  next
    case False
    then have "{j. j = i \<and> hits older (snd st) j} = {}" using Some by (auto simp: hits_def)
    moreover have "demote_step older cn detail i st = st" using False Some by (auto simp: st demote_step_def)
    ultimately show ?thesis by (simp only: demotes_none)
  qed
qed

lemma demote_step_fold:
  "demotes (\<lambda>j. demoted cn detail) {j \<in> set ids. hits older (snd st) j} st (fold (demote_step older cn detail) ids st)"
  using demote_fold [where f = "\<lambda>j. demoted cn detail" and sel = "\<lambda>j. True" and older = older and st = st
      and step = "demote_step older cn detail" and ids = ids]
  by (simp add: demote_step_demotes is_current_record)

definition refresh_currentness_of :: "proof_ids \<Rightarrow> diversity_proof_id \<Rightarrow> proof_record \<Rightarrow> proof_record" where
  "refresh_currentness_of stale_policies j =
     (if j \<in> set stale_policies then demoted CN_STALE_POLICY ''the policy generation moved past this proof''
      else demoted CN_STALE_PATH_AUTHORITY ''Path Authority moved past this proof binding'')"

lemma demotes_cong: "demotes f S st st' \<Longrightarrow> (\<And>j. j \<in> S \<Longrightarrow> f j = g j) \<Longrightarrow> demotes g S st st'"
  unfolding demotes_def by auto

lemma refresh_step_demotes:
  "demotes (refresh_currentness_of sp) {j. j = i \<and> j \<in> set sp \<union> set sq \<and> hits (\<lambda>p. True) (snd st) j} st (refresh_step sp sq i st)"
proof -
  have *: "{j. j = i \<and> j \<in> set sp \<union> set sq \<and> hits (\<lambda>p. True) (snd st) j} =
      (if i \<in> set sp \<union> set sq then {j. j = i \<and> hits (\<lambda>p. True) (snd st) j} else {})"
    by auto
  have "demotes (refresh_currentness_of sp) {j. j = i \<and> hits (\<lambda>p. True) (snd st) j} st (demote_step (\<lambda>p. True) cn detail i st)"
    if "refresh_currentness_of sp i = demoted cn detail" for cn detail
    by (rule demotes_cong [OF demote_step_demotes]) (use that in auto)
  then show ?thesis unfolding * by (auto simp: refresh_step_def demotes_none refresh_currentness_of_def)
qed

lemma refresh_fold:
  "demotes (refresh_currentness_of sp) {j \<in> set ids. j \<in> set sp \<union> set sq \<and> hits (\<lambda>p. True) (snd st) j} st (fold (refresh_step sp sq) ids st)"
proof (rule demote_fold [OF refresh_step_demotes])
  show "\<not> is_current (rec_current (refresh_currentness_of sp j r))" for j r
    by (simp add: refresh_currentness_of_def is_current_record)
qed

lemma demote_older_eq:
  "demote_older g cn detail index st =
     (filter (\<lambda>e. \<not> fst e < g) index, fold (demote_step (\<lambda>p. True) cn detail) (concat (map snd (filter (\<lambda>e. fst e < g) index))) st)"
  by (induction g cn detail index st rule: demote_older.induct) (simp_all add: Let_def)


section \<open>What each invalidation does\<close>

text \<open>The observable effect of an invalidation: the proofs in \<open>S\<close> are reported in order and demoted, every other
  record, the policies, the publication authority and the identity indexes are left alone.\<close>

definition demotes_exactly ::
  "(diversity_proof_id \<Rightarrow> proof_record \<Rightarrow> proof_record) \<Rightarrow> diversity_proof_id set \<Rightarrow> runtime \<Rightarrow> proof_ids \<times> runtime \<Rightarrow> bool" where
  "demotes_exactly f S rt res \<longleftrightarrow>
     sorted_wrt (<) (fst res) \<and> set (fst res) = S \<and>
     (\<forall>j. map_of (rt_proofs (snd res)) j = (if j \<in> S then map_option (f j) (map_of (rt_proofs rt) j) else map_of (rt_proofs rt) j)) \<and>
     rt_policies (snd res) = rt_policies rt \<and> rt_publication (snd res) = rt_publication rt \<and>
     rt_by_path (snd res) = rt_by_path rt \<and> rt_by_domain (snd res) = rt_by_domain rt \<and>
     rt_by_risk_group (snd res) = rt_by_risk_group rt \<and> rt_by_entity (snd res) = rt_by_entity rt \<and>
     rt_by_policy (snd res) = rt_by_policy rt \<and> rt_by_boot (snd res) = rt_by_boot rt"

lemma finish_exactly:
  assumes "demotes f S ([], rt) (aff, rt')"
  shows "demotes_exactly f S rt (finish_demotion (aff, rt'\<lparr>rt_by_topology := x, rt_by_failure_domain := y\<rparr>))"
proof -
  have n: "distinct aff" "set aff = S" using assms by (auto simp: demotes_def)
  have frame: "rt' = rt\<lparr>rt_proofs := rt_proofs rt', rt_stats := rt_stats rt'\<rparr>" using demotesD(2) [OF assms] by simp
  have "rt_policies rt' = rt_policies rt" "rt_publication rt' = rt_publication rt" "rt_by_path rt' = rt_by_path rt"
    "rt_by_domain rt' = rt_by_domain rt" "rt_by_risk_group rt' = rt_by_risk_group rt" "rt_by_entity rt' = rt_by_entity rt"
    "rt_by_policy rt' = rt_by_policy rt" "rt_by_boot rt' = rt_by_boot rt"
    by (subst frame, simp)+
  with n demotesD(1) [OF assms] show ?thesis
    by (simp add: demotes_exactly_def finish_demotion_def sort_strict_iff)
qed

lemma finish_exactly':
  assumes "demotes f S ([], rt) st"
  shows "demotes_exactly f S rt (finish_demotion st)"
  using finish_exactly [where aff = "fst st" and rt' = "snd st" and x = "rt_by_topology (snd st)" and y = "rt_by_failure_domain (snd st)"] assms by simp

lemma finish_micro: "micro\<^sup>*\<^sup>* rt (snd st) \<Longrightarrow> micro\<^sup>*\<^sup>* rt (snd (finish_demotion st))"
  by (cases st) (simp add: finish_demotion_def count_micro)

lemma demote_all_exactly:
  "demotes_exactly (\<lambda>j. demoted cn detail) {j \<in> set ids. hits older rt j} rt (demote_all older cn detail ids rt)"
  using finish_exactly' [OF demote_step_fold [of cn detail ids older "([], rt)"]] by (simp add: demote_all_def)

lemma demote_all_micro: "micro\<^sup>*\<^sup>* rt (snd (demote_all older cn detail ids rt))"
  using finish_micro demotesD(3) [OF demote_step_fold [of cn detail ids older "([], rt)"]] by (simp add: demote_all_def)

lemma set_gather: "set (gather_members index keys) = (\<Union>k\<in>set keys. set (om_members index k))"
proof -
  have "set (fold (\<lambda>k c. os_union (om_members index k) c) keys acc) = set acc \<union> (\<Union>k\<in>set keys. set (om_members index k))" for acc
    by (induction keys arbitrary: acc) auto
  then show ?thesis by (simp add: gather_members_def)
qed

lemma demotes_exactly_none: "demotes_exactly f {} rt ([], count_stat g rt)"
  by (simp add: demotes_exactly_def)

abbreviation yes :: "diversity_proof \<Rightarrow> bool" where "yes \<equiv> (\<lambda>p. True)"

lemma demote_path_exactly:
  "demotes_exactly (\<lambda>j. demoted CN_STALE_PATH_AUTHORITY ''Path Authority changed for a path this proof binds; revalidation is required'')
     {j \<in> set (om_members (rt_by_path rt) path). hits yes rt j} rt (demote_path path rt)"
  by (cases "map_of (rt_by_path rt) path")
    (simp_all add: demote_path_def om_members_def demotes_exactly_none demote_all_exactly)

lemma demote_policy_exactly:
  "demotes_exactly (\<lambda>j. demoted CN_STALE_POLICY ''the policy advanced past the generation this proof was evaluated against'')
     {j \<in> set (om_members (rt_by_policy rt) policy). hits (\<lambda>p. db_policy_generation (dpf_dependencies p) < g) rt j} rt
     (demote_policy policy g rt)"
  by (cases "map_of (rt_by_policy rt) policy")
    (simp_all add: demote_policy_def om_members_def demotes_exactly_none demote_all_exactly)

lemma demote_boot_exactly:
  "demotes_exactly (\<lambda>j. demoted CN_FENCED_PUBLISHER ''the publishing worker boot was fenced; live authority for this proof is gone'')
     {j \<in> set (om_members (rt_by_boot rt) boot). hits yes rt j} rt (demote_boot boot rt)"
  by (cases "map_of (rt_by_boot rt) boot")
    (simp_all add: demote_boot_def om_members_def demotes_exactly_none demote_all_exactly)

lemma demote_entities_exactly:
  "demotes_exactly (\<lambda>j. demoted CN_STALE_TOPOLOGY ''topology changed for an entity this proof depends on'')
     {j \<in> (\<Union>e\<in>set entities. set (om_members (rt_by_entity rt) e)). hits (\<lambda>p. db_topology_generation (dpf_dependencies p) < g) rt j} rt
     (demote_topology_entities entities g rt)"
  unfolding demote_topology_entities_def set_gather [symmetric] by (rule demote_all_exactly)

lemma demote_domains_exactly:
  "demotes_exactly (\<lambda>j. demoted CN_STALE_FAILURE_DOMAIN ''failure-domain membership changed for a domain this proof consulted'')
     {j \<in> (\<Union>d\<in>set domains. set (om_members (rt_by_domain rt) d)). hits (\<lambda>p. db_failure_domain_generation (dpf_dependencies p) < g) rt j} rt
     (demote_domains domains g rt)"
  unfolding demote_domains_def set_gather [symmetric] by (rule demote_all_exactly)

lemma invalidation_micro:
  "micro\<^sup>*\<^sup>* rt (snd (demote_path path rt))" "micro\<^sup>*\<^sup>* rt (snd (demote_policy policy pg rt))"
  "micro\<^sup>*\<^sup>* rt (snd (demote_boot boot rt))" "micro\<^sup>*\<^sup>* rt (snd (demote_topology_entities entities tg rt))"
  "micro\<^sup>*\<^sup>* rt (snd (demote_domains domains dg rt))"
  by (auto simp: demote_path_def demote_policy_def demote_boot_def demote_topology_entities_def demote_domains_def
      demote_all_micro count_micro split: option.split)

text \<open>The buckets of the older generations, as the loop sees them.\<close>

definition older_members :: "'g::linorder \<Rightarrow> ('g, proof_ids) omap \<Rightarrow> diversity_proof_id set" where
  "older_members g index = \<Union> (set ` snd ` {e \<in> set index. fst e < g})"

lemma older_members_bucket: "k < g \<Longrightarrow> j \<in> set (om_members index k) \<Longrightarrow> j \<in> older_members g index"
  by (cases "map_of index k") (force simp: older_members_def om_members_def dest: map_of_SomeD)+

lemma demotes_frame:
  assumes "demotes f S st st'"
  shows "rt_by_topology (snd st') = rt_by_topology (snd st)" "rt_by_failure_domain (snd st') = rt_by_failure_domain (snd st)"
    "rt_publication (snd st') = rt_publication (snd st)"
  by (subst demotesD(2) [OF assms], simp)+

lemma demote_older_result:
  assumes "demote_older g cn detail index ([], rt) = (kept, st)"
  shows "kept = filter (\<lambda>e. \<not> fst e < g) index"
    "demotes (\<lambda>j. demoted cn detail) {j \<in> older_members g index. hits yes rt j} ([], rt) st"
    "k < g \<Longrightarrow> j \<in> set (om_members index k) \<Longrightarrow> map_of (rt_proofs (snd st)) j = Some r \<Longrightarrow> \<not> is_current (rec_current r)"
proof -
  let ?ids = "concat (map snd (filter (\<lambda>e. fst e < g) index))"
  have ids: "set ?ids = older_members g index" by (auto simp: older_members_def)
  show "kept = filter (\<lambda>e. \<not> fst e < g) index" using assms by (simp add: demote_older_eq)
  have "st = fold (demote_step yes cn detail) ?ids ([], rt)" using assms by (simp add: demote_older_eq)
  then show d: "demotes (\<lambda>j. demoted cn detail) {j \<in> older_members g index. hits yes rt j} ([], rt) st"
    using demote_step_fold [of cn detail ?ids yes "([], rt)"] by (simp only: ids snd_conv)
  assume "k < g" "j \<in> set (om_members index k)" and r: "map_of (rt_proofs (snd st)) j = Some r"
  from this(1,2) have "j \<in> older_members g index" by (rule older_members_bucket)
  then have "\<not> hits yes (snd st) j" using demotes_hits [OF d] by (simp add: is_current_record)
  with r show "\<not> is_current (rec_current r)" by (simp add: hits_def)
qed

lemma demote_topology_exactly:
  "demotes_exactly (\<lambda>j. demoted CN_STALE_TOPOLOGY ''topology advanced past the generation this proof was evaluated against'')
     {j \<in> older_members g (rt_by_topology rt). hits yes rt j} rt (demote_topology_generation g rt)"
  "micro\<^sup>*\<^sup>* rt (snd (demote_topology_generation g rt))"
proof -
  obtain kept aff rt' where o: "demote_older g CN_STALE_TOPOLOGY
      ''topology advanced past the generation this proof was evaluated against'' (rt_by_topology rt) ([], rt) = (kept, aff, rt')"
    using prod_cases3 by blast
  note r = demote_older_result [OF o]
  have res: "demote_topology_generation g rt = finish_demotion (aff, rt'\<lparr>rt_by_topology := kept\<rparr>)"
    by (simp add: demote_topology_generation_def o)
  show "demotes_exactly (\<lambda>j. demoted CN_STALE_TOPOLOGY ''topology advanced past the generation this proof was evaluated against'')
      {j \<in> older_members g (rt_by_topology rt). hits yes rt j} rt (demote_topology_generation g rt)"
    using finish_exactly [OF r(2), where x = kept and y = "rt_by_failure_domain rt'"] by (simp add: res)
  have "micro rt' (rt'\<lparr>rt_by_topology := filter (\<lambda>e. \<not> fst e < g) (rt_by_topology rt')\<rparr>)"
    by (rule micro.forget_topology) (use r(3) demotes_frame [OF r(2)] in simp)
  with demotesD(3) [OF r(2)] demotes_frame [OF r(2)] r(1) show "micro\<^sup>*\<^sup>* rt (snd (demote_topology_generation g rt))"
    unfolding res by (intro finish_micro) simp
qed

lemma demote_failure_domain_exactly:
  "demotes_exactly (\<lambda>j. demoted CN_STALE_FAILURE_DOMAIN ''failure-domain classification advanced past the generation this proof bound'')
     {j \<in> older_members g (rt_by_failure_domain rt). hits yes rt j} rt (demote_failure_domain_generation g rt)"
  "micro\<^sup>*\<^sup>* rt (snd (demote_failure_domain_generation g rt))"
proof -
  obtain kept aff rt' where o: "demote_older g CN_STALE_FAILURE_DOMAIN
      ''failure-domain classification advanced past the generation this proof bound'' (rt_by_failure_domain rt) ([], rt) = (kept, aff, rt')"
    using prod_cases3 by blast
  note r = demote_older_result [OF o]
  have res: "demote_failure_domain_generation g rt = finish_demotion (aff, rt'\<lparr>rt_by_failure_domain := kept\<rparr>)"
    by (simp add: demote_failure_domain_generation_def o)
  show "demotes_exactly (\<lambda>j. demoted CN_STALE_FAILURE_DOMAIN ''failure-domain classification advanced past the generation this proof bound'')
      {j \<in> older_members g (rt_by_failure_domain rt). hits yes rt j} rt (demote_failure_domain_generation g rt)"
    using finish_exactly [OF r(2), where x = "rt_by_topology rt'" and y = kept] by (simp add: res)
  have "micro rt' (rt'\<lparr>rt_by_failure_domain := filter (\<lambda>e. \<not> fst e < g) (rt_by_failure_domain rt')\<rparr>)"
    by (rule micro.forget_domains) (use r(3) demotes_frame [OF r(2)] in simp)
  with demotesD(3) [OF r(2)] demotes_frame [OF r(2)] r(1) show "micro\<^sup>*\<^sup>* rt (snd (demote_failure_domain_generation g rt))"
    unfolding res by (intro finish_micro) simp
qed

lemma apply_refresh_exactly:
  "demotes_exactly (refresh_currentness_of sp) {j \<in> set live. j \<in> set sp \<union> set sq \<and> hits yes rt j} rt (apply_refresh live sp sq rt)"
  "micro\<^sup>*\<^sup>* rt (snd (apply_refresh live sp sq rt))"
  using finish_exactly' [OF refresh_fold [of sp live sq "([], rt)", unfolded snd_conv]]
    finish_micro [OF demotesD(3) [OF refresh_fold [of sp live sq "([], rt)"], unfolded snd_conv]]
  by (simp_all add: apply_refresh_def)

section \<open>Runs\<close>

text \<open>One critical section of a public operation other than \<open>load\<close>, which \<open>RuntimeLife\<close> adds, or a change of the shared
  publication authority by its owner.
  An evaluation is two steps with the unlocked evaluation between them; \<open>commit\<close> takes whatever that evaluation
  produced. \<open>refresh\<close> takes whatever the unlocked questions found.\<close>

inductive runtime_step :: "runtime \<Rightarrow> runtime \<Rightarrow> bool" where
  publish: "runtime_step rt (snd (publish_policy p a rt))"
| begin_evaluation: "runtime_step rt (snd (begin_evaluation q a rt))"
| commit: "runtime_step rt (snd (commit_evaluation a t fe rt))"
| revoke: "runtime_step rt (snd (revoke i a reason rt))"
| retire: "runtime_step rt (snd (retire i a reason rt))"
| historical: "runtime_step rt (snd (mark_historical i a reason rt))"
| supersede: "runtime_step rt (snd (supersede i a rt))"
| entities: "runtime_step rt (snd (demote_topology_entities es tg rt))"
| topology: "runtime_step rt (snd (demote_topology_generation tg rt))"
| domain_generation: "runtime_step rt (snd (demote_failure_domain_generation dg rt))"
| domains: "runtime_step rt (snd (demote_domains ds dg rt))"
| path: "runtime_step rt (snd (demote_path path rt))"
| policy: "runtime_step rt (snd (demote_policy policy pg rt))"
| boot: "runtime_step rt (snd (demote_boot boot rt))"
| refresh: "runtime_step rt (snd (apply_refresh live sp sq rt))"
| register: "runtime_step rt (snd (rt_register_publisher session rt))"
| fence: "runtime_step rt (fence_publication boot rt)"
| publication: "authority_step (rt_publication rt) pub \<Longrightarrow> runtime_step rt (rt\<lparr>rt_publication := pub\<rparr>)"

lemma register_snd: "snd (rt_register_publisher s rt) = rt\<lparr>rt_publication := snd (register_publisher s (rt_publication rt))\<rparr>"
  by (simp add: rt_register_publisher_def split: prod.split)

lemma runtime_step_micro: "runtime_step rt rt' \<Longrightarrow> micro\<^sup>*\<^sup>* rt rt'"
  by (erule runtime_step.cases)
    (simp_all add: publish_policy_micro begin_micro commit_micro revoke_def retire_def mark_historical_def supersede_def
      apply_lifecycle_micro invalidation_micro demote_topology_exactly(2) demote_failure_domain_exactly(2)
      apply_refresh_exactly(2) register_snd fence_publication_def publication_micro authority_step.register
      authority_step.fence)

lemma runtime_steps_micro: "runtime_step\<^sup>*\<^sup>* rt rt' \<Longrightarrow> micro\<^sup>*\<^sup>* rt rt'"
  by (induction rule: rtranclp_induct) (auto intro: rtranclp_trans runtime_step_micro)

text \<open>The composed operations are runs.\<close>

lemma evaluate_steps: "runtime_step\<^sup>*\<^sup>* rt (snd (evaluate before behind q a rt))"
proof (cases "begin_evaluation q a rt")
  case (Pair r rt')
  have b: "runtime_step rt rt'" using runtime_step.begin_evaluation [of rt q a] Pair by simp
  show ?thesis
  proof (cases r)
    case (Inl m)
    then show ?thesis using b by (simp add: evaluate_def Pair r_into_rtranclp)
  next
    case (Inr t)
    then have "snd (evaluate before behind q a rt) = snd (commit_evaluation a t (run_evaluation (rt_limits rt') before behind t) rt')"
      by (simp add: evaluate_def Pair)
    then show ?thesis using b runtime_step.commit by (metis converse_rtranclp_into_rtranclp r_into_rtranclp)
  qed
qed

lemma revalidate_steps: "runtime_step\<^sup>*\<^sup>* rt (snd (revalidate before behind i a rt))"
  by (simp add: revalidate_def evaluate_steps split: option.split)

lemma evaluate_elements_steps: "runtime_step\<^sup>*\<^sup>* rt (snd (evaluate_elements vs i qs a rt))"
proof (induction qs arbitrary: i rt)
  case (Cons q qs)
  show ?case
  proof (cases "batch_attempt a i")
    case (Inr b)
    obtain r rt1 where e: "evaluate (fst (vs i)) (snd (vs i)) q b rt = (r, rt1)" by fastforce
    obtain rs rt2 where es: "evaluate_elements vs (Suc i) qs a rt1 = (rs, rt2)" by fastforce
    have "runtime_step\<^sup>*\<^sup>* rt rt1" "runtime_step\<^sup>*\<^sup>* rt1 rt2"
      using evaluate_steps [of rt "fst (vs i)" "snd (vs i)" q b] e Cons.IH [of rt1 "Suc i"] es by simp_all
    then show ?thesis by (auto simp: Inr e es split: sum.split)
  qed simp
qed simp

lemma evaluate_batch_steps: "runtime_step\<^sup>*\<^sup>* rt (snd (evaluate_batch vs qs a rt))"
  using evaluate_elements_steps [of rt vs 0 "take (min (length qs) (max_batch_size (rt_limits rt))) qs" a]
  by (auto simp: evaluate_batch_def Let_def split: prod.split sum.split)

lemma fence_boot_steps: "runtime_step\<^sup>*\<^sup>* rt (snd (rt_fence_boot b rt))"
  unfolding rt_fence_boot_def by (meson runtime_step.fence runtime_step.boot converse_rtranclp_into_rtranclp r_into_rtranclp)

lemma refresh_steps: "runtime_step\<^sup>*\<^sup>* rt (snd (refresh_currentness v rt))"
  unfolding refresh_currentness_def by (rule r_into_rtranclp) (rule runtime_step.refresh)

end
