(* ===== verification/Codec.thy ===== *)
theory Codec
  imports PathSet
begin

text \<open>
  The reading helpers that the record decoders of \<open>src/persistence_records.cpp\<close> and the payload decoders of
  \<open>src/wire.cpp\<close> share, and the contract of a codec: what it encodes it decodes, whatever bytes follow, and what
  it decodes it could have encoded. The locale carries the contract from a record to bounded lists of it;
  every enumeration with a wire encoding is a codec.
\<close>

section \<open>Helpers\<close>

text \<open>\<open>fail\<close> of the record decoders: the reader fails with INVALID_ENCODING and the exact reason is attached.\<close>

definition refused :: "persistence_status \<Rightarrow> decode_error" where
  "refused reason = (DS_INVALID_ENCODING, reason)"

definition exceeds_u32 :: "u64 \<Rightarrow> bool" where
  "exceeds_u32 v \<longleftrightarrow> 2 ^ 32 - 1 < unat v"

text \<open>An identity: text within the configured and the type's own length, accepted by the identity parser.\<close>

definition read_id :: "limits \<Rightarrow> nat \<Rightarrow> 'tag string_id parser" where
  "read_id l max_len =
     pbind (get_text (if max_identity_length l < max_len then max_identity_length l else max_len)) (\<lambda>t.
     case id_from_wire max_len t of
       None \<Rightarrow> (\<lambda>bs. Inl (refused PS_MALFORMED_IDENTITY))
     | Some i \<Rightarrow> preturn i)"

definition write_id :: "'tag string_id \<Rightarrow> bytes" where
  "write_id i = put_text (id_view i)"

text \<open>A count: the value is at most a 32-bit bound, so the cast to 32 bits keeps it.\<close>

definition read_count :: "nat \<Rightarrow> nat parser" where
  "read_count max_allowed = pbind get_varint (\<lambda>v.
     pguard (\<not> max_allowed < unat v) (DS_LIMIT_EXCEEDED, PS_OK) (preturn (unat v)))"

primrec get_many :: "nat \<Rightarrow> ('e, 'a) reading \<Rightarrow> ('e, 'a list) reading" where
  "get_many 0 p = preturn []"
| "get_many (Suc n) p = pbind p (\<lambda>x. pbind (get_many n p) (\<lambda>xs. preturn (x # xs)))"

definition get_list :: "nat \<Rightarrow> 'a parser \<Rightarrow> 'a list parser" where
  "get_list bound p = pbind (read_count bound) (\<lambda>n. get_many n p)"

definition put_list :: "('a \<Rightarrow> bytes) \<Rightarrow> 'a list \<Rightarrow> bytes" where
  "put_list put xs = put_varint (of_nat (length xs)) @ concat (map put xs)"

text \<open>One byte checked against an enumeration and cast.\<close>

definition read_enum :: "(u8 \<Rightarrow> bool) \<Rightarrow> (u8 \<Rightarrow> 'a option) \<Rightarrow> 'a parser" where
  "read_enum is_defined of_code = pbind get_u8 (\<lambda>raw.
     pguard (is_defined raw) (refused PS_INVALID_ENUM) (preturn (the (of_code raw))))"

text \<open>A 32-bit number encoded as a varint.\<close>

definition read_index :: "nat parser" where
  "read_index = pbind get_varint (\<lambda>v.
     pguard (\<not> exceeds_u32 v) (refused PS_ARITHMETIC_OVERFLOW) (preturn (unat v)))"

definition put_index :: "nat \<Rightarrow> bytes" where
  "put_index i = put_varint (of_nat i)"

definition read_generation :: "'tag generation parser" where
  "read_generation = pbind get_u64 (\<lambda>v. preturn (Generation v))"

definition put_generation :: "'tag generation \<Rightarrow> bytes" where
  "put_generation g = put_u64 (gen_value g)"

section \<open>What a text field, a list and an identity can hold\<close>

definition text_fits :: "nat \<Rightarrow> string \<Rightarrow> bool" where
  "text_fits bound t \<longleftrightarrow> length t \<le> bound \<and> length t < 2 ^ 64"

definition list_fits :: "nat \<Rightarrow> ('a \<Rightarrow> bool) \<Rightarrow> 'a list \<Rightarrow> bool" where
  "list_fits bound ok xs \<longleftrightarrow> length xs \<le> bound \<and> length xs < 2 ^ 64 \<and> list_all ok xs"

definition id_fits :: "limits \<Rightarrow> nat \<Rightarrow> 'tag string_id \<Rightarrow> bool" where
  "id_fits l max_len i \<longleftrightarrow>
     valid_identity_text (id_view i) max_len \<and> length (id_view i) \<le> max_identity_length l \<and> length (id_view i) < 2 ^ 64"

definition index_fits :: "nat \<Rightarrow> bool" where
  "index_fits i \<longleftrightarrow> i < 2 ^ 32"

lemma exceeds_u32_iff: "exceeds_u32 v \<longleftrightarrow> \<not> index_fits (unat v)"
  by (simp add: exceeds_u32_def index_fits_def) arith

section \<open>The contract of a codec\<close>

named_theorems codec_ok

text \<open>An encoding is read back by its reader, whatever follows it. Reading as many records as were written works
  for any reader; counted lists belong to the record decoders.\<close>

locale encoding =
  fixes put :: "'a \<Rightarrow> bytes"
    and get :: "('e, 'a) reading"
    and ok :: "'a \<Rightarrow> bool"
  assumes decode_encode [codec_simps]: "ok x \<Longrightarrow> get (put x @ rest) = Inr (x, rest)"
begin

lemma encode_prefix_free: "ok x \<Longrightarrow> ok y \<Longrightarrow> put x @ r = put y @ s \<longleftrightarrow> x = y \<and> r = s"
  by (metis Inr_inject decode_encode prod.inject)

lemma encode_inject: "ok x \<Longrightarrow> ok y \<Longrightarrow> put x = put y \<longleftrightarrow> x = y"
  using encode_prefix_free [of x y "[]" "[]"] by simp

lemma get_many_put: "list_all ok xs \<Longrightarrow> get_many (length xs) get (concat (map put xs) @ rest) = Inr (xs, rest)"
  by (induction xs) (simp_all add: decode_encode pbind_Inr preturn_simp)

end

locale record_encoding = encoding put get ok
  for put :: "'a \<Rightarrow> bytes"
    and get :: "'a parser"
    and ok :: "'a \<Rightarrow> bool"
begin

lemma list_decode_encode [codec_simps]:
  "list_fits bound ok xs \<Longrightarrow> get_list bound get (put_list put xs @ rest) = Inr (xs, rest)"
  by (simp add: get_list_def put_list_def list_fits_def read_count_def get_varint_put pbind_Inr pguard_True preturn_simp
      unat_of_nat get_many_put)

end

text \<open>A codec reads back everything it can read, and nothing else.\<close>

locale codec = record_encoding +
  assumes decode_ok [codec_ok]: "get bs = Inr (x, rest) \<Longrightarrow> ok x"
begin

lemma roundtrip_iff: "get (put x @ rest) = Inr (x, rest) \<longleftrightarrow> ok x"
  by (rule iffI) (erule decode_ok, erule decode_encode)

lemma get_many_ok: "get_many n get bs = Inr (xs, rest) \<Longrightarrow> length xs = n \<and> list_all ok xs"
  by (induction n arbitrary: bs xs) (auto simp: parser_success dest: decode_ok)

lemma list_decode_ok [codec_ok]: "get_list bound get bs = Inr (xs, rest) \<Longrightarrow> list_fits bound ok xs"
proof -
  assume "get_list bound get bs = Inr (xs, rest)"
  then obtain v :: u64 and mid where "\<not> bound < unat v" "get_many (unat v) get mid = Inr (xs, rest)"
    by (auto simp: get_list_def read_count_def parser_success)
  moreover have "unat v < 2 ^ 64" using unsigned_less [of v] by simp
  ultimately show ?thesis using get_many_ok by (auto simp: list_fits_def)
qed

lemma list_codec: "codec (put_list put) (get_list bound get) (list_fits bound ok)"
  by unfold_locales (fact list_decode_encode, fact list_decode_ok)

end

sublocale wire_enum < enum: codec "\<lambda>x. put_u8 (code x)" "read_enum is_defined of_code" "\<lambda>x. True"
  by unfold_locales (simp_all add: read_enum_def codec_simps)

section \<open>The basic codecs\<close>

interpretation u8_codec: codec put_u8 get_u8 "\<lambda>x. True"
  by unfold_locales (simp_all add: codec_simps)

interpretation u64_codec: codec put_u64 get_u64 "\<lambda>x. True"
  by unfold_locales (simp_all add: codec_simps)

interpretation boolean_codec: codec put_boolean get_boolean "\<lambda>x. True"
  by unfold_locales (simp_all add: codec_simps)

interpretation generation_codec: codec put_generation read_generation "\<lambda>x. True"
  by unfold_locales (simp_all add: codec_simps put_generation_def read_generation_def)

lemma get_bytes_length: "get_bytes m bs = Inr (xs, rest) \<Longrightarrow> length xs \<le> m \<and> length xs < 2 ^ 64"
proof -
  assume "get_bytes m bs = Inr (xs, rest)"
  then obtain v :: u64 and mid where "get_varint bs = Inr (v, mid)" "unat v \<le> m" "unat v \<le> length mid" "xs = take (unat v) mid"
    by (auto simp: get_bytes_def parser_success not_less split: if_splits)
  moreover have "unat v < 2 ^ 64" using unsigned_less [of v] by simp
  ultimately show ?thesis by simp
qed

interpretation text_codec: codec put_text "get_text bound" "text_fits bound" for bound
proof unfold_locales
  show "text_fits bound x \<Longrightarrow> get_text bound (put_text x @ rest) = Inr (x, rest)" for x rest
    by (simp add: text_fits_def get_text_def put_text_def get_bytes_def put_bytes_def codec_simps unat_of_nat comp_def pbind_def)
  show "get_text bound bs = Inr (x, rest) \<Longrightarrow> text_fits bound x" for bs x rest
    by (auto simp: get_text_def parser_success text_fits_def dest: get_bytes_length)
qed

interpretation index_codec: codec put_index read_index index_fits
proof unfold_locales
  show "index_fits x \<Longrightarrow> read_index (put_index x @ rest) = Inr (x, rest)" for x rest
    by (simp add: put_index_def read_index_def codec_simps exceeds_u32_iff unat_of_nat index_fits_def)
  show "read_index bs = Inr (x, rest) \<Longrightarrow> index_fits x" for bs x rest
    by (auto simp: read_index_def parser_success exceeds_u32_iff)
qed

interpretation id_codec: codec write_id "read_id l max_len" "id_fits l max_len" for l max_len
proof unfold_locales
  show "id_fits l max_len x \<Longrightarrow> read_id l max_len (write_id x @ rest) = Inr (x, rest)" for x :: "'b string_id" and rest
  proof -
    assume x: "id_fits l max_len x"
    then have "try_parse max_len (id_view x) = Some x" "text_fits max_len (id_view x)"
      by (simp_all add: id_fits_def try_parse_Some valid_identity_text_length text_fits_def)
    then show ?thesis using x
      by (simp add: read_id_def write_id_def codec_simps id_from_wire_def id_fits_def text_fits_def)
  qed
  show "read_id l max_len bs = Inr (x, rest) \<Longrightarrow> id_fits l max_len x" for bs rest and x :: "'b string_id"
    by (auto simp: read_id_def parser_success id_fits_def id_from_wire_def try_parse_None try_parse_Some text_fits_def dest!: text_codec.decode_ok
        split: if_splits option.splits)
qed

lemma get_varint_put_index [codec_simps]: "get_varint (put_index i @ rest) = Inr (of_nat i, rest)"
  by (simp add: put_index_def codec_simps)

lemma index_fits_u64 [codec_simps]: "index_fits i \<Longrightarrow> unat (of_nat i :: u64) = i"
  by (simp add: index_fits_def unat_of_nat)

lemma put_indices_list: "put_indices = put_list put_index"
  by (rule ext) (simp add: put_indices_def put_list_def put_index_def [abs_def])

end
