(* ===== verification/Records.thy ===== *)
theory Records
  imports Codec
begin

text \<open>
  The record codecs of \<open>src/persistence_records.cpp\<close>: conflicts, class results, dependency bindings, witnesses,
  policies and whole proof revisions. An encoder is the list of bytes it writes. A decoder reads field by field
  and refuses, with the exact reason, what it does not accept; after the last field of a proof it checks the
  revision as a whole.

  For every record a predicate says what its decoder accepts, and the interpretation of \<open>codec\<close> shows that the
  decoder accepts exactly that: it reads back every acceptable record it is given the encoding of, and accepts
  nothing else.

  The decoders read a digest as a byte string of at most sixteen bytes and then copy sixteen bytes out of it. For
  a shorter string the copy runs past its end, which the language leaves undefined; the model stops there with
  \<open>undefined_read\<close>, an error pair no decoder reports.
\<close>

section \<open>Conflicts and class results\<close>

definition undefined_read :: decode_error where
  "undefined_read = (DS_OK, PS_OK)"

definition read_digest :: "digest parser" where
  "read_digest = pbind (get_bytes 16) (\<lambda>raw. pguard (length raw = 16) undefined_read (preturn (Digest raw)))"

definition put_digest :: "digest \<Rightarrow> bytes" where
  "put_digest d = put_bytes (digest_bytes d)"

definition write_conflict :: "shared_resource \<Rightarrow> bytes" where
  "write_conflict c = sr_encode c"

definition read_conflict :: "limits \<Rightarrow> shared_resource parser" where
  "read_conflict l =
     pbind get_u8 (\<lambda>kind. pbind get_u8 (\<lambda>relation.
     pguard (is_defined_conflict_class kind \<and> is_defined_domain_relation relation) (refused PS_INVALID_ENUM)
     (pbind (get_text (max_identity_length l)) (\<lambda>i.
      pbind (get_list (max_paths_per_proof l) read_index) (\<lambda>paths.
      preturn (SharedResource (the (conflict_class_of_code kind)) (the (domain_relation_of_code relation)) i paths))))))"

definition conflict_ok :: "limits \<Rightarrow> shared_resource \<Rightarrow> bool" where
  "conflict_ok l c \<longleftrightarrow> text_fits (max_identity_length l) (sr_id c) \<and> list_fits (max_paths_per_proof l) index_fits (sr_paths c)"

definition write_class :: "class_result \<Rightarrow> bytes" where
  "write_class r =
     put_u8 (diversity_class_code (cr_klass r)) @ put_u8 (proof_outcome_code (cr_outcome r)) @
     put_boolean (cr_evidence_complete r) @ put_list write_conflict (cr_shared r) @
     put_u64 (cr_shared_total r) @ put_text (cr_detail r)"

definition read_class :: "limits \<Rightarrow> class_result parser" where
  "read_class l =
     pbind get_u8 (\<lambda>klass. pbind get_u8 (\<lambda>outcome.
     pguard (is_defined_diversity_class klass \<and> is_defined_proof_outcome outcome) (refused PS_INVALID_ENUM)
     (pbind get_boolean (\<lambda>complete.
      pbind (get_list (max_conflicts_per_proof l) (read_conflict l)) (\<lambda>shared.
      pbind get_u64 (\<lambda>shared_total.
      pguard (\<not> unat shared_total < length shared) (refused PS_INTERNAL_INCONSISTENCY)
      (pbind (get_text (max_persistence_record_bytes l div 4)) (\<lambda>detail.
       pguard (\<not> (the (proof_outcome_of_code outcome) = PO_PROVEN_DIVERSE \<and> \<not> complete))
         (refused PS_INCOMPLETE_EVIDENCE_CLAIM)
       (preturn \<lparr>cr_klass = the (diversity_class_of_code klass), cr_outcome = the (proof_outcome_of_code outcome),
          cr_evidence_complete = complete, cr_shared = shared, cr_shared_total = shared_total, cr_detail = detail\<rparr>)))))))))"

definition class_ok :: "limits \<Rightarrow> class_result \<Rightarrow> bool" where
  "class_ok l r \<longleftrightarrow>
     list_fits (max_conflicts_per_proof l) (conflict_ok l) (cr_shared r) \<and> length (cr_shared r) \<le> unat (cr_shared_total r) \<and>
     text_fits (max_persistence_record_bytes l div 4) (cr_detail r) \<and>
     (cr_outcome r = PO_PROVEN_DIVERSE \<longrightarrow> cr_evidence_complete r)"

interpretation digest_codec: codec put_digest read_digest digest_wf
proof unfold_locales
  show "digest_wf x \<Longrightarrow> read_digest (put_digest x @ rest) = Inr (x, rest)" for x rest
    by (cases x) (simp add: digest_wf_def read_digest_def put_digest_def codec_simps)
  show "read_digest bs = Inr (x, rest) \<Longrightarrow> digest_wf x" for bs x rest
    by (auto simp: read_digest_def parser_success digest_wf_def)
qed

interpretation conflict_codec: codec write_conflict "read_conflict l" "conflict_ok l" for l
proof unfold_locales
  show "conflict_ok l x \<Longrightarrow> read_conflict l (write_conflict x @ rest) = Inr (x, rest)" for x rest
    by (cases x) (simp add: conflict_ok_def read_conflict_def write_conflict_def sr_encode_def put_indices_list codec_simps)
  show "read_conflict l bs = Inr (x, rest) \<Longrightarrow> conflict_ok l x" for bs x rest
    by (auto simp: read_conflict_def parser_success conflict_ok_def dest!: codec_ok)
qed

interpretation class_codec: codec write_class "read_class l" "class_ok l" for l
proof unfold_locales
  show "class_ok l x \<Longrightarrow> read_class l (write_class x @ rest) = Inr (x, rest)" for x rest
    by (cases x) (auto simp: class_ok_def read_class_def write_class_def codec_simps not_less)
  show "read_class l bs = Inr (x, rest) \<Longrightarrow> class_ok l x" for bs x rest
    by (auto simp: read_class_def parser_success class_ok_def not_less dest!: codec_ok)
qed

section \<open>Dependencies, witnesses and limit notices\<close>

definition put_binding :: "path_authority_binding \<Rightarrow> bytes" where
  "put_binding b = write_id (pb_path b) @ put_generation (pb_generation b)"

definition read_binding :: "limits \<Rightarrow> path_authority_binding parser" where
  "read_binding l = pbind (read_id l path_id_max) (\<lambda>path. pbind read_generation (\<lambda>g.
     preturn \<lparr>pb_path = path, pb_generation = g\<rparr>))"

definition binding_ok :: "limits \<Rightarrow> path_authority_binding \<Rightarrow> bool" where
  "binding_ok l b \<longleftrightarrow> id_fits l path_id_max (pb_path b)"

definition read_entity :: "limits \<Rightarrow> entity_ref parser" where
  "read_entity l = pbind (read_enum is_defined_entity_kind entity_kind_of_code) (\<lambda>kind.
     pbind (get_text (max_identity_length l)) (\<lambda>i. preturn (EntityRef kind i)))"

definition entity_ok :: "limits \<Rightarrow> entity_ref \<Rightarrow> bool" where
  "entity_ok l e \<longleftrightarrow> text_fits (max_identity_length l) (er_id e)"

definition write_dependencies :: "dependency_binding \<Rightarrow> bytes" where
  "write_dependencies b =
     put_generation (db_policy_generation b) @ put_generation (db_topology_generation b) @
     put_generation (db_failure_domain_generation b) @ put_generation (db_epoch b) @
     put_u8 (endpoint_exemption_code (db_endpoint_exemption b)) @
     put_list put_binding (db_paths b) @ put_list entity_ref_encode (db_topology_entities b)"

definition read_dependencies :: "limits \<Rightarrow> dependency_binding parser" where
  "read_dependencies l =
     pbind read_generation (\<lambda>policy. pbind read_generation (\<lambda>topology.
     pbind read_generation (\<lambda>domains. pbind read_generation (\<lambda>epoch.
     pbind (read_enum is_defined_endpoint_exemption endpoint_exemption_of_code) (\<lambda>exemption.
     pbind (get_list (max_paths_per_proof l) (read_binding l)) (\<lambda>paths.
     pbind (get_list (max_topology_dependencies l) (read_entity l)) (\<lambda>entities.
     preturn \<lparr>db_policy_generation = policy, db_topology_generation = topology, db_failure_domain_generation = domains,
       db_epoch = epoch, db_paths = paths, db_topology_entities = entities, db_endpoint_exemption = exemption\<rparr>)))))))"

definition dependencies_ok :: "limits \<Rightarrow> dependency_binding \<Rightarrow> bool" where
  "dependencies_ok l b \<longleftrightarrow>
     list_fits (max_paths_per_proof l) (binding_ok l) (db_paths b) \<and>
     list_fits (max_topology_dependencies l) (entity_ok l) (db_topology_entities b)"

definition write_witness :: "witness_subset \<Rightarrow> bytes" where
  "write_witness w =
     put_boolean (ws_present w) @ put_index (ws_requested_k w) @ put_index (ws_achieved w) @
     put_boolean (ws_maximum_exact w) @ put_list put_index (ws_indices w)"

definition ascending :: "nat list \<Rightarrow> bool" where
  "ascending xs \<longleftrightarrow> list_all (\<lambda>i. xs ! (i - 1) < xs ! i) [1..<length xs]"

definition read_witness :: "limits \<Rightarrow> witness_subset parser" where
  "read_witness l =
     pbind get_boolean (\<lambda>present. pbind get_varint (\<lambda>requested. pbind get_varint (\<lambda>achieved.
     pbind get_boolean (\<lambda>exact.
     pguard (\<not> (exceeds_u32 requested \<or> exceeds_u32 achieved)) (refused PS_ARITHMETIC_OVERFLOW)
     (pbind (get_list (max_paths_per_proof l) read_index) (\<lambda>indices.
      pguard (\<not> length indices < unat achieved) (refused PS_INVALID_WITNESS)
      (pguard (ascending indices) (refused PS_INVALID_WITNESS)
       (preturn \<lparr>ws_present = present, ws_requested_k = unat requested, ws_indices = indices,
          ws_achieved = unat achieved, ws_maximum_exact = exact\<rparr>))))))))"

definition witness_ok :: "limits \<Rightarrow> witness_subset \<Rightarrow> bool" where
  "witness_ok l w \<longleftrightarrow>
     index_fits (ws_requested_k w) \<and> index_fits (ws_achieved w) \<and>
     list_fits (max_paths_per_proof l) index_fits (ws_indices w) \<and> ws_achieved w \<le> length (ws_indices w) \<and>
     ascending (ws_indices w)"

definition put_limit :: "resource_limit_notice option \<Rightarrow> bytes" where
  "put_limit n =
     put_boolean (n \<noteq> None) @
     (case n of None \<Rightarrow> []
      | Some n \<Rightarrow> put_u8 (resource_bound_code (rn_bound n)) @ put_u64 (rn_observed n) @ put_u64 (rn_allowed n))"

definition read_limit :: "resource_limit_notice option parser" where
  "read_limit = pbind get_boolean (\<lambda>has_limit.
     if \<not> has_limit then preturn None
     else pbind (read_enum is_defined_resource_bound resource_bound_of_code) (\<lambda>bound.
       pbind get_u64 (\<lambda>observed. pbind get_u64 (\<lambda>allowed.
       preturn (Some \<lparr>rn_bound = bound, rn_observed = observed, rn_allowed = allowed\<rparr>)))))"

interpretation binding_codec: codec put_binding "read_binding l" "binding_ok l" for l
proof unfold_locales
  show "binding_ok l x \<Longrightarrow> read_binding l (put_binding x @ rest) = Inr (x, rest)" for x rest
    by (cases x) (simp add: binding_ok_def read_binding_def put_binding_def codec_simps)
  show "read_binding l bs = Inr (x, rest) \<Longrightarrow> binding_ok l x" for bs x rest
    by (auto simp: read_binding_def parser_success binding_ok_def dest!: codec_ok)
qed

interpretation entity_codec: codec entity_ref_encode "read_entity l" "entity_ok l" for l
proof unfold_locales
  show "entity_ok l x \<Longrightarrow> read_entity l (entity_ref_encode x @ rest) = Inr (x, rest)" for x rest
    by (cases x) (simp add: entity_ok_def read_entity_def entity_ref_encode_def codec_simps)
  show "read_entity l bs = Inr (x, rest) \<Longrightarrow> entity_ok l x" for bs x rest
    by (auto simp: read_entity_def parser_success entity_ok_def dest!: codec_ok)
qed

interpretation dependencies_codec: codec write_dependencies "read_dependencies l" "dependencies_ok l" for l
proof unfold_locales
  show "dependencies_ok l x \<Longrightarrow> read_dependencies l (write_dependencies x @ rest) = Inr (x, rest)" for x rest
    by (cases x) (simp add: dependencies_ok_def read_dependencies_def write_dependencies_def codec_simps)
  show "read_dependencies l bs = Inr (x, rest) \<Longrightarrow> dependencies_ok l x" for bs x rest
    by (auto simp: read_dependencies_def parser_success dependencies_ok_def dest!: codec_ok)
qed

interpretation witness_codec: codec write_witness "read_witness l" "witness_ok l" for l
proof unfold_locales
  show "witness_ok l x \<Longrightarrow> read_witness l (write_witness x @ rest) = Inr (x, rest)" for x rest
    by (cases x) (simp add: witness_ok_def read_witness_def write_witness_def codec_simps exceeds_u32_iff)
  show "read_witness l bs = Inr (x, rest) \<Longrightarrow> witness_ok l x" for bs x rest
    by (auto simp: read_witness_def parser_success witness_ok_def exceeds_u32_iff dest!: codec_ok)
qed

interpretation limit_codec: codec put_limit read_limit "\<lambda>n. True"
  by unfold_locales (simp_all add: read_limit_def put_limit_def codec_simps split: option.split)

section \<open>Policies\<close>

definition encode_policy :: "diversity_policy \<Rightarrow> bytes" where
  "encode_policy p =
     write_id (dp_id p) @ put_generation (dp_generation p) @ write_id (dp_scope p) @
     put_list (\<lambda>k. put_u8 (diversity_class_code k)) (dp_required_classes p) @
     put_u8 (endpoint_exemption_code (dp_endpoint_exemption p)) @ put_index (dp_minimum_independent_paths p) @
     put_u8 (set_semantics_code (dp_semantics p)) @ put_u8 (completeness_requirement_code (dp_completeness p)) @
     put_u8 (unknown_behavior_code (dp_unknown_behavior p)) @
     put_list (\<lambda>r. put_u8 (domain_relation_code r)) (dp_allowed_relations p) @
     put_boolean (dp_require_authority_current p) @ put_text (dp_description p)"

text \<open>The reason a decoded policy is refused for, by the verdict of its validation.\<close>

definition policy_refusal :: "policy_status \<Rightarrow> persistence_status" where
  "policy_refusal status = (case status of
      VS_UNSET_GENERATION \<Rightarrow> PS_IMPOSSIBLE_GENERATION
    | VS_INVALID_IDENTITY \<Rightarrow> PS_MALFORMED_IDENTITY
    | VS_INVALID_SCOPE \<Rightarrow> PS_MALFORMED_IDENTITY
    | _ \<Rightarrow> PS_INVALID_ENUM)"

definition decode_policy :: "limits \<Rightarrow> diversity_policy parser" where
  "decode_policy l =
     pbind (read_id l diversity_policy_id_max) (\<lambda>i. pbind read_generation (\<lambda>g. pbind (read_id l scope_id_max) (\<lambda>scope.
     pbind (get_list (max_required_classes l) (read_enum is_defined_diversity_class diversity_class_of_code)) (\<lambda>classes.
     pbind (read_enum is_defined_endpoint_exemption endpoint_exemption_of_code) (\<lambda>exemption.
     pbind read_index (\<lambda>minimum.
     pbind get_u8 (\<lambda>semantics. pbind get_u8 (\<lambda>completeness. pbind get_u8 (\<lambda>unknown.
     pguard (is_defined_set_semantics semantics \<and> is_defined_completeness_requirement completeness \<and>
             is_defined_unknown_behavior unknown) (refused PS_INVALID_ENUM)
     (pbind (get_list 8 (read_enum is_defined_domain_relation domain_relation_of_code)) (\<lambda>relations.
      pbind get_boolean (\<lambda>current.
      pbind (get_text (max_persistence_record_bytes l div 4)) (\<lambda>description.
      let p = \<lparr>dp_id = i, dp_generation = g, dp_scope = scope, dp_required_classes = classes,
            dp_endpoint_exemption = exemption, dp_minimum_independent_paths = minimum,
            dp_semantics = the (set_semantics_of_code semantics),
            dp_completeness = the (completeness_requirement_of_code completeness),
            dp_unknown_behavior = the (unknown_behavior_of_code unknown), dp_allowed_relations = relations,
            dp_require_authority_current = current, dp_description = description\<rparr>;
          v = validate_policy p l
      in pguard (pv_ok v) (refused (policy_refusal (pv_status v))) (preturn p))))))))))))))"

definition policy_storable :: "limits \<Rightarrow> diversity_policy \<Rightarrow> bool" where
  "policy_storable l p \<longleftrightarrow>
     id_fits l diversity_policy_id_max (dp_id p) \<and> id_fits l scope_id_max (dp_scope p) \<and>
     list_fits (max_required_classes l) (\<lambda>k. True) (dp_required_classes p) \<and>
     index_fits (dp_minimum_independent_paths p) \<and> list_fits 8 (\<lambda>r. True) (dp_allowed_relations p) \<and>
     text_fits (max_persistence_record_bytes l div 4) (dp_description p) \<and> pv_ok (validate_policy p l)"

interpretation policy_codec: codec encode_policy "decode_policy l" "policy_storable l" for l
proof unfold_locales
  show "policy_storable l x \<Longrightarrow> decode_policy l (encode_policy x @ rest) = Inr (x, rest)" for x rest
    by (cases x) (simp add: policy_storable_def decode_policy_def encode_policy_def codec_simps Let_def)
  show "decode_policy l bs = Inr (x, rest) \<Longrightarrow> policy_storable l x" for bs x rest
    by (auto simp: decode_policy_def Let_def parser_success policy_storable_def dest!: codec_ok)
qed

section \<open>The pairwise matrix\<close>

definition put_cell :: "pairwise_cell \<Rightarrow> bytes" where
  "put_cell c =
     put_index (cell_left c) @ put_index (cell_right c) @ put_boolean (cell_independent c) @
     put_boolean (cell_evidence_complete c) @ put_list write_class (cell_classes c) @
     put_boolean (cell_primary_conflict c \<noteq> None) @
     (case cell_primary_conflict c of None \<Rightarrow> [] | Some conflict \<Rightarrow> write_conflict conflict)"

definition read_cell :: "limits \<Rightarrow> nat \<Rightarrow> pairwise_cell parser" where
  "read_cell l order_count =
     pbind get_varint (\<lambda>left. pbind get_varint (\<lambda>right.
     pguard (\<not> (order_count \<le> unat left \<or> order_count \<le> unat right)) (refused PS_UNKNOWN_REFERENCE)
     (pguard (left < right) (refused PS_INTERNAL_INCONSISTENCY)
      (pbind get_boolean (\<lambda>independent. pbind get_boolean (\<lambda>complete.
       pbind (get_list (max_required_classes l) (read_class l)) (\<lambda>classes.
       pbind get_boolean (\<lambda>has_primary.
       pbind (if has_primary then pbind (read_conflict l) (\<lambda>c. preturn (Some c)) else preturn None) (\<lambda>primary.
       preturn \<lparr>cell_left = unat left, cell_right = unat right, cell_independent = independent,
         cell_evidence_complete = complete, cell_classes = classes, cell_primary_conflict = primary\<rparr>)))))))))"

definition cell_ok :: "limits \<Rightarrow> nat \<Rightarrow> pairwise_cell \<Rightarrow> bool" where
  "cell_ok l order_count c \<longleftrightarrow>
     cell_left c < cell_right c \<and> cell_right c < order_count \<and> cell_right c < 2 ^ 64 \<and>
     list_fits (max_required_classes l) (class_ok l) (cell_classes c) \<and>
     (case cell_primary_conflict c of None \<Rightarrow> True | Some conflict \<Rightarrow> conflict_ok l conflict)"

definition put_matrix :: "pairwise_matrix \<Rightarrow> bytes" where
  "put_matrix m = put_list write_id (pm_order m) @ put_list put_cell (pm_cells m)"

definition read_matrix :: "limits \<Rightarrow> pairwise_matrix parser" where
  "read_matrix l =
     pbind (get_list (max_paths_per_proof l) (read_id l path_id_max)) (\<lambda>order.
     pbind (read_count (max_pairwise_cells l)) (\<lambda>n.
     pguard (n = cell_count (length order)) (refused PS_MATRIX_DIMENSION_MISMATCH)
     (pbind (get_many n (read_cell l (length order))) (\<lambda>cells. preturn \<lparr>pm_order = order, pm_cells = cells\<rparr>))))"

definition matrix_ok :: "limits \<Rightarrow> pairwise_matrix \<Rightarrow> bool" where
  "matrix_ok l m \<longleftrightarrow>
     list_fits (max_paths_per_proof l) (id_fits l path_id_max) (pm_order m) \<and>
     list_fits (max_pairwise_cells l) (cell_ok l (length (pm_order m))) (pm_cells m) \<and>
     length (pm_cells m) = cell_count (length (pm_order m))"

interpretation cell_codec: codec put_cell "read_cell l n" "cell_ok l n" for l n
proof unfold_locales
  show "cell_ok l n x \<Longrightarrow> read_cell l n (put_cell x @ rest) = Inr (x, rest)" for x rest
    by (cases x) (auto simp: cell_ok_def read_cell_def put_cell_def codec_simps unat_of_nat word_less_nat_alt
        split: option.splits)
  show "read_cell l n bs = Inr (x, rest) \<Longrightarrow> cell_ok l n x" for bs x rest
    using unsigned_less [where 'a = nat and 'b = 64]
    by (auto simp: read_cell_def parser_success cell_ok_def word_less_nat_alt not_le dest!: codec_ok split: option.splits if_splits)
qed

interpretation matrix_codec: codec put_matrix "read_matrix l" "matrix_ok l" for l
proof unfold_locales
  fix x rest
  assume "matrix_ok l x"
  then show "read_matrix l (put_matrix x @ rest) = Inr (x, rest)"
    using cell_codec.get_many_put [of l "length (pm_order x)" "pm_cells x" rest]
    by (cases x) (simp add: matrix_ok_def read_matrix_def put_matrix_def put_list_def [of put_cell] read_count_def
        list_fits_def [of "max_pairwise_cells l"] codec_simps unat_of_nat)
next
  fix bs x rest
  assume "read_matrix l bs = Inr (x, rest)"
  then show "matrix_ok l x"
    using unsigned_less [where 'a = nat and 'b = 64]
    by (auto simp: read_matrix_def read_count_def parser_success matrix_ok_def list_fits_def [of "max_pairwise_cells l"]
        dest!: codec_ok cell_codec.get_many_ok)
qed

section \<open>Proof revisions\<close>

definition put_ref :: "path_ref \<Rightarrow> bytes" where
  "put_ref r = write_id (pr_path r) @ put_generation (pr_generation r)"

definition read_ref :: "limits \<Rightarrow> path_ref parser" where
  "read_ref l = pbind (read_id l path_id_max) (\<lambda>path. pbind read_generation (\<lambda>g. preturn (PathRef path g)))"

definition ref_ok :: "limits \<Rightarrow> path_ref \<Rightarrow> bool" where
  "ref_ok l r \<longleftrightarrow> id_fits l path_id_max (pr_path r)"

definition put_request :: "proof_request \<Rightarrow> bytes" where
  "put_request q = write_id (rq_policy q) @ put_generation (rq_policy_generation q) @ put_list put_ref (rq_paths q)"

definition read_request :: "limits \<Rightarrow> proof_request parser" where
  "read_request l =
     pbind (read_id l diversity_policy_id_max) (\<lambda>policy. pbind read_generation (\<lambda>g.
     pbind (get_list (max_paths_per_proof l) (read_ref l)) (\<lambda>paths.
     preturn \<lparr>rq_policy = policy, rq_policy_generation = g, rq_paths = paths\<rparr>)))"

definition request_ok :: "limits \<Rightarrow> proof_request \<Rightarrow> bool" where
  "request_ok l q \<longleftrightarrow> id_fits l diversity_policy_id_max (rq_policy q) \<and> list_fits (max_paths_per_proof l) (ref_ok l) (rq_paths q)"

definition put_provenance :: "provenance \<Rightarrow> bytes" where
  "put_provenance n =
     put_generation (pn_epoch n) @ write_id (pn_publisher n) @ write_id (pn_boot n) @ write_id (pn_attempt n)"

definition read_provenance :: "limits \<Rightarrow> provenance parser" where
  "read_provenance l =
     pbind read_generation (\<lambda>epoch. pbind (read_id l publisher_id_max) (\<lambda>publisher.
     pbind (read_id l worker_boot_id_max) (\<lambda>boot. pbind (read_id l mutation_attempt_id_max) (\<lambda>attempt.
     preturn \<lparr>pn_epoch = epoch, pn_publisher = publisher, pn_boot = boot, pn_attempt = attempt\<rparr>))))"

definition provenance_ok :: "limits \<Rightarrow> provenance \<Rightarrow> bool" where
  "provenance_ok l n \<longleftrightarrow>
     id_fits l publisher_id_max (pn_publisher n) \<and> id_fits l worker_boot_id_max (pn_boot n) \<and>
     id_fits l mutation_attempt_id_max (pn_attempt n)"

interpretation ref_codec: codec put_ref "read_ref l" "ref_ok l" for l
proof unfold_locales
  show "ref_ok l x \<Longrightarrow> read_ref l (put_ref x @ rest) = Inr (x, rest)" for x rest
    by (cases x) (simp add: ref_ok_def read_ref_def put_ref_def codec_simps)
  show "read_ref l bs = Inr (x, rest) \<Longrightarrow> ref_ok l x" for bs x rest
    by (auto simp: read_ref_def parser_success ref_ok_def dest!: codec_ok)
qed

interpretation request_codec: codec put_request "read_request l" "request_ok l" for l
proof unfold_locales
  show "request_ok l x \<Longrightarrow> read_request l (put_request x @ rest) = Inr (x, rest)" for x rest
    by (cases x) (simp add: request_ok_def read_request_def put_request_def codec_simps)
  show "read_request l bs = Inr (x, rest) \<Longrightarrow> request_ok l x" for bs x rest
    by (auto simp: read_request_def parser_success request_ok_def dest!: codec_ok)
qed

interpretation provenance_codec: codec put_provenance "read_provenance l" "provenance_ok l" for l
proof unfold_locales
  show "provenance_ok l x \<Longrightarrow> read_provenance l (put_provenance x @ rest) = Inr (x, rest)" for x rest
    by (cases x) (simp add: provenance_ok_def read_provenance_def put_provenance_def codec_simps)
  show "read_provenance l bs = Inr (x, rest) \<Longrightarrow> provenance_ok l x" for bs x rest
    by (auto simp: read_provenance_def parser_success provenance_ok_def dest!: codec_ok)
qed

definition encode_proof :: "diversity_proof \<Rightarrow> bytes" where
  "encode_proof p =
     write_id (dpf_id p) @ put_generation (dpf_generation p) @ put_request (dpf_request p) @
     put_digest (dpf_request_digest p) @ put_digest (dpf_semantic_digest p) @
     put_u8 (proof_outcome_code (dpf_outcome p)) @ put_text (dpf_detail p) @ put_limit (dpf_limit p) @
     put_list write_class (dpf_classes p) @ put_list write_class (dpf_advisories p) @
     put_list write_conflict (dpf_conflicts p) @ put_u64 (dpf_conflicts_total p) @ put_matrix (dpf_matrix p) @
     write_witness (dpf_witness p) @ write_dependencies (dpf_dependencies p) @ put_provenance (dpf_provenance p) @
     put_u8 (lifecycle_state_code (dpf_lifecycle p)) @ put_u8 (currentness_code (dpf_currentness p))"

text \<open>The checks on a decoded revision, in the order of the code; the first that fails names the reason.\<close>

definition dangling :: "nat \<Rightarrow> shared_resource \<Rightarrow> bool" where
  "dangling n c \<longleftrightarrow> list_ex (\<lambda>i. n \<le> i) (sr_paths c)"

definition class_dangling :: "nat \<Rightarrow> class_result \<Rightarrow> bool" where
  "class_dangling n r \<longleftrightarrow> list_ex (dangling n) (cr_shared r)"

definition cell_dangling :: "nat \<Rightarrow> pairwise_cell \<Rightarrow> bool" where
  "cell_dangling n c \<longleftrightarrow>
     list_ex (class_dangling n) (cell_classes c) \<or>
     (case cell_primary_conflict c of None \<Rightarrow> False | Some conflict \<Rightarrow> dangling n conflict)"

definition generations_bound :: "dependency_binding \<Rightarrow> bool" where
  "generations_bound b \<longleftrightarrow>
     gen_is_set (db_policy_generation b) \<and> gen_is_set (db_topology_generation b) \<and>
     gen_is_set (db_failure_domain_generation b) \<and> gen_is_set (db_epoch b)"

definition revision_error :: "diversity_proof \<Rightarrow> persistence_status option" where
  "revision_error p =
     (let paths = rq_paths (dpf_request p); order = pm_order (dpf_matrix p); n = length paths
      in if has_duplicate_paths paths then Some PS_DUPLICATE_PATH
         else if length order \<noteq> n then Some PS_MATRIX_DIMENSION_MISMATCH
         else if list_ex (\<lambda>i. order ! i \<noteq> pr_path (paths ! i)) [0..<length order] then Some PS_MATRIX_DIMENSION_MISMATCH
         else if list_ex (dangling n) (dpf_conflicts p) then Some PS_UNKNOWN_REFERENCE
         else if list_ex (class_dangling n) (dpf_classes p) then Some PS_UNKNOWN_REFERENCE
         else if list_ex (cell_dangling n) (pm_cells (dpf_matrix p)) then Some PS_UNKNOWN_REFERENCE
         else if dpf_outcome p = PO_PROVEN_DIVERSE \<and> list_ex (\<lambda>r. \<not> cr_evidence_complete r) (dpf_classes p)
         then Some PS_INCOMPLETE_EVIDENCE_CLAIM
         else if dpf_outcome p = PO_PROVEN_DIVERSE \<and> dpf_conflicts p \<noteq> [] then Some PS_INCOMPLETE_EVIDENCE_CLAIM
         else if list_ex (\<lambda>i. n \<le> i) (ws_indices (dpf_witness p)) then Some PS_INVALID_WITNESS
         else if dpf_lifecycle p = LS_CURRENT \<and> \<not> generations_bound (dpf_dependencies p)
         then Some PS_IMPOSSIBLE_GENERATION
         else None)"

definition accept_revision :: "diversity_proof \<Rightarrow> diversity_proof parser" where
  "accept_revision p = (case revision_error p of
     Some reason \<Rightarrow> (\<lambda>bs. Inl (refused reason)) | None \<Rightarrow> preturn p)"

definition decode_proof :: "limits \<Rightarrow> diversity_proof parser" where
  "decode_proof l =
     pbind (read_id l diversity_proof_id_max) (\<lambda>i. pbind read_generation (\<lambda>g. pbind (read_request l) (\<lambda>request.
     pbind read_digest (\<lambda>request_digest. pbind read_digest (\<lambda>semantic_digest.
     pbind (read_enum is_defined_proof_outcome proof_outcome_of_code) (\<lambda>outcome.
     pbind (get_text (max_persistence_record_bytes l div 4)) (\<lambda>detail. pbind read_limit (\<lambda>limit.
     pbind (get_list (max_required_classes l) (read_class l)) (\<lambda>classes.
     pbind (get_list (max_required_classes l) (read_class l)) (\<lambda>advisories.
     pbind (get_list (max_conflicts_per_proof l) (read_conflict l)) (\<lambda>conflicts.
     pbind get_u64 (\<lambda>conflicts_total.
     pguard (\<not> unat conflicts_total < length conflicts) (refused PS_INTERNAL_INCONSISTENCY)
     (pbind (read_matrix l) (\<lambda>m. pbind (read_witness l) (\<lambda>w. pbind (read_dependencies l) (\<lambda>b.
      pbind (read_provenance l) (\<lambda>origin.
      pbind get_u8 (\<lambda>lifecycle. pbind get_u8 (\<lambda>currentness.
      pguard (is_defined_lifecycle_state lifecycle \<and> is_defined_currentness currentness) (refused PS_INVALID_ENUM)
      (accept_revision
         \<lparr>dpf_id = i, dpf_generation = g, dpf_request = request, dpf_request_digest = request_digest,
          dpf_semantic_digest = semantic_digest, dpf_outcome = outcome, dpf_detail = detail, dpf_limit = limit,
          dpf_classes = classes, dpf_advisories = advisories, dpf_conflicts = conflicts,
          dpf_conflicts_total = conflicts_total, dpf_matrix = m, dpf_witness = w, dpf_dependencies = b,
          dpf_provenance = origin, dpf_lifecycle = the (lifecycle_state_of_code lifecycle),
          dpf_currentness = the (currentness_of_code currentness)\<rparr>))))))))))))))))))))"

definition proof_storable :: "limits \<Rightarrow> diversity_proof \<Rightarrow> bool" where
  "proof_storable l p \<longleftrightarrow>
     id_fits l diversity_proof_id_max (dpf_id p) \<and> request_ok l (dpf_request p) \<and>
     digest_wf (dpf_request_digest p) \<and> digest_wf (dpf_semantic_digest p) \<and>
     text_fits (max_persistence_record_bytes l div 4) (dpf_detail p) \<and>
     list_fits (max_required_classes l) (class_ok l) (dpf_classes p) \<and>
     list_fits (max_required_classes l) (class_ok l) (dpf_advisories p) \<and>
     list_fits (max_conflicts_per_proof l) (conflict_ok l) (dpf_conflicts p) \<and>
     length (dpf_conflicts p) \<le> unat (dpf_conflicts_total p) \<and> matrix_ok l (dpf_matrix p) \<and>
     witness_ok l (dpf_witness p) \<and> dependencies_ok l (dpf_dependencies p) \<and>
     provenance_ok l (dpf_provenance p) \<and> revision_error p = None"

interpretation proof_codec: codec encode_proof "decode_proof l" "proof_storable l" for l
proof unfold_locales
  show "proof_storable l x \<Longrightarrow> decode_proof l (encode_proof x @ rest) = Inr (x, rest)" for x rest
    by (cases x) (simp add: proof_storable_def decode_proof_def encode_proof_def accept_revision_def codec_simps not_less)
  show "decode_proof l bs = Inr (x, rest) \<Longrightarrow> proof_storable l x" for bs x rest
    by (auto simp: decode_proof_def accept_revision_def parser_success proof_storable_def not_less dest!: codec_ok
        split: option.splits)
qed

end
