(* ===== verification/SnapshotCodec.thy ===== *)
theory SnapshotCodec
  imports Records Snapshot
begin

text \<open>
  The snapshot codec, the first part of \<open>src/persistence_store.cpp\<close>. Its loops over conflicts and dependency
  bindings repeat those of the record codecs and share their definitions; class results are read without the
  checks the proof decoder makes, and the conflicts and the witness are checked against the number of paths while
  they are read. The encoded digest is compared with the digest of the decoded content, and digest and identity
  are taken from the content.
\<close>

section \<open>Fields\<close>

text \<open>An identity whose text is read within the configured bound only; the identity parser enforces its own.\<close>

definition read_identifier :: "limits \<Rightarrow> nat \<Rightarrow> 'tag string_id parser" where
  "read_identifier l max_len =
     pbind (get_text (max_identity_length l)) (\<lambda>t.
     case id_from_wire max_len t of
       None \<Rightarrow> (\<lambda>bs. Inl (refused PS_MALFORMED_IDENTITY))
     | Some i \<Rightarrow> preturn i)"

definition decode_class_result :: "limits \<Rightarrow> class_result parser" where
  "decode_class_result l =
     pbind get_u8 (\<lambda>klass. pbind get_u8 (\<lambda>outcome.
     pguard (is_defined_diversity_class klass \<and> is_defined_proof_outcome outcome) (refused PS_INVALID_ENUM)
     (pbind get_boolean (\<lambda>complete.
      pbind (get_list (max_conflicts_per_proof l) (read_conflict l)) (\<lambda>shared.
      pbind get_u64 (\<lambda>shared_total.
      pbind (get_text (max_persistence_record_bytes l div 4)) (\<lambda>detail.
      preturn \<lparr>cr_klass = the (diversity_class_of_code klass), cr_outcome = the (proof_outcome_of_code outcome),
        cr_evidence_complete = complete, cr_shared = shared, cr_shared_total = shared_total, cr_detail = detail\<rparr>)))))))"

definition encode_class_list :: "class_result list \<Rightarrow> bytes" where
  "encode_class_list classes = put_list write_class classes"

definition decode_class_list :: "limits \<Rightarrow> class_result list parser" where
  "decode_class_list l = get_list (max_required_classes l) (decode_class_result l)"

definition class_result_ok :: "limits \<Rightarrow> class_result \<Rightarrow> bool" where
  "class_result_ok l r \<longleftrightarrow>
     list_fits (max_conflicts_per_proof l) (conflict_ok l) (cr_shared r) \<and>
     text_fits (max_persistence_record_bytes l div 4) (cr_detail r)"

text \<open>An index below the number of paths; the number is at most a 32-bit bound, so the cast keeps the index.\<close>

definition read_position :: "nat \<Rightarrow> persistence_status \<Rightarrow> nat parser" where
  "read_position n reason = pbind get_varint (\<lambda>v. pguard (\<not> n \<le> unat v) (refused reason) (preturn (unat v)))"

definition position_ok :: "nat \<Rightarrow> nat \<Rightarrow> bool" where
  "position_ok n i \<longleftrightarrow> i < n \<and> i < 2 ^ 64"

definition read_snapshot_conflict :: "limits \<Rightarrow> nat \<Rightarrow> shared_resource parser" where
  "read_snapshot_conflict l n =
     pbind get_u8 (\<lambda>kind. pbind get_u8 (\<lambda>relation.
     pguard (is_defined_conflict_class kind \<and> is_defined_domain_relation relation) (refused PS_INVALID_ENUM)
     (pbind (get_text (max_identity_length l)) (\<lambda>i.
      pbind (get_list (max_paths_per_proof l) (read_position n PS_UNKNOWN_REFERENCE)) (\<lambda>paths.
      preturn (SharedResource (the (conflict_class_of_code kind)) (the (domain_relation_of_code relation)) i paths))))))"

definition snapshot_conflict_ok :: "limits \<Rightarrow> nat \<Rightarrow> shared_resource \<Rightarrow> bool" where
  "snapshot_conflict_ok l n c \<longleftrightarrow>
     text_fits (max_identity_length l) (sr_id c) \<and> list_fits (max_paths_per_proof l) (position_ok n) (sr_paths c)"

text \<open>The two counts of a witness are cast to 32 bits unchecked.\<close>

definition truncated_u32 :: "u64 \<Rightarrow> nat" where
  "truncated_u32 v = unat (ucast v :: u32)"

definition read_snapshot_witness :: "limits \<Rightarrow> nat \<Rightarrow> witness_subset parser" where
  "read_snapshot_witness l n =
     pbind get_boolean (\<lambda>present. pbind get_varint (\<lambda>requested. pbind get_varint (\<lambda>achieved.
     pbind get_boolean (\<lambda>exact.
     pbind (get_list (max_paths_per_proof l) (read_position n PS_INVALID_WITNESS)) (\<lambda>indices.
     preturn \<lparr>ws_present = present, ws_requested_k = truncated_u32 requested, ws_indices = indices,
       ws_achieved = truncated_u32 achieved, ws_maximum_exact = exact\<rparr>)))))"

definition snapshot_witness_ok :: "limits \<Rightarrow> nat \<Rightarrow> witness_subset \<Rightarrow> bool" where
  "snapshot_witness_ok l n w \<longleftrightarrow>
     index_fits (ws_requested_k w) \<and> index_fits (ws_achieved w) \<and>
     list_fits (max_paths_per_proof l) (position_ok n) (ws_indices w)"

interpretation identifier_codec: codec write_id "read_identifier l max_len" "id_fits l max_len" for l max_len
proof unfold_locales
  show "id_fits l max_len x \<Longrightarrow> read_identifier l max_len (write_id x @ rest) = Inr (x, rest)" for x :: "'b string_id" and rest
  proof -
    assume x: "id_fits l max_len x"
    then have "try_parse max_len (id_view x) = Some x" "text_fits (max_identity_length l) (id_view x)"
      by (simp_all add: id_fits_def try_parse_Some text_fits_def)
    then show ?thesis by (simp add: read_identifier_def write_id_def codec_simps id_from_wire_def)
  qed
  show "read_identifier l max_len bs = Inr (x, rest) \<Longrightarrow> id_fits l max_len x" for bs rest and x :: "'b string_id"
    by (auto simp: read_identifier_def parser_success id_fits_def id_from_wire_def try_parse_None try_parse_Some text_fits_def
        dest!: text_codec.decode_ok split: option.splits)
qed

interpretation class_result_codec: codec write_class "decode_class_result l" "class_result_ok l" for l
proof unfold_locales
  show "class_result_ok l x \<Longrightarrow> decode_class_result l (write_class x @ rest) = Inr (x, rest)" for x rest
    by (cases x) (simp add: class_result_ok_def decode_class_result_def write_class_def codec_simps)
  show "decode_class_result l bs = Inr (x, rest) \<Longrightarrow> class_result_ok l x" for bs x rest
    by (auto simp: decode_class_result_def parser_success class_result_ok_def dest!: codec_ok)
qed

interpretation position_codec: codec put_index "read_position n reason" "position_ok n" for n reason
proof unfold_locales
  show "position_ok n x \<Longrightarrow> read_position n reason (put_index x @ rest) = Inr (x, rest)" for x rest
    by (simp add: read_position_def codec_simps position_ok_def unat_of_nat)
  show "read_position n reason bs = Inr (x, rest) \<Longrightarrow> position_ok n x" for bs x rest
    using unsigned_less [where 'a = nat and 'b = 64] by (auto simp: read_position_def parser_success position_ok_def)
qed

interpretation snapshot_conflict_codec: codec write_conflict "read_snapshot_conflict l n" "snapshot_conflict_ok l n" for l n
proof unfold_locales
  show "snapshot_conflict_ok l n x \<Longrightarrow> read_snapshot_conflict l n (write_conflict x @ rest) = Inr (x, rest)" for x rest
    by (cases x) (simp add: snapshot_conflict_ok_def read_snapshot_conflict_def write_conflict_def sr_encode_def put_indices_list
        codec_simps)
  show "read_snapshot_conflict l n bs = Inr (x, rest) \<Longrightarrow> snapshot_conflict_ok l n x" for bs x rest
    by (auto simp: read_snapshot_conflict_def parser_success snapshot_conflict_ok_def dest!: codec_ok)
qed

lemma truncated_u32: "index_fits i \<Longrightarrow> truncated_u32 (of_nat i) = i"
  by (simp add: truncated_u32_def index_fits_def unsigned_ucast_eq unat_of_nat take_bit_eq_mod)

lemma truncated_u32_fits: "index_fits (truncated_u32 v)"
  using unsigned_less [of "ucast v :: u32"] by (simp add: truncated_u32_def index_fits_def)

interpretation snapshot_witness_codec: codec write_witness "read_snapshot_witness l n" "snapshot_witness_ok l n" for l n
proof unfold_locales
  show "snapshot_witness_ok l n x \<Longrightarrow> read_snapshot_witness l n (write_witness x @ rest) = Inr (x, rest)" for x rest
    by (cases x) (simp add: snapshot_witness_ok_def read_snapshot_witness_def write_witness_def codec_simps truncated_u32)
  show "read_snapshot_witness l n bs = Inr (x, rest) \<Longrightarrow> snapshot_witness_ok l n x" for bs x rest
    by (auto simp: read_snapshot_witness_def parser_success snapshot_witness_ok_def truncated_u32_fits dest!: codec_ok)
qed

section \<open>Snapshots\<close>

definition encode_snapshot :: "proof_snapshot \<Rightarrow> bytes" where
  "encode_snapshot s =
     write_id (sn_id s) @ write_id (sn_proof s) @ put_generation (sn_generation s) @ write_id (sn_policy s) @
     put_generation (sn_policy_generation s) @ put_list put_ref (sn_paths s) @
     put_u8 (proof_outcome_code (sn_outcome s)) @ encode_class_list (sn_classes s) @
     put_list write_conflict (sn_conflicts s) @ write_witness (sn_witness s) @ write_dependencies (sn_dependencies s) @
     put_u8 (lifecycle_state_code (sn_lifecycle s)) @ put_u8 (currentness_code (sn_currentness s)) @
     put_provenance (sn_provenance s) @ put_digest (sn_digest s)"

definition read_snapshot_ref :: "limits \<Rightarrow> path_ref parser" where
  "read_snapshot_ref l = pbind (read_identifier l path_id_max) (\<lambda>path. pbind read_generation (\<lambda>g. preturn (PathRef path g)))"

definition read_snapshot_provenance :: "limits \<Rightarrow> provenance parser" where
  "read_snapshot_provenance l =
     pbind read_generation (\<lambda>epoch. pbind (read_identifier l publisher_id_max) (\<lambda>publisher.
     pbind (read_identifier l worker_boot_id_max) (\<lambda>boot. pbind (read_identifier l mutation_attempt_id_max) (\<lambda>attempt.
     preturn \<lparr>pn_epoch = epoch, pn_publisher = publisher, pn_boot = boot, pn_attempt = attempt\<rparr>))))"

definition read_snapshot_binding :: "limits \<Rightarrow> path_authority_binding parser" where
  "read_snapshot_binding l = pbind (read_identifier l path_id_max) (\<lambda>path. pbind read_generation (\<lambda>g.
     preturn \<lparr>pb_path = path, pb_generation = g\<rparr>))"

definition decode_dependency_binding :: "limits \<Rightarrow> dependency_binding parser" where
  "decode_dependency_binding l =
     pbind read_generation (\<lambda>policy. pbind read_generation (\<lambda>topology.
     pbind read_generation (\<lambda>domains. pbind read_generation (\<lambda>epoch.
     pbind (read_enum is_defined_endpoint_exemption endpoint_exemption_of_code) (\<lambda>exemption.
     pbind (get_list (max_paths_per_proof l) (read_snapshot_binding l)) (\<lambda>paths.
     pbind (get_list (max_topology_dependencies l) (read_entity l)) (\<lambda>entities.
     preturn \<lparr>db_policy_generation = policy, db_topology_generation = topology, db_failure_domain_generation = domains,
       db_epoch = epoch, db_paths = paths, db_topology_entities = entities, db_endpoint_exemption = exemption\<rparr>)))))))"

interpretation snapshot_ref_codec: codec put_ref "read_snapshot_ref l" "ref_ok l" for l
proof unfold_locales
  show "ref_ok l x \<Longrightarrow> read_snapshot_ref l (put_ref x @ rest) = Inr (x, rest)" for x rest
    by (cases x) (simp add: ref_ok_def read_snapshot_ref_def put_ref_def codec_simps)
  show "read_snapshot_ref l bs = Inr (x, rest) \<Longrightarrow> ref_ok l x" for bs x rest
    by (auto simp: read_snapshot_ref_def parser_success ref_ok_def dest!: codec_ok)
qed

interpretation snapshot_provenance_codec: codec put_provenance "read_snapshot_provenance l" "provenance_ok l" for l
proof unfold_locales
  show "provenance_ok l x \<Longrightarrow> read_snapshot_provenance l (put_provenance x @ rest) = Inr (x, rest)" for x rest
    by (cases x) (simp add: provenance_ok_def read_snapshot_provenance_def put_provenance_def codec_simps)
  show "read_snapshot_provenance l bs = Inr (x, rest) \<Longrightarrow> provenance_ok l x" for bs x rest
    by (auto simp: read_snapshot_provenance_def parser_success provenance_ok_def dest!: codec_ok)
qed

interpretation snapshot_binding_codec: codec put_binding "read_snapshot_binding l" "binding_ok l" for l
proof unfold_locales
  show "binding_ok l x \<Longrightarrow> read_snapshot_binding l (put_binding x @ rest) = Inr (x, rest)" for x rest
    by (cases x) (simp add: binding_ok_def read_snapshot_binding_def put_binding_def codec_simps)
  show "read_snapshot_binding l bs = Inr (x, rest) \<Longrightarrow> binding_ok l x" for bs x rest
    by (auto simp: read_snapshot_binding_def parser_success binding_ok_def dest!: codec_ok)
qed

interpretation dependency_binding_codec: codec write_dependencies "decode_dependency_binding l" "dependencies_ok l" for l
proof unfold_locales
  show "dependencies_ok l x \<Longrightarrow> decode_dependency_binding l (write_dependencies x @ rest) = Inr (x, rest)" for x rest
    by (cases x) (simp add: dependencies_ok_def decode_dependency_binding_def write_dependencies_def codec_simps)
  show "decode_dependency_binding l bs = Inr (x, rest) \<Longrightarrow> dependencies_ok l x" for bs x rest
    by (auto simp: decode_dependency_binding_def parser_success dependencies_ok_def dest!: codec_ok)
qed

definition decode_snapshot :: "limits \<Rightarrow> proof_snapshot parser" where
  "decode_snapshot l =
     pbind (read_identifier l snapshot_id_max) (\<lambda>i. pbind (read_identifier l diversity_proof_id_max) (\<lambda>proof.
     pbind read_generation (\<lambda>g. pbind (read_identifier l diversity_policy_id_max) (\<lambda>policy.
     pbind read_generation (\<lambda>policy_generation.
     pbind (get_list (max_snapshot_paths l) (read_snapshot_ref l)) (\<lambda>paths.
     pbind (read_enum is_defined_proof_outcome proof_outcome_of_code) (\<lambda>outcome.
     pbind (decode_class_list l) (\<lambda>classes.
     pbind (get_list (max_conflicts_per_proof l) (read_snapshot_conflict l (length paths))) (\<lambda>conflicts.
     pbind (read_snapshot_witness l (length paths)) (\<lambda>w.
     pbind (decode_dependency_binding l) (\<lambda>b.
     pbind get_u8 (\<lambda>lifecycle. pbind get_u8 (\<lambda>currentness.
     pguard (is_defined_lifecycle_state lifecycle \<and> is_defined_currentness currentness) (refused PS_INVALID_ENUM)
     (pbind (read_snapshot_provenance l) (\<lambda>origin. pbind read_digest (\<lambda>decoded.
      let s = \<lparr>sn_id = i, sn_proof = proof, sn_generation = g, sn_policy = policy,
            sn_policy_generation = policy_generation, sn_paths = paths, sn_outcome = outcome, sn_classes = classes,
            sn_conflicts = conflicts, sn_witness = w, sn_dependencies = b,
            sn_lifecycle = the (lifecycle_state_of_code lifecycle), sn_currentness = the (currentness_of_code currentness),
            sn_provenance = origin, sn_digest = zero_digest\<rparr>;
          recomputed = snapshot_digest s
      in pguard (recomputed = decoded) (refused PS_INTERNAL_INCONSISTENCY)
           (preturn (s\<lparr>sn_digest := recomputed, sn_id := derived_snapshot_id recomputed\<rparr>))))))))))))))))))"

text \<open>What a snapshot holds besides its own identity, and when its encoding is read back: when digest and identity
  are those of the content.\<close>

definition snapshot_content_ok :: "limits \<Rightarrow> proof_snapshot \<Rightarrow> bool" where
  "snapshot_content_ok l s \<longleftrightarrow>
     id_fits l diversity_proof_id_max (sn_proof s) \<and> id_fits l diversity_policy_id_max (sn_policy s) \<and>
     list_fits (max_snapshot_paths l) (ref_ok l) (sn_paths s) \<and>
     list_fits (max_required_classes l) (class_result_ok l) (sn_classes s) \<and>
     list_fits (max_conflicts_per_proof l) (snapshot_conflict_ok l (length (sn_paths s))) (sn_conflicts s) \<and>
     snapshot_witness_ok l (length (sn_paths s)) (sn_witness s) \<and> dependencies_ok l (sn_dependencies s) \<and>
     provenance_ok l (sn_provenance s)"

definition snapshot_storable :: "limits \<Rightarrow> proof_snapshot \<Rightarrow> bool" where
  "snapshot_storable l s \<longleftrightarrow>
     id_fits l snapshot_id_max (sn_id s) \<and> snapshot_content_ok l s \<and> finalize_snapshot s = s"

lemma snapshot_digest_content [simp]:
  "snapshot_digest (s\<lparr>sn_digest := d, sn_id := i\<rparr>) = snapshot_digest s"
  "snapshot_digest (s\<lparr>sn_digest := d\<rparr>) = snapshot_digest s"
  by (simp_all add: snapshot_digest_def)

lemma finalized_iff:
  "finalize_snapshot s = s \<longleftrightarrow> sn_digest s = snapshot_digest s \<and> sn_id s = derived_snapshot_id (snapshot_digest s)"
  by (cases s) (auto simp: finalize_snapshot_def snapshot_digest_def Let_def)

lemma digest_wf_snapshot [simp]: "digest_wf (snapshot_digest s)"
proof -
  have "digest_wf (digest_update_text t d)" for t d
    by (simp add: digest_update_text_def digest_update_bytes_def digest_update_varint_def Let_def)
  then show ?thesis by (simp add: snapshot_digest_def Let_def)
qed

interpretation snapshot_encoding: record_encoding encode_snapshot "decode_snapshot l" "snapshot_storable l" for l
proof unfold_locales
  fix x rest
  assume s: "snapshot_storable l x"
  then have d: "sn_digest x = snapshot_digest x" "sn_id x = derived_snapshot_id (snapshot_digest x)"
    by (simp_all add: snapshot_storable_def finalized_iff)
  moreover have "digest_wf (sn_digest x)" by (simp add: d)
  ultimately have "snapshot_digest (x\<lparr>sn_digest := zero_digest\<rparr>) = sn_digest x" by simp
  then show "decode_snapshot l (encode_snapshot x @ rest) = Inr (x, rest)"
    using s d \<open>digest_wf (sn_digest x)\<close>
    by (cases x) (simp add: snapshot_storable_def snapshot_content_ok_def decode_snapshot_def encode_snapshot_def
        encode_class_list_def decode_class_list_def Let_def codec_simps)
qed

lemma decode_snapshot_content:
  assumes "decode_snapshot l bs = Inr (s, rest)"
  shows "snapshot_content_ok l s" "finalize_snapshot s = s"
proof -
  show "snapshot_content_ok l s"
    using assms by (auto simp: decode_snapshot_def decode_class_list_def Let_def parser_success snapshot_content_ok_def dest!: codec_ok)
  show "finalize_snapshot s = s"
    using assms by (auto simp: decode_snapshot_def Let_def parser_success finalized_iff simp del: snapshot_digest_content)
      (simp_all add: snapshot_digest_def)
qed

end
