(* ===== verification/Store.thy ===== *)
theory Store
  imports SnapshotCodec Authority
begin

text \<open>
  The durable store, the second part of \<open>src/persistence_store.cpp\<close>: its content, the encoding with magic, version,
  counted sections and integrity trailer, the decoder, and the atomic replacement of the file. The status of a
  refusal comes with the detail text that names the record that failed.

  The model of a digest field that is too short (\<open>undefined_read\<close>) surfaces here as a refusal with the status OK,
  which the decoder never reports.
\<close>

section \<open>Content\<close>

record mutation_attempt_record =
  ma_attempt :: mutation_attempt_id
  ma_payload :: digest
  ma_proof :: diversity_proof_id

record store_contents =
  sc_epoch :: coordinator_epoch
  sc_policies :: "diversity_policy list"
  sc_proofs :: "diversity_proof list"
  sc_sessions :: "publisher_session list"
  sc_fenced_boots :: "worker_boot_id list"
  sc_attempts :: "mutation_attempt_record list"
  sc_history :: "(diversity_proof_id \<times> diversity_proof list) list"
  sc_snapshots :: "proof_snapshot list"

definition empty_contents :: store_contents where
  "empty_contents = \<lparr>sc_epoch = gen_unset, sc_policies = [], sc_proofs = [], sc_sessions = [], sc_fenced_boots = [],
     sc_attempts = [], sc_history = [], sc_snapshots = []\<rparr>"

section \<open>Encoding\<close>

definition kStoreMagic :: bytes where
  "kStoreMagic = map char_byte ''PDFSTORE''"

definition kStoreTrailerBytes :: nat where
  "kStoreTrailerBytes = 8"

definition put_session :: "publisher_session \<Rightarrow> bytes" where
  "put_session s =
     write_id (ps_publisher s) @ write_id (ps_boot s) @ put_generation (ps_epoch s) @ write_id (ps_scope s) @
     put_boolean (ps_fenced s)"

definition put_attempt :: "mutation_attempt_record \<Rightarrow> bytes" where
  "put_attempt m = write_id (ma_attempt m) @ put_digest (ma_payload m) @ write_id (ma_proof m)"

definition put_history :: "diversity_proof_id \<times> diversity_proof list \<Rightarrow> bytes" where
  "put_history h = write_id (fst h) @ put_list encode_proof (snd h)"

definition encode_payload :: "store_contents \<Rightarrow> bytes" where
  "encode_payload c =
     kStoreMagic @ put_u32 (of_nat kPersistenceFormatVersion) @ put_generation (sc_epoch c) @
     put_list encode_policy (sc_policies c) @ put_list encode_proof (sc_proofs c) @
     put_list put_session (sc_sessions c) @ put_list write_id (sc_fenced_boots c) @
     put_list put_attempt (sc_attempts c) @ put_list put_history (sc_history c) @
     put_list encode_snapshot (sc_snapshots c)"

definition encode_store :: "store_contents \<Rightarrow> bytes" where
  "encode_store c = (let payload = encode_payload c in payload @ le_bytes 8 (fnv1a64 payload))"

section \<open>Decoding\<close>

type_synonym store_error = "persistence_status \<times> string"

definition persistence_status_for :: "decode_error \<Rightarrow> persistence_status" where
  "persistence_status_for e = (case fst e of
      DS_OK \<Rightarrow> PS_OK
    | DS_TRUNCATED \<Rightarrow> PS_TRUNCATED
    | DS_LENGTH_OVERRUN \<Rightarrow> PS_TRUNCATED
    | DS_TRAILING_BYTES \<Rightarrow> PS_TRAILING_BYTES
    | DS_LIMIT_EXCEEDED \<Rightarrow> PS_LIMIT_EXCEEDED
    | DS_INVALID_ENCODING \<Rightarrow> if snd e \<noteq> PS_OK then snd e else PS_INTERNAL_INCONSISTENCY)"

definition relabel :: "('e \<Rightarrow> 'f) \<Rightarrow> ('e, 'a) reading \<Rightarrow> ('f, 'a) reading" where
  "relabel f p bs = (case p bs of Inl e \<Rightarrow> Inl (f e) | Inr r \<Rightarrow> Inr r)"

definition stop :: "'e \<Rightarrow> ('e, 'a) reading" where
  "stop e bs = Inl e"

definition read_section_count :: "limits \<Rightarrow> nat \<Rightarrow> string \<Rightarrow> (store_error, nat) reading" where
  "read_section_count l payload_size what =
     pbind (relabel (\<lambda>e. (PS_TRUNCATED, ''truncated while reading the '' @ what @ '' section count'')) get_varint) (\<lambda>v.
     pguard (\<not> max_store_records l < unat v)
       (PS_RECORD_LIMIT_EXCEEDED, ''the '' @ what @ '' section declares more records than a store may hold'')
     (pguard (\<not> payload_size < unat v)
        (PS_ABSURD_COUNT, ''the '' @ what @ '' section declares more records than there are bytes'')
      (preturn (unat v))))"

text \<open>The records of a section are numbered from zero in the detail of a failure.\<close>

primrec read_numbered :: "(nat \<Rightarrow> ('e, 'a) reading) \<Rightarrow> nat \<Rightarrow> nat \<Rightarrow> ('e, 'a list) reading" where
  "read_numbered p i 0 = preturn []"
| "read_numbered p i (Suc n) = pbind (p i) (\<lambda>x. pbind (read_numbered p (Suc i) n) (\<lambda>xs. preturn (x # xs)))"

definition read_section ::
  "limits \<Rightarrow> nat \<Rightarrow> string \<Rightarrow> (nat \<Rightarrow> (store_error, 'a) reading) \<Rightarrow> (store_error, 'a list) reading" where
  "read_section l payload_size what p = pbind (read_section_count l payload_size what) (\<lambda>n. read_numbered p 0 n)"

definition failed_to_decode :: "string \<Rightarrow> decode_error \<Rightarrow> store_error" where
  "failed_to_decode record e =
     (persistence_status_for e, record @ '' failed to decode ('' @ persistence_status_to_string (persistence_status_for e) @ '')'')"

definition numbered :: "string \<Rightarrow> nat \<Rightarrow> string" where
  "numbered what i = what @ '' record '' @ decimal i"

definition policy_record :: "limits \<Rightarrow> nat \<Rightarrow> (store_error, diversity_policy) reading" where
  "policy_record l i = relabel (failed_to_decode (numbered ''policy'' i)) (decode_policy l)"

definition proof_record_at :: "limits \<Rightarrow> nat \<Rightarrow> (store_error, diversity_proof) reading" where
  "proof_record_at l i = relabel (failed_to_decode (numbered ''proof'' i)) (decode_proof l)"

definition unreadable :: "string \<Rightarrow> nat \<Rightarrow> decode_error \<Rightarrow> store_error" where
  "unreadable what i e = (PS_TRUNCATED, numbered what i @ '' failed to decode'')"

definition bad_identity :: "string \<Rightarrow> nat \<Rightarrow> store_error" where
  "bad_identity what i = (PS_MALFORMED_IDENTITY, numbered what i @ '' carries a malformed identity'')"

definition session_fields :: "limits \<Rightarrow> (string \<times> string \<times> u64 \<times> string \<times> bool) parser" where
  "session_fields l =
     pbind (get_text (max_identity_length l)) (\<lambda>publisher. pbind (get_text (max_identity_length l)) (\<lambda>boot.
     pbind get_u64 (\<lambda>epoch. pbind (get_text (max_identity_length l)) (\<lambda>scope. pbind get_boolean (\<lambda>fenced.
     preturn (publisher, boot, epoch, scope, fenced))))))"

definition session_record :: "limits \<Rightarrow> nat \<Rightarrow> (store_error, publisher_session) reading" where
  "session_record l i =
     pbind (relabel (unreadable ''session'' i) (session_fields l)) (\<lambda>(publisher, boot, epoch, scope, fenced).
     case (id_from_wire publisher_id_max publisher, id_from_wire worker_boot_id_max boot, id_from_wire scope_id_max scope) of
       (Some publisher, Some boot, Some scope) \<Rightarrow>
         preturn \<lparr>ps_publisher = publisher, ps_boot = boot, ps_epoch = Generation epoch, ps_scope = scope, ps_fenced = fenced\<rparr>
     | _ \<Rightarrow> stop (bad_identity ''session'' i))"

definition fenced_record :: "limits \<Rightarrow> nat \<Rightarrow> (store_error, worker_boot_id) reading" where
  "fenced_record l i =
     pbind (relabel (unreadable ''fenced boot'' i) (get_text (max_identity_length l))) (\<lambda>t.
     case id_from_wire worker_boot_id_max t of
       None \<Rightarrow> stop (bad_identity ''fenced boot'' i)
     | Some boot \<Rightarrow> preturn boot)"

definition attempt_fields :: "limits \<Rightarrow> (string \<times> bytes \<times> string) parser" where
  "attempt_fields l =
     pbind (get_text (max_identity_length l)) (\<lambda>attempt. pbind (get_bytes 16) (\<lambda>payload.
     pbind (get_text (max_identity_length l)) (\<lambda>proof. preturn (attempt, payload, proof))))"

definition attempt_record :: "limits \<Rightarrow> nat \<Rightarrow> (store_error, mutation_attempt_record) reading" where
  "attempt_record l i =
     pbind (relabel (unreadable ''attempt'' i) (attempt_fields l)) (\<lambda>(attempt, payload, proof).
     case (id_from_wire mutation_attempt_id_max attempt, id_from_wire diversity_proof_id_max proof) of
       (Some attempt, Some proof) \<Rightarrow>
         pguard (length payload = 16) (PS_OK, []) (preturn \<lparr>ma_attempt = attempt, ma_payload = Digest payload, ma_proof = proof\<rparr>)
     | _ \<Rightarrow> stop (bad_identity ''attempt'' i))"

definition revision_label :: "nat \<Rightarrow> nat \<Rightarrow> string" where
  "revision_label i k = ''history revision '' @ decimal k @ '' of record '' @ decimal i"

definition history_record :: "limits \<Rightarrow> nat \<Rightarrow> (store_error, diversity_proof_id \<times> diversity_proof list) reading" where
  "history_record l i =
     pbind (relabel (unreadable ''history'' i) (get_text (max_identity_length l))) (\<lambda>t.
     case id_from_wire diversity_proof_id_max t of
       None \<Rightarrow> stop (bad_identity ''history'' i)
     | Some identity \<Rightarrow>
         pbind (relabel (unreadable ''history'' i) get_varint) (\<lambda>revisions.
         pguard (\<not> max_history l < unat revisions) (PS_RECORD_LIMIT_EXCEEDED, numbered ''history'' i @ '' exceeds max_history'')
         (pbind (read_numbered (\<lambda>k. relabel (failed_to_decode (revision_label i k)) (decode_proof l)) 0 (unat revisions))
           (\<lambda>retained. preturn (identity, retained)))))"

definition snapshot_record :: "limits \<Rightarrow> nat \<Rightarrow> (store_error, proof_snapshot) reading" where
  "snapshot_record l i = relabel (failed_to_decode (numbered ''snapshot'' i)) (decode_snapshot l)"

definition read_sections :: "limits \<Rightarrow> nat \<Rightarrow> coordinator_epoch \<Rightarrow> (store_error, store_contents) reading" where
  "read_sections l n epoch =
     pbind (read_section l n ''policy'' (policy_record l)) (\<lambda>policies.
     pbind (read_section l n ''proof'' (proof_record_at l)) (\<lambda>proofs.
     pbind (read_section l n ''session'' (session_record l)) (\<lambda>sessions.
     pbind (read_section l n ''fenced-boot'' (fenced_record l)) (\<lambda>fenced.
     pbind (read_section l n ''attempt'' (attempt_record l)) (\<lambda>attempts.
     pbind (read_section l n ''history'' (history_record l)) (\<lambda>history.
     pbind (read_section l n ''snapshot'' (snapshot_record l)) (\<lambda>snapshots.
     preturn \<lparr>sc_epoch = epoch, sc_policies = policies, sc_proofs = proofs, sc_sessions = sessions,
       sc_fenced_boots = fenced, sc_attempts = attempts, sc_history = history, sc_snapshots = snapshots\<rparr>)))))))"

definition decode_store :: "limits \<Rightarrow> bytes \<Rightarrow> store_error + store_contents" where
  "decode_store l bs =
     (let n = length bs; payload_size = n - kStoreTrailerBytes; payload = take payload_size bs
      in if n = 0 then Inl (PS_EMPTY_FILE, ''store is empty'')
         else if max_store_bytes l < n then Inl (PS_SIZE_LIMIT_EXCEEDED, ''store exceeds max_store_bytes'')
         else if n < length kStoreMagic + 4 + 8 + kStoreTrailerBytes
         then Inl (PS_TRUNCATED, ''store is shorter than its fixed header and trailer'')
         else if take (length kStoreMagic) bs \<noteq> kStoreMagic then Inl (PS_MALFORMED_MAGIC, ''store magic does not match'')
         else if (le_word (drop payload_size bs) :: u64) \<noteq> fnv1a64 payload
         then Inl (PS_INTEGRITY_FAILURE, ''integrity trailer does not match the store content'')
         else case get_u32 (drop (length kStoreMagic) payload) of
             Inl e \<Rightarrow> Inl (PS_TRUNCATED, [])
           | Inr (version, rest) \<Rightarrow>
               if version \<noteq> of_nat kPersistenceFormatVersion
               then Inl (PS_UNSUPPORTED_VERSION, ''unsupported persistence format version'')
               else case get_u64 rest of
                   Inl e \<Rightarrow> Inl (PS_TRUNCATED, [])
                 | Inr (epoch, rest) \<Rightarrow>
                     (case read_sections l payload_size (Generation epoch) rest of
                        Inl e \<Rightarrow> Inl e
                      | Inr (c, rest) \<Rightarrow>
                          if \<not> at_end rest
                          then Inl (PS_TRAILING_BYTES, ''store carries trailing bytes after the last section'')
                          else Inr c))"

section \<open>Reading back a store\<close>

lemma relabel_Inr [codec_simps]: "p bs = Inr r \<Longrightarrow> relabel f p bs = Inr r"
  by (simp add: relabel_def)

lemma relabel_eq_Inr: "relabel f p bs = Inr r \<longleftrightarrow> p bs = Inr r"
  by (simp add: relabel_def split: sum.split)

lemma stop_eq_Inr [simp]: "stop e bs \<noteq> Inr r"
  by (simp add: stop_def)

lemma read_numbered_put:
  assumes "\<And>i x rest. ok x \<Longrightarrow> p i (put x @ rest) = Inr (x, rest)" "list_all ok xs"
  shows "read_numbered p i (length xs) (concat (map put xs) @ rest) = Inr (xs, rest)"
  using assms(2) by (induction xs arbitrary: i) (simp_all add: assms(1) codec_simps)

lemma read_numbered_ok:
  assumes "\<And>i bs x rest. p i bs = Inr (x, rest) \<Longrightarrow> ok x" "read_numbered p i n bs = Inr (xs, rest)"
  shows "length xs = n \<and> list_all ok xs"
  using assms(2) by (induction n arbitrary: i bs xs) (auto simp: parser_success dest: assms(1))

lemma read_section_put:
  assumes "\<And>i x rest. ok x \<Longrightarrow> p i (put x @ rest) = Inr (x, rest)" "list_fits (max_store_records l) ok xs" "length xs \<le> n"
  shows "read_section l n what p (put_list put xs @ rest) = Inr (xs, rest)"
  using assms(2,3) read_numbered_put [where p = p and put = put and ok = ok, OF assms(1)]
  by (simp add: read_section_def read_section_count_def put_list_def list_fits_def codec_simps unat_of_nat)

lemma read_section_ok:
  assumes "\<And>i bs x rest. p i bs = Inr (x, rest) \<Longrightarrow> ok x" "read_section l n what p bs = Inr (xs, rest)"
  shows "list_fits (max_store_records l) ok xs"
  using assms(2) read_numbered_ok [where p = p and ok = ok, OF assms(1)] unsigned_less [where 'a = nat and 'b = 64]
  by (auto simp: read_section_def read_section_count_def parser_success relabel_eq_Inr list_fits_def)

definition session_ok :: "limits \<Rightarrow> publisher_session \<Rightarrow> bool" where
  "session_ok l s \<longleftrightarrow>
     id_fits l publisher_id_max (ps_publisher s) \<and> id_fits l worker_boot_id_max (ps_boot s) \<and> id_fits l scope_id_max (ps_scope s)"

definition attempt_ok :: "limits \<Rightarrow> mutation_attempt_record \<Rightarrow> bool" where
  "attempt_ok l m \<longleftrightarrow>
     id_fits l mutation_attempt_id_max (ma_attempt m) \<and> digest_wf (ma_payload m) \<and> id_fits l diversity_proof_id_max (ma_proof m)"

definition history_ok :: "limits \<Rightarrow> diversity_proof_id \<times> diversity_proof list \<Rightarrow> bool" where
  "history_ok l h \<longleftrightarrow> id_fits l diversity_proof_id_max (fst h) \<and> list_fits (max_history l) (proof_storable l) (snd h)"

definition contents_ok :: "limits \<Rightarrow> (proof_snapshot \<Rightarrow> bool) \<Rightarrow> store_contents \<Rightarrow> bool" where
  "contents_ok l snapshot_ok c \<longleftrightarrow>
     list_fits (max_store_records l) (policy_storable l) (sc_policies c) \<and>
     list_fits (max_store_records l) (proof_storable l) (sc_proofs c) \<and>
     list_fits (max_store_records l) (session_ok l) (sc_sessions c) \<and>
     list_fits (max_store_records l) (id_fits l worker_boot_id_max) (sc_fenced_boots c) \<and>
     list_fits (max_store_records l) (attempt_ok l) (sc_attempts c) \<and>
     list_fits (max_store_records l) (history_ok l) (sc_history c) \<and>
     list_fits (max_store_records l) snapshot_ok (sc_snapshots c)"

lemma id_fits_text: "id_fits l m i \<Longrightarrow> text_fits (max_identity_length l) (id_view i)"
  by (simp add: id_fits_def text_fits_def)

lemma id_fits_from_wire: "id_fits l m i \<Longrightarrow> id_from_wire m (id_view i) = Some i"
  by (simp add: id_fits_def id_from_wire_def try_parse_Some)

lemma id_fits_iff: "id_from_wire m t = Some i \<and> text_fits (max_identity_length l) t \<longleftrightarrow> id_fits l m i \<and> t = id_view i"
  by (cases i) (auto simp: id_fits_def id_from_wire_def try_parse_Some text_fits_def)

lemma write_id_text: "write_id i = put_text (id_view i)"
  by (simp add: write_id_def)

lemma policy_record_put: "policy_storable l x \<Longrightarrow> policy_record l i (encode_policy x @ rest) = Inr (x, rest)"
  and proof_record_put: "proof_storable l y \<Longrightarrow> proof_record_at l i (encode_proof y @ rest) = Inr (y, rest)"
  and snapshot_record_put: "snapshot_storable l z \<Longrightarrow> snapshot_record l i (encode_snapshot z @ rest) = Inr (z, rest)"
  by (simp_all add: policy_record_def proof_record_at_def snapshot_record_def codec_simps)

lemma session_record_put:
  assumes "session_ok l x"
  shows "session_record l i (put_session x @ rest) = Inr (x, rest)"
proof -
  note ids = assms [unfolded session_ok_def]
  then have t: "text_fits (max_identity_length l) (id_view (ps_publisher x))" "text_fits (max_identity_length l) (id_view (ps_boot x))"
    "text_fits (max_identity_length l) (id_view (ps_scope x))" by (blast intro: id_fits_text)+
  have "session_fields l (put_session x @ rest) =
      Inr ((id_view (ps_publisher x), id_view (ps_boot x), gen_value (ps_epoch x), id_view (ps_scope x), ps_fenced x), rest)"
    by (simp add: session_fields_def put_session_def write_id_text put_generation_def codec_simps t)
  then show ?thesis
    using ids by (simp add: session_record_def pbind_def relabel_def id_fits_from_wire [of l] preturn_simp)
qed

lemma fenced_record_put: "id_fits l worker_boot_id_max x \<Longrightarrow> fenced_record l i (write_id x @ rest) = Inr (x, rest)"
  by (simp add: fenced_record_def write_id_text codec_simps id_fits_text [of l worker_boot_id_max] id_fits_from_wire [of l])

lemma attempt_record_put:
  assumes "attempt_ok l x"
  shows "attempt_record l i (put_attempt x @ rest) = Inr (x, rest)"
proof -
  note ids = assms [unfolded attempt_ok_def]
  then have t: "text_fits (max_identity_length l) (id_view (ma_attempt x))" "text_fits (max_identity_length l) (id_view (ma_proof x))"
    by (blast intro: id_fits_text)+
  have "attempt_fields l (put_attempt x @ rest) =
      Inr ((id_view (ma_attempt x), digest_bytes (ma_payload x), id_view (ma_proof x)), rest)"
    using ids by (simp add: attempt_fields_def put_attempt_def put_digest_def write_id_text digest_wf_def codec_simps t)
  then show ?thesis
    using ids by (simp add: attempt_record_def pbind_def relabel_def id_fits_from_wire [of l] preturn_simp digest_wf_def pguard_True)
qed

lemma history_record_put:
  assumes "history_ok l x"
  shows "history_record l i (put_history x @ rest) = Inr (x, rest)"
proof -
  have "read_numbered (\<lambda>k. relabel (failed_to_decode (revision_label i k)) (decode_proof l)) 0 (length (snd x))
      (concat (map encode_proof (snd x)) @ rest) = Inr (snd x, rest)"
    by (rule read_numbered_put [where ok = "proof_storable l"]) (use assms in \<open>simp_all add: codec_simps history_ok_def list_fits_def\<close>)
  moreover have "text_fits (max_identity_length l) (id_view (fst x))"
    using assms by (auto simp: history_ok_def intro: id_fits_text)
  ultimately show ?thesis using assms
    by (cases x) (simp add: history_record_def put_history_def history_ok_def write_id_text put_list_def list_fits_def codec_simps
        unat_of_nat id_fits_from_wire [of l])
qed

lemma put_varint_nonempty [simp]: "put_varint v \<noteq> []"
  by (subst put_varint.simps) (simp add: Let_def)

lemma write_id_nonempty [simp]: "write_id i \<noteq> []"
  by (simp add: write_id_def put_text_def put_bytes_def)

lemma length_put_list: "(\<And>x. put x \<noteq> []) \<Longrightarrow> length xs \<le> length (put_list put xs)"
proof -
  assume n: "\<And>x. put x \<noteq> []"
  have "length xs \<le> length (concat (map put xs))"
  proof (induction xs)
    case (Cons x xs)
    then show ?case using n [of x] by (cases "put x") simp_all
  qed simp
  then show ?thesis by (simp add: put_list_def)
qed

lemma section_lengths:
  "length (sc_policies c) \<le> length (encode_payload c)" "length (sc_proofs c) \<le> length (encode_payload c)"
  "length (sc_sessions c) \<le> length (encode_payload c)" "length (sc_fenced_boots c) \<le> length (encode_payload c)"
  "length (sc_attempts c) \<le> length (encode_payload c)" "length (sc_history c) \<le> length (encode_payload c)"
  "length (sc_snapshots c) \<le> length (encode_payload c)"
proof -
  have "encode_policy p \<noteq> []" "encode_proof q \<noteq> []" "put_session s \<noteq> []" "put_attempt a \<noteq> []" "put_history h \<noteq> []"
    "encode_snapshot n \<noteq> []" for p q s a h n
    by (simp_all add: encode_policy_def encode_proof_def put_session_def put_attempt_def put_history_def encode_snapshot_def)
  note longer = length_put_list [of encode_policy "sc_policies c"] length_put_list [of encode_proof "sc_proofs c"]
    length_put_list [of put_session "sc_sessions c"] length_put_list [of write_id "sc_fenced_boots c"]
    length_put_list [of put_attempt "sc_attempts c"] length_put_list [of put_history "sc_history c"]
    length_put_list [of encode_snapshot "sc_snapshots c"]
  show "length (sc_policies c) \<le> length (encode_payload c)" "length (sc_proofs c) \<le> length (encode_payload c)"
    "length (sc_sessions c) \<le> length (encode_payload c)" "length (sc_fenced_boots c) \<le> length (encode_payload c)"
    "length (sc_attempts c) \<le> length (encode_payload c)" "length (sc_history c) \<le> length (encode_payload c)"
    "length (sc_snapshots c) \<le> length (encode_payload c)"
    using longer \<open>\<And>p. encode_policy p \<noteq> []\<close> \<open>\<And>q. encode_proof q \<noteq> []\<close> \<open>\<And>s. put_session s \<noteq> []\<close> \<open>\<And>a. put_attempt a \<noteq> []\<close>
      \<open>\<And>h. put_history h \<noteq> []\<close> \<open>\<And>n. encode_snapshot n \<noteq> []\<close>
    by (simp_all add: encode_payload_def)
qed

lemma read_sections_put:
  assumes "contents_ok l (snapshot_storable l) c" "length (encode_payload c) \<le> n"
  shows "read_sections l n (sc_epoch c)
      (put_list encode_policy (sc_policies c) @ put_list encode_proof (sc_proofs c) @ put_list put_session (sc_sessions c) @
       put_list write_id (sc_fenced_boots c) @ put_list put_attempt (sc_attempts c) @ put_list put_history (sc_history c) @
       put_list encode_snapshot (sc_snapshots c)) = Inr (c, [])"
proof -
  note ok = assms(1) [unfolded contents_ok_def] and lengths = section_lengths [of c, THEN order_trans, OF assms(2)]
  have snapshots: "read_section l n ''snapshot'' (snapshot_record l) (put_list encode_snapshot (sc_snapshots c)) = Inr (sc_snapshots c, [])"
    using read_section_put [where rest = "[]" and ok = "snapshot_storable l", OF snapshot_record_put] ok lengths by simp
  show ?thesis
    using ok lengths snapshots
    by (cases c) (simp add: read_sections_def codec_simps
        read_section_put [where ok = "policy_storable l", OF policy_record_put]
        read_section_put [where ok = "proof_storable l", OF proof_record_put]
        read_section_put [where ok = "session_ok l", OF session_record_put]
        read_section_put [where ok = "id_fits l worker_boot_id_max", OF fenced_record_put]
        read_section_put [where ok = "attempt_ok l", OF attempt_record_put]
        read_section_put [where ok = "history_ok l", OF history_record_put])
qed

lemma length_kStoreMagic [simp]: "length kStoreMagic = 8"
  by (simp add: kStoreMagic_def)

lemma length_put_u32 [simp]: "length (put_u32 v) = 4"
  by (simp add: put_u32_def)

lemma length_put_u64 [simp]: "length (put_u64 v) = 8"
  by (simp add: put_u64_def)

lemma length_put_generation [simp]: "length (put_generation g) = 8"
  by (simp add: put_generation_def)

lemma payload_header: "20 \<le> length (encode_payload c)" "take 8 (encode_payload c) = kStoreMagic"
  by (simp_all add: encode_payload_def)

lemma decode_store_framed:
  assumes "length payload + 8 \<le> max_store_bytes l" "20 \<le> length payload" "take 8 payload = kStoreMagic"
  shows "decode_store l (payload @ le_bytes 8 (fnv1a64 payload)) =
    (case get_u32 (drop 8 payload) of
       Inl e \<Rightarrow> Inl (PS_TRUNCATED, [])
     | Inr (version, rest) \<Rightarrow>
         if version \<noteq> of_nat kPersistenceFormatVersion
         then Inl (PS_UNSUPPORTED_VERSION, ''unsupported persistence format version'')
         else case get_u64 rest of
             Inl e \<Rightarrow> Inl (PS_TRUNCATED, [])
           | Inr (epoch, rest) \<Rightarrow>
               (case read_sections l (length payload) (Generation epoch) rest of
                  Inl e \<Rightarrow> Inl e
                | Inr (c, rest) \<Rightarrow>
                    if \<not> at_end rest
                    then Inl (PS_TRAILING_BYTES, ''store carries trailing bytes after the last section'')
                    else Inr c))"
  using assms by (simp add: decode_store_def kStoreTrailerBytes_def le_word_le_bytes)

text \<open>Whatever bytes are decoded, the records that come out fit.\<close>

lemma policy_record_ok: "policy_record l i bs = Inr (x, rest) \<Longrightarrow> policy_storable l x"
  and proof_record_ok: "proof_record_at l i bs = Inr (y, rest) \<Longrightarrow> proof_storable l y"
  by (auto simp: policy_record_def proof_record_at_def relabel_eq_Inr dest: codec_ok)

lemma snapshot_record_ok:
  "snapshot_record l i bs = Inr (x, rest) \<Longrightarrow> snapshot_content_ok l x \<and> finalize_snapshot x = x"
  by (auto simp: snapshot_record_def relabel_eq_Inr dest: decode_snapshot_content)

lemma from_wire_fits: "id_from_wire m t = Some i \<Longrightarrow> text_fits (max_identity_length l) t \<Longrightarrow> id_fits l m i"
  using id_fits_iff by blast

lemma session_record_ok:
  assumes "session_record l i bs = Inr (x, rest)"
  shows "session_ok l x"
proof -
  obtain publisher boot epoch scope fenced mid where fields: "session_fields l bs = Inr ((publisher, boot, epoch, scope, fenced), mid)"
    and x: "(case (id_from_wire publisher_id_max publisher, id_from_wire worker_boot_id_max boot, id_from_wire scope_id_max scope) of
       (Some publisher, Some boot, Some scope) \<Rightarrow>
         preturn \<lparr>ps_publisher = publisher, ps_boot = boot, ps_epoch = Generation epoch, ps_scope = scope, ps_fenced = fenced\<rparr>
     | _ \<Rightarrow> stop (bad_identity ''session'' i)) mid = Inr (x, rest)"
    using assms by (auto simp: session_record_def pbind_eq_Inr relabel_eq_Inr)
  have "text_fits (max_identity_length l) publisher" "text_fits (max_identity_length l) boot" "text_fits (max_identity_length l) scope"
    using fields by (auto simp: session_fields_def parser_success dest: codec_ok)
  moreover obtain a b c where "id_from_wire publisher_id_max publisher = Some (a :: publisher_id)"
      "id_from_wire worker_boot_id_max boot = Some (b :: worker_boot_id)" "id_from_wire scope_id_max scope = Some (c :: scope_id)"
    using x by (auto split: option.splits)
  ultimately show ?thesis
    using x by (auto simp: session_ok_def parser_success intro: from_wire_fits)
qed

lemma fenced_record_ok: "fenced_record l i bs = Inr (x, rest) \<Longrightarrow> id_fits l worker_boot_id_max x"
  by (auto simp: fenced_record_def parser_success relabel_eq_Inr dest!: codec_ok intro: from_wire_fits split: option.splits)

lemma attempt_record_ok:
  assumes "attempt_record l i bs = Inr (x, rest)"
  shows "attempt_ok l x"
proof -
  obtain attempt payload pid mid where fields: "attempt_fields l bs = Inr ((attempt, payload, pid), mid)"
    and x: "(case (id_from_wire mutation_attempt_id_max attempt, id_from_wire diversity_proof_id_max pid) of
       (Some attempt, Some proof) \<Rightarrow>
         pguard (length payload = 16) (PS_OK, []) (preturn \<lparr>ma_attempt = attempt, ma_payload = Digest payload, ma_proof = proof\<rparr>)
     | _ \<Rightarrow> stop (bad_identity ''attempt'' i)) mid = Inr (x, rest)"
    using assms by (auto simp: attempt_record_def pbind_eq_Inr relabel_eq_Inr)
  have "text_fits (max_identity_length l) attempt" "text_fits (max_identity_length l) pid"
    using fields by (auto simp: attempt_fields_def parser_success dest: codec_ok)
  moreover obtain a b where "id_from_wire mutation_attempt_id_max attempt = Some (a :: mutation_attempt_id)"
      "id_from_wire diversity_proof_id_max pid = Some (b :: diversity_proof_id)"
    using x by (auto split: option.splits)
  ultimately show ?thesis
    using x by (auto simp: attempt_ok_def digest_wf_def parser_success intro: from_wire_fits)
qed

lemma history_record_ok: "history_record l i bs = Inr (x, rest) \<Longrightarrow> history_ok l x"
proof -
  assume "history_record l i bs = Inr (x, rest)"
  then obtain t j v n mid ps where "text_fits (max_identity_length l) t" "id_from_wire diversity_proof_id_max t = Some j"
    "\<not> max_history l < unat (v :: u64)" "x = (j, ps)"
    "read_numbered (\<lambda>k. relabel (failed_to_decode (revision_label i k)) (decode_proof l)) 0 (unat v) mid = Inr (ps, n)"
    by (auto simp: history_record_def parser_success relabel_eq_Inr dest!: codec_ok split: option.splits)
  moreover have "length ps = unat v \<and> list_all (proof_storable l) ps"
    by (rule read_numbered_ok [OF _ calculation(5)]) (auto simp: relabel_eq_Inr dest: codec_ok)
  moreover have "unat v < 2 ^ 64" using unsigned_less [of v] by simp
  ultimately show ?thesis by (auto simp: history_ok_def list_fits_def intro: from_wire_fits)
qed

lemma decode_store_contents:
  assumes "decode_store l bs = Inr c"
  shows "contents_ok l (\<lambda>s. snapshot_content_ok l s \<and> finalize_snapshot s = s) c"
proof -
  obtain n epoch bs' rest where "read_sections l n epoch bs' = Inr (c, rest)"
    using assms by (auto simp: decode_store_def Let_def split: if_splits sum.splits)
  then show ?thesis
    using read_section_ok [where p = "policy_record l" and ok = "policy_storable l" and l = l, OF policy_record_ok]
      read_section_ok [where p = "proof_record_at l" and ok = "proof_storable l" and l = l, OF proof_record_ok]
      read_section_ok [where p = "session_record l" and ok = "session_ok l" and l = l, OF session_record_ok]
      read_section_ok [where p = "fenced_record l" and ok = "id_fits l worker_boot_id_max" and l = l, OF fenced_record_ok]
      read_section_ok [where p = "attempt_record l" and ok = "attempt_ok l" and l = l, OF attempt_record_ok]
      read_section_ok [where p = "history_record l" and ok = "history_ok l" and l = l, OF history_record_ok]
      read_section_ok [where p = "snapshot_record l" and ok = "\<lambda>s. snapshot_content_ok l s \<and> finalize_snapshot s = s" and l = l,
        OF snapshot_record_ok]
    by (auto simp: read_sections_def parser_success contents_ok_def)
qed

lemma storable_revision:
  assumes "proof_storable l p"
  shows "distinct (map pr_path (rq_paths (dpf_request p)))" "pm_order (dpf_matrix p) = map pr_path (rq_paths (dpf_request p))"
    "length (pm_cells (dpf_matrix p)) = cell_count (length (rq_paths (dpf_request p)))"
    "dpf_outcome p = PO_PROVEN_DIVERSE \<Longrightarrow> dpf_conflicts p = [] \<and> list_all cr_evidence_complete (dpf_classes p)"
    "dpf_lifecycle p = LS_CURRENT \<Longrightarrow> generations_bound (dpf_dependencies p)"
proof -
  have none: "revision_error p = None" and m: "matrix_ok l (dpf_matrix p)" using assms by (simp_all add: proof_storable_def)
  show "distinct (map pr_path (rq_paths (dpf_request p)))"
    using none by (auto simp: revision_error_def Let_def has_duplicate_paths_def split: if_splits)
  show order: "pm_order (dpf_matrix p) = map pr_path (rq_paths (dpf_request p))"
    using none by (intro nth_equalityI) (auto simp: revision_error_def Let_def list_ex_iff split: if_splits)
  show "length (pm_cells (dpf_matrix p)) = cell_count (length (rq_paths (dpf_request p)))"
    using m by (simp add: matrix_ok_def order)
  show "dpf_outcome p = PO_PROVEN_DIVERSE \<Longrightarrow> dpf_conflicts p = [] \<and> list_all cr_evidence_complete (dpf_classes p)"
    using none by (auto simp: revision_error_def Let_def list_ex_iff list_all_iff split: if_splits)
  show "dpf_lifecycle p = LS_CURRENT \<Longrightarrow> generations_bound (dpf_dependencies p)"
    using none by (auto simp: revision_error_def Let_def split: if_splits)
qed

section \<open>A store with one proof\<close>

definition sample_stored_proof :: diversity_proof where
  "sample_stored_proof = default_proof\<lparr>dpf_id := StringId ''d1'', dpf_generation := Generation 1,
     dpf_request := \<lparr>rq_policy = StringId ''p1'', rq_policy_generation = Generation 1,
       rq_paths = [PathRef (StringId ''a'') (Generation 1)]\<rparr>,
     dpf_matrix := \<lparr>pm_order = [StringId ''a''], pm_cells = []\<rparr>,
     dpf_provenance := \<lparr>pn_epoch = Generation 1, pn_publisher = StringId ''w1'', pn_boot = StringId ''b1'', pn_attempt = StringId ''t1''\<rparr>\<rparr>"

definition sample_contents :: store_contents where
  "sample_contents = empty_contents\<lparr>sc_epoch := Generation 7, sc_proofs := [sample_stored_proof]\<rparr>"

lemmas sample_contents_simps = sample_contents_def empty_contents_def sample_stored_proof_def default_proof_def
  empty_request_def default_provenance_def default_dependencies_def empty_matrix_def empty_witness_def

lemma sample_fits: "valid_identity_text ''d1'' diversity_proof_id_max" "valid_identity_text ''p1'' diversity_policy_id_max"
    "valid_identity_text ''a'' path_id_max" "valid_identity_text ''w1'' publisher_id_max"
    "valid_identity_text ''b1'' worker_boot_id_max" "valid_identity_text ''t1'' mutation_attempt_id_max"
    "\<not> has_duplicate_paths [PathRef (StringId ''a'') (Generation 1)]" "cell_count (Suc 0) = 0" "ascending []"
  by code_simp+

lemma sample_proof_storable: "proof_storable default_limits sample_stored_proof"
  by (simp add: sample_contents_simps proof_storable_def id_fits_def request_ok_def ref_ok_def list_fits_def text_fits_def
      matrix_ok_def witness_ok_def dependencies_ok_def provenance_ok_def revision_error_def Let_def default_limits_def sample_fits index_fits_def)

lemma sample_contents_ok: "contents_ok default_limits (snapshot_storable default_limits) sample_contents"
  using sample_proof_storable by (simp add: contents_ok_def sample_contents_def empty_contents_def list_fits_def default_limits_def)

lemma sample_contents_size: "length (encode_store sample_contents) \<le> max_store_bytes default_limits"
proof -
  have "length (encode_store sample_contents) \<le> 500" by code_simp
  then show ?thesis by (simp add: default_limits_def)
qed

section \<open>What a store guarantees\<close>

lemma store_content:
  assumes "contents_ok l (snapshot_storable l) c" "length (encode_store c) \<le> max_store_bytes l"
  shows "decode_store l (encode_store c) = Inr c"
proof -
  let ?sections = "put_list encode_policy (sc_policies c) @ put_list encode_proof (sc_proofs c) @
    put_list put_session (sc_sessions c) @ put_list write_id (sc_fenced_boots c) @ put_list put_attempt (sc_attempts c) @
    put_list put_history (sc_history c) @ put_list encode_snapshot (sc_snapshots c)"
  have "drop 8 (encode_payload c) = put_u32 (of_nat kPersistenceFormatVersion) @ put_u64 (gen_value (sc_epoch c)) @ ?sections"
    by (simp add: encode_payload_def put_generation_def)
  then show ?thesis
    using assms(2) payload_header [of c] read_sections_put [OF assms(1) order_refl]
    by (simp add: encode_store_def Let_def decode_store_framed codec_simps at_end_def del: take_append drop_append)
qed



text \<open>C18: A damaged store is never taken for a valid one: changing any single byte of a store that decodes, be it of the
  magic, of the content or of the trailer, makes it refused, as a malformed magic or as an integrity failure.\<close>

theorem store_detects_byte_change:
  assumes "decode_store l bs = Inr c" "i < length bs" "b \<noteq> bs ! i"
  shows "\<exists>detail. decode_store l (bs[i := b]) = Inl (PS_MALFORMED_MAGIC, detail) \<or>
    decode_store l (bs[i := b]) = Inl (PS_INTEGRITY_FAILURE, detail)"
proof -
  let ?n = "length bs - 8"
  let ?damaged = "bs[i := b]"
  have sizes: "length bs \<le> max_store_bytes l" "28 \<le> length bs"
    and whole: "(le_word (drop ?n bs) :: u64) = fnv1a64 (take ?n bs)"
    using assms(1) by (auto simp: decode_store_def kStoreTrailerBytes_def Let_def not_less split: if_splits)
  have "(le_word (drop ?n ?damaged) :: u64) \<noteq> fnv1a64 (take ?n ?damaged)"
  proof (cases "i < ?n")
    case True
    have split: "take ?n bs = take i bs @ bs ! i # drop (Suc i) (take ?n bs)"
      "take ?n ?damaged = take i bs @ b # drop (Suc i) (take ?n bs)"
      using True assms(2) id_take_nth_drop [of i "take ?n bs"] upd_conv_take_nth_drop [of i "take ?n bs" b]
      by (simp_all add: take_update_swap min_def)
    have "fnv1a64 (take ?n ?damaged) \<noteq> fnv1a64 (take ?n bs)"
      using fnv1a64_byte [of "take i bs" b "drop (Suc i) (take ?n bs)" "bs ! i"] assms(3) split by metis
    then show ?thesis using True whole by (simp add: drop_update_cancel)
  next
    case False
    then have "take ?n ?damaged = take ?n bs" by simp
    moreover have "(le_word (drop ?n ?damaged) :: u64) \<noteq> le_word (drop ?n bs)"
    proof
      assume eq: "(le_word (drop ?n ?damaged) :: u64) = le_word (drop ?n bs)"
      have byte: "bit (bs ! i) m = bit b m" if "m < 8" for m
      proof -
        let ?k = "8 * (i - ?n) + m"
        have "?k < 64" "?k div 8 = i - ?n" "?k mod 8 = m" using False assms(2) that by auto
        moreover have "length (drop ?n bs) = 8" using sizes by simp
        ultimately show ?thesis
          using arg_cong [OF eq, of "\<lambda>w. bit w ?k"] False assms(2) sizes by (simp add: bit_le_word)
      qed
      have "bs ! i = b" by (rule bit_word_eqI) (use byte in simp)
      with assms(3) show False by simp
    qed
    ultimately show ?thesis using whole by simp
  qed
  then show ?thesis using sizes by (simp add: decode_store_def kStoreTrailerBytes_def Let_def) auto
qed

lemma store_detects_byte_change_witness:
  "\<exists>detail. decode_store default_limits ((encode_store sample_contents)[0 := 0]) = Inl (PS_MALFORMED_MAGIC, detail) \<or>
    decode_store default_limits ((encode_store sample_contents)[0 := 0]) = Inl (PS_INTEGRITY_FAILURE, detail)"
proof (rule store_detects_byte_change)
  show "decode_store default_limits (encode_store sample_contents) = Inr sample_contents"
    by (rule store_content [OF sample_contents_ok sample_contents_size])
  show "0 < length (encode_store sample_contents)" "0 \<noteq> encode_store sample_contents ! 0" by code_simp+
qed

text \<open>C16: Nothing malformed comes out of a store, whatever its bytes are. Every policy of a store that decodes is
  acceptable. Every proof in it, and every revision of its history, has different paths and a matrix over exactly
  these paths, claims PROVEN_DIVERSE only with complete evidence and without conflicts, is current only with every
  generation set, and fits the record bounds, so that it can be stored again.\<close>

theorem decoded_store_is_valid:
  assumes "decode_store l bs = Inr c"
  shows "(\<forall>q\<in>set (sc_policies c). policy_acceptable q l \<and> decode_policy l (encode_policy q) = Inr (q, [])) \<and>
    (\<forall>p\<in>set (sc_proofs c) \<union> \<Union>(set ` snd ` set (sc_history c)).
       distinct (map pr_path (rq_paths (dpf_request p))) \<and>
       pm_order (dpf_matrix p) = map pr_path (rq_paths (dpf_request p)) \<and>
       length (pm_cells (dpf_matrix p)) = cell_count (length (rq_paths (dpf_request p))) \<and>
       (dpf_outcome p = PO_PROVEN_DIVERSE \<longrightarrow> dpf_conflicts p = [] \<and> list_all cr_evidence_complete (dpf_classes p)) \<and>
       (dpf_lifecycle p = LS_CURRENT \<longrightarrow> generations_bound (dpf_dependencies p)) \<and>
       decode_proof l (encode_proof p) = Inr (p, []))"
proof (intro conjI ballI)
  note ok = decode_store_contents [OF assms(1), unfolded contents_ok_def]
  fix q assume "q \<in> set (sc_policies c)"
  then have q: "policy_storable l q" using ok by (auto simp: list_fits_def list_all_iff)
  then show "policy_acceptable q l" by (simp add: policy_storable_def validate_policy_verdict)
  show "decode_policy l (encode_policy q) = Inr (q, [])" using policy_codec.decode_encode [OF q, of "[]"] by simp
next
  note ok = decode_store_contents [OF assms(1), unfolded contents_ok_def]
  fix p assume "p \<in> set (sc_proofs c) \<union> \<Union>(set ` snd ` set (sc_history c))"
  then have p: "proof_storable l p" using ok by (auto simp: list_fits_def list_all_iff history_ok_def)
  show "distinct (map pr_path (rq_paths (dpf_request p)))"
    "pm_order (dpf_matrix p) = map pr_path (rq_paths (dpf_request p))"
    "length (pm_cells (dpf_matrix p)) = cell_count (length (rq_paths (dpf_request p)))"
    "dpf_outcome p = PO_PROVEN_DIVERSE \<longrightarrow> dpf_conflicts p = [] \<and> list_all cr_evidence_complete (dpf_classes p)"
    "dpf_lifecycle p = LS_CURRENT \<longrightarrow> generations_bound (dpf_dependencies p)"
    "decode_proof l (encode_proof p) = Inr (p, [])"
    using storable_revision [OF p] proof_codec.decode_encode [OF p, of "[]"] by simp_all
qed

definition sample_policy_contents :: store_contents where
  "sample_policy_contents = sample_contents\<lparr>sc_policies := [sample_policy]\<rparr>"

lemma sample_policy_contents_decoded:
  "decode_store default_limits (encode_store sample_policy_contents) = Inr sample_policy_contents"
proof (rule store_content)
  have "policy_storable default_limits sample_policy"
  proof -
    have "valid_identity_text ''p'' diversity_policy_id_max" "valid_identity_text ''s'' scope_id_max" by code_simp+
    then show ?thesis
      by (simp add: policy_storable_def validate_policy_verdict policy_acceptable_def sample_policy_def default_policy_def
          id_fits_def list_fits_def text_fits_def index_fits_def id_valid_def gen_is_set_def) (simp add: default_limits_def)
  qed
  then show "contents_ok default_limits (snapshot_storable default_limits) sample_policy_contents"
    using sample_contents_ok by (simp add: contents_ok_def sample_policy_contents_def list_fits_def default_limits_def)
  have "length (encode_store sample_policy_contents) \<le> 1000" by code_simp
  then show "length (encode_store sample_policy_contents) \<le> max_store_bytes default_limits" by (simp add: default_limits_def)
qed

lemma decoded_store_is_valid_witness:
  "policy_acceptable sample_policy default_limits \<and> distinct (map pr_path (rq_paths (dpf_request sample_stored_proof)))"
  using decoded_store_is_valid [OF sample_policy_contents_decoded]
  by (simp add: sample_policy_contents_def sample_contents_def)

end
