(* ===== verification/StoreFile.thy ===== *)
theory StoreFile
  imports Store
begin

text \<open>
  The store file, the last part of \<open>src/persistence_store.cpp\<close>. The file system is a map from paths to contents;
  what the calls into it do is their documented behaviour, and which of them fails is an input. Replacing a
  store is the list of file states it passes through, because a crash leaves whichever state was reached: opening
  truncates the temporary file, writing appends to it byte by byte, renaming replaces the target in one step.
\<close>

type_synonym files = "string \<Rightarrow> bytes option"

datatype write_outcome =
    WO_Done
  | WO_Open_Fails
  | WO_Write_Fails nat bool
  | WO_Rename_Fails bool

text \<open>
  A failed write got that many bytes into the file; the flag of both failures says whether the removal of the
  temporary file, whose error the code ignores, succeeded. A crash is the death of the process: nothing in the
  code asks for a flush to the disk, so a loss of power is outside this model.

  The process identity and the serial number of the write make the name of the temporary sibling.\<close>

definition temporary_path :: "string \<Rightarrow> nat \<Rightarrow> nat \<Rightarrow> string" where
  "temporary_path target process tag = target @ ''.tmp-'' @ decimal process @ ''-'' @ decimal tag"

definition writing_states :: "string \<Rightarrow> bytes \<Rightarrow> nat \<Rightarrow> files \<Rightarrow> files list" where
  "writing_states temporary bs written fs = map (\<lambda>k. fs(temporary \<mapsto> take k bs)) [0..<Suc written]"

definition write_store_atomic ::
  "write_outcome \<Rightarrow> string \<Rightarrow> string \<Rightarrow> bytes \<Rightarrow> files \<Rightarrow> files list \<times> persistence_status" where
  "write_store_atomic outcome temporary target bs fs =
     (let removed = fs(temporary := None); removal = (\<lambda>ok. if ok then [removed] else [])
      in case outcome of
           WO_Open_Fails \<Rightarrow> ([fs], PS_IO_FAILURE)
         | WO_Write_Fails n ok \<Rightarrow> (fs # writing_states temporary bs n fs @ removal ok, PS_IO_FAILURE)
         | WO_Rename_Fails ok \<Rightarrow> (fs # writing_states temporary bs (length bs) fs @ removal ok, PS_ATOMIC_REPLACE_FAILURE)
         | WO_Done \<Rightarrow> (fs # writing_states temporary bs (length bs) fs @ [removed(target \<mapsto> bs)], PS_OK))"

datatype read_outcome =
    RO_Done
  | RO_Open_Fails
  | RO_Short

definition read_store_bytes :: "read_outcome \<Rightarrow> limits \<Rightarrow> string \<Rightarrow> files \<Rightarrow> persistence_status + bytes" where
  "read_store_bytes outcome l path fs =
     (case fs path of
        None \<Rightarrow> Inl PS_IO_FAILURE
      | Some bs \<Rightarrow>
          if length bs = 0 then Inl PS_EMPTY_FILE
          else if max_store_bytes l < length bs then Inl PS_SIZE_LIMIT_EXCEEDED
          else case outcome of
              RO_Open_Fails \<Rightarrow> Inl PS_IO_FAILURE
            | RO_Short \<Rightarrow> Inl PS_IO_FAILURE
            | RO_Done \<Rightarrow> Inr bs)"

section \<open>Replacement is atomic\<close>

lemma temporary_path_differs [simp]: "temporary_path target process tag \<noteq> target" "target \<noteq> temporary_path target process tag"
  by (simp_all add: temporary_path_def)

lemma writing_states_target: "s \<in> set (writing_states temporary bs n fs) \<Longrightarrow> p \<noteq> temporary \<Longrightarrow> s p = fs p"
  by (auto simp: writing_states_def)

text \<open>What \<open>load\<close> sees in a file: its content when it decodes.\<close>

definition stored_contents :: "limits \<Rightarrow> string \<Rightarrow> files \<Rightarrow> store_contents option" where
  "stored_contents l path fs =
     (case read_store_bytes RO_Done l path fs of
        Inl status \<Rightarrow> None
      | Inr bs \<Rightarrow> (case decode_store l bs of Inl e \<Rightarrow> None | Inr c \<Rightarrow> Some c))"

lemma write_states_target:
  assumes "write_store_atomic outcome temporary target bs fs = (states, status)" "s \<in> set states" "temporary \<noteq> target"
  shows "(s target = fs target \<or> s = last states \<and> status = PS_OK \<and> s target = Some bs) \<and>
    (\<forall>p. p \<noteq> target \<and> p \<noteq> temporary \<longrightarrow> s p = fs p)"
  using assms by (auto simp: write_store_atomic_def Let_def writing_states_target split: write_outcome.splits)

text \<open>C12: Saving is crash safe. Wherever a replacement of the store is interrupted and whatever fails in it, the file
  under the target path is the old one or, once everything was written and renamed, the new one, so what can be
  loaded is the old content or the saved content and never a mixture; no other file is touched, the call answers
  OK exactly when the new content is in place, and it leaves no temporary file behind unless the
  removal after a failure fails too.\<close>

theorem replacement_is_crash_safe:
  assumes "write_store_atomic outcome (temporary_path target process tag) target (encode_store c) fs = (states, status)"
    and "contents_ok l (snapshot_storable l) c" "length (encode_store c) \<le> max_store_bytes l"
    and "s \<in> set states"
  shows "(stored_contents l target s = stored_contents l target fs \<or> stored_contents l target s = Some c) \<and>
    (status = PS_OK \<longrightarrow> stored_contents l target (last states) = Some c) \<and>
    (status \<noteq> PS_OK \<longrightarrow> last states target = fs target) \<and>
    (\<forall>p. p \<noteq> target \<and> p \<noteq> temporary_path target process tag \<longrightarrow> s p = fs p) \<and>
    (outcome \<in> {WO_Done, WO_Write_Fails n True, WO_Rename_Fails True} \<longrightarrow> last states (temporary_path target process tag) = None)"
proof -
  have new: "stored_contents l target fs' = Some c" if "fs' target = Some (encode_store c)" for fs'
    using that assms(3) store_content [OF assms(2,3)] payload_header [of c]
    by (simp add: stored_contents_def read_store_bytes_def encode_store_def Let_def)
  have same: "stored_contents l target fs' = stored_contents l target fs" if "fs' target = fs target" for fs'
    using that by (simp add: stored_contents_def read_store_bytes_def)
  note s = write_states_target [OF assms(1,4)]
  have seen: "stored_contents l target s = stored_contents l target fs \<or> stored_contents l target s = Some c"
    using s same [of s] new [of s] by (metis temporary_path_differs(1))
  have after_ok: "status = PS_OK \<Longrightarrow> last states target = Some (encode_store c)"
    using assms(1) by (cases outcome) (auto simp: write_store_atomic_def Let_def)
  have after_failure: "status \<noteq> PS_OK \<Longrightarrow> last states target = fs target"
    using assms(1) by (cases outcome) (auto simp: write_store_atomic_def Let_def writing_states_def)
  have tidy: "outcome \<in> {WO_Done, WO_Write_Fails n True, WO_Rename_Fails True} \<Longrightarrow> last states (temporary_path target process tag) = None"
    using assms(1) by (cases outcome) (auto simp: write_store_atomic_def Let_def)
  have "status = PS_OK \<Longrightarrow> stored_contents l target (last states) = Some c"
    by (rule new) (rule after_ok)
  then show ?thesis
    using seen s tidy after_failure temporary_path_differs(1) by metis
qed

lemma replacement_is_crash_safe_witness:
  "stored_contents default_limits ''s''
     (last (fst (write_store_atomic WO_Done (temporary_path ''s'' 1 1) ''s'' (encode_store sample_contents) Map.empty))) =
   Some sample_contents"
proof -
  define result where "result = write_store_atomic WO_Done (temporary_path ''s'' 1 1) ''s'' (encode_store sample_contents) Map.empty"
  have "result = (fst result, PS_OK)" "last (fst result) \<in> set (fst result)"
    by (simp_all add: result_def write_store_atomic_def Let_def)
  then show ?thesis
    using replacement_is_crash_safe [OF _ sample_contents_ok sample_contents_size, of WO_Done "''s''" 1 1 Map.empty "fst result" PS_OK
        "last (fst result)"] by (simp add: result_def [symmetric]) (simp add: result_def write_store_atomic_def)
qed

end
