(* ===== verification/RuntimeStore.thy ===== *)
theory RuntimeStore
  imports RuntimeSteps StoreFile
begin

text \<open>
  Saving and loading a runtime, \<open>src/runtime_store.cpp\<close>: which part of the state is persisted, how a loaded
  content is merged into the registries, how the reverse indexes are rebuilt, and what a restart keeps.

  A digest field that is too short makes the decoder read past its end (\<open>undefined_read\<close>); \<open>load\<close> has no
  defined answer then, and the model answers with the unchanged runtime and the status OK.
\<close>

section \<open>Save\<close>

definition save_contents :: "runtime \<Rightarrow> store_contents" where
  "save_contents rt =
     \<lparr>sc_epoch = pa_epoch (rt_publication rt), sc_policies = map snd (rt_policies rt),
      sc_proofs = map (\<lambda>e. rec_current (snd e)) (rt_proofs rt), sc_sessions = [],
      sc_fenced_boots = fenced_boots (rt_publication rt), sc_attempts = [],
      sc_history = map (\<lambda>e. (fst e, rec_history (snd e))) (filter (\<lambda>e. rec_history (snd e) \<noteq> []) (rt_proofs rt)),
      sc_snapshots = map (\<lambda>e. last (rec_snapshots (snd e))) (filter (\<lambda>e. rec_snapshots (snd e) \<noteq> []) (rt_proofs rt))\<rparr>"

definition save :: "write_outcome \<Rightarrow> string \<Rightarrow> string \<Rightarrow> runtime \<Rightarrow> files \<Rightarrow> files list \<times> persistence_status" where
  "save outcome temporary target rt fs = write_store_atomic outcome temporary target (encode_store (save_contents rt)) fs"

section \<open>Load\<close>

definition loaded_record :: "diversity_proof \<Rightarrow> proof_record" where
  "loaded_record p = \<lparr>rec_current = p, rec_history = [], rec_snapshots = [capture_snapshot p]\<rparr>"

definition attach_history ::
  "diversity_proof_id \<times> diversity_proof list \<Rightarrow> (diversity_proof_id, proof_record) omap \<Rightarrow> (diversity_proof_id, proof_record) omap" where
  "attach_history h m = (case map_of m (fst h) of
      None \<Rightarrow> m
    | Some r \<Rightarrow> om_put (fst h) (r\<lparr>rec_history := snd h\<rparr>) m)"

text \<open>The domains and risk groups a proof is filed under again: those its class conflicts name.\<close>

definition class_conflicts :: "diversity_proof \<Rightarrow> shared_resource list" where
  "class_conflicts p = concat (map cr_shared (dpf_classes p))"

definition named_risk_group :: "shared_resource \<Rightarrow> shared_risk_group_id option" where
  "named_risk_group c =
     (if sr_kind c = CC_SHARED_RISK_GROUP then try_parse shared_risk_group_id_max (sr_id c) else None)"

definition named_domain :: "shared_resource \<Rightarrow> failure_domain_id option" where
  "named_domain c =
     (if sr_kind c \<noteq> CC_SHARED_RISK_GROUP \<and> relation_for_conflict_class (sr_kind c) \<noteq> None
      then try_parse failure_domain_id_max (sr_id c) else None)"

definition index_stored :: "diversity_proof_id \<times> proof_record \<Rightarrow> runtime \<Rightarrow> runtime" where
  "index_stored entry rt =
     (let i = fst entry; p = rec_current (snd entry); b = dpf_dependencies p; cs = class_conflicts p
      in rt\<lparr>rt_by_path := fold (\<lambda>r. om_add (pr_path r) i) (rq_paths (dpf_request p)) (rt_by_path rt),
            rt_by_domain := fold (\<lambda>d. om_add d i) (List.map_filter named_domain cs) (rt_by_domain rt),
            rt_by_risk_group := fold (\<lambda>g. om_add g i) (List.map_filter named_risk_group cs) (rt_by_risk_group rt),
            rt_by_entity := fold (\<lambda>e. om_add e i) (db_topology_entities b) (rt_by_entity rt),
            rt_by_policy := om_add (rq_policy (dpf_request p)) i (rt_by_policy rt),
            rt_by_boot := om_add (pn_boot (dpf_provenance p)) i (rt_by_boot rt),
            rt_by_topology := om_add (db_topology_generation b) i (rt_by_topology rt),
            rt_by_failure_domain := om_add (db_failure_domain_generation b) i (rt_by_failure_domain rt)\<rparr>)"

definition restored_epoch :: "store_contents \<Rightarrow> publication_authority \<Rightarrow> publication_authority" where
  "restored_epoch c pa = (if gen_is_set (sc_epoch c) then snd (restore_epoch (sc_epoch c) pa) else pa)"

definition restored_publication :: "store_contents \<Rightarrow> publication_authority \<Rightarrow> publication_authority" where
  "restored_publication c pa =
     fold (\<lambda>boot pa. snd (fence_boot boot pa)) (sc_fenced_boots c) (restored_epoch c pa)"

definition load_contents :: "store_contents \<Rightarrow> runtime \<Rightarrow> runtime" where
  "load_contents c rt =
     (let policies = fold (\<lambda>p. om_put (dp_id p) p) (sc_policies c) (rt_policies rt);
          currents = fold (\<lambda>p. om_put (dpf_id p) (loaded_record p)) (sc_proofs c) (rt_proofs rt);
          proofs = fold attach_history (sc_history c) currents
      in fold index_stored proofs
           (rt\<lparr>rt_publication := restored_publication c (rt_publication rt), rt_policies := policies, rt_proofs := proofs\<rparr>))"

definition load :: "read_outcome \<Rightarrow> string \<Rightarrow> files \<Rightarrow> runtime \<Rightarrow> persistence_status \<times> runtime" where
  "load outcome path fs rt =
     (case read_store_bytes outcome (rt_limits rt) path fs of
        Inl status \<Rightarrow> (status, rt)
      | Inr bs \<Rightarrow>
          (case decode_store (rt_limits rt) bs of
             Inl (status, detail) \<Rightarrow> (status, rt)
           | Inr c \<Rightarrow> (PS_OK, load_contents c rt)))"

section \<open>Rebuilding the registries\<close>

lemma om_put_last: "\<forall>e\<in>set m. fst e < k \<Longrightarrow> om_put k v m = m @ [(k, v)]"
  by (induction m) auto

lemma fold_om_put_sorted:
  "om_sorted xs \<Longrightarrow> \<forall>e\<in>set m. \<forall>x\<in>set xs. fst e < fst x \<Longrightarrow> fold (\<lambda>e. om_put (fst e) (snd e)) xs m = m @ xs"
  by (induction xs arbitrary: m) (auto simp: om_sorted_def om_put_last)

lemma attach_history_lookup:
  "map_of (attach_history h m) i =
     map_option (\<lambda>r. if i = fst h then r\<lparr>rec_history := snd h\<rparr> else r) (map_of m i)"
  by (auto simp: attach_history_def map_option_case omap.get_put split: option.split)

lemma fold_attach_lookup:
  "distinct (map fst hs) \<Longrightarrow> map_of (fold attach_history hs m) i =
     map_option (\<lambda>r. case map_of hs i of None \<Rightarrow> r | Some h \<Rightarrow> r\<lparr>rec_history := h\<rparr>) (map_of m i)"
proof (induction hs arbitrary: m)
  case (Cons h hs)
  have "map_of hs (fst h) = None" using Cons.prems by (simp add: map_of_eq_None_iff)
  with Cons show ?case
    by (cases "map_of m i") (auto simp: attach_history_lookup split: option.split)
qed (simp add: option.map_ident)

lemma fold_attach_sorted: "om_sorted m \<Longrightarrow> om_sorted (fold attach_history hs m)"
  by (induction hs arbitrary: m) (auto simp: attach_history_def omap.ok_put split: option.split)

lemma fold_attach_length: "om_sorted m \<Longrightarrow> length (fold attach_history hs m) = length m"
proof (induction hs arbitrary: m)
  case (Cons h hs)
  then show ?case
    using fold_attach_sorted [of m "[h]"] by (auto simp: attach_history_def om_put_present split: option.split)
qed simp

lemma map_of_selected:
  "distinct (map fst xs) \<Longrightarrow>
   map_of (map (\<lambda>e. (fst e, f (snd e))) (filter (\<lambda>e. P (snd e)) xs)) i =
     (case map_of xs i of None \<Rightarrow> None | Some r \<Rightarrow> if P r then Some (f r) else None)"
proof (induction xs)
  case (Cons x xs)
  have "map_of (map (\<lambda>e. (fst e, f (snd e))) (filter (\<lambda>e. P (snd e)) xs)) (fst x) = None"
  proof -
    have "fst ` set (map (\<lambda>e. (fst e, f (snd e))) (filter (\<lambda>e. P (snd e)) xs)) \<subseteq> fst ` set xs"
      by (simp add: image_image) blast
    then show ?thesis using Cons.prems unfolding map_of_eq_None_iff by auto
  qed
  with Cons show ?case by auto
qed simp

lemma fold_keyed_list:
  assumes "om_sorted xs" "\<And>e. e \<in> set xs \<Longrightarrow> key (f (snd e)) = fst e"
  shows "fold (\<lambda>p. om_put (key p) (g p)) (map (\<lambda>e. f (snd e)) xs) [] = map (\<lambda>e. (fst e, g (f (snd e)))) xs"
proof -
  have "fold (\<lambda>p. om_put (key p) (g p)) (map (\<lambda>e. f (snd e)) xs) [] =
      fold (\<lambda>e. om_put (fst e) (snd e)) (map (\<lambda>e. (fst e, g (f (snd e)))) xs) []"
    unfolding fold_map by (rule fold_cong) (auto simp: assms(2))
  also have "\<dots> = map (\<lambda>e. (fst e, g (f (snd e)))) xs"
    using fold_om_put_sorted [of "map (\<lambda>e. (fst e, g (f (snd e)))) xs" "[]"] assms(1)
    by (simp add: om_sorted_def comp_def)
  finally show ?thesis .
qed

section \<open>Rebuilding the indexes\<close>

lemma index_stored_fields [simp]:
  "rt_limits (index_stored e rt) = rt_limits rt" "rt_publication (index_stored e rt) = rt_publication rt"
  "rt_policies (index_stored e rt) = rt_policies rt" "rt_proofs (index_stored e rt) = rt_proofs rt"
  "rt_stats (index_stored e rt) = rt_stats rt"
  by (simp_all add: index_stored_def Let_def)

lemma fold_index_fields [simp]:
  "rt_limits (fold index_stored es rt) = rt_limits rt" "rt_publication (fold index_stored es rt) = rt_publication rt"
  "rt_policies (fold index_stored es rt) = rt_policies rt" "rt_proofs (fold index_stored es rt) = rt_proofs rt"
  "rt_stats (fold index_stored es rt) = rt_stats rt"
  by (induction es arbitrary: rt) simp_all

text \<open>Restoring the indexes of a proof is indexing a revision that consulted what its conflicts name.\<close>

lemma index_stored_revision:
  "index_stored e rt =
     index_revision (default_result\<lparr>ev_consulted_domains := List.map_filter named_domain (class_conflicts (rec_current (snd e))),
         ev_consulted_risk_groups := List.map_filter named_risk_group (class_conflicts (rec_current (snd e)))\<rparr>)
       ((rec_current (snd e))\<lparr>dpf_id := fst e\<rparr>) rt"
  by (simp add: index_stored_def index_revision_def Let_def)

lemma indexed_other_id: "indexed rt i (p\<lparr>dpf_id := j\<rparr>) = indexed rt i p"
  by (simp add: indexed_def is_current_def)

lemma indexed_stored: "indexed (index_stored e rt) (fst e) (rec_current (snd e))"
  unfolding index_stored_revision
  using indexed_self [of _ "(rec_current (snd e))\<lparr>dpf_id := fst e\<rparr>"] by (simp add: indexed_other_id)

lemma indexed_stored_mono: "indexed rt i p \<Longrightarrow> indexed (index_stored e rt) i p"
  unfolding index_stored_revision by (rule indexed_mono)

lemma indexed_fold_mono: "indexed rt i p \<Longrightarrow> indexed (fold index_stored es rt) i p"
  by (induction es arbitrary: rt) (simp_all add: indexed_stored_mono)

lemma indexed_fold: "(i, r) \<in> set es \<Longrightarrow> indexed (fold index_stored es rt) i (rec_current r)"
proof (induction es arbitrary: rt)
  case (Cons e es)
  then show ?case using indexed_stored [of e rt] by (auto intro: indexed_fold_mono)
qed simp

section \<open>The restored publication authority\<close>

lemma restored_publication_fields [simp]:
  "pa_limits (restored_publication c pa) = pa_limits pa"
  "pa_epoch (restored_publication c pa) =
     (if gen_is_set (sc_epoch c) then pa_epoch (snd (restore_epoch (sc_epoch c) pa)) else pa_epoch pa)"
  "pa_attempts (restored_publication c pa) = pa_attempts pa"
proof -
  have "pa_limits (fold (\<lambda>boot pa. snd (fence_boot boot pa)) bs q) = pa_limits q \<and>
      pa_epoch (fold (\<lambda>boot pa. snd (fence_boot boot pa)) bs q) = pa_epoch q \<and>
      pa_attempts (fold (\<lambda>boot pa. snd (fence_boot boot pa)) bs q) = pa_attempts q" for bs q
    by (induction bs arbitrary: q) (simp_all add: fence_boot_def)
  then show "pa_limits (restored_publication c pa) = pa_limits pa"
    "pa_epoch (restored_publication c pa) =
       (if gen_is_set (sc_epoch c) then pa_epoch (snd (restore_epoch (sc_epoch c) pa)) else pa_epoch pa)"
    "pa_attempts (restored_publication c pa) = pa_attempts pa"
    by (simp_all add: restored_publication_def restored_epoch_def restore_epoch_def)
qed

lemma restore_epoch_sessions [simp]:
  "pa_sessions (snd (restore_epoch e pa)) = pa_sessions pa" "pa_fenced (snd (restore_epoch e pa)) = pa_fenced pa"
  by (simp_all add: restore_epoch_def)

lemma is_fenced_fence: "is_fenced (snd (fence_boot b pa)) x \<longleftrightarrow> is_fenced pa x \<or> x = b \<and> id_valid b"
  by (auto simp: fence_boot_def is_fenced_def omap.get_put)

lemma restored_fences: "is_fenced (restored_publication c pa) b \<longleftrightarrow> is_fenced pa b \<or> b \<in> set (sc_fenced_boots c) \<and> id_valid b"
proof -
  have "is_fenced (fold (\<lambda>boot pa. snd (fence_boot boot pa)) bs q) b \<longleftrightarrow> is_fenced q b \<or> b \<in> set bs \<and> id_valid b" for bs q
    by (induction bs arbitrary: q) (auto simp: is_fenced_fence)
  then show ?thesis by (simp add: restored_publication_def restored_epoch_def is_fenced_def)
qed

lemma restored_session:
  "map_of (pa_sessions (restored_publication c pa)) b =
     map_option (\<lambda>s. if b \<in> set (sc_fenced_boots c) \<and> id_valid b then s\<lparr>ps_fenced := True\<rparr> else s) (map_of (pa_sessions pa) b)"
proof -
  have "map_of (pa_sessions (fold (\<lambda>boot pa. snd (fence_boot boot pa)) bs q)) b =
      map_option (\<lambda>s. if b \<in> set bs \<and> id_valid b then s\<lparr>ps_fenced := True\<rparr> else s) (map_of (pa_sessions q) b)" for bs q
  proof (induction bs arbitrary: q)
    case (Cons a bs)
    have step: "map_of (pa_sessions (snd (fence_boot a q))) b =
        map_option (\<lambda>s. if b = a \<and> id_valid b then s\<lparr>ps_fenced := True\<rparr> else s) (map_of (pa_sessions q) b)"
      by (cases "map_of (pa_sessions q) b") (auto simp: fence_boot_def omap.get_put split: option.split)
    show ?case by (cases "map_of (pa_sessions q) b") (auto simp: Cons.IH step)
  qed (simp add: option.map_ident)
  then show ?thesis by (simp add: restored_publication_def restored_epoch_def)
qed

lemma restored_authority_inv: "authority_inv pa \<Longrightarrow> authority_inv (restored_publication c pa)"
proof -
  have "authority_inv q \<Longrightarrow> authority_inv (fold (\<lambda>boot pa. snd (fence_boot boot pa)) bs q)" for bs q
    by (induction bs arbitrary: q) (simp_all add: fence_boot_inv)
  then show "authority_inv pa \<Longrightarrow> ?thesis" by (simp add: restored_publication_def restored_epoch_def restore_epoch_inv)
qed

lemma load_contents_fields [simp]:
  "rt_limits (load_contents c rt) = rt_limits rt"
  "rt_publication (load_contents c rt) = restored_publication c (rt_publication rt)"
  "rt_policies (load_contents c rt) = fold (\<lambda>p. om_put (dp_id p) p) (sc_policies c) (rt_policies rt)"
  "rt_proofs (load_contents c rt) =
     fold attach_history (sc_history c) (fold (\<lambda>p. om_put (dpf_id p) (loaded_record p)) (sc_proofs c) (rt_proofs rt))"
  by (simp_all add: load_contents_def Let_def)

end
