(* ===== verification/RuntimeLife.thy ===== *)
theory RuntimeLife
  imports RuntimeStore
begin

text \<open>
  The life of a runtime: the public operations of \<open>RuntimeSteps\<close> and \<open>DiversityRuntime::load\<close> in any order. A load merges
  what the file holds into the registries without looking at the registry bounds, the generation of a proof or its
  identity; \<open>load_fits\<close> says when the outcome is within them, and what a runtime saves fits into an empty one. The
  invariant of the runtime needs loads that fit, what concerns a fence does not. A refused load changes nothing and is
  no step.
\<close>

section \<open>What a load brings\<close>

definition load_fits :: "store_contents \<Rightarrow> runtime \<Rightarrow> bool" where
  "load_fits c rt \<longleftrightarrow>
     length (rt_policies (load_contents c rt)) \<le> max_policies (rt_limits rt) \<and>
     length (rt_proofs (load_contents c rt)) \<le> max_proofs (rt_limits rt) \<and>
     (\<forall>p\<in>set (sc_proofs c). proof_identity (dpf_request p) = dpf_id p \<and> gen_is_set (dpf_generation p))"

text \<open>The steps of a life. The loads may be restricted by \<open>P\<close>, on what is loaded and what loads it.\<close>

inductive life_step :: "(store_contents \<Rightarrow> runtime \<Rightarrow> bool) \<Rightarrow> runtime \<Rightarrow> runtime \<Rightarrow> bool" for P where
  operation: "runtime_step rt rt' \<Longrightarrow> life_step P rt rt'"
| load: "read_store_bytes outcome (rt_limits rt) path fs = Inr bs \<Longrightarrow> decode_store (rt_limits rt) bs = Inr c \<Longrightarrow>
    P c rt \<Longrightarrow> life_step P rt (snd (load outcome path fs rt))"

lemma fits_valid: "id_fits l m i \<Longrightarrow> id_valid i"
  by (auto simp: id_fits_def id_valid_def valid_identity_text_def)

lemma life_step_elim:
  assumes "life_step P rt rt'"
  obtains (operation) "runtime_step rt rt'"
    | (load) snapshot_ok c where "contents_ok (rt_limits rt) snapshot_ok c" "P c rt" "rt' = load_contents c rt"
  using assms by (cases rule: life_step.cases) (auto simp: load_def dest: decode_store_contents)

lemma load_life:
  assumes "load outcome path fs rt = (PS_OK, rt')" "rt' \<noteq> rt"
    and "\<And>c. rt' = load_contents c rt \<Longrightarrow> P c rt"
  shows "life_step P rt rt'"
proof -
  obtain bs c where c: "read_store_bytes outcome (rt_limits rt) path fs = Inr bs" "decode_store (rt_limits rt) bs = Inr c"
    "rt' = load_contents c rt"
    using assms(1,2) by (auto simp: load_def split: sum.splits)
  then show ?thesis using life_step.load [OF c(1,2)] assms(1) assms(3) [OF c(3)] by simp
qed

lemma life_weaken: "(life_step P)\<^sup>*\<^sup>* rt rt' \<Longrightarrow> (\<And>c rt. P c rt \<Longrightarrow> Q c rt) \<Longrightarrow> (life_step Q)\<^sup>*\<^sup>* rt rt'"
proof (induction rule: rtranclp_induct)
  case (step y z)
  have "life_step Q y z" using step(2,4) by (cases rule: life_step.cases) (auto intro: life_step.intros)
  then show ?case using step(3) [OF step(4)] by (simp add: rtranclp.rtrancl_into_rtrancl)
qed simp

lemma operations_life: "runtime_step\<^sup>*\<^sup>* rt rt' \<Longrightarrow> (life_step P)\<^sup>*\<^sup>* rt rt'"
  by (induction rule: rtranclp_induct) (auto intro: life_step.operation rtranclp.rtrancl_into_rtrancl)

section \<open>What a load keeps\<close>

lemma fold_put_lookup:
  "map_of (fold (\<lambda>p. om_put (key p) (g p)) ps m) i = Some v \<Longrightarrow> (\<exists>p\<in>set ps. key p = i \<and> v = g p) \<or> map_of m i = Some v"
proof (induction ps arbitrary: m)
  case (Cons p ps)
  have "(\<exists>q\<in>set ps. key q = i \<and> v = g q) \<or> map_of (om_put (key p) (g p) m) i = Some v"
    by (rule Cons.IH) (use Cons.prems in simp)
  then show ?case by (auto split: if_splits)
qed simp

lemma fold_put_sorted: "om_sorted m \<Longrightarrow> om_sorted (fold (\<lambda>p. om_put (key p) (g p)) ps m)"
  by (induction ps arbitrary: m) (simp_all add: om_sorted_put)

lemma fold_attach_cases:
  "map_of (fold attach_history hs m) i = Some r \<Longrightarrow> \<exists>r0. map_of m i = Some r0 \<and> rec_current r = rec_current r0 \<and>
     rec_snapshots r = rec_snapshots r0 \<and> (rec_history r = rec_history r0 \<or> rec_history r \<in> snd ` set hs)"
proof (induction hs arbitrary: m)
  case (Cons h hs)
  from Cons.IH [of "attach_history h m"] Cons.prems obtain r0 where
    r0: "map_of (attach_history h m) i = Some r0" "rec_current r = rec_current r0" "rec_snapshots r = rec_snapshots r0"
      "rec_history r = rec_history r0 \<or> rec_history r \<in> snd ` set hs" by auto
  then show ?case by (cases "map_of m i") (auto simp: attach_history_lookup)
qed simp

lemma fold_attach_current:
  "map_of m i = Some r0 \<Longrightarrow> \<exists>r. map_of (fold attach_history hs m) i = Some r \<and> rec_current r = rec_current r0"
proof (induction hs arbitrary: m r0)
  case (Cons h hs)
  have "map_of (attach_history h m) i = Some (if i = fst h then r0\<lparr>rec_history := snd h\<rparr> else r0)"
    using Cons.prems by (simp add: attach_history_lookup)
  from Cons.IH [OF this] show ?case by auto
qed simp

lemma loaded_record_cases:
  assumes "map_of (rt_proofs (load_contents c rt)) i = Some r"
  shows "\<exists>r0. (map_of (rt_proofs rt) i = Some r0 \<or> (\<exists>p\<in>set (sc_proofs c). dpf_id p = i \<and> r0 = loaded_record p)) \<and>
    rec_current r = rec_current r0 \<and> rec_snapshots r = rec_snapshots r0 \<and>
    (rec_history r = rec_history r0 \<or> rec_history r \<in> snd ` set (sc_history c))"
proof -
  obtain r0 where r0: "map_of (fold (\<lambda>p. om_put (dpf_id p) (loaded_record p)) (sc_proofs c) (rt_proofs rt)) i = Some r0"
    "rec_current r = rec_current r0" "rec_snapshots r = rec_snapshots r0"
    "rec_history r = rec_history r0 \<or> rec_history r \<in> snd ` set (sc_history c)"
    using fold_attach_cases assms unfolding load_contents_fields by blast
  then show ?thesis using fold_put_lookup [OF r0(1)] by auto
qed

lemma loaded_policy_cases:
  "map_of (rt_policies (load_contents c rt)) i = Some p \<Longrightarrow>
     map_of (rt_policies rt) i = Some p \<or> p \<in> set (sc_policies c) \<and> dp_id p = i"
  unfolding load_contents_fields by (drule fold_put_lookup) auto

lemma load_bounded:
  assumes "contents_ok (rt_limits rt) snapshot_ok c" "load_fits c rt" "0 < max_history (rt_limits rt)" "registry_bounded rt"
  shows "registry_bounded (load_contents c rt)"
proof -
  have "length (rec_history r) \<le> max_history (rt_limits rt) \<and> length (rec_snapshots r) \<le> max_history (rt_limits rt)"
    if found: "map_of (rt_proofs (load_contents c rt)) i = Some r" for i r
  proof -
    obtain r0 where r0: "map_of (rt_proofs rt) i = Some r0 \<or> (\<exists>p\<in>set (sc_proofs c). dpf_id p = i \<and> r0 = loaded_record p)"
        "rec_snapshots r = rec_snapshots r0" "rec_history r = rec_history r0 \<or> rec_history r \<in> snd ` set (sc_history c)"
      using loaded_record_cases [OF found] by blast
    have "length (rec_history r0) \<le> max_history (rt_limits rt) \<and> length (rec_snapshots r0) \<le> max_history (rt_limits rt)"
      using r0(1) assms(3,4) by (auto simp: registry_bounded_def loaded_record_def)
    moreover have "length h \<le> max_history (rt_limits rt)" if "h \<in> snd ` set (sc_history c)" for h
      using assms(1) that by (auto simp: contents_ok_def list_fits_def list_all_iff history_ok_def)
    ultimately show ?thesis using r0(2,3) by auto
  qed
  then show ?thesis
    using assms(2,4) by (auto simp: registry_bounded_def load_fits_def fold_attach_sorted fold_put_sorted)
qed

lemma load_policies:
  assumes "contents_ok (rt_limits rt) snapshot_ok c" "policies_ok rt"
  shows "policies_ok (load_contents c rt)"
proof -
  have "gen_is_set (dp_generation p)" if "p \<in> set (sc_policies c)" for p
    using assms(1) that
    by (auto simp: contents_ok_def list_fits_def list_all_iff policy_storable_def validate_policy_verdict policy_acceptable_def)
  then show ?thesis using assms(2) loaded_policy_cases [of c rt] by (fastforce simp: policies_ok_def)
qed

lemma load_indexed:
  "map_of (rt_proofs (load_contents c rt)) i = Some r \<Longrightarrow> indexed (load_contents c rt) i (rec_current r)"
  using map_of_SomeD [of "rt_proofs (load_contents c rt)" i r] unfolding load_contents_def Let_def by (auto intro: indexed_fold)

lemma load_records:
  assumes "contents_ok (rt_limits rt) snapshot_ok c" "load_fits c rt" "records_ok rt"
  shows "records_ok (load_contents c rt)"
  unfolding records_ok_def
proof (intro allI impI conjI)
  fix i r assume found: "map_of (rt_proofs (load_contents c rt)) i = Some r"
  show "indexed (load_contents c rt) i (rec_current r)" by (rule load_indexed [OF found])
  obtain r0 where r0: "map_of (rt_proofs rt) i = Some r0 \<or> (\<exists>p\<in>set (sc_proofs c). dpf_id p = i \<and> r0 = loaded_record p)"
      "rec_current r = rec_current r0"
    using loaded_record_cases [OF found] by blast
  have "id_valid (dpf_id p)" if "p \<in> set (sc_proofs c)" for p
    using assms(1) that by (auto simp: contents_ok_def list_fits_def list_all_iff proof_storable_def dest: fits_valid)
  then show "record_ok i (rec_current r)"
    using r0 assms(2) records_okD(1) [OF assms(3)] by (auto simp: record_ok_def load_fits_def loaded_record_def)
qed

lemma load_inv:
  assumes "contents_ok (rt_limits rt) snapshot_ok c" "load_fits c rt" "0 < max_history (rt_limits rt)" "runtime_inv rt"
  shows "runtime_inv (load_contents c rt)"
  using assms load_bounded load_policies load_records restored_authority_inv by (auto simp: runtime_inv_def)

text \<open>Every life keeps the order of the registries, whatever is loaded.\<close>

lemma micro_sorted: "micro rt rt' \<Longrightarrow> om_sorted (rt_proofs rt) \<Longrightarrow> om_sorted (rt_proofs rt')"
  by (induction rule: micro.induct) (auto simp: om_sorted_put)

lemma micros_sorted: "micro\<^sup>*\<^sup>* rt rt' \<Longrightarrow> om_sorted (rt_proofs rt) \<Longrightarrow> om_sorted (rt_proofs rt')"
  by (induction rule: rtranclp_induct) (auto intro: micro_sorted)

lemma lives_sorted: "(life_step P)\<^sup>*\<^sup>* rt rt' \<Longrightarrow> om_sorted (rt_proofs rt) \<Longrightarrow> om_sorted (rt_proofs rt')"
proof (induction rule: rtranclp_induct)
  case (step y z)
  from step.hyps(2) show ?case
    by (cases rule: life_step_elim)
      (use step micros_sorted [OF runtime_step_micro] in \<open>auto simp: fold_attach_sorted fold_put_sorted\<close>)
qed

lemma life_limits: "life_step P rt rt' \<Longrightarrow> rt_limits rt' = rt_limits rt"
  by (erule life_step_elim) (auto dest: runtime_step_micro micros_limits)

lemma life_inv: "life_step load_fits rt rt' \<Longrightarrow> 0 < max_history (rt_limits rt) \<Longrightarrow> runtime_inv rt \<Longrightarrow> runtime_inv rt'"
  by (erule life_step_elim) (auto intro: load_inv micros_inv [OF runtime_step_micro])

lemma lives_inv:
  assumes "(life_step load_fits)\<^sup>*\<^sup>* rt rt'" "0 < max_history (rt_limits rt)" "runtime_inv rt"
  shows "runtime_inv rt'" "rt_limits rt' = rt_limits rt"
proof -
  have "runtime_inv rt' \<and> rt_limits rt' = rt_limits rt"
    using assms by (induction rule: rtranclp_induct) (auto intro: life_inv simp: life_limits)
  then show "runtime_inv rt'" "rt_limits rt' = rt_limits rt" by simp_all
qed

end
