(* ===== verification/RuntimeProps.thy ===== *)
theory RuntimeProps
  imports RuntimeLife
begin

text \<open>
  The properties of the runtime: what its states keep, what each invalidation touches and leaves, that no late
  or fenced publication is ever current, and that replays and refusals change nothing.
\<close>

section \<open>Reachable states\<close>

definition reachable :: "limits \<Rightarrow> runtime \<Rightarrow> bool" where
  "reachable l rt \<longleftrightarrow>
     (\<exists>la pub. authority_step\<^sup>*\<^sup>* (new_authority la) pub \<and> (life_step load_fits)\<^sup>*\<^sup>* (new_runtime pub l) rt)"

lemma reachable_inv:
  assumes "reachable l rt" "0 < max_history l"
  shows "runtime_inv rt" "rt_limits rt = l"
proof -
  obtain la pub where r: "authority_step\<^sup>*\<^sup>* (new_authority la) pub" "(life_step load_fits)\<^sup>*\<^sup>* (new_runtime pub l) rt"
    using assms(1) by (auto simp: reachable_def)
  have "runtime_inv (new_runtime pub l)" "0 < max_history (rt_limits (new_runtime pub l))"
    using new_runtime_inv [OF authority_reachable_inv [OF r(1)]] assms(2) by (simp_all add: new_runtime_def)
  from lives_inv [OF r(2) this(2,1)] show "runtime_inv rt" "rt_limits rt = l" by (simp_all add: new_runtime_def)
qed

lemma reachable_lives:
  "reachable l rt \<Longrightarrow> (life_step P)\<^sup>*\<^sup>* rt rt' \<Longrightarrow> (\<And>c rt. P c rt \<Longrightarrow> load_fits c rt) \<Longrightarrow> reachable l rt'"
  unfolding reachable_def using life_weaken [of P rt rt' load_fits] by (meson rtranclp_trans)

lemma reachable_steps: "reachable l rt \<Longrightarrow> runtime_step\<^sup>*\<^sup>* rt rt' \<Longrightarrow> reachable l rt'"
  using reachable_lives [of l rt load_fits] operations_life [of rt rt' load_fits] by blast

definition sample_publication :: publication_authority where
  "sample_publication = snd (register_publisher (sample_session ''w1'') (new_authority sample_limits))"

definition sample_runtime :: runtime where
  "sample_runtime = snd (publish_policy sample_policy (sample_acting ''w1'' ''t1'') (new_runtime sample_publication sample_limits))"

lemma sample_runtime_reachable: "reachable sample_limits sample_runtime" "0 < max_history sample_limits"
proof -
  have "authority_step\<^sup>*\<^sup>* (new_authority sample_limits) sample_publication"
    unfolding sample_publication_def by (rule r_into_rtranclp) (rule authority_step.register)
  moreover have "(life_step load_fits)\<^sup>*\<^sup>* (new_runtime sample_publication sample_limits) sample_runtime"
    unfolding sample_runtime_def by (rule r_into_rtranclp, rule life_step.operation, rule runtime_step.publish)
  ultimately show "reachable sample_limits sample_runtime" unfolding reachable_def by blast
qed (simp add: sample_limits_def)

text \<open>C8: In every state the runtime can reach by its operations, whatever the interleaving of operations, evaluations and
  changes of the evidence, and by loads of stores that fit, the registries and the retained history stay within the
  configured limits, every policy and every proof is stored under its own identity at a set generation, every
  current proof is the proof of its own request, and the reverse indexes by path, bound entity, policy, boot,
  topology generation and failure domain generation know it. A store fits when the registries stay within their
  bounds and its proofs have the identity of their request and a set generation: a load checks none of this. Of the
  indexes by domain and risk group nothing is said, a load does not restore them.\<close>

theorem reachable_runtime_states:
  assumes "reachable l rt" "0 < max_history l"
  shows "length (rt_policies rt) \<le> max_policies l \<and> length (rt_proofs rt) \<le> max_proofs l \<and>
    (\<forall>i r. map_of (rt_proofs rt) i = Some r \<longrightarrow> length (rec_history r) \<le> max_history l \<and> length (rec_snapshots r) \<le> max_history l) \<and>
    (\<forall>i p. published_policy rt i = Some p \<longrightarrow> dp_id p = i \<and> gen_is_set (dp_generation p)) \<and>
    (\<forall>i p. stored_proof rt i = Some p \<and> is_current p \<longrightarrow>
       dpf_id p = i \<and> proof_identity (dpf_request p) = i \<and> gen_is_set (dpf_generation p) \<and> indexed rt i p)"
proof -
  note inv = reachable_inv [OF assms]
  then have "registry_bounded rt" "policies_ok rt" "records_ok rt" by (simp_all add: runtime_inv_def)
  moreover have "dpf_id p = i \<and> proof_identity (dpf_request p) = i \<and> gen_is_set (dpf_generation p) \<and> indexed rt i p"
    if p: "stored_proof rt i = Some p" "is_current p" for i p
  proof -
    obtain r where r: "map_of (rt_proofs rt) i = Some r" "rec_current r = p" using p(1) by (auto simp: stored_proof_def)
    note records_okD [OF \<open>records_ok rt\<close> r(1), unfolded r(2)]
    then show ?thesis using p(2) by (auto simp: record_ok_def)
  qed
  ultimately show ?thesis
    using inv(2) unfolding registry_bounded_def policies_ok_def published_policy_def by blast
qed

lemma reachable_runtime_states_witness: "length (rt_policies sample_runtime) \<le> 8"
  using reachable_runtime_states [OF sample_runtime_reachable] by (simp add: sample_limits_def)

text \<open>The current proofs with a given dependency.\<close>

definition current_with :: "runtime \<Rightarrow> (diversity_proof \<Rightarrow> bool) \<Rightarrow> diversity_proof_id set" where
  "current_with rt Q = {i. \<exists>p. stored_proof rt i = Some p \<and> is_current p \<and> Q p}"

section \<open>Commits\<close>

lemma currentness_current_decisive: "is_current (build_revision a t ev g) \<Longrightarrow> outcome_is_decisive (ev_outcome ev)"
  by (simp add: is_current_def currentness_for_outcome_current)

lemma decisive_cases: "outcome_is_decisive v \<longleftrightarrow> v = PO_PROVEN_DIVERSE \<or> v = PO_NOT_DIVERSE"
  by (simp add: outcome_is_decisive_def outcome_asserts_independence_def outcome_asserts_conflict_def)

lemma decisive_no_drift: "outcome_is_decisive (ev_outcome (settled_evaluation fe)) \<Longrightarrow> \<not> watermark_drift fe"
  by (auto simp: settled_evaluation_def decisive_cases)

lemma commit_record_current:
  assumes "commit_record a t fe stored rt = (r, rt')" "map_of (rt_proofs rt) (proof_identity (tk_request t)) = Some stored"
    and "map_of (rt_proofs rt') i = Some new" "is_current (rec_current new)" "map_of (rt_proofs rt) i \<noteq> Some new"
  shows "i = proof_identity (tk_request t)" "\<not> watermark_drift fe" "mr_status r = MS_APPLIED"
    "mr_proof r = Some (rec_current new)"
    "rec_current new = build_revision a t (fe_evaluation fe) (next_generation (rec_current stored))"
proof -
  let ?p = "build_revision a t (settled_evaluation fe) (next_generation (rec_current stored))"
  have res: "r = (settled_result fe)\<lparr>mr_proof := Some ?p\<rparr>"
    "rt_proofs rt' = om_put (proof_identity (tk_request t)) (store_revision (max_history (rt_limits rt)) ?p stored) (rt_proofs rt)"
    using assms(1,3,5) unfolding next_generation_def
    by (auto simp: commit_record_def Let_def refuse_def split: if_splits)
  show i: "i = proof_identity (tk_request t)" using res(2) assms(3,5) by (auto split: if_splits)
  then have new: "rec_current new = ?p" using res(2) assms(3) by (auto simp: store_revision_def)
  then show d: "\<not> watermark_drift fe" using decisive_no_drift currentness_current_decisive assms(4) by metis
  then show "mr_status r = MS_APPLIED" "mr_proof r = Some (rec_current new)"
    "rec_current new = build_revision a t (fe_evaluation fe) (next_generation (rec_current stored))"
    using new by (simp_all add: res(1) settled_result_def settled_evaluation_def)
qed

lemma commit_current:
  assumes "commit_evaluation a t fe rt = (r, rt')"
    and "map_of (rt_proofs rt') i = Some new" "is_current (rec_current new)" "map_of (rt_proofs rt) i \<noteq> Some new"
  shows "i = proof_identity (tk_request t) \<and> commit_guard a t rt = None \<and> \<not> watermark_drift fe \<and> mr_status r = MS_APPLIED \<and>
    mr_proof r = Some (rec_current new) \<and> (\<exists>g. rec_current new = build_revision a t (fe_evaluation fe) g)"
proof (cases "commit_guard a t rt")
  case (Some m)
  then show ?thesis using assms by (auto simp: commit_evaluation_def refuse_def)
next
  case None
  let ?i = "proof_identity (tk_request t)"
  define rt1 where "rt1 = (if watermark_drift fe then count_stat inc_watermark rt else rt)"
  have rt1: "rt_proofs rt1 = rt_proofs rt" "rt_limits rt1 = rt_limits rt" by (simp_all add: rt1_def)
  show ?thesis
  proof (cases "map_of (rt_proofs rt) ?i")
    case (Some stored)
    then have c: "commit_record a t fe stored rt1 = (r, rt')" using assms(1) by (cases "watermark_drift fe") (simp_all add: commit_evaluation_def None rt1_def Let_def)
    have "map_of (rt_proofs rt1) ?i = Some stored" "map_of (rt_proofs rt1) i \<noteq> Some new"
      using Some rt1 assms(4) by simp_all
    from commit_record_current [OF c this(1) assms(2,3) this(2)] None show ?thesis by blast
  next
    case absent: None
    have not_empty: "new \<noteq> empty_record" using assms(3) by (auto simp: empty_record_def)
    show ?thesis
    proof (cases "max_proofs (rt_limits rt) \<le> length (rt_proofs rt)")
      case True
      then show ?thesis using assms by (cases "watermark_drift fe") (auto simp: commit_evaluation_def None absent refuse_def Let_def)
    next
      case False
      then have c: "commit_record a t fe empty_record (put_record ?i empty_record rt1) = (r, rt')"
        using assms(1) by (cases "watermark_drift fe") (simp_all add: commit_evaluation_def None absent rt1_def Let_def)
      have "map_of (rt_proofs (put_record ?i empty_record rt1)) ?i = Some empty_record"
        "map_of (rt_proofs (put_record ?i empty_record rt1)) i \<noteq> Some new"
        using rt1 assms(4) not_empty by auto
      from commit_record_current [OF c this(1) assms(2,3) this(2)] None show ?thesis by blast
    qed
  qed
qed

text \<open>The facts an evaluation of ready inputs established about the paths it bound.\<close>

lemma decisive_binds:
  assumes "outcome_is_decisive (ev_outcome (evaluate_diversity q policy (views_inputs v l)))"
  shows "db_paths (ev_dependencies (evaluate_diversity q policy (views_inputs v l))) = bind_paths (sort (rq_paths q))"
proof -
  let ?e = "evaluate_diversity q policy (views_inputs v l)"
  have "\<not> rejected_outcome (ev_outcome ?e)" using assms by (auto simp: decisive_cases rejected_outcome_def)
  then obtain ob l' rs cs fp where P: "passes q policy (views_inputs v l) ob l' rs cs fp" using decided_passes by blast
  have "rs = sort (rq_paths q)" using passes_paths(1) [OF P, of "vw_structure v"] by (simp add: views_inputs_def)
  moreover have "db_paths (ev_dependencies (evaluate_admitted ob l' p inputs rs cs fp)) = bind_paths rs"
    if "outcome_is_decisive (ev_outcome (evaluate_admitted ob l' p inputs rs cs fp))" for p inputs
    using that by (auto simp: evaluate_admitted_def set_stage_def Let_def decisive_cases reject_limit_def reject_def
        split: prod.splits sum.splits if_splits)
  ultimately show ?thesis using assms passes_evaluate [OF P] by simp
qed

lemma no_drift_observed:
  assumes "fe = run_evaluation l before behind t" "\<not> watermark_drift fe" "outcome_is_decisive (ev_outcome (fe_evaluation fe))"
  shows "sv_topology_generation (vw_structure behind) = sv_topology_generation (vw_structure before)"
    "fv_generation (vw_domains behind) = fv_generation (vw_domains before)"
    "dp_require_authority_current (tk_policy t) \<Longrightarrow> q \<in> set (rq_paths (tk_request t)) \<Longrightarrow>
       av_current_generation (vw_authority behind) (pr_path q) = Some (pr_generation q)"
proof -
  let ?e = "evaluate_diversity (tk_request t) (tk_policy t) (views_inputs before l)"
  have e: "fe_evaluation fe = ?e" by (simp add: assms(1) run_evaluation_def Let_def)
  have w: "ev_observed_topology ?e = sv_topology_generation (vw_structure before)"
    "ev_observed_failure_domain ?e = fv_generation (vw_domains before)" "ev_watermarks_observed ?e"
    using evaluation_carries_watermarks [of "views_inputs before l" "vw_structure before" "vw_domains before"]
    by (simp_all add: views_inputs_def)
  then show "sv_topology_generation (vw_structure behind) = sv_topology_generation (vw_structure before)"
    "fv_generation (vw_domains behind) = fv_generation (vw_domains before)"
    using assms(2) by (simp_all add: watermark_drift_def e) (simp_all add: assms(1) run_evaluation_def Let_def)
  have "reported_drift fe = None" using assms(2) w(3) by (simp add: watermark_drift_def e)
  then have drift: "fe_drift fe = None"
    using assms(3) by (auto simp: reported_drift_def decisive_cases split: if_splits)
  assume "dp_require_authority_current (tk_policy t)" and q: "q \<in> set (rq_paths (tk_request t))"
  then have "find (binding_moved (vw_authority behind)) (bind_paths (sort (rq_paths (tk_request t)))) = None"
    using drift decisive_binds [of "tk_request t" "tk_policy t" before l] assms(3) e
    by (simp add: assms(1) run_evaluation_def Let_def authority_drift_def)
  then show "av_current_generation (vw_authority behind) (pr_path q) = Some (pr_generation q)"
    using q by (auto simp: find_None_iff bind_paths_def binding_moved_def)
qed

text \<open>C3: A late result never becomes current. Whatever happened between admission and commit, when a commit
  leaves a proof current that was not there before, then it is the proof of the committed request, the policy
  is still published at the evaluated generation, the acting epoch is the coordinator's, the boot is not fenced,
  topology and failure domain generations did not move since the evaluation, and Path Authority still holds
  every path at the bound generation where the policy requires it.\<close>

theorem late_result_never_current:
  assumes "commit_evaluation a t (run_evaluation l before behind t) rt = (r, rt')"
    and "map_of (rt_proofs rt') i = Some new" "is_current (rec_current new)" "map_of (rt_proofs rt) i \<noteq> Some new"
  shows "i = proof_identity (tk_request t) \<and> mr_status r = MS_APPLIED \<and> mr_proof r = Some (rec_current new) \<and>
    (\<exists>p. published_policy rt (rq_policy (tk_request t)) = Some p \<and> dp_generation p = dp_generation (tk_policy t)) \<and>
    pa_epoch (rt_publication rt) = aa_epoch a \<and> \<not> is_fenced (rt_publication rt) (aa_boot a) \<and>
    sv_topology_generation (vw_structure behind) = sv_topology_generation (vw_structure before) \<and>
    fv_generation (vw_domains behind) = fv_generation (vw_domains before) \<and>
    (\<forall>q\<in>set (rq_paths (tk_request t)). dp_require_authority_current (tk_policy t) \<longrightarrow>
       av_current_generation (vw_authority behind) (pr_path q) = Some (pr_generation q))"
proof -
  note c = commit_current [OF assms]
  then obtain g where "rec_current new = build_revision a t (fe_evaluation (run_evaluation l before behind t)) g" by blast
  then have d: "outcome_is_decisive (ev_outcome (fe_evaluation (run_evaluation l before behind t)))"
    using currentness_current_decisive assms(3) by metis
  note o = no_drift_observed [OF refl _ d]
  have "(\<exists>p. published_policy rt (rq_policy (tk_request t)) = Some p \<and> dp_generation p = dp_generation (tk_policy t)) \<and>
      pa_epoch (rt_publication rt) = aa_epoch a \<and> \<not> is_fenced (rt_publication rt) (aa_boot a)"
    using c by (auto simp: commit_guard_def published_policy_def split: if_splits option.splits)
  then show ?thesis using c o by blast
qed


section \<open>A sample commit\<close>

definition sample_views :: views where
  "sample_views = \<lparr>vw_authority = sample_authority, vw_structure = sample_topology, vw_domains = absent_domain_view\<rparr>"

definition sample_ticket :: ticket where
  "sample_ticket = \<lparr>tk_request = sample_request [''a'', ''b''], tk_payload = rq_digest (sample_request [''a'', ''b'']),
     tk_policy = sample_policy\<rparr>"

definition sample_state :: "(diversity_proof_id, proof_record) omap \<Rightarrow> runtime" where
  "sample_state proofs =
     (new_runtime sample_publication sample_limits)\<lparr>rt_policies := [(StringId ''p'', sample_policy)], rt_proofs := proofs\<rparr>"

lemma sample_views_inputs: "views_inputs sample_views sample_limits = sample_inputs"
  by (simp add: views_inputs_def sample_views_def sample_inputs_def)

lemma sample_proven: "ev_outcome (evaluate_diversity (sample_request [''a'', ''b'']) sample_policy sample_inputs) = PO_PROVEN_DIVERSE"
  by code_simp

lemma sample_publication_fields:
  "pa_epoch sample_publication = Generation 1" "\<not> is_fenced sample_publication (StringId ''w1'')"
  by (simp_all add: sample_publication_def register_publisher_def sample_session_def new_authority_def is_fenced_def
      id_valid_def gen_is_set_def fence_replaced_def sample_limits_def)

lemma sample_guard: "commit_guard (sample_acting ''w1'' ''t2'') sample_ticket (sample_state proofs) = None"
  by (simp add: commit_guard_def sample_state_def sample_ticket_def sample_request_def sample_publication_fields
      new_runtime_def sample_acting_def)

lemma find_not_moved:
  "(\<And>b. b \<in> set bs \<Longrightarrow> \<not> binding_moved view b) \<Longrightarrow> find (binding_moved view) bs = None"
  by (auto simp: find_None_iff)

lemma sample_run:
  "fe_evaluation (run_evaluation sample_limits sample_views sample_views sample_ticket) =
     evaluate_diversity (sample_request [''a'', ''b'']) sample_policy sample_inputs"
  "\<not> watermark_drift (run_evaluation sample_limits sample_views sample_views sample_ticket)"
proof -
  let ?fe = "run_evaluation sample_limits sample_views sample_views sample_ticket"
  let ?e = "evaluate_diversity (sample_request [''a'', ''b'']) sample_policy sample_inputs"
  show e: "fe_evaluation ?fe = ?e" by (simp add: run_evaluation_def Let_def sample_views_inputs sample_ticket_def)
  have b: "db_paths (ev_dependencies ?e) = bind_paths (sort (rq_paths (sample_request [''a'', ''b''])))"
    using decisive_binds [of "sample_request [''a'', ''b'']" sample_policy sample_views sample_limits, unfolded sample_views_inputs]
    by (simp only: sample_proven decisive_cases simp_thms)
  have required: "dp_require_authority_current sample_policy" by (simp add: sample_policy_def default_policy_def)
  have "fe_drift ?fe = map_option (\<lambda>b. ''Path Authority moved for path '' @ id_view (pb_path b) @ '' while the proof was being evaluated'')
      (find (binding_moved sample_authority) (db_paths (ev_dependencies ?e)))"
    by (simp add: run_evaluation_def Let_def authority_drift_def sample_views_inputs sample_ticket_def required)
      (simp add: sample_views_def)
  moreover have "find (binding_moved sample_authority) (db_paths (ev_dependencies ?e)) = None"
  proof (rule find_not_moved)
    fix x assume "x \<in> set (db_paths (ev_dependencies ?e))"
    then obtain q where "q \<in> set (rq_paths (sample_request [''a'', ''b'']))" "x = \<lparr>pb_path = pr_path q, pb_generation = pr_generation q\<rparr>"
      by (auto simp only: b bind_paths_def set_map set_sort)
    then show "\<not> binding_moved sample_authority x"
      by (auto simp: sample_request_def sample_ref_def binding_moved_def sample_authority_def)
  qed
  ultimately have "fe_drift ?fe = None" by simp
  moreover have "ev_observed_topology ?e = Generation 1" "ev_observed_failure_domain ?e = fv_generation absent_domain_view"
    using evaluation_carries_watermarks [of sample_inputs sample_topology absent_domain_view "sample_request [''a'', ''b'']" sample_policy]
    by (simp_all add: sample_simps)
  ultimately show "\<not> watermark_drift ?fe"
    by (simp add: watermark_drift_def e reported_drift_def)
      (simp add: run_evaluation_def Let_def sample_views_def sample_simps)
qed

lemma commit_fresh:
  assumes "commit_guard a t rt = None" "map_of (rt_proofs rt) (proof_identity (tk_request t)) = None"
    and "length (rt_proofs rt) < max_proofs (rt_limits rt)" "\<not> gen_is_set (aa_expected_proof a)" "\<not> watermark_drift fe"
  shows "map_of (rt_proofs (snd (commit_evaluation a t fe rt))) (proof_identity (tk_request t)) =
    Some (store_revision (max_history (rt_limits rt)) (build_revision a t (fe_evaluation fe) (Generation 1)) empty_record)"
  using assms by (simp add: commit_evaluation_def commit_record_def Let_def empty_record_def settled_evaluation_def)

lemma late_result_never_current_witness:
  "pa_epoch (rt_publication (sample_state [])) = Generation 1 \<and>
   (\<exists>r. r = fst (commit_evaluation (sample_acting ''w1'' ''t2'') sample_ticket
      (run_evaluation sample_limits sample_views sample_views sample_ticket) (sample_state [])) \<and> mr_status r = MS_APPLIED)"
proof -
  let ?a = "sample_acting ''w1'' ''t2''" and ?fe = "run_evaluation sample_limits sample_views sample_views sample_ticket"
  let ?i = "proof_identity (tk_request sample_ticket)"
  let ?p = "build_revision ?a sample_ticket (fe_evaluation ?fe) (Generation 1)"
  obtain r rt' where c: "commit_evaluation ?a sample_ticket ?fe (sample_state []) = (r, rt')" by fastforce
  have "\<not> gen_is_set (aa_expected_proof ?a)" by (simp add: sample_acting_def gen_is_set_def gen_unset_def)
  then have "map_of (rt_proofs rt') ?i =
      Some (store_revision (max_history (rt_limits (sample_state []))) ?p empty_record)"
    using commit_fresh [OF sample_guard [of "[]"] _ _ _ sample_run(2)] c
    by (simp add: sample_state_def new_runtime_def sample_limits_def)
  moreover have "is_current ?p"
    by (simp add: is_current_def committed_lifecycle_def sample_run(1) sample_proven currentness_for_outcome_def
        currentness_is_current_def)
  ultimately have new: "map_of (rt_proofs rt') ?i = Some (store_revision (max_history (rt_limits (sample_state []))) ?p empty_record)"
    "is_current (rec_current (store_revision (max_history (rt_limits (sample_state []))) ?p empty_record))"
    by (simp_all add: store_revision_def)
  have "map_of (rt_proofs (sample_state [])) ?i \<noteq> Some (store_revision (max_history (rt_limits (sample_state []))) ?p empty_record)"
    by (simp add: sample_state_def new_runtime_def)
  from late_result_never_current [OF c new this] c show ?thesis
    by (auto simp: sample_state_def new_runtime_def sample_publication_fields)
qed

section \<open>Published results\<close>

lemma authority_mutation_applied: "authority_mutation s \<noteq> MS_APPLIED"
  by (cases s) (simp_all add: authority_mutation_def)

lemma begin_refused: "begin_evaluation q a rt = (Inl r, rt1) \<Longrightarrow> mr_status r \<noteq> MS_APPLIED \<and> mr_status r \<noteq> MS_UNCHANGED \<and> mr_status r \<noteq> MS_REVALIDATION_REQUIRED"
  by (auto simp: begin_evaluation_def Let_def authority_result_def authority_mutation_def split: prod.splits if_splits option.splits authority_status.splits)

lemma begin_ticket:
  assumes "begin_evaluation q a rt = (Inr t, rt1)"
  shows "tk_request t = snd (rq_canonicalize q)" "tk_payload t = rq_digest (tk_request t)"
    "map_of (rt_policies rt) (rq_policy q) = Some (tk_policy t)" "dp_generation (tk_policy t) = rq_policy_generation q"
    "admit a (tk_payload t) (rt_publication rt) = (AS_ACCEPTED, rt_publication rt1)"
    "rt1 = count_stat inc_evaluations (rt\<lparr>rt_publication := rt_publication rt1\<rparr>)"
  using assms
  by (auto simp: begin_evaluation_def Let_def admit_attempt_def authority_status_is_success_def simp del: rq_canonicalize_snd
      split: prod.splits if_splits option.splits) (auto simp: rq_canonicalize_def)


lemma commit_record_applied:
  assumes "commit_record a t fe stored rt = (r, rt')" "mr_status r = MS_APPLIED"
  shows "\<not> watermark_drift fe" "\<exists>g. mr_proof r = Some (build_revision a t (fe_evaluation fe) g) \<and>
    stored_proof rt' (proof_identity (tk_request t)) = Some (build_revision a t (fe_evaluation fe) g)"
  using assms
  by (auto simp: commit_record_def Let_def settled_result_def settled_evaluation_def stored_proof_def store_revision_def
      split: if_splits)

lemma commit_applied:
  assumes "commit_evaluation a t fe rt = (r, rt')" "mr_status r = MS_APPLIED"
  shows "\<not> watermark_drift fe \<and> (\<exists>g. mr_proof r = Some (build_revision a t (fe_evaluation fe) g) \<and>
    stored_proof rt' (proof_identity (tk_request t)) = Some (build_revision a t (fe_evaluation fe) g))"
proof (cases "commit_guard a t rt")
  case (Some m)
  then have "mr_status m = MS_APPLIED" using assms by (simp add: commit_evaluation_def)
  then show ?thesis using Some by (auto simp: commit_guard_def split: if_splits)
next
  case None
  define rt1 where "rt1 = (if watermark_drift fe then count_stat inc_watermark rt else rt)"
  have "\<exists>stored rt2. commit_record a t fe stored rt2 = (r, rt')"
    using assms by (cases "watermark_drift fe") (auto simp: commit_evaluation_def None Let_def split: option.splits if_splits)
  then show ?thesis using commit_record_applied assms(2) by blast
qed

text \<open>C4: End to end: when the runtime answers APPLIED with a current proof of PROVEN_DIVERSE under an ALL_PAIRS
  policy, that proof is what the registry now holds under its identity, and every two different requested
  paths were bound, at the generations requested and observed, to compositions that share nothing under any
  class the published policy requires, with complete evidence.\<close>

theorem published_proof_is_sound:
  assumes "evaluate before behind q a rt = (r, rt')" "mr_status r = MS_APPLIED" "mr_proof r = Some p"
    and "dpf_outcome p = PO_PROVEN_DIVERSE" "published_policy rt (rq_policy q) = Some policy"
    and "dp_semantics policy = SS_ALL_PAIRS" "limits_wf (rt_limits rt)"
    and ab: "x \<in> set (rq_paths q)" "y \<in> set (rq_paths q)" "x \<noteq> y"
  shows "stored_proof rt' (dpf_id p) = Some p \<and> is_current p \<and>
    (\<exists>c d. bound_composition (vw_structure before) x c \<and> bound_composition (vw_structure before) y d \<and>
      (\<forall>k\<in>set (dp_required_classes policy). class_shares k policy (vw_domains before) c d = {} \<and>
         class_known k policy (vw_domains before) c d))"
proof -
  obtain t rt1 where b: "begin_evaluation q a rt = (Inr t, rt1)"
    using assms(1,2) begin_refused by (cases "begin_evaluation q a rt") (auto simp: evaluate_def split: sum.splits)
  note bt = begin_ticket [OF b]
  have l: "rt_limits rt1 = rt_limits rt" by (subst bt(6)) simp
  let ?fe = "run_evaluation (rt_limits rt) before behind t"
  have c: "commit_evaluation a t ?fe rt1 = (r, rt')" using assms(1) by (simp add: evaluate_def b l)
  obtain g where g: "p = build_revision a t (fe_evaluation ?fe) g"
      "stored_proof rt' (proof_identity (tk_request t)) = Some p"
    using commit_applied [OF c assms(2)] assms(3) by auto
  have policy: "tk_policy t = policy" using bt(3) assms(5) by (simp add: published_policy_def)
  have proven: "ev_outcome (evaluate_diversity (tk_request t) policy (views_inputs before (rt_limits rt))) = PO_PROVEN_DIVERSE"
    using assms(4) by (simp add: g(1) run_evaluation_def Let_def policy)
  have paths: "set (rq_paths (tk_request t)) = set (rq_paths q)" by (simp add: bt(1))
  have "\<exists>c d. bound_composition (vw_structure before) x c \<and> bound_composition (vw_structure before) y d \<and>
      (\<forall>k\<in>set (dp_required_classes policy). class_shares k policy (vw_domains before) c d = {} \<and>
         class_known k policy (vw_domains before) c d)"
    by (rule all_pairs_sound [where inputs = "views_inputs before (rt_limits rt)" and l = "rt_limits rt", OF _ _ _ assms(7,6) proven])
      (use ab paths in \<open>simp_all add: views_inputs_def\<close>)
  moreover have "is_current p"
    using assms(4) by (simp add: g(1) is_current_def committed_lifecycle_def currentness_for_outcome_def currentness_is_current_def)
  ultimately show ?thesis using g by simp
qed

section \<open>Fencing\<close>

definition quiet :: "worker_boot_id \<Rightarrow> runtime \<Rightarrow> bool" where
  "quiet b rt \<longleftrightarrow> is_fenced (rt_publication rt) b \<and>
     (\<forall>j r. map_of (rt_proofs rt) j = Some r \<and> is_current (rec_current r) \<longrightarrow> pn_boot (dpf_provenance (rec_current r)) \<noteq> b)"

lemma quiet_put_dims:
  assumes "quiet b rt" "map_of (rt_proofs rt) i = Some r" "dims r r'"
  shows "quiet b (put_record i r' rt)"
  using assms by (auto simp: quiet_def dims_def)

lemma micro_quiet: "micro rt rt' \<Longrightarrow> quiet b rt \<Longrightarrow> quiet b rt'"
proof (induction rule: micro.induct)
  case (publication rt pub)
  then have "is_fenced pub b"
    by (induction rule: rtranclp_induct) (auto simp: quiet_def intro: authority_step_fenced)
  then show ?case using publication.prems by (auto simp: quiet_def)
next
  case (revise rt t stored a p ev)
  have "\<not> is_fenced (rt_publication rt) (aa_boot a)"
    using revise.hyps(2) by (auto simp: commit_guard_def split: if_splits)
  then have "aa_boot a \<noteq> b" using revise.prems by (auto simp: quiet_def)
  then show ?case using revise.prems revise.hyps(4) by (auto simp: quiet_def store_revision_def)
next
  case (transition rt i stored target reason)
  then show ?case by (blast intro: quiet_put_dims dims_transition)
next
  case (demote rt i stored cn detail)
  then show ?case by (blast intro: quiet_put_dims dims_demoted)
qed (auto simp: quiet_def empty_record_def)

lemma micros_quiet: "micro\<^sup>*\<^sup>* rt rt' \<Longrightarrow> quiet b rt \<Longrightarrow> quiet b rt'"
  by (induction rule: rtranclp_induct) (auto intro: micro_quiet)

text \<open>A store that spares a boot has no current proof attributed to it.\<close>

definition spares :: "worker_boot_id \<Rightarrow> store_contents \<Rightarrow> bool" where
  "spares b c \<longleftrightarrow> (\<forall>p\<in>set (sc_proofs c). is_current p \<longrightarrow> pn_boot (dpf_provenance p) \<noteq> b)"

lemma load_quiet: "quiet b rt \<Longrightarrow> spares b c \<Longrightarrow> quiet b (load_contents c rt)"
  using loaded_record_cases [of c rt]
  by (fastforce simp: quiet_def spares_def restored_fences loaded_record_def simp del: load_contents_fields(4))

lemma saved_spares: "om_sorted (rt_proofs rt) \<Longrightarrow> quiet b rt \<Longrightarrow> spares b (save_contents rt)"
  unfolding spares_def save_contents_def quiet_def
  by (simp, metis om_sorted_map_of prod.collapse)

lemma lives_quiet:
  assumes "(life_step P)\<^sup>*\<^sup>* rt rt'" "quiet b rt"
    and "\<And>c rt. P c rt \<Longrightarrow> is_fenced (rt_publication rt) b \<Longrightarrow> spares b c"
  shows "quiet b rt'"
  using assms(1,2)
proof (induction rule: rtranclp_induct)
  case (step y z)
  from step.hyps(2) show ?case
  proof (cases rule: life_step_elim)
    case operation
    then show ?thesis using micros_quiet [OF runtime_step_micro] step.IH step.prems by blast
  next
    case (load snapshot_ok c)
    have q: "quiet b y" using step.IH step.prems by blast
    then have "spares b c" using assms(3) [OF load(2)] by (simp add: quiet_def)
    with q show ?thesis unfolding load(3) by (rule load_quiet)
  qed
qed

lemma micro_fenced: "micro rt rt' \<Longrightarrow> is_fenced (rt_publication rt) b \<Longrightarrow> is_fenced (rt_publication rt') b"
proof (induction rule: micro.induct)
  case (publication rt pub)
  then show ?case by (induction rule: rtranclp_induct) (auto intro: authority_step_fenced)
qed simp_all

lemma micros_fenced: "micro\<^sup>*\<^sup>* rt rt' \<Longrightarrow> is_fenced (rt_publication rt) b \<Longrightarrow> is_fenced (rt_publication rt') b"
  by (induction rule: rtranclp_induct) (auto intro: micro_fenced)

lemma lives_fenced:
  "(life_step P)\<^sup>*\<^sup>* rt rt' \<Longrightarrow> is_fenced (rt_publication rt) b \<Longrightarrow> is_fenced (rt_publication rt') b"
proof (induction rule: rtranclp_induct)
  case (step y z)
  from step.hyps(2) show ?case
    by (cases rule: life_step_elim) (use step micros_fenced [OF runtime_step_micro] in \<open>auto simp: restored_fences\<close>)
qed

lemma demote_boot_quiet:
  assumes "runtime_inv rt" "is_fenced (rt_publication rt) b"
  shows "quiet b (snd (demote_boot b rt))"
  unfolding quiet_def
proof (intro conjI allI impI)
  note d = demote_boot_exactly [of rt b, unfolded demotes_exactly_def]
  show "is_fenced (rt_publication (snd (demote_boot b rt))) b" using d assms(2) by simp
  fix j r assume r: "map_of (rt_proofs (snd (demote_boot b rt))) j = Some r \<and> is_current (rec_current r)"
  let ?S = "{j \<in> set (om_members (rt_by_boot rt) b). hits yes rt j}"
  have "j \<notin> ?S" "map_of (rt_proofs rt) j = Some r"
    using d r is_current_record by (auto split: if_splits)
  then have "j \<notin> set (om_members (rt_by_boot rt) b)" using r by (auto simp: hits_def)
  moreover have "indexed rt j (rec_current r)"
    using current_indexed(1) \<open>map_of (rt_proofs rt) j = Some r\<close> r assms(1) by (auto simp: runtime_inv_def)
  ultimately show "pn_boot (dpf_provenance (rec_current r)) \<noteq> b" by (auto simp: indexed_def)
qed

lemma fence_boot_quiet:
  assumes "reachable l rt" "0 < max_history l" "id_valid b"
  shows "quiet b (snd (rt_fence_boot b rt))"
proof -
  have "runtime_inv (fence_publication b rt)"
    using reachable_inv(1) [OF reachable_steps [OF assms(1) r_into_rtranclp [of runtime_step, OF runtime_step.fence]] assms(2)] .
  moreover have "is_fenced (rt_publication (fence_publication b rt)) b"
    using assms(3) by (simp add: fence_publication_def fence_boot_def is_fenced_def)
  ultimately show ?thesis unfolding rt_fence_boot_def by (rule demote_boot_quiet)
qed

text \<open>C11: Fencing a worker boot ends its live authority for good: from the moment fence_boot returned, in every later
  state, whatever evaluations were still in flight, whoever registers again and whatever store is loaded, the boot is
  fenced; and no proof attributed to it is current, as long as no store is loaded that holds a current proof of that
  boot. A store that is saved in such a state holds none; one that was saved before the fence may.\<close>

theorem fenced_boot_stays_out:
  assumes "reachable l rt" "0 < max_history l" "id_valid b"
    and "(life_step P)\<^sup>*\<^sup>* (snd (rt_fence_boot b rt)) rt'"
  shows "is_fenced (rt_publication rt') b \<and>
    ((\<forall>c rt. P c rt \<longrightarrow> spares b c) \<longrightarrow>
       current_with rt' (\<lambda>p. pn_boot (dpf_provenance p) = b) = {} \<and> spares b (save_contents rt'))"
proof (intro conjI impI)
  note q = fence_boot_quiet [OF assms(1-3)]
  show "is_fenced (rt_publication rt') b" using lives_fenced [OF assms(4)] q by (simp add: quiet_def)
  assume "\<forall>c rt. P c rt \<longrightarrow> spares b c"
  then have "quiet b rt'" using lives_quiet [OF assms(4) q] by blast
  moreover have "om_sorted (rt_proofs rt')"
    using lives_sorted [OF assms(4)] reachable_inv(1) [OF reachable_steps [OF assms(1) fence_boot_steps] assms(2)]
    by (simp add: runtime_inv_def registry_bounded_def)
  ultimately show "current_with rt' (\<lambda>p. pn_boot (dpf_provenance p) = b) = {}" "spares b (save_contents rt')"
    using saved_spares by (auto simp: quiet_def stored_proof_def current_with_def)
qed

section \<open>Generations\<close>

lemma gen_next_greater: "gen_can_advance (gen_value g) \<Longrightarrow> g < gen_next g"
proof -
  assume "gen_can_advance (gen_value g)"
  then have "1 + gen_value g \<noteq> 0" by (simp add: gen_can_advance_def eq_neg_iff_add_eq_0 add.commute)
  then have "unat (1 + gen_value g) = Suc (unat (gen_value g))" by (rule unatSuc)
  then have "gen_value g < gen_value g + 1" by (simp add: word_less_nat_alt add.commute)
  then show ?thesis by (simp add: less_generation_def gen_next_def)
qed

definition proof_generation :: "runtime \<Rightarrow> diversity_proof_id \<Rightarrow> diversity_proof_generation" where
  "proof_generation rt i = (case stored_proof rt i of None \<Rightarrow> gen_unset | Some p \<Rightarrow> dpf_generation p)"

lemma proof_generation_put:
  "proof_generation (put_record j r rt) i = (if i = j then dpf_generation (rec_current r) else proof_generation rt i)"
  by (simp add: proof_generation_def stored_proof_def)

lemma micro_generations:
  "micro rt rt' \<Longrightarrow> (\<forall>r j. map_of (rt_proofs rt) j = Some r \<and> \<not> id_valid (dpf_id (rec_current r)) \<longrightarrow> dpf_generation (rec_current r) = gen_unset) \<Longrightarrow>
   policy_generation rt k \<le> policy_generation rt' k \<and> proof_generation rt i \<le> proof_generation rt' i"
proof (induction rule: micro.induct)
  case (revise rt t stored a p ev)
  let ?i = "proof_identity (tk_request t)"
  have "dpf_generation (rec_current stored) \<le> dpf_generation p"
  proof (cases "id_valid (dpf_id (rec_current stored))")
    case True
    then show ?thesis using revise.hyps(3,4) by (auto simp: next_generation_def exhausted_def intro: less_imp_le gen_next_greater)
  next
    case False
    then show ?thesis using revise.prems revise.hyps(1) gen_unset_least by metis
  qed
  then show ?case using revise.hyps(1)
    by (auto simp: policy_generation_def proof_generation_def stored_proof_def store_revision_def)
next
  case (next_policy rt p q)
  then show ?case using gen_next_greater [of "dp_generation q"]
    by (auto simp: policy_generation_def proof_generation_def stored_proof_def less_imp_le)
next
  case (transition rt j stored target reason)
  then show ?case
    by (auto simp: policy_generation_def proof_generation_def stored_proof_def transition_record_def Let_def)
next
  case (demote rt j stored cn detail)
  then show ?case by (auto simp: policy_generation_def proof_generation_def stored_proof_def demoted_def)
qed (auto simp: policy_generation_def proof_generation_def stored_proof_def gen_unset_least empty_record_def)


definition phantoms_unset :: "runtime \<Rightarrow> bool" where
  "phantoms_unset rt \<longleftrightarrow>
     (\<forall>r j. map_of (rt_proofs rt) j = Some r \<and> \<not> id_valid (dpf_id (rec_current r)) \<longrightarrow> dpf_generation (rec_current r) = gen_unset)"

lemma micro_phantoms: "micro rt rt' \<Longrightarrow> phantoms_unset rt \<Longrightarrow> phantoms_unset rt'"
proof (induction rule: micro.induct)
  case (revise rt t stored a p ev)
  then show ?case by (auto simp: phantoms_unset_def store_revision_def)
next
  case (transition rt j stored target reason)
  then show ?case by (auto simp: phantoms_unset_def transition_record_def Let_def)
next
  case (demote rt j stored cn detail)
  then show ?case by (auto simp: phantoms_unset_def demoted_def)
next
  case (reserve rt j)
  then show ?case by (auto simp: phantoms_unset_def empty_record_def default_proof_def)
qed (auto simp: phantoms_unset_def)

lemma micros_generations:
  assumes "micro\<^sup>*\<^sup>* rt rt'" "phantoms_unset rt"
  shows "phantoms_unset rt' \<and> policy_generation rt k \<le> policy_generation rt' k \<and> proof_generation rt i \<le> proof_generation rt' i"
  using assms
proof (induction rule: rtranclp_induct)
  case (step y z)
  then have y: "phantoms_unset y" by blast
  have "phantoms_unset z" using micro_phantoms step.hyps(2) y by blast
  moreover have "policy_generation y k \<le> policy_generation z k \<and> proof_generation y i \<le> proof_generation z i"
    using micro_generations [OF step.hyps(2)] y by (simp add: phantoms_unset_def)
  ultimately show ?case using step by (meson order_trans)
qed simp

lemma load_phantoms:
  assumes "contents_ok (rt_limits rt) snapshot_ok c" "phantoms_unset rt"
  shows "phantoms_unset (load_contents c rt)"
  unfolding phantoms_unset_def
proof (intro allI impI)
  fix r j assume r: "map_of (rt_proofs (load_contents c rt)) j = Some r \<and> \<not> id_valid (dpf_id (rec_current r))"
  have "id_valid (dpf_id p)" if "p \<in> set (sc_proofs c)" for p
    using assms(1) that by (auto simp: contents_ok_def list_fits_def list_all_iff proof_storable_def dest: fits_valid)
  then show "dpf_generation (rec_current r) = gen_unset"
    using loaded_record_cases [of c rt j r] r assms(2) by (auto simp: phantoms_unset_def loaded_record_def)
qed

lemma lives_phantoms: "(life_step P)\<^sup>*\<^sup>* rt rt' \<Longrightarrow> phantoms_unset rt \<Longrightarrow> phantoms_unset rt'"
proof (induction rule: rtranclp_induct)
  case (step y z)
  from step.hyps(2) show ?case
    by (cases rule: life_step_elim) (use step micros_generations [OF runtime_step_micro] load_phantoms in blast)+
qed

text \<open>Generations never go back as long as no store is loaded: from any reachable state on, whatever operations run, the
  published generation of a policy and the generation of a stored proof only grow; nothing wraps around to zero.\<close>

theorem generations_never_decrease:
  assumes "reachable l rt" "runtime_step\<^sup>*\<^sup>* rt rt'"
  shows "policy_generation rt k \<le> policy_generation rt' k \<and> proof_generation rt i \<le> proof_generation rt' i"
proof -
  obtain la pub where "(life_step load_fits)\<^sup>*\<^sup>* (new_runtime pub l) rt" using assms(1) by (auto simp: reachable_def)
  moreover have "phantoms_unset (new_runtime pub l)" by (simp add: phantoms_unset_def new_runtime_def)
  ultimately have "phantoms_unset rt" by (rule lives_phantoms)
  then show ?thesis using micros_generations [OF runtime_steps_micro [OF assms(2)]] by blast
qed

lemma generations_never_decrease_witness:
  "policy_generation sample_runtime (StringId ''p'') \<le>
   policy_generation (snd (publish_policy sample_policy (sample_acting ''w1'' ''t2'') sample_runtime)) (StringId ''p'')"
  using generations_never_decrease [OF sample_runtime_reachable(1) r_into_rtranclp [of runtime_step, OF runtime_step.publish]] by blast

lemma fenced_boot_stays_out_witness:
  "current_with (snd (publish_policy sample_policy (sample_acting ''w2'' ''t3'') (snd (rt_fence_boot (StringId ''w1'') sample_runtime))))
     (\<lambda>p. pn_boot (dpf_provenance p) = StringId ''w1'') = {}"
proof -
  have "(life_step (\<lambda>c rt. False))\<^sup>*\<^sup>* (snd (rt_fence_boot (StringId ''w1'') sample_runtime))
      (snd (publish_policy sample_policy (sample_acting ''w2'' ''t3'') (snd (rt_fence_boot (StringId ''w1'') sample_runtime))))"
    by (intro r_into_rtranclp life_step.operation runtime_step.publish)
  moreover have "id_valid (StringId ''w1'')" by (simp add: id_valid_def)
  ultimately show ?thesis using fenced_boot_stays_out [OF sample_runtime_reachable] by blast
qed

section \<open>Invalidation\<close>

text \<open>C20: Invalidation is precise. Each demotion by path, policy, boot, topology entity, failure domain, topology
  generation or failure domain generation reports, in order and once, exactly the current proofs its index names
  (and, where it has a generation, that are older); those are demoted to REVALIDATION_REQUIRED with the reason,
  and every other record, the policies, the publication authority and the other indexes are left as they were.\<close>

theorem invalidation_is_precise:
  "demotes_exactly (\<lambda>j. demoted CN_STALE_PATH_AUTHORITY ''Path Authority changed for a path this proof binds; revalidation is required'')
     {j \<in> set (om_members (rt_by_path rt) path). hits (\<lambda>p. True) rt j} rt (demote_path path rt) \<and>
   demotes_exactly (\<lambda>j. demoted CN_STALE_POLICY ''the policy advanced past the generation this proof was evaluated against'')
     {j \<in> set (om_members (rt_by_policy rt) policy). hits (\<lambda>p. db_policy_generation (dpf_dependencies p) < pg) rt j} rt
     (demote_policy policy pg rt) \<and>
   demotes_exactly (\<lambda>j. demoted CN_FENCED_PUBLISHER ''the publishing worker boot was fenced; live authority for this proof is gone'')
     {j \<in> set (om_members (rt_by_boot rt) boot). hits (\<lambda>p. True) rt j} rt (demote_boot boot rt) \<and>
   demotes_exactly (\<lambda>j. demoted CN_STALE_TOPOLOGY ''topology changed for an entity this proof depends on'')
     {j \<in> (\<Union>e\<in>set entities. set (om_members (rt_by_entity rt) e)). hits (\<lambda>p. db_topology_generation (dpf_dependencies p) < tg) rt j} rt
     (demote_topology_entities entities tg rt) \<and>
   demotes_exactly (\<lambda>j. demoted CN_STALE_FAILURE_DOMAIN ''failure-domain membership changed for a domain this proof consulted'')
     {j \<in> (\<Union>d\<in>set domains. set (om_members (rt_by_domain rt) d)). hits (\<lambda>p. db_failure_domain_generation (dpf_dependencies p) < dg) rt j} rt
     (demote_domains domains dg rt) \<and>
   demotes_exactly (\<lambda>j. demoted CN_STALE_TOPOLOGY ''topology advanced past the generation this proof was evaluated against'')
     {j \<in> older_members tg (rt_by_topology rt). hits (\<lambda>p. True) rt j} rt (demote_topology_generation tg rt) \<and>
   demotes_exactly (\<lambda>j. demoted CN_STALE_FAILURE_DOMAIN ''failure-domain classification advanced past the generation this proof bound'')
     {j \<in> older_members dg (rt_by_failure_domain rt). hits (\<lambda>p. True) rt j} rt (demote_failure_domain_generation dg rt)"
  by (intro conjI demote_path_exactly demote_policy_exactly demote_boot_exactly demote_entities_exactly
      demote_domains_exactly demote_topology_exactly(1) demote_failure_domain_exactly(1))

lemma survivors:
  assumes "demotes_exactly (\<lambda>j. demoted cn detail) {j \<in> S. hits older rt j} rt res" "records_ok rt"
    and "stored_proof (snd res) i = Some p" "is_current p"
  shows "stored_proof rt i = Some p" "indexed rt i p" "i \<in> S \<Longrightarrow> \<not> older p"
proof -
  obtain r where r: "map_of (rt_proofs (snd res)) i = Some r" "rec_current r = p"
    using assms(3) by (auto simp: stored_proof_def)
  have i: "i \<notin> {j \<in> S. hits older rt j}" "map_of (rt_proofs rt) i = Some r"
    using assms(1,4) r is_current_record by (auto simp: demotes_exactly_def split: if_splits)
  then show "stored_proof rt i = Some p" using r by (simp add: stored_proof_def)
  show "indexed rt i p" using current_indexed(1) [OF assms(2) i(2)] assms(4) r by simp
  show "i \<in> S \<Longrightarrow> \<not> older p" using i assms(4) r by (auto simp: hits_def)
qed

lemma survivors_none:
  assumes "demotes_exactly (\<lambda>j. demoted cn detail) {j \<in> S. hits older rt j} rt res" "records_ok rt"
    and "\<And>i p. indexed rt i p \<Longrightarrow> is_current p \<Longrightarrow> Q p \<Longrightarrow> i \<in> S \<and> older p"
  shows "current_with (snd res) Q = {}"
  using survivors [OF assms(1,2)] assms(3) unfolding current_with_def by blast

text \<open>C9: Invalidation is complete. In every reachable state, after a demotion no current proof binds the path;
  none uses the policy at an older generation; none is attributed to the boot; none depends on one of the
  entities at an older topology generation; none is bound to an older topology or failure domain generation.\<close>

theorem invalidation_is_complete:
  assumes "reachable l rt" "0 < max_history l"
  shows "current_with (snd (demote_path path rt)) (\<lambda>p. path \<in> pr_path ` set (rq_paths (dpf_request p))) = {} \<and>
    current_with (snd (demote_policy policy pg rt))
      (\<lambda>p. rq_policy (dpf_request p) = policy \<and> db_policy_generation (dpf_dependencies p) < pg) = {} \<and>
    current_with (snd (demote_boot boot rt)) (\<lambda>p. pn_boot (dpf_provenance p) = boot) = {} \<and>
    current_with (snd (demote_topology_entities entities tg rt))
      (\<lambda>p. list_ex (\<lambda>e. e \<in> set entities) (db_topology_entities (dpf_dependencies p)) \<and>
         db_topology_generation (dpf_dependencies p) < tg) = {} \<and>
    current_with (snd (demote_topology_generation tg rt)) (\<lambda>p. db_topology_generation (dpf_dependencies p) < tg) = {} \<and>
    current_with (snd (demote_failure_domain_generation dg rt))
      (\<lambda>p. db_failure_domain_generation (dpf_dependencies p) < dg) = {}"
proof -
  have ok: "records_ok rt" using reachable_inv(1) [OF assms] by (simp add: runtime_inv_def)
  show ?thesis
    by (intro conjI survivors_none [OF demote_path_exactly ok] survivors_none [OF demote_policy_exactly ok]
        survivors_none [OF demote_boot_exactly ok] survivors_none [OF demote_entities_exactly ok]
        survivors_none [OF demote_topology_exactly(1) ok] survivors_none [OF demote_failure_domain_exactly(1) ok])
      (auto simp: indexed_def list_ex_iff intro: older_members_bucket)
qed

lemma invalidation_is_complete_witness:
  "current_with (snd (demote_path (StringId ''a'') sample_runtime)) (\<lambda>p. StringId ''a'' \<in> pr_path ` set (rq_paths (dpf_request p))) = {}"
  using invalidation_is_complete [OF sample_runtime_reachable] by blast

text \<open>The questions of \<open>refresh_currentness\<close> answered by one observation of the views.\<close>

lemma live_entries_iff:
  assumes "registry_bounded rt"
  shows "(i, r) \<in> set (live_entries rt) \<longleftrightarrow> map_of (rt_proofs rt) i = Some r \<and> is_current (rec_current r)"
  using assms by (auto simp: live_entries_def registry_bounded_def dest: map_of_SomeD om_sorted_map_of)

lemma collect_live_iff: "registry_bounded rt \<Longrightarrow> i \<in> set (collect_live rt) \<longleftrightarrow> hits yes rt i"
  by (auto simp: collect_live_def hits_def live_entries_iff) (metis fst_conv image_eqI live_entries_iff)

lemma set_ask_paths: "set (ask_paths view qs) = qu_id ` {q \<in> set qs. question_stale view q}"
proof -
  have "set (fold (\<lambda>q stale. if question_stale view q then os_insert (qu_id q) stale else stale) qs acc) =
      set acc \<union> qu_id ` {q \<in> set qs. question_stale view q}" for acc
    by (induction qs arbitrary: acc) auto
  then show ?thesis by (simp add: ask_paths_def)
qed

lemma ask_paths_iff:
  assumes "registry_bounded rt"
  shows "i \<in> set (ask_paths view (collect_questions rt)) \<longleftrightarrow>
    (\<exists>r b. map_of (rt_proofs rt) i = Some r \<and> is_current (rec_current r) \<and> b \<in> set (db_paths (dpf_dependencies (rec_current r))) \<and>
       binding_moved view b)"
proof -
  have "i \<in> set (ask_paths view (collect_questions rt)) \<longleftrightarrow>
      (\<exists>r b. (i, r) \<in> set (live_entries rt) \<and> b \<in> set (db_paths (dpf_dependencies (rec_current r))) \<and> binding_moved view b)"
    by (force simp: set_ask_paths collect_questions_def question_stale_def binding_moved_def image_iff)
  then show ?thesis using live_entries_iff [OF assms] by auto
qed


lemma collect_policies_iff:
  "om_sorted (collect_policies rt)"
  "i \<in> set (om_members (collect_policies rt) k) \<longleftrightarrow>
     (\<exists>r. (i, r) \<in> set (live_entries rt) \<and> rq_policy (dpf_request (rec_current r)) = k)"
proof -
  let ?step = "\<lambda>e m. let policy = rq_policy (dpf_request (rec_current (snd e))) in om_put policy (om_members m policy @ [fst e]) m"
  have kept: "om_sorted m \<Longrightarrow> om_sorted (fold ?step es m)" for es m
    by (induction es arbitrary: m) (simp_all add: Let_def om_sorted_put)
  show "om_sorted (collect_policies rt)"
    unfolding collect_policies_def by (rule kept) (simp add: om_sorted_def)
  have "i \<in> set (om_members (fold ?step es m) k) \<longleftrightarrow>
      i \<in> set (om_members m k) \<or> (\<exists>r. (i, r) \<in> set es \<and> rq_policy (dpf_request (rec_current r)) = k)" for es m
  proof (induction es arbitrary: m)
    case (Cons e es)
    have "i \<in> set (om_members (?step e m) k) \<longleftrightarrow>
        i \<in> set (om_members m k) \<or> i = fst e \<and> rq_policy (dpf_request (rec_current (snd e))) = k"
      by (auto simp: Let_def om_members_def)
    then show ?case using Cons.IH [of "?step e m"] by (cases e) auto
  qed simp
  note members = this [of "live_entries rt" "[]", folded collect_policies_def]
  show "i \<in> set (om_members (collect_policies rt) k) \<longleftrightarrow>
     (\<exists>r. (i, r) \<in> set (live_entries rt) \<and> rq_policy (dpf_request (rec_current r)) = k)"
    unfolding members by (simp add: om_members_def)
qed

definition policy_moved :: "runtime \<Rightarrow> diversity_policy_id \<Rightarrow> diversity_proof_id \<Rightarrow> bool" where
  "policy_moved rt k i \<longleftrightarrow> (\<exists>p. stored_proof rt i = Some p \<and> db_policy_generation (dpf_dependencies p) \<noteq> policy_generation rt k)"

lemma set_ask_policies: "set (ask_policies rt m) = (\<Union>e\<in>set m. {i \<in> set (snd e). policy_moved rt (fst e) i})"
proof -
  have ids: "set (fold (\<lambda>i stale. case stored_proof rt i of None \<Rightarrow> stale
      | Some stored \<Rightarrow> if db_policy_generation (dpf_dependencies stored) \<noteq> policy_generation rt k then os_insert i stale else stale) ids acc) =
      set acc \<union> {i \<in> set ids. policy_moved rt k i}" for k ids acc
    by (induction ids arbitrary: acc) (auto simp: policy_moved_def split: option.split)
  have "set (fold (\<lambda>(policy, ids) stale. let published = policy_generation rt policy
         in fold (\<lambda>i stale. case stored_proof rt i of None \<Rightarrow> stale
             | Some stored \<Rightarrow> if db_policy_generation (dpf_dependencies stored) \<noteq> published then os_insert i stale else stale) ids stale) m acc) =
      set acc \<union> (\<Union>e\<in>set m. {i \<in> set (snd e). policy_moved rt (fst e) i})" for acc
    by (induction m arbitrary: acc) (simp_all add: ids Let_def Un_assoc case_prod_beta)
  then show ?thesis by (simp add: ask_policies_def)
qed

lemma ask_policies_iff:
  assumes "registry_bounded rt"
  shows "i \<in> set (ask_policies rt (collect_policies rt)) \<longleftrightarrow>
    (\<exists>r. map_of (rt_proofs rt) i = Some r \<and> is_current (rec_current r) \<and>
       db_policy_generation (dpf_dependencies (rec_current r)) \<noteq> policy_generation rt (rq_policy (dpf_request (rec_current r))))"
proof -
  have bucket: "i \<in> set ids \<Longrightarrow> (k, ids) \<in> set (collect_policies rt) \<Longrightarrow> i \<in> set (om_members (collect_policies rt) k)" for k ids
    using om_sorted_map_of [OF collect_policies_iff(1), of k ids rt] by (simp add: om_members_def)
  have "i \<in> set (om_members (collect_policies rt) k) \<Longrightarrow> \<exists>ids. (k, ids) \<in> set (collect_policies rt) \<and> i \<in> set ids" for k
    using map_of_SomeD [of "collect_policies rt" k] by (cases "map_of (collect_policies rt) k") (auto simp: om_members_def)
  then have "i \<in> set (ask_policies rt (collect_policies rt)) \<longleftrightarrow>
      (\<exists>k. i \<in> set (om_members (collect_policies rt) k) \<and> policy_moved rt k i)"
    unfolding set_ask_policies using bucket by force
  then have "i \<in> set (ask_policies rt (collect_policies rt)) \<longleftrightarrow>
      (\<exists>r. (i, r) \<in> set (live_entries rt) \<and> policy_moved rt (rq_policy (dpf_request (rec_current r))) i)"
    unfolding collect_policies_iff(2) by blast
  then show ?thesis using live_entries_iff [OF assms] by (auto simp: policy_moved_def stored_proof_def)
qed

text \<open>C22: In every reachable state, refreshing currentness against the evidence demotes exactly the current proofs
  whose policy moved to another generation or one of whose paths is no longer authorized at the bound generation,
  leaves every other record alone, and afterwards every current proof is bound to the published policy generation
  and to currently authorized path generations.\<close>

theorem refresh_is_exact:
  assumes "reachable l rt" "0 < max_history l"
  shows "demotes_exactly (refresh_currentness_of (ask_policies rt (collect_policies rt)))
      (current_with rt (\<lambda>p. db_policy_generation (dpf_dependencies p) \<noteq> policy_generation rt (rq_policy (dpf_request p)) \<or>
         list_ex (binding_moved (vw_authority v)) (db_paths (dpf_dependencies p)))) rt (refresh_currentness v rt) \<and>
    current_with (snd (refresh_currentness v rt)) (\<lambda>p. db_policy_generation (dpf_dependencies p) \<noteq>
        policy_generation (snd (refresh_currentness v rt)) (rq_policy (dpf_request p)) \<or>
      list_ex (binding_moved (vw_authority v)) (db_paths (dpf_dependencies p))) = {}"
proof -
  have b: "registry_bounded rt" using reachable_inv(1) [OF assms] by (simp add: runtime_inv_def)
  let ?bad = "\<lambda>p. db_policy_generation (dpf_dependencies p) \<noteq> policy_generation rt (rq_policy (dpf_request p)) \<or>
         list_ex (binding_moved (vw_authority v)) (db_paths (dpf_dependencies p))"
  let ?S = "{j \<in> set (collect_live rt). j \<in> set (ask_policies rt (collect_policies rt)) \<union>
      set (ask_paths (vw_authority v) (collect_questions rt)) \<and> hits yes rt j}"
  have S: "?S = current_with rt ?bad"
    by (auto simp: collect_live_iff [OF b] ask_policies_iff [OF b] ask_paths_iff [OF b] current_with_def hits_def
        stored_proof_def list_ex_iff)
  have d: "demotes_exactly (refresh_currentness_of (ask_policies rt (collect_policies rt))) (current_with rt ?bad) rt (refresh_currentness v rt)"
    using apply_refresh_exactly(1) [of "ask_policies rt (collect_policies rt)" "collect_live rt"
        "ask_paths (vw_authority v) (collect_questions rt)" rt]
    unfolding S refresh_currentness_def .
  have dead: "\<not> is_current (rec_current (refresh_currentness_of sp j r))" for sp j r
    by (simp add: refresh_currentness_of_def is_current_record)
  have "rt_policies (snd (refresh_currentness v rt)) = rt_policies rt" using d by (simp add: demotes_exactly_def)
  then have "policy_generation (snd (refresh_currentness v rt)) = policy_generation rt"
    by (simp add: policy_generation_def fun_eq_iff)
  moreover have "current_with (snd (refresh_currentness v rt)) ?bad = {}"
  proof (rule ccontr)
    assume "current_with (snd (refresh_currentness v rt)) ?bad \<noteq> {}"
    then obtain i p where i: "stored_proof (snd (refresh_currentness v rt)) i = Some p" "is_current p" "?bad p"
      by (auto simp: current_with_def)
    then obtain r where r: "map_of (rt_proofs (snd (refresh_currentness v rt))) i = Some r" "rec_current r = p"
      by (auto simp: stored_proof_def)
    have out: "i \<notin> current_with rt ?bad" "map_of (rt_proofs rt) i = Some r"
      using d r i(2) dead by (auto simp: demotes_exactly_def split: if_splits)
    then show False using i(2,3) r by (auto simp: current_with_def stored_proof_def)
  qed
  ultimately show ?thesis using d by simp
qed

lemma refresh_is_exact_witness:
  "current_with (snd (refresh_currentness sample_views sample_runtime)) (\<lambda>p. db_policy_generation (dpf_dependencies p) \<noteq>
        policy_generation (snd (refresh_currentness sample_views sample_runtime)) (rq_policy (dpf_request p)) \<or>
      list_ex (binding_moved (vw_authority sample_views)) (db_paths (dpf_dependencies p))) = {}"
  using refresh_is_exact [OF sample_runtime_reachable] by blast

end
