(* ===== verification/RuntimeMutations.thy ===== *)
theory RuntimeMutations
  imports RuntimeProps
begin

text \<open>
  What a caller of the runtime may rely on: replays answer without doing anything, refused mutations leave the
  registry alone, policy publication advances by exactly one, operator transitions follow the table, and queries
  answer exactly up to their bound.
\<close>

section \<open>Replays\<close>

lemma admit_accepted:
  assumes "admit a payload pa = (AS_ACCEPTED, pa')"
  shows "validate_authority pa a = AS_ACCEPTED"
    "pa' = pa\<lparr>pa_attempts := om_put (aa_attempt a) (payload, unset_id) (pa_attempts pa)\<rparr>"
    "map_of (pa_attempts pa) (aa_attempt a) = None"
  using assms by (auto simp: admit_def Let_def split: if_splits option.splits)

lemma validate_attempts: "validate_authority (pa\<lparr>pa_attempts := x\<rparr>) a = validate_authority pa a"
  by (simp add: validate_authority_def is_fenced_def)

lemma admit_again:
  assumes "admit a payload pa = (AS_ACCEPTED, pa')"
  shows "admit a payload pa' = (AS_IDEMPOTENT, pa')"
proof -
  have "validate_authority pa' a = AS_ACCEPTED"
    using admit_accepted(1,2) [OF assms] by (simp only: validate_attempts)
  then show ?thesis by (simp add: admit_def admit_accepted(2) [OF assms])
qed

lemma commit_record_publication:
  assumes "commit_record a t fe stored rt = (r, rt')"
    "mr_status r = MS_APPLIED \<or> mr_status r = MS_UNCHANGED \<or> mr_status r = MS_REVALIDATION_REQUIRED"
  shows "rt_publication rt' = rt_publication rt"
  using assms by (auto simp: commit_record_def Let_def split: if_splits)

lemma commit_publication:
  assumes "commit_evaluation a t fe rt = (r, rt')"
    "mr_status r = MS_APPLIED \<or> mr_status r = MS_UNCHANGED \<or> mr_status r = MS_REVALIDATION_REQUIRED"
  shows "rt_publication rt' = rt_publication rt"
proof (cases "commit_guard a t rt")
  case (Some m)
  then have "m = r" using assms by (simp add: commit_evaluation_def)
  then show ?thesis using Some assms(2) by (auto simp: commit_guard_def split: if_splits)
next
  case None
  then have "(\<exists>stored rt2. commit_record a t fe stored rt2 = (r, rt') \<and> rt_publication rt2 = rt_publication rt)"
    using assms by (cases "watermark_drift fe") (force simp: commit_evaluation_def Let_def split: option.splits if_splits)+
  then show ?thesis using commit_record_publication assms(2) by metis
qed

lemma rt_publication_fixed: "rt\<lparr>rt_publication := rt_publication rt\<rparr> = rt"
  by simp

text \<open>C29: Replaying an evaluation that was committed, with the same attempt and the same request, is answered
  IDEMPOTENT with the stored proof and changes nothing but the replay counter, whatever the evidence says by then.\<close>

theorem committed_evaluation_replays:
  assumes "evaluate before behind q a rt = (r, rt')"
    "mr_status r = MS_APPLIED \<or> mr_status r = MS_UNCHANGED \<or> mr_status r = MS_REVALIDATION_REQUIRED"
  shows "evaluate before2 behind2 q a rt' =
    ((mutation_result MS_IDEMPOTENT ''proof request replayed exactly'')
       \<lparr>mr_proof := stored_proof rt' (proof_identity (snd (rq_canonicalize q)))\<rparr>, count_stat inc_idempotent rt')"
proof -
  obtain t rt1 where b: "begin_evaluation q a rt = (Inr t, rt1)"
    using assms begin_refused by (cases "begin_evaluation q a rt") (auto simp: evaluate_def split: sum.splits)
  note bt = begin_ticket [OF b]
  have c: "commit_evaluation a t (run_evaluation (rt_limits rt1) before behind t) rt1 = (r, rt')"
    using assms(1) by (simp add: evaluate_def b)
  have "rt_publication rt' = rt_publication rt1" by (rule commit_publication [OF c assms(2)])
  then have again: "admit_attempt a (rq_digest (snd (rq_canonicalize q))) rt' = (AS_IDEMPOTENT, rt')"
    using admit_again [OF bt(5)] bt(1,2) by (simp add: admit_attempt_def)
  obtain unique canonical where canonical: "rq_canonicalize q = (unique, canonical)" by fastforce
  have unique using b by (cases unique) (simp_all add: begin_evaluation_def canonical)
  show ?thesis
    using again \<open>unique\<close> unfolding canonical snd_conv
    by (cases "map_of (rt_proofs rt') (proof_identity canonical)")
      (simp_all add: evaluate_def begin_evaluation_def canonical Let_def stored_proof_def)
qed

section \<open>Refusals\<close>

text \<open>The one trace a refusal can leave: a reserved record of an identity that was absent.\<close>

definition same_registry :: "runtime \<Rightarrow> runtime \<Rightarrow> bool" where
  "same_registry rt rt' \<longleftrightarrow> rt_limits rt' = rt_limits rt \<and> rt_policies rt' = rt_policies rt \<and>
     rt_by_path rt' = rt_by_path rt \<and> rt_by_domain rt' = rt_by_domain rt \<and> rt_by_risk_group rt' = rt_by_risk_group rt \<and>
     rt_by_entity rt' = rt_by_entity rt \<and> rt_by_policy rt' = rt_by_policy rt \<and> rt_by_boot rt' = rt_by_boot rt \<and>
     rt_by_topology rt' = rt_by_topology rt \<and> rt_by_failure_domain rt' = rt_by_failure_domain rt"

definition written :: "mutation_status \<Rightarrow> bool" where
  "written s \<longleftrightarrow> s = MS_APPLIED \<or> s = MS_REVALIDATION_REQUIRED"

lemma refuse_fields [simp]:
  "rt_proofs (refuse a rt) = rt_proofs rt" "same_registry rt (refuse a rt)" "same_registry rt (release_attempt a rt)"
  "same_registry rt (count_stat f rt)" "rt_publication (refuse a rt) = forget_attempt (aa_attempt a) (rt_publication rt)"
  by (simp_all add: refuse_def same_registry_def)

lemma commit_record_refused:
  assumes "commit_record a t fe stored rt = (r, rt')" "\<not> written (mr_status r)"
  shows "rt_proofs rt' = rt_proofs rt" "same_registry rt rt'" "mr_status r = MS_UNCHANGED \<or> mr_status r = MS_GENERATION_CONFLICT"
    "mr_status r = MS_UNCHANGED \<Longrightarrow> id_valid (dpf_id (rec_current stored))"
    "mr_status r \<noteq> MS_UNCHANGED \<Longrightarrow> rt_publication rt' = forget_attempt (aa_attempt a) (rt_publication rt)"
  using assms by (auto simp: commit_record_def Let_def written_def settled_result_def split: if_splits)

lemma same_registry_trans: "same_registry rt rt1 \<Longrightarrow> same_registry rt1 rt2 \<Longrightarrow> same_registry rt rt2"
  by (simp add: same_registry_def)

lemma same_registry_reserve [simp]: "same_registry rt (put_record i r rt)"
  by (simp add: same_registry_def)

lemma commit_refused:
  assumes "commit_evaluation a t fe rt = (r, rt')" "\<not> written (mr_status r)"
  shows "same_registry rt rt' \<and>
    (rt_proofs rt' = rt_proofs rt \<or> mr_status r = MS_GENERATION_CONFLICT \<and>
       map_of (rt_proofs rt) (proof_identity (tk_request t)) = None \<and>
       rt_proofs rt' = om_put (proof_identity (tk_request t)) empty_record (rt_proofs rt)) \<and>
    (mr_status r \<noteq> MS_UNCHANGED \<longrightarrow> rt_publication rt' = forget_attempt (aa_attempt a) (rt_publication rt))"
proof (cases "commit_guard a t rt")
  case (Some m)
  then show ?thesis using assms by (auto simp: commit_evaluation_def)
next
  case None
  let ?i = "proof_identity (tk_request t)"
  define rt1 where "rt1 = (if watermark_drift fe then count_stat inc_watermark rt else rt)"
  have rt1: "rt_proofs rt1 = rt_proofs rt" "rt_limits rt1 = rt_limits rt" "rt_publication rt1 = rt_publication rt" "same_registry rt rt1"
    by (simp_all add: rt1_def same_registry_def)
  have E: "commit_evaluation a t fe rt = (case map_of (rt_proofs rt1) ?i of Some stored \<Rightarrow> commit_record a t fe stored rt1
      | None \<Rightarrow> if max_proofs (rt_limits rt1) \<le> length (rt_proofs rt1)
          then ((mutation_result MS_LIMIT_EXCEEDED ''proof registry is full'')
             \<lparr>mr_limit := Some (resource_notice RB_MAX_PROOFS (length (rt_proofs rt1) + 1) (max_proofs (rt_limits rt1)))\<rparr>, refuse a rt1)
          else commit_record a t fe empty_record (put_record ?i empty_record rt1))"
    by (cases "map_of (rt_proofs rt) ?i"; cases "watermark_drift fe") (simp_all add: commit_evaluation_def None rt1_def Let_def)
  show ?thesis
  proof (cases "map_of (rt_proofs rt1) ?i")
    case (Some stored)
    then have c: "commit_record a t fe stored rt1 = (r, rt')" using assms(1) E by simp
    show ?thesis using commit_record_refused [OF c assms(2)] rt1 same_registry_trans by auto
  next
    case absent: None
    show ?thesis
    proof (cases "max_proofs (rt_limits rt1) \<le> length (rt_proofs rt1)")
      case True
      then have "rt' = refuse a rt1" using assms(1) E absent by simp
      then show ?thesis using rt1 same_registry_trans [OF rt1(4)] by simp
    next
      case False
      then have c: "commit_record a t fe empty_record (put_record ?i empty_record rt1) = (r, rt')"
        using assms(1) E absent by simp
      have "\<not> id_valid (dpf_id (rec_current empty_record))" by (simp add: empty_record_def)
      then have "mr_status r = MS_GENERATION_CONFLICT" using commit_record_refused(3,4) [OF c assms(2)] by blast
      moreover have "same_registry rt rt'"
        using commit_record_refused(2) [OF c assms(2)] rt1(4) same_registry_trans same_registry_reserve by blast
      ultimately show ?thesis using commit_record_refused(1,5) [OF c assms(2)] rt1 absent by simp
    qed
  qed
qed


definition attempt_known :: "runtime \<Rightarrow> mutation_attempt_id \<Rightarrow> digest option" where
  "attempt_known rt i = map_option fst (map_of (pa_attempts (rt_publication rt)) i)"

lemma forget_after_admit:
  assumes "admit a payload pa = (AS_ACCEPTED, pa')"
  shows "map_of (pa_attempts (forget_attempt (aa_attempt a) pa')) = map_of (pa_attempts pa)"
  using admit_accepted [OF assms] by (auto simp: forget_attempt_def fun_upd_idem)

lemma begin_refusal:
  assumes "begin_evaluation q a rt = (Inl r, rt')"
  shows "same_registry rt rt' \<and> rt_proofs rt' = rt_proofs rt \<and>
    map_of (pa_attempts (rt_publication rt')) = map_of (pa_attempts (rt_publication rt))"
proof (cases "fst (rq_canonicalize q)")
  case False
  then show ?thesis using assms by (cases "rq_canonicalize q") (simp add: begin_evaluation_def same_registry_def)
next
  case True
  obtain canonical where c: "rq_canonicalize q = (True, canonical)" using True by (cases "rq_canonicalize q") simp
  obtain v pub where v: "admit a (rq_digest canonical) (rt_publication rt) = (v, pub)" by fastforce
  show ?thesis
  proof (cases "v = AS_ACCEPTED")
    case False
    then have "pub = rt_publication rt" using admit_refused [of a "rq_digest canonical" "rt_publication rt"] v by simp
    then show ?thesis using assms False v
      by (auto simp: begin_evaluation_def c admit_attempt_def Let_def authority_status_is_success_def same_registry_def
          split: if_splits option.splits)
  next
    case accepted: True
    then have "map_of (pa_attempts (forget_attempt (aa_attempt a) pub)) = map_of (pa_attempts (rt_publication rt))"
      using forget_after_admit v by simp
    then show ?thesis using assms accepted v
      by (auto simp: begin_evaluation_def c admit_attempt_def Let_def authority_status_is_success_def same_registry_def refuse_def
          split: if_splits option.splits)
  qed
qed

text \<open>A refused evaluation changes nothing a caller can rely on: unless it answers APPLIED or
  REVALIDATION_REQUIRED, the policies, the indexes and the stored proofs are as before, except that a generation
  conflict on an identity that was absent leaves an empty record behind; and unless it answers UNCHANGED the
  attempt identity can be used again.\<close>

theorem refused_evaluation_keeps_registry:
  assumes "evaluate before behind q a rt = (r, rt')" "mr_status r \<noteq> MS_APPLIED" "mr_status r \<noteq> MS_REVALIDATION_REQUIRED"
  shows "same_registry rt rt' \<and>
    (rt_proofs rt' = rt_proofs rt \<or> mr_status r = MS_GENERATION_CONFLICT \<and>
       stored_proof rt (proof_identity (snd (rq_canonicalize q))) = None \<and>
       rt_proofs rt' = om_put (proof_identity (snd (rq_canonicalize q))) empty_record (rt_proofs rt)) \<and>
    (mr_status r \<noteq> MS_UNCHANGED \<longrightarrow> attempt_known rt' = attempt_known rt)"
proof (cases "begin_evaluation q a rt")
  case (Pair b rt1)
  show ?thesis
  proof (cases b)
    case (Inl m)
    then have "rt' = rt1" using assms(1) Pair by (simp add: evaluate_def)
    then show ?thesis using begin_refusal [of q a rt m rt1] Pair Inl by (simp add: attempt_known_def fun_eq_iff)
  next
    case (Inr t)
    note bt = begin_ticket [OF Pair [unfolded Inr]]
    have rt1: "same_registry rt rt1" "rt_proofs rt1 = rt_proofs rt" by (subst bt(6), simp add: same_registry_def)+
    have c: "commit_evaluation a t (run_evaluation (rt_limits rt1) before behind t) rt1 = (r, rt')"
      using assms(1) by (simp add: evaluate_def Pair Inr)
    have "\<not> written (mr_status r)" using assms(2,3) by (simp add: written_def)
    note k = commit_refused [OF c this]
    have "mr_status r \<noteq> MS_UNCHANGED \<longrightarrow> attempt_known rt' = attempt_known rt"
      using k forget_after_admit [OF bt(5)] by (simp add: attempt_known_def fun_eq_iff)
    then show ?thesis using k rt1 same_registry_trans bt(1)
      by (auto simp: stored_proof_def)
  qed
qed

lemma dp_canonicalize_id [simp]: "dp_id (dp_canonicalize p) = dp_id p"
  by (simp add: dp_canonicalize_def)

text \<open>C30: Policy publication is optimistic and advances by exactly one. It applies only to a valid policy whose
  expected generation is the published one (unset when there is none), then the canonical policy is stored at
  generation one or at the successor of the published generation and nothing else moves; every other answer
  leaves the registry as it was.\<close>

theorem policy_publication_exact:
  assumes "publish_policy p a rt = (r, rt')"
  shows "rt_proofs rt' = rt_proofs rt \<and>
    (if mr_status r = MS_APPLIED
     then pv_ok (validate_policy (dp_canonicalize p) (rt_limits rt)) \<and>
       aa_expected_policy a = policy_generation rt (dp_id p) \<and>
       (let next = (if published_policy rt (dp_id p) = None then Generation 1 else gen_next (policy_generation rt (dp_id p)));
            stored = (dp_canonicalize p)\<lparr>dp_generation := next\<rparr>
        in mr_policy r = Some stored \<and> published_policy rt' = (published_policy rt)(dp_id p \<mapsto> stored) \<and>
           (published_policy rt (dp_id p) \<noteq> None \<longrightarrow> policy_generation rt (dp_id p) < next))
     else same_registry rt rt')"
proof (cases "pv_ok (validate_policy (dp_canonicalize p) (rt_limits rt))")
  case False
  then show ?thesis using assms by (auto simp: publish_policy_def Let_def same_registry_def)
next
  case True
  obtain v pub where v: "admit a (dp_semantic_digest p) (rt_publication rt) = (v, pub)" by fastforce
  let ?rt = "rt\<lparr>rt_publication := pub\<rparr>"
  have same: "same_registry rt (count_stat f ?rt)" "same_registry rt (refuse a ?rt)" "same_registry rt (release_attempt a ?rt)" for f
    by (simp_all add: same_registry_def refuse_def)
  show ?thesis
  proof (cases "v = AS_ACCEPTED")
    case False
    then show ?thesis using assms True v same(1)
      by (auto simp: publish_policy_def admit_attempt_def Let_def authority_status_is_success_def authority_result_def
          authority_mutation_applied split: if_splits option.splits)
  next
    case accepted: True
    then have "publish_admitted (dp_canonicalize p) a ?rt = (r, rt')"
      using assms True v by (simp add: publish_policy_def admit_attempt_def Let_def authority_status_is_success_def)
    then show ?thesis using same True gen_next_greater
      by (cases "map_of (rt_policies rt) (dp_id p)")
        (auto simp: publish_admitted_def Let_def policy_generation_def published_policy_def fun_eq_iff split: if_splits)
  qed
qed

lemma policy_publication_exact_witness:
  "rt_proofs (snd (publish_policy sample_policy (sample_acting ''w1'' ''t2'') sample_runtime)) = rt_proofs sample_runtime"
  using policy_publication_exact [OF prod.collapse [symmetric], of sample_policy "sample_acting ''w1'' ''t2''" sample_runtime]
  by (rule conjunct1)


section \<open>Sample runs\<close>

lemma sample_canonical: "rq_canonicalize (sample_request [''a'', ''b'']) = (True, sample_request [''a'', ''b''])"
  by code_simp

definition sample_admitted :: "string \<Rightarrow> digest \<Rightarrow> publication_authority" where
  "sample_admitted attempt payload = sample_publication\<lparr>pa_attempts := [(StringId attempt, (payload, unset_id))]\<rparr>"

lemma sample_admit: "attempt \<noteq> [] \<Longrightarrow> admit (sample_acting ''w1'' attempt) payload sample_publication = (AS_ACCEPTED, sample_admitted attempt payload)"
  by (simp add: sample_admitted_def sample_publication_def sample_authority_simps sample_limits_def)

lemma sample_begin:
  "begin_evaluation (sample_request [''a'', ''b'']) (sample_acting ''w1'' ''t2'') (sample_state proofs) =
     (Inr sample_ticket, count_stat inc_evaluations
       ((sample_state proofs)\<lparr>rt_publication := sample_admitted ''t2'' (rq_digest (sample_request [''a'', ''b'']))\<rparr>))"
proof -
  have p: "rt_publication (sample_state proofs) = sample_publication" by (simp add: sample_state_def new_runtime_def)
  have pol: "map_of (rt_policies (sample_state proofs)) (rq_policy (sample_request [''a'', ''b''])) = Some sample_policy"
    "dp_generation sample_policy = rq_policy_generation (sample_request [''a'', ''b''])"
    by (simp_all add: sample_state_def new_runtime_def sample_request_def sample_policy_def)
  show ?thesis
    by (simp add: begin_evaluation_def sample_canonical admit_attempt_def p sample_admit Let_def
        authority_status_is_success_def pol del: rq_canonicalize_fst rq_canonicalize_snd)
      (simp add: sample_ticket_def)
qed

lemma sample_limits_fields: "max_proofs sample_limits = 8" "max_history sample_limits = 8" "max_policies sample_limits = 8"
    "max_attempts_tracked sample_limits = 8" "max_publishers sample_limits = 8" "max_query_results sample_limits = 8"
  by (simp_all add: sample_limits_def)

lemma is_fenced_attempts: "is_fenced (pa\<lparr>pa_attempts := x\<rparr>) b = is_fenced pa b"
  by (simp add: is_fenced_def)

lemma sample_evaluate:
  defines "res \<equiv> evaluate sample_views sample_views (sample_request [''a'', ''b'']) (sample_acting ''w1'' ''t2'') (sample_state [])"
  shows "mr_status (fst res) = MS_APPLIED"
    "mr_proof (fst res) = Some (build_revision (sample_acting ''w1'' ''t2'') sample_ticket
       (evaluate_diversity (sample_request [''a'', ''b'']) sample_policy sample_inputs) (Generation 1))"
proof -
  let ?rt = "count_stat inc_evaluations
       ((sample_state [])\<lparr>rt_publication := sample_admitted ''t2'' (rq_digest (sample_request [''a'', ''b'']))\<rparr>)"
  have "commit_guard (sample_acting ''w1'' ''t2'') sample_ticket ?rt = None"
    by (simp add: commit_guard_def sample_admitted_def sample_state_def new_runtime_def sample_ticket_def sample_request_def
        sample_acting_def is_fenced_attempts sample_publication_fields)
  moreover have "rt_proofs ?rt = []" "rt_limits ?rt = sample_limits" by (simp_all add: sample_state_def new_runtime_def)
  moreover have "\<not> gen_is_set (aa_expected_proof (sample_acting ''w1'' ''t2''))"
    by (simp add: sample_acting_def gen_is_set_def gen_unset_def)
  ultimately show "mr_status (fst res) = MS_APPLIED"
    "mr_proof (fst res) = Some (build_revision (sample_acting ''w1'' ''t2'') sample_ticket
       (evaluate_diversity (sample_request [''a'', ''b'']) sample_policy sample_inputs) (Generation 1))"
    unfolding res_def evaluate_def sample_begin prod.case sum.case
    using sample_run by (simp_all add: commit_evaluation_def commit_record_def Let_def empty_record_def settled_result_def
        settled_evaluation_def sample_limits_fields)
qed

lemma published_proof_is_sound_witness:
  "\<exists>c d. bound_composition sample_topology (sample_ref ''a'') c \<and> bound_composition sample_topology (sample_ref ''b'') d"
proof -
  let ?p = "build_revision (sample_acting ''w1'' ''t2'') sample_ticket
       (evaluate_diversity (sample_request [''a'', ''b'']) sample_policy sample_inputs) (Generation 1)"
  have "dpf_outcome ?p = PO_PROVEN_DIVERSE" by (simp add: sample_proven)
  from published_proof_is_sound [OF prod.collapse [symmetric] sample_evaluate this,
      where policy = sample_policy and x = "sample_ref ''a''" and y = "sample_ref ''b''"]
  show ?thesis by (auto simp: published_policy_def sample_state_def new_runtime_def sample_request_def sample_views_def sample_simps
      sample_policy_def default_policy_def sample_ref_def)
qed

lemma committed_evaluation_replays_witness:
  "mr_status (fst (evaluate sample_views sample_views (sample_request [''a'', ''b'']) (sample_acting ''w1'' ''t2'')
     (snd (evaluate sample_views sample_views (sample_request [''a'', ''b'']) (sample_acting ''w1'' ''t2'') (sample_state []))))) = MS_IDEMPOTENT"
  using committed_evaluation_replays [OF prod.collapse [symmetric] disjI1 [OF sample_evaluate(1)]] by simp

lemma refused_evaluation_keeps_registry_witness:
  "same_registry (sample_state []) (snd (evaluate sample_views sample_views (sample_request [''a'', ''a'']) (sample_acting ''w1'' ''t2'') (sample_state [])))"
proof -
  have "evaluate sample_views sample_views (sample_request [''a'', ''a'']) (sample_acting ''w1'' ''t2'') (sample_state []) =
      (mutation_result MS_MALFORMED ''proof set contains a duplicate path identity'', sample_state [])"
  proof -
    have "\<not> fst (rq_canonicalize (sample_request [''a'', ''a'']))" by (simp add: sample_request_def sample_ref_def)
    then obtain c where "rq_canonicalize (sample_request [''a'', ''a'']) = (False, c)"
      by (cases "rq_canonicalize (sample_request [''a'', ''a''])") simp
    then show ?thesis by (simp add: evaluate_def begin_evaluation_def)
  qed
  from refused_evaluation_keeps_registry [OF this] show ?thesis by (simp add: \<open>_ = (_, sample_state [])\<close>)
qed


section \<open>Operator transitions\<close>

text \<open>Operator transitions follow the table. A transition that applies moves the stored proof along an allowed
  edge to the requested state, makes it not current, keeps its content and the previous revision in the history,
  and touches no other proof; a transition that does not apply leaves every stored proof as it was.\<close>

theorem lifecycle_transition_exact:
  assumes "apply_lifecycle i a target reason rt = (r, rt')" "target \<noteq> LS_CURRENT" "0 < max_history (rt_limits rt)"
  shows "same_registry rt rt' \<and>
    (if mr_status r = MS_APPLIED
     then (case stored_proof rt i of None \<Rightarrow> False | Some old \<Rightarrow>
       lifecycle_transition_allowed (dpf_lifecycle old) target \<and> dpf_lifecycle old \<noteq> target \<and>
       stored_proof rt' i = Some (old\<lparr>dpf_lifecycle := target, dpf_detail := reason, dpf_currentness := CN_REVALIDATION_REQUIRED\<rparr>) \<and>
       last (proof_history rt' i) = old \<and> (\<forall>j. j \<noteq> i \<longrightarrow> map_of (rt_proofs rt') j = map_of (rt_proofs rt) j))
     else rt_proofs rt' = rt_proofs rt)"
proof -
  obtain v pub where v: "admit a (lifecycle_payload i target) (rt_publication rt) = (v, pub)" by fastforce
  let ?rt = "rt\<lparr>rt_publication := pub\<rparr>"
  have frame: "same_registry rt (count_stat f ?rt)" "same_registry rt ?rt" "same_registry rt (release_attempt a ?rt)"
    "same_registry rt (count_stat f (put_record i s ?rt))" for f s
    by (simp_all add: same_registry_def)
  have moved: ?thesis if "transition_stored i a target reason ?rt = (r, rt')"
  proof (cases "map_of (rt_proofs rt) i")
    case None
    then show ?thesis using that frame by (auto simp: transition_stored_def)
  next
    case (Some stored)
    have newest: "last (tl (h @ [x])) = x" if "max_history (rt_limits rt) < Suc (length h)" for h and x :: diversity_proof
      using assms(3) that by (cases h) auto
    show ?thesis
      using that Some assms(2) frame
      by (auto simp: transition_stored_def Let_def transition_record_def stored_proof_def proof_history_def
          newest split: if_splits)
  qed
  show ?thesis
  proof (cases "v = AS_IDEMPOTENT \<and> map_of (rt_proofs rt) i \<noteq> None")
    case True
    then obtain stored where s: "map_of (rt_proofs rt) i = Some stored" by auto
    show ?thesis
    proof (cases "dpf_lifecycle (rec_current stored) = target")
      case True
      then have "r = (mutation_result MS_IDEMPOTENT ''lifecycle transition replayed exactly'')\<lparr>mr_proof := Some (rec_current stored)\<rparr>"
        "rt' = ?rt" using assms(1) v s \<open>v = _ \<and> _\<close> by (simp_all add: apply_lifecycle_def admit_attempt_def)
      then show ?thesis using frame by simp
    qed (use assms(1) v s True moved in \<open>simp add: apply_lifecycle_def admit_attempt_def\<close>)
  next
    case False
    then show ?thesis using assms(1) v moved frame
      by (cases "map_of (rt_proofs rt) i"; cases v)
        (auto simp: apply_lifecycle_def admit_attempt_def authority_status_is_success_def ops_authority_mutation_def)
  qed
qed


definition sample_revoked :: runtime where
  "sample_revoked = sample_state [(StringId ''d'',
     \<lparr>rec_current = (sample_proof ''a'' 1)\<lparr>dpf_id := StringId ''d'', dpf_lifecycle := LS_CURRENT, dpf_currentness := CN_CURRENT\<rparr>,
      rec_history = [], rec_snapshots = []\<rparr>)]"

lemma lifecycle_transition_exact_witness:
  "stored_proof (snd (apply_lifecycle (StringId ''d'') (sample_acting ''w1'' ''t2'') LS_REVOKED ''decided'' sample_revoked)) (StringId ''d'') =
     Some ((sample_proof ''a'' 1)\<lparr>dpf_id := StringId ''d'', dpf_lifecycle := LS_REVOKED, dpf_detail := ''decided'',
       dpf_currentness := CN_REVALIDATION_REQUIRED\<rparr>)"
proof -
  let ?res = "apply_lifecycle (StringId ''d'') (sample_acting ''w1'' ''t2'') LS_REVOKED ''decided'' sample_revoked"
  have p: "rt_publication sample_revoked = sample_publication" "rt_limits sample_revoked = sample_limits"
    by (simp_all add: sample_revoked_def sample_state_def new_runtime_def)
  have "mr_status (fst ?res) = MS_APPLIED"
    by (simp add: apply_lifecycle_def admit_attempt_def p sample_admit authority_status_is_success_def transition_stored_def Let_def)
      (simp add: sample_revoked_def sample_state_def new_runtime_def lifecycle_transition_allowed_def Let_def)
  then show ?thesis
    using lifecycle_transition_exact [where i = "StringId ''d''" and a = "sample_acting ''w1'' ''t2''" and target = LS_REVOKED
        and reason = "''decided''" and rt = sample_revoked, OF prod.collapse [symmetric]]
    by (simp add: p sample_limits_fields split: option.splits)
      (simp add: sample_revoked_def sample_state_def new_runtime_def stored_proof_def)
qed

text \<open>C32: Evaluation does not look at the lifecycle of what it replaces: a commit over a proof in any state, a
  revoked or retired one included, whose re-evaluation is decisive and different stores a revision that is
  current again.\<close>

theorem commit_revives_terminal_proof:
  assumes "map_of (rt_proofs rt) (proof_identity (tk_request t)) = Some stored" "commit_guard a t rt = None"
    and "lifecycle_is_terminal (dpf_lifecycle (rec_current stored))" "\<not> exhausted (rec_current stored)"
    and "\<not> gen_is_set (aa_expected_proof a)" "\<not> watermark_drift fe" "outcome_is_decisive (ev_outcome (fe_evaluation fe))"
    and "dpf_semantic_digest (rec_current stored) \<noteq>
      proof_semantic_digest (build_revision a t (fe_evaluation fe) (next_generation (rec_current stored)))"
  shows "proof_identity (tk_request t) \<in> current_with (snd (commit_evaluation a t fe rt)) (\<lambda>p. True)"
proof -
  have e: "settled_evaluation fe = fe_evaluation fe" using assms(6) by (simp add: settled_evaluation_def)
  have "stored_proof (snd (commit_evaluation a t fe rt)) (proof_identity (tk_request t)) =
      Some (build_revision a t (fe_evaluation fe) (next_generation (rec_current stored)))"
    using assms(1,2,4-6,8) unfolding exhausted_def next_generation_def
    by (auto simp: commit_evaluation_def commit_record_def Let_def e stored_proof_def store_revision_def)
  moreover have "is_current (build_revision a t (fe_evaluation fe) (next_generation (rec_current stored)))"
    using assms(7) by (auto simp: is_current_def currentness_for_outcome_current decisive_cases committed_lifecycle_def)
  ultimately show ?thesis by (simp add: current_with_def)
qed

definition sample_retired :: proof_record where
  "sample_retired = \<lparr>rec_current = (sample_proof ''a'' 1)\<lparr>dpf_id := proof_identity (tk_request sample_ticket), dpf_lifecycle := LS_REVOKED,
      dpf_semantic_digest := Digest []\<rparr>, rec_history = [], rec_snapshots = []\<rparr>"

lemma sample_retired_digest: "\<not> digest_wf (dpf_semantic_digest (rec_current sample_retired))"
  by (simp add: sample_retired_def digest_wf_def)

lemma commit_revives_terminal_proof_witness:
  "proof_identity (tk_request sample_ticket) \<in> current_with (snd (commit_evaluation (sample_acting ''w1'' ''t2'') sample_ticket
     (run_evaluation sample_limits sample_views sample_views sample_ticket)
     (sample_state [(proof_identity (tk_request sample_ticket), sample_retired)]))) (\<lambda>p. True)"
proof (rule commit_revives_terminal_proof [where stored = sample_retired, OF _ sample_guard _ _ _ sample_run(2)])
  show "dpf_semantic_digest (rec_current sample_retired) \<noteq> proof_semantic_digest (build_revision (sample_acting ''w1'' ''t2'') sample_ticket
      (fe_evaluation (run_evaluation sample_limits sample_views sample_views sample_ticket)) (next_generation (rec_current sample_retired)))"
    by (metis sample_retired_digest digest_wf_semantic)
qed (simp_all add: sample_retired_def sample_state_def new_runtime_def lifecycle_is_terminal_def exhausted_def sample_proof_def
    sample_run(1) sample_proven decisive_cases sample_acting_def gen_is_set_def gen_unset_def gen_can_advance_def)

section \<open>Queries\<close>

lemma bounded_loop_result:
  "length (qr_proofs r) \<le> bound \<Longrightarrow> \<not> qr_truncated r \<Longrightarrow> bounded_loop bound ids r =
     r\<lparr>qr_proofs := take bound (qr_proofs r @ ids), qr_truncated := (bound < length (qr_proofs r) + length ids)\<rparr>"
  by (induction bound ids r rule: bounded_loop.induct) (auto simp: take_Cons' Suc_diff_le)

lemma bounded_result_eq:
  "bounded_result ids bound = \<lparr>qr_proofs = take bound ids, qr_truncated = (bound < length ids), qr_total = of_nat (length ids)\<rparr>"
  by (simp add: bounded_result_def bounded_loop_result empty_query_def)

lemma query_index_eq:
  "query_index index k rt =
     \<lparr>qr_proofs = take (max_query_results (rt_limits rt)) (om_members index k),
      qr_truncated = (max_query_results (rt_limits rt) < length (om_members index k)),
      qr_total = of_nat (length (om_members index k))\<rparr>"
  by (simp add: query_index_def om_members_def bounded_result_eq empty_query_def split: option.split)

lemma sorted_list_of_os:
  "sorted_wrt (<) xs \<Longrightarrow> set xs = S \<Longrightarrow> xs = sorted_list_of_set S"
  by (metis sorted_list_of_set.idem_if_sorted_distinct strict_sorted_iff)

lemma current_list:
  assumes "registry_bounded rt"
  shows "fold (\<lambda>e live. if is_current (rec_current (snd e)) then os_insert (fst e) live else live) (rt_proofs rt) [] =
    sorted_list_of_set (current_with rt (\<lambda>p. True))"
proof (rule sorted_list_of_os)
  let ?step = "\<lambda>e live. if is_current (rec_current (snd e)) then os_insert (fst e) live else live"
  have "sorted_wrt (<) acc \<Longrightarrow> sorted_wrt (<) (fold ?step es acc)" for es :: "(diversity_proof_id \<times> proof_record) list" and acc
    by (induction es arbitrary: acc) (auto intro: os_insert_strict)
  then show "sorted_wrt (<) (fold ?step (rt_proofs rt) [])" by simp
  have "set (fold ?step es acc) = set acc \<union> fst ` {e \<in> set es. is_current (rec_current (snd e))}" for es :: "(diversity_proof_id \<times> proof_record) list" and acc
    by (induction es arbitrary: acc) auto
  then have "set (fold ?step (rt_proofs rt) []) = fst ` {e \<in> set (rt_proofs rt). is_current (rec_current (snd e))}" by simp
  also have "\<dots> = {i. \<exists>r. (i, r) \<in> set (rt_proofs rt) \<and> is_current (rec_current r)}" by force
  also have "\<dots> = {i. \<exists>r. map_of (rt_proofs rt) i = Some r \<and> is_current (rec_current r)}"
    using assms om_sorted_map_of map_of_SomeD unfolding registry_bounded_def by metis
  also have "\<dots> = current_with rt (\<lambda>p. True)" by (auto simp: current_with_def stored_proof_def)
  finally show "set (fold ?step (rt_proofs rt) []) = current_with rt (\<lambda>p. True)" .
qed

text \<open>Queries are bounded and never guess: the answer is the ascending prefix of the exact list of proofs, the
  total counts all of them and the truncation flag is set exactly when some are missing; the list of current
  proofs is exactly the set of current proofs, and the indexed queries answer from their index.\<close>

theorem queries_are_bounded_prefixes:
  assumes "reachable l rt" "0 < max_history l"
  shows "current_proofs rt =
      \<lparr>qr_proofs = take (max_query_results l) (sorted_list_of_set (current_with rt (\<lambda>p. True))),
       qr_truncated = (max_query_results l < card (current_with rt (\<lambda>p. True))),
       qr_total = of_nat (card (current_with rt (\<lambda>p. True)))\<rparr> \<and>
    proofs_for_path rt path =
      \<lparr>qr_proofs = take (max_query_results l) (om_members (rt_by_path rt) path),
       qr_truncated = (max_query_results l < length (om_members (rt_by_path rt) path)),
       qr_total = of_nat (length (om_members (rt_by_path rt) path))\<rparr> \<and>
    current_with rt (\<lambda>p. path \<in> pr_path ` set (rq_paths (dpf_request p))) \<subseteq> set (om_members (rt_by_path rt) path)"
proof -
  note inv = reachable_inv [OF assms]
  have b: "registry_bounded rt" "records_ok rt" using inv(1) by (simp_all add: runtime_inv_def)
  have "current_with rt (\<lambda>p. path \<in> pr_path ` set (rq_paths (dpf_request p))) \<subseteq> set (om_members (rt_by_path rt) path)"
  proof
    fix i assume "i \<in> current_with rt (\<lambda>p. path \<in> pr_path ` set (rq_paths (dpf_request p)))"
    then obtain r where r: "map_of (rt_proofs rt) i = Some r" "is_current (rec_current r)"
      "path \<in> pr_path ` set (rq_paths (dpf_request (rec_current r)))" by (auto simp: current_with_def stored_proof_def)
    with current_indexed(1) [OF b(2) r(1,2)] show "i \<in> set (om_members (rt_by_path rt) path)"
      unfolding indexed_def by blast
  qed
  then show ?thesis
    by (simp add: current_proofs_def current_list [OF b(1)] bounded_result_eq inv(2) proofs_for_path_def query_index_eq)
qed

lemma queries_are_bounded_prefixes_witness:
  "length (qr_proofs (proofs_for_path sample_runtime (StringId ''a''))) \<le> 8"
  using queries_are_bounded_prefixes [OF sample_runtime_reachable, of "StringId ''a''"] by (simp add: sample_limits_fields)

section \<open>The sample runtime\<close>

lemma sample_policy_admissible: "pv_ok (validate_policy (dp_canonicalize sample_policy) sample_limits)" "dp_canonicalize sample_policy = sample_policy"
proof -
  show c: "dp_canonicalize sample_policy = sample_policy" by (simp add: dp_canonicalize_def sample_policy_def default_policy_def)
  show "pv_ok (validate_policy (dp_canonicalize sample_policy) sample_limits)"
    unfolding c by code_simp
qed

lemma sample_runtime_value:
  "sample_runtime = (new_runtime sample_publication sample_limits)
     \<lparr>rt_policies := [(StringId ''p'', sample_policy)], rt_publication := sample_admitted ''t1'' (dp_semantic_digest sample_policy)\<rparr>"
proof -
  have fields: "rt_limits (new_runtime sample_publication sample_limits) = sample_limits"
    "rt_publication (new_runtime sample_publication sample_limits) = sample_publication"
    "rt_policies (new_runtime sample_publication sample_limits) = []" by (simp_all add: new_runtime_def)
  have "aa_expected_policy (sample_acting ''w1'' ''t1'') = gen_unset" "dp_id sample_policy = StringId ''p''"
    "sample_policy\<lparr>dp_generation := Generation 1\<rparr> = sample_policy"
    by (simp_all add: sample_acting_def sample_policy_def)
  then show ?thesis
    using sample_policy_admissible
    by (simp add: sample_runtime_def publish_policy_def admit_attempt_def fields sample_admit Let_def authority_status_is_success_def
        publish_admitted_def sample_limits_fields)
qed

lemma sample_runtime_fields:
  "rt_policies sample_runtime = [(StringId ''p'', sample_policy)]" "rt_proofs sample_runtime = []" "rt_limits sample_runtime = sample_limits"
  "pa_epoch (rt_publication sample_runtime) = Generation 1" "\<not> is_fenced (rt_publication sample_runtime) (StringId ''w1'')"
  by (simp_all add: sample_runtime_value new_runtime_def sample_admitted_def is_fenced_attempts sample_publication_fields)

end
