(* ===== verification/RuntimeRestart.thy ===== *)
theory RuntimeRestart
  imports RuntimeMutations
begin

text \<open>
  What a restart keeps and what it loses: saving a runtime with \<open>DiversityRuntime::save\<close> and loading the file into a
  fresh runtime with \<open>DiversityRuntime::load\<close>, through the encoded store and the file that was replaced.
\<close>

section \<open>What comes back\<close>

definition storable :: "runtime \<Rightarrow> bool" where
  "storable rt \<longleftrightarrow>
     contents_ok (rt_limits rt) (snapshot_storable (rt_limits rt)) (save_contents rt) \<and>
     length (encode_store (save_contents rt)) \<le> max_store_bytes (rt_limits rt)"

lemma storable_record:
  assumes "storable rt" "(i, r) \<in> set (rt_proofs rt)"
  shows "proof_storable (rt_limits rt) (rec_current r)"
  using assms by (auto simp: storable_def contents_ok_def save_contents_def list_fits_def list_all_iff)

lemma storable_key:
  assumes "runtime_inv rt" "storable rt" "e \<in> set (rt_proofs rt)"
  shows "dpf_id (rec_current (snd e)) = fst e"
proof -
  have "id_valid (dpf_id (rec_current (snd e)))"
    using storable_record [of rt "fst e" "snd e"] assms(2,3) by (auto simp: proof_storable_def dest: fits_valid)
  moreover have "map_of (rt_proofs rt) (fst e) = Some (snd e)"
    using assms(1,3) by (simp add: runtime_inv_def registry_bounded_def om_sorted_map_of)
  ultimately show ?thesis
    using assms(1) records_okD [of rt "fst e" "snd e"] by (simp add: runtime_inv_def record_ok_def)
qed

lemma saved_policies:
  assumes "runtime_inv rt"
  shows "fold (\<lambda>p. om_put (dp_id p) p) (sc_policies (save_contents rt)) [] = rt_policies rt"
proof -
  have sorted: "om_sorted (rt_policies rt)" using assms by (simp add: runtime_inv_def registry_bounded_def)
  have "dp_id (snd e) = fst e" if "e \<in> set (rt_policies rt)" for e
    using that assms om_sorted_map_of [OF sorted, of "fst e" "snd e"] by (simp add: runtime_inv_def policies_ok_def)
  then show ?thesis
    using fold_keyed_list [OF sorted, where f = "\<lambda>p. p" and key = dp_id and g = "\<lambda>p. p"] by (simp add: save_contents_def)
qed

lemma saved_proofs:
  assumes "runtime_inv rt" "storable rt"
  shows "fold (\<lambda>p. om_put (dpf_id p) (loaded_record p)) (sc_proofs (save_contents rt)) [] =
    map (\<lambda>e. (fst e, loaded_record (rec_current (snd e)))) (rt_proofs rt)"
  using fold_keyed_list [of "rt_proofs rt" dpf_id rec_current loaded_record] assms storable_key [OF assms]
  by (simp add: save_contents_def runtime_inv_def registry_bounded_def)

text \<open>A record as it comes back: the retained snapshots are replaced by that of the current revision.\<close>

definition after_restart :: "proof_record \<Rightarrow> proof_record" where
  "after_restart r = r\<lparr>rec_snapshots := [capture_snapshot (rec_current r)]\<rparr>"

lemma loaded_after_restart:
  "(loaded_record (rec_current r))\<lparr>rec_history := rec_history r\<rparr> = after_restart r"
  "rec_history r = [] \<Longrightarrow> loaded_record (rec_current r) = after_restart r"
  by (simp_all add: loaded_record_def after_restart_def)

lemma restarted_records:
  assumes "runtime_inv rt" "storable rt"
  shows "map_of (rt_proofs (load_contents (save_contents rt) (new_runtime pub (rt_limits rt)))) i =
    map_option after_restart (map_of (rt_proofs rt) i)"
proof -
  have sorted: "om_sorted (rt_proofs rt)" using assms(1) by (simp add: runtime_inv_def registry_bounded_def)
  note distinct = om_sorted_distinct [OF sorted]
  have keys: "distinct (map fst (sc_history (save_contents rt)))"
    using distinct by (simp add: save_contents_def comp_def distinct_map inj_on_def)
  have current: "map_of (map (\<lambda>e. (fst e, loaded_record (rec_current (snd e)))) (rt_proofs rt)) i =
      map_option (\<lambda>r. loaded_record (rec_current r)) (map_of (rt_proofs rt) i)"
    using map_of_selected [OF distinct, of "\<lambda>r. loaded_record (rec_current r)" "\<lambda>_. True" i] by (simp split: option.split)
  have history: "map_of (sc_history (save_contents rt)) i =
      (case map_of (rt_proofs rt) i of None \<Rightarrow> None | Some r \<Rightarrow> if rec_history r \<noteq> [] then Some (rec_history r) else None)"
    using map_of_selected [OF distinct, of rec_history "\<lambda>r. rec_history r \<noteq> []" i] by (simp add: save_contents_def)
  have "rt_proofs (load_contents (save_contents rt) (new_runtime pub (rt_limits rt))) =
      fold attach_history (sc_history (save_contents rt)) (map (\<lambda>e. (fst e, loaded_record (rec_current (snd e)))) (rt_proofs rt))"
    using saved_proofs [OF assms] by (simp add: new_runtime_def)
  then show ?thesis
    by (cases "map_of (rt_proofs rt) i")
      (auto simp: fold_attach_lookup [OF keys] history current loaded_after_restart simp del: load_contents_fields)
qed

lemma new_runtime_limits: "rt_limits (new_runtime pub l) = l"
  by (simp add: new_runtime_def)

lemma restarted_sorted:
  assumes "runtime_inv rt" "storable rt"
  shows "om_sorted (rt_proofs (load_contents (save_contents rt) (new_runtime pub (rt_limits rt))))"
    "length (rt_proofs (load_contents (save_contents rt) (new_runtime pub (rt_limits rt)))) = length (rt_proofs rt)"
proof -
  have "om_sorted (map (\<lambda>e. (fst e, loaded_record (rec_current (snd e)))) (rt_proofs rt))"
    using assms(1) by (simp add: om_sorted_def comp_def runtime_inv_def registry_bounded_def)
  then show "om_sorted (rt_proofs (load_contents (save_contents rt) (new_runtime pub (rt_limits rt))))"
    "length (rt_proofs (load_contents (save_contents rt) (new_runtime pub (rt_limits rt)))) = length (rt_proofs rt)"
    using saved_proofs [OF assms] by (simp_all add: new_runtime_def fold_attach_sorted fold_attach_length)
qed

lemma restarted_inv:
  assumes "runtime_inv rt" "storable rt" "authority_inv pub" "0 < max_history (rt_limits rt)"
  shows "runtime_inv (load_contents (save_contents rt) (new_runtime pub (rt_limits rt)))" (is "runtime_inv ?rt")
proof -
  have inv: "registry_bounded rt" "policies_ok rt" "records_ok rt" using assms(1) by (simp_all add: runtime_inv_def)
  have policies: "rt_policies ?rt = rt_policies rt" using saved_policies [OF assms(1)] by (simp add: new_runtime_def)
  note sorted' = restarted_sorted [OF assms(1,2), of pub]
  note found = restarted_records [OF assms(1,2), of pub]
  have "registry_bounded ?rt"
    using inv(1) sorted' policies assms(4)
    by (auto simp: registry_bounded_def found after_restart_def new_runtime_limits simp del: load_contents_fields(3,4))
  moreover have "policies_ok ?rt" using inv(2) policies by (simp add: policies_ok_def)
  moreover have "record_ok i (rec_current r) \<and> indexed ?rt i (rec_current r)" if "map_of (rt_proofs ?rt) i = Some r" for i r
  proof
    show "record_ok i (rec_current r)"
      using that inv(3) by (auto simp: found after_restart_def records_ok_def simp del: load_contents_fields)
    show "indexed ?rt i (rec_current r)"
      using map_of_SomeD [OF that] unfolding load_contents_def Let_def by (auto intro: indexed_fold)
  qed
  moreover have "authority_inv (rt_publication ?rt)" using restored_authority_inv [OF assms(3)] by (simp add: new_runtime_def)
  ultimately show ?thesis by (simp add: runtime_inv_def records_ok_def)
qed

lemma stored_after_load:
  assumes "write_store_atomic outcome (temporary_path target process tag) target (encode_store c) fs = (states, PS_OK)"
    and "length (encode_store c) \<le> max_store_bytes l"
  shows "read_store_bytes RO_Done l target (last states) = Inr (encode_store c)"
proof -
  have "last states target = Some (encode_store c)"
    using assms(1) by (cases outcome) (auto simp: write_store_atomic_def Let_def)
  moreover have "0 < length (encode_store c)" by (simp add: encode_store_def Let_def)
  ultimately show ?thesis using assms(2) by (simp add: read_store_bytes_def)
qed

lemma saved_and_loaded:
  assumes "storable rt" "save outcome (temporary_path target process tag) target rt fs = (states, PS_OK)" "rt_limits fresh = rt_limits rt"
  shows "load RO_Done target (last states) fresh = (PS_OK, load_contents (save_contents rt) fresh)"
  using assms stored_after_load [OF assms(2) [unfolded save_def], of "rt_limits rt"] store_content [of "rt_limits rt" "save_contents rt"]
  by (simp add: load_def storable_def)

lemma member_fenced: "b \<in> set (fenced_boots pa) \<Longrightarrow> om_sorted (pa_fenced pa) \<Longrightarrow> is_fenced pa b"
  by (auto simp: fenced_boots_def is_fenced_def om_sorted_map_of)

lemma fenced_member: "is_fenced pa b \<Longrightarrow> b \<in> set (fenced_boots pa)"
  by (force simp: fenced_boots_def is_fenced_def dest: map_of_SomeD)

lemma saved_fences:
  assumes "runtime_inv rt" "storable rt"
  shows "is_fenced (restored_publication (save_contents rt) (new_authority l)) b = is_fenced (rt_publication rt) b"
proof -
  have "om_sorted (pa_fenced (rt_publication rt))"
    using assms(1) by (simp add: runtime_inv_def authority_inv_def authority_bounded_def)
  moreover have "id_valid b" if "b \<in> set (fenced_boots (rt_publication rt))" for b
    using assms(2) that by (auto simp: storable_def contents_ok_def save_contents_def list_fits_def list_all_iff dest: fits_valid)
  moreover have "\<not> is_fenced (new_authority l) b" by (simp add: is_fenced_def new_authority_def)
  ultimately show ?thesis
    using member_fenced [of b "rt_publication rt"] fenced_member [of "rt_publication rt" b]
    unfolding restored_fences by (auto simp: save_contents_def)
qed

text \<open>C6: A restart keeps what must survive it, provided the runtime is storable: every record that is saved passes the
  checks of the decoder (a stored rejected evaluation does not), and the encoding fits max_store_bytes. Then,
  when the save answers OK, loading the file into a fresh runtime of a new process answers OK and gives back every
  policy, every proof revision with its whole history, the coordinator epoch and every fence; no publisher is live, and
  the runtime satisfies its invariant again, so that in particular the path, entity, policy, boot and generation
  indexes know every proof they have to.\<close>

theorem restart_restores_runtime:
  assumes "runtime_inv rt" "storable rt" "0 < max_history (rt_limits rt)"
    and "save outcome (temporary_path target process tag) target rt fs = (states, PS_OK)"
  shows "\<exists>rt'. load RO_Done target (last states) (new_runtime (new_authority l) (rt_limits rt)) = (PS_OK, rt') \<and>
    rt_policies rt' = rt_policies rt \<and>
    (\<forall>i. stored_proof rt' i = stored_proof rt i \<and> proof_history rt' i = proof_history rt i) \<and>
    pa_epoch (rt_publication rt') = pa_epoch (rt_publication rt) \<and>
    (\<forall>b. is_fenced (rt_publication rt') b = is_fenced (rt_publication rt) b) \<and>
    (\<forall>b. map_of (pa_sessions (rt_publication rt')) b = None) \<and> runtime_inv rt'"
proof (intro exI conjI allI)
  let ?rt = "load_contents (save_contents rt) (new_runtime (new_authority l) (rt_limits rt))"
  show "load RO_Done target (last states) (new_runtime (new_authority l) (rt_limits rt)) = (PS_OK, ?rt)"
    by (rule saved_and_loaded [OF assms(2,4)]) (simp add: new_runtime_def)
  show "rt_policies ?rt = rt_policies rt" using saved_policies [OF assms(1)] by (simp add: new_runtime_def)
  show "stored_proof ?rt i = stored_proof rt i" "proof_history ?rt i = proof_history rt i" for i
    unfolding stored_proof_def proof_history_def restarted_records [OF assms(1,2)]
    by (cases "map_of (rt_proofs rt) i"; simp add: after_restart_def)+
  show "pa_epoch (rt_publication ?rt) = pa_epoch (rt_publication rt)"
    using assms(1) by (simp add: runtime_inv_def authority_inv_def epoch_ok_def save_contents_def restore_epoch_def new_runtime_def new_authority_def)
  show "is_fenced (rt_publication ?rt) b = is_fenced (rt_publication rt) b" for b
    using saved_fences [OF assms(1,2)] by (simp add: new_runtime_def)
  show "map_of (pa_sessions (rt_publication ?rt)) b = None" for b
    by (simp add: restored_session new_runtime_def new_authority_def)
  show "runtime_inv ?rt" by (rule restarted_inv [OF assms(1,2) new_authority_inv assms(3)])
qed

text \<open>What a runtime saves fits into an empty runtime with the same limits, so that recovery at the start is a step of the
  life of the new runtime.\<close>

lemma saved_fits:
  assumes "runtime_inv rt" "storable rt"
  shows "load_fits (save_contents rt) (new_runtime pub (rt_limits rt))"
proof -
  have "proof_identity (dpf_request (rec_current (snd e))) = dpf_id (rec_current (snd e)) \<and> gen_is_set (dpf_generation (rec_current (snd e)))"
    if e: "e \<in> set (rt_proofs rt)" for e
  proof -
    have "id_valid (dpf_id (rec_current (snd e)))"
      using storable_record [of rt "fst e" "snd e"] assms(2) e by (auto simp: proof_storable_def dest: fits_valid)
    moreover have "map_of (rt_proofs rt) (fst e) = Some (snd e)"
      using assms(1) e by (simp add: runtime_inv_def registry_bounded_def om_sorted_map_of)
    ultimately show ?thesis using assms(1) records_okD(1) [of rt "fst e" "snd e"] by (simp add: runtime_inv_def record_ok_def)
  qed
  then have keys: "\<forall>p\<in>set (sc_proofs (save_contents rt)). proof_identity (dpf_request p) = dpf_id p \<and> gen_is_set (dpf_generation p)"
    by (simp add: save_contents_def)
  have "length (rt_policies rt) \<le> max_policies (rt_limits rt)" "length (rt_proofs rt) \<le> max_proofs (rt_limits rt)"
    using assms(1) by (simp_all add: runtime_inv_def registry_bounded_def)
  moreover have "rt_policies (load_contents (save_contents rt) (new_runtime pub (rt_limits rt))) = rt_policies rt"
    using saved_policies [OF assms(1)] by (simp add: new_runtime_def)
  ultimately show ?thesis
    unfolding load_fits_def restarted_sorted(2) [OF assms] new_runtime_limits using keys by simp
qed

text \<open>A fence does not reach into the stores that were saved before it: loading one afterwards makes the proofs of the
  fenced boot current again, although the boot stays fenced.\<close>

theorem old_store_revives_fenced_boot:
  assumes "runtime_inv rt" "storable rt" "save outcome (temporary_path target process tag) target rt fs = (states, PS_OK)"
    and "map_of (rt_proofs rt) i = Some r" "is_current (rec_current r)" "b = pn_boot (dpf_provenance (rec_current r))" "id_valid b"
    and "later = snd (rt_fence_boot b rt)"
  shows "\<exists>rt'. load RO_Done target (last states) later = (PS_OK, rt') \<and> is_fenced (rt_publication rt') b \<and>
    stored_proof rt' i = Some (rec_current r)"
proof (intro exI conjI)
  let ?rt = "load_contents (save_contents rt) later"
  have d: "demotes_exactly (\<lambda>j. demoted CN_FENCED_PUBLISHER ''the publishing worker boot was fenced; live authority for this proof is gone'')
      {j \<in> set (om_members (rt_by_boot (fence_publication b rt)) b). hits yes (fence_publication b rt) j} (fence_publication b rt) (demote_boot b (fence_publication b rt))"
    by (rule demote_boot_exactly)
  then have limits: "rt_limits later = rt_limits rt"
    using micros_limits [OF runtime_steps_micro [OF fence_boot_steps [of rt b]]] assms(8) by simp
  show "load RO_Done target (last states) later = (PS_OK, ?rt)"
    by (rule saved_and_loaded [OF assms(2,3) limits])
  have "is_fenced (rt_publication later) b"
    using d assms(7,8) by (simp add: rt_fence_boot_def demotes_exactly_def fence_publication_def is_fenced_fence)
  then show "is_fenced (rt_publication ?rt) b" by (simp add: restored_fences)
  have sorted: "om_sorted (rt_proofs rt)" using assms(1) by (simp add: runtime_inv_def registry_bounded_def)
  have "map_of (fold (\<lambda>p. om_put (dpf_id p) (loaded_record p)) (map (\<lambda>e. rec_current (snd e)) es) m) i = Some (loaded_record (rec_current r))"
    if "(i, r) \<in> set es" "set es \<subseteq> set (rt_proofs rt)" for es m
    using that
  proof (induction es arbitrary: m rule: rev_induct)
    case (snoc e es)
    have e: "e \<in> set (rt_proofs rt)" using snoc.prems by simp
    show ?case
    proof (cases "fst e = i")
      case True
      then have "e = (i, r)" using om_sorted_map_of [OF sorted, of i "snd e"] e assms(4) by (cases e) simp
      then show ?thesis using storable_key [OF assms(1,2) e] by simp
    next
      case False
      then show ?thesis using snoc storable_key [OF assms(1,2) e] by auto
    qed
  qed simp
  from this [of "rt_proofs rt"] have "map_of (fold (\<lambda>p. om_put (dpf_id p) (loaded_record p)) (sc_proofs (save_contents rt)) (rt_proofs later)) i =
      Some (loaded_record (rec_current r))"
    using map_of_SomeD [OF assms(4)] by (simp add: save_contents_def)
  from fold_attach_current [OF this, of "sc_history (save_contents rt)"]
  have "\<exists>r'. map_of (rt_proofs ?rt) i = Some r' \<and> rec_current r' = rec_current r"
    unfolding load_contents_fields(4) by (simp add: loaded_record_def)
  then show "stored_proof ?rt i = Some (rec_current r)" by (auto simp: stored_proof_def)
qed

text \<open>C23: Loading never grants authority. Whatever the file holds and whether the load is accepted or refused, a publisher
  session exists afterwards only when it existed before and is live only when it was, every fence stands, and the
  recorded attempts are untouched; a refused load leaves the whole runtime as it was.\<close>

theorem load_grants_no_authority:
  assumes "load outcome path fs rt = (status, rt')"
  shows "(status \<noteq> PS_OK \<longrightarrow> rt' = rt) \<and>
    (\<forall>b s'. map_of (pa_sessions (rt_publication rt')) b = Some s' \<longrightarrow>
       (\<exists>s. map_of (pa_sessions (rt_publication rt)) b = Some s \<and> (s' = s \<or> s' = s\<lparr>ps_fenced := True\<rparr>))) \<and>
    (\<forall>b. is_fenced (rt_publication rt) b \<longrightarrow> is_fenced (rt_publication rt') b) \<and>
    pa_attempts (rt_publication rt') = pa_attempts (rt_publication rt)"
proof -
  have "rt' = rt \<or> status = PS_OK \<and> (\<exists>c. rt' = load_contents c rt)"
    using assms by (auto simp: load_def split: sum.splits)
  then show ?thesis
    by (elim disjE conjE exE) (auto simp: restored_session restored_fences split: if_splits)
qed

text \<open>A restart forgets the admitted attempts. An attempt identity that was used before, whatever payload it carried,
  is admitted as a new one after saving and loading, once a publisher has registered again: a replay with other
  content is not detected, although the stored content has a section for the attempts.\<close>

theorem restart_forgets_attempts:
  assumes "storable rt" "save outcome (temporary_path target process tag) target rt fs = (states, PS_OK)"
    and "load RO_Done target (last states) (new_runtime (new_authority l) (rt_limits rt)) = (PS_OK, rt')"
    and "map_of (pa_attempts (rt_publication rt)) (aa_attempt a) = Some (payload, i)" "payload' \<noteq> payload"
    and "register_publisher s (rt_publication rt') = (AS_ACCEPTED, pub)" "validate_authority pub a = AS_ACCEPTED"
    and "0 < max_attempts_tracked l"
  shows "fst (admit a payload' pub) = AS_ACCEPTED"
proof -
  have "rt' = load_contents (save_contents rt) (new_runtime (new_authority l) (rt_limits rt))"
    using saved_and_loaded [OF assms(1,2), of "new_runtime (new_authority l) (rt_limits rt)"] assms(3) by (simp add: new_runtime_limits)
  then have "pa_attempts (rt_publication rt') = []" "pa_limits (rt_publication rt') = l"
    by (simp_all add: new_runtime_def new_authority_def)
  then have "pa_attempts pub = []" "pa_limits pub = l"
    using assms(6) by (auto simp: register_publisher_def Let_def split: if_splits)
  then show ?thesis using assms(7,8) by (simp add: admit_def)
qed

lemma index_stored_domains:
  "j \<in> set (om_members (rt_by_domain (index_stored e rt)) d) \<longleftrightarrow>
     j \<in> set (om_members (rt_by_domain rt) d) \<or>
     j = fst e \<and> d \<in> set (List.map_filter named_domain (class_conflicts (rec_current (snd e))))"
  by (auto simp: index_stored_def Let_def om_members_fold_add)

lemma fold_index_domains:
  "j \<in> set (om_members (rt_by_domain (fold index_stored es rt)) d) \<longleftrightarrow>
     j \<in> set (om_members (rt_by_domain rt) d) \<or>
     (\<exists>r. (j, r) \<in> set es \<and> d \<in> set (List.map_filter named_domain (class_conflicts (rec_current r))))"
  by (induction es arbitrary: rt) (auto simp: index_stored_domains)

text \<open>C34: A restart loses the reverse index of consulted domains. A proof that met no conflict, the normal diverse proof,
  is filed under no failure domain after saving and loading, so a change of a domain it consulted no longer
  demotes it: its stored revision stays what it was, current when it was current.\<close>

theorem restart_loses_domain_demotion:
  assumes "runtime_inv rt" "storable rt" "stored_proof rt i = Some p" "class_conflicts p = []"
    and "save outcome (temporary_path target process tag) target rt fs = (states, PS_OK)"
    and "load RO_Done target (last states) (new_runtime (new_authority l) (rt_limits rt)) = (PS_OK, rt')"
  shows "stored_proof (snd (demote_domains domains generation rt')) i = Some p"
proof -
  let ?rt = "load_contents (save_contents rt) (new_runtime (new_authority l) (rt_limits rt))"
  have rt': "rt' = ?rt"
    using saved_and_loaded [OF assms(2,5), of "new_runtime (new_authority l) (rt_limits rt)"] assms(6) by (simp add: new_runtime_limits)
  obtain r where r: "map_of (rt_proofs rt) i = Some r" "rec_current r = p" using assms(3) by (auto simp: stored_proof_def)
  then have found: "map_of (rt_proofs ?rt) i = Some (after_restart r)" using restarted_records [OF assms(1,2)] by simp
  have "i \<notin> set (om_members (rt_by_domain ?rt) d)" for d
  proof
    assume "i \<in> set (om_members (rt_by_domain ?rt) d)"
    then obtain r' where "(i, r') \<in> set (rt_proofs ?rt)"
      and d: "d \<in> set (List.map_filter named_domain (class_conflicts (rec_current r')))"
      unfolding load_contents_def Let_def fold_index_domains by (auto simp: new_runtime_def om_members_def)
    then have "r' = after_restart r" using om_sorted_map_of [OF restarted_sorted(1) [OF assms(1,2)]] found by fastforce
    then show False using d r(2) assms(4) by (simp add: after_restart_def)
  qed
  then show ?thesis
    using demote_domains_exactly [of rt' domains generation] found r(2)
    by (simp add: demotes_exactly_def rt' stored_proof_def after_restart_def del: load_contents_fields)
qed

section \<open>Proofs that cannot be read back\<close>

text \<open>The fields of a proof fit the record bounds, whatever the checks across the fields say.\<close>

definition proof_fits :: "limits \<Rightarrow> diversity_proof \<Rightarrow> bool" where
  "proof_fits l p \<longleftrightarrow>
     id_fits l diversity_proof_id_max (dpf_id p) \<and> request_ok l (dpf_request p) \<and>
     digest_wf (dpf_request_digest p) \<and> digest_wf (dpf_semantic_digest p) \<and>
     text_fits (max_persistence_record_bytes l div 4) (dpf_detail p) \<and>
     list_fits (max_required_classes l) (class_ok l) (dpf_classes p) \<and>
     list_fits (max_required_classes l) (class_ok l) (dpf_advisories p) \<and>
     list_fits (max_conflicts_per_proof l) (conflict_ok l) (dpf_conflicts p) \<and>
     length (dpf_conflicts p) \<le> unat (dpf_conflicts_total p) \<and> matrix_ok l (dpf_matrix p) \<and>
     witness_ok l (dpf_witness p) \<and> dependencies_ok l (dpf_dependencies p) \<and> provenance_ok l (dpf_provenance p)"

lemma proof_storable_iff: "proof_storable l p \<longleftrightarrow> proof_fits l p \<and> revision_error p = None"
  by (simp add: proof_storable_def proof_fits_def conj_assoc)

lemma decode_proof_refused:
  "proof_fits l p \<Longrightarrow> revision_error p = Some reason \<Longrightarrow> decode_proof l (encode_proof p @ rest) = Inl (refused reason)"
  by (cases p) (simp add: proof_fits_def decode_proof_def encode_proof_def accept_revision_def codec_simps not_less)

lemma revision_error_reason: "revision_error p = Some reason \<Longrightarrow> reason \<noteq> PS_OK"
  by (auto simp: revision_error_def Let_def split: if_splits)

lemma read_numbered_refused:
  assumes "\<And>i x rest. x \<in> set xs \<Longrightarrow> ok x \<Longrightarrow> p i (put x @ rest) = Inr (x, rest)"
    and "\<And>i x rest. x \<in> set xs \<Longrightarrow> \<not> ok x \<Longrightarrow> \<exists>e. p i (put x @ rest) = Inl e \<and> bad e" "\<not> list_all ok xs"
  shows "\<exists>e. read_numbered p i (length xs) (concat (map put xs) @ rest) = Inl e \<and> bad e"
  using assms
proof (induction xs arbitrary: i)
  case (Cons x xs)
  show ?case
  proof (cases "ok x")
    case True
    then have "\<exists>e. read_numbered p (Suc i) (length xs) (concat (map put xs) @ rest) = Inl e \<and> bad e"
      using Cons by (intro Cons.IH) auto
    then show ?thesis using Cons.prems(1) [of x i] True by (auto simp: pbind_def)
  next
    case False
    then show ?thesis using Cons.prems(2) [of x i "concat (map put xs) @ rest"] by (auto simp: pbind_def)
  qed
qed simp

lemma poisoned_section:
  assumes "list_fits (max_store_records l) (proof_fits l) ps" "length ps \<le> n" "p \<in> set ps" "revision_error p \<noteq> None"
  shows "\<exists>e. read_section l n ''proof'' (proof_record_at l) (put_list encode_proof ps @ rest) = Inl e \<and> fst e \<noteq> PS_OK"
proof -
  have "\<exists>e. read_numbered (proof_record_at l) 0 (length ps) (concat (map encode_proof ps) @ rest) = Inl e \<and> fst e \<noteq> PS_OK"
  proof (rule read_numbered_refused [where ok = "proof_storable l"])
    show "proof_record_at l i (encode_proof x @ r) = Inr (x, r)" if "x \<in> set ps" "proof_storable l x" for i x r
      using that(2) by (rule proof_record_put)
    show "\<exists>e. proof_record_at l i (encode_proof x @ r) = Inl e \<and> fst e \<noteq> PS_OK" if x: "x \<in> set ps" "\<not> proof_storable l x" for i x r
    proof -
      have fits: "proof_fits l x" using x(1) assms(1) by (simp add: list_fits_def list_all_iff)
      then obtain reason where reason: "revision_error x = Some reason" using x(2) by (auto simp: proof_storable_iff)
      then show ?thesis
        using decode_proof_refused [OF fits reason, of r] revision_error_reason [OF reason]
        by (simp add: proof_record_at_def relabel_def failed_to_decode_def persistence_status_for_def refused_def)
    qed
    show "\<not> list_all (proof_storable l) ps" using assms(3,4) by (auto simp: list_all_iff proof_storable_iff)
  qed
  then show ?thesis
    using assms(1,2) by (auto simp: read_section_def read_section_count_def put_list_def list_fits_def codec_simps unat_of_nat)
qed

lemma poisoned_store:
  assumes "list_fits (max_store_records l) (policy_storable l) (sc_policies c)"
    and "list_fits (max_store_records l) (proof_fits l) (sc_proofs c)" "length (encode_store c) \<le> max_store_bytes l"
    and "p \<in> set (sc_proofs c)" "revision_error p \<noteq> None"
  shows "\<exists>e. decode_store l (encode_store c) = Inl e \<and> fst e \<noteq> PS_OK"
proof -
  let ?n = "length (encode_payload c)"
  let ?rest = "put_list put_session (sc_sessions c) @ put_list write_id (sc_fenced_boots c) @ put_list put_attempt (sc_attempts c) @
    put_list put_history (sc_history c) @ put_list encode_snapshot (sc_snapshots c)"
  let ?sections = "put_list encode_policy (sc_policies c) @ put_list encode_proof (sc_proofs c) @ ?rest"
  have "drop 8 (encode_payload c) = put_u32 (of_nat kPersistenceFormatVersion) @ put_u64 (gen_value (sc_epoch c)) @ ?sections"
    by (simp add: encode_payload_def put_generation_def)
  moreover obtain e where "read_section l ?n ''proof'' (proof_record_at l) (put_list encode_proof (sc_proofs c) @ ?rest) = Inl e"
      and e: "fst e \<noteq> PS_OK"
    using poisoned_section [OF assms(2) section_lengths(2) assms(4,5), of ?rest] by blast
  then have "read_sections l ?n g ?sections = Inl e" for g
    by (simp add: read_sections_def read_section_put [OF policy_record_put assms(1) section_lengths(1)] pbind_def)
  ultimately show ?thesis
    using assms(3) payload_header [of c] e
    by (simp add: encode_store_def Let_def decode_store_framed codec_simps del: take_append drop_append)
qed

text \<open>C33: One rejected evaluation makes the whole store unreadable. When the registry holds a proof committed from an
  evaluation that was rejected before its matrix was built, the store that is saved, with OK, is refused by the
  decoder, and loading leaves the runtime without any of the saved policies, proofs and fences.\<close>

theorem rejected_evaluation_poisons_store:
  assumes "list_fits (max_store_records (rt_limits rt)) (policy_storable (rt_limits rt)) (sc_policies (save_contents rt))"
    and "list_fits (max_store_records (rt_limits rt)) (proof_fits (rt_limits rt)) (sc_proofs (save_contents rt))"
    and "length (encode_store (save_contents rt)) \<le> max_store_bytes (rt_limits rt)"
    and "stored_proof rt i = Some (build_revision a t (reject ob outcome detail) g)" "rq_paths (tk_request t) \<noteq> []"
    and "save io (temporary_path target process tag) target rt fs = (states, PS_OK)" "rt_limits fresh = rt_limits rt"
  shows "\<exists>status. load RO_Done target (last states) fresh = (status, fresh) \<and> status \<noteq> PS_OK"
proof -
  let ?p = "build_revision a t (reject ob outcome detail) g"
  have "dpf_matrix ?p = empty_matrix" by (simp add: build_revision_def Let_def reject_def default_result_def)
  then have bad: "revision_error ?p \<noteq> None"
    using assms(5) by (simp add: revision_error_def Let_def empty_matrix_def)
  have "?p \<in> set (sc_proofs (save_contents rt))"
    using assms(4) by (force simp: stored_proof_def save_contents_def dest: map_of_SomeD)
  then obtain e where e: "decode_store (rt_limits rt) (encode_store (save_contents rt)) = Inl e" "fst e \<noteq> PS_OK"
    using poisoned_store [OF assms(1-3) _ bad] by blast
  then show ?thesis
    using stored_after_load [OF assms(6) [unfolded save_def] assms(3)] assms(7) by (cases e) (simp add: load_def)
qed

section \<open>A saved runtime\<close>

lemma derived_id_fits:
  assumes "digest_wf d" "64 \<le> max_identity_length l"
  shows "id_fits l diversity_proof_id_max (derived_proof_id d)" "id_fits l snapshot_id_max (derived_snapshot_id d)"
proof -
  have "length (digest_hex d) = 32" using assms(1) by (simp add: length_digest_hex digest_wf_def)
  then show "id_fits l diversity_proof_id_max (derived_proof_id d)" "id_fits l snapshot_id_max (derived_snapshot_id d)"
    using assms mint_valid [OF assms(1), of "''dproof-''" diversity_proof_id_max] mint_valid [OF assms(1), of "''dsnap-''" snapshot_id_max]
    by (simp_all add: id_fits_def mint_parses [OF assms(1)] mint_prefixed_def id_max_defs identity_char_def)
qed

definition sample_saved_proof :: diversity_proof where
  "sample_saved_proof = sample_stored_proof\<lparr>dpf_id := proof_identity (dpf_request sample_stored_proof)\<rparr>"

definition sample_saved_record :: proof_record where
  "sample_saved_record = \<lparr>rec_current = sample_saved_proof, rec_history = [], rec_snapshots = []\<rparr>"

definition sample_saved_runtime :: runtime where
  "sample_saved_runtime =
     (let entry = (dpf_id sample_saved_proof, sample_saved_record)
      in index_stored entry ((new_runtime ((new_authority default_limits)
           \<lparr>pa_attempts := [(StringId ''t1'', (zero_digest, unset_id))], pa_fenced := [(StringId ''b0'', True)]\<rparr>) default_limits)
           \<lparr>rt_proofs := [entry]\<rparr>))"

lemma sample_saved_fields:
  "rt_limits sample_saved_runtime = default_limits" "rt_policies sample_saved_runtime = []"
  "rt_proofs sample_saved_runtime = [(dpf_id sample_saved_proof, sample_saved_record)]"
  "rt_publication sample_saved_runtime =
     (new_authority default_limits)\<lparr>pa_attempts := [(StringId ''t1'', (zero_digest, unset_id))], pa_fenced := [(StringId ''b0'', True)]\<rparr>"
  by (simp_all add: sample_saved_runtime_def Let_def new_runtime_def)

lemma sample_saved_inv: "runtime_inv sample_saved_runtime"
proof -
  have "authority_inv (rt_publication sample_saved_runtime)"
    by (simp add: sample_saved_fields authority_inv_def sessions_agree_def one_live_boot_def authority_bounded_def epoch_ok_def
        new_authority_def om_sorted_def gen_is_set_def default_limits_def)
  moreover have "registry_bounded sample_saved_runtime"
    by (simp add: registry_bounded_def sample_saved_fields om_sorted_def default_limits_def sample_saved_record_def)
  moreover have "indexed sample_saved_runtime (dpf_id sample_saved_proof) sample_saved_proof"
    unfolding sample_saved_runtime_def Let_def
    using indexed_stored [of "(dpf_id sample_saved_proof, sample_saved_record)"] by (simp add: sample_saved_record_def)
  moreover have "record_ok (dpf_id sample_saved_proof) sample_saved_proof"
    by (simp add: record_ok_def sample_saved_proof_def is_current_def sample_contents_simps gen_is_set_def)
  ultimately show ?thesis
    by (simp add: runtime_inv_def policies_ok_def records_ok_def sample_saved_fields sample_saved_record_def)
qed

lemma sample_saved_contents:
  "save_contents sample_saved_runtime =
     empty_contents\<lparr>sc_epoch := Generation 1, sc_proofs := [sample_saved_proof], sc_fenced_boots := [StringId ''b0'']\<rparr>"
  by (simp add: save_contents_def sample_saved_fields sample_saved_record_def empty_contents_def new_authority_def fenced_boots_def)

lemma proof_storable_renamed:
  assumes "proof_storable l p" "id_fits l diversity_proof_id_max i"
  shows "proof_storable l (p\<lparr>dpf_id := i\<rparr>)"
proof -
  have "revision_error (p\<lparr>dpf_id := i\<rparr>) = revision_error p" by (simp add: revision_error_def Let_def cong: if_cong)
  with assms show ?thesis by (simp add: proof_storable_def)
qed

lemma sample_saved_proof_storable: "proof_storable default_limits sample_saved_proof"
  unfolding sample_saved_proof_def proof_identity_def
  by (rule proof_storable_renamed [OF sample_proof_storable derived_id_fits(1)]) (simp_all add: default_limits_def)

lemma length_renamed:
  "length (encode_proof (p\<lparr>dpf_id := i\<rparr>)) + length (write_id (dpf_id p)) = length (encode_proof p) + length (write_id i)"
  by (simp add: encode_proof_def)

lemma derived_id_size: "digest_wf d \<Longrightarrow> length (write_id (derived_proof_id d)) \<le> 100"
  by (simp add: write_id_def mint_parses mint_prefixed_def length_digest_hex digest_wf_def put_text_def put_bytes_def put_varint.simps)

lemma sample_saved_size: "length (encode_store (save_contents sample_saved_runtime)) \<le> max_store_bytes default_limits"
proof -
  have "length (encode_proof sample_stored_proof) \<le> 400" by code_simp
  then have "length (encode_proof sample_saved_proof) \<le> 500"
    using length_renamed [of "derived_proof_id (rq_digest (dpf_request sample_stored_proof))" sample_stored_proof]
      derived_id_size [OF digest_wf_rq, of "dpf_request sample_stored_proof"]
    unfolding sample_saved_proof_def proof_identity_def by linarith
  moreover have "length (encode_store (empty_contents\<lparr>sc_epoch := Generation 1, sc_proofs := [p], sc_fenced_boots := [StringId ''b0'']\<rparr>)) =
      length (encode_proof p) + length (encode_store (empty_contents\<lparr>sc_epoch := Generation 1, sc_fenced_boots := [StringId ''b0'']\<rparr>))" for p
    by (simp add: encode_store_def encode_payload_def Let_def empty_contents_def put_list_def put_varint.simps)
  moreover have "length (encode_store (empty_contents\<lparr>sc_epoch := Generation 1, sc_fenced_boots := [StringId ''b0'']\<rparr>)) \<le> 100"
    by code_simp
  ultimately have "length (encode_store (save_contents sample_saved_runtime)) \<le> 600"
    unfolding sample_saved_contents by simp
  then show ?thesis by (simp add: default_limits_def)
qed

lemma sample_saved_storable: "storable sample_saved_runtime"
proof -
  have "id_fits default_limits worker_boot_id_max (StringId ''b0'')" by (simp add: id_fits_def default_limits_def) code_simp
  then show ?thesis
    using sample_saved_size sample_saved_proof_storable
    by (simp add: storable_def sample_saved_contents sample_saved_fields contents_ok_def empty_contents_def list_fits_def default_limits_def)
qed

lemma sample_saved_written:
  "\<exists>states. save WO_Done (temporary_path ''s'' 1 1) ''s'' sample_saved_runtime Map.empty = (states, PS_OK)"
  by (simp add: save_def write_store_atomic_def Let_def)

lemma restart_restores_runtime_witness:
  "\<exists>states rt'. load RO_Done ''s'' (last states) (new_runtime (new_authority default_limits) default_limits) = (PS_OK, rt') \<and>
    stored_proof rt' (dpf_id sample_saved_proof) = Some sample_saved_proof"
proof -
  obtain states where "save WO_Done (temporary_path ''s'' 1 1) ''s'' sample_saved_runtime Map.empty = (states, PS_OK)"
    using sample_saved_written by blast
  moreover have "0 < max_history (rt_limits sample_saved_runtime)" by (simp add: sample_saved_fields default_limits_def)
  ultimately obtain rt' where "load RO_Done ''s'' (last states) (new_runtime (new_authority default_limits) default_limits) = (PS_OK, rt')"
      "stored_proof rt' (dpf_id sample_saved_proof) = stored_proof sample_saved_runtime (dpf_id sample_saved_proof)"
    using restart_restores_runtime [OF sample_saved_inv sample_saved_storable, of WO_Done "''s''" 1 1 Map.empty states default_limits]
    unfolding sample_saved_fields(1) by blast
  then show ?thesis by (auto simp: stored_proof_def [of sample_saved_runtime] sample_saved_fields sample_saved_record_def)
qed

lemma load_grants_no_authority_witness:
  "is_fenced (rt_publication (snd (load RO_Done ''s'' [''s'' \<mapsto> encode_store sample_contents] sample_saved_runtime))) (StringId ''b0'')"
  using load_grants_no_authority [OF prod.collapse [symmetric], of RO_Done "''s''" "[''s'' \<mapsto> encode_store sample_contents]" sample_saved_runtime]
  by (simp add: sample_saved_fields is_fenced_def)

lemma restart_forgets_attempts_witness:
  "\<exists>states rt' pub. load RO_Done ''s'' (last states) (new_runtime (new_authority default_limits) default_limits) = (PS_OK, rt') \<and>
    register_publisher (sample_session ''b1'') (rt_publication rt') = (AS_ACCEPTED, pub) \<and>
    fst (admit (sample_acting ''b1'' ''t1'') (Digest []) pub) = AS_ACCEPTED"
proof -
  let ?fresh = "new_runtime (new_authority default_limits) default_limits"
  let ?pub = "restored_publication (save_contents sample_saved_runtime) (new_authority default_limits)"
  obtain states where s: "save WO_Done (temporary_path ''s'' 1 1) ''s'' sample_saved_runtime Map.empty = (states, PS_OK)"
    using sample_saved_written by blast
  then have l: "load RO_Done ''s'' (last states) ?fresh = (PS_OK, load_contents (save_contents sample_saved_runtime) ?fresh)"
    by (rule saved_and_loaded [OF sample_saved_storable]) (simp add: new_runtime_limits sample_saved_fields)
  have p: "rt_publication (load_contents (save_contents sample_saved_runtime) ?fresh) = ?pub" by (simp add: new_runtime_def)
  have pub: "?pub = (new_authority default_limits)\<lparr>pa_epoch_restored := True, pa_fenced := [(StringId ''b0'', True)]\<rparr>"
    by (simp add: restored_publication_def restored_epoch_def sample_saved_contents empty_contents_def fence_boot_def restore_epoch_def new_authority_def gen_is_set_def id_valid_def)
  obtain q where q: "register_publisher (sample_session ''b1'') ?pub = (AS_ACCEPTED, q)" "validate_authority q (sample_acting ''b1'' ''t1'') = AS_ACCEPTED"
    unfolding pub by (simp add: sample_authority_simps)
  have "fst (admit (sample_acting ''b1'' ''t1'') (Digest []) q) = AS_ACCEPTED"
    by (rule restart_forgets_attempts [where rt = sample_saved_runtime and payload = zero_digest and i = unset_id,
          OF sample_saved_storable s, unfolded sample_saved_fields(1), OF l _ _ q(1) [folded p] q(2)])
      (simp_all add: sample_saved_fields sample_acting_def zero_digest_def default_limits_def fnv_finalize_def)
  with l q(1) show ?thesis unfolding p [symmetric] by blast
qed

lemma restart_loses_domain_demotion_witness:
  "\<exists>states rt'. load RO_Done ''s'' (last states) (new_runtime (new_authority default_limits) default_limits) = (PS_OK, rt') \<and>
    stored_proof (snd (demote_domains [StringId ''d''] (Generation 9) rt')) (dpf_id sample_saved_proof) = Some sample_saved_proof"
proof -
  let ?fresh = "new_runtime (new_authority default_limits) default_limits"
  obtain states where s: "save WO_Done (temporary_path ''s'' 1 1) ''s'' sample_saved_runtime Map.empty = (states, PS_OK)"
    using sample_saved_written by blast
  then have l: "load RO_Done ''s'' (last states) ?fresh = (PS_OK, load_contents (save_contents sample_saved_runtime) ?fresh)"
    by (rule saved_and_loaded [OF sample_saved_storable]) (simp add: new_runtime_limits sample_saved_fields)
  have "stored_proof sample_saved_runtime (dpf_id sample_saved_proof) = Some sample_saved_proof" "class_conflicts sample_saved_proof = []"
    by (simp_all add: stored_proof_def sample_saved_fields sample_saved_record_def class_conflicts_def sample_saved_proof_def sample_contents_simps)
  from restart_loses_domain_demotion [OF sample_saved_inv sample_saved_storable this s l [folded sample_saved_fields(1)]] l
  show ?thesis unfolding sample_saved_fields(1) by blast
qed

definition sample_rejected :: diversity_proof where
  "sample_rejected = build_revision (sample_acting ''w1'' ''t2'') sample_ticket
     (reject \<lparr>ob_topology = Generation 1, ob_domains = Generation 1, ob_observed = True\<rparr> PO_UNAUTHORIZED ''unauthorized'') (Generation 1)"

definition sample_rejected_runtime :: runtime where
  "sample_rejected_runtime = (new_runtime (new_authority default_limits) default_limits)
     \<lparr>rt_proofs := [(dpf_id sample_rejected, \<lparr>rec_current = sample_rejected, rec_history = [], rec_snapshots = []\<rparr>)]\<rparr>"

lemma sample_rejected_contents:
  "save_contents sample_rejected_runtime = empty_contents\<lparr>sc_epoch := Generation 1, sc_proofs := [sample_rejected]\<rparr>"
  by (simp add: save_contents_def sample_rejected_runtime_def new_runtime_def empty_contents_def new_authority_def fenced_boots_def)

lemma sample_rejected_fields:
  "dpf_id sample_rejected = derived_proof_id (rq_digest (sample_request [''a'', ''b'']))"
  "dpf_request sample_rejected = sample_request [''a'', ''b'']"
  "dpf_request_digest sample_rejected = rq_digest (sample_request [''a'', ''b''])"
  "digest_wf (dpf_semantic_digest sample_rejected)" "dpf_detail sample_rejected = ''unauthorized''" "dpf_limit sample_rejected = None"
  "dpf_classes sample_rejected = []" "dpf_advisories sample_rejected = []" "dpf_conflicts sample_rejected = []"
  "dpf_conflicts_total sample_rejected = 0" "dpf_matrix sample_rejected = empty_matrix" "dpf_witness sample_rejected = empty_witness"
  "dpf_dependencies sample_rejected = default_dependencies\<lparr>db_epoch := Generation 1\<rparr>"
  "dpf_provenance sample_rejected = \<lparr>pn_epoch = Generation 1, pn_publisher = StringId ''pub'', pn_boot = StringId ''w1'', pn_attempt = StringId ''t2''\<rparr>"
  "dpf_generation sample_rejected = Generation 1"
  by (simp_all add: sample_rejected_def build_revision_def Let_def reject_def default_result_def sample_acting_def
      sample_ticket_def proof_identity_def digest_wf_semantic)

lemma sample_identities:
  "valid_identity_text ''pub'' publisher_id_max" "valid_identity_text ''w1'' worker_boot_id_max" "valid_identity_text ''t2'' mutation_attempt_id_max"
  "valid_identity_text ''p'' diversity_policy_id_max" "valid_identity_text ''a'' path_id_max" "valid_identity_text ''b'' path_id_max"
  "ascending []" "cell_count 0 = 0"
  by code_simp+

lemma sample_rejected_fits: "proof_fits default_limits sample_rejected"
  using derived_id_fits(1) [OF digest_wf_rq, of default_limits "sample_request [''a'', ''b'']"]
  by (simp add: proof_fits_def sample_rejected_fields request_ok_def sample_request_def ref_ok_def id_fits_def [of _ path_id_max]
      id_fits_def [of _ diversity_policy_id_max] id_fits_def [of _ publisher_id_max] id_fits_def [of _ worker_boot_id_max]
      id_fits_def [of _ mutation_attempt_id_max]
      list_fits_def text_fits_def matrix_ok_def witness_ok_def dependencies_ok_def provenance_ok_def sample_identities
      empty_matrix_def empty_witness_def default_dependencies_def default_limits_def index_fits_def sample_ref_def)

lemma digest_size: "digest_wf d \<Longrightarrow> length (put_digest d) = 17"
  by (simp add: put_digest_def put_bytes_def digest_wf_def put_varint.simps)

lemma sample_rejected_size: "length (encode_store (save_contents sample_rejected_runtime)) \<le> max_store_bytes default_limits"
proof -
  have parts: "length (put_request (sample_request [''a'', ''b''])) \<le> 100"
      "length (put_provenance \<lparr>pn_epoch = Generation 1, pn_publisher = StringId ''pub'', pn_boot = StringId ''w1'', pn_attempt = StringId ''t2''\<rparr>) \<le> 100"
      "length (put_matrix empty_matrix) \<le> 100" "length (write_witness empty_witness) \<le> 100"
      "length (write_dependencies (default_dependencies\<lparr>db_epoch := Generation 1\<rparr>)) \<le> 100" "length (put_text ''unauthorized'') \<le> 100"
      "length (put_limit None) \<le> 100" "length (put_generation (Generation 1)) \<le> 100" "length (put_list write_class []) \<le> 100"
      "length (put_list write_conflict []) \<le> 100" "length (put_u64 0) \<le> 100"
    by code_simp+
  have "length (encode_proof sample_rejected) \<le> 2000"
    using parts digest_size [OF sample_rejected_fields(4)] digest_size [OF digest_wf_rq, of "sample_request [''a'', ''b'']"]
      derived_id_size [OF digest_wf_rq, of "sample_request [''a'', ''b'']"]
    by (simp add: encode_proof_def sample_rejected_fields put_u8_def)
  moreover have "length (encode_store (empty_contents\<lparr>sc_epoch := Generation 1, sc_proofs := [p]\<rparr>)) =
      length (encode_proof p) + length (encode_store (empty_contents\<lparr>sc_epoch := Generation 1\<rparr>))" for p
    by (simp add: encode_store_def encode_payload_def Let_def empty_contents_def put_list_def put_varint.simps)
  moreover have "length (encode_store (empty_contents\<lparr>sc_epoch := Generation 1\<rparr>)) \<le> 100" by code_simp
  ultimately have "length (encode_store (save_contents sample_rejected_runtime)) \<le> 2100"
    unfolding sample_rejected_contents by simp
  then show ?thesis by (simp add: default_limits_def)
qed

lemma rejected_evaluation_poisons_store_witness:
  "\<exists>states status. save WO_Done (temporary_path ''s'' 1 1) ''s'' sample_rejected_runtime Map.empty = (states, PS_OK) \<and>
     load RO_Done ''s'' (last states) (new_runtime (new_authority default_limits) default_limits) =
       (status, new_runtime (new_authority default_limits) default_limits) \<and> status \<noteq> PS_OK"
proof -
  have l: "rt_limits sample_rejected_runtime = default_limits" by (simp add: sample_rejected_runtime_def new_runtime_def)
  obtain states where s: "save WO_Done (temporary_path ''s'' 1 1) ''s'' sample_rejected_runtime Map.empty = (states, PS_OK)"
    by (simp add: save_def write_store_atomic_def Let_def)
  moreover have "\<exists>status. load RO_Done ''s'' (last states) (new_runtime (new_authority default_limits) default_limits) =
      (status, new_runtime (new_authority default_limits) default_limits) \<and> status \<noteq> PS_OK"
  proof (rule rejected_evaluation_poisons_store [OF _ _ _ _ _ s])
    show "stored_proof sample_rejected_runtime (dpf_id sample_rejected) = Some (build_revision (sample_acting ''w1'' ''t2'') sample_ticket
        (reject \<lparr>ob_topology = Generation 1, ob_domains = Generation 1, ob_observed = True\<rparr> PO_UNAUTHORIZED ''unauthorized'') (Generation 1))"
      by (simp add: stored_proof_def sample_rejected_runtime_def sample_rejected_def)
    show "length (encode_store (save_contents sample_rejected_runtime)) \<le> max_store_bytes (rt_limits sample_rejected_runtime)"
      unfolding l by (rule sample_rejected_size)
    show "list_fits (max_store_records (rt_limits sample_rejected_runtime)) (policy_storable (rt_limits sample_rejected_runtime))
        (sc_policies (save_contents sample_rejected_runtime))"
      "list_fits (max_store_records (rt_limits sample_rejected_runtime)) (proof_fits (rt_limits sample_rejected_runtime))
        (sc_proofs (save_contents sample_rejected_runtime))"
      using sample_rejected_fits unfolding l by (simp_all add: sample_rejected_contents empty_contents_def list_fits_def default_limits_def)
    show "rq_paths (tk_request sample_ticket) \<noteq> []" by (simp add: sample_ticket_def sample_request_def)
    show "rt_limits (new_runtime (new_authority default_limits) default_limits) = rt_limits sample_rejected_runtime"
      unfolding l by (simp add: new_runtime_limits)
  qed
  ultimately show ?thesis by blast
qed

end
