(* ===== verification/WireFrames.thy ===== *)
theory WireFrames
  imports Codec
begin

text \<open>
  The framing layer of the wire protocol, the first part of \<open>src/wire.cpp\<close> with \<open>include/path_diversity/wire.hpp\<close>:
  message identifiers, frames with header and integrity value, and the bounded incremental assembler. A decoded
  value comes as \<open>Inr\<close>, every other status as \<open>Inl\<close>; the status OK never does.
\<close>

section \<open>Message identifiers\<close>

datatype message_id =
    MI_HELLO
  | MI_HELLO_ACK
  | MI_PUBLISH_POLICY
  | MI_PUBLISH_PROOF
  | MI_REVALIDATE
  | MI_QUERY
  | MI_QUERY_RESULT
  | MI_SNAPSHOT
  | MI_DIFF
  | MI_EXPLAIN
  | MI_FENCE
  | MI_CLOSE
  | MI_ERROR_REPLY
  | MI_PING
  | MI_PONG

definition message_id_values :: "message_id list" where
  "message_id_values =
     [MI_HELLO,
      MI_HELLO_ACK,
      MI_PUBLISH_POLICY,
      MI_PUBLISH_PROOF,
      MI_REVALIDATE,
      MI_QUERY,
      MI_QUERY_RESULT,
      MI_SNAPSHOT,
      MI_DIFF,
      MI_EXPLAIN,
      MI_FENCE,
      MI_CLOSE,
      MI_ERROR_REPLY,
      MI_PING,
      MI_PONG]"

primrec message_id_code :: "message_id \<Rightarrow> u16" where
  "message_id_code MI_HELLO = 1"
| "message_id_code MI_HELLO_ACK = 2"
| "message_id_code MI_PUBLISH_POLICY = 3"
| "message_id_code MI_PUBLISH_PROOF = 4"
| "message_id_code MI_REVALIDATE = 5"
| "message_id_code MI_QUERY = 6"
| "message_id_code MI_QUERY_RESULT = 7"
| "message_id_code MI_SNAPSHOT = 8"
| "message_id_code MI_DIFF = 9"
| "message_id_code MI_EXPLAIN = 10"
| "message_id_code MI_FENCE = 11"
| "message_id_code MI_CLOSE = 12"
| "message_id_code MI_ERROR_REPLY = 13"
| "message_id_code MI_PING = 14"
| "message_id_code MI_PONG = 15"

definition is_defined_message_id :: "u16 \<Rightarrow> bool" where
  "is_defined_message_id raw \<longleftrightarrow> message_id_code MI_HELLO \<le> raw \<and> raw \<le> message_id_code MI_PONG"

definition message_id_of_code :: "u16 \<Rightarrow> message_id option" where
  "message_id_of_code raw = find (\<lambda>x. message_id_code x = raw) message_id_values"

definition message_id_to_string :: "message_id \<Rightarrow> string" where
  "message_id_to_string v = (case v of
      MI_HELLO \<Rightarrow> ''HELLO''
    | MI_HELLO_ACK \<Rightarrow> ''HELLO_ACK''
    | MI_PUBLISH_POLICY \<Rightarrow> ''PUBLISH_POLICY''
    | MI_PUBLISH_PROOF \<Rightarrow> ''PUBLISH_PROOF''
    | MI_REVALIDATE \<Rightarrow> ''REVALIDATE''
    | MI_QUERY \<Rightarrow> ''QUERY''
    | MI_QUERY_RESULT \<Rightarrow> ''QUERY_RESULT''
    | MI_SNAPSHOT \<Rightarrow> ''SNAPSHOT''
    | MI_DIFF \<Rightarrow> ''DIFF''
    | MI_EXPLAIN \<Rightarrow> ''EXPLAIN''
    | MI_FENCE \<Rightarrow> ''FENCE''
    | MI_CLOSE \<Rightarrow> ''CLOSE''
    | MI_ERROR_REPLY \<Rightarrow> ''ERROR''
    | MI_PING \<Rightarrow> ''PING''
    | MI_PONG \<Rightarrow> ''PONG'')"

text \<open>SNAPSHOT, DIFF and EXPLAIN are reserved: a peer must not send them.\<close>

definition is_reserved_message :: "u16 \<Rightarrow> bool" where
  "is_reserved_message raw \<longleftrightarrow>
     raw = message_id_code MI_SNAPSHOT \<or> raw = message_id_code MI_DIFF \<or> raw = message_id_code MI_EXPLAIN"

section \<open>Wire status\<close>

datatype wire_status =
    WS_OK
  | WS_INCOMPLETE
  | WS_BAD_MAGIC
  | WS_UNSUPPORTED_VERSION
  | WS_UNKNOWN_MESSAGE
  | WS_FRAME_TOO_LARGE
  | WS_INTEGRITY_FAILURE
  | WS_MALFORMED_PAYLOAD
  | WS_TRAILING_BYTES
  | WS_ASSEMBLY_LIMIT_EXCEEDED
  | WS_LIMIT_EXCEEDED

definition wire_status_values :: "wire_status list" where
  "wire_status_values =
     [WS_OK,
      WS_INCOMPLETE,
      WS_BAD_MAGIC,
      WS_UNSUPPORTED_VERSION,
      WS_UNKNOWN_MESSAGE,
      WS_FRAME_TOO_LARGE,
      WS_INTEGRITY_FAILURE,
      WS_MALFORMED_PAYLOAD,
      WS_TRAILING_BYTES,
      WS_ASSEMBLY_LIMIT_EXCEEDED,
      WS_LIMIT_EXCEEDED]"

primrec wire_status_code :: "wire_status \<Rightarrow> u8" where
  "wire_status_code WS_OK = 1"
| "wire_status_code WS_INCOMPLETE = 2"
| "wire_status_code WS_BAD_MAGIC = 3"
| "wire_status_code WS_UNSUPPORTED_VERSION = 4"
| "wire_status_code WS_UNKNOWN_MESSAGE = 5"
| "wire_status_code WS_FRAME_TOO_LARGE = 6"
| "wire_status_code WS_INTEGRITY_FAILURE = 7"
| "wire_status_code WS_MALFORMED_PAYLOAD = 8"
| "wire_status_code WS_TRAILING_BYTES = 9"
| "wire_status_code WS_ASSEMBLY_LIMIT_EXCEEDED = 10"
| "wire_status_code WS_LIMIT_EXCEEDED = 11"

definition is_defined_wire_status :: "u8 \<Rightarrow> bool" where
  "is_defined_wire_status raw \<longleftrightarrow> wire_status_code WS_OK \<le> raw \<and> raw \<le> wire_status_code WS_LIMIT_EXCEEDED"

definition wire_status_of_code :: "u8 \<Rightarrow> wire_status option" where
  "wire_status_of_code raw = find (\<lambda>x. wire_status_code x = raw) wire_status_values"

definition wire_status_to_string :: "wire_status \<Rightarrow> string" where
  "wire_status_to_string v = (case v of
      WS_OK \<Rightarrow> ''OK''
    | WS_INCOMPLETE \<Rightarrow> ''INCOMPLETE''
    | WS_BAD_MAGIC \<Rightarrow> ''BAD_MAGIC''
    | WS_UNSUPPORTED_VERSION \<Rightarrow> ''UNSUPPORTED_VERSION''
    | WS_UNKNOWN_MESSAGE \<Rightarrow> ''UNKNOWN_MESSAGE''
    | WS_FRAME_TOO_LARGE \<Rightarrow> ''FRAME_TOO_LARGE''
    | WS_INTEGRITY_FAILURE \<Rightarrow> ''INTEGRITY_FAILURE''
    | WS_MALFORMED_PAYLOAD \<Rightarrow> ''MALFORMED_PAYLOAD''
    | WS_TRAILING_BYTES \<Rightarrow> ''TRAILING_BYTES''
    | WS_ASSEMBLY_LIMIT_EXCEEDED \<Rightarrow> ''ASSEMBLY_LIMIT_EXCEEDED''
    | WS_LIMIT_EXCEEDED \<Rightarrow> ''LIMIT_EXCEEDED'')"

interpretation wire_status_enum: wire_enum wire_status_code wire_status_values is_defined_wire_status wire_status_of_code
proof unfold_locales
  show "map wire_status_code wire_status_values = map of_nat [1..<Suc (length wire_status_values)]"
    by (simp add: wire_status_values_def upt_rec)
  show "x \<in> set wire_status_values" for x
    by (cases x) (simp_all add: wire_status_values_def)
  show "length wire_status_values < 255"
    by (simp add: wire_status_values_def)
  show "is_defined_wire_status raw \<longleftrightarrow> 1 \<le> raw \<and> raw \<le> of_nat (length wire_status_values)" for raw
    by (simp add: is_defined_wire_status_def wire_status_values_def)
  show "wire_status_of_code raw = find (\<lambda>x. wire_status_code x = raw) wire_status_values" for raw
    by (simp add: wire_status_of_code_def)
qed

section \<open>Frames\<close>

definition kWireFrameMagic :: u32 where
  "kWireFrameMagic = 0x31464450"

definition kWireHeaderBytes :: nat where
  "kWireHeaderBytes = 20"

record wire_frame =
  wf_message :: message_id
  wf_payload :: bytes

definition write_header :: "message_id \<Rightarrow> u32 \<Rightarrow> bytes" where
  "write_header message payload_len =
     le_bytes 4 kWireFrameMagic @ put_u16 (of_nat kWireProtocolVersion) @ put_u16 (message_id_code message) @ le_bytes 4 payload_len"

text \<open>The integrity value covers the first twelve header bytes and the payload.\<close>

definition encode_frame :: "message_id \<Rightarrow> bytes \<Rightarrow> limits \<Rightarrow> bytes" where
  "encode_frame message payload l =
     (if max_frame_bytes l < length payload then []
      else let prefix = write_header message (of_nat (length payload));
               integrity = fnv1a64 (prefix @ payload)
           in prefix @ le_bytes 8 integrity @ payload)"

definition decode_frame_header :: "limits \<Rightarrow> bytes \<Rightarrow> wire_status + message_id \<times> u32 \<times> u64" where
  "decode_frame_header l bs =
     (if length bs < kWireHeaderBytes then Inl WS_INCOMPLETE
      else if (le_word (take 4 bs) :: u32) \<noteq> kWireFrameMagic then Inl WS_BAD_MAGIC
      else if ucast (bs ! 4) OR push_bit 8 (ucast (bs ! 5)) \<noteq> (of_nat kWireProtocolVersion :: u16) then Inl WS_UNSUPPORTED_VERSION
      else let i = ucast (bs ! 6) OR push_bit 8 (ucast (bs ! 7)) :: u16
           in if \<not> is_defined_message_id i \<or> is_reserved_message i then Inl WS_UNKNOWN_MESSAGE
              else let len = le_word (take 4 (drop 8 bs)) :: u32
                   in if max_frame_bytes l < unat len then Inl WS_FRAME_TOO_LARGE
                      else Inr (the (message_id_of_code i), len, le_word (take 8 (drop 12 bs))))"

definition decode_frame :: "limits \<Rightarrow> bytes \<Rightarrow> wire_status + wire_frame" where
  "decode_frame l bs =
     (case decode_frame_header l bs of
        Inl status \<Rightarrow> Inl status
      | Inr (message, payload_len, integrity) \<Rightarrow>
          let total_size = kWireHeaderBytes + unat payload_len
          in if length bs < total_size then Inl WS_INCOMPLETE
             else if total_size < length bs then Inl WS_TRAILING_BYTES
             else if fnv1a64 (take 12 bs @ drop kWireHeaderBytes bs) \<noteq> integrity then Inl WS_INTEGRITY_FAILURE
             else Inr \<lparr>wf_message = message, wf_payload = drop kWireHeaderBytes bs\<rparr>)"

section \<open>The assembler\<close>

record assembler =
  as_limits :: limits
  as_buffer :: bytes
  as_consumed :: nat
  as_status :: wire_status

definition new_assembler :: "limits \<Rightarrow> assembler" where
  "new_assembler l = \<lparr>as_limits = l, as_buffer = [], as_consumed = 0, as_status = WS_OK\<rparr>"

definition as_append :: "bytes \<Rightarrow> assembler \<Rightarrow> assembler" where
  "as_append data a =
     (if as_status a \<noteq> WS_OK then a
      else let buffer = drop (as_consumed a) (as_buffer a) @ data
           in a\<lparr>as_buffer := buffer, as_consumed := 0,
                as_status := (if max_wire_assembly_bytes (as_limits a) < length buffer then WS_ASSEMBLY_LIMIT_EXCEEDED else WS_OK)\<rparr>)"

definition as_next :: "assembler \<Rightarrow> (wire_status + wire_frame) \<times> assembler" where
  "as_next a =
     (if as_status a \<noteq> WS_OK then (Inl (as_status a), a)
      else let available = drop (as_consumed a) (as_buffer a)
           in if available = [] then (Inl WS_INCOMPLETE, a)
              else case decode_frame_header (as_limits a) available of
                  Inl header \<Rightarrow>
                    if header = WS_INCOMPLETE then (Inl WS_INCOMPLETE, a) else (Inl header, a\<lparr>as_status := header\<rparr>)
                | Inr (message, payload_len, integrity) \<Rightarrow>
                    let total_size = kWireHeaderBytes + unat payload_len
                    in if length available < total_size then (Inl WS_INCOMPLETE, a)
                       else case decode_frame (as_limits a) (take total_size available) of
                           Inl status \<Rightarrow> (Inl status, a\<lparr>as_status := status\<rparr>)
                         | Inr frame \<Rightarrow> (Inr frame, a\<lparr>as_consumed := as_consumed a + total_size\<rparr>))"

definition as_buffered :: "assembler \<Rightarrow> nat" where
  "as_buffered a = length (as_buffer a) - as_consumed a"

definition as_clear :: "assembler \<Rightarrow> assembler" where
  "as_clear a = a\<lparr>as_buffer := [], as_consumed := 0, as_status := WS_OK\<rparr>"

section \<open>Reading back frames\<close>

lemma message_id_cast: "message_id_of_code (message_id_code m) = Some m" "is_defined_message_id (message_id_code m)"
  by (cases m; simp add: message_id_of_code_def message_id_values_def is_defined_message_id_def)+

lemma length_write_header [simp]: "length (write_header m n) = 12"
  by (simp add: write_header_def put_u16_def)

definition sendable :: "limits \<Rightarrow> wire_frame \<Rightarrow> bool" where
  "sendable l f \<longleftrightarrow> \<not> is_reserved_message (message_id_code (wf_message f)) \<and>
     length (wf_payload f) \<le> max_frame_bytes l \<and> length (wf_payload f) < 2 ^ 32"

definition frame_bytes :: "limits \<Rightarrow> wire_frame \<Rightarrow> bytes" where
  "frame_bytes l f = encode_frame (wf_message f) (wf_payload f) l"

lemma length_frame_bytes: "sendable l f \<Longrightarrow> length (frame_bytes l f) = kWireHeaderBytes + length (wf_payload f)"
  by (simp add: frame_bytes_def encode_frame_def sendable_def Let_def kWireHeaderBytes_def)

lemma header_fields:
  "take 4 (write_header m n) = le_bytes 4 kWireFrameMagic" "(write_header m n @ rest) ! 4 = 1" "(write_header m n @ rest) ! 5 = 0"
  "ucast ((write_header m n @ rest) ! 6) OR push_bit 8 (ucast ((write_header m n @ rest) ! 7)) = message_id_code m"
  "drop 8 (write_header m n) = le_bytes 4 n"
  by (simp_all add: write_header_def put_u16_def nth_append kWireProtocolVersion_def u16_halves)

lemma decode_header:
  assumes "sendable l f" "prefix = write_header (wf_message f) (of_nat (length (wf_payload f)))"
  shows "decode_frame_header l (prefix @ le_bytes 8 v @ rest) = Inr (wf_message f, of_nat (length (wf_payload f)), v)"
  using assms by (simp add: decode_frame_header_def header_fields kWireHeaderBytes_def kWireProtocolVersion_def Let_def
      message_id_cast sendable_def le_word_le_bytes unat_of_nat)

lemma decode_frame_bytes:
  assumes "sendable l f"
  shows "decode_frame l (frame_bytes l f) = Inr f"
proof -
  let ?prefix = "write_header (wf_message f) (of_nat (length (wf_payload f)))"
  let ?v = "fnv1a64 (?prefix @ wf_payload f)"
  have "frame_bytes l f = ?prefix @ le_bytes 8 ?v @ wf_payload f"
    using assms by (simp add: frame_bytes_def encode_frame_def sendable_def Let_def)
  then show ?thesis
    using decode_header [OF assms refl, of ?v "wf_payload f"] assms
    by (simp add: decode_frame_def Let_def kWireHeaderBytes_def unat_of_nat sendable_def)
qed

text \<open>A frame is read back exactly: every message but the reserved ones with a payload within the frame bound
  comes back as the message and the payload that were sent.\<close>

theorem frame_roundtrip:
  assumes "\<not> is_reserved_message (message_id_code m)" "length payload \<le> max_frame_bytes l" "length payload < 2 ^ 32"
  shows "decode_frame l (encode_frame m payload l) = Inr \<lparr>wf_message = m, wf_payload = payload\<rparr>"
  using decode_frame_bytes [of l "\<lparr>wf_message = m, wf_payload = payload\<rparr>"] assms by (simp add: sendable_def frame_bytes_def)

lemma frame_roundtrip_witness:
  "decode_frame default_limits (encode_frame MI_PING [1, 2, 3] default_limits) = Inr \<lparr>wf_message = MI_PING, wf_payload = [1, 2, 3]\<rparr>"
  by (rule frame_roundtrip) (simp_all add: is_reserved_message_def default_limits_def)

lemma decode_frame_covered:
  assumes "decode_frame l bs = Inr f"
  shows "fnv1a64 (take 12 bs @ drop 20 bs) = (le_word (take 8 (drop 12 bs)) :: u64)" "20 \<le> length bs"
proof -
  obtain message len v where h: "decode_frame_header l bs = Inr (message, len, v)" and v: "fnv1a64 (take 12 bs @ drop 20 bs) = v"
    using assms by (auto simp: decode_frame_def Let_def kWireHeaderBytes_def split: sum.splits if_splits)
  have "20 \<le> length bs \<and> v = le_word (take 8 (drop 12 bs))"
    using h unfolding decode_frame_header_def Let_def kWireHeaderBytes_def by (simp only: split: if_splits) simp_all
  with v show "fnv1a64 (take 12 bs @ drop 20 bs) = (le_word (take 8 (drop 12 bs)) :: u64)" "20 \<le> length bs" by simp_all
qed

text \<open>A damaged frame is never taken for a valid one: changing any single byte of a frame that decodes, in the header,
  the integrity value or the payload, makes it refused.\<close>

theorem frame_detects_byte_change:
  assumes "decode_frame l bs = Inr f" "i < length bs" "b \<noteq> bs ! i"
  shows "\<exists>status. decode_frame l (bs[i := b]) = Inl status"
proof (rule ccontr)
  let ?damaged = "bs[i := b]"
  assume "\<not> (\<exists>status. decode_frame l ?damaged = Inl status)"
  then obtain g where "decode_frame l ?damaged = Inr g" by (metis sum.exhaust)
  note new = decode_frame_covered(1) [OF this]
  note old = decode_frame_covered(1) [OF assms(1)] and size = decode_frame_covered(2) [OF assms(1)]
  consider "i < 12" | "12 \<le> i" "i < 20" | "20 \<le> i" by linarith
  then show False
  proof cases
    case 1
    then have "take 12 bs @ drop 20 bs = take i bs @ bs ! i # (drop (Suc i) (take 12 bs) @ drop 20 bs)"
      "take 12 ?damaged @ drop 20 ?damaged = take i bs @ b # (drop (Suc i) (take 12 bs) @ drop 20 bs)"
      using assms(2) id_take_nth_drop [of i "take 12 bs"] upd_conv_take_nth_drop [of i "take 12 bs" b]
      by (simp_all add: take_update_swap min_def drop_update_cancel)
    moreover have "drop 12 ?damaged = drop 12 bs" using 1 by (simp add: drop_update_cancel)
    ultimately have "bs ! i = b" using old new fnv1a64_byte by metis
    then show False using assms(3) by simp
  next
    case 2
    then have "take 12 ?damaged @ drop 20 ?damaged = take 12 bs @ drop 20 bs" by (simp add: drop_update_cancel)
    then have eq: "(le_word (take 8 (drop 12 ?damaged)) :: u64) = le_word (take 8 (drop 12 bs))" using old new by simp
    have "bs ! i = b"
    proof (rule bit_word_eqI)
      fix m assume m: "m < LENGTH(8)"
      let ?k = "8 * (i - 12) + m"
      have "?k < 64" "?k div 8 = i - 12" "?k mod 8 = m" using 2 m by auto
      then show "bit (bs ! i) m = bit b m"
        using arg_cong [OF eq, of "\<lambda>w. bit w ?k"] 2 assms(2) size by (simp add: bit_le_word)
    qed
    then show False using assms(3) by simp
  next
    case 3
    then have "take 12 bs @ drop 20 bs = (take 12 bs @ take (i - 20) (drop 20 bs)) @ bs ! i # drop (Suc i) bs"
      "take 12 ?damaged @ drop 20 ?damaged = (take 12 bs @ take (i - 20) (drop 20 bs)) @ b # drop (Suc i) bs"
      using assms(2) id_take_nth_drop [of "i - 20" "drop 20 bs"] upd_conv_take_nth_drop [of "i - 20" "drop 20 bs" b]
      by (simp_all add: drop_update_swap)
    moreover have "take 8 (drop 12 ?damaged) = take 8 (drop 12 bs)"
      using 3 by (simp add: drop_update_swap)
    ultimately have "bs ! i = b" using old new fnv1a64_byte by metis
    then show False using assms(3) by simp
  qed
qed

lemma frame_detects_byte_change_witness:
  "\<exists>status. decode_frame default_limits ((encode_frame MI_PING [1, 2, 3] default_limits)[21 := 7]) = Inl status"
proof (rule frame_detects_byte_change)
  show "decode_frame default_limits (encode_frame MI_PING [1, 2, 3] default_limits) = Inr \<lparr>wf_message = MI_PING, wf_payload = [1, 2, 3]\<rparr>"
    using decode_frame_bytes [of default_limits "\<lparr>wf_message = MI_PING, wf_payload = [1, 2, 3]\<rparr>"]
    by (simp add: frame_bytes_def sendable_def is_reserved_message_def default_limits_def)
  show "21 < length (encode_frame MI_PING [1, 2, 3] default_limits)" "7 \<noteq> encode_frame MI_PING [1, 2, 3] default_limits ! 21"
    by (simp_all add: encode_frame_def default_limits_def Let_def nth_append)
qed

section \<open>Reading a stream\<close>

text \<open>A reader appends what arrived and takes frames until none is complete.\<close>

definition unread :: "assembler \<Rightarrow> bytes" where
  "unread a = drop (as_consumed a) (as_buffer a)"

lemma as_next_progress: "as_next a = (Inr f, a') \<Longrightarrow> as_buffered a' < as_buffered a"
  by (auto simp: as_next_def as_buffered_def Let_def kWireHeaderBytes_def not_less split: if_splits sum.splits)

function drain :: "assembler \<Rightarrow> wire_frame list \<times> assembler" where
  "drain a =
     (case as_next a of
        (Inl status, a') \<Rightarrow> ([], a')
      | (Inr f, a') \<Rightarrow> (case drain a' of (fs, a'') \<Rightarrow> (f # fs, a'')))"
  by pat_completeness auto
termination
  by (relation "measure as_buffered") (auto dest: as_next_progress [OF sym])

declare drain.simps [simp del]

fun feed :: "bytes list \<Rightarrow> assembler \<Rightarrow> wire_frame list \<times> assembler" where
  "feed [] a = ([], a)"
| "feed (c # cs) a =
     (case drain (as_append c a) of (fs, a') \<Rightarrow> (case feed cs a' of (gs, a'') \<Rightarrow> (fs @ gs, a'')))"

lemma next_whole:
  assumes "as_status a = WS_OK" "sendable (as_limits a) f" "unread a = frame_bytes (as_limits a) f @ r"
  shows "as_next a = (Inr f, a\<lparr>as_consumed := as_consumed a + length (frame_bytes (as_limits a) f)\<rparr>)"
proof -
  let ?l = "as_limits a"
  let ?prefix = "write_header (wf_message f) (of_nat (length (wf_payload f)))"
  let ?v = "fnv1a64 (?prefix @ wf_payload f)"
  have bytes: "frame_bytes ?l f = ?prefix @ le_bytes 8 ?v @ wf_payload f"
    using assms(2) by (simp add: frame_bytes_def encode_frame_def sendable_def Let_def)
  have size: "kWireHeaderBytes + unat (of_nat (length (wf_payload f)) :: u32) = length (frame_bytes ?l f)"
    using assms(2) by (simp add: length_frame_bytes sendable_def unat_of_nat)
  have header: "decode_frame_header ?l (frame_bytes ?l f @ r) = Inr (wf_message f, of_nat (length (wf_payload f)), ?v)"
    using decode_header [OF assms(2) refl, of ?v "wf_payload f @ r"] by (simp add: bytes)
  have "frame_bytes ?l f \<noteq> []" by (simp add: bytes write_header_def put_u16_def)
  then show ?thesis
    unfolding as_next_def unread_def [symmetric] assms(3) Let_def header sum.case prod.case size
    using assms(1) decode_frame_bytes [OF assms(2)] by simp
qed

lemma next_partial:
  assumes "as_status a = WS_OK" "sendable (as_limits a) f" "unread a @ rest = frame_bytes (as_limits a) f @ r"
    and "length (unread a) < length (frame_bytes (as_limits a) f)"
  shows "as_next a = (Inl WS_INCOMPLETE, a)"
proof (cases "length (unread a) < 20")
  case True
  then have "decode_frame_header (as_limits a) (unread a) = Inl WS_INCOMPLETE"
    by (simp add: decode_frame_header_def kWireHeaderBytes_def)
  then show ?thesis using assms(1) by (simp add: as_next_def unread_def Let_def)
next
  case False
  let ?l = "as_limits a"
  let ?prefix = "write_header (wf_message f) (of_nat (length (wf_payload f)))"
  let ?v = "fnv1a64 (?prefix @ wf_payload f)"
  have bytes: "frame_bytes ?l f = ?prefix @ le_bytes 8 ?v @ wf_payload f"
    using assms(2) by (simp add: frame_bytes_def encode_frame_def sendable_def Let_def)
  have "unread a = take (length (unread a)) (frame_bytes ?l f)"
    using arg_cong [OF assms(3), of "take (length (unread a))"] assms(4) by simp
  then have "unread a = ?prefix @ le_bytes 8 ?v @ take (length (unread a) - 20) (wf_payload f)"
    using False by (simp add: bytes)
  then have "decode_frame_header ?l (unread a) = Inr (wf_message f, of_nat (length (wf_payload f)), ?v)"
    using decode_header [OF assms(2) refl] by metis
  moreover have "kWireHeaderBytes + unat (of_nat (length (wf_payload f)) :: u32) = length (frame_bytes ?l f)"
    using assms(2) by (simp add: length_frame_bytes sendable_def unat_of_nat)
  ultimately show ?thesis using assms(1,4) by (simp add: as_next_def unread_def Let_def)
qed

lemma drain_prefix:
  assumes "as_status a = WS_OK" "as_limits a = l" "list_all (sendable l) fs"
    and "unread a @ rest = concat (map (frame_bytes l) fs)"
  shows "\<exists>k a'. drain a = (take k fs, a') \<and> as_status a' = WS_OK \<and> as_limits a' = l \<and>
    unread a' @ rest = concat (map (frame_bytes l) (drop k fs)) \<and> length (unread a') < 20 + max_frame_bytes l \<and>
    (rest = [] \<longrightarrow> k = length fs)"
  using assms
proof (induction fs arbitrary: a)
  case Nil
  then have "unread a = []" by simp
  then have "as_next a = (Inl WS_INCOMPLETE, a)" using Nil.prems by (simp add: as_next_def unread_def)
  then have "drain a = ([], a)" by (simp add: drain.simps [of a])
  then show ?case using Nil.prems \<open>unread a = []\<close> by auto
next
  case (Cons f fs)
  have f: "sendable (as_limits a) f" using Cons.prems by simp
  have pend: "unread a @ rest = frame_bytes l f @ concat (map (frame_bytes l) fs)" using Cons.prems(4) by simp
  show ?case
  proof (cases "length (unread a) < length (frame_bytes l f)")
    case True
    then have "as_next a = (Inl WS_INCOMPLETE, a)" using next_partial [OF Cons.prems(1) f] pend Cons.prems(2) by simp
    then have "drain a = (take 0 (f # fs), a)" by (simp add: drain.simps [of a])
    moreover have "length (unread a) < 20 + max_frame_bytes l"
      using True f length_frame_bytes [of l f] Cons.prems(2) by (simp add: kWireHeaderBytes_def sendable_def)
    moreover have "rest \<noteq> []" using True pend by auto
    ultimately show ?thesis using Cons.prems by (intro exI [of _ 0] exI [of _ a]) simp
  next
    case False
    let ?n = "length (frame_bytes l f)"
    define a' where "a' = a\<lparr>as_consumed := as_consumed a + ?n\<rparr>"
    have whole: "unread a = frame_bytes l f @ drop ?n (unread a)"
      using arg_cong [OF pend, of "take ?n"] False by (metis append_eq_conv_conj append_take_drop_id not_less take_all_iff take_append)
    then have first: "as_next a = (Inr f, a')"
      using next_whole [OF Cons.prems(1) f] Cons.prems(2) by (simp add: a'_def)
    have "unread a' = drop ?n (unread a)" by (simp add: a'_def unread_def add.commute)
    then have "unread a' @ rest = concat (map (frame_bytes l) fs)" using pend whole by (metis append_assoc same_append_eq)
    with Cons.IH [of a'] Cons.prems obtain k a'' where k: "drain a' = (take k fs, a'')" "as_status a'' = WS_OK" "as_limits a'' = l"
        "unread a'' @ rest = concat (map (frame_bytes l) (drop k fs))" "length (unread a'') < 20 + max_frame_bytes l"
        "rest = [] \<longrightarrow> k = length fs"
      by (auto simp: a'_def)
    then have "drain a = (take (Suc k) (f # fs), a'')" by (simp add: drain.simps [of a] first)
    then show ?thesis using k by (intro exI [of _ "Suc k"] exI [of _ a'']) simp
  qed
qed

lemma unread_append:
  assumes "as_status a = WS_OK" "length (unread a) + length c \<le> max_wire_assembly_bytes (as_limits a)"
  shows "as_status (as_append c a) = WS_OK" "as_limits (as_append c a) = as_limits a" "unread (as_append c a) = unread a @ c"
  using assms by (simp_all add: as_append_def unread_def Let_def)

lemma feed_stream:
  assumes "as_status a = WS_OK" "as_limits a = l" "list_all (sendable l) fs" "unread a @ concat chunks = concat (map (frame_bytes l) fs)"
    and "length (unread a) < 20 + max_frame_bytes l"
    and "\<And>c. c \<in> set chunks \<Longrightarrow> length c + 19 + max_frame_bytes l \<le> max_wire_assembly_bytes l" "chunks \<noteq> [] \<or> unread a = []"
  shows "\<exists>a'. feed chunks a = (fs, a') \<and> as_status a' = WS_OK \<and> unread a' = []"
  using assms
proof (induction chunks arbitrary: a fs)
  case Nil
  then have "concat (map (frame_bytes l) fs) = []" by simp
  moreover have "frame_bytes l f \<noteq> []" if "sendable l f" for f
    using that length_frame_bytes [of l f] by (auto simp: kWireHeaderBytes_def)
  ultimately have "fs = []" using Nil.prems(3) by (cases fs) auto
  then show ?case using Nil.prems by simp
next
  case (Cons c chunks)
  have "length c + 19 + max_frame_bytes l \<le> max_wire_assembly_bytes l" by (rule Cons.prems(6)) simp
  then have room: "length (unread a) + length c \<le> max_wire_assembly_bytes (as_limits a)"
    using Cons.prems(5) unfolding Cons.prems(2) by linarith
  note a1 = unread_append [OF Cons.prems(1) room]
  obtain k a' where k: "drain (as_append c a) = (take k fs, a')" "as_status a' = WS_OK" "as_limits a' = l"
      "unread a' @ concat chunks = concat (map (frame_bytes l) (drop k fs))" "length (unread a') < 20 + max_frame_bytes l"
      "concat chunks = [] \<longrightarrow> k = length fs"
    using drain_prefix [of "as_append c a" l fs "concat chunks"] Cons.prems a1 by auto
  have "\<exists>a''. feed chunks a' = (drop k fs, a'') \<and> as_status a'' = WS_OK \<and> unread a'' = []"
  proof (cases "chunks = []")
    case True
    show ?thesis using k True by simp
  next
    case False
    show ?thesis
      by (rule Cons.IH [OF k(2,3) _ k(4,5)]) (use Cons.prems(3,6) False in \<open>auto simp: list_all_iff dest: in_set_dropD\<close>)
  qed
  then show ?case using k(1) by auto
qed

text \<open>C17: Frames do not depend on how the bytes arrive. However the encoded frames of a stream are cut into chunks, empty
  chunks and chunks that end inside a header included, a reader that appends each chunk and takes the complete
  frames gets exactly the frames that were sent, in order, with the assembler healthy and nothing left over, as
  long as a chunk leaves room for one incomplete frame within the assembly bound.\<close>

theorem assembler_delivers_the_stream:
  assumes "list_all (sendable l) fs" "concat chunks = concat (map (\<lambda>f. encode_frame (wf_message f) (wf_payload f) l) fs)"
    and "\<forall>c\<in>set chunks. length c + 19 + max_frame_bytes l \<le> max_wire_assembly_bytes l"
  shows "\<exists>a. feed chunks (new_assembler l) = (fs, a) \<and> as_status a = WS_OK \<and> as_buffered a = 0"
proof -
  have "concat chunks = concat (map (frame_bytes l) fs)" using assms(2) by (simp add: frame_bytes_def [abs_def])
  then obtain a where "feed chunks (new_assembler l) = (fs, a)" "as_status a = WS_OK" "unread a = []"
    using feed_stream [of "new_assembler l" l fs chunks] assms(1,3) by (auto simp: new_assembler_def unread_def)
  then show ?thesis by (auto simp: unread_def as_buffered_def)
qed

lemma assembler_delivers_the_stream_witness:
  "\<exists>a. feed (map (\<lambda>b. [b]) (encode_frame MI_PING [1, 2] default_limits @ encode_frame MI_CLOSE [] default_limits)) (new_assembler default_limits) =
     ([\<lparr>wf_message = MI_PING, wf_payload = [1, 2]\<rparr>, \<lparr>wf_message = MI_CLOSE, wf_payload = []\<rparr>], a) \<and>
     as_status a = WS_OK \<and> as_buffered a = 0"
proof (rule assembler_delivers_the_stream)
  show "list_all (sendable default_limits) [\<lparr>wf_message = MI_PING, wf_payload = [1, 2]\<rparr>, \<lparr>wf_message = MI_CLOSE, wf_payload = []\<rparr>]"
    by (simp add: sendable_def is_reserved_message_def default_limits_def)
  show "\<forall>c\<in>set (map (\<lambda>b. [b]) (encode_frame MI_PING [1, 2] default_limits @ encode_frame MI_CLOSE [] default_limits)).
      length c + 19 + max_frame_bytes default_limits \<le> max_wire_assembly_bytes default_limits"
    by (auto simp: default_limits_def)
  have "concat (map (\<lambda>b. [b]) bs) = bs" for bs :: bytes by (induction bs) simp_all
  then show "concat (map (\<lambda>b. [b]) (encode_frame MI_PING [1, 2] default_limits @ encode_frame MI_CLOSE [] default_limits)) =
      concat (map (\<lambda>f. encode_frame (wf_message f) (wf_payload f) default_limits)
        [\<lparr>wf_message = MI_PING, wf_payload = [1, 2]\<rparr>, \<lparr>wf_message = MI_CLOSE, wf_payload = []\<rparr>])"
    by simp
qed

section \<open>The assembly bound\<close>

definition assembler_inv :: "assembler \<Rightarrow> bool" where
  "assembler_inv a \<longleftrightarrow> as_consumed a \<le> length (as_buffer a) \<and>
     (as_status a = WS_OK \<longrightarrow> length (as_buffer a) \<le> max_wire_assembly_bytes (as_limits a))"

lemma as_next_inv: "assembler_inv a \<Longrightarrow> assembler_inv (snd (as_next a))"
  by (auto simp: assembler_inv_def as_next_def Let_def not_less kWireHeaderBytes_def split: sum.splits)

lemma as_append_inv: "assembler_inv (as_append c a)" if "assembler_inv a"
  using that by (auto simp: assembler_inv_def as_append_def Let_def)

lemma drain_inv: "assembler_inv a \<Longrightarrow> assembler_inv (snd (drain a))"
proof (induction a rule: drain.induct)
  case (1 a)
  then show ?case
    using as_next_inv [of a] by (simp add: drain.simps [of a] split: prod.split sum.split) (metis prod.collapse snd_conv)
qed

lemma feed_inv: "assembler_inv a \<Longrightarrow> assembler_inv (snd (feed chunks a))"
  by (induction chunks arbitrary: a) (auto simp: split_beta as_append_inv drain_inv)

lemma message_id_defined: "is_defined_message_id i \<Longrightarrow> message_id_code (the (message_id_of_code i)) = i"
proof -
  assume d: "is_defined_message_id i"
  have "\<exists>m. message_id_code m = i"
  proof -
    have "1 \<le> unat i" "unat i \<le> 15" using d by (simp_all add: is_defined_message_id_def word_le_nat_alt)
    then have "unat i \<in> {1, 2, 3, 4, 5, 6, 7, 8, 9, 10, 11, 12, 13, 14, 15}" unfolding insert_iff empty_iff by presburger
    then have "\<exists>m. unat i = unat (message_id_code m)"
      by (elim insertE emptyE) (rule exI [of _ MI_HELLO] exI [of _ MI_HELLO_ACK] exI [of _ MI_PUBLISH_POLICY]
        exI [of _ MI_PUBLISH_PROOF] exI [of _ MI_REVALIDATE] exI [of _ MI_QUERY] exI [of _ MI_QUERY_RESULT] exI [of _ MI_SNAPSHOT]
        exI [of _ MI_DIFF] exI [of _ MI_EXPLAIN] exI [of _ MI_FENCE] exI [of _ MI_CLOSE] exI [of _ MI_ERROR_REPLY] exI [of _ MI_PING]
        exI [of _ MI_PONG], simp; fail)+
    then show ?thesis by (metis word_unat_eq_iff)
  qed
  then show ?thesis using message_id_cast(1) by fastforce
qed

lemma decoded_sendable: "decode_frame l bs = Inr f \<Longrightarrow> sendable l f"
proof -
  assume d: "decode_frame l bs = Inr f"
  then obtain message len v where h: "decode_frame_header l bs = Inr (message, len, v)" "wf_message f = message"
      "length (wf_payload f) = unat len"
    by (auto simp: decode_frame_def Let_def kWireHeaderBytes_def not_less split: sum.splits if_splits)
  have "\<not> is_reserved_message (message_id_code message) \<and> unat len \<le> max_frame_bytes l"
    using h(1) unfolding decode_frame_header_def Let_def kWireHeaderBytes_def
    by (simp only: split: if_splits) (auto simp: message_id_defined)
  moreover have "unat len < 2 ^ 32" using unsigned_less [of len] by simp
  ultimately show ?thesis using h(2,3) by (simp add: sendable_def)
qed

lemma as_next_sendable: "as_next a = (Inr f, a') \<Longrightarrow> sendable (as_limits a) f \<and> as_limits a' = as_limits a"
  by (auto simp: as_next_def Let_def split: if_splits sum.splits dest: decoded_sendable)

lemma as_next_limits: "as_limits (snd (as_next a)) = as_limits a"
  by (simp add: as_next_def Let_def split: sum.split)

lemma drain_sendable: "list_all (sendable (as_limits a)) (fst (drain a)) \<and> as_limits (snd (drain a)) = as_limits a"
proof (induction a rule: drain.induct)
  case (1 a)
  show ?case
  proof (cases "as_next a")
    case (Pair r a')
    show ?thesis
    proof (cases r)
      case (Inl e)
      then show ?thesis using Pair as_next_limits [of a] by (simp add: drain.simps [of a])
    next
      case (Inr f)
      then show ?thesis
        using Pair 1 [OF Pair [symmetric] Inr] as_next_sendable [of a f a'] by (simp add: drain.simps [of a] split_beta)
    qed
  qed
qed

lemma feed_sendable: "list_all (sendable (as_limits a)) (fst (feed chunks a))"
proof (induction chunks arbitrary: a)
  case (Cons c chunks)
  have "as_limits (as_append c a) = as_limits a" by (simp add: as_append_def Let_def)
  then show ?case using drain_sendable [of "as_append c a"] Cons.IH [of "snd (drain (as_append c a))"] by (simp add: split_beta)
qed simp

lemma feed_limits: "as_limits (snd (feed chunks a)) = as_limits a"
proof (induction chunks arbitrary: a)
  case (Cons c chunks)
  have "as_limits (as_append c a) = as_limits a" by (simp add: as_append_def Let_def)
  then show ?case using drain_sendable [of "as_append c a"] Cons.IH by (simp add: split_beta)
qed simp

lemma feed_failed: "as_status a \<noteq> WS_OK \<Longrightarrow> feed chunks a = ([], a)"
proof (induction chunks)
  case (Cons c chunks)
  then have "as_append c a = a" "as_next a = (Inl (as_status a), a)" by (simp_all add: as_append_def as_next_def)
  then show ?case using Cons by (simp add: drain.simps [of a])
qed simp

text \<open>C26: The assembler withstands any input. Whatever bytes arrive in whatever chunks, a healthy assembler never buffers
  more than its bound, every frame it delivers has a permitted message and a payload within the frame bound, and
  after a failure it stays as it is and delivers nothing any more.\<close>

theorem assembler_is_bounded:
  assumes "feed chunks (new_assembler l) = (fs, a)"
  shows "(as_status a = WS_OK \<longrightarrow> length (as_buffer a) \<le> max_wire_assembly_bytes l) \<and> list_all (sendable l) fs \<and>
    (as_status a \<noteq> WS_OK \<longrightarrow> feed later a = ([], a))"
proof -
  have "assembler_inv (new_assembler l)" "as_limits (new_assembler l) = l" by (simp_all add: assembler_inv_def new_assembler_def)
  then show ?thesis
    using feed_inv [of "new_assembler l" chunks] feed_sendable [of "new_assembler l" chunks] feed_limits [of chunks "new_assembler l"]
      feed_failed assms by (simp add: assembler_inv_def)
qed

lemma assembler_is_bounded_witness:
  "feed [[1]] (snd (feed [replicate 20 0] (new_assembler default_limits))) = ([], snd (feed [replicate 20 0] (new_assembler default_limits)))"
proof -
  have "decode_frame_header default_limits (replicate 20 0) = Inl WS_BAD_MAGIC"
  proof -
    have "(le_word (replicate 4 0) :: u32) \<noteq> kWireFrameMagic" by code_simp
    then show ?thesis by (simp add: decode_frame_header_def kWireHeaderBytes_def)
  qed
  then have "feed [replicate 20 0] (new_assembler default_limits) =
      ([], \<lparr>as_limits = default_limits, as_buffer = replicate 20 0, as_consumed = 0, as_status = WS_BAD_MAGIC\<rparr>)"
    by (simp add: as_append_def new_assembler_def drain.simps as_next_def) (simp add: default_limits_def)
  from assembler_is_bounded [OF this, of "[[1]]"] this show ?thesis by simp
qed

end
