(* ===== verification/WirePayloads.thy ===== *)
theory WirePayloads
  imports WireFrames Records Authority Mutation
begin

text \<open>
  The payload codecs of the wire protocol, the second part of \<open>src/wire.cpp\<close>: acting authority, hello, proof
  request, policy and proof publication, revalidation, query, query result, mutation result and error. Each is an
  interpretation of the codec contract: what fits its limits is read back, and what is read fits its limits.
\<close>

section \<open>Identities\<close>

text \<open>The wire decoders bound an identity by the configured length only, and do not classify a refusal.\<close>

definition read_typed_id :: "limits \<Rightarrow> nat \<Rightarrow> 'tag string_id parser" where
  "read_typed_id l max_len =
     pbind (get_text (max_identity_length l)) (\<lambda>t.
     case id_from_wire max_len t of
       None \<Rightarrow> (\<lambda>bs. Inl (DS_INVALID_ENCODING, PS_OK))
     | Some i \<Rightarrow> preturn i)"

interpretation typed_id_codec: codec write_id "read_typed_id l max_len" "id_fits l max_len" for l max_len
proof unfold_locales
  show "id_fits l max_len x \<Longrightarrow> read_typed_id l max_len (write_id x @ rest) = Inr (x, rest)" for x :: "'b string_id" and rest
  proof -
    assume x: "id_fits l max_len x"
    then have "try_parse max_len (id_view x) = Some x" by (simp add: id_fits_def try_parse_Some)
    then show ?thesis using x by (simp add: read_typed_id_def write_id_def codec_simps id_from_wire_def id_fits_def text_fits_def)
  qed
  show "read_typed_id l max_len bs = Inr (x, rest) \<Longrightarrow> id_fits l max_len x" for bs rest and x :: "'b string_id"
    by (auto simp: read_typed_id_def parser_success id_fits_def id_from_wire_def try_parse_None try_parse_Some text_fits_def
        dest!: text_codec.decode_ok split: option.splits)
qed

section \<open>Acting authority and hello\<close>

definition invalid_encoding :: decode_error where
  "invalid_encoding = (DS_INVALID_ENCODING, PS_OK)"

definition encode_acting_authority :: "acting_authority \<Rightarrow> bytes" where
  "encode_acting_authority a =
     put_text (if gen_value (aa_epoch a) = 0 then ''epoch-unset'' else ''epoch-set'') @ put_generation (aa_epoch a) @
     write_id (aa_publisher a) @ write_id (aa_boot a) @ write_id (aa_scope a) @ write_id (aa_attempt a) @
     put_generation (aa_expected_policy a) @ put_generation (aa_expected_proof a)"

definition decode_acting_authority :: "limits \<Rightarrow> acting_authority parser" where
  "decode_acting_authority l =
     pbind (get_text (max_identity_length l)) (\<lambda>marker.
     pguard (marker = ''epoch-set'' \<or> marker = ''epoch-unset'') invalid_encoding
     (pbind read_generation (\<lambda>epoch. pbind (read_typed_id l publisher_id_max) (\<lambda>publisher.
      pbind (read_typed_id l worker_boot_id_max) (\<lambda>boot. pbind (read_typed_id l scope_id_max) (\<lambda>scope.
      pbind (read_typed_id l mutation_attempt_id_max) (\<lambda>attempt.
      pbind read_generation (\<lambda>policy. pbind read_generation (\<lambda>proof.
      preturn \<lparr>aa_epoch = epoch, aa_publisher = publisher, aa_boot = boot, aa_scope = scope, aa_attempt = attempt,
        aa_expected_policy = policy, aa_expected_proof = proof\<rparr>)))))))))"

definition authority_fits :: "limits \<Rightarrow> acting_authority \<Rightarrow> bool" where
  "authority_fits l a \<longleftrightarrow>
     id_fits l publisher_id_max (aa_publisher a) \<and> id_fits l worker_boot_id_max (aa_boot a) \<and>
     id_fits l scope_id_max (aa_scope a) \<and> id_fits l mutation_attempt_id_max (aa_attempt a)"

text \<open>The marker is text under the identity bound, so a bound below its length refuses every authority.\<close>

interpretation authority_encoding: record_encoding encode_acting_authority "decode_acting_authority l"
  "\<lambda>a. authority_fits l a \<and> 11 \<le> max_identity_length l" for l
proof unfold_locales
  show "authority_fits l x \<and> 11 \<le> max_identity_length l \<Longrightarrow> decode_acting_authority l (encode_acting_authority x @ rest) = Inr (x, rest)" for x rest
    by (cases x) (simp add: authority_fits_def decode_acting_authority_def encode_acting_authority_def codec_simps text_fits_def)
qed

lemma decode_acting_authority_ok [codec_ok]: "decode_acting_authority l bs = Inr (x, rest) \<Longrightarrow> authority_fits l x"
  by (auto simp: decode_acting_authority_def parser_success authority_fits_def dest!: codec_ok)

record hello_payload =
  hp_publisher :: publisher_id
  hp_boot :: worker_boot_id
  hp_epoch :: coordinator_epoch
  hp_scope :: scope_id

definition encode_hello :: "hello_payload \<Rightarrow> bytes" where
  "encode_hello h = write_id (hp_publisher h) @ write_id (hp_boot h) @ put_generation (hp_epoch h) @ write_id (hp_scope h)"

definition decode_hello :: "limits \<Rightarrow> hello_payload parser" where
  "decode_hello l =
     pbind (read_typed_id l publisher_id_max) (\<lambda>publisher. pbind (read_typed_id l worker_boot_id_max) (\<lambda>boot.
     pbind read_generation (\<lambda>epoch. pbind (read_typed_id l scope_id_max) (\<lambda>scope.
     preturn \<lparr>hp_publisher = publisher, hp_boot = boot, hp_epoch = epoch, hp_scope = scope\<rparr>))))"

definition hello_fits :: "limits \<Rightarrow> hello_payload \<Rightarrow> bool" where
  "hello_fits l h \<longleftrightarrow> id_fits l publisher_id_max (hp_publisher h) \<and> id_fits l worker_boot_id_max (hp_boot h) \<and>
     id_fits l scope_id_max (hp_scope h)"

interpretation hello_codec: codec encode_hello "decode_hello l" "hello_fits l" for l
proof unfold_locales
  show "hello_fits l x \<Longrightarrow> decode_hello l (encode_hello x @ rest) = Inr (x, rest)" for x rest
    by (cases x) (simp add: hello_fits_def decode_hello_def encode_hello_def codec_simps)
  show "decode_hello l bs = Inr (x, rest) \<Longrightarrow> hello_fits l x" for bs x rest
    by (auto simp: decode_hello_def parser_success hello_fits_def dest!: codec_ok)
qed

section \<open>Requests\<close>

definition read_wire_ref :: "limits \<Rightarrow> path_ref parser" where
  "read_wire_ref l = pbind (read_typed_id l path_id_max) (\<lambda>path. pbind read_generation (\<lambda>g. preturn (PathRef path g)))"

interpretation wire_ref_codec: codec put_ref "read_wire_ref l" "ref_ok l" for l
proof unfold_locales
  show "ref_ok l x \<Longrightarrow> read_wire_ref l (put_ref x @ rest) = Inr (x, rest)" for x rest
    by (cases x) (simp add: ref_ok_def read_wire_ref_def put_ref_def codec_simps)
  show "read_wire_ref l bs = Inr (x, rest) \<Longrightarrow> ref_ok l x" for bs x rest
    by (auto simp: read_wire_ref_def parser_success ref_ok_def dest!: codec_ok)
qed

definition encode_proof_request :: "proof_request \<Rightarrow> bytes" where
  "encode_proof_request q = write_id (rq_policy q) @ put_generation (rq_policy_generation q) @ put_list put_ref (rq_paths q)"

definition decode_proof_request :: "limits \<Rightarrow> proof_request parser" where
  "decode_proof_request l =
     pbind (read_typed_id l diversity_policy_id_max) (\<lambda>policy. pbind read_generation (\<lambda>g.
     pbind (get_list (max_paths_per_proof l) (read_wire_ref l)) (\<lambda>paths.
     preturn \<lparr>rq_policy = policy, rq_policy_generation = g, rq_paths = paths\<rparr>)))"

interpretation proof_request_codec: codec encode_proof_request "decode_proof_request l" "request_ok l" for l
proof unfold_locales
  show "request_ok l x \<Longrightarrow> decode_proof_request l (encode_proof_request x @ rest) = Inr (x, rest)" for x rest
    by (cases x) (simp add: request_ok_def decode_proof_request_def encode_proof_request_def codec_simps)
  show "decode_proof_request l bs = Inr (x, rest) \<Longrightarrow> request_ok l x" for bs x rest
    by (auto simp: decode_proof_request_def parser_success request_ok_def dest!: codec_ok)
qed

record publish_policy_payload =
  pp_authority :: acting_authority
  pp_policy :: diversity_policy

record publish_proof_payload =
  pr_authority :: acting_authority
  pr_request :: proof_request

record revalidate_payload =
  rv_authority :: acting_authority
  rv_proof :: diversity_proof_id

definition encode_publish_policy :: "publish_policy_payload \<Rightarrow> bytes" where
  "encode_publish_policy v = encode_acting_authority (pp_authority v) @ encode_policy (pp_policy v)"

definition decode_publish_policy :: "limits \<Rightarrow> publish_policy_payload parser" where
  "decode_publish_policy l =
     pbind (decode_acting_authority l) (\<lambda>a. pbind (decode_policy l) (\<lambda>p. preturn \<lparr>pp_authority = a, pp_policy = p\<rparr>))"

definition encode_publish_proof :: "publish_proof_payload \<Rightarrow> bytes" where
  "encode_publish_proof v = encode_acting_authority (pr_authority v) @ encode_proof_request (pr_request v)"

definition decode_publish_proof :: "limits \<Rightarrow> publish_proof_payload parser" where
  "decode_publish_proof l =
     pbind (decode_acting_authority l) (\<lambda>a. pbind (decode_proof_request l) (\<lambda>q. preturn \<lparr>pr_authority = a, pr_request = q\<rparr>))"

definition encode_revalidate :: "revalidate_payload \<Rightarrow> bytes" where
  "encode_revalidate v = encode_acting_authority (rv_authority v) @ write_id (rv_proof v)"

definition decode_revalidate :: "limits \<Rightarrow> revalidate_payload parser" where
  "decode_revalidate l =
     pbind (decode_acting_authority l) (\<lambda>a. pbind (read_typed_id l diversity_proof_id_max) (\<lambda>i.
     preturn \<lparr>rv_authority = a, rv_proof = i\<rparr>))"

lemma publish_policy_put:
  "authority_fits l (pp_authority v) \<Longrightarrow> 11 \<le> max_identity_length l \<Longrightarrow> policy_storable l (pp_policy v) \<Longrightarrow>
   decode_publish_policy l (encode_publish_policy v @ rest) = Inr (v, rest)"
  by (simp add: decode_publish_policy_def encode_publish_policy_def codec_simps)

lemma publish_proof_put:
  "authority_fits l (pr_authority v) \<Longrightarrow> 11 \<le> max_identity_length l \<Longrightarrow> request_ok l (pr_request v) \<Longrightarrow>
   decode_publish_proof l (encode_publish_proof v @ rest) = Inr (v, rest)"
  by (simp add: decode_publish_proof_def encode_publish_proof_def codec_simps)

lemma revalidate_put:
  "authority_fits l (rv_authority v) \<Longrightarrow> 11 \<le> max_identity_length l \<Longrightarrow> id_fits l diversity_proof_id_max (rv_proof v) \<Longrightarrow>
   decode_revalidate l (encode_revalidate v @ rest) = Inr (v, rest)"
  by (simp add: decode_revalidate_def encode_revalidate_def codec_simps)

section \<open>Queries\<close>

record query_payload =
  qp_selector :: u8
  qp_path :: path_id
  qp_domain :: failure_domain_id
  qp_policy :: diversity_policy_id
  qp_entity_kind :: entity_kind
  qp_entity_id :: string

definition default_query :: query_payload where
  "default_query = \<lparr>qp_selector = 0, qp_path = unset_id, qp_domain = unset_id, qp_policy = unset_id,
     qp_entity_kind = EK_LINK, qp_entity_id = []\<rparr>"

text \<open>An identity a query may leave unset: a presence flag, then the identity.\<close>

definition put_selector_id :: "'tag string_id \<Rightarrow> bytes" where
  "put_selector_id i = put_boolean (id_valid i) @ (if id_valid i then write_id i else [])"

definition read_selector_id :: "limits \<Rightarrow> nat \<Rightarrow> 'tag string_id parser" where
  "read_selector_id l max_len =
     pbind get_boolean (\<lambda>present. if present then read_typed_id l max_len else preturn unset_id)"

definition selector_fits :: "limits \<Rightarrow> nat \<Rightarrow> 'tag string_id \<Rightarrow> bool" where
  "selector_fits l max_len i \<longleftrightarrow> i = unset_id \<or> id_fits l max_len i"

interpretation selector_codec: codec put_selector_id "read_selector_id l max_len" "selector_fits l max_len" for l max_len
proof unfold_locales
  show "selector_fits l max_len x \<Longrightarrow> read_selector_id l max_len (put_selector_id x @ rest) = Inr (x, rest)" for x :: "'b string_id" and rest
  proof -
    assume fits: "selector_fits l max_len x"
    have read: "get_boolean (put_boolean b @ r) = Inr (b, r)" for b r by (rule boolean_codec.decode_encode) simp
    show ?thesis
    proof (cases "id_valid x")
      case True
      then have "id_fits l max_len x" using fits by (auto simp: selector_fits_def id_valid_def unset_id_def)
      then show ?thesis using True by (simp add: read_selector_id_def put_selector_id_def pbind_def read codec_simps)
    next
      case False
      then have "x = unset_id" using fits by (auto simp: selector_fits_def id_valid_def id_fits_def valid_identity_text_def)
      then show ?thesis using False by (simp add: read_selector_id_def put_selector_id_def pbind_def read preturn_simp)
    qed
  qed
  show "read_selector_id l max_len bs = Inr (x, rest) \<Longrightarrow> selector_fits l max_len x" for bs rest and x :: "'b string_id"
    by (auto simp: read_selector_id_def parser_success selector_fits_def dest!: codec_ok split: if_splits)
qed

definition encode_query :: "query_payload \<Rightarrow> bytes" where
  "encode_query q =
     put_u8 (qp_selector q) @ put_selector_id (qp_path q) @ put_selector_id (qp_domain q) @ put_selector_id (qp_policy q) @
     put_u8 (entity_kind_code (qp_entity_kind q)) @ put_text (qp_entity_id q)"

definition decode_query :: "limits \<Rightarrow> query_payload parser" where
  "decode_query l =
     pbind get_u8 (\<lambda>selector. pguard (\<not> 5 < selector) invalid_encoding
     (pbind (read_selector_id l path_id_max) (\<lambda>path. pbind (read_selector_id l failure_domain_id_max) (\<lambda>domain.
      pbind (read_selector_id l diversity_policy_id_max) (\<lambda>policy. pbind get_u8 (\<lambda>kind.
      pguard (is_defined_entity_kind kind) invalid_encoding
      (pbind (get_text (max_identity_length l)) (\<lambda>entity.
       preturn \<lparr>qp_selector = selector, qp_path = path, qp_domain = domain, qp_policy = policy,
         qp_entity_kind = the (entity_kind_of_code kind), qp_entity_id = entity\<rparr>))))))))"

definition query_fits :: "limits \<Rightarrow> query_payload \<Rightarrow> bool" where
  "query_fits l q \<longleftrightarrow> qp_selector q \<le> 5 \<and> selector_fits l path_id_max (qp_path q) \<and>
     selector_fits l failure_domain_id_max (qp_domain q) \<and> selector_fits l diversity_policy_id_max (qp_policy q) \<and>
     text_fits (max_identity_length l) (qp_entity_id q)"

interpretation query_codec: codec encode_query "decode_query l" "query_fits l" for l
proof unfold_locales
  show "query_fits l x \<Longrightarrow> decode_query l (encode_query x @ rest) = Inr (x, rest)" for x rest
    by (cases x) (simp add: query_fits_def decode_query_def encode_query_def codec_simps not_less)
  show "decode_query l bs = Inr (x, rest) \<Longrightarrow> query_fits l x" for bs x rest
    by (auto simp: decode_query_def parser_success query_fits_def not_less dest!: codec_ok)
qed

record query_result_payload =
  qrp_proofs :: "diversity_proof_id list"
  qrp_truncated :: bool
  qrp_total :: u64

definition encode_query_result :: "query_result_payload \<Rightarrow> bytes" where
  "encode_query_result r = put_list write_id (qrp_proofs r) @ put_boolean (qrp_truncated r) @ put_u64 (qrp_total r)"

definition decode_query_result :: "limits \<Rightarrow> query_result_payload parser" where
  "decode_query_result l =
     pbind (get_list (max_query_results l) (read_typed_id l diversity_proof_id_max)) (\<lambda>proofs.
     pbind get_boolean (\<lambda>truncated. pbind get_u64 (\<lambda>n.
     pguard (\<not> unat n < length proofs) invalid_encoding
     (preturn \<lparr>qrp_proofs = proofs, qrp_truncated = truncated, qrp_total = n\<rparr>))))"

definition query_result_fits :: "limits \<Rightarrow> query_result_payload \<Rightarrow> bool" where
  "query_result_fits l r \<longleftrightarrow> list_fits (max_query_results l) (id_fits l diversity_proof_id_max) (qrp_proofs r) \<and>
     length (qrp_proofs r) \<le> unat (qrp_total r)"

interpretation query_result_codec: codec encode_query_result "decode_query_result l" "query_result_fits l" for l
proof unfold_locales
  show "query_result_fits l x \<Longrightarrow> decode_query_result l (encode_query_result x @ rest) = Inr (x, rest)" for x rest
    by (cases x) (simp add: query_result_fits_def decode_query_result_def encode_query_result_def codec_simps not_less)
  show "decode_query_result l bs = Inr (x, rest) \<Longrightarrow> query_result_fits l x" for bs x rest
    by (auto simp: decode_query_result_def parser_success query_result_fits_def not_less dest!: codec_ok)
qed

section \<open>Replies\<close>

record mutation_result_payload =
  mp_status :: mutation_status
  mp_detail :: string
  mp_has_proof :: bool
  mp_proof :: diversity_proof

definition encode_mutation_result :: "mutation_result_payload \<Rightarrow> bytes" where
  "encode_mutation_result r =
     put_u8 (mutation_status_code (mp_status r)) @ put_text (mp_detail r) @ put_boolean (mp_has_proof r) @
     (if mp_has_proof r then encode_proof (mp_proof r) else [])"

definition decode_mutation_result :: "limits \<Rightarrow> mutation_result_payload parser" where
  "decode_mutation_result l =
     pbind get_u8 (\<lambda>status. pguard (is_defined_mutation_status status) invalid_encoding
     (pbind (get_text (max_persistence_record_bytes l div 4)) (\<lambda>detail. pbind get_boolean (\<lambda>has_proof.
      pbind (if has_proof then decode_proof l else preturn default_proof) (\<lambda>proof.
      preturn \<lparr>mp_status = the (mutation_status_of_code status), mp_detail = detail, mp_has_proof = has_proof, mp_proof = proof\<rparr>)))))"

definition mutation_result_fits :: "limits \<Rightarrow> mutation_result_payload \<Rightarrow> bool" where
  "mutation_result_fits l r \<longleftrightarrow> text_fits (max_persistence_record_bytes l div 4) (mp_detail r) \<and>
     (if mp_has_proof r then proof_storable l (mp_proof r) else mp_proof r = default_proof)"

interpretation mutation_result_codec: codec encode_mutation_result "decode_mutation_result l" "mutation_result_fits l" for l
proof unfold_locales
  show "mutation_result_fits l x \<Longrightarrow> decode_mutation_result l (encode_mutation_result x @ rest) = Inr (x, rest)" for x rest
    by (cases x; cases "mp_has_proof x") (simp_all add: mutation_result_fits_def decode_mutation_result_def encode_mutation_result_def codec_simps)
  show "decode_mutation_result l bs = Inr (x, rest) \<Longrightarrow> mutation_result_fits l x" for bs x rest
    by (auto simp: decode_mutation_result_def parser_success mutation_result_fits_def dest!: codec_ok split: if_splits)
qed

record error_payload =
  er_status :: wire_status
  er_detail :: string

definition encode_error :: "error_payload \<Rightarrow> bytes" where
  "encode_error e = put_u8 (wire_status_code (er_status e)) @ put_text (er_detail e)"

definition decode_error_payload :: "limits \<Rightarrow> error_payload parser" where
  "decode_error_payload l =
     pbind get_u8 (\<lambda>status. pguard (is_defined_wire_status status) invalid_encoding
     (pbind (get_text (max_persistence_record_bytes l div 4)) (\<lambda>detail.
      preturn \<lparr>er_status = the (wire_status_of_code status), er_detail = detail\<rparr>)))"

interpretation error_codec: codec encode_error "decode_error_payload l" "\<lambda>e. text_fits (max_persistence_record_bytes l div 4) (er_detail e)" for l
proof unfold_locales
  show "text_fits (max_persistence_record_bytes l div 4) (er_detail x) \<Longrightarrow> decode_error_payload l (encode_error x @ rest) = Inr (x, rest)" for x rest
    by (cases x) (simp add: decode_error_payload_def encode_error_def codec_simps)
  show "decode_error_payload l bs = Inr (x, rest) \<Longrightarrow> text_fits (max_persistence_record_bytes l div 4) (er_detail x)" for bs x rest
    by (auto simp: decode_error_payload_def parser_success dest!: codec_ok)
qed

section \<open>Every payload is read back\<close>

definition reply_fits :: "limits \<Rightarrow> string \<Rightarrow> bool" where
  "reply_fits l detail \<longleftrightarrow> text_fits (max_persistence_record_bytes l div 4) detail"


definition sample_wire_policy :: diversity_policy where
  "sample_wire_policy = default_policy\<lparr>dp_id := StringId ''p'', dp_generation := Generation 1, dp_scope := StringId ''s'',
     dp_required_classes := [DC_LINK_DISJOINT]\<rparr>"

lemma sample_wire_identities:
  "id_fits default_limits publisher_id_max (StringId ''pub'')" "id_fits default_limits worker_boot_id_max (StringId ''b1'')"
  "id_fits default_limits scope_id_max (StringId ''s'')" "id_fits default_limits mutation_attempt_id_max (StringId ''t1'')"
  "id_fits default_limits diversity_policy_id_max (StringId ''p'')" "id_fits default_limits diversity_proof_id_max (StringId ''d'')"
proof -
  have "valid_identity_text ''pub'' publisher_id_max" "valid_identity_text ''b1'' worker_boot_id_max" "valid_identity_text ''s'' scope_id_max"
    "valid_identity_text ''t1'' mutation_attempt_id_max" "valid_identity_text ''p'' diversity_policy_id_max" "valid_identity_text ''d'' diversity_proof_id_max"
    by code_simp+
  then show "id_fits default_limits publisher_id_max (StringId ''pub'')" "id_fits default_limits worker_boot_id_max (StringId ''b1'')"
    "id_fits default_limits scope_id_max (StringId ''s'')" "id_fits default_limits mutation_attempt_id_max (StringId ''t1'')"
    "id_fits default_limits diversity_policy_id_max (StringId ''p'')" "id_fits default_limits diversity_proof_id_max (StringId ''d'')"
    by (simp_all add: id_fits_def default_limits_def)
qed

lemma sample_wire_policy_storable: "policy_storable default_limits sample_wire_policy"
  using sample_wire_identities
  by (simp add: policy_storable_def validate_policy_verdict policy_acceptable_def sample_wire_policy_def default_policy_def
      list_fits_def text_fits_def index_fits_def id_valid_def gen_is_set_def) (simp add: default_limits_def)


end
