(* ===== verification/Distributed.thy ===== *)
theory Distributed
  imports RuntimeRestart WirePayloads
begin

text \<open>
  The coordinator and its client, \<open>src/distributed.cpp\<close>. The sockets are the environment: what arrives is a list of
  chunks, what is sent is a list of replies, and a connection that ends is an event. A frame is handled by one
  function on the state of the connection (the boot it announced) and of the coordinator (the runtime, the store
  file, the session and fence lists, the connections). A reply is its bytes and the files as they are when it is
  sent, so that what is on the disk before an answer goes out can be told from what gets there afterwards. The
  functions are a handler that runs undisturbed; the sections between its locks, which the threads of other
  connections may come between, are the steps of \<open>CoordinatorProps\<close>. The evidence may change under an evaluation:
  the views before and behind it are inputs of the handler.
\<close>

section \<open>Transport status\<close>

datatype transport_status =
    TS_OK
  | TS_NOT_STARTED
  | TS_ALREADY_STARTED
  | TS_BIND_FAILED
  | TS_LISTEN_FAILED
  | TS_CONNECT_FAILED
  | TS_IO_FAILURE
  | TS_CLOSED
  | TS_PROTOCOL_FAILURE
  | TS_PEER_GONE
  | TS_UNAUTHORIZED

definition transport_status_to_string :: "transport_status \<Rightarrow> string" where
  "transport_status_to_string v = (case v of
      TS_OK \<Rightarrow> ''OK''
    | TS_NOT_STARTED \<Rightarrow> ''NOT_STARTED''
    | TS_ALREADY_STARTED \<Rightarrow> ''ALREADY_STARTED''
    | TS_BIND_FAILED \<Rightarrow> ''BIND_FAILED''
    | TS_LISTEN_FAILED \<Rightarrow> ''LISTEN_FAILED''
    | TS_CONNECT_FAILED \<Rightarrow> ''CONNECT_FAILED''
    | TS_IO_FAILURE \<Rightarrow> ''IO_FAILURE''
    | TS_CLOSED \<Rightarrow> ''CLOSED''
    | TS_PROTOCOL_FAILURE \<Rightarrow> ''PROTOCOL_FAILURE''
    | TS_PEER_GONE \<Rightarrow> ''PEER_GONE''
    | TS_UNAUTHORIZED \<Rightarrow> ''UNAUTHORIZED'')"

definition render_transport_status :: "transport_status \<Rightarrow> string \<Rightarrow> string" where
  "render_transport_status status detail =
     transport_status_to_string status @ (if detail = [] then [] else '': '' @ detail)"

section \<open>The coordinator\<close>

text \<open>What the environment decides while a frame is handled: the views an evaluation asks and the fate of a save.\<close>

record env =
  en_before :: views
  en_behind :: views
  en_write :: write_outcome
  en_process :: nat
  en_tag :: nat

text \<open>A connection: its assembler, and its boot once a HELLO announced one.\<close>

type_synonym connection = "assembler \<times> worker_boot_id option"

record coordinator =
  co_runtime :: runtime
  co_limits :: limits
  co_store_path :: string
  co_files :: files
  co_sessions :: "publisher_session list"
  co_fenced :: "worker_boot_id list"
  co_connections :: "(nat \<times> connection) list"
  co_accepted :: u64
  co_rejected :: u64
  co_finished :: u64

definition new_coordinator :: "runtime \<Rightarrow> limits \<Rightarrow> files \<Rightarrow> coordinator" where
  "new_coordinator rt l fs =
     \<lparr>co_runtime = rt, co_limits = l, co_store_path = [], co_files = fs, co_sessions = [], co_fenced = [],
      co_connections = [], co_accepted = 0, co_rejected = 0, co_finished = 0\<rparr>"

definition set_store_path :: "string \<Rightarrow> coordinator \<Rightarrow> coordinator" where
  "set_store_path path co = co\<lparr>co_store_path := path\<rparr>"

text \<open>The result of the save is not looked at.\<close>

definition persist :: "env \<Rightarrow> coordinator \<Rightarrow> coordinator" where
  "persist e co =
     (if co_store_path co = [] then co
      else co\<lparr>co_files := last (fst (save (en_write e) (temporary_path (co_store_path co) (en_process e) (en_tag e))
        (co_store_path co) (co_runtime co) (co_files co)))\<rparr>)"

text \<open>Fencing a boot: it is put on the list under the lock of the coordinator, and the runtime is called without it.\<close>

definition list_fenced :: "worker_boot_id \<Rightarrow> coordinator \<Rightarrow> coordinator" where
  "list_fenced boot co = co\<lparr>co_fenced := co_fenced co @ [boot]\<rparr>"

definition publication_fence :: "worker_boot_id \<Rightarrow> coordinator \<Rightarrow> coordinator" where
  "publication_fence boot co =
     (let listed = list_fenced boot co in listed\<lparr>co_runtime := snd (rt_fence_boot boot (co_runtime listed))\<rparr>)"

section \<open>Replies\<close>

text \<open>What is sent, with the files at that moment; a payload beyond the frame bound is dropped without a word.\<close>

record reply =
  rp_bytes :: bytes
  rp_disk :: files

definition send_message :: "coordinator \<Rightarrow> message_id \<Rightarrow> bytes \<Rightarrow> reply list" where
  "send_message co message payload =
     (let bs = encode_frame message payload (co_limits co)
      in if bs = [] then [] else [\<lparr>rp_bytes = bs, rp_disk = co_files co\<rparr>])"

definition send_error :: "coordinator \<Rightarrow> wire_status \<Rightarrow> string \<Rightarrow> reply list" where
  "send_error co status detail = send_message co MI_ERROR_REPLY (encode_error \<lparr>er_status = status, er_detail = detail\<rparr>)"

definition mutation_payload :: "mutation_result \<Rightarrow> mutation_result_payload" where
  "mutation_payload r =
     \<lparr>mp_status = mr_status r, mp_detail = mr_detail r, mp_has_proof = (mr_proof r \<noteq> None),
      mp_proof = (case mr_proof r of None \<Rightarrow> default_proof | Some p \<Rightarrow> p)\<rparr>"

definition send_mutation :: "coordinator \<Rightarrow> mutation_result \<Rightarrow> reply list" where
  "send_mutation co r = send_message co MI_PUBLISH_PROOF (encode_mutation_result (mutation_payload r))"

section \<open>Handlers\<close>

text \<open>A payload is accepted when its decoder succeeds and consumes every byte.\<close>

definition whole :: "'a parser \<Rightarrow> bytes \<Rightarrow> 'a option" where
  "whole p bs = (case p bs of Inr (x, rest) \<Rightarrow> if at_end rest then Some x else None | Inl e \<Rightarrow> None)"

type_synonym serving = "worker_boot_id option \<times> coordinator"

definition malformed :: "coordinator \<Rightarrow> string \<Rightarrow> reply list" where
  "malformed co what = send_error co WS_MALFORMED_PAYLOAD (''malformed '' @ what)"

definition handle_hello :: "hello_payload \<Rightarrow> coordinator \<Rightarrow> reply list \<times> serving" where
  "handle_hello h co =
     (let session = \<lparr>ps_publisher = hp_publisher h, ps_boot = hp_boot h, ps_epoch = hp_epoch h, ps_scope = hp_scope h, ps_fenced = False\<rparr>
      in case rt_register_publisher session (co_runtime co) of
           (registered, rt) \<Rightarrow>
             (let co = co\<lparr>co_runtime := rt, co_sessions := co_sessions co @ [session\<lparr>ps_fenced := (registered \<noteq> AS_ACCEPTED)\<rparr>]\<rparr>
              in (if registered \<noteq> AS_ACCEPTED
                  then send_error co WS_MALFORMED_PAYLOAD
                    (''publisher registration refused: '' @ authority_status_to_string registered)
                  else send_message co MI_HELLO_ACK [],
                  Some (hp_boot h), co)))"

text \<open>A mutation: the result of the runtime, the store, then the reply.\<close>

definition acknowledge :: "env \<Rightarrow> mutation_result \<times> runtime \<Rightarrow> coordinator \<Rightarrow> reply list \<times> coordinator" where
  "acknowledge e res co =
     (let mutated = co\<lparr>co_runtime := snd res\<rparr>;
          persisted = persist e mutated
      in (send_mutation persisted (fst res), persisted))"

definition run_query :: "query_payload \<Rightarrow> runtime \<Rightarrow> query_result" where
  "run_query q rt =
     (if qp_selector q = 1 then proofs_for_path rt (qp_path q)
      else if qp_selector q = 2 then proofs_for_domain rt (qp_domain q)
      else if qp_selector q = 3 then proofs_for_policy rt (qp_policy q)
      else if qp_selector q = 4 then proofs_for_entity rt (EntityRef (qp_entity_kind q) (qp_entity_id q))
      else if qp_selector q = 5 then current_proofs rt
      else all_proofs rt)"

definition query_reply :: "query_result \<Rightarrow> query_result_payload" where
  "query_reply r = \<lparr>qrp_proofs = qr_proofs r, qrp_truncated = qr_truncated r, qrp_total = qr_total r\<rparr>"

definition handle_fence :: "bytes \<Rightarrow> coordinator \<Rightarrow> reply list \<times> coordinator" where
  "handle_fence payload co =
     (case whole (get_text (max_identity_length (co_limits co))) payload of
        None \<Rightarrow> (malformed co ''FENCE'', co)
      | Some text \<Rightarrow>
          (case id_from_wire worker_boot_id_max text of
             None \<Rightarrow> (malformed co ''FENCE identity'', co)
           | Some boot \<Rightarrow> (let fenced = publication_fence boot co in (send_message fenced MI_PONG [], fenced))))"

definition handle_frame :: "env \<Rightarrow> wire_frame \<Rightarrow> serving \<Rightarrow> reply list \<times> serving" where
  "handle_frame e f st =
     (case st of (boot, co) \<Rightarrow>
      let l = co_limits co; rt = co_runtime co; payload = wf_payload f;
          keep = (\<lambda>(out, co). (out, boot, co))
      in case wf_message f of
           MI_HELLO \<Rightarrow>
             (case whole (decode_hello l) payload of
                None \<Rightarrow> (malformed co ''HELLO'', boot, co)
              | Some h \<Rightarrow> handle_hello h co)
         | MI_PUBLISH_POLICY \<Rightarrow>
             (case whole (decode_publish_policy l) payload of
                None \<Rightarrow> (malformed co ''PUBLISH_POLICY'', boot, co)
              | Some v \<Rightarrow> keep (acknowledge e (publish_policy (pp_policy v) (pp_authority v) rt) co))
         | MI_PUBLISH_PROOF \<Rightarrow>
             (case whole (decode_publish_proof l) payload of
                None \<Rightarrow> (malformed co ''PUBLISH_PROOF'', boot, co)
              | Some v \<Rightarrow> keep (acknowledge e (evaluate (en_before e) (en_behind e) (pr_request v) (pr_authority v) rt) co))
         | MI_REVALIDATE \<Rightarrow>
             (case whole (decode_revalidate l) payload of
                None \<Rightarrow> (malformed co ''REVALIDATE'', boot, co)
              | Some v \<Rightarrow> keep (acknowledge e (revalidate (en_before e) (en_behind e) (rv_proof v) (rv_authority v) rt) co))
         | MI_QUERY \<Rightarrow>
             (case whole (decode_query l) payload of
                None \<Rightarrow> (malformed co ''QUERY'', boot, co)
              | Some q \<Rightarrow> (send_message co MI_QUERY_RESULT (encode_query_result (query_reply (run_query q rt))), boot, co))
         | MI_FENCE \<Rightarrow> keep (handle_fence payload co)
         | MI_PING \<Rightarrow> (send_message co MI_PONG [], boot, co)
         | MI_CLOSE \<Rightarrow> ([], boot, co)
         | _ \<Rightarrow> (send_error co WS_UNKNOWN_MESSAGE ''message is not accepted by this server'', boot, co))"

section \<open>Serving a connection\<close>

text \<open>The loop over the complete frames of what has arrived; \<open>es\<close> is the environment of each frame.\<close>

function serve_frames :: "(nat \<Rightarrow> env) \<Rightarrow> nat \<Rightarrow> assembler \<Rightarrow> serving \<Rightarrow> reply list \<times> assembler \<times> serving" where
  "serve_frames es n a st =
     (case as_next a of
        (Inl status, a') \<Rightarrow> ([], a', st)
      | (Inr f, a') \<Rightarrow>
          (case handle_frame (es n) f st of (out, st') \<Rightarrow>
             (case serve_frames es (Suc n) a' st' of (outs, res) \<Rightarrow> (out @ outs, res))))"
  by pat_completeness auto
termination
  by (relation "measure (\<lambda>(es, n, a, st). as_buffered a)") (auto dest: as_next_progress [OF sym])

declare serve_frames.simps [simp del]

definition serve_chunk :: "(nat \<Rightarrow> env) \<Rightarrow> bytes \<Rightarrow> assembler \<Rightarrow> serving \<Rightarrow> reply list \<times> assembler \<times> serving" where
  "serve_chunk es data a st = serve_frames es 0 (as_append data a) st"

text \<open>A connection ends when the peer is gone or its bytes are refused: the boot it announced is fenced.\<close>

definition end_serving :: "env \<Rightarrow> serving \<Rightarrow> coordinator" where
  "end_serving e st = (case st of
      (None, co) \<Rightarrow> co
    | (Some boot, co) \<Rightarrow> persist e (publication_fence boot co))"

definition drop_connection :: "nat \<Rightarrow> coordinator \<Rightarrow> coordinator" where
  "drop_connection i co =
     co\<lparr>co_connections := filter (\<lambda>c. fst c \<noteq> i) (co_connections co), co_finished := co_finished co + 1\<rparr>"

definition accept_connection :: "nat \<Rightarrow> coordinator \<Rightarrow> coordinator" where
  "accept_connection i co =
     (if max_publishers (co_limits co) \<le> length (co_connections co) then co\<lparr>co_rejected := co_rejected co + 1\<rparr>
      else co\<lparr>co_connections := co_connections co @ [(i, (new_assembler (co_limits co), None))], co_accepted := co_accepted co + 1\<rparr>)"

definition set_connection :: "nat \<Rightarrow> connection \<Rightarrow> coordinator \<Rightarrow> coordinator" where
  "set_connection i c co =
     co\<lparr>co_connections := map (\<lambda>d. if fst d = i then (i, c) else d) (co_connections co)\<rparr>"

definition receive :: "(nat \<Rightarrow> env) \<Rightarrow> env \<Rightarrow> nat \<Rightarrow> bytes \<Rightarrow> coordinator \<Rightarrow> reply list \<times> coordinator" where
  "receive es e i data co =
     (case map_of (co_connections co) i of
        None \<Rightarrow> ([], co)
      | Some (a, boot) \<Rightarrow>
          (case serve_chunk es data a (boot, co) of
             (outs, a', boot', co') \<Rightarrow>
               (outs, if as_status a' \<noteq> WS_OK then drop_connection i (end_serving e (boot', co'))
                      else set_connection i (a', boot') co')))"

definition peer_gone :: "env \<Rightarrow> nat \<Rightarrow> coordinator \<Rightarrow> coordinator" where
  "peer_gone e i co =
     (case map_of (co_connections co) i of
        None \<Rightarrow> co
      | Some (a, boot) \<Rightarrow> drop_connection i (end_serving e (boot, co)))"

text \<open>Stopping ends every connection that is open.\<close>

definition stop_serving :: "(nat \<Rightarrow> env) \<Rightarrow> coordinator \<Rightarrow> coordinator" where
  "stop_serving es co = fold (\<lambda>c. peer_gone (es (fst c)) (fst c)) (co_connections co) co"

text \<open>The public \<open>persist\<close> reports success whatever the save did.\<close>

definition coordinator_persist :: "env \<Rightarrow> coordinator \<Rightarrow> persistence_status \<times> coordinator" where
  "coordinator_persist e co = (PS_OK, persist e co)"

definition coordinator_render :: "nat \<Rightarrow> bool \<Rightarrow> coordinator \<Rightarrow> string" where
  "coordinator_render port running co =
     ''coordinator port='' @ decimal port @ (if running then '' running'' else '' stopped'') @
     '' accepted='' @ decimal (unat (co_accepted co)) @ '' rejected='' @ decimal (unat (co_rejected co)) @
     '' fenced='' @ decimal (length (co_fenced co))"

definition all_fenced :: "nat \<Rightarrow> coordinator \<Rightarrow> bool" where
  "all_fenced expected co \<longleftrightarrow> expected \<le> length (co_fenced co) \<and> expected \<le> unat (co_finished co)"

section \<open>The client\<close>

text \<open>What has arrived on the socket and was not received yet is the inbox; a lost connection is an empty one.\<close>

record client =
  cl_limits :: limits
  cl_connected :: bool
  cl_assembler :: assembler
  cl_inbox :: "bytes list"
  cl_round_trips :: u64

definition new_client :: "limits \<Rightarrow> client" where
  "new_client l = \<lparr>cl_limits = l, cl_connected = False, cl_assembler = new_assembler l, cl_inbox = [], cl_round_trips = 0\<rparr>"

definition cl_close :: "client \<Rightarrow> client" where
  "cl_close c = c\<lparr>cl_connected := False, cl_assembler := as_clear (cl_assembler c), cl_inbox := [], cl_round_trips := 0\<rparr>"

definition cl_connect :: "bool \<Rightarrow> client \<Rightarrow> transport_status \<times> client" where
  "cl_connect reached c =
     (if reached then (TS_OK, (cl_close c)\<lparr>cl_connected := True\<rparr>) else (TS_CONNECT_FAILED, cl_close c))"

fun await_reply :: "bytes list \<Rightarrow> assembler \<Rightarrow> wire_frame option \<times> bytes list \<times> assembler" where
  "await_reply [] a =
     (case as_next a of (Inr f, a') \<Rightarrow> (Some f, [], a') | (Inl status, a') \<Rightarrow> (None, [], a'))"
| "await_reply (c # cs) a =
     (case as_next a of
        (Inr f, a') \<Rightarrow> (Some f, c # cs, a')
      | (Inl status, a') \<Rightarrow> if as_status a' \<noteq> WS_OK then (None, c # cs, a') else await_reply cs (as_append c a'))"

text \<open>The peer is what the network does with the bytes that are sent: the sending fails, or chunks come back.\<close>

definition cl_request ::
  "(bytes \<Rightarrow> bytes list option) \<Rightarrow> message_id \<Rightarrow> bytes \<Rightarrow> client \<Rightarrow> wire_frame option \<times> client" where
  "cl_request peer message payload c =
     (if \<not> cl_connected c then (None, c)
      else let bs = encode_frame message payload (cl_limits c)
           in if bs = [] then (None, c)
              else case peer bs of
                  None \<Rightarrow> (None, c)
                | Some chunks \<Rightarrow>
                    (case await_reply (cl_inbox c @ chunks) (cl_assembler c) of
                       (None, inbox, a) \<Rightarrow> (None, c\<lparr>cl_assembler := a, cl_inbox := inbox\<rparr>)
                     | (Some f, inbox, a) \<Rightarrow>
                         (Some f, c\<lparr>cl_assembler := a, cl_inbox := inbox, cl_round_trips := cl_round_trips c + 1\<rparr>)))"

definition decode_mutation_reply :: "limits \<Rightarrow> wire_frame \<Rightarrow> transport_status + mutation_result" where
  "decode_mutation_reply l reply =
     (if wf_message reply = MI_ERROR_REPLY then Inl TS_PROTOCOL_FAILURE
      else case whole (decode_mutation_result l) (wf_payload reply) of
          None \<Rightarrow> Inl TS_PROTOCOL_FAILURE
        | Some r \<Rightarrow> Inr ((mutation_result (mp_status r) (mp_detail r))\<lparr>mr_proof := (if mp_has_proof r then Some (mp_proof r) else None)\<rparr>))"

definition cl_mutation ::
  "(bytes \<Rightarrow> bytes list option) \<Rightarrow> message_id \<Rightarrow> bytes \<Rightarrow> client \<Rightarrow> (transport_status + mutation_result) \<times> client" where
  "cl_mutation peer message payload c =
     (case cl_request peer message payload c of
        (None, c) \<Rightarrow> (Inl TS_PEER_GONE, c)
      | (Some reply, c) \<Rightarrow> (decode_mutation_reply (cl_limits c) reply, c))"

definition cl_publish_policy ::
  "(bytes \<Rightarrow> bytes list option) \<Rightarrow> acting_authority \<Rightarrow> diversity_policy \<Rightarrow> client \<Rightarrow> (transport_status + mutation_result) \<times> client" where
  "cl_publish_policy peer a p = cl_mutation peer MI_PUBLISH_POLICY (encode_publish_policy \<lparr>pp_authority = a, pp_policy = p\<rparr>)"

definition cl_publish_proof ::
  "(bytes \<Rightarrow> bytes list option) \<Rightarrow> acting_authority \<Rightarrow> proof_request \<Rightarrow> client \<Rightarrow> (transport_status + mutation_result) \<times> client" where
  "cl_publish_proof peer a q = cl_mutation peer MI_PUBLISH_PROOF (encode_publish_proof \<lparr>pr_authority = a, pr_request = q\<rparr>)"

definition cl_revalidate ::
  "(bytes \<Rightarrow> bytes list option) \<Rightarrow> acting_authority \<Rightarrow> diversity_proof_id \<Rightarrow> client \<Rightarrow> (transport_status + mutation_result) \<times> client" where
  "cl_revalidate peer a i = cl_mutation peer MI_REVALIDATE (encode_revalidate \<lparr>rv_authority = a, rv_proof = i\<rparr>)"

definition cl_query ::
  "(bytes \<Rightarrow> bytes list option) \<Rightarrow> query_payload \<Rightarrow> client \<Rightarrow> (transport_status + query_result_payload) \<times> client" where
  "cl_query peer q c =
     (case cl_request peer MI_QUERY (encode_query q) c of
        (None, c) \<Rightarrow> (Inl TS_PEER_GONE, c)
      | (Some reply, c) \<Rightarrow>
          (if wf_message reply \<noteq> MI_QUERY_RESULT then (Inl TS_PROTOCOL_FAILURE, c)
           else case whole (decode_query_result (cl_limits c)) (wf_payload reply) of
               None \<Rightarrow> (Inl TS_PROTOCOL_FAILURE, c)
             | Some r \<Rightarrow> (Inr r, c)))"

definition cl_signal ::
  "(bytes \<Rightarrow> bytes list option) \<Rightarrow> message_id \<Rightarrow> message_id \<Rightarrow> bytes \<Rightarrow> client \<Rightarrow> transport_status \<times> client" where
  "cl_signal peer message expected payload c =
     (case cl_request peer message payload c of
        (None, c) \<Rightarrow> (TS_PEER_GONE, c)
      | (Some reply, c) \<Rightarrow> (if wf_message reply \<noteq> expected then TS_PROTOCOL_FAILURE else TS_OK, c))"

definition cl_hello :: "(bytes \<Rightarrow> bytes list option) \<Rightarrow> hello_payload \<Rightarrow> client \<Rightarrow> transport_status \<times> client" where
  "cl_hello peer h = cl_signal peer MI_HELLO MI_HELLO_ACK (encode_hello h)"

definition cl_fence :: "(bytes \<Rightarrow> bytes list option) \<Rightarrow> worker_boot_id \<Rightarrow> client \<Rightarrow> transport_status \<times> client" where
  "cl_fence peer boot = cl_signal peer MI_FENCE MI_PONG (put_text (id_view boot))"

definition cl_ping :: "(bytes \<Rightarrow> bytes list option) \<Rightarrow> client \<Rightarrow> transport_status \<times> client" where
  "cl_ping peer = cl_signal peer MI_PING MI_PONG []"

definition client_render :: "client \<Rightarrow> string" where
  "client_render c = ''client '' @ (if cl_connected c then ''connected'' else ''disconnected'') @
     '' round-trips='' @ decimal (unat (cl_round_trips c))"

section \<open>A served stream\<close>

fun handle_all :: "env \<Rightarrow> wire_frame list \<Rightarrow> serving \<Rightarrow> reply list \<times> serving" where
  "handle_all e [] st = ([], st)"
| "handle_all e (f # fs) st =
     (case handle_frame e f st of (out, st') \<Rightarrow> (case handle_all e fs st' of (outs, st'') \<Rightarrow> (out @ outs, st'')))"

fun serve_chunks :: "env \<Rightarrow> bytes list \<Rightarrow> assembler \<Rightarrow> serving \<Rightarrow> reply list \<times> assembler \<times> serving" where
  "serve_chunks e [] a st = ([], a, st)"
| "serve_chunks e (c # cs) a st =
     (case serve_chunk (\<lambda>_. e) c a st of (out, a', st') \<Rightarrow>
        (case serve_chunks e cs a' st' of (outs, res) \<Rightarrow> (out @ outs, res)))"

lemma serve_frames_drain:
  "serve_frames (\<lambda>_. e) n a st =
     (case drain a of (fs, a') \<Rightarrow> (case handle_all e fs st of (outs, st') \<Rightarrow> (outs, a', st')))"
proof (induction a arbitrary: n st rule: drain.induct)
  case (1 a)
  show ?case
  proof (cases "as_next a")
    case (Pair r a')
    show ?thesis
    proof (cases r)
      case (Inl s)
      then show ?thesis using Pair by (simp add: drain.simps [of a] serve_frames.simps [of _ _ a])
    next
      case (Inr f)
      have "serve_frames (\<lambda>_. e) (Suc n) a' st' =
          (case drain a' of (fs, a') \<Rightarrow> (case handle_all e fs st' of (outs, st') \<Rightarrow> (outs, a', st')))" for st'
        by (rule 1) (simp_all add: Pair Inr)
      then show ?thesis
        using Pair Inr by (simp add: drain.simps [of a] serve_frames.simps [of _ _ a] split: prod.split)
    qed
  qed
qed

lemma handle_all_append:
  "handle_all e (fs @ gs) st =
     (case handle_all e fs st of (outs, st') \<Rightarrow> (case handle_all e gs st' of (outs', st'') \<Rightarrow> (outs @ outs', st'')))"
  by (induction fs arbitrary: st) (simp_all split: prod.split)

lemma serve_chunks_feed:
  "serve_chunks e cs a st = (case feed cs a of (fs, a') \<Rightarrow> (case handle_all e fs st of (outs, st') \<Rightarrow> (outs, a', st')))"
  by (induction cs arbitrary: a st) (simp_all add: serve_chunk_def serve_frames_drain handle_all_append split: prod.split)

text \<open>A connection on which nothing is pending.\<close>

definition idle :: "limits \<Rightarrow> assembler \<Rightarrow> bool" where
  "idle l a \<longleftrightarrow> as_status a = WS_OK \<and> as_limits a = l \<and> unread a = []"

definition chunked :: "limits \<Rightarrow> bytes list \<Rightarrow> bytes \<Rightarrow> bool" where
  "chunked l chunks bs \<longleftrightarrow> concat chunks = bs \<and>
     (\<forall>c\<in>set chunks. length c + 19 + max_frame_bytes l \<le> max_wire_assembly_bytes l)"

lemma serve_one:
  assumes "idle l a" "sendable l f" "chunked l chunks (frame_bytes l f)"
  shows "\<exists>a'. serve_chunks e chunks a st = (fst (handle_frame e f st), a', snd (handle_frame e f st)) \<and> idle l a'"
proof -
  have "chunks \<noteq> [] \<or> unread a = []" using assms(1) by (simp add: idle_def)
  then obtain a' where "feed chunks a = ([f], a')" "as_status a' = WS_OK" "unread a' = []"
    using feed_stream [of a l "[f]" chunks] assms by (auto simp: idle_def chunked_def)
  moreover have "as_limits a' = l" using feed_limits [of chunks a] calculation assms(1) by (simp add: idle_def)
  ultimately show ?thesis by (simp add: serve_chunks_feed idle_def split: prod.split)
qed

lemma await_one:
  assumes "as_status a = WS_OK" "as_limits a = l" "sendable l f" "unread a @ concat chunks = frame_bytes l f"
    and "\<forall>c\<in>set chunks. length c + 19 + max_frame_bytes l \<le> max_wire_assembly_bytes l" "length (unread a) < length (frame_bytes l f)"
  shows "\<exists>inbox a'. await_reply chunks a = (Some f, inbox, a')"
  using assms
proof (induction chunks arbitrary: a)
  case Nil
  then show ?case by simp
next
  case (Cons c cs)
  have partial: "as_next a = (Inl WS_INCOMPLETE, a)"
    using next_partial [of a f "concat (c # cs)" "[]"] Cons.prems by simp
  have size: "length (unread a) < 20 + max_frame_bytes l"
    using Cons.prems(3,6) length_frame_bytes [of l f] by (simp add: sendable_def kWireHeaderBytes_def)
  have "length (unread a) + length c \<le> max_wire_assembly_bytes (as_limits a)"
    using Cons.prems(5) size unfolding Cons.prems(2) by simp
  note a1 = unread_append [OF Cons.prems(1) this]
  show ?case
  proof (cases "length (unread a @ c) < length (frame_bytes l f)")
    case True
    have "\<exists>inbox a'. await_reply cs (as_append c a) = (Some f, inbox, a')"
      by (rule Cons.IH) (use Cons.prems a1 True in simp_all)
    then show ?thesis using partial Cons.prems(1) by simp
  next
    case False
    have "length (unread a @ c) + length (concat cs) = length (frame_bytes l f)" using arg_cong [OF Cons.prems(4), of length] by simp
    then have "length (concat cs) = 0" using False by linarith
    then have "concat cs = []" by (simp only: length_0_conv)
    then have "unread (as_append c a) = frame_bytes l f"
      using a1(3) Cons.prems(4) by (metis append_Nil2 concat.simps(2))
    then have "as_next (as_append c a) =
        (Inr f, (as_append c a)\<lparr>as_consumed := as_consumed (as_append c a) + length (frame_bytes l f)\<rparr>)"
      using next_whole [of "as_append c a" f "[]"] a1 Cons.prems(2,3) by simp
    then have "\<exists>inbox a'. await_reply cs (as_append c a) = (Some f, inbox, a')" by (cases cs) simp_all
    then show ?thesis using partial Cons.prems(1) by simp
  qed
qed

lemma whole_put: "p (bs @ []) = Inr (x, []) \<Longrightarrow> whole p bs = Some x"
  by (simp add: whole_def at_end_def)

text \<open>What a mutation result looks like on the other side: without limit notice and policy.\<close>

definition seen_remotely :: "mutation_result \<Rightarrow> mutation_result" where
  "seen_remotely r = r\<lparr>mr_limit := None, mr_policy := None\<rparr>"

definition reply_ready :: "limits \<Rightarrow> mutation_result \<Rightarrow> bool" where
  "reply_ready l r \<longleftrightarrow> mutation_result_fits l (mutation_payload r) \<and>
     sendable l \<lparr>wf_message = MI_PUBLISH_PROOF, wf_payload = encode_mutation_result (mutation_payload r)\<rparr>"

lemma persist_fields [simp]:
  "co_runtime (persist e co) = co_runtime co" "co_limits (persist e co) = co_limits co" "co_store_path (persist e co) = co_store_path co"
  "co_sessions (persist e co) = co_sessions co" "co_fenced (persist e co) = co_fenced co" "co_connections (persist e co) = co_connections co"
  by (simp_all add: persist_def)

lemma persist_done:
  assumes "co_store_path co \<noteq> []" "en_write e = WO_Done"
  shows "co_files (persist e co) (co_store_path co) = Some (encode_store (save_contents (co_runtime co)))"
  using assms by (simp add: persist_def save_def write_store_atomic_def Let_def)

lemma send_mutation_frame:
  assumes "reply_ready (co_limits co) r"
  shows "send_mutation co r = [\<lparr>rp_bytes = frame_bytes (co_limits co)
      \<lparr>wf_message = MI_PUBLISH_PROOF, wf_payload = encode_mutation_result (mutation_payload r)\<rparr>, rp_disk = co_files co\<rparr>]"
proof -
  let ?f = "\<lparr>wf_message = MI_PUBLISH_PROOF, wf_payload = encode_mutation_result (mutation_payload r)\<rparr>"
  have "frame_bytes (co_limits co) ?f \<noteq> []" using assms length_frame_bytes [of "co_limits co" ?f] by (auto simp: reply_ready_def kWireHeaderBytes_def)
  then show ?thesis by (simp add: send_mutation_def send_message_def frame_bytes_def Let_def)
qed

lemma decode_mutation_frame:
  assumes "reply_ready l r"
  shows "decode_mutation_reply l \<lparr>wf_message = MI_PUBLISH_PROOF, wf_payload = encode_mutation_result (mutation_payload r)\<rparr> = Inr (seen_remotely r)"
proof -
  have "whole (decode_mutation_result l) (encode_mutation_result (mutation_payload r)) = Some (mutation_payload r)"
    by (rule whole_put, rule mutation_result_codec.decode_encode) (use assms in \<open>simp add: reply_ready_def\<close>)
  then show ?thesis
    by (cases r; cases "mr_proof r") (simp_all add: decode_mutation_reply_def mutation_payload_def mutation_result_def seen_remotely_def)
qed

text \<open>A client that is connected with nothing pending.\<close>

definition ready :: "limits \<Rightarrow> client \<Rightarrow> bool" where
  "ready l c \<longleftrightarrow> cl_connected c \<and> cl_limits c = l \<and> cl_inbox c = [] \<and> idle l (cl_assembler c)"

lemma exchange:
  assumes "ready l c" "sendable l request" "sendable l reply" "peer (frame_bytes l request) = Some replies"
    and "chunked l replies (frame_bytes l reply)"
  shows "\<exists>c'. cl_request peer (wf_message request) (wf_payload request) c = (Some reply, c') \<and> cl_limits c' = l"
proof -
  have sent: "encode_frame (wf_message request) (wf_payload request) l = frame_bytes l request" by (simp add: frame_bytes_def)
  have nonempty: "frame_bytes l f \<noteq> []" if "sendable l f" for f
    using that length_frame_bytes [of l f] by (auto simp: kWireHeaderBytes_def)
  obtain inbox a where "await_reply replies (cl_assembler c) = (Some reply, inbox, a)"
    using await_one [of "cl_assembler c" l reply replies] assms(1,3,5) nonempty [OF assms(3)] by (auto simp: ready_def idle_def chunked_def)
  then show ?thesis
    using assms(1,4) nonempty [OF assms(2)] by (simp add: cl_request_def ready_def sent Let_def)
qed

lemma remote_mutation:
  assumes "ready l c" "idle l a" "co_limits co = l"
    and "sendable l request" "chunked l requests (frame_bytes l request)"
    and handled: "handle_frame e request (boot, co) =
      (send_mutation (persist e (co\<lparr>co_runtime := snd res\<rparr>)) (fst res), boot, persist e (co\<lparr>co_runtime := snd res\<rparr>))"
    and "reply_ready l (fst res)" "serve_chunks e requests a (boot, co) = (outs, a', boot', co')"
    and "chunked l replies (concat (map rp_bytes outs))" "peer (frame_bytes l request) = Some replies"
  shows "fst (cl_mutation peer (wf_message request) (wf_payload request) c) = Inr (seen_remotely (fst res)) \<and>
    co' = persist e (co\<lparr>co_runtime := snd res\<rparr>) \<and> boot' = boot \<and> outs \<noteq> [] \<and> (\<forall>r\<in>set outs. rp_disk r = co_files co')"
proof -
  let ?f = "\<lparr>wf_message = MI_PUBLISH_PROOF, wf_payload = encode_mutation_result (mutation_payload (fst res))\<rparr>"
  let ?co = "persist e (co\<lparr>co_runtime := snd res\<rparr>)"
  obtain b where "serve_chunks e requests a (boot, co) = (send_mutation ?co (fst res), b, boot, ?co)"
    using serve_one [OF assms(2,4,5), of e "(boot, co)"] handled by auto
  then have served: "outs = [\<lparr>rp_bytes = frame_bytes l ?f, rp_disk = co_files ?co\<rparr>]" "co' = ?co" "boot' = boot"
    using assms(3,7,8) send_mutation_frame [of ?co "fst res"] by auto
  have "sendable l ?f" using assms(7) by (simp add: reply_ready_def)
  then obtain c' where "cl_request peer (wf_message request) (wf_payload request) c = (Some ?f, c')" "cl_limits c' = l"
    using exchange [where c = c and l = l and request = request and reply = ?f and peer = peer and replies = replies]
      assms(1,4,9,10) served(1) by auto
  then show ?thesis using served decode_mutation_frame [OF assms(7)] by (simp add: cl_mutation_def)
qed

section \<open>A remote call is a local call\<close>

datatype remote_call =
    Call_Policy diversity_policy
  | Call_Proof proof_request
  | Call_Revalidate diversity_proof_id

fun call_fits :: "limits \<Rightarrow> remote_call \<Rightarrow> bool" where
  "call_fits l (Call_Policy p) \<longleftrightarrow> policy_storable l p"
| "call_fits l (Call_Proof q) \<longleftrightarrow> request_ok l q"
| "call_fits l (Call_Revalidate i) \<longleftrightarrow> id_fits l diversity_proof_id_max i"

fun call_frame :: "acting_authority \<Rightarrow> remote_call \<Rightarrow> wire_frame" where
  "call_frame a (Call_Policy p) = \<lparr>wf_message = MI_PUBLISH_POLICY, wf_payload = encode_publish_policy \<lparr>pp_authority = a, pp_policy = p\<rparr>\<rparr>"
| "call_frame a (Call_Proof q) = \<lparr>wf_message = MI_PUBLISH_PROOF, wf_payload = encode_publish_proof \<lparr>pr_authority = a, pr_request = q\<rparr>\<rparr>"
| "call_frame a (Call_Revalidate i) = \<lparr>wf_message = MI_REVALIDATE, wf_payload = encode_revalidate \<lparr>rv_authority = a, rv_proof = i\<rparr>\<rparr>"

fun call_local :: "env \<Rightarrow> acting_authority \<Rightarrow> remote_call \<Rightarrow> runtime \<Rightarrow> mutation_result \<times> runtime" where
  "call_local e a (Call_Policy p) = publish_policy p a"
| "call_local e a (Call_Proof q) = evaluate (en_before e) (en_behind e) q a"
| "call_local e a (Call_Revalidate i) = revalidate (en_before e) (en_behind e) i a"

fun call_remote ::
  "(bytes \<Rightarrow> bytes list option) \<Rightarrow> acting_authority \<Rightarrow> remote_call \<Rightarrow> client \<Rightarrow> (transport_status + mutation_result) \<times> client" where
  "call_remote peer a (Call_Policy p) = cl_publish_policy peer a p"
| "call_remote peer a (Call_Proof q) = cl_publish_proof peer a q"
| "call_remote peer a (Call_Revalidate i) = cl_revalidate peer a i"

lemma call_remote_mutation:
  "call_remote peer a call = cl_mutation peer (wf_message (call_frame a call)) (wf_payload (call_frame a call))"
  by (cases call) (simp_all add: cl_publish_policy_def cl_publish_proof_def cl_revalidate_def)

lemma handle_call:
  assumes "co_limits co = l" "11 \<le> max_identity_length l" "authority_fits l a" "call_fits l call"
  shows "handle_frame e (call_frame a call) (boot, co) =
    (send_mutation (persist e (co\<lparr>co_runtime := snd (call_local e a call (co_runtime co))\<rparr>)) (fst (call_local e a call (co_runtime co))),
     boot, persist e (co\<lparr>co_runtime := snd (call_local e a call (co_runtime co))\<rparr>))"
proof (cases call)
  case (Call_Policy p)
  have "whole (decode_publish_policy l) (encode_publish_policy \<lparr>pp_authority = a, pp_policy = p\<rparr>) = Some \<lparr>pp_authority = a, pp_policy = p\<rparr>"
    by (rule whole_put, rule publish_policy_put) (use assms Call_Policy in simp_all)
  then show ?thesis using Call_Policy assms(1) by (simp add: handle_frame_def acknowledge_def Let_def)
next
  case (Call_Proof q)
  have "whole (decode_publish_proof l) (encode_publish_proof \<lparr>pr_authority = a, pr_request = q\<rparr>) = Some \<lparr>pr_authority = a, pr_request = q\<rparr>"
    by (rule whole_put, rule publish_proof_put) (use assms Call_Proof in simp_all)
  then show ?thesis using Call_Proof assms(1) by (simp add: handle_frame_def acknowledge_def Let_def)
next
  case (Call_Revalidate i)
  have "whole (decode_revalidate l) (encode_revalidate \<lparr>rv_authority = a, rv_proof = i\<rparr>) = Some \<lparr>rv_authority = a, rv_proof = i\<rparr>"
    by (rule whole_put, rule revalidate_put) (use assms Call_Revalidate in simp_all)
  then show ?thesis using Call_Revalidate assms(1) by (simp add: handle_frame_def acknowledge_def Let_def)
qed

end
