(* ===== verification/CoordinatorProps.thy ===== *)
theory CoordinatorProps
  imports Distributed
begin

text \<open>
  What the coordinator keeps and what it gives away: every state it can reach, in whatever order connections are
  accepted, bytes arrive, peers vanish and the embedding program uses the runtime itself, its loads included. A step
  is a whole handler or one locked section of it, so that the threads of several connections interleave between their
  locks; a boot that is listed as fenced and not yet fenced in the runtime is a fence in progress.
\<close>

section \<open>What a frame can do\<close>

lemma whole_Some: "whole p bs = Some x \<Longrightarrow> p bs = Inr (x, [])"
  by (auto simp: whole_def at_end_def split: sum.splits if_splits)

lemma hello_boot_valid: "whole (decode_hello l) bs = Some h \<Longrightarrow> id_valid (hp_boot h)"
  by (auto simp: hello_fits_def dest!: whole_Some hello_codec.decode_ok dest: fits_valid)

lemma from_wire_valid: "id_from_wire m t = Some i \<Longrightarrow> id_valid i"
  by (auto simp: id_from_wire_def try_parse_Some id_valid_def valid_identity_text_def)

inductive frame_step :: "serving \<Rightarrow> serving \<Rightarrow> bool" where
  keep: "frame_step st st"
| hello: "id_valid (ps_boot s) \<Longrightarrow> rt_register_publisher s (co_runtime co) = (status, rt) \<Longrightarrow>
    frame_step (boot, co) (Some (ps_boot s), co\<lparr>co_runtime := rt, co_sessions := ss\<rparr>)"
| mutate: "runtime_step\<^sup>*\<^sup>* (co_runtime co) rt \<Longrightarrow> frame_step (boot, co) (boot, persist e (co\<lparr>co_runtime := rt\<rparr>))"
| fence: "id_valid b \<Longrightarrow> frame_step (boot, co) (boot, publication_fence b co)"

lemma handle_hello_step: "id_valid (hp_boot h) \<Longrightarrow> frame_step (boot, co) (snd (handle_hello h co))"
  using frame_step.hello [of "\<lparr>ps_publisher = hp_publisher h, ps_boot = hp_boot h, ps_epoch = hp_epoch h, ps_scope = hp_scope h, ps_fenced = False\<rparr>" co _ _ boot]
  by (simp add: handle_hello_def Let_def split: prod.split)

lemma acknowledge_step:
  "runtime_step\<^sup>*\<^sup>* (co_runtime co) (snd res) \<Longrightarrow> frame_step (boot, co) (boot, snd (acknowledge e res co))"
  by (simp add: acknowledge_def Let_def frame_step.mutate)

lemma handle_fence_step: "frame_step (boot, co) (boot, snd (handle_fence bs co))"
  by (auto simp: handle_fence_def Let_def intro: frame_step.keep frame_step.fence dest: from_wire_valid split: option.split)

lemma handle_frame_step: "frame_step (boot, co) (snd (handle_frame e f (boot, co)))"
proof -
  note simps = handle_frame_def Let_def frame_step.keep prod.case_distrib [of snd] split_beta
  show ?thesis
  proof (cases "wf_message f")
    case MI_HELLO
    then show ?thesis
      by (cases "whole (decode_hello (co_limits co)) (wf_payload f)")
        (simp_all add: simps handle_hello_step hello_boot_valid)
  next
    case MI_PUBLISH_POLICY
    then show ?thesis
      by (cases "whole (decode_publish_policy (co_limits co)) (wf_payload f)")
        (simp_all add: simps acknowledge_step r_into_rtranclp runtime_step.publish)
  next
    case MI_PUBLISH_PROOF
    then show ?thesis
      by (cases "whole (decode_publish_proof (co_limits co)) (wf_payload f)")
        (simp_all add: simps acknowledge_step evaluate_steps)
  next
    case MI_REVALIDATE
    then show ?thesis
      by (cases "whole (decode_revalidate (co_limits co)) (wf_payload f)")
        (simp_all add: simps acknowledge_step revalidate_steps)
  next
    case MI_QUERY
    then show ?thesis
      by (cases "whole (decode_query (co_limits co)) (wf_payload f)") (simp_all add: simps)
  qed (simp_all add: simps handle_fence_step)
qed

lemma serve_frames_step: "frame_step\<^sup>*\<^sup>* st (snd (snd (serve_frames es n a st)))"
proof (induction es n a st rule: serve_frames.induct)
  case (1 es n a st)
  obtain boot co where st: "st = (boot, co)" by (cases st)
  obtain r a' where nx: "as_next a = (r, a')" by (cases "as_next a")
  show ?case
  proof (cases r)
    case (Inl s)
    then show ?thesis using nx by (simp add: serve_frames.simps [of _ _ a])
  next
    case (Inr f)
    obtain out st' where handled: "handle_frame (es n) f st = (out, st')" by (cases "handle_frame (es n) f st")
    have "frame_step st st'" using handle_frame_step [of boot co "es n" f] handled st by simp
    moreover have "frame_step\<^sup>*\<^sup>* st' (snd (snd (serve_frames es (Suc n) a' st')))"
      using 1 nx Inr handled by simp
    ultimately have "frame_step\<^sup>*\<^sup>* st (snd (snd (serve_frames es (Suc n) a' st')))" by (rule converse_rtranclp_into_rtranclp)
    then show ?thesis using nx Inr handled by (simp add: serve_frames.simps [of _ _ a] split_beta)
  qed
qed

lemma serve_chunk_step: "frame_step\<^sup>*\<^sup>* st (snd (snd (serve_chunk es data a st)))"
  by (simp add: serve_chunk_def serve_frames_step)

section \<open>What every frame keeps\<close>

text \<open>A fence in progress: the boot is on the list; then it is fenced in the publication authority as well, and the
  demotion of its proofs is what is left.\<close>

datatype fencing = Listed worker_boot_id | Fencing worker_boot_id

definition fitting :: "(store_contents \<Rightarrow> runtime \<Rightarrow> bool) \<Rightarrow> store_contents \<Rightarrow> runtime \<Rightarrow> bool" where
  "fitting P c rt \<longleftrightarrow> load_fits c rt \<and> P c rt"

lemma fitting_fits: "fitting P c rt \<Longrightarrow> load_fits c rt"
  by (simp add: fitting_def)

text \<open>A boot the coordinator reports as fenced is fenced in the publication authority, and has no current proof, unless its
  fence is in progress. Loads that bring current proofs of a fenced boot are the exception; \<open>respectful\<close> says there are
  none. A fence demotes what the index by boot names, so it relies on the invariant of the runtime and with it on loads
  that fit the registries.\<close>

definition respectful :: "(store_contents \<Rightarrow> runtime \<Rightarrow> bool) \<Rightarrow> bool" where
  "respectful P \<longleftrightarrow> (\<forall>c rt b. P c rt \<and> is_fenced (rt_publication rt) b \<longrightarrow> spares b c)"

lemma respectful_fitting: "respectful P \<Longrightarrow> respectful (fitting P)"
  by (auto simp: respectful_def fitting_def)

definition fence_begun :: "(store_contents \<Rightarrow> runtime \<Rightarrow> bool) \<Rightarrow> fencing list \<Rightarrow> runtime \<Rightarrow> worker_boot_id \<Rightarrow> bool" where
  "fence_begun P ps rt b \<longleftrightarrow>
     (Listed b \<in> set ps \<or> is_fenced (rt_publication rt) b) \<and>
     (respectful P \<longrightarrow> Listed b \<in> set ps \<or> Fencing b \<in> set ps \<or> quiet b rt)"

definition fences_hold :: "(store_contents \<Rightarrow> runtime \<Rightarrow> bool) \<Rightarrow> fencing list \<Rightarrow> coordinator \<Rightarrow> bool" where
  "fences_hold P ps co \<longleftrightarrow>
     (\<forall>b\<in>set (co_fenced co). fence_begun P ps (co_runtime co) b) \<and>
     (\<forall>b. Listed b \<in> set ps \<longrightarrow> id_valid b) \<and>
     (\<forall>b. Fencing b \<in> set ps \<longrightarrow> is_fenced (rt_publication (co_runtime co)) b)"

lemma quiet_fenced: "quiet b rt \<Longrightarrow> is_fenced (rt_publication rt) b"
  by (simp add: quiet_def)

lemma quiet_begun: "quiet b rt \<Longrightarrow> fence_begun P ps rt b"
  by (simp add: fence_begun_def quiet_fenced)

lemma lives_respectful: "(life_step P)\<^sup>*\<^sup>* rt rt' \<Longrightarrow> respectful P \<Longrightarrow> quiet b rt \<Longrightarrow> quiet b rt'"
  using lives_quiet [of P rt rt' b] unfolding respectful_def by blast

lemma lives_begun: "(life_step P)\<^sup>*\<^sup>* rt rt' \<Longrightarrow> fence_begun P ps rt b \<Longrightarrow> fence_begun P ps rt' b"
  by (auto simp: fence_begun_def intro: lives_fenced lives_respectful)

lemma fences_hold_persist [simp]: "fences_hold P ps (persist e co) = fences_hold P ps co"
  by (simp add: fences_hold_def)

lemma fences_hold_later:
  assumes "fences_hold P ps co" "(life_step P)\<^sup>*\<^sup>* (co_runtime co) (co_runtime co')" "set (co_fenced co') \<subseteq> set (co_fenced co)"
  shows "fences_hold P ps co'"
  using assms lives_begun [OF assms(2)] lives_fenced [OF assms(2)] by (auto simp: fences_hold_def)

definition serving_ok ::
  "(store_contents \<Rightarrow> runtime \<Rightarrow> bool) \<Rightarrow> limits \<Rightarrow> fencing list \<Rightarrow> serving \<Rightarrow> bool" where
  "serving_ok P l ps st \<longleftrightarrow>
     reachable l (co_runtime (snd st)) \<and> fences_hold P ps (snd st) \<and> (\<forall>b. fst st = Some b \<longrightarrow> id_valid b)"

text \<open>A later state: the runtime lived on, and no fence was forgotten.\<close>

definition later :: "(store_contents \<Rightarrow> runtime \<Rightarrow> bool) \<Rightarrow> coordinator \<Rightarrow> coordinator \<Rightarrow> bool" where
  "later P co co' \<longleftrightarrow>
     (life_step P)\<^sup>*\<^sup>* (co_runtime co) (co_runtime co') \<and> set (co_fenced co) \<subseteq> set (co_fenced co') \<and> co_limits co' = co_limits co"

lemma later_refl: "later P co co"
  by (simp add: later_def)

lemma later_trans: "later P co co' \<Longrightarrow> later P co' co'' \<Longrightarrow> later P co co''"
  by (auto simp: later_def)

lemma register_life: "rt_register_publisher s rt = (status, rt') \<Longrightarrow> (life_step P)\<^sup>*\<^sup>* rt rt'"
  using operations_life [OF r_into_rtranclp [of runtime_step, OF runtime_step.register [of rt s]]] by simp

lemma list_fenced_fields [simp]:
  "co_limits (list_fenced b co) = co_limits co" "co_connections (list_fenced b co) = co_connections co"
  "co_fenced (list_fenced b co) = co_fenced co @ [b]" "co_runtime (list_fenced b co) = co_runtime co"
  "co_files (list_fenced b co) = co_files co" "co_store_path (list_fenced b co) = co_store_path co"
  by (simp_all add: list_fenced_def)

lemma publication_fence_fields [simp]:
  "co_limits (publication_fence b co) = co_limits co" "co_connections (publication_fence b co) = co_connections co"
  "co_fenced (publication_fence b co) = co_fenced co @ [b]" "co_store_path (publication_fence b co) = co_store_path co"
  "co_files (publication_fence b co) = co_files co"
  "co_runtime (publication_fence b co) = snd (rt_fence_boot b (co_runtime co))"
  by (simp_all add: publication_fence_def Let_def)

lemma publication_fence_later: "later P co (publication_fence b co)"
  using operations_life [OF fence_boot_steps] by (auto simp: later_def)

lemma publication_fence_holds:
  assumes "reachable l (co_runtime co)" "0 < max_history l" "id_valid b" "fences_hold P ps co"
  shows "fences_hold P ps (publication_fence b co)" "quiet b (co_runtime (publication_fence b co))"
proof -
  have q: "quiet b (snd (rt_fence_boot b (co_runtime co)))" using assms(1-3) by (rule fence_boot_quiet)
  then show "quiet b (co_runtime (publication_fence b co))" by simp
  have "fences_hold P ps (co\<lparr>co_runtime := snd (rt_fence_boot b (co_runtime co))\<rparr>)"
    by (rule fences_hold_later [OF assms(4)]) (simp_all add: operations_life fence_boot_steps)
  then show "fences_hold P ps (publication_fence b co)" using quiet_begun [OF q] by (auto simp: fences_hold_def)
qed

lemma frame_step_later: "frame_step st st' \<Longrightarrow> later P (snd st) (snd st')"
  by (induction rule: frame_step.induct)
    (auto simp: later_def operations_life fence_boot_steps dest: register_life)

lemma frame_step_connections: "frame_step st st' \<Longrightarrow> co_connections (snd st') = co_connections (snd st)"
  by (induction rule: frame_step.induct) simp_all

lemma frame_step_ok:
  assumes "frame_step st st'" "0 < max_history l" "serving_ok P l ps st"
  shows "serving_ok P l ps st'"
proof -
  note life = frame_step_later [OF assms(1), of P]
  have "reachable l (co_runtime (snd st'))"
    using frame_step_later [OF assms(1), of load_fits] assms(3) reachable_lives [where P = load_fits]
    by (auto simp: later_def serving_ok_def)
  moreover have "fences_hold P ps (snd st')"
    using assms life
  proof (induction rule: frame_step.induct)
    case (fence b boot co)
    then show ?case by (auto simp: serving_ok_def intro: publication_fence_holds)
  qed (auto simp: serving_ok_def later_def intro: fences_hold_later)
  moreover have "\<forall>b. fst st' = Some b \<longrightarrow> id_valid b"
    using assms(1,3) by (induction rule: frame_step.induct) (auto simp: serving_ok_def)
  ultimately show ?thesis by (simp add: serving_ok_def)
qed

lemma frame_steps:
  assumes "frame_step\<^sup>*\<^sup>* st st'"
  shows "later P (snd st) (snd st')" "co_connections (snd st') = co_connections (snd st)"
    "0 < max_history l \<Longrightarrow> serving_ok P l ps st \<Longrightarrow> serving_ok P l ps st'"
proof -
  show "later P (snd st) (snd st')"
    using assms by (induction rule: rtranclp_induct) (auto intro: later_refl later_trans frame_step_later)
  show "co_connections (snd st') = co_connections (snd st)"
    using assms by (induction rule: rtranclp_induct) (auto dest: frame_step_connections)
  show "0 < max_history l \<Longrightarrow> serving_ok P l ps st \<Longrightarrow> serving_ok P l ps st'"
    using assms by (induction rule: rtranclp_induct) (auto intro: frame_step_ok)
qed

section \<open>Steps of the coordinator\<close>

text \<open>The state is the coordinator with the fences in progress. The first steps are handlers that run undisturbed, and what
  the embedding program does: calls on the coordinator, and operations and loads (restricted by \<open>P\<close>) on the runtime. The
  others are the locked sections of a handler for themselves: a thread takes frames from its assembler, announces a
  boot, records a session, lists a boot, fences it, demotes its proofs, and drops its connection; what it does to the
  runtime and to the store are the steps \<open>local_call\<close> and \<open>persist\<close>. With them, whatever other threads do between two
  sections of one handler is a run.\<close>

inductive coordinator_step ::
  "(store_contents \<Rightarrow> runtime \<Rightarrow> bool) \<Rightarrow> coordinator \<times> fencing list \<Rightarrow> coordinator \<times> fencing list \<Rightarrow> bool" for P where
  accept: "map_of (co_connections co) i = None \<Longrightarrow> coordinator_step P (co, ps) (accept_connection i co, ps)"
| receive: "coordinator_step P (co, ps) (snd (receive es e i data co), ps)"
| gone: "coordinator_step P (co, ps) (peer_gone e i co, ps)"
| path: "coordinator_step P (co, ps) (set_store_path path co, ps)"
| persist: "coordinator_step P (co, ps) (persist e co, ps)"
| local_call: "life_step P (co_runtime co) rt \<Longrightarrow> coordinator_step P (co, ps) (co\<lparr>co_runtime := rt\<rparr>, ps)"
| taken: "map_of (co_connections co) i = Some (a, boot) \<Longrightarrow> coordinator_step P (co, ps) (set_connection i (a', boot) co, ps)"
| announced: "map_of (co_connections co) i = Some (a, boot) \<Longrightarrow> id_valid b \<Longrightarrow>
    coordinator_step P (co, ps) (set_connection i (a', Some b) co, ps)"
| session: "coordinator_step P (co, ps) (co\<lparr>co_sessions := co_sessions co @ [s]\<rparr>, ps)"
| listed: "id_valid b \<Longrightarrow> coordinator_step P (co, ps) (list_fenced b co, Listed b # ps)"
| fenced: "Listed b \<in> set ps \<Longrightarrow>
    coordinator_step P (co, ps) (co\<lparr>co_runtime := fence_publication b (co_runtime co)\<rparr>, Fencing b # remove1 (Listed b) ps)"
| demoted: "Fencing b \<in> set ps \<Longrightarrow>
    coordinator_step P (co, ps) (co\<lparr>co_runtime := snd (demote_boot b (co_runtime co))\<rparr>, remove1 (Fencing b) ps)"
| dropped: "map_of (co_connections co) i = Some (a, boot) \<Longrightarrow> (\<forall>b. boot = Some b \<longrightarrow> b \<in> set (co_fenced co)) \<Longrightarrow>
    coordinator_step P (co, ps) (drop_connection i co, ps)"

definition coordinator_reachable ::
  "(store_contents \<Rightarrow> runtime \<Rightarrow> bool) \<Rightarrow> limits \<Rightarrow> coordinator \<times> fencing list \<Rightarrow> bool" where
  "coordinator_reachable P l s \<longleftrightarrow>
     (\<exists>rt l' fs. reachable l rt \<and> (coordinator_step (fitting P))\<^sup>*\<^sup>* (new_coordinator rt l' fs, []) s)"

lemma coordinator_reachable_steps:
  "coordinator_reachable P l s \<Longrightarrow> (coordinator_step (fitting P))\<^sup>*\<^sup>* s s' \<Longrightarrow> coordinator_reachable P l s'"
  unfolding coordinator_reachable_def by (meson rtranclp_trans)

definition coordinator_inv ::
  "(store_contents \<Rightarrow> runtime \<Rightarrow> bool) \<Rightarrow> limits \<Rightarrow> fencing list \<Rightarrow> coordinator \<Rightarrow> bool" where
  "coordinator_inv P l ps co \<longleftrightarrow>
     reachable l (co_runtime co) \<and> fences_hold P ps co \<and> length (co_connections co) \<le> max_publishers (co_limits co) \<and>
     (\<forall>i a b. (i, (a, Some b)) \<in> set (co_connections co) \<longrightarrow> id_valid b)"

lemma drop_connection_later: "later P co (drop_connection i co)"
  by (simp add: later_def drop_connection_def)

lemma persist_later: "later P co (persist e co)"
  by (simp add: later_def)

lemma end_serving_later: "later P co (end_serving e (boot, co))"
  using later_trans [OF publication_fence_later persist_later] by (simp add: end_serving_def later_refl split: option.split)

lemma receive_unknown: "map_of (co_connections co) i = None \<Longrightarrow> receive es e i data co = ([], co)"
  by (simp add: receive_def)

lemma receive_served:
  assumes "map_of (co_connections co) i = Some (a, boot)" "serve_chunk es data a (boot, co) = (outs, a', boot', co')"
  shows "receive es e i data co =
    (outs, if as_status a' \<noteq> WS_OK then drop_connection i (end_serving e (boot', co')) else set_connection i (a', boot') co')"
    and "frame_step\<^sup>*\<^sup>* (boot, co) (boot', co')"
  using assms serve_chunk_step [of "(boot, co)" es data a] by (simp_all add: receive_def)

lemma drop_connection_inv:
  assumes "coordinator_inv P l ps co"
  shows "coordinator_inv P l ps (drop_connection i co)"
  using assms le_trans [OF length_filter_le]
  by (auto simp: coordinator_inv_def drop_connection_def fences_hold_def)

lemma set_connection_inv:
  assumes "coordinator_inv P l ps co" "\<forall>b. boot = Some b \<longrightarrow> id_valid b"
  shows "coordinator_inv P l ps (set_connection i (a, boot) co)"
  using assms by (auto simp: coordinator_inv_def set_connection_def fences_hold_def split: if_splits)

text \<open>What a handler did to the runtime and the lists carries over to the coordinator.\<close>

lemma served_inv:
  assumes "serving_ok P l ps (boot, co)" "coordinator_inv P l ps co0" "co_connections co = co_connections co0" "co_limits co = co_limits co0"
  shows "coordinator_inv P l ps co"
  using assms by (simp add: coordinator_inv_def serving_ok_def)

lemma end_serving_inv:
  assumes "serving_ok P l ps (boot, co)" "0 < max_history l" "coordinator_inv P l ps co"
  shows "coordinator_inv P l ps (drop_connection i (end_serving e (boot, co)))"
proof (rule drop_connection_inv)
  have "reachable l (co_runtime (end_serving e (boot, co)))"
    using assms(1) end_serving_later [of load_fits co e boot] reachable_lives [where P = load_fits]
    by (auto simp: serving_ok_def later_def)
  moreover have "fences_hold P ps (end_serving e (boot, co))"
    using assms(1,2) publication_fence_holds(1) [of l co _ P ps]
    by (cases boot) (simp_all add: end_serving_def serving_ok_def)
  ultimately show "coordinator_inv P l ps (end_serving e (boot, co))"
    using assms(3) by (cases boot; simp add: coordinator_inv_def end_serving_def)
qed

lemma coordinator_serving:
  "coordinator_inv P l ps co \<Longrightarrow> map_of (co_connections co) i = Some (a, boot) \<Longrightarrow> serving_ok P l ps (boot, co)"
  by (auto simp: coordinator_inv_def serving_ok_def dest: map_of_SomeD)

lemma coordinator_boot:
  "coordinator_inv P l ps co \<Longrightarrow> map_of (co_connections co) i = Some (a, boot) \<Longrightarrow> \<forall>b. boot = Some b \<longrightarrow> id_valid b"
  by (auto simp: coordinator_inv_def dest: map_of_SomeD)

lemma receive_inv:
  assumes "coordinator_inv P l ps co" "0 < max_history l"
  shows "coordinator_inv P l ps (snd (receive es e i data co))"
proof (cases "map_of (co_connections co) i")
  case None
  then show ?thesis using assms(1) by (simp add: receive_unknown)
next
  case (Some c)
  obtain a boot where c: "c = (a, boot)" by (cases c)
  obtain outs a' boot' co' where served: "serve_chunk es data a (boot, co) = (outs, a', boot', co')"
    by (cases "serve_chunk es data a (boot, co)")
  note r = receive_served [OF Some [unfolded c] served]
  have ok: "serving_ok P l ps (boot', co')" using frame_steps(3) [OF r(2)] assms coordinator_serving Some c by blast
  have inv: "coordinator_inv P l ps co'"
    by (rule served_inv [OF ok assms(1)]) (use frame_steps(1) [OF r(2), of P] frame_steps(2) [OF r(2)] in \<open>simp_all add: later_def\<close>)
  have "coordinator_inv P l ps (set_connection i (a', boot') co')"
    by (rule set_connection_inv [OF inv]) (use ok in \<open>simp add: serving_ok_def\<close>)
  then show ?thesis using end_serving_inv [OF ok assms(2) inv] by (simp add: r(1))
qed

lemma fenced_inv:
  assumes "coordinator_inv P l ps co" "Listed b \<in> set ps"
  shows "coordinator_inv P l (Fencing b # remove1 (Listed b) ps) (co\<lparr>co_runtime := fence_publication b (co_runtime co)\<rparr>)"
proof -
  let ?co = "co\<lparr>co_runtime := fence_publication b (co_runtime co)\<rparr>"
  have life: "(life_step Q)\<^sup>*\<^sup>* (co_runtime co) (co_runtime ?co)" for Q
    using operations_life [OF r_into_rtranclp [of runtime_step, OF runtime_step.fence]] by simp
  have "id_valid b" using assms by (auto simp: coordinator_inv_def fences_hold_def)
  then have fenced: "is_fenced (rt_publication (co_runtime ?co)) b"
    by (simp add: fence_publication_def fence_boot_def is_fenced_def)
  have held: "fences_hold P ps ?co" by (rule fences_hold_later [OF _ life]) (use assms(1) in \<open>simp_all add: coordinator_inv_def\<close>)
  have "fence_begun P (Fencing b # remove1 (Listed b) ps) (co_runtime ?co) c" if "c \<in> set (co_fenced co)" for c
    using held that fenced by (cases "c = b") (auto simp: fences_hold_def fence_begun_def)
  then have "fences_hold P (Fencing b # remove1 (Listed b) ps) ?co"
    using held fenced set_remove1_subset [of "Listed b" ps] by (auto simp: fences_hold_def)
  then show ?thesis using assms(1) reachable_lives [OF _ life [of load_fits]] by (simp add: coordinator_inv_def)
qed

lemma demoted_inv:
  assumes "coordinator_inv P l ps co" "0 < max_history l" "Fencing b \<in> set ps"
  shows "coordinator_inv P l (remove1 (Fencing b) ps) (co\<lparr>co_runtime := snd (demote_boot b (co_runtime co))\<rparr>)"
proof -
  let ?co = "co\<lparr>co_runtime := snd (demote_boot b (co_runtime co))\<rparr>"
  have life: "(life_step Q)\<^sup>*\<^sup>* (co_runtime co) (co_runtime ?co)" for Q
    using operations_life [OF r_into_rtranclp [of runtime_step, OF runtime_step.boot]] by simp
  have "runtime_inv (co_runtime co)" using assms(1,2) reachable_inv(1) by (auto simp: coordinator_inv_def)
  then have q: "quiet b (co_runtime ?co)"
    using demote_boot_quiet [of "co_runtime co" b] assms(1,3) by (simp add: coordinator_inv_def fences_hold_def)
  have held: "fences_hold P ps ?co" by (rule fences_hold_later [OF _ life]) (use assms(1) in \<open>simp_all add: coordinator_inv_def\<close>)
  have "fence_begun P (remove1 (Fencing b) ps) (co_runtime ?co) c" if "c \<in> set (co_fenced co)" for c
  proof (cases "c = b")
    case True
    then show ?thesis using quiet_begun [OF q] by simp
  next
    case False
    then show ?thesis using held that by (auto simp: fences_hold_def fence_begun_def)
  qed
  then have "fences_hold P (remove1 (Fencing b) ps) ?co"
    using held set_remove1_subset [of "Fencing b" ps] by (auto simp: fences_hold_def)
  then show ?thesis using assms(1) reachable_lives [OF _ life [of load_fits]] by (simp add: coordinator_inv_def)
qed

lemma coordinator_step_inv:
  assumes "coordinator_step (fitting P) s s'" "0 < max_history l" "coordinator_inv (fitting P) l (snd s) (fst s)"
  shows "coordinator_inv (fitting P) l (snd s') (fst s')"
  using assms
proof (induction rule: coordinator_step.induct)
  case (accept co i ps)
  then show ?case by (auto simp: coordinator_inv_def accept_connection_def fences_hold_def)
next
  case (receive co ps es e i data)
  then show ?case by (simp add: receive_inv)
next
  case (gone co ps e i)
  then show ?case
    using coordinator_serving end_serving_inv by (auto simp: peer_gone_def split: option.split)
next
  case (path co ps path)
  then show ?case by (simp add: coordinator_inv_def set_store_path_def fences_hold_def)
next
  case (persist co ps e)
  then show ?case by (simp add: coordinator_inv_def fences_hold_def)
next
  case (local_call co rt ps)
  have life: "(life_step (fitting P))\<^sup>*\<^sup>* (co_runtime co) (co_runtime (co\<lparr>co_runtime := rt\<rparr>))"
    using local_call.hyps by (simp add: r_into_rtranclp)
  have "fences_hold (fitting P) ps (co\<lparr>co_runtime := rt\<rparr>)"
    by (rule fences_hold_later [OF _ life]) (use local_call.prems in \<open>simp_all add: coordinator_inv_def\<close>)
  then show ?case using local_call.prems reachable_lives [OF _ life fitting_fits] by (simp add: coordinator_inv_def)
next
  case (taken co i a boot ps a')
  then have inv: "coordinator_inv (fitting P) l ps co" by simp
  show ?case using set_connection_inv [OF inv coordinator_boot [OF inv taken.hyps]] by simp
next
  case (announced co i a boot b ps a')
  then show ?case by (simp add: set_connection_inv)
next
  case (session co ps s)
  then show ?case by (simp add: coordinator_inv_def fences_hold_def)
next
  case (listed b co ps)
  then show ?case by (auto simp: coordinator_inv_def fences_hold_def fence_begun_def)
next
  case (fenced b ps co)
  then show ?case by (simp add: fenced_inv)
next
  case (demoted b ps co)
  then show ?case by (simp add: demoted_inv)
next
  case (dropped co i a boot ps)
  then show ?case by (simp add: drop_connection_inv)
qed

lemma receive_later: "later P co (snd (receive es e i data co))"
proof (cases "map_of (co_connections co) i")
  case None
  then show ?thesis by (simp add: receive_unknown later_refl)
next
  case (Some c)
  obtain a boot where c: "c = (a, boot)" by (cases c)
  obtain outs a' boot' co' where served: "serve_chunk es data a (boot, co) = (outs, a', boot', co')"
    by (cases "serve_chunk es data a (boot, co)")
  note r = receive_served [OF Some [unfolded c] served]
  have "later P co co'" using frame_steps(1) [OF r(2)] by simp
  moreover have "later P co' (drop_connection i (end_serving e (boot', co')))"
    using end_serving_later drop_connection_later by (rule later_trans)
  moreover have "later P co' (set_connection i (a', boot') co')" by (simp add: later_def set_connection_def)
  ultimately show ?thesis by (simp add: r(1) later_trans)
qed

lemma peer_gone_later: "later P co (peer_gone e i co)"
  using later_trans [OF end_serving_later drop_connection_later] by (simp add: peer_gone_def later_refl split: option.split)

lemma coordinator_step_later: "coordinator_step P s s' \<Longrightarrow> later P (fst s) (fst s')"
proof (induction rule: coordinator_step.induct)
  case (fenced b ps co)
  show ?case using operations_life [OF r_into_rtranclp [of runtime_step, OF runtime_step.fence]] by (simp add: later_def)
next
  case (demoted b ps co)
  show ?case using operations_life [OF r_into_rtranclp [of runtime_step, OF runtime_step.boot]] by (simp add: later_def)
qed (auto simp: later_def accept_connection_def set_store_path_def set_connection_def drop_connection_def
    receive_later [unfolded later_def] peer_gone_later [unfolded later_def])

lemma coordinator_steps_later: "(coordinator_step P)\<^sup>*\<^sup>* s s' \<Longrightarrow> later P (fst s) (fst s')"
  by (induction rule: rtranclp_induct) (auto intro: later_refl later_trans coordinator_step_later)

lemma coordinator_reachable_inv:
  assumes "coordinator_reachable P l s" "0 < max_history l"
  shows "coordinator_inv (fitting P) l (snd s) (fst s)"
proof -
  obtain rt l' fs where "reachable l rt" "(coordinator_step (fitting P))\<^sup>*\<^sup>* (new_coordinator rt l' fs, []) s"
    using assms(1) by (auto simp: coordinator_reachable_def)
  from this(2) show ?thesis
  proof (induction rule: rtranclp_induct)
    case base
    then show ?case using \<open>reachable l rt\<close> by (simp add: coordinator_inv_def new_coordinator_def fences_hold_def)
  qed (use assms(2) coordinator_step_inv in blast)
qed

section \<open>What is reported as fenced is fenced\<close>


section \<open>A lost worker\<close>

lemma drop_connection_fields [simp]:
  "co_runtime (drop_connection i co) = co_runtime co" "co_fenced (drop_connection i co) = co_fenced co"
  "co_files (drop_connection i co) = co_files co" "co_store_path (drop_connection i co) = co_store_path co"
  "map_of (co_connections (drop_connection i co)) i = None"
  by (auto simp: drop_connection_def map_of_eq_None_iff)

lemma lost_worker:
  assumes "map_of (co_connections co) i = Some (a, Some b)"
  shows "peer_gone e i co = drop_connection i (persist e (publication_fence b co))"
  using assms by (simp add: peer_gone_def end_serving_def)

text \<open>A stream that breaks ends like a lost worker.\<close>

lemma broken_stream:
  assumes "map_of (co_connections co) i = Some (a, boot)" "as_next (as_append data a) = (Inl s, a')" "as_status a' \<noteq> WS_OK"
  shows "receive es e i data co = ([], peer_gone e i co)"
  using assms by (simp add: receive_def peer_gone_def serve_chunk_def serve_frames.simps [of _ _ "as_append data a"])

lemma peer_gone_quiet:
  assumes "coordinator_reachable P l (co, ps)" "0 < max_history l" "map_of (co_connections co) i = Some (a, Some b)"
  shows "quiet b (co_runtime (peer_gone e i co))"
proof -
  note inv = coordinator_reachable_inv [OF assms(1,2), unfolded fst_conv snd_conv]
  have "id_valid b" using coordinator_boot [OF inv assms(3)] by simp
  then show ?thesis
    using publication_fence_holds(2) [of l co b "fitting P" ps] inv assms(2) by (simp add: lost_worker [OF assms(3)] coordinator_inv_def)
qed

text \<open>C10: A worker whose connection is lost is fenced for good. Its boot is on the fenced list and is refused by the
  publication authority, at once and in every state the coordinator can reach from there, whoever connects again under
  whatever name, whatever the embedding program does and whatever it loads. It has no current proof at once, and none
  later as long as no store is loaded that holds a current proof of that boot. The connection is gone, and the store
  holds the fence when a store is configured and can be written.\<close>

theorem lost_worker_is_fenced_for_good:
  assumes "coordinator_reachable P l (co, ps)" "0 < max_history l" "map_of (co_connections co) i = Some (a, Some b)"
    and "(coordinator_step Q)\<^sup>*\<^sup>* (peer_gone e i co, ps) (co', ps')"
  shows "b \<in> set (co_fenced co') \<and> is_fenced (rt_publication (co_runtime co')) b \<and>
    current_with (co_runtime (peer_gone e i co)) (\<lambda>p. pn_boot (dpf_provenance p) = b) = {} \<and>
    ((\<forall>c rt. Q c rt \<longrightarrow> spares b c) \<longrightarrow> current_with (co_runtime co') (\<lambda>p. pn_boot (dpf_provenance p) = b) = {}) \<and>
    map_of (co_connections (peer_gone e i co)) i = None \<and>
    (co_store_path co \<noteq> [] \<and> en_write e = WO_Done \<longrightarrow>
       co_files (peer_gone e i co) (co_store_path co) = Some (encode_store (save_contents (co_runtime (peer_gone e i co)))))"
proof (intro conjI impI)
  note later = coordinator_steps_later [OF assms(4), unfolded fst_conv]
  then have life: "(life_step Q)\<^sup>*\<^sup>* (co_runtime (peer_gone e i co)) (co_runtime co')" by (simp add: later_def)
  note q = peer_gone_quiet [OF assms(1-3), of e]
  show "b \<in> set (co_fenced co')" using later by (auto simp: later_def lost_worker [OF assms(3)])
  show "is_fenced (rt_publication (co_runtime co')) b" using lives_fenced [OF life] q by (simp add: quiet_def)
  show "current_with (co_runtime (peer_gone e i co)) (\<lambda>p. pn_boot (dpf_provenance p) = b) = {}"
    using q by (auto simp: quiet_def current_with_def stored_proof_def)
  show "map_of (co_connections (peer_gone e i co)) i = None" by (simp add: lost_worker [OF assms(3)])
next
  assume spared: "\<forall>c rt. Q c rt \<longrightarrow> spares b c"
  have life: "(life_step Q)\<^sup>*\<^sup>* (co_runtime (peer_gone e i co)) (co_runtime co')"
    using coordinator_steps_later [OF assms(4)] by (simp add: later_def)
  have "quiet b (co_runtime co')"
    by (rule lives_quiet [OF life peer_gone_quiet [OF assms(1-3)]]) (use spared in blast)
  then show "current_with (co_runtime co') (\<lambda>p. pn_boot (dpf_provenance p) = b) = {}"
    by (auto simp: quiet_def current_with_def stored_proof_def)
next
  assume "co_store_path co \<noteq> [] \<and> en_write e = WO_Done"
  then show "co_files (peer_gone e i co) (co_store_path co) = Some (encode_store (save_contents (co_runtime (peer_gone e i co))))"
    using persist_done [of "publication_fence b co" e] by (simp add: lost_worker [OF assms(3)])
qed

text \<open>Stopping is losing every worker: each announced boot ends up fenced.\<close>

lemma stop_steps: "(coordinator_step P)\<^sup>*\<^sup>* (co, ps) (stop_serving es co, ps)"
proof -
  have "(coordinator_step P)\<^sup>*\<^sup>* (co0, ps) (fold (\<lambda>c. peer_gone (es (fst c)) (fst c)) cs co0, ps)" for cs :: "(nat \<times> connection) list" and co0
    by (induction cs arbitrary: co0) (auto intro: coordinator_step.gone converse_rtranclp_into_rtranclp)
  then show ?thesis by (simp add: stop_serving_def)
qed

text \<open>The sections of the fence of a lost worker, one after the other, are what \<open>peer_gone\<close> does in one go.\<close>

lemma peer_gone_in_sections:
  assumes "map_of (co_connections co) i = Some (a, Some b)" "id_valid b"
  shows "(coordinator_step P)\<^sup>*\<^sup>* (co, ps) (peer_gone e i co, ps)"
proof -
  let ?co1 = "list_fenced b co"
  let ?co2 = "?co1\<lparr>co_runtime := fence_publication b (co_runtime ?co1)\<rparr>"
  let ?co3 = "?co2\<lparr>co_runtime := snd (demote_boot b (co_runtime ?co2))\<rparr>"
  have co3: "?co3 = publication_fence b co" by (simp add: publication_fence_def rt_fence_boot_def Let_def)
  have listed: "coordinator_step P (co, ps) (?co1, Listed b # ps)" by (rule coordinator_step.listed [OF assms(2)])
  have fenced: "coordinator_step P (?co1, Listed b # ps) (?co2, Fencing b # ps)"
    using coordinator_step.fenced [of b "Listed b # ps" P ?co1] by simp
  have demoted: "coordinator_step P (?co2, Fencing b # ps) (publication_fence b co, ps)"
    using coordinator_step.demoted [of b "Fencing b # ps" P ?co2] unfolding co3 by simp
  have persisted: "coordinator_step P (publication_fence b co, ps) (persist e (publication_fence b co), ps)"
    by (rule coordinator_step.persist)
  have "coordinator_step P (persist e (publication_fence b co), ps) (peer_gone e i co, ps)"
    unfolding lost_worker [OF assms(1)] by (rule coordinator_step.dropped) (use assms(1) in auto)
  then show ?thesis
    using listed fenced demoted persisted by (meson converse_rtranclp_into_rtranclp r_into_rtranclp)
qed

section \<open>Two sharp edges\<close>

lemma receive_frame:
  assumes "map_of (co_connections co) i = Some (a, boot)" "idle l a" "sendable l f"
    and "length (frame_bytes l f) + 19 + max_frame_bytes l \<le> max_wire_assembly_bytes l"
    and "handle_frame e f (boot, co) = (outs, boot', co')"
  shows "\<exists>a'. receive (\<lambda>_. e) e0 i (frame_bytes l f) co = (outs, set_connection i (a', boot') co')"
proof -
  have "chunked l [frame_bytes l f] (frame_bytes l f)" using assms(4) by (simp add: chunked_def)
  from serve_one [OF assms(2,3) this, of e "(boot, co)"]
  obtain a' where "serve_chunks e [frame_bytes l f] a (boot, co) = (outs, a', boot', co')" "idle l a'"
    unfolding assms(5) by auto
  then have "serve_chunk (\<lambda>_. e) (frame_bytes l f) a (boot, co) = (outs, a', boot', co')" "as_status a' = WS_OK"
    by (auto simp: idle_def split: prod.splits)
  then have "receive (\<lambda>_. e) e0 i (frame_bytes l f) co = (outs, set_connection i (a', boot') co')"
    using assms(1) by (simp add: receive_def)
  then show ?thesis by blast
qed

lemma map_of_set_connection:
  "map_of (co_connections co) i = Some c \<Longrightarrow> map_of (co_connections (set_connection i d co)) i = Some d"
proof -
  have "map_of xs i = Some c \<Longrightarrow> map_of (map (\<lambda>x. if fst x = i then (i, d) else x) xs) i = Some d" for xs :: "(nat \<times> connection) list"
    by (induction xs) (auto split: if_splits)
  then show "map_of (co_connections co) i = Some c \<Longrightarrow> ?thesis" by (simp add: set_connection_def)
qed

lemma handle_hello_result: "\<exists>outs co'. handle_hello h co = (outs, Some (hp_boot h), co') \<and> co_connections co' = co_connections co"
  by (simp add: handle_hello_def Let_def split: prod.split)

definition hello_session :: "hello_payload \<Rightarrow> publisher_session" where
  "hello_session h = \<lparr>ps_publisher = hp_publisher h, ps_boot = hp_boot h, ps_epoch = hp_epoch h, ps_scope = hp_scope h, ps_fenced = False\<rparr>"

lemma handle_hello_frame:
  assumes "co_limits co = l" "hello_fits l h"
  shows "handle_frame e \<lparr>wf_message = MI_HELLO, wf_payload = encode_hello h\<rparr> (boot, co) = handle_hello h co"
proof -
  have "whole (decode_hello l) (encode_hello h) = Some h"
    by (rule whole_put, rule hello_codec.decode_encode [OF assms(2)])
  then show ?thesis using assms(1) by (simp add: handle_frame_def Let_def)
qed

text \<open>C35: A HELLO that is refused still names the boot the connection stands for: when a client greets with a boot
  that is not its own, is refused, and leaves, that boot is fenced and loses every current proof, although its own
  connection never ended. Whoever can reach the port can end any worker's authority.\<close>

theorem refused_hello_fences_the_named_boot:
  assumes "coordinator_reachable P l (co, ps)" "0 < max_history l" "map_of (co_connections co) i = Some (a, None)"
    and "idle (co_limits co) a" "hello_fits (co_limits co) h"
    and f: "f = \<lparr>wf_message = MI_HELLO, wf_payload = encode_hello h\<rparr>" "sendable (co_limits co) f"
    and "length (frame_bytes (co_limits co) f) + 19 + max_frame_bytes (co_limits co) \<le> max_wire_assembly_bytes (co_limits co)"
    and "fst (rt_register_publisher (hello_session h) (co_runtime co)) \<noteq> AS_ACCEPTED"
  shows "current_with (co_runtime (peer_gone e' i (snd (receive (\<lambda>_. e) e0 i (frame_bytes (co_limits co) f) co))))
      (\<lambda>p. pn_boot (dpf_provenance p) = hp_boot h) = {} \<and>
    is_fenced (rt_publication (co_runtime (peer_gone e' i (snd (receive (\<lambda>_. e) e0 i (frame_bytes (co_limits co) f) co))))) (hp_boot h)"
proof -
  let ?l = "co_limits co"
  obtain outs co' where handled: "handle_hello h co = (outs, Some (hp_boot h), co')" "co_connections co' = co_connections co"
    using handle_hello_result [of h co] by blast
  have "handle_frame e f (None, co) = (outs, Some (hp_boot h), co')"
    using handle_hello_frame [OF refl assms(5)] f(1) handled(1) by simp
  then obtain a' where received: "receive (\<lambda>_. e) e0 i (frame_bytes ?l f) co = (outs, set_connection i (a', Some (hp_boot h)) co')"
    using receive_frame [OF assms(3,4) f(2) assms(8)] by blast
  let ?mid = "set_connection i (a', Some (hp_boot h)) co'"
  have "coordinator_step (fitting P) (co, ps) (?mid, ps)"
    using coordinator_step.receive [of "fitting P" co ps "\<lambda>_. e" e0 i "frame_bytes ?l f"] by (simp add: received)
  then have "coordinator_reachable P l (?mid, ps)" by (intro coordinator_reachable_steps [OF assms(1)] r_into_rtranclp)
  moreover have "map_of (co_connections ?mid) i = Some (a', Some (hp_boot h))"
    using map_of_set_connection [of co' i "(a, None)"] assms(3) handled(2) by simp
  ultimately have "quiet (hp_boot h) (co_runtime (peer_gone e' i ?mid))" by (rule peer_gone_quiet [OF _ assms(2)])
  then show ?thesis using received by (auto simp: quiet_def current_with_def stored_proof_def)
qed

text \<open>Between the listing and the fence the list is ahead of the runtime.\<close>

lemma listed_before_fenced:
  assumes "coordinator_reachable P l (co, ps)" "id_valid b" "\<not> is_fenced (rt_publication (co_runtime co)) b"
  shows "coordinator_reachable P l (list_fenced b co, Listed b # ps) \<and> b \<in> set (co_fenced (list_fenced b co)) \<and>
    \<not> is_fenced (rt_publication (co_runtime (list_fenced b co))) b"
  using coordinator_reachable_steps [OF assms(1) r_into_rtranclp [of "coordinator_step (fitting P)", OF coordinator_step.listed [OF assms(2)]]] assms(3)
  by simp

text \<open>A FENCE request is acknowledged before it is durable: the boot is fenced and its proofs are demoted in memory,
  and PONG is sent, but the store file is left as it was, so a restart from it brings the boot back.\<close>

theorem fence_is_not_persisted:
  assumes "coordinator_reachable P l (co, ps)" "0 < max_history l" "id_fits (co_limits co) worker_boot_id_max b"
  shows "handle_frame e \<lparr>wf_message = MI_FENCE, wf_payload = put_text (id_view b)\<rparr> (boot, co) =
      (send_message (publication_fence b co) MI_PONG [], boot, publication_fence b co) \<and>
    is_fenced (rt_publication (co_runtime (publication_fence b co))) b \<and>
    current_with (co_runtime (publication_fence b co)) (\<lambda>p. pn_boot (dpf_provenance p) = b) = {} \<and>
    (\<forall>r\<in>set (send_message (publication_fence b co) MI_PONG []). rp_disk r = co_files co)"
proof -
  have "whole (get_text (max_identity_length (co_limits co))) (put_text (id_view b)) = Some (id_view b)"
    "id_from_wire worker_boot_id_max (id_view b) = Some b"
    using assms(3) by (auto simp: id_fits_def id_from_wire_def try_parse_Some text_fits_def valid_identity_text_length
        intro!: whole_put text_codec.decode_encode)
  moreover have "quiet b (co_runtime (publication_fence b co))"
    using coordinator_reachable_inv [OF assms(1,2)] assms(2,3)
    by (intro publication_fence_holds [where P = "fitting P" and ps = ps]) (auto simp: coordinator_inv_def dest: fits_valid)
  ultimately show ?thesis
    by (auto simp: handle_frame_def handle_fence_def send_message_def Let_def quiet_def current_with_def stored_proof_def)
qed

section \<open>A sample coordinator\<close>

definition sample_env :: env where
  "sample_env = \<lparr>en_before = sample_views, en_behind = sample_views, en_write = WO_Done, en_process = 0, en_tag = 0\<rparr>"

definition sample_coordinator :: coordinator where
  "sample_coordinator = accept_connection 0 (new_coordinator sample_runtime default_limits (\<lambda>_. None))"

definition sample_hello :: "u64 \<Rightarrow> hello_payload" where
  "sample_hello epoch =
     \<lparr>hp_publisher = StringId ''pub'', hp_boot = StringId ''b1'', hp_epoch = Generation epoch, hp_scope = StringId ''s''\<rparr>"

definition sample_hello_bytes :: "u64 \<Rightarrow> bytes" where
  "sample_hello_bytes epoch = frame_bytes default_limits \<lparr>wf_message = MI_HELLO, wf_payload = encode_hello (sample_hello epoch)\<rparr>"

lemma sample_coordinator_fields:
  "coordinator_reachable P sample_limits (sample_coordinator, [])" "co_limits sample_coordinator = default_limits"
  "map_of (co_connections sample_coordinator) 0 = Some (new_assembler default_limits, None)" "idle default_limits (new_assembler default_limits)"
  "co_runtime sample_coordinator = sample_runtime" "co_store_path sample_coordinator = []"
proof -
  have "(coordinator_step (fitting P))\<^sup>*\<^sup>* (new_coordinator sample_runtime default_limits (\<lambda>_. None), []) (sample_coordinator, [])"
    unfolding sample_coordinator_def
    by (rule r_into_rtranclp, rule coordinator_step.accept) (simp add: new_coordinator_def)
  then show "coordinator_reachable P sample_limits (sample_coordinator, [])"
    using sample_runtime_reachable(1) unfolding coordinator_reachable_def by blast
qed (simp_all add: sample_coordinator_def accept_connection_def new_coordinator_def idle_def new_assembler_def unread_def default_limits_def)

lemma sample_hello_fits:
  "hello_fits default_limits (sample_hello epoch)"
  "sendable default_limits \<lparr>wf_message = MI_HELLO, wf_payload = encode_hello (sample_hello epoch)\<rparr>"
  "length (frame_bytes default_limits \<lparr>wf_message = MI_HELLO, wf_payload = encode_hello (sample_hello epoch)\<rparr>) + 19 +
    max_frame_bytes default_limits \<le> max_wire_assembly_bytes default_limits"
proof -
  show "hello_fits default_limits (sample_hello epoch)"
    using sample_wire_identities by (simp add: hello_fits_def sample_hello_def)
  have payload: "length (encode_hello (sample_hello epoch)) < 100"
    by (simp add: encode_hello_def sample_hello_def write_id_def put_text_def put_generation_def put_u64_def put_bytes_def put_varint.simps [of 1] put_varint.simps [of 2] put_varint.simps [of 3])
  then show sendable: "sendable default_limits \<lparr>wf_message = MI_HELLO, wf_payload = encode_hello (sample_hello epoch)\<rparr>"
    by (simp add: sendable_def) (simp add: default_limits_def message_id_code_def is_reserved_message_def)
  show "length (frame_bytes default_limits \<lparr>wf_message = MI_HELLO, wf_payload = encode_hello (sample_hello epoch)\<rparr>) + 19 +
    max_frame_bytes default_limits \<le> max_wire_assembly_bytes default_limits"
    using payload length_frame_bytes [OF sendable] by (simp add: kWireHeaderBytes_def) (simp add: default_limits_def)
qed

lemma sample_hello_received:
  assumes "rt_register_publisher (hello_session (sample_hello epoch)) sample_runtime = (status, rt)"
  shows "\<exists>a outs. receive (\<lambda>_. sample_env) sample_env 0 (sample_hello_bytes epoch) sample_coordinator =
    (outs, set_connection 0 (a, Some (StringId ''b1''))
      (sample_coordinator\<lparr>co_runtime := rt,
         co_sessions := co_sessions sample_coordinator @ [(hello_session (sample_hello epoch))\<lparr>ps_fenced := (status \<noteq> AS_ACCEPTED)\<rparr>]\<rparr>))"
proof -
  obtain outs where "handle_frame sample_env \<lparr>wf_message = MI_HELLO, wf_payload = encode_hello (sample_hello epoch)\<rparr> (None, sample_coordinator) =
      (outs, Some (StringId ''b1''), sample_coordinator\<lparr>co_runtime := rt,
         co_sessions := co_sessions sample_coordinator @ [(hello_session (sample_hello epoch))\<lparr>ps_fenced := (status \<noteq> AS_ACCEPTED)\<rparr>]\<rparr>)"
    using assms handle_hello_frame [OF sample_coordinator_fields(2) sample_hello_fits(1)]
    by (simp add: handle_hello_def Let_def hello_session_def sample_hello_def sample_coordinator_fields)
  from receive_frame [OF sample_coordinator_fields(3,4) sample_hello_fits(2,3) this, of sample_env] show ?thesis
    unfolding sample_hello_bytes_def by blast
qed

definition sample_served :: coordinator where
  "sample_served = snd (receive (\<lambda>_. sample_env) sample_env 0 (sample_hello_bytes 1) sample_coordinator)"

lemma sample_served_fields:
  "coordinator_reachable P sample_limits (sample_served, [])" "\<exists>a. map_of (co_connections sample_served) 0 = Some (a, Some (StringId ''b1''))"
proof -
  show "coordinator_reachable P sample_limits (sample_served, [])"
    unfolding sample_served_def
    by (rule coordinator_reachable_steps [OF sample_coordinator_fields(1)], rule r_into_rtranclp, rule coordinator_step.receive)
  obtain status rt where "rt_register_publisher (hello_session (sample_hello 1)) sample_runtime = (status, rt)"
    by (cases "rt_register_publisher (hello_session (sample_hello 1)) sample_runtime")
  from sample_hello_received [OF this] show "\<exists>a. map_of (co_connections sample_served) 0 = Some (a, Some (StringId ''b1''))"
    using map_of_set_connection [where i = 0] sample_coordinator_fields(3) by (fastforce simp: sample_served_def)
qed

lemma lost_worker_is_fenced_for_good_witness:
  "is_fenced (rt_publication (co_runtime (peer_gone sample_env 0 sample_served))) (StringId ''b1'') \<and>
   current_with (co_runtime (peer_gone sample_env 0 sample_served)) (\<lambda>p. pn_boot (dpf_provenance p) = StringId ''b1'') = {}"
  using sample_served_fields(2)
    lost_worker_is_fenced_for_good [OF sample_served_fields(1) sample_runtime_reachable(2), of 0 _ "StringId ''b1''" "\<lambda>c rt. True" sample_env, OF _ rtranclp.rtrancl_refl]
  by blast

text \<open>A coordinator whose only worker was lost, with the fence of another boot in progress.\<close>

definition sample_listed :: coordinator where
  "sample_listed = list_fenced (StringId ''b2'') (peer_gone sample_env 0 sample_served)"

lemma sample_listed_reachable: "coordinator_reachable P sample_limits (sample_listed, [Listed (StringId ''b2'')])"
proof -
  have "coordinator_reachable P sample_limits (peer_gone sample_env 0 sample_served, [])"
    by (rule coordinator_reachable_steps [OF sample_served_fields(1)], rule r_into_rtranclp, rule coordinator_step.gone)
  moreover have "id_valid (StringId ''b2'' :: worker_boot_id)" by (simp add: id_valid_def valid_identity_text_def)
  ultimately show ?thesis
    unfolding sample_listed_def by (meson coordinator_reachable_steps coordinator_step.listed r_into_rtranclp)
qed


lemma refused_hello_fences_the_named_boot_witness:
  "is_fenced (rt_publication (co_runtime (peer_gone sample_env 0
     (snd (receive (\<lambda>_. sample_env) sample_env 0 (sample_hello_bytes 2) sample_coordinator))))) (StringId ''b1'')"
proof -
  have "fst (rt_register_publisher (hello_session (sample_hello 2)) (co_runtime sample_coordinator)) \<noteq> AS_ACCEPTED"
    by (simp add: sample_coordinator_fields sample_runtime_fields rt_register_publisher_def register_publisher_def hello_session_def
        sample_hello_def split_beta)
  then show ?thesis
    using refused_hello_fences_the_named_boot [OF sample_coordinator_fields(1) sample_runtime_reachable(2) sample_coordinator_fields(3),
        of "sample_hello 2" _ sample_env sample_env sample_env] sample_hello_fits sample_coordinator_fields(2,4)
    by (simp add: sample_hello_bytes_def) (simp add: sample_hello_def)
qed

lemma fence_is_not_persisted_witness:
  "is_fenced (rt_publication (co_runtime (publication_fence (StringId ''b1'') sample_coordinator))) (StringId ''b1'') \<and>
   co_files (publication_fence (StringId ''b1'') sample_coordinator) = co_files sample_coordinator"
proof -
  have "id_fits (co_limits sample_coordinator) worker_boot_id_max (StringId ''b1'' :: worker_boot_id)"
    by (simp add: sample_coordinator_fields sample_wire_identities)
  then show ?thesis
    using fence_is_not_persisted [OF sample_coordinator_fields(1) sample_runtime_reachable(2), of "StringId ''b1''" sample_env None] by simp
qed

section \<open>A remote call is a local call\<close>


definition sample_client :: client where
  "sample_client = snd (cl_connect True (new_client default_limits))"

definition sample_call :: wire_frame where
  "sample_call = call_frame (sample_acting ''b1'' ''t1'') (Call_Revalidate (StringId ''d''))"

definition sample_call_result :: mutation_result where
  "sample_call_result = mutation_result MS_NOT_FOUND ''no proof is stored under this identity''"

lemma sample_call_local:
  "fst (call_local sample_env (sample_acting ''b1'' ''t1'') (Call_Revalidate (StringId ''d'')) sample_runtime) = sample_call_result"
  by (simp add: revalidate_def sample_call_result_def sample_runtime_fields)

lemma sample_call_sizes: "length (wf_payload sample_call) < 100" "length (encode_mutation_result (mutation_payload sample_call_result)) < 200"
  by code_simp+

lemma sample_sendable:
  assumes "length (wf_payload f) < 200" "wf_message f = MI_REVALIDATE \<or> wf_message f = MI_PUBLISH_PROOF"
  shows "sendable default_limits f" "chunked default_limits [frame_bytes default_limits f] (frame_bytes default_limits f)"
proof -
  show s: "sendable default_limits f"
    using assms by (auto simp: sendable_def message_id_code_def is_reserved_message_def) (simp_all add: default_limits_def)
  show "chunked default_limits [frame_bytes default_limits f] (frame_bytes default_limits f)"
    using assms length_frame_bytes [OF s] by (simp add: chunked_def kWireHeaderBytes_def) (simp add: default_limits_def)
qed

text \<open>The coordinator with a store.\<close>

definition sample_storing :: coordinator where
  "sample_storing = set_store_path ''store'' sample_coordinator"

lemma sample_storing_fields:
  "co_limits sample_storing = default_limits" "co_runtime sample_storing = sample_runtime" "co_store_path sample_storing = ''store''"
  by (simp_all add: sample_storing_def set_store_path_def sample_coordinator_fields)


end
