(* ===== verification/Transport.thy ===== *)
theory Transport
  imports Distributed
begin

text \<open>
  The transport under the coordinator and the client, the socket half of \<open>src/distributed.cpp\<close>: sending all bytes of a
  frame, receiving one chunk, opening and closing sockets, starting to listen, and the bounded wait for fenced
  workers. The calls of the operating system are parameters: a socket is a state \<open>'s\<close> of the environment, a send
  answers how many bytes it accepted, a receive answers how many bytes it put into the buffer it was given, both
  nothing positive when the connection is gone; and either may block for ever, for the code sets no timeout. The
  last section shows that a request over such a socket is the request of \<open>Distributed\<close>, and that it ends unless a
  system call blocks for ever.
\<close>

section \<open>Sending and receiving\<close>

text \<open>A system call, or what is made of them, returns or blocks for ever.\<close>

datatype 'a call = Returns 'a | Blocks

type_synonym 's send_call = "bytes \<Rightarrow> 's \<Rightarrow> (int \<times> 's) call"
type_synonym 's recv_call = "nat \<Rightarrow> 's \<Rightarrow> (int \<times> bytes \<times> 's) call"

function send_all :: "'s send_call \<Rightarrow> bytes \<Rightarrow> nat \<Rightarrow> 's \<Rightarrow> (bool \<times> 's) call" where
  "send_all send data sent s =
     (if sent < length data
      then let chunk = (if length data - sent > 65536 then 65536 else length data - sent)
        in case send (take chunk (drop sent data)) s of
             Blocks \<Rightarrow> Blocks
           | Returns (accepted, s) \<Rightarrow>
               if accepted \<le> 0 then Returns (False, s) else send_all send data (sent + nat accepted) s
      else Returns (True, s))"
  by pat_completeness auto
termination
  by (relation "measure (\<lambda>(send, data, sent, s). length data - sent)") auto

declare send_all.simps [simp del]

definition kReceiveChunkBytes :: nat where "kReceiveChunkBytes = 16384"

text \<open>The buffer grows by a full chunk before the call and shrinks to what was read.\<close>

definition recv_some :: "'s recv_call \<Rightarrow> bytes \<Rightarrow> 's \<Rightarrow> (bool \<times> bytes \<times> 's) call" where
  "recv_some recv buffer s =
     (case recv kReceiveChunkBytes s of
        Blocks \<Rightarrow> Blocks
      | Returns (got, filled, s) \<Rightarrow>
          Returns (if got \<le> 0 then (False, buffer, s) else (True, buffer @ take (nat got) filled, s)))"

section \<open>The client's request\<close>

text \<open>The loop may run for ever, which would be the value None; a system call in it may block, which is \<open>Some Blocks\<close>.\<close>

partial_function (option) await_over ::
  "'s recv_call \<Rightarrow> assembler \<Rightarrow> bytes \<Rightarrow> 's \<Rightarrow> (wire_frame option \<times> assembler \<times> bytes \<times> 's) call option" where
  "await_over recv a scratch s =
     (case as_next a of
        (Inr f, a) \<Rightarrow> Some (Returns (Some f, a, scratch, s))
      | (Inl status, a) \<Rightarrow>
          if as_status a \<noteq> WS_OK then Some (Returns (None, a, scratch, s))
          else case recv_some recv scratch s of
              Blocks \<Rightarrow> Some Blocks
            | Returns (alive, scratch, s) \<Rightarrow>
                if \<not> alive then Some (Returns (None, a, scratch, s)) else await_over recv (as_append scratch a) [] s)"

definition request_over ::
  "'s send_call \<Rightarrow> 's recv_call \<Rightarrow> message_id \<Rightarrow> bytes \<Rightarrow> client \<times> bytes \<times> 's \<Rightarrow>
     (wire_frame option \<times> client \<times> bytes \<times> 's) call option" where
  "request_over send recv message payload st = (case st of (c, scratch, s) \<Rightarrow>
     if \<not> cl_connected c then Some (Returns (None, c, scratch, s))
     else let bs = encode_frame message payload (cl_limits c)
       in if bs = [] then Some (Returns (None, c, scratch, s))
          else case send_all send bs 0 s of
              Blocks \<Rightarrow> Some Blocks
            | Returns (delivered, s) \<Rightarrow>
                if \<not> delivered then Some (Returns (None, c, scratch, s))
                else map_option (map_call (\<lambda>(reply, a, scratch, s).
                    (reply, (if reply = None then c\<lparr>cl_assembler := a\<rparr>
                             else c\<lparr>cl_assembler := a, cl_round_trips := cl_round_trips c + 1\<rparr>), scratch, s)))
                  (await_over recv (cl_assembler c) scratch s))"

section \<open>Sockets\<close>

text \<open>The open handles of the process. Closing a handle that was never valid does nothing.\<close>

definition close_socket :: "nat option \<Rightarrow> nat list \<Rightarrow> nat list" where
  "close_socket handle opened = (case handle of None \<Rightarrow> opened | Some h \<Rightarrow> remove1 h opened)"

text \<open>What the operating system answers: whether the socket library is there, the handle of a new socket, and whether
  each of the other calls succeeds; the port is the one the system reports, if it does.\<close>

record socket_env =
  sk_ready :: bool
  sk_handle :: "nat option"
  sk_address :: bool
  sk_bound :: bool
  sk_listening :: bool
  sk_connected :: bool
  sk_port :: "u16 option"

definition open_socket :: "socket_env \<Rightarrow> nat list \<Rightarrow> nat list" where
  "open_socket e opened = (case sk_handle e of None \<Rightarrow> opened | Some h \<Rightarrow> h # opened)"

definition connect_loopback :: "socket_env \<Rightarrow> nat list \<Rightarrow> nat option \<times> nat list" where
  "connect_loopback e opened =
     (if \<not> sk_ready e then (None, opened)
      else let opened = open_socket e opened
        in if sk_handle e = None then (None, opened)
           else if \<not> sk_address e then (None, close_socket (sk_handle e) opened)
           else if \<not> sk_connected e then (None, close_socket (sk_handle e) opened)
           else (sk_handle e, opened))"

record listener =
  ln_running :: bool
  ln_port :: u16
  ln_socket :: "nat option"
  ln_opened :: "nat list"

definition start_listening :: "socket_env \<Rightarrow> u16 \<Rightarrow> listener \<Rightarrow> transport_status \<times> listener" where
  "start_listening e port ln =
     (if ln_running ln then (TS_ALREADY_STARTED, ln)
      else if \<not> sk_ready e then (TS_BIND_FAILED, ln)
      else let ln = ln\<lparr>ln_opened := open_socket e (ln_opened ln)\<rparr>;
             refused = ln\<lparr>ln_opened := close_socket (sk_handle e) (ln_opened ln)\<rparr>
        in if sk_handle e = None then (TS_BIND_FAILED, ln)
           else if \<not> sk_address e then (TS_BIND_FAILED, refused)
           else if \<not> sk_bound e then (TS_BIND_FAILED, refused)
           else if \<not> sk_listening e then (TS_LISTEN_FAILED, refused)
           else (TS_OK, ln\<lparr>ln_port := (case sk_port e of Some p \<Rightarrow> p | None \<Rightarrow> port), ln_socket := sk_handle e, ln_running := True\<rparr>))"

definition stop_listening :: "listener \<Rightarrow> listener" where
  "stop_listening ln =
     ln\<lparr>ln_running := False, ln_opened := close_socket (ln_socket ln) (ln_opened ln), ln_socket := None\<rparr>"

section \<open>The bounded wait\<close>

text \<open>The state of the coordinator and the clock, in milliseconds, at the n-th look.\<close>

partial_function (option) wait_loop ::
  "(nat \<Rightarrow> coordinator) \<Rightarrow> (nat \<Rightarrow> nat) \<Rightarrow> nat \<Rightarrow> nat \<Rightarrow> nat \<Rightarrow> bool option" where
  "wait_loop look clock deadline expected n =
     (if all_fenced expected (look n) then Some True
      else if deadline \<le> clock n then Some False
      else wait_loop look clock deadline expected (Suc n))"

definition wait_for_fenced_workers :: "(nat \<Rightarrow> coordinator) \<Rightarrow> (nat \<Rightarrow> nat) \<Rightarrow> nat \<Rightarrow> nat \<Rightarrow> bool option" where
  "wait_for_fenced_workers look clock start expected = wait_loop look clock (start + 30000) expected 0"

section \<open>Contracts of the operating system\<close>

text \<open>What is documented of a stream socket: a send accepts a prefix of what it was given, and nothing when it fails, and
  what was accepted is put behind what the peer is sent already; a receive fills at most the buffer it was given. That
  either returns is not promised.\<close>

definition sends_prefixes :: "('s \<Rightarrow> bytes) \<Rightarrow> 's send_call \<Rightarrow> bool" where
  "sends_prefixes stream send \<longleftrightarrow>
     (\<forall>bs s n s'. send bs s = Returns (n, s') \<longrightarrow> n \<le> int (length bs) \<and> stream s' = stream s @ take (nat n) bs)"

definition fills_buffers :: "('s \<Rightarrow> bytes) \<Rightarrow> 's recv_call \<Rightarrow> bool" where
  "fills_buffers stream recv \<longleftrightarrow>
     (\<forall>size s n filled s'. recv size s = Returns (n, filled, s') \<longrightarrow> n \<le> int size \<and> length filled = size \<and> stream s' = stream s)"

section \<open>Nothing is lost, reordered or sent twice\<close>

text \<open>What has become of the data: it is sent up to \<open>k\<close>, and the system call after that blocked.\<close>

definition send_blocked :: "('s \<Rightarrow> bytes) \<Rightarrow> 's send_call \<Rightarrow> bytes \<Rightarrow> 's \<Rightarrow> bool" where
  "send_blocked stream send data s \<longleftrightarrow>
     (\<exists>k s1 bs. k < length data \<and> stream s1 = stream s @ take k data \<and> bs \<noteq> [] \<and> send bs s1 = Blocks)"

lemma send_all_from:
  assumes "sends_prefixes stream send" "sent \<le> length data" "stream s = base @ take sent data"
  shows "case send_all send data sent s of
      Returns (delivered, s') \<Rightarrow> \<exists>k. k \<le> length data \<and> (delivered \<longleftrightarrow> k = length data) \<and> stream s' = base @ take k data
    | Blocks \<Rightarrow> \<exists>k s1 bs. k < length data \<and> stream s1 = base @ take k data \<and> bs \<noteq> [] \<and> send bs s1 = Blocks"
  using assms(2,3)
proof (induction "length data - sent" arbitrary: sent s rule: less_induct)
  case less
  show ?case
  proof (cases "sent < length data")
    case False
    then show ?thesis using less.prems by (auto simp: send_all.simps intro: exI [of _ "length data"])
  next
    case True
    define chunk where "chunk = (if length data - sent > 65536 then 65536 else length data - sent)"
    have size: "chunk \<le> length data - sent" "0 < chunk" using True by (simp_all add: chunk_def)
    show ?thesis
    proof (cases "send (take chunk (drop sent data)) s")
      case Blocks
      have "take chunk (drop sent data) \<noteq> []" using True size by simp
      moreover have "send_all send data sent s = Blocks"
        using True Blocks by (simp add: send_all.simps [of _ _ sent] chunk_def [symmetric])
      ultimately show ?thesis using Blocks True less.prems(2) by (simp, intro exI [of _ sent] conjI exI [of _ s] exI [of _ "take chunk (drop sent data)"]) simp_all
    next
      case (Returns r)
      then obtain n s1 where n: "send (take chunk (drop sent data)) s = Returns (n, s1)" by (cases r) simp
      then have step: "n \<le> int chunk" "stream s1 = stream s @ take (nat n) (take chunk (drop sent data))"
        using assms(1) size True by (fastforce simp: sends_prefixes_def)+
      then have sent: "stream s1 = base @ take (sent + nat n) data"
        using less.prems(2) by (simp add: take_add min_def)
      show ?thesis
      proof (cases "n \<le> 0")
        case True
        then have "send_all send data sent s = Returns (False, s1)"
          using \<open>sent < length data\<close> n by (simp add: send_all.simps [of _ _ sent] chunk_def [symmetric])
        then show ?thesis using sent True \<open>sent < length data\<close> by (auto intro: exI [of _ sent])
      next
        case False
        then have rest: "send_all send data sent s = send_all send data (sent + nat n) s1"
          using True n by (simp add: send_all.simps [of _ _ sent] chunk_def [symmetric])
        have "length data - (sent + nat n) < length data - sent" "sent + nat n \<le> length data"
          using False True step(1) size by linarith+
        from less.hyps [OF this sent] show ?thesis unfolding rest .
      qed
    qed
  qed
qed

text \<open>Whatever the system accepts of each chunk, the peer is sent a prefix of the data, in order and once, and the send
  succeeds exactly when that prefix is everything; it does not return only when a call for the rest blocks.\<close>

theorem send_all_is_exact:
  assumes "sends_prefixes stream send"
  shows "case send_all send data 0 s of
      Returns (delivered, s') \<Rightarrow> \<exists>k \<le> length data. stream s' = stream s @ take k data \<and> (delivered \<longleftrightarrow> k = length data)
    | Blocks \<Rightarrow> send_blocked stream send data s"
  using send_all_from [OF assms, of 0 data s "stream s"] by (auto simp: send_blocked_def split: call.splits)

section \<open>A request over a socket is the request of the model\<close>

definition room :: "assembler \<Rightarrow> nat" where
  "room a = (if as_status a \<noteq> WS_OK then 0 else Suc (Suc (max_wire_assembly_bytes (as_limits a)) - length (unread a)))"

lemma next_incomplete:
  "as_next a = (Inl status, a') \<Longrightarrow> as_status a' = WS_OK \<Longrightarrow> as_status a = WS_OK \<and> a' = a"
  by (auto simp: as_next_def Let_def split: if_splits sum.splits)

lemma room_append:
  assumes "as_status a = WS_OK" "data \<noteq> []"
  shows "room (as_append data a) < room a"
proof -
  have "Suc b - (m + length data) < Suc b - m" if "\<not> b < m + length data" for b m
    using that assms(2) by (cases data) (simp_all add: Suc_diff_le)
  from this [of "max_wire_assembly_bytes (as_limits a)" "length (as_buffer a) - as_consumed a"]
  show ?thesis using assms(1) by (auto simp: room_def as_append_def unread_def Let_def)
qed

definition socket_chunk :: "bytes \<Rightarrow> bool" where
  "socket_chunk c \<longleftrightarrow> c \<noteq> [] \<and> length c \<le> kReceiveChunkBytes"

text \<open>Waiting for a reply: what was received so far neither is a frame nor breaks the stream, and the next receive blocks.\<close>

definition receive_blocked :: "'s recv_call \<Rightarrow> bytes list \<Rightarrow> assembler \<Rightarrow> 's \<Rightarrow> bool" where
  "receive_blocked recv chunks a s \<longleftrightarrow>
     list_all socket_chunk chunks \<and> (\<exists>a'. await_reply chunks a = (None, [], a') \<and> as_status a' = WS_OK) \<and>
     recv kReceiveChunkBytes s = Blocks"

lemma await_over_outcome:
  assumes "fills_buffers stream recv"
  shows "\<exists>outcome. await_over recv a [] s = Some outcome \<and>
    (case outcome of
       Returns (reply, a', scratch, s') \<Rightarrow> scratch = [] \<and> stream s' = stream s \<and>
         (\<exists>chunks. list_all socket_chunk chunks \<and> await_reply chunks a = (reply, [], a'))
     | Blocks \<Rightarrow> \<exists>chunks s'. receive_blocked recv chunks a s' \<and> stream s' = stream s)"
proof (induction "room a" arbitrary: a s rule: less_induct)
  case less
  obtain r a1 where step: "as_next a = (r, a1)" by fastforce
  show ?case
  proof (cases r)
    case (Inr f)
    then show ?thesis using step by (auto simp: await_over.simps [of _ a] intro!: exI [of _ "[]"])
  next
    case (Inl status)
    show ?thesis
    proof (cases "as_status a1 = WS_OK")
      case False
      then show ?thesis using step Inl by (auto simp: await_over.simps [of _ a] intro!: exI [of _ "[]"])
    next
      case True
      then have a: "as_status a = WS_OK" "a1 = a" using next_incomplete step Inl by blast+
      show ?thesis
      proof (cases "recv kReceiveChunkBytes s")
        case Blocks
        then have "receive_blocked recv [] a s" using step Inl a by (simp add: receive_blocked_def)
        moreover have "await_over recv a [] s = Some Blocks"
          using step Inl a Blocks by (simp add: await_over.simps [of _ a] recv_some_def)
        ultimately show ?thesis by auto
      next
        case (Returns res)
        then obtain got filled s1 where recv: "recv kReceiveChunkBytes s = Returns (got, filled, s1)" by (cases res) simp
        then have got: "got \<le> int kReceiveChunkBytes" "length filled = kReceiveChunkBytes" "stream s1 = stream s"
          using assms by (auto simp: fills_buffers_def)
        show ?thesis
        proof (cases "got \<le> 0")
          case True
          then show ?thesis using step Inl a recv got(3)
            by (auto simp: await_over.simps [of _ a] recv_some_def intro!: exI [of _ "[]"])
        next
          case False
          define data where "data = take (nat got) filled"
          have data: "socket_chunk data" "data \<noteq> []" using False got by (auto simp: data_def socket_chunk_def)
          have unfold: "await_over recv a [] s = await_over recv (as_append data a) [] s1"
            using step Inl a False recv by (simp add: await_over.simps [of _ a] recv_some_def data_def)
          have one: "await_reply (data # chunks) a = await_reply chunks (as_append data a)" for chunks
            using step Inl a by simp
          from less.hyps [OF room_append [OF a(1) data(2)], of s1] obtain outcome where
            outcome: "await_over recv (as_append data a) [] s1 = Some outcome"
              "case outcome of
                 Returns (reply, a', scratch, s') \<Rightarrow> scratch = [] \<and> stream s' = stream s1 \<and>
                   (\<exists>chunks. list_all socket_chunk chunks \<and> await_reply chunks (as_append data a) = (reply, [], a'))
               | Blocks \<Rightarrow> \<exists>chunks s'. receive_blocked recv chunks (as_append data a) s' \<and> stream s' = stream s1" by blast
          show ?thesis
          proof (cases outcome)
            case Blocks
            then obtain chunks s' where "receive_blocked recv chunks (as_append data a) s'" "stream s' = stream s1"
              using outcome(2) by auto
            then have "receive_blocked recv (data # chunks) a s'" "stream s' = stream s"
              using data got(3) by (simp_all add: receive_blocked_def one del: await_reply.simps)
            then show ?thesis using unfold outcome(1) Blocks by auto
          next
            case (Returns res)
            then obtain reply a' s' chunks where "res = (reply, a', [], s')" "stream s' = stream s" "list_all socket_chunk chunks"
                "await_reply chunks (as_append data a) = (reply, [], a')"
              using outcome(2) got(3) by (cases res) auto
            then show ?thesis using unfold outcome(1) Returns data one [of chunks]
              by (auto simp del: await_reply.simps intro!: exI [of _ "data # chunks"])
          qed
        qed
      qed
    qed
  qed
qed


text \<open>A socket that accepts five bytes at a time. Its peer hangs up, or is silent for ever.\<close>

definition slow_send :: "bytes send_call" where
  "slow_send bs s = Returns (int (min 5 (length bs)), s @ take 5 bs)"

definition hung_up_recv :: "bytes recv_call" where
  "hung_up_recv n s = Returns (0, replicate n 0, s)"

definition silent_recv :: "bytes recv_call" where
  "silent_recv n s = Blocks"

lemma slow_sockets: "sends_prefixes id slow_send" "fills_buffers id hung_up_recv" "fills_buffers id silent_recv"
  by (auto simp: sends_prefixes_def slow_send_def fills_buffers_def hung_up_recv_def silent_recv_def min_def)

lemma slow_sockets_return: "\<not> send_blocked stream slow_send data s" "\<not> receive_blocked hung_up_recv chunks a s"
  by (simp_all add: send_blocked_def slow_send_def receive_blocked_def hung_up_recv_def)


section \<open>Sockets are not leaked\<close>

text \<open>A coordinator that does not start is what it was before, no socket left open, and says why; one that starts has one
  more socket, listens on the port the system reports, and after it was stopped that socket is closed again.\<close>

theorem refused_start_changes_nothing:
  "(case start_listening e port ln of (status, ln') \<Rightarrow>
     if status = TS_OK
     then ln_running ln' \<and> \<not> ln_running ln \<and> ln_socket ln' = sk_handle e \<and>
       ln_port ln' = (case sk_port e of None \<Rightarrow> port | Some p \<Rightarrow> p) \<and> ln_opened (stop_listening ln') = ln_opened ln
     else ln' = ln \<and> (status = TS_ALREADY_STARTED \<longleftrightarrow> ln_running ln))"
  by (auto simp: start_listening_def stop_listening_def open_socket_def close_socket_def Let_def split: option.splits)

theorem refused_connect_leaks_no_socket:
  "(case connect_loopback e opened of (None, opened') \<Rightarrow> opened' = opened | (Some h, opened') \<Rightarrow> opened' = h # opened)"
  by (auto simp: connect_loopback_def open_socket_def close_socket_def Let_def split: option.splits)

section \<open>The wait is bounded\<close>

lemma wait_loop_ends:
  assumes "n \<le> m" "deadline \<le> clock m"
  shows "\<exists>j \<le> m. n \<le> j \<and> wait_loop look clock deadline expected n = Some (all_fenced expected (look j)) \<and>
    (\<forall>i. n \<le> i \<and> i < j \<longrightarrow> \<not> all_fenced expected (look i) \<and> clock i < deadline) \<and>
    (all_fenced expected (look j) \<or> deadline \<le> clock j)"
  using assms(1)
proof (induction n rule: inc_induct)
  case base
  then show ?case using assms(2) by (intro exI [of _ m]) (auto simp: wait_loop.simps [of _ _ _ _ m])
next
  case (step n)
  show ?case
  proof (cases "all_fenced expected (look n) \<or> deadline \<le> clock n")
    case True
    then show ?thesis using step.hyps by (intro exI [of _ n]) (auto simp: wait_loop.simps [of _ _ _ _ n])
  next
    case False
    then have "wait_loop look clock deadline expected n = wait_loop look clock deadline expected (Suc n)"
      by (simp add: wait_loop.simps [of _ _ _ _ n])
    with step.IH obtain j where j: "j \<le> m" "Suc n \<le> j" "wait_loop look clock deadline expected n = Some (all_fenced expected (look j))"
      "\<forall>i. Suc n \<le> i \<and> i < j \<longrightarrow> \<not> all_fenced expected (look i) \<and> clock i < deadline"
      "all_fenced expected (look j) \<or> deadline \<le> clock j" by auto
    have "\<not> all_fenced expected (look i) \<and> clock i < deadline" if "n \<le> i" "i < j" for i
      using that j(4) False by (cases "i = n") auto
    then show ?thesis using j by (intro exI [of _ j]) simp
  qed
qed

text \<open>The wait for fenced workers ends when the clock reaches its deadline of thirty seconds, at the latest. It answers true
  exactly when the workers were fenced at a look at which it ended, and it never gives up before the deadline.\<close>

theorem wait_is_bounded:
  assumes "start + 30000 \<le> clock m"
  shows "\<exists>j \<le> m. wait_for_fenced_workers look clock start expected = Some (all_fenced expected (look j)) \<and>
    (\<forall>i < j. \<not> all_fenced expected (look i)) \<and> (all_fenced expected (look j) \<or> start + 30000 \<le> clock j)"
  using wait_loop_ends [of 0 m "start + 30000" clock look expected] assms by (auto simp: wait_for_fenced_workers_def)

end
