(* ===== verification/Json.thy ===== *)
theory Json
  imports Digest
begin

text \<open>
  The JSON rendering of the command line tool, \<open>jtext\<close>, \<open>jarr\<close>, \<open>jobj\<close>, \<open>jnum\<close> and \<open>jbool\<close> of
  \<open>tools/path_diversity_cli.cpp\<close>: fragments are rendered text that is put together. The second half is the contract
  of these functions: a reader of JSON documents, and the proof that it reads back every document they can build.
\<close>

section \<open>The fragments\<close>

definition jchar :: "char \<Rightarrow> string" where
  "jchar c =
     (if c = CHR 0x22 then [CHR 0x5C, CHR 0x22]
      else if c = CHR 0x5C then [CHR 0x5C, CHR 0x5C]
      else if c = CHR 0x0A then [CHR 0x5C, CHR ''n'']
      else if c = CHR 0x0D then [CHR 0x5C, CHR ''r'']
      else if c = CHR 0x09 then [CHR 0x5C, CHR ''t'']
      else if char_byte c < 0x20
      then CHR 0x5C # ''u00'' @ [hex_digits ! unat (drop_bit 4 (char_byte c) AND 0xf), hex_digits ! unat (char_byte c AND 0xf)]
      else [c])"

definition jtext :: "string \<Rightarrow> string" where
  "jtext s = CHR 0x22 # concat (map jchar s) @ [CHR 0x22]"

definition jnum :: "nat \<Rightarrow> string" where
  "jnum n = decimal n"

definition jbool :: "bool \<Rightarrow> string" where
  "jbool b = (if b then ''true'' else ''false'')"

definition jarr :: "string list \<Rightarrow> string" where
  "jarr items = ''['' @ join '','' items @ '']''"

text \<open>Keys and rendered values alternate; a last key without a value is dropped.\<close>

fun jfields :: "string list \<Rightarrow> string list" where
  "jfields (k # v # parts) = (jtext k @ '':'' @ v) # jfields parts"
| "jfields _ = []"

definition jobj :: "string list \<Rightarrow> string" where
  "jobj parts = ''{'' @ join '','' (jfields parts) @ ''}''"

section \<open>Documents\<close>

datatype json =
    JText string
  | JNum nat
  | JBool bool
  | JArr "json list"
  | JObj "(string \<times> json) list"

fun document :: "json \<Rightarrow> string" where
  "document (JText s) = jtext s"
| "document (JNum n) = jnum n"
| "document (JBool b) = jbool b"
| "document (JArr items) = jarr (map document items)"
| "document (JObj parts) = jobj (concat (map (\<lambda>(k, v). [k, document v]) parts))"

section \<open>A reader\<close>

definition hex_value :: "char \<Rightarrow> nat option" where
  "hex_value c =
     (let n = of_char c
      in if 48 \<le> n \<and> n \<le> 57 then Some (n - 48) else if 97 \<le> n \<and> n \<le> 102 then Some (n - 87)
         else if 65 \<le> n \<and> n \<le> 70 then Some (n - 55) else None)"

fun read_text :: "string \<Rightarrow> (string \<times> string) option" where
  "read_text [] = None"
| "read_text (c # cs) =
     (if c = CHR 0x22 then Some ([], cs)
      else if c = CHR 0x5C
      then (case cs of
          e # rest \<Rightarrow>
            if e = CHR ''u''
            then (case rest of
                a # b # x # y # rest \<Rightarrow>
                  (case (hex_value a, hex_value b, hex_value x, hex_value y) of
                     (Some 0, Some 0, Some p, Some q) \<Rightarrow> map_option (apfst (Cons (char_of (16 * p + q)))) (read_text rest)
                   | _ \<Rightarrow> None)
              | _ \<Rightarrow> None)
            else if e = CHR 0x22 \<or> e = CHR 0x5C \<or> e = CHR ''/'' then map_option (apfst (Cons e)) (read_text rest)
            else if e = CHR ''n'' then map_option (apfst (Cons (CHR 0x0A))) (read_text rest)
            else if e = CHR ''r'' then map_option (apfst (Cons (CHR 0x0D))) (read_text rest)
            else if e = CHR ''t'' then map_option (apfst (Cons (CHR 0x09))) (read_text rest)
            else None
        | [] \<Rightarrow> None)
      else if char_byte c < 0x20 then None
      else map_option (apfst (Cons c)) (read_text cs))"

definition is_digit :: "char \<Rightarrow> bool" where
  "is_digit c \<longleftrightarrow> 48 \<le> (of_char c :: nat) \<and> (of_char c :: nat) \<le> 57"

definition read_number :: "string \<Rightarrow> (nat \<times> string) option" where
  "read_number cs =
     (let ds = takeWhile is_digit cs
      in if ds = [] \<or> hd ds = CHR ''0'' \<and> 1 < length ds then None
         else Some (fold (\<lambda>d n. 10 * n + (of_char d - 48)) ds 0, dropWhile is_digit cs))"

definition expect :: "string \<Rightarrow> string \<Rightarrow> string option" where
  "expect t cs = (if take (length t) cs = t then Some (drop (length t) cs) else None)"

text \<open>Strict JSON without white space. Every call that reads a value has less fuel than the one that made it.\<close>

fun read_value :: "nat \<Rightarrow> string \<Rightarrow> (json \<times> string) option"
  and read_items :: "nat \<Rightarrow> string \<Rightarrow> (json list \<times> string) option"
  and read_members :: "nat \<Rightarrow> string \<Rightarrow> ((string \<times> json) list \<times> string) option" where
  "read_value 0 cs = None"
| "read_value (Suc n) cs =
     (case cs of
        [] \<Rightarrow> None
      | c # rest \<Rightarrow>
          if c = CHR 0x22 then map_option (apfst JText) (read_text rest)
          else if c = CHR ''t'' then map_option (\<lambda>r. (JBool True, r)) (expect ''true'' cs)
          else if c = CHR ''f'' then map_option (\<lambda>r. (JBool False, r)) (expect ''false'' cs)
          else if c = CHR ''[''
          then (case rest of
              [] \<Rightarrow> None
            | d # tail \<Rightarrow> if d = CHR '']'' then Some (JArr [], tail) else map_option (apfst JArr) (read_items n rest))
          else if c = CHR ''{''
          then (case rest of
              [] \<Rightarrow> None
            | d # tail \<Rightarrow> if d = CHR ''}'' then Some (JObj [], tail) else map_option (apfst JObj) (read_members n rest))
          else map_option (apfst JNum) (read_number cs))"
| "read_items 0 cs = None"
| "read_items (Suc n) cs =
     (case read_value n cs of
        Some (v, c # rest) \<Rightarrow>
          if c = CHR '','' then map_option (apfst (Cons v)) (read_items n rest)
          else if c = CHR '']'' then Some ([v], rest) else None
      | _ \<Rightarrow> None)"
| "read_members 0 cs = None"
| "read_members (Suc n) cs =
     (case cs of
        q # body \<Rightarrow>
          if q \<noteq> CHR 0x22 then None
          else (case read_text body of
              Some (k, d # after_key) \<Rightarrow>
                if d \<noteq> CHR '':'' then None
                else (case read_value n after_key of
                    Some (v, c # rest) \<Rightarrow>
                      if c = CHR '','' then map_option (apfst (Cons (k, v))) (read_members n rest)
                      else if c = CHR ''}'' then Some ([(k, v)], rest) else None
                  | _ \<Rightarrow> None)
            | _ \<Rightarrow> None)
      | [] \<Rightarrow> None)"

definition read_document :: "string \<Rightarrow> json option" where
  "read_document cs = (case read_value (Suc (length cs)) cs of Some (v, []) \<Rightarrow> Some v | _ \<Rightarrow> None)"


section \<open>Text reads back\<close>

lemma hex_nibbles:
  "list_all (\<lambda>n. hex_value (hex_digits ! unat (drop_bit 4 (of_nat n :: u8) AND 0xf)) = Some (n div 16) \<and>
     hex_value (hex_digits ! unat ((of_nat n :: u8) AND 0xf)) = Some (n mod 16)) [0..<32]"
  by (simp add: upt_rec hex_value_def hex_digits_def drop_bit_eq_div)

lemma control_nibbles:
  assumes "char_byte c < 0x20"
  shows "hex_value (hex_digits ! unat (drop_bit 4 (char_byte c) AND 0xf)) = Some (of_char c div 16)"
    "hex_value (hex_digits ! unat (char_byte c AND 0xf)) = Some (of_char c mod 16)" "(of_char c :: nat) < 32"
proof -
  have "unat (char_byte c) = (of_char c :: nat)" by (simp add: char_byte_def unat_u8)
  then show small: "(of_char c :: nat) < 32" using assms by (simp add: word_less_nat_alt)
  then have "of_char c \<in> set [0..<32]" by simp
  from bspec [OF hex_nibbles [unfolded list_all_iff] this] show
    "hex_value (hex_digits ! unat (drop_bit 4 (char_byte c) AND 0xf)) = Some (of_char c div 16)"
    "hex_value (hex_digits ! unat (char_byte c AND 0xf)) = Some (of_char c mod 16)"
    by (simp_all add: char_byte_def)
qed

lemma hex_zero: "hex_value (CHR ''0'') = Some 0"
  by (simp add: hex_value_def)

lemma read_text_jchar: "read_text (jchar c @ rest) = map_option (apfst (Cons c)) (read_text rest)"
proof -
  consider "c \<in> {CHR 0x22, CHR 0x5C, CHR 0x0A, CHR 0x0D, CHR 0x09}"
    | "c \<notin> {CHR 0x22, CHR 0x5C, CHR 0x0A, CHR 0x0D, CHR 0x09}" "char_byte c < 0x20"
    | "c \<notin> {CHR 0x22, CHR 0x5C, CHR 0x0A, CHR 0x0D, CHR 0x09}" "\<not> char_byte c < 0x20"
    by blast
  then show ?thesis
  proof cases
    case 1
    then show ?thesis by (auto simp: jchar_def)
  next
    case 2
    note hex = control_nibbles [OF 2(2)]
    have "of_char c div 16 * 16 + of_char c mod 16 = (of_char c :: nat)" by (rule div_mult_mod_eq)
    then have "char_of (16 * (of_char c div 16) + of_char c mod 16 :: nat) = c" by (metis mult.commute char_of_char)
    then show ?thesis using 2 by (simp add: jchar_def hex(1,2) hex_zero)
  next
    case 3
    then show ?thesis by (simp add: jchar_def)
  qed
qed

lemma read_text_jtext: "read_text (concat (map jchar s) @ CHR 0x22 # rest) = Some (s, rest)"
  by (induction s) (simp_all add: read_text_jchar)

section \<open>Numbers read back\<close>

lemma is_digit_char: "d < 10 \<Longrightarrow> is_digit (digit_char d) \<and> (of_char (digit_char d) :: nat) = 48 + d"
  by (simp add: is_digit_def digit_char_def of_char_of)

lemma decimal_digits: "list_all is_digit (decimal n)"
proof (induction n rule: decimal.induct)
  case (1 n)
  then show ?case by (subst decimal.simps) (simp add: is_digit_char)
qed

lemma decimal_value: "fold (\<lambda>d n. 10 * n + (of_char d - 48)) (decimal n) 0 = n"
proof (induction n rule: decimal.induct)
  case (1 n)
  then show ?case by (subst decimal.simps) (simp add: is_digit_char)
qed

lemma decimal_head: "hd (decimal n) = CHR ''0'' \<Longrightarrow> length (decimal n) = 1"
proof (induction n rule: decimal.induct)
  case (1 n)
  show ?case
  proof (cases "n < 10")
    case True
    then show ?thesis by (subst decimal.simps) simp
  next
    case False
    have "hd (decimal (n div 10)) = CHR ''0''" using 1(2) False by (subst (asm) decimal.simps) simp
    then have "length (decimal (n div 10)) = 1" using 1(1) False by blast
    then have "n div 10 < 10" by (subst (asm) decimal.simps) (simp split: if_splits)
    then have "hd (decimal (n div 10)) = digit_char (n div 10)" by (subst decimal.simps) simp
    with \<open>hd (decimal (n div 10)) = CHR ''0''\<close> have "(of_char (CHR ''0'') :: nat) = 48 + n div 10"
      using is_digit_char [OF \<open>n div 10 < 10\<close>] by simp
    then have "n div 10 = 0" by simp
    then show ?thesis using False by simp
  qed
qed

definition ends_number :: "string \<Rightarrow> bool" where
  "ends_number rest \<longleftrightarrow> rest = [] \<or> \<not> is_digit (hd rest)"

lemma read_number_decimal: "ends_number rest \<Longrightarrow> read_number (decimal n @ rest) = Some (n, rest)"
proof -
  assume r: "ends_number rest"
  have "takeWhile is_digit (decimal n @ rest) = decimal n" "dropWhile is_digit (decimal n @ rest) = rest"
    using decimal_digits [of n] r by (cases rest; simp add: list_all_iff ends_number_def)+
  then show ?thesis using decimal_head [of n] by (auto simp: read_number_def Let_def decimal_value)
qed

section \<open>Documents read back\<close>

lemma jfields_pairs: "jfields (concat (map (\<lambda>(k, v). [k, f v]) parts)) = map (\<lambda>(k, v). jtext k @ '':'' @ f v) parts"
  by (induction parts) auto

lemma document_obj: "document (JObj parts) = ''{'' @ join '','' (map (\<lambda>(k, v). jtext k @ '':'' @ document v) parts) @ ''}''"
  by (simp add: jobj_def jfields_pairs)

lemma document_arr: "document (JArr items) = ''['' @ join '','' (map document items) @ '']''"
  by (simp add: jarr_def)

declare document.simps(4,5) [simp del]

lemma decimal_first: "\<exists>d ds. decimal n = d # ds \<and> is_digit d"
  using decimal_digits [of n] by (cases "decimal n") auto

text \<open>What a document starts with.\<close>

lemma document_first: "\<exists>c cs. document j = c # cs \<and> c \<noteq> CHR '']'' \<and> c \<noteq> CHR ''}''"
proof (cases j)
  case (JNum n)
  then show ?thesis using decimal_first [of n] by (auto simp: jnum_def is_digit_def)
qed (auto simp: jtext_def jbool_def document_arr document_obj)

lemma join_first: "xs \<noteq> [] \<Longrightarrow> hd xs = c # cs \<Longrightarrow> \<exists>ds. join sep xs = c # ds"
  by (cases "(sep, xs)" rule: join.cases) auto

lemma read_items_join:
  assumes "\<And>v n rest. v \<in> set vs \<Longrightarrow> length (document v) < n \<Longrightarrow> ends_number rest \<Longrightarrow> read_value n (document v @ rest) = Some (v, rest)"
    and "vs \<noteq> []" "length (join '','' (map document vs)) + 1 < n"
  shows "read_items n (join '','' (map document vs) @ '']'' @ rest) = Some (vs, rest)"
  using assms
proof (induction vs arbitrary: n)
  case (Cons v vs)
  obtain m where n: "n = Suc m" using Cons.prems(3) by (cases n) auto
  show ?case
  proof (cases vs)
    case Nil
    then have "read_value m (document v @ '']'' @ rest) = Some (v, '']'' @ rest)"
      using Cons.prems(1) [of v m "'']'' @ rest"] Cons.prems(3) by (simp add: n ends_number_def is_digit_def)
    then show ?thesis by (simp add: Nil n)
  next
    case (Cons w ws)
    have join: "join '','' (map document (v # vs)) = document v @ '','' @ join '','' (map document vs)"
      by (simp add: Cons)
    have "read_items m (join '','' (map document vs) @ '']'' @ rest) = Some (vs, rest)"
      using Cons.IH [of m] Cons.prems(1) Cons.prems(3) Cons by (simp add: n join)
    moreover have "length (document v) < m" using Cons.prems(3) by (simp only: n join length_append)
    then have "read_value m (document v @ '','' @ join '','' (map document vs) @ '']'' @ rest) =
        Some (v, '','' @ join '','' (map document vs) @ '']'' @ rest)"
      using Cons.prems(1) [of v m] by (simp add: ends_number_def is_digit_def)
    ultimately show ?thesis by (simp only: n join append_assoc) simp
  qed
qed simp


lemma read_members_join:
  assumes "\<And>k v n rest. (k, v) \<in> set es \<Longrightarrow> length (document v) < n \<Longrightarrow> ends_number rest \<Longrightarrow>
      read_value n (document v @ rest) = Some (v, rest)"
    and "es \<noteq> []" "length (join '','' (map (\<lambda>(k, v). jtext k @ '':'' @ document v) es)) + 1 < n"
  shows "read_members n (join '','' (map (\<lambda>(k, v). jtext k @ '':'' @ document v) es) @ ''}'' @ rest) = Some (es, rest)"
  using assms
proof (induction es arbitrary: n)
  case (Cons e es)
  obtain m where n: "n = Suc m" using Cons.prems(3) by (cases n) auto
  obtain k v where e: "e = (k, v)" by (cases e)
  have key: "jtext k @ t = CHR 0x22 # concat (map jchar k) @ CHR 0x22 # t" for t by (simp add: jtext_def)
  have value_reads: "read_value m (document v @ c # t) = Some (v, c # t)" if "length (document v) < m" "\<not> is_digit c" for c t
    using Cons.prems(1) [of k v m "c # t"] that by (simp add: e ends_number_def)
  show ?case
  proof (cases es)
    case Nil
    have "length (document v) < m" using Cons.prems(3) by (simp add: Nil e n)
    then show ?thesis by (simp add: Nil e n key read_text_jtext value_reads is_digit_def)
  next
    case (Cons w ws)
    let ?join = "join '','' (map (\<lambda>(k, v). jtext k @ '':'' @ document v) es)"
    have join: "join '','' (map (\<lambda>(k, v). jtext k @ '':'' @ document v) (e # es)) = jtext k @ '':'' @ document v @ '','' @ ?join"
      by (simp add: Cons e)
    have "length (document v) < m" "length ?join + 1 < m" using Cons.prems(3) by (simp_all only: n join length_append) simp_all
    moreover from this(2) have "read_members m (?join @ ''}'' @ rest) = Some (es, rest)"
      using Cons.IH [of m] Cons.prems(1) Cons by auto
    ultimately show ?thesis by (simp only: n join append_assoc key) (simp add: read_text_jtext value_reads is_digit_def e)
  qed
qed simp

lemma read_value_document:
  "length (document j) < n \<Longrightarrow> ends_number rest \<Longrightarrow> read_value n (document j @ rest) = Some (j, rest)"
proof (induction j arbitrary: n rest)
  case (JText s)
  then obtain m where "n = Suc m" by (cases n) auto
  then show ?case by (simp add: jtext_def read_text_jtext)
next
  case (JNum k)
  then obtain m where n: "n = Suc m" by (cases n) auto
  obtain d ds where d: "decimal k = d # ds" "is_digit d" using decimal_first by blast
  have "d \<notin> {CHR 0x22, CHR ''t'', CHR ''f'', CHR ''['', CHR ''{''}" using d(2) by (auto simp: is_digit_def)
  then have "read_value n (document (JNum k) @ rest) = map_option (apfst JNum) (read_number (decimal k @ rest))"
    by (simp add: n jnum_def d(1))
  then show ?case using read_number_decimal [OF JNum(2), of k] by simp
next
  case (JBool b)
  then obtain m where "n = Suc m" by (cases n) auto
  then show ?case by (simp add: jbool_def expect_def)
next
  case (JArr vs)
  then obtain m where n: "n = Suc m" by (cases n) auto
  show ?case
  proof (cases vs)
    case Nil
    then show ?thesis by (simp add: n document_arr)
  next
    case (Cons w ws)
    let ?join = "join '','' (map document vs)"
    obtain c cs where first: "document w = c # cs" "c \<noteq> CHR '']''" using document_first by blast
    obtain ds where ds: "?join = c # ds" using join_first [of "map document vs" c cs] first by (auto simp: Cons)
    have "length ?join + 1 < m" using JArr.prems(1) by (simp add: n document_arr)
    then have "read_items m (?join @ '']'' @ rest) = Some (vs, rest)"
      by (intro read_items_join) (auto intro: JArr.IH simp: Cons)
    then show ?thesis using first(2) by (simp add: n document_arr ds)
  qed
next
  case (JObj es)
  then obtain m where n: "n = Suc m" by (cases n) auto
  show ?case
  proof (cases es)
    case Nil
    then show ?thesis by (simp add: n document_obj)
  next
    case (Cons w ws)
    let ?join = "join '','' (map (\<lambda>(k, v). jtext k @ '':'' @ document v) es)"
    obtain cs where "hd (map (\<lambda>(k, v). jtext k @ '':'' @ document v) es) = CHR 0x22 # cs" by (cases w) (auto simp: Cons jtext_def)
    then obtain ds where ds: "?join = CHR 0x22 # ds"
      using join_first [of "map (\<lambda>(k, v). jtext k @ '':'' @ document v) es" "CHR 0x22" cs] by (auto simp: Cons)
    have "length ?join + 1 < m" using JObj.prems(1) by (simp add: n document_obj)
    then have "read_members m (?join @ ''}'' @ rest) = Some (es, rest)"
      by (intro read_members_join) (auto intro: JObj.IH simp: Cons)
    then show ?thesis by (simp add: n document_obj ds [simplified])
  qed
qed

lemma document_reads_back: "read_document (document j) = Some j"
  using read_value_document [of j "Suc (length (document j))" "[]"] by (simp add: read_document_def ends_number_def)

end
