(* ===== verification/Explain.thy ===== *)
theory Explain
  imports EvaluateSound Snapshot
begin

text \<open>
  Explanations of a proof and of one of its pairs, \<open>src/explain.cpp\<close>: the kinds and entries, the bounded builder, the
  passes in the order of the code, the two explanations and their rendering. The lemmas give the list of entries an
  explanation is cut from, and say what an operator is told and what not.
\<close>

section \<open>Kinds and entries\<close>

datatype explanation_kind =
    XK_POLICY
  | XK_REQUIRED_CLASS
  | XK_ENDPOINT_SEMANTICS
  | XK_SHARED_LINK
  | XK_SHARED_TRANSIT_NODE
  | XK_SHARED_DEVICE
  | XK_SHARED_DOMAIN
  | XK_SHARED_RISK_GROUP
  | XK_MISSING_EVIDENCE
  | XK_STALE_GENERATION
  | XK_PROOF_RESULT
  | XK_WITNESS
  | XK_CONFLICT_GRAPH
  | XK_PAIR_RESULT
  | XK_RESOURCE_LIMIT
  | XK_DEPENDENCY

primrec explanation_kind_code :: "explanation_kind \<Rightarrow> u8" where
  "explanation_kind_code XK_POLICY = 1"
| "explanation_kind_code XK_REQUIRED_CLASS = 2"
| "explanation_kind_code XK_ENDPOINT_SEMANTICS = 3"
| "explanation_kind_code XK_SHARED_LINK = 4"
| "explanation_kind_code XK_SHARED_TRANSIT_NODE = 5"
| "explanation_kind_code XK_SHARED_DEVICE = 6"
| "explanation_kind_code XK_SHARED_DOMAIN = 7"
| "explanation_kind_code XK_SHARED_RISK_GROUP = 8"
| "explanation_kind_code XK_MISSING_EVIDENCE = 9"
| "explanation_kind_code XK_STALE_GENERATION = 10"
| "explanation_kind_code XK_PROOF_RESULT = 11"
| "explanation_kind_code XK_WITNESS = 12"
| "explanation_kind_code XK_CONFLICT_GRAPH = 13"
| "explanation_kind_code XK_PAIR_RESULT = 14"
| "explanation_kind_code XK_RESOURCE_LIMIT = 15"
| "explanation_kind_code XK_DEPENDENCY = 16"

definition is_defined_explanation_kind :: "u8 \<Rightarrow> bool" where
  "is_defined_explanation_kind raw \<longleftrightarrow> explanation_kind_code XK_POLICY \<le> raw \<and> raw \<le> explanation_kind_code XK_DEPENDENCY"

definition explanation_kind_to_string :: "explanation_kind \<Rightarrow> string" where
  "explanation_kind_to_string v = (case v of
      XK_POLICY \<Rightarrow> ''POLICY''
    | XK_REQUIRED_CLASS \<Rightarrow> ''REQUIRED_CLASS''
    | XK_ENDPOINT_SEMANTICS \<Rightarrow> ''ENDPOINT_SEMANTICS''
    | XK_SHARED_LINK \<Rightarrow> ''SHARED_LINK''
    | XK_SHARED_TRANSIT_NODE \<Rightarrow> ''SHARED_TRANSIT_NODE''
    | XK_SHARED_DEVICE \<Rightarrow> ''SHARED_DEVICE''
    | XK_SHARED_DOMAIN \<Rightarrow> ''SHARED_DOMAIN''
    | XK_SHARED_RISK_GROUP \<Rightarrow> ''SHARED_RISK_GROUP''
    | XK_MISSING_EVIDENCE \<Rightarrow> ''MISSING_EVIDENCE''
    | XK_STALE_GENERATION \<Rightarrow> ''STALE_GENERATION''
    | XK_PROOF_RESULT \<Rightarrow> ''PROOF_RESULT''
    | XK_WITNESS \<Rightarrow> ''WITNESS''
    | XK_CONFLICT_GRAPH \<Rightarrow> ''CONFLICT_GRAPH''
    | XK_PAIR_RESULT \<Rightarrow> ''PAIR_RESULT''
    | XK_RESOURCE_LIMIT \<Rightarrow> ''RESOURCE_LIMIT''
    | XK_DEPENDENCY \<Rightarrow> ''DEPENDENCY'')"

lemma defined_explanation_kinds: "is_defined_explanation_kind raw \<longleftrightarrow> (\<exists>k. explanation_kind_code k = raw)"
proof
  assume "is_defined_explanation_kind raw"
  then have "raw \<in> of_nat ` {1..16}"
    by (intro image_eqI [of _ _ "unat raw"]) (simp_all add: is_defined_explanation_kind_def word_le_nat_alt)
  also have "{1..16 :: nat} = {1,2,3,4,5,6,7,8,9,10,11,12,13,14,15,16}"
    by (rule set_eqI) (simp only: atLeastAtMost_iff insert_iff empty_iff, presburger)
  finally show "\<exists>k. explanation_kind_code k = raw" by (auto intro: explanation_kind_code.simps)
next
  assume "\<exists>k. explanation_kind_code k = raw"
  then obtain k where "explanation_kind_code k = raw" by blast
  then show "is_defined_explanation_kind raw" by (cases k) (auto simp: is_defined_explanation_kind_def)
qed

record explanation_entry =
  xe_kind :: explanation_kind
  xe_class :: diversity_class
  xe_outcome :: proof_outcome
  xe_subject :: string
  xe_detail :: string
  xe_paths :: "nat list"

definition default_entry :: explanation_entry where
  "default_entry =
     \<lparr>xe_kind = XK_PROOF_RESULT, xe_class = DC_LINK_DISJOINT, xe_outcome = PO_MALFORMED, xe_subject = [], xe_detail = [], xe_paths = []\<rparr>"

record explanation =
  xp_proof :: diversity_proof_id
  xp_generation :: diversity_proof_generation
  xp_outcome :: proof_outcome
  xp_entries :: "explanation_entry list"
  xp_truncated :: bool
  xp_total :: u64

definition kind_for_conflict :: "conflict_class \<Rightarrow> explanation_kind" where
  "kind_for_conflict k = (case k of
      CC_SHARED_LINK \<Rightarrow> XK_SHARED_LINK
    | CC_SHARED_TRANSIT_NODE \<Rightarrow> XK_SHARED_TRANSIT_NODE
    | CC_SHARED_ENDPOINT \<Rightarrow> XK_SHARED_TRANSIT_NODE
    | CC_SHARED_DEVICE \<Rightarrow> XK_SHARED_DEVICE
    | CC_SHARED_RISK_GROUP \<Rightarrow> XK_SHARED_RISK_GROUP
    | _ \<Rightarrow> XK_SHARED_DOMAIN)"

definition push_explanation :: "limits \<Rightarrow> explanation_entry \<Rightarrow> explanation \<Rightarrow> explanation" where
  "push_explanation l entry x =
     (let x = x\<lparr>xp_total := xp_total x + 1\<rparr>
      in if max_explanation_entries l \<le> length (xp_entries x) then x\<lparr>xp_truncated := True\<rparr>
         else x\<lparr>xp_entries := xp_entries x @ [entry]\<rparr>)"

section \<open>The passes\<close>

definition policy_entry :: "diversity_proof \<Rightarrow> explanation_entry" where
  "policy_entry p =
     default_entry\<lparr>xe_kind := XK_POLICY, xe_outcome := dpf_outcome p,
       xe_subject := id_view (rq_policy (dpf_request p)) @ ''@g'' @ gen_text (rq_policy_generation (dpf_request p)),
       xe_detail := ''required classes are listed individually below; the policy content digest is bound into the proof semantic digest''\<rparr>"

definition evidence_text :: "class_result \<Rightarrow> string" where
  "evidence_text r = ''evidence '' @ (if cr_evidence_complete r then ''COMPLETE'' else ''INCOMPLETE'')"

definition detail_text :: "class_result \<Rightarrow> string" where
  "detail_text r = (if cr_detail r = [] then [] else ''; '' @ cr_detail r)"

definition class_entry :: "class_result \<Rightarrow> explanation_entry" where
  "class_entry r =
     default_entry\<lparr>xe_kind := XK_REQUIRED_CLASS, xe_class := cr_klass r, xe_outcome := cr_outcome r,
       xe_subject := diversity_class_to_string (cr_klass r),
       xe_detail := evidence_text r @ ''; shared resources '' @ decimal (unat (cr_shared_total r)) @ detail_text r\<rparr>"

definition exemption_text :: "endpoint_exemption \<Rightarrow> string" where
  "exemption_text e = (case e of
      EE_NONE \<Rightarrow> ''source and destination nodes are ordinary nodes: sharing either fails transit-node disjointness''
    | EE_SHARED_SOURCE_AND_DESTINATION \<Rightarrow>
        ''a node shared as the source of every path, or as the destination of every path, is exempt; a node shared as transit is not''
    | EE_SHARED_SOURCE_ONLY \<Rightarrow> ''only source sharing is exempt''
    | EE_SHARED_DESTINATION_ONLY \<Rightarrow> ''only destination sharing is exempt''
    | EE_ANY_ENDPOINT \<Rightarrow> ''any endpoint sharing is exempt'')"

definition exemption_entry :: "diversity_proof \<Rightarrow> explanation_entry" where
  "exemption_entry p =
     default_entry\<lparr>xe_kind := XK_ENDPOINT_SEMANTICS, xe_subject := ''endpoint-exemption'', xe_outcome := dpf_outcome p,
       xe_detail := exemption_text (db_endpoint_exemption (dpf_dependencies p))\<rparr>"

definition add_policy_entries :: "limits \<Rightarrow> diversity_proof \<Rightarrow> explanation \<Rightarrow> explanation" where
  "add_policy_entries l p x =
     push_explanation l (exemption_entry p)
       (fold (\<lambda>r. push_explanation l (class_entry r)) (dpf_classes p) (push_explanation l (policy_entry p) x))"

text \<open>The class of the entry is left at its default.\<close>

definition conflict_entry :: "shared_resource \<Rightarrow> explanation_entry" where
  "conflict_entry c =
     default_entry\<lparr>xe_kind := kind_for_conflict (sr_kind c), xe_subject := sr_id c, xe_outcome := PO_NOT_DIVERSE,
       xe_paths := sr_paths c,
       xe_detail := conflict_class_to_string (sr_kind c) @ '' shared by '' @ decimal (length (sr_paths c)) @ '' paths''\<rparr>"

definition bounded_entry :: "diversity_proof \<Rightarrow> explanation_entry" where
  "bounded_entry p =
     default_entry\<lparr>xe_kind := XK_PROOF_RESULT, xe_subject := ''conflict-list'', xe_outcome := dpf_outcome p,
       xe_detail := ''conflict list is bounded: '' @ decimal (length (dpf_conflicts p)) @ '' of '' @
         decimal (unat (dpf_conflicts_total p)) @ '' entries retained''\<rparr>"

definition add_conflict_entries :: "limits \<Rightarrow> diversity_proof \<Rightarrow> explanation \<Rightarrow> explanation" where
  "add_conflict_entries l p x =
     (let x = fold (\<lambda>c. push_explanation l (conflict_entry c)) (dpf_conflicts p) x
      in if of_nat (length (dpf_conflicts p)) < dpf_conflicts_total p then push_explanation l (bounded_entry p) x else x)"

definition generations_entry :: "diversity_proof \<Rightarrow> explanation_entry" where
  "generations_entry p =
     (let d = dpf_dependencies p
      in default_entry\<lparr>xe_kind := XK_DEPENDENCY, xe_subject := ''generations'', xe_outcome := dpf_outcome p,
           xe_detail := ''policy=g'' @ gen_text (db_policy_generation d) @ '' topology=g'' @ gen_text (db_topology_generation d) @
             '' failure-domains=g'' @ gen_text (db_failure_domain_generation d) @ '' epoch=g'' @ gen_text (db_epoch d)\<rparr>)"

definition binding_entry :: "diversity_proof \<Rightarrow> path_authority_binding \<Rightarrow> explanation_entry" where
  "binding_entry p b =
     default_entry\<lparr>xe_kind := XK_DEPENDENCY, xe_subject := id_view (pb_path b), xe_outcome := dpf_outcome p,
       xe_detail := ''Path Authority generation g'' @ gen_text (pb_generation b)\<rparr>"

definition add_dependency_entries :: "limits \<Rightarrow> diversity_proof \<Rightarrow> explanation \<Rightarrow> explanation" where
  "add_dependency_entries l p x =
     fold (\<lambda>b. push_explanation l (binding_entry p b)) (db_paths (dpf_dependencies p)) (push_explanation l (generations_entry p) x)"

definition missing_entry :: "class_result \<Rightarrow> explanation_entry" where
  "missing_entry r =
     default_entry\<lparr>xe_kind := XK_MISSING_EVIDENCE, xe_class := cr_klass r, xe_outcome := cr_outcome r,
       xe_subject := diversity_class_to_string (cr_klass r),
       xe_detail := (if cr_detail r = [] then ''required failure-domain or structural evidence is incomplete'' else cr_detail r)\<rparr>"

definition add_unknown_entries :: "limits \<Rightarrow> diversity_proof \<Rightarrow> explanation \<Rightarrow> explanation" where
  "add_unknown_entries l p x =
     (if dpf_outcome p \<noteq> PO_UNKNOWN_INCOMPLETE_EVIDENCE \<and> dpf_outcome p \<noteq> PO_REVALIDATION_REQUIRED then x
      else fold (\<lambda>r x. if cr_evidence_complete r then x else push_explanation l (missing_entry r) x) (dpf_classes p) x)"

definition stale_entry :: "diversity_proof \<Rightarrow> explanation_entry" where
  "stale_entry p =
     default_entry\<lparr>xe_kind := XK_STALE_GENERATION, xe_subject := proof_outcome_to_string (dpf_outcome p),
       xe_outcome := dpf_outcome p, xe_detail := dpf_detail p\<rparr>"

definition add_stale_entries :: "limits \<Rightarrow> diversity_proof \<Rightarrow> explanation \<Rightarrow> explanation" where
  "add_stale_entries l p x =
     (case dpf_outcome p of
        PO_STALE_PATH_AUTHORITY \<Rightarrow> push_explanation l (stale_entry p) x
      | PO_STALE_TOPOLOGY \<Rightarrow> push_explanation l (stale_entry p) x
      | PO_STALE_FAILURE_DOMAIN \<Rightarrow> push_explanation l (stale_entry p) x
      | PO_STALE_POLICY \<Rightarrow> push_explanation l (stale_entry p) x
      | PO_UNAUTHORIZED \<Rightarrow> push_explanation l (stale_entry p) x
      | _ \<Rightarrow> x)"

definition result_entry :: "diversity_proof \<Rightarrow> explanation_entry" where
  "result_entry p =
     default_entry\<lparr>xe_kind := XK_PROOF_RESULT, xe_subject := id_view (dpf_id p) @ ''@g'' @ gen_text (dpf_generation p),
       xe_outcome := dpf_outcome p, xe_detail := dpf_detail p\<rparr>"

definition graph_entry :: "diversity_proof \<Rightarrow> explanation_entry" where
  "graph_entry p =
     (let graph = build_conflict_graph (dpf_matrix p)
      in default_entry\<lparr>xe_kind := XK_CONFLICT_GRAPH, xe_subject := ''conflict-graph'', xe_outcome := dpf_outcome p,
           xe_detail := decimal (cg_path_count graph) @ '' vertices, '' @ decimal (unat (edge_count graph)) @
             '' conflict edges; K mutually independent paths are exactly an independent set of size K in this graph''\<rparr>)"

definition witness_entry :: "diversity_proof \<Rightarrow> explanation_entry" where
  "witness_entry p =
     (let w = dpf_witness p
      in default_entry\<lparr>xe_kind := XK_WITNESS, xe_subject := ws_render w, xe_outcome := dpf_outcome p,
           xe_detail := ''requested K='' @ decimal (ws_requested_k w) @ '' achieved='' @ decimal (ws_achieved w) @
             (if ws_maximum_exact w then '' (exact maximum)'' else '' (not proven exact)'')\<rparr>)"

definition limit_entry :: "diversity_proof \<Rightarrow> resource_limit_notice \<Rightarrow> explanation_entry" where
  "limit_entry p n =
     default_entry\<lparr>xe_kind := XK_RESOURCE_LIMIT, xe_subject := resource_bound_to_string (rn_bound n),
       xe_outcome := dpf_outcome p, xe_detail := notice_render n\<rparr>"

definition add_result_entries :: "limits \<Rightarrow> diversity_proof \<Rightarrow> explanation \<Rightarrow> explanation" where
  "add_result_entries l p x =
     (let x = push_explanation l (graph_entry p) (push_explanation l (result_entry p) x);
          x = (if ws_present (dpf_witness p) then push_explanation l (witness_entry p) x else x)
      in case dpf_limit p of None \<Rightarrow> x | Some n \<Rightarrow> push_explanation l (limit_entry p n) x)"

section \<open>The explanations\<close>

definition start_explanation :: "diversity_proof \<Rightarrow> explanation" where
  "start_explanation p =
     \<lparr>xp_proof = dpf_id p, xp_generation = dpf_generation p, xp_outcome = dpf_outcome p, xp_entries = [], xp_truncated = False,
      xp_total = 0\<rparr>"

definition explain_proof :: "diversity_proof \<Rightarrow> limits \<Rightarrow> explanation" where
  "explain_proof p l =
     add_result_entries l p (add_stale_entries l p (add_unknown_entries l p (add_conflict_entries l p
       (add_dependency_entries l p (add_policy_entries l p (start_explanation p))))))"

definition bad_pair_entry :: "nat \<Rightarrow> nat \<Rightarrow> explanation_entry" where
  "bad_pair_entry left right =
     default_entry\<lparr>xe_kind := XK_PAIR_RESULT, xe_subject := ''pair '' @ decimal left @ '','' @ decimal right,
       xe_outcome := PO_MALFORMED, xe_detail := ''the requested pair is not a distinct pair of the canonical path set''\<rparr>"

definition pair_entry :: "pairwise_cell \<Rightarrow> explanation_entry" where
  "pair_entry cell =
     default_entry\<lparr>xe_kind := XK_PAIR_RESULT,
       xe_subject := ''pair '' @ decimal (cell_left cell) @ '','' @ decimal (cell_right cell),
       xe_outcome := (if cell_independent cell then PO_PROVEN_DIVERSE else PO_NOT_DIVERSE),
       xe_paths := [cell_left cell, cell_right cell],
       xe_detail := (if cell_independent cell then ''the pair satisfies every required diversity class''
         else ''the pair does not satisfy every required diversity class'')\<rparr>"

definition pair_class_entry :: "class_result \<Rightarrow> explanation_entry" where
  "pair_class_entry r = (class_entry r)\<lparr>xe_detail := evidence_text r @ detail_text r\<rparr>"

definition pair_missing_entry :: "class_result \<Rightarrow> explanation_entry" where
  "pair_missing_entry r = (missing_entry r)\<lparr>xe_detail := cr_detail r\<rparr>"

definition pair_conflict_entry :: "class_result \<Rightarrow> shared_resource \<Rightarrow> explanation_entry" where
  "pair_conflict_entry r c =
     default_entry\<lparr>xe_kind := kind_for_conflict (sr_kind c), xe_class := cr_klass r, xe_outcome := cr_outcome r,
       xe_subject := sr_id c, xe_paths := sr_paths c, xe_detail := sr_render c\<rparr>"

definition explain_pair_class :: "limits \<Rightarrow> class_result \<Rightarrow> explanation \<Rightarrow> explanation" where
  "explain_pair_class l r x =
     (let x = push_explanation l (pair_class_entry r) x;
          x = (if cr_evidence_complete r \<and> cr_outcome r = PO_UNKNOWN_INCOMPLETE_EVIDENCE
               then push_explanation l (pair_missing_entry r) x else x)
      in fold (\<lambda>c. push_explanation l (pair_conflict_entry r c)) (cr_shared r) x)"

definition explain_pair :: "diversity_proof \<Rightarrow> nat \<Rightarrow> nat \<Rightarrow> limits \<Rightarrow> explanation" where
  "explain_pair p left right l =
     (case matrix_at (dpf_matrix p) left right of
        None \<Rightarrow> push_explanation l (bad_pair_entry left right) (start_explanation p)
      | Some cell \<Rightarrow>
          fold (explain_pair_class l) (cell_classes cell) (push_explanation l (pair_entry cell) (start_explanation p)))"

section \<open>Rendering\<close>

definition names_class :: "explanation_kind \<Rightarrow> bool" where
  "names_class k \<longleftrightarrow> k \<in> {XK_REQUIRED_CLASS, XK_MISSING_EVIDENCE, XK_SHARED_LINK, XK_SHARED_TRANSIT_NODE, XK_SHARED_DEVICE,
     XK_SHARED_DOMAIN, XK_SHARED_RISK_GROUP}"

definition entry_render :: "explanation_entry \<Rightarrow> string" where
  "entry_render e =
     ''['' @ explanation_kind_to_string (xe_kind e) @
     (if names_class (xe_kind e) then '' '' @ diversity_class_to_string (xe_class e) else []) @
     ''] '' @ xe_subject e @ '' outcome='' @ proof_outcome_to_string (xe_outcome e) @
     (if xe_paths e = [] then [] else '' paths=['' @ join '','' (map decimal (xe_paths e)) @ '']'') @
     (if xe_detail e = [] then [] else '' :: '' @ xe_detail e)"

definition explanation_render :: "explanation \<Rightarrow> string" where
  "explanation_render x =
     ''explanation '' @ id_view (xp_proof x) @ ''@g'' @ gen_text (xp_generation x) @ '' outcome='' @
     proof_outcome_to_string (xp_outcome x) @ (if xp_truncated x then '' (truncated)'' else []) @ [CHR 0x0A] @
     concat (map (\<lambda>e. ''  '' @ entry_render e @ [CHR 0x0A]) (xp_entries x))"


section \<open>What an explanation lists\<close>

text \<open>Everything the passes have to say about a proof, in their order.\<close>

definition explanation_lines :: "diversity_proof \<Rightarrow> explanation_entry list" where
  "explanation_lines p =
     policy_entry p # map class_entry (dpf_classes p) @ exemption_entry p # generations_entry p #
     map (binding_entry p) (db_paths (dpf_dependencies p)) @
     map conflict_entry (dpf_conflicts p) @
     (if of_nat (length (dpf_conflicts p)) < dpf_conflicts_total p then [bounded_entry p] else []) @
     (if dpf_outcome p \<in> {PO_UNKNOWN_INCOMPLETE_EVIDENCE, PO_REVALIDATION_REQUIRED}
      then map missing_entry (filter (\<lambda>r. \<not> cr_evidence_complete r) (dpf_classes p)) else []) @
     (if dpf_outcome p \<in> {PO_STALE_PATH_AUTHORITY, PO_STALE_TOPOLOGY, PO_STALE_FAILURE_DOMAIN, PO_STALE_POLICY, PO_UNAUTHORIZED}
      then [stale_entry p] else []) @
     result_entry p # graph_entry p # (if ws_present (dpf_witness p) then [witness_entry p] else []) @
     (case dpf_limit p of None \<Rightarrow> [] | Some n \<Rightarrow> [limit_entry p n])"

definition pair_class_lines :: "class_result \<Rightarrow> explanation_entry list" where
  "pair_class_lines r =
     pair_class_entry r #
     (if cr_evidence_complete r \<and> cr_outcome r = PO_UNKNOWN_INCOMPLETE_EVIDENCE then [pair_missing_entry r] else []) @
     map (pair_conflict_entry r) (cr_shared r)"

definition explain_all :: "limits \<Rightarrow> explanation_entry list \<Rightarrow> explanation \<Rightarrow> explanation" where
  "explain_all l es x = fold (push_explanation l) es x"

lemma explain_all_append: "explain_all l es (explain_all l fs x) = explain_all l (fs @ es) x"
  by (simp add: explain_all_def)

lemma push_explain_all: "push_explanation l e x = explain_all l [e] x"
  by (simp add: explain_all_def)

lemma fold_explain_all: "fold (\<lambda>r. push_explanation l (f r)) rs x = explain_all l (map f rs) x"
  by (simp add: explain_all_def fold_map comp_def)

lemma explain_none: "explain_all l [] x = x"
  by (simp add: explain_all_def)

lemma explain_all_filter:
  "fold (\<lambda>r x. if P r then x else push_explanation l (f r) x) rs x = explain_all l (map f (filter (\<lambda>r. \<not> P r) rs)) x"
  by (induction rs arbitrary: x) (simp_all add: explain_all_def)

lemma add_stale_lines:
  "add_stale_entries l p x = explain_all l
     (if dpf_outcome p \<in> {PO_STALE_PATH_AUTHORITY, PO_STALE_TOPOLOGY, PO_STALE_FAILURE_DOMAIN, PO_STALE_POLICY, PO_UNAUTHORIZED}
      then [stale_entry p] else []) x"
  by (cases "dpf_outcome p") (simp_all add: add_stale_entries_def explain_all_def)

lemma add_unknown_lines:
  "add_unknown_entries l p x = explain_all l
     (if dpf_outcome p \<in> {PO_UNKNOWN_INCOMPLETE_EVIDENCE, PO_REVALIDATION_REQUIRED}
      then map missing_entry (filter (\<lambda>r. \<not> cr_evidence_complete r) (dpf_classes p)) else []) x"
  by (auto simp: add_unknown_entries_def explain_all_filter explain_none)

lemma explain_proof_lines: "explain_proof p l = explain_all l (explanation_lines p) (start_explanation p)"
  by (simp add: explain_proof_def add_result_entries_def add_stale_lines add_unknown_lines add_conflict_entries_def
      add_dependency_entries_def add_policy_entries_def fold_explain_all push_explain_all explain_all_append Let_def
      explanation_lines_def explain_none split: option.split)

lemma explain_pair_class_lines: "explain_pair_class l r x = explain_all l (pair_class_lines r) x"
  by (simp add: explain_pair_class_def pair_class_lines_def fold_explain_all push_explain_all explain_all_append Let_def)

lemma explain_pair_lines:
  "fold (explain_pair_class l) rs x = explain_all l (concat (map pair_class_lines rs)) x"
  by (induction rs arbitrary: x) (simp_all add: explain_pair_class_lines explain_all_append explain_none)

text \<open>The bound, once for both explanations.\<close>

lemma explain_all_bounded:
  "length (xp_entries x) \<le> max_explanation_entries l \<Longrightarrow>
   explain_all l es x = x\<lparr>xp_entries := take (max_explanation_entries l) (xp_entries x @ es),
     xp_truncated := (xp_truncated x \<or> max_explanation_entries l < length (xp_entries x) + length es),
     xp_total := xp_total x + of_nat (length es)\<rparr>"
proof (induction es arbitrary: x)
  case Nil
  then show ?case by (simp add: explain_none)
next
  case (Cons e es)
  let ?x = "push_explanation l e x"
  have step: "explain_all l (e # es) x = explain_all l es ?x" by (simp add: explain_all_def)
  have "length (xp_entries ?x) \<le> max_explanation_entries l" using Cons.prems by (simp add: push_explanation_def Let_def)
  from Cons.IH [OF this] Cons.prems show ?case
    by (auto simp: step push_explanation_def Let_def take_Cons')
qed

text \<open>An explanation is the list of everything the passes say, in their order, cut at max_explanation_entries: the
  total counts every entry and the truncation flag is set exactly when some were dropped.\<close>

theorem explanation_keeps_the_first_entries:
  "explain_proof p l =
     (start_explanation p)\<lparr>xp_entries := take (max_explanation_entries l) (explanation_lines p),
       xp_truncated := (max_explanation_entries l < length (explanation_lines p)),
       xp_total := of_nat (length (explanation_lines p))\<rparr>"
  by (simp add: explain_proof_lines explain_all_bounded start_explanation_def)

lemma explain_proof_entries:
  "xp_entries (explain_proof p l) = take (max_explanation_entries l) (explanation_lines p)"
  "xp_truncated (explain_proof p l) = (max_explanation_entries l < length (explanation_lines p))"
  by (simp_all add: explain_proof_lines explain_all_bounded start_explanation_def)

lemma explain_pair_entries:
  "xp_entries (explain_pair p i j l) = take (max_explanation_entries l)
     (case matrix_at (dpf_matrix p) i j of
        None \<Rightarrow> [bad_pair_entry i j]
      | Some cell \<Rightarrow> pair_entry cell # concat (map pair_class_lines (cell_classes cell)))"
proof (cases "matrix_at (dpf_matrix p) i j")
  case None
  then have "explain_pair p i j l = explain_all l [bad_pair_entry i j] (start_explanation p)"
    by (simp add: explain_pair_def push_explain_all)
  then show ?thesis by (simp add: None explain_all_bounded start_explanation_def)
next
  case (Some cell)
  then have "explain_pair p i j l =
      explain_all l (pair_entry cell # concat (map pair_class_lines (cell_classes cell))) (start_explanation p)"
    by (simp add: explain_pair_def push_explain_all explain_pair_lines explain_all_append)
  then show ?thesis by (simp add: Some explain_all_bounded start_explanation_def)
qed

text \<open>C36: An explanation that was not truncated leaves nothing out: every required class with its verdict, every
  conflict of the proof with its paths, the authority generation of every path, and, when the outcome is unknown or
  needs revalidation, every class whose evidence is incomplete.\<close>

theorem explanation_is_complete:
  assumes "\<not> xp_truncated (explain_proof p l)"
  shows "(\<forall>r\<in>set (dpf_classes p). class_entry r \<in> set (xp_entries (explain_proof p l))) \<and>
    (\<forall>c\<in>set (dpf_conflicts p). \<exists>e\<in>set (xp_entries (explain_proof p l)).
       xe_kind e = kind_for_conflict (sr_kind c) \<and> xe_subject e = sr_id c \<and> xe_paths e = sr_paths c) \<and>
    (\<forall>b\<in>set (db_paths (dpf_dependencies p)). binding_entry p b \<in> set (xp_entries (explain_proof p l))) \<and>
    (dpf_outcome p \<in> {PO_UNKNOWN_INCOMPLETE_EVIDENCE, PO_REVALIDATION_REQUIRED} \<longrightarrow>
       (\<forall>r\<in>set (dpf_classes p). \<not> cr_evidence_complete r \<longrightarrow> missing_entry r \<in> set (xp_entries (explain_proof p l))))"
proof -
  have entries: "set (xp_entries (explain_proof p l)) = set (explanation_lines p)"
    using assms by (simp add: explain_proof_entries)
  have "conflict_entry c \<in> set (explanation_lines p)" if "c \<in> set (dpf_conflicts p)" for c
    using that by (simp add: explanation_lines_def)
  then have "\<forall>c\<in>set (dpf_conflicts p). \<exists>e\<in>set (explanation_lines p).
      xe_kind e = kind_for_conflict (sr_kind c) \<and> xe_subject e = sr_id c \<and> xe_paths e = sr_paths c"
    by (intro ballI, rule_tac x = "conflict_entry c" in bexI) (simp_all add: conflict_entry_def)
  then show ?thesis by (auto simp: entries) (auto simp: explanation_lines_def)
qed

text \<open>A conflict is explained under the wrong class: whatever the conflict, a shared device, a rack or a risk group, the
  entry of the explanation of a proof says LINK_DISJOINT, in the record and in the rendered line.\<close>

theorem conflicts_are_explained_as_links:
  assumes "e \<in> set (xp_entries (explain_proof p l))"
    and "xe_kind e \<in> {XK_SHARED_LINK, XK_SHARED_TRANSIT_NODE, XK_SHARED_DEVICE, XK_SHARED_DOMAIN, XK_SHARED_RISK_GROUP}"
  shows "xe_class e = DC_LINK_DISJOINT \<and>
    (\<exists>rest. entry_render e = ''['' @ explanation_kind_to_string (xe_kind e) @ '' LINK_DISJOINT] '' @ rest)"
proof -
  have "e \<in> set (explanation_lines p)" using assms(1) set_take_subset by (fastforce simp: explain_proof_entries)
  then have "e \<in> conflict_entry ` set (dpf_conflicts p)"
    using assms(2)
    by (auto simp: explanation_lines_def policy_entry_def class_entry_def exemption_entry_def generations_entry_def binding_entry_def
        bounded_entry_def missing_entry_def stale_entry_def result_entry_def graph_entry_def witness_entry_def limit_entry_def Let_def
        default_entry_def split: if_splits option.splits)
  then have "xe_class e = DC_LINK_DISJOINT" by (auto simp: conflict_entry_def default_entry_def)
  then show ?thesis using assms(2) by (auto simp: entry_render_def names_class_def diversity_class_to_string_def)
qed


definition sample_shared_device :: shared_resource where
  "sample_shared_device = SharedResource CC_SHARED_DEVICE DR_FAILURE_DOMAIN ''dev1'' [0, 1]"

definition sample_conflicting :: diversity_proof where
  "sample_conflicting = default_proof\<lparr>dpf_conflicts := [sample_shared_device], dpf_conflicts_total := 1\<rparr>"

lemma sample_conflicting_lines: "length (explanation_lines sample_conflicting) < 10" "explanation_lines sample_conflicting ! 3 = conflict_entry sample_shared_device"
  by (simp_all add: explanation_lines_def sample_conflicting_def default_proof_def default_dependencies_def empty_witness_def)

lemma sample_not_truncated: "\<not> xp_truncated (explain_proof sample_conflicting default_limits)"
  using sample_conflicting_lines(1) by (simp add: explain_proof_entries) (simp add: default_limits_def)

lemma explanation_is_complete_witness:
  "\<exists>e\<in>set (xp_entries (explain_proof sample_conflicting default_limits)). xe_kind e = XK_SHARED_DEVICE \<and> xe_paths e = [0, 1]"
proof -
  have "sample_shared_device \<in> set (dpf_conflicts sample_conflicting)" by (simp add: sample_conflicting_def)
  then have "\<exists>e\<in>set (xp_entries (explain_proof sample_conflicting default_limits)). xe_kind e = kind_for_conflict (sr_kind sample_shared_device) \<and>
      xe_subject e = sr_id sample_shared_device \<and> xe_paths e = sr_paths sample_shared_device"
    using explanation_is_complete [OF sample_not_truncated] by blast
  then show ?thesis by (auto simp: sample_shared_device_def kind_for_conflict_def)
qed

lemma conflicts_are_explained_as_links_witness:
  "xe_class (conflict_entry sample_shared_device) = DC_LINK_DISJOINT"
proof -
  have "conflict_entry sample_shared_device \<in> set (xp_entries (explain_proof sample_conflicting default_limits))"
  proof -
    have "conflict_entry sample_shared_device \<in> set (explanation_lines sample_conflicting)"
      by (simp add: explanation_lines_def sample_conflicting_def)
    then show ?thesis using sample_not_truncated by (simp add: explain_proof_entries)
  qed
  then show ?thesis
    using conflicts_are_explained_as_links [of "conflict_entry sample_shared_device" sample_conflicting default_limits]
    by (simp add: conflict_entry_def kind_for_conflict_def sample_shared_device_def default_entry_def)
qed

section \<open>Missing evidence of a pair\<close>

text \<open>The cells an evaluation fills in: a class is unknown exactly when its evidence is incomplete.\<close>

definition settled_cell :: "pairwise_cell \<Rightarrow> bool" where
  "settled_cell cell \<longleftrightarrow>
     (\<forall>r\<in>set (cell_classes cell). cr_outcome r = PO_UNKNOWN_INCOMPLETE_EVIDENCE \<longrightarrow> \<not> cr_evidence_complete r)"

definition settled :: "evaluation_result \<Rightarrow> bool" where
  "settled r \<longleftrightarrow> (\<forall>cell\<in>set (pm_cells (ev_matrix r)). settled_cell cell)"

lemma the_cell_settled:
  assumes "pc_sorted (cs ! i)" "pc_sorted (cs ! j)"
  shows "settled_cell (the_cell p view m cs i j)"
  using cell_result_outcome [OF assms] by (auto simp: settled_cell_def the_cell_classes split: if_splits)

lemma settled_admitted:
  assumes "admitted p inputs view l rs cs"
  shows "settled (evaluate_admitted ob l p inputs rs cs fp)"
proof -
  have "settled_cell cell" if "cell \<in> set (fst (evaluate_pairs p inputs (max_conflicts_per_proof l) cs))" for cell
    using that the_cell_settled admittedD(4) [OF assms]
    by (auto simp: admitted_evaluated [OF assms] the_matrix_def set_pairs)
  then show ?thesis
    by (auto simp: settled_def evaluate_admitted_def set_stage_def Let_def reject_def reject_limit_def default_result_def empty_matrix_def
        split: prod.split sum.split)
qed

lemma matrix_at_member: "matrix_at m i j = Some cell \<Longrightarrow> cell \<in> set (pm_cells m)"
  by (auto simp: matrix_at_def Let_def split: if_splits)

text \<open>When an evaluation ends without enough evidence, no explanation of any of its pairs names the evidence that is
  missing: the entry is guarded by a complete class with an unknown outcome, which the evaluation never produces.\<close>

theorem pair_explanation_names_no_missing_evidence:
  assumes "ev_outcome (evaluate_diversity request policy inputs) = PO_UNKNOWN_INCOMPLETE_EVIDENCE"
    and "in_limits inputs = Some l" "limits_wf l" "dpf_matrix p = ev_matrix (evaluate_diversity request policy inputs)"
    and "e \<in> set (xp_entries (explain_pair p i j l'))"
  shows "xe_kind e \<noteq> XK_MISSING_EVIDENCE"
proof -
  obtain ob l0 rs cs fp where P: "passes request policy inputs ob l0 rs cs fp"
    using decided_passes [of request policy inputs] assms(1) by (auto simp: rejected_outcome_def)
  then obtain view where view: "in_domains inputs = Some view" "l0 = l" using assms(2) by (auto simp: passes_def)
  have "settled (evaluate_diversity request policy inputs)"
    unfolding passes_evaluate [OF P]
    by (rule settled_admitted, rule passes_admitted [OF P view(1)]) (simp add: view(2) assms(3))
  then have settled: "settled_cell cell" if "matrix_at (dpf_matrix p) i j = Some cell" for cell
    using matrix_at_member [OF that] assms(4) by (simp add: settled_def)
  show ?thesis
  proof (cases "matrix_at (dpf_matrix p) i j")
    case None
    then have "e \<in> set (take (max_explanation_entries l') [bad_pair_entry i j])" using assms(5) by (simp add: explain_pair_entries)
    from in_set_takeD [OF this] show ?thesis by (simp add: bad_pair_entry_def default_entry_def)
  next
    case (Some cell)
    then have "e \<in> set (take (max_explanation_entries l') (pair_entry cell # concat (map pair_class_lines (cell_classes cell))))"
      using assms(5) by (simp add: explain_pair_entries)
    from in_set_takeD [OF this] show ?thesis
      using settled [OF Some]
      by (auto simp: settled_cell_def pair_class_lines_def pair_entry_def pair_class_entry_def class_entry_def pair_conflict_entry_def
          kind_for_conflict_def default_entry_def split: conflict_class.splits)
  qed
qed

definition sample_rack_policy :: diversity_policy where
  "sample_rack_policy = sample_policy\<lparr>dp_required_classes := [DC_RACK_DISJOINT]\<rparr>"

lemma sample_unknown:
  "ev_outcome (evaluate_diversity (sample_request [''a'', ''b'']) sample_rack_policy sample_inputs) = PO_UNKNOWN_INCOMPLETE_EVIDENCE"
  by code_simp

definition sample_unknown_proof :: diversity_proof where
  "sample_unknown_proof =
     default_proof\<lparr>dpf_matrix := ev_matrix (evaluate_diversity (sample_request [''a'', ''b'']) sample_rack_policy sample_inputs)\<rparr>"

lemma pair_explanation_names_no_missing_evidence_witness:
  "xp_entries (explain_pair sample_unknown_proof 0 1 sample_limits) \<noteq> [] \<and>
   (\<forall>e\<in>set (xp_entries (explain_pair sample_unknown_proof 0 1 sample_limits)). xe_kind e \<noteq> XK_MISSING_EVIDENCE)"
proof -
  have "xp_entries (explain_pair sample_unknown_proof 0 1 sample_limits) \<noteq> []"
    by (simp add: explain_pair_entries sample_limits_def split: option.split)
  then show ?thesis
    using pair_explanation_names_no_missing_evidence [OF sample_unknown sample_simps(3,5), of sample_unknown_proof _ 0 1 sample_limits]
    by (simp add: sample_unknown_proof_def)
qed

end
