(* ===== verification/RuntimeView.thy ===== *)
theory RuntimeView
  imports RuntimeMutations Explain
begin

text \<open>
  What the runtime shows of its proofs, \<open>src/runtime_view.cpp\<close>: snapshots, diffs, explanations, the conflict graph and the
  rendering. The invariant ties the latest snapshot of a proof to its current revision.
\<close>

section \<open>Views\<close>

definition rt_snapshot :: "runtime \<Rightarrow> diversity_proof_id \<Rightarrow> proof_snapshot option" where
  "rt_snapshot rt i =
     (case map_of (rt_proofs rt) i of
        None \<Rightarrow> None
      | Some r \<Rightarrow> if rec_snapshots r = [] then None else Some (last (rec_snapshots r)))"

text \<open>\<open>std::unique\<close> drops adjacent repetitions.\<close>

definition rt_snapshot_ids :: "runtime \<Rightarrow> diversity_proof_id \<Rightarrow> snapshot_id list" where
  "rt_snapshot_ids rt i =
     (case map_of (rt_proofs rt) i of None \<Rightarrow> [] | Some r \<Rightarrow> remdups_adj (map sn_id (rec_snapshots r)))"

text \<open>The loop over the snapshots keeps the last one of each identity.\<close>

definition find_snapshots ::
  "snapshot_id \<Rightarrow> snapshot_id \<Rightarrow> proof_snapshot list \<Rightarrow> proof_snapshot option \<times> proof_snapshot option" where
  "find_snapshots left right snapshots =
     fold (\<lambda>s (l, r). (if sn_id s = left then Some s else l, if sn_id s = right then Some s else r)) snapshots (None, None)"

definition rt_diff :: "runtime \<Rightarrow> diversity_proof_id \<Rightarrow> snapshot_id \<Rightarrow> snapshot_id \<Rightarrow> proof_diff option" where
  "rt_diff rt i left right =
     (case map_of (rt_proofs rt) i of
        None \<Rightarrow> None
      | Some r \<Rightarrow>
          (case find_snapshots left right (rec_snapshots r) of
             (Some a, Some b) \<Rightarrow> Some (diff_snapshots a b (rt_limits rt))
           | _ \<Rightarrow> None))"

definition rt_explain :: "runtime \<Rightarrow> diversity_proof_id \<Rightarrow> explanation option" where
  "rt_explain rt i = map_option (\<lambda>r. explain_proof (rec_current r) (rt_limits rt)) (map_of (rt_proofs rt) i)"

definition rt_explain_pair :: "runtime \<Rightarrow> diversity_proof_id \<Rightarrow> nat \<Rightarrow> nat \<Rightarrow> explanation option" where
  "rt_explain_pair rt i left right =
     map_option (\<lambda>r. explain_pair (rec_current r) left right (rt_limits rt)) (map_of (rt_proofs rt) i)"

definition rt_conflict_graph :: "runtime \<Rightarrow> diversity_proof_id \<Rightarrow> conflict_graph option" where
  "rt_conflict_graph rt i = map_option (\<lambda>r. build_conflict_graph (dpf_matrix (rec_current r))) (map_of (rt_proofs rt) i)"

definition stats_render :: "runtime_stats \<Rightarrow> string" where
  "stats_render s =
     ''evaluations='' @ decimal (unat (rs_evaluations s)) @ '' commits='' @ decimal (unat (rs_commits s)) @
     '' unchanged='' @ decimal (unat (rs_unchanged s)) @ '' idempotent='' @ decimal (unat (rs_idempotent s)) @
     '' rejected='' @ decimal (unat (rs_rejected s)) @ '' watermark-rejections='' @ decimal (unat (rs_watermark_rejections s)) @
     '' invalidations='' @ decimal (unat (rs_invalidations s)) @ '' demotions='' @ decimal (unat (rs_demotions s))"

definition rt_render :: "runtime \<Rightarrow> string" where
  "rt_render rt =
     ''runtime '' @ ''1.0.0'' @ '' policies='' @ decimal (length (rt_policies rt)) @ '' proofs='' @ decimal (length (rt_proofs rt)) @
     [CHR 0x0A] @ ''  indexes: path='' @ decimal (length (rt_by_path rt)) @ '' domain='' @ decimal (length (rt_by_domain rt)) @
     '' risk-group='' @ decimal (length (rt_by_risk_group rt)) @ '' entity='' @ decimal (length (rt_by_entity rt)) @
     '' policy='' @ decimal (length (rt_by_policy rt)) @ '' boot='' @ decimal (length (rt_by_boot rt)) @
     '' topology-generation='' @ decimal (length (rt_by_topology rt)) @
     '' failure-domain-generation='' @ decimal (length (rt_by_failure_domain rt)) @
     [CHR 0x0A] @ ''  stats: '' @ stats_render (rt_stats rt) @ [CHR 0x0A] @
     concat (map (\<lambda>(i, p). ''  '' @ dp_render p @ [CHR 0x0A]) (rt_policies rt)) @
     concat (map (\<lambda>(i, r). ''  proof '' @ id_view i @ ''@g'' @ gen_text (dpf_generation (rec_current r)) @
       '' outcome='' @ proof_outcome_to_string (dpf_outcome (rec_current r)) @
       '' lifecycle='' @ lifecycle_state_to_string (dpf_lifecycle (rec_current r)) @
       '' currentness='' @ currentness_to_string (dpf_currentness (rec_current r)) @
       '' history='' @ decimal (length (rec_history r)) @ [CHR 0x0A]) (rt_proofs rt))"

section \<open>The latest snapshot is of the current revision\<close>

text \<open>What a snapshot and a proof agree on, whatever became of the lifecycle since.\<close>

definition same_revision :: "proof_snapshot \<Rightarrow> diversity_proof \<Rightarrow> bool" where
  "same_revision s p \<longleftrightarrow>
     sn_proof s = dpf_id p \<and> sn_generation s = dpf_generation p \<and> sn_outcome s = dpf_outcome p \<and>
     sn_policy s = rq_policy (dpf_request p) \<and> sn_paths s = rq_paths (dpf_request p) \<and> sn_classes s = dpf_classes p \<and>
     sn_conflicts s = dpf_conflicts p \<and> sn_witness s = dpf_witness p \<and> sn_dependencies s = dpf_dependencies p \<and>
     sn_provenance s = dpf_provenance p"

definition snapshots_ok :: "runtime \<Rightarrow> bool" where
  "snapshots_ok rt \<longleftrightarrow> (\<forall>i r. map_of (rt_proofs rt) i = Some r \<and> id_valid (dpf_id (rec_current r)) \<longrightarrow>
     rec_snapshots r \<noteq> [] \<and> same_revision (last (rec_snapshots r)) (rec_current r))"

lemma capture_same_revision: "same_revision (capture_snapshot p) p"
  by (simp add: same_revision_def)

lemma snapshots_ok_put:
  assumes "snapshots_ok rt" "id_valid (dpf_id (rec_current r)) \<Longrightarrow> rec_snapshots r \<noteq> [] \<and> same_revision (last (rec_snapshots r)) (rec_current r)"
  shows "snapshots_ok (put_record i r rt)"
  using assms by (auto simp: snapshots_ok_def)

lemma snapshots_ok_same:
  assumes "snapshots_ok rt" "map_of (rt_proofs rt) i = Some r" "rec_snapshots r' = rec_snapshots r"
    and "\<And>s. same_revision s (rec_current r') = same_revision s (rec_current r)" "dpf_id (rec_current r') = dpf_id (rec_current r)"
  shows "snapshots_ok (put_record i r' rt)"
  using assms by (intro snapshots_ok_put) (auto simp: snapshots_ok_def)

lemma micro_snapshots: "micro rt rt' \<Longrightarrow> snapshots_ok rt \<Longrightarrow> snapshots_ok rt'"
proof (induction rule: micro.induct)
  case (reserve rt i)
  then show ?case by (intro snapshots_ok_put) (simp_all add: empty_record_def default_proof_def)
next
  case (revise rt t stored a p ev)
  have "snapshots_ok (put_record (proof_identity (tk_request t)) (store_revision (max_history (rt_limits rt)) p stored) rt)"
    using revise.prems by (rule snapshots_ok_put) (simp add: store_revision_def push_bounded_def capture_same_revision)
  then show ?case by (simp add: snapshots_ok_def)
next
  case (transition rt i stored target reason)
  from transition.prems transition.hyps(1) show ?case
    by (rule snapshots_ok_same) (simp_all add: transition_record_def Let_def same_revision_def)
next
  case (demote rt i stored cn detail)
  from demote.prems demote.hyps(1) show ?case
    by (rule snapshots_ok_same) (simp_all add: demoted_def same_revision_def)
qed (simp_all add: snapshots_ok_def)

lemma micros_snapshots: "micro\<^sup>*\<^sup>* rt rt' \<Longrightarrow> snapshots_ok rt \<Longrightarrow> snapshots_ok rt'"
  by (induction rule: rtranclp_induct) (auto intro: micro_snapshots)

lemma load_snapshots: "snapshots_ok rt \<Longrightarrow> snapshots_ok (load_contents c rt)"
  unfolding snapshots_ok_def
proof (intro allI impI)
  fix i r
  assume old: "\<forall>i r. map_of (rt_proofs rt) i = Some r \<and> id_valid (dpf_id (rec_current r)) \<longrightarrow>
      rec_snapshots r \<noteq> [] \<and> same_revision (last (rec_snapshots r)) (rec_current r)"
    and new: "map_of (rt_proofs (load_contents c rt)) i = Some r \<and> id_valid (dpf_id (rec_current r))"
  obtain r0 where r0: "map_of (rt_proofs rt) i = Some r0 \<or> (\<exists>p\<in>set (sc_proofs c). dpf_id p = i \<and> r0 = loaded_record p)"
      "rec_current r = rec_current r0" "rec_snapshots r = rec_snapshots r0"
    using loaded_record_cases [of c rt i r] new by blast
  from r0(1) have "rec_snapshots r0 \<noteq> [] \<and> same_revision (last (rec_snapshots r0)) (rec_current r0)"
  proof
    assume "map_of (rt_proofs rt) i = Some r0"
    then show ?thesis using old new unfolding r0(2) by blast
  next
    assume "\<exists>p\<in>set (sc_proofs c). dpf_id p = i \<and> r0 = loaded_record p"
    then show ?thesis by (auto simp: loaded_record_def capture_same_revision)
  qed
  then show "rec_snapshots r \<noteq> [] \<and> same_revision (last (rec_snapshots r)) (rec_current r)" unfolding r0(2,3) .
qed

lemma lives_snapshots: "(life_step P)\<^sup>*\<^sup>* rt rt' \<Longrightarrow> snapshots_ok rt \<Longrightarrow> snapshots_ok rt'"
proof (induction rule: rtranclp_induct)
  case (step y z)
  have y: "snapshots_ok y" using step by blast
  from step.hyps(2) show ?case
  proof (cases rule: life_step_elim)
    case operation
    then show ?thesis using micros_snapshots [OF runtime_step_micro] y by blast
  next
    case (load snapshot_ok c)
    then show ?thesis using load_snapshots [OF y] by simp
  qed
qed

lemma reachable_snapshots: "reachable l rt \<Longrightarrow> snapshots_ok rt"
proof -
  assume "reachable l rt"
  then obtain pub where "(life_step load_fits)\<^sup>*\<^sup>* (new_runtime pub l) rt" by (auto simp: reachable_def)
  moreover have "snapshots_ok (new_runtime pub l)" by (simp add: snapshots_ok_def new_runtime_def)
  ultimately show "snapshots_ok rt" by (rule lives_snapshots)
qed

text \<open>C28: In every reachable state, a proof that is stored has a latest snapshot, and it is the snapshot of its current
  revision: the same generation, outcome, paths, classes, conflicts, witness, bindings and provenance. Its
  identity is listed and answers to a diff.\<close>

theorem latest_snapshot_is_the_current_revision:
  assumes "reachable l rt" "stored_proof rt i = Some p" "id_valid (dpf_id p)"
  shows "\<exists>s. rt_snapshot rt i = Some s \<and> same_revision s p \<and> sn_id s \<in> set (rt_snapshot_ids rt i) \<and>
    rt_diff rt i (sn_id s) (sn_id s) = Some (diff_snapshots s s (rt_limits rt))"
proof -
  obtain r where r: "map_of (rt_proofs rt) i = Some r" "p = rec_current r" using assms(2) by (auto simp: stored_proof_def)
  have s: "rec_snapshots r \<noteq> []" "same_revision (last (rec_snapshots r)) p"
    using reachable_snapshots [OF assms(1)] r assms(3) by (auto simp: snapshots_ok_def)
  define s where "s = last (rec_snapshots r)"
  have snapshots: "rec_snapshots r = butlast (rec_snapshots r) @ [s]" using s(1) by (simp add: s_def)
  have "find_snapshots (sn_id s) (sn_id s) (rec_snapshots r) = (Some s, Some s)"
    by (subst snapshots) (simp add: find_snapshots_def split_beta)
  then have "rt_diff rt i (sn_id s) (sn_id s) = Some (diff_snapshots s s (rt_limits rt))" by (simp add: rt_diff_def r(1))
  moreover have "rt_snapshot rt i = Some s" using s(1) by (simp add: rt_snapshot_def r(1) s_def)
  moreover have "sn_id s \<in> set (rt_snapshot_ids rt i)" using s(1) by (simp add: rt_snapshot_ids_def r(1) s_def)
  ultimately show ?thesis using s(2) by (auto simp: s_def)
qed


section \<open>The conflict graph of a published proof\<close>

lemma mark_pairs:
  assumes "length adj = n * n" "\<forall>(i, j)\<in>set ps. i < n \<and> j < n" "a < n" "b < n"
  shows "length (fold (\<lambda>(i, j) adj. if P i j then adj[i * n + j := 1] else adj) ps adj) = n * n \<and>
    (fold (\<lambda>(i, j) adj. if P i j then adj[i * n + j := (1 :: u8)] else adj) ps adj ! (a * n + b) \<noteq> 0 \<longleftrightarrow>
      adj ! (a * n + b) \<noteq> 0 \<or> (a, b) \<in> set ps \<and> P a b)"
  using assms(1,2)
proof (induction ps arbitrary: adj)
  case (Cons p ps)
  obtain i j where p: "p = (i, j)" by (cases p)
  have ij: "i < n" "j < n" using Cons.prems(2) by (auto simp: p)
  have step: "length (adj[i * n + j := 1]) = n * n"
    "adj[i * n + j := (1 :: u8)] ! (a * n + b) \<noteq> 0 \<longleftrightarrow> adj ! (a * n + b) \<noteq> 0 \<or> (a = i \<and> b = j)"
    using Cons.prems(1) cell_position [OF assms(3,4) ij] cell_position_less [OF assms(3,4)] by (auto simp: nth_list_update)
  show ?case
  proof (cases "P i j")
    case True
    then show ?thesis using Cons.IH [of "adj[i * n + j := 1]"] Cons.prems(2) step by (auto simp: p)
  next
    case False
    then show ?thesis using Cons.IH [of adj] Cons.prems by (auto simp: p)
  qed
qed auto

lemma fold_rows:
  "fold (\<lambda>i adj. fold (\<lambda>j adj. f i j adj) cols adj) rows adj = fold (\<lambda>(i, j). f i j) (List.product rows cols) adj"
  by (induction rows arbitrary: adj) (simp_all add: fold_map comp_def)

lemma edge_build_conflict_graph:
  assumes "i < length (pm_order m)" "j < length (pm_order m)"
  shows "edge (build_conflict_graph m) i j \<longleftrightarrow> pair_conflict m i j"
proof -
  define n where "n = length (pm_order m)"
  have body: "(if i = j then adj else case matrix_at m i j of
      Some cell \<Rightarrow> if \<not> cell_independent cell then adj[i * n + j := 1] else adj | None \<Rightarrow> adj) =
    (if pair_conflict m i j then adj[i * n + j := 1] else adj)" for i j and adj :: "u8 list"
    by (simp add: pair_conflict_def split: option.split)
  have "cg_adjacent (build_conflict_graph m) =
      fold (\<lambda>(i, j) adj. if pair_conflict m i j then adj[i * n + j := 1] else adj) (List.product [0..<n] [0..<n]) (replicate (n * n) 0)"
    by (simp add: build_conflict_graph_def Let_def body fold_rows flip: n_def)
  then have "cg_adjacent (build_conflict_graph m) ! (i * n + j) \<noteq> 0 \<longleftrightarrow> pair_conflict m i j"
    using mark_pairs [of "replicate (n * n) 0" n "List.product [0..<n] [0..<n]" i j "pair_conflict m"] assms
      cell_position_less [of i n j] by (simp add: n_def)
  then show ?thesis using assms by (simp add: edge_def build_conflict_graph_def Let_def n_def)
qed

lemma build_conflict_graph_count [simp]: "cg_path_count (build_conflict_graph m) = length (pm_order m)"
  by (simp add: build_conflict_graph_def Let_def)

lemma admitted_matrix:
  assumes "admitted p inputs view l rs cs" "\<not> rejected_outcome (ev_outcome (evaluate_admitted ob l p inputs rs cs fp))"
  shows "ev_matrix (evaluate_admitted ob l p inputs rs cs fp) = the_matrix p view l rs cs"
proof -
  obtain cells ds gs where pairs: "evaluate_pairs p inputs (max_conflicts_per_proof l) cs = (cells, ds, gs)"
    by (cases "evaluate_pairs p inputs (max_conflicts_per_proof l) cs")
  then have cells: "cells = pm_cells (the_matrix p view l rs cs)" using admitted_evaluated [OF assms(1)] by simp
  have order: "pm_order (the_matrix p view l rs cs) = map pr_path rs" by (simp add: the_matrix_def)
  show ?thesis
  proof (cases "set_stage ob l p \<lparr>pm_order = map pr_path rs, pm_cells = cells\<rparr> (length rs)")
    case (Inl e)
    then have "rejected_outcome (ev_outcome e)" by (auto simp: set_stage_def rejected_outcome_def split: if_splits)
    then show ?thesis using assms(2) Inl pairs by (simp add: evaluate_admitted_def)
  next
    case (Inr st)
    then show ?thesis using pairs cells order by (simp add: evaluate_admitted_def Let_def split: prod.split)
  qed
qed

text \<open>C19: The conflict graph the runtime shows is the truth about the evidence: when an evaluation was applied and came to
  a verdict, proven, not diverse or unknown, the graph of the stored proof has one vertex per requested path and
  joins two of them exactly when the evidence the evaluation saw does not prove them diverse under every required class.\<close>

theorem published_graph_shows_the_evidence:
  assumes "evaluate before behind q a rt = (r, rt')" "mr_status r = MS_APPLIED" "mr_proof r = Some p"
    and "dpf_outcome p \<in> {PO_PROVEN_DIVERSE, PO_NOT_DIVERSE, PO_UNKNOWN_INCOMPLETE_EVIDENCE}"
    and "published_policy rt (rq_policy q) = Some policy" "limits_wf (rt_limits rt)"
  shows "\<exists>g. rt_conflict_graph rt' (dpf_id p) = Some g \<and> cg_path_count g = length (rq_paths (dpf_request p)) \<and>
    (\<forall>i j. i < j \<and> j < cg_path_count g \<longrightarrow> (\<exists>c d.
       bound_composition (vw_structure before) (rq_paths (dpf_request p) ! i) c \<and>
       bound_composition (vw_structure before) (rq_paths (dpf_request p) ! j) d \<and>
       (edge g i j \<longleftrightarrow> \<not> pair_proven policy (vw_domains before) c d)))"
proof -
  obtain t rt1 where b: "begin_evaluation q a rt = (Inr t, rt1)"
    using assms(1,2) begin_refused by (cases "begin_evaluation q a rt") (auto simp: evaluate_def split: sum.splits)
  note bt = begin_ticket [OF b]
  have l: "rt_limits rt1 = rt_limits rt" by (subst bt(6)) simp
  let ?fe = "run_evaluation (rt_limits rt) before behind t" and ?in = "views_inputs before (rt_limits rt)"
  have c: "commit_evaluation a t ?fe rt1 = (r, rt')" using assms(1) by (simp add: evaluate_def b l)
  obtain g where g: "p = build_revision a t (fe_evaluation ?fe) g" "stored_proof rt' (dpf_id p) = Some p"
    using commit_applied [OF c assms(2)] assms(3) by auto
  have policy: "tk_policy t = policy" using bt(3) assms(5) by (simp add: published_policy_def)
  have ev: "fe_evaluation ?fe = evaluate_diversity (tk_request t) policy ?in" by (simp add: run_evaluation_def Let_def policy)
  have verdict: "\<not> rejected_outcome (ev_outcome (evaluate_diversity (tk_request t) policy ?in))"
    using assms(4) by (auto simp: g(1) ev rejected_outcome_def)
  then obtain ob l rs cs fp where P: "passes (tk_request t) policy ?in ob l rs cs fp" using decided_passes by blast
  have l: "l = rt_limits rt" using P by (auto simp: passes_def views_inputs_def)
  have view: "in_domains ?in = Some (vw_domains before)" "in_structure ?in = Some (vw_structure before)" by (simp_all add: views_inputs_def)
  have A: "admitted (dp_canonicalize policy) ?in (vw_domains before) l rs cs"
    using passes_admitted [OF P view(1)] assms(6) l by simp
  let ?m = "the_matrix (dp_canonicalize policy) (vw_domains before) l rs cs"
  have "dpf_matrix p = ev_matrix (evaluate_diversity (tk_request t) policy ?in)" by (simp add: g(1) ev build_revision_def Let_def)
  then have m: "dpf_matrix p = ?m" using admitted_matrix [OF A] verdict by (simp add: passes_evaluate [OF P])
  note rs = passes_paths [OF P view(2)]
  have paths: "rq_paths (dpf_request p) = rs" using rs(1) by (simp add: g(1) bt(1))
  have "\<exists>c d. bound_composition (vw_structure before) (rs ! i) c \<and> bound_composition (vw_structure before) (rs ! j) d \<and>
      (edge (build_conflict_graph ?m) i j \<longleftrightarrow> \<not> pair_proven policy (vw_domains before) c d)" if "i < j" "j < length rs" for i j
  proof -
    have "edge (build_conflict_graph ?m) i j \<longleftrightarrow> \<not> pair_proven (dp_canonicalize policy) (vw_domains before) (cs ! i) (cs ! j)"
      using that rs(3) edge_build_conflict_graph [of i ?m j] matrix_conflict_iff(1) [OF A, of i j] by simp
    then show ?thesis using passes_pair [OF P view(2), of i j "vw_domains before"] that by auto
  qed
  moreover have "rt_conflict_graph rt' (dpf_id p) = Some (build_conflict_graph ?m)"
    using g(2) m by (auto simp: rt_conflict_graph_def stored_proof_def)
  ultimately show ?thesis by (simp add: paths the_matrix_def)
qed


section \<open>A sample state with a proof\<close>

definition sample_commit :: runtime where
  "sample_commit = snd (commit_evaluation (sample_acting ''w1'' ''t2'') sample_ticket
     (run_evaluation sample_limits sample_views sample_views sample_ticket) sample_runtime)"

definition sample_revision :: diversity_proof where
  "sample_revision = build_revision (sample_acting ''w1'' ''t2'') sample_ticket
     (fe_evaluation (run_evaluation sample_limits sample_views sample_views sample_ticket)) (Generation 1)"

lemma sample_commit_reachable: "reachable sample_limits sample_commit"
  unfolding sample_commit_def
  by (rule reachable_steps [OF sample_runtime_reachable(1)], rule r_into_rtranclp, rule runtime_step.commit)

lemma sample_commit_stored: "stored_proof sample_commit (dpf_id sample_revision) = Some sample_revision"
proof -
  have "commit_guard (sample_acting ''w1'' ''t2'') sample_ticket sample_runtime = None"
    by (simp add: commit_guard_def sample_ticket_def sample_request_def sample_acting_def sample_runtime_fields)
  moreover have "\<not> gen_is_set (aa_expected_proof (sample_acting ''w1'' ''t2''))"
    by (simp add: sample_acting_def gen_is_set_def gen_unset_def)
  ultimately have "map_of (rt_proofs sample_commit) (proof_identity (tk_request sample_ticket)) =
      Some (store_revision (max_history (rt_limits sample_runtime)) sample_revision empty_record)"
    unfolding sample_commit_def sample_revision_def
    by (intro commit_fresh) (simp_all add: sample_runtime_fields sample_limits_fields sample_run(2))
  then show ?thesis by (simp add: stored_proof_def store_revision_def sample_revision_def)
qed

lemma latest_snapshot_is_the_current_revision_witness:
  "\<exists>s. rt_snapshot sample_commit (dpf_id sample_revision) = Some s \<and> sn_outcome s = PO_PROVEN_DIVERSE"
proof -
  have "id_valid (dpf_id sample_revision)" by (simp add: sample_revision_def)
  moreover have "dpf_outcome sample_revision = PO_PROVEN_DIVERSE" by (simp add: sample_revision_def sample_run(1) sample_proven)
  ultimately show ?thesis
    using latest_snapshot_is_the_current_revision [OF sample_commit_reachable sample_commit_stored] by (auto simp: same_revision_def)
qed

lemma published_graph_shows_the_evidence_witness:
  "\<exists>g p. rt_conflict_graph (snd (evaluate sample_views sample_views (sample_request [''a'', ''b'']) (sample_acting ''w1'' ''t2'')
     (sample_state []))) p = Some g \<and> cg_path_count g = 2"
proof -
  let ?p = "build_revision (sample_acting ''w1'' ''t2'') sample_ticket
       (evaluate_diversity (sample_request [''a'', ''b'']) sample_policy sample_inputs) (Generation 1)"
  have "dpf_outcome ?p \<in> {PO_PROVEN_DIVERSE, PO_NOT_DIVERSE, PO_UNKNOWN_INCOMPLETE_EVIDENCE}" by (simp add: sample_proven)
  moreover have "published_policy (sample_state []) (rq_policy (sample_request [''a'', ''b''])) = Some sample_policy"
    by (simp add: published_policy_def sample_state_def new_runtime_def sample_request_def)
  moreover have "limits_wf (rt_limits (sample_state []))" by (simp add: sample_state_def new_runtime_def sample_simps)
  ultimately obtain g where "rt_conflict_graph (snd (evaluate sample_views sample_views (sample_request [''a'', ''b''])
      (sample_acting ''w1'' ''t2'') (sample_state []))) (dpf_id ?p) = Some g" "cg_path_count g = length (rq_paths (dpf_request ?p))"
    using published_graph_shows_the_evidence [OF prod.collapse [symmetric] sample_evaluate] by blast
  moreover have "length (rq_paths (dpf_request ?p)) = 2" by (simp add: sample_ticket_def sample_request_def)
  ultimately show ?thesis by metis
qed

end
