(* ===== verification/Synthetic.thy ===== *)
theory Synthetic
  imports Evidence
begin

text \<open>
  The synthetic fabric generator, \<open>src/synthetic.cpp\<close>: the SplitMix64 stream, the placement and classification of
  entities, the paths of the fabric and a policy for them. Indices are 32-bit words and wrap as in the code; the
  loop over the offsets is a \<open>partial_function\<close>, because it does not end for every option.
\<close>

section \<open>The stream\<close>

definition rng_next :: "u64 \<Rightarrow> u64 \<times> u64" where
  "rng_next state =
     (let state = state + 0x9e3779b97f4a7c15;
          z = state;
          z = (z XOR drop_bit 30 z) * 0xbf58476d1ce4e5b9;
          z = (z XOR drop_bit 27 z) * 0x94d049bb133111eb
      in (z XOR drop_bit 31 z, state))"

definition rng_below :: "u32 \<Rightarrow> u64 \<Rightarrow> u32 \<times> u64" where
  "rng_below bound state =
     (if bound = 0 then (0, state) else case rng_next state of (v, state) \<Rightarrow> (ucast (v mod ucast bound), state))"

definition rng_bool :: "u64 \<Rightarrow> bool \<times> u64" where
  "rng_bool state = (case rng_next state of (v, state) \<Rightarrow> (v AND 1 \<noteq> 0, state))"

section \<open>Options and the fabric\<close>

record fabric_options =
  so_spines :: u32
  so_leaves :: u32
  so_racks :: u32
  so_pods :: u32
  so_sites :: u32
  so_paths_per_pair :: u32
  so_complete :: bool
  so_seed :: u64

definition default_options :: fabric_options where
  "default_options =
     \<lparr>so_spines = 4, so_leaves = 8, so_racks = 4, so_pods = 2, so_sites = 1, so_paths_per_pair = 2, so_complete = True,
      so_seed = 20260101\<rparr>"

record synthetic_path =
  sp_path :: path_id
  sp_generation :: path_authority_generation
  sp_label :: string

record synthetic_fabric =
  sf_options :: fabric_options
  sf_topology :: topology_generation
  sf_failure_domain :: failure_domain_generation
  sf_paths :: "synthetic_path list"

definition fabric_render :: "synthetic_fabric \<Rightarrow> string" where
  "fabric_render f =
     (let opt = sf_options f
      in ''synthetic fabric spines='' @ decimal (unat (so_spines opt)) @ '' leaves='' @ decimal (unat (so_leaves opt)) @
         '' racks='' @ decimal (unat (so_racks opt)) @ '' pods='' @ decimal (unat (so_pods opt)) @
         '' sites='' @ decimal (unat (so_sites opt)) @ '' paths='' @ decimal (length (sf_paths f)) @
         '' topology=g'' @ gen_text (sf_topology f) @ '' failure-domains=g'' @ gen_text (sf_failure_domain f) @
         (if so_complete opt then '' coverage=COMPLETE'' else '' coverage=PARTIAL'') @ '' seed='' @ decimal (unat (so_seed opt)))"

section \<open>Names\<close>

text \<open>The \<open>MaxLen\<close> of the remaining identities of \<open>ids.hpp\<close>.\<close>

definition link_id_max :: nat where "link_id_max = 128"
definition node_id_max :: nat where "node_id_max = 128"
definition device_id_max :: nat where "device_id_max = 128"

definition index_text :: "u32 \<Rightarrow> string" where
  "index_text v = decimal (unat v)"

definition single_domain :: "string \<Rightarrow> failure_domain_id list" where
  "single_domain text = (case try_parse failure_domain_id_max text of None \<Rightarrow> [] | Some i \<Rightarrow> [i])"

definition single_group :: "string \<Rightarrow> shared_risk_group_id list" where
  "single_group text = (case try_parse shared_risk_group_id_max text of None \<Rightarrow> [] | Some i \<Rightarrow> [i])"

definition host_name :: "u32 \<Rightarrow> string" where "host_name i = ''host-'' @ index_text i"
definition leaf_name :: "u32 \<Rightarrow> string" where "leaf_name i = ''leaf-'' @ index_text i"
definition spine_name :: "u32 \<Rightarrow> string" where "spine_name i = ''spine-'' @ index_text i"

definition link_name :: "string \<Rightarrow> string \<Rightarrow> string" where
  "link_name a b = ''link-'' @ a @ ''-'' @ b"

definition path_name :: "u32 \<Rightarrow> u32 \<Rightarrow> u32 \<Rightarrow> string" where
  "path_name i destination offset =
     ''path-syn-'' @ index_text i @ ''-'' @ index_text destination @ ''-'' @ index_text offset"

definition the_node :: "string \<Rightarrow> node_id" where "the_node text = parsed (parse_id ''NodeId'' node_id_max text)"
definition the_link :: "string \<Rightarrow> link_id" where "the_link text = parsed (parse_id ''LinkId'' link_id_max text)"
definition the_device :: "string \<Rightarrow> device_id" where "the_device text = parsed (parse_id ''DeviceId'' device_id_max text)"

section \<open>Placement and classification\<close>

record placement =
  pl_rack :: u32
  pl_pod :: u32
  pl_site :: u32

definition placement_of :: "u32 \<Rightarrow> fabric_options \<Rightarrow> placement" where
  "placement_of device_index opt =
     \<lparr>pl_rack = (if so_racks opt = 0 then 0 else device_index mod so_racks opt),
      pl_pod = (if so_pods opt = 0 then 0 else device_index mod so_pods opt),
      pl_site = (if so_sites opt = 0 then 0 else device_index mod so_sites opt)\<rparr>"

definition classify_entity ::
  "entity_ref \<Rightarrow> placement \<Rightarrow> string \<Rightarrow> evidence_coverage \<Rightarrow> evidence_store \<Rightarrow> evidence_store" where
  "classify_entity entity placement risk_group coverage es =
     (let es = set_domain_membership entity DR_FAILURE_DOMAIN coverage (single_domain (''fd-'' @ index_text (pl_rack placement))) es;
          es = set_domain_membership entity DR_RACK coverage (single_domain (''rack-'' @ index_text (pl_rack placement))) es;
          es = set_domain_membership entity DR_POD coverage (single_domain (''pod-'' @ index_text (pl_pod placement))) es;
          es = set_domain_membership entity DR_SITE coverage (single_domain (''site-'' @ index_text (pl_site placement))) es;
          es = set_domain_membership entity DR_POWER_DOMAIN coverage (single_domain (''pwr-'' @ index_text (pl_rack placement))) es
      in if risk_group \<noteq> [] then set_srlg_membership entity coverage (single_group risk_group) es else es)"

text \<open>The stream is seeded anew for every entity: its first value decides. The salt is 32-bit, the product 64-bit.\<close>

definition coverage_for :: "fabric_options \<Rightarrow> u32 \<Rightarrow> evidence_coverage" where
  "coverage_for opt salt =
     (if so_complete opt then EV_COMPLETE
      else if fst (rng_next (so_seed opt XOR (0x9e3779b9 * ucast (salt + 1)))) mod 8 = 0 then EV_ABSENT else EV_COMPLETE)"

section \<open>A policy\<close>

definition synthetic_policy :: "string \<Rightarrow> scope_id \<Rightarrow> set_semantics \<Rightarrow> nat \<Rightarrow> diversity_policy" where
  "synthetic_policy text scope semantics minimum_paths =
     dp_canonicalize
       \<lparr>dp_id = (case try_parse diversity_policy_id_max text of
            Some i \<Rightarrow> i | None \<Rightarrow> parsed (parse_id ''DiversityPolicyId'' diversity_policy_id_max ''dpol-synthetic'')),
        dp_generation = Generation 1, dp_scope = scope,
        dp_required_classes = [DC_LINK_DISJOINT, DC_TRANSIT_NODE_DISJOINT, DC_DEVICE_DISJOINT, DC_FAILURE_DOMAIN_DISJOINT],
        dp_endpoint_exemption = EE_SHARED_SOURCE_AND_DESTINATION, dp_minimum_independent_paths = minimum_paths,
        dp_semantics = semantics, dp_completeness = CR_REQUIRE_COMPLETE_EVIDENCE, dp_unknown_behavior = UB_REJECT_PROOF,
        dp_allowed_relations = [DR_FAILURE_DOMAIN, DR_RACK, DR_POD, DR_SITE], dp_require_authority_current = True,
        dp_description = ''synthetic policy '' @ text\<rparr>"

section \<open>The fabric\<close>

definition spine_count :: "fabric_options \<Rightarrow> u32" where
  "spine_count opt = (if so_spines opt = 0 then 1 else so_spines opt)"

definition leaf_count :: "fabric_options \<Rightarrow> u32" where
  "leaf_count opt = (if so_leaves opt < 2 then 2 else so_leaves opt)"

definition synthetic_composition :: "path_id \<Rightarrow> u32 \<Rightarrow> u32 \<Rightarrow> u32 \<Rightarrow> path_composition" where
  "synthetic_composition path i destination spine =
     pc_canonicalize
       (default_path_composition
         \<lparr>pc_path := path, pc_authority_generation := Generation 1, pc_topology_generation := Generation 1,
          pc_sources := [the_node (host_name i)], pc_destinations := [the_node (host_name destination)],
          pc_transit_nodes := [the_node (leaf_name i), the_node (spine_name spine), the_node (leaf_name destination)],
          pc_links := [the_link (link_name (host_name i) (leaf_name i)), the_link (link_name (leaf_name i) (spine_name spine)),
            the_link (link_name (spine_name spine) (leaf_name destination)),
            the_link (link_name (leaf_name destination) (host_name destination))],
          pc_devices := [the_device (leaf_name i), the_device (spine_name spine), the_device (leaf_name destination)]\<rparr>)"

definition classify_path :: "fabric_options \<Rightarrow> u32 \<Rightarrow> u32 \<Rightarrow> u32 \<Rightarrow> evidence_store \<Rightarrow> evidence_store" where
  "classify_path opt i destination spine es =
     (let source = placement_of i opt; target = placement_of destination opt;
          middle = placement_of (spine_count opt + spine) opt;
          group = ''srlg-spine-'' @ index_text spine;
          es = classify_entity (EntityRef EK_ENDPOINT (host_name i)) source [] (coverage_for opt (i * 7 + 1)) es;
          es = classify_entity (EntityRef EK_ENDPOINT (host_name destination)) target [] (coverage_for opt (destination * 7 + 2)) es;
          es = classify_entity (EntityRef EK_NODE (leaf_name i)) source [] (coverage_for opt (i * 7 + 3)) es;
          es = classify_entity (EntityRef EK_NODE (spine_name spine)) middle group (coverage_for opt (spine * 7 + 4)) es;
          es = classify_entity (EntityRef EK_NODE (leaf_name destination)) target [] (coverage_for opt (destination * 7 + 5)) es;
          es = classify_entity (EntityRef EK_LINK (link_name (host_name i) (leaf_name i))) source [] (coverage_for opt (i * 7 + 6)) es;
          es = classify_entity (EntityRef EK_LINK (link_name (leaf_name i) (spine_name spine))) source group (coverage_for opt (i * 7 + 7)) es;
          es = classify_entity (EntityRef EK_LINK (link_name (spine_name spine) (leaf_name destination))) target group
                 (coverage_for opt (destination * 7 + 8)) es;
          es = classify_entity (EntityRef EK_LINK (link_name (leaf_name destination) (host_name destination))) target []
                 (coverage_for opt (destination * 7 + 9)) es;
          es = classify_entity (EntityRef EK_DEVICE (leaf_name i)) source [] (coverage_for opt (i * 7 + 10)) es;
          es = classify_entity (EntityRef EK_DEVICE (spine_name spine)) middle group (coverage_for opt (spine * 7 + 11)) es
      in classify_entity (EntityRef EK_DEVICE (leaf_name destination)) target [] (coverage_for opt (destination * 7 + 12)) es)"

text \<open>One path: its composition, the classification of its entities, its entry in the catalogue.\<close>

definition add_synthetic_path ::
  "fabric_options \<Rightarrow> u32 \<Rightarrow> u32 \<Rightarrow> evidence_store \<times> synthetic_path list \<Rightarrow> evidence_store \<times> synthetic_path list" where
  "add_synthetic_path opt i offset st =
     (case st of (es, paths) \<Rightarrow>
      let destination = (i + offset) mod leaf_count opt; spine = (i + offset) mod spine_count opt;
          text = path_name i destination offset
      in case try_parse path_id_max text of
           None \<Rightarrow> (es, paths)
         | Some path \<Rightarrow>
             (classify_path opt i destination spine (set_path (synthetic_composition path i destination spine) es),
              paths @ [\<lparr>sp_path = path, sp_generation = Generation 1, sp_label = text\<rparr>]))"

partial_function (option) offset_loop ::
  "fabric_options \<Rightarrow> u32 \<Rightarrow> u32 \<Rightarrow> evidence_store \<times> synthetic_path list \<Rightarrow> (evidence_store \<times> synthetic_path list) option" where
  "offset_loop opt i offset st =
     (if offset \<le> so_paths_per_pair opt then offset_loop opt i (offset + 1) (add_synthetic_path opt i offset st) else Some st)"

fun leaf_loop ::
  "fabric_options \<Rightarrow> nat list \<Rightarrow> evidence_store \<times> synthetic_path list \<Rightarrow> (evidence_store \<times> synthetic_path list) option" where
  "leaf_loop opt [] st = Some st"
| "leaf_loop opt (i # is) st = (case offset_loop opt (of_nat i) 1 st of None \<Rightarrow> None | Some st \<Rightarrow> leaf_loop opt is st)"

definition populate_synthetic_fabric ::
  "fabric_options \<Rightarrow> evidence_store \<Rightarrow> (evidence_store \<times> synthetic_fabric) option" where
  "populate_synthetic_fabric opt es =
     (case leaf_loop opt [0..<unat (leaf_count opt)]
        (set_failure_domain_generation (Generation 1) (set_topology_generation (Generation 1) es), []) of
        None \<Rightarrow> None
      | Some (es, paths) \<Rightarrow>
          Some (es, \<lparr>sf_options = opt, sf_topology = Generation 1, sf_failure_domain = Generation 1, sf_paths = paths\<rparr>))"


section \<open>Every name parses\<close>

lemma digit_identity: "d < 10 \<Longrightarrow> identity_char (digit_char d)"
  by (simp add: identity_char_def digit_char_def Let_def of_char_of)

lemma decimal_identity: "list_all identity_char (decimal n)"
proof (induction n rule: decimal.induct)
  case (1 n)
  then show ?case by (subst decimal.simps) (simp add: digit_identity)
qed

lemma length_decimal: "n < 10 ^ k \<Longrightarrow> 0 < k \<Longrightarrow> length (decimal n) \<le> k"
proof (induction k arbitrary: n)
  case (Suc k)
  show ?case
  proof (cases "n < 10")
    case True
    then show ?thesis by (subst decimal.simps) simp
  next
    case False
    then have "n div 10 < 10 ^ k" "0 < k" using Suc.prems(1) by (cases k; simp add: less_mult_imp_div_less mult.commute)+
    with Suc.IH have "length (decimal (n div 10)) \<le> k" by blast
    then show ?thesis using False by (subst decimal.simps) simp
  qed
qed simp

lemma index_text_ok: "list_all identity_char (index_text i)" "length (index_text i) \<le> 10" "index_text i \<noteq> []"
proof -
  have "unat i < 2 ^ 32" using unsigned_less [of i] by simp
  then show "length (index_text i) \<le> 10" unfolding index_text_def by (intro length_decimal) simp_all
qed (simp_all add: index_text_def decimal_identity)

lemma name_parts: "list_all identity_char t \<Longrightarrow> t \<noteq> [] \<Longrightarrow> length t \<le> n \<Longrightarrow> valid_identity_text t n"
  by (simp add: valid_identity_text_def)

lemma names_valid:
  "valid_identity_text (host_name i) node_id_max" "valid_identity_text (leaf_name i) node_id_max" "valid_identity_text (spine_name i) node_id_max"
  "valid_identity_text (leaf_name i) device_id_max" "valid_identity_text (spine_name i) device_id_max"
  "valid_identity_text (path_name i j k) path_id_max"
  "valid_identity_text (link_name (host_name i) (leaf_name j)) link_id_max" "valid_identity_text (link_name (leaf_name i) (spine_name j)) link_id_max"
  "valid_identity_text (link_name (spine_name i) (leaf_name j)) link_id_max" "valid_identity_text (link_name (leaf_name i) (host_name j)) link_id_max"
  using index_text_ok(2) [of i] index_text_ok(2) [of j] index_text_ok(2) [of k]
  by (auto intro!: name_parts simp: host_name_def leaf_name_def spine_name_def path_name_def link_name_def identity_char_def index_text_ok(1,3)
      node_id_max_def device_id_max_def path_id_max_def link_id_max_def)


lemma synthetic_names_parse:
  "the_node (host_name i) = StringId (host_name i)" "the_node (leaf_name i) = StringId (leaf_name i)"
  "the_node (spine_name i) = StringId (spine_name i)" "the_device (leaf_name i) = StringId (leaf_name i)"
  "the_device (spine_name i) = StringId (spine_name i)" "try_parse path_id_max (path_name i j k) = Some (StringId (path_name i j k))"
  "the_link (link_name (host_name i) (leaf_name j)) = StringId (link_name (host_name i) (leaf_name j))"
  "the_link (link_name (leaf_name i) (spine_name j)) = StringId (link_name (leaf_name i) (spine_name j))"
  "the_link (link_name (spine_name i) (leaf_name j)) = StringId (link_name (spine_name i) (leaf_name j))"
  "the_link (link_name (leaf_name i) (host_name j)) = StringId (link_name (leaf_name i) (host_name j))"
  using names_valid by (simp_all add: the_node_def the_device_def the_link_def parse_id_def parsed_def try_parse_def)

section \<open>The stream and the policy\<close>

text \<open>A bounded draw is below its bound, and a zero bound draws nothing.\<close>

theorem rng_below_bounded:
  "(bound \<noteq> 0 \<longrightarrow> fst (rng_below bound state) < bound) \<and> rng_below 0 state = (0, state)"
proof -
  have "(ucast (v mod ucast bound :: u64) :: u32) < bound" if "bound \<noteq> 0" for v :: u64
  proof -
    have small: "unat (ucast bound :: u64) = unat bound" 

    proof -
      have "unat bound < 2 ^ 32" using unsigned_less [of bound] by simp
      then have "unat bound < 2 ^ 64" by simp
      then show ?thesis by (simp only: unsigned_ucast_eq) (simp add: take_bit_nat_eq_self)
    qed
    then have "(ucast bound :: u64) \<noteq> 0" using that by (metis unat_0 unat_eq_zero)
    then have "unat (v mod ucast bound :: u64) < unat bound" using small by (metis unat_mod mod_less_divisor unat_gt_0)
    moreover have "unat (ucast (v mod ucast bound :: u64) :: u32) \<le> unat (v mod ucast bound :: u64)"
      by (simp add: unsigned_ucast_eq take_bit_nat_less_eq_self)
    ultimately show ?thesis by (simp add: word_less_nat_alt)
  qed
  then show ?thesis by (simp add: rng_below_def split: prod.split)
qed

lemma rng_below_bounded_witness: "fst (rng_below 10 42) < 10"
  using rng_below_bounded [of 10 42] by simp

text \<open>The synthetic policy is accepted by validation under any limits that hold four classes and the threshold asked for,
  whatever its name: a name that is no identity falls back to a valid one.\<close>

theorem synthetic_policy_is_valid:
  assumes "id_valid scope" "2 \<le> k" "k \<le> max_paths_per_proof l" "4 \<le> max_required_classes l"
    and "17 + length text \<le> max_persistence_record_bytes l"
  shows "pv_ok (validate_policy (synthetic_policy text scope semantics k) l)"
proof -
  have "id_valid (dp_id (synthetic_policy text scope semantics k))"
    by (auto simp: synthetic_policy_def parse_id_def parsed_def try_parse_def valid_identity_text_def identity_char_def
        diversity_policy_id_max_def id_valid_def dp_canonicalize_def)
  then show ?thesis
    unfolding validate_policy_verdict
    using assms by (simp add: policy_acceptable_def synthetic_policy_def dp_canonicalize_def gen_is_set_def)
qed

lemma synthetic_policy_is_valid_witness:
  "pv_ok (validate_policy (synthetic_policy ''not an identity'' (StringId ''s'') SS_ALL_PAIRS 2) default_limits)"
  by (rule synthetic_policy_is_valid) (simp_all add: id_valid_def default_limits_def)

section \<open>The generator ends, or not\<close>

lemma offset_loop_runs:
  assumes "so_paths_per_pair opt \<noteq> - 1"
  shows "offset_loop opt i offset st =
    Some (fold (\<lambda>k. add_synthetic_path opt i (of_nat k)) [unat offset..<Suc (unat (so_paths_per_pair opt))] st)"
proof (induction "Suc (unat (so_paths_per_pair opt)) - unat offset" arbitrary: offset st)
  case 0
  then have "\<not> offset \<le> so_paths_per_pair opt" by (simp add: word_le_nat_alt)
  then show ?case using 0 by (subst offset_loop.simps) simp
next
  case (Suc d)
  then have le: "offset \<le> so_paths_per_pair opt" by (simp add: word_le_nat_alt)
  have "offset \<noteq> - 1" using le assms word_n1_ge [of "so_paths_per_pair opt"] by (metis order.antisym)
  then have "1 + offset \<noteq> 0" by (simp add: add_eq_0_iff)
  then have next_offset: "unat (offset + 1) = Suc (unat offset)" using unatSuc [of offset] by (simp add: add.commute)
  have "offset_loop opt i (offset + 1) (add_synthetic_path opt i offset st) =
      Some (fold (\<lambda>k. add_synthetic_path opt i (of_nat k)) [unat (offset + 1)..<Suc (unat (so_paths_per_pair opt))]
        (add_synthetic_path opt i offset st))"
    by (rule Suc.hyps(1)) (use Suc.hyps(2) next_offset in simp)
  moreover have "[unat offset..<Suc (unat (so_paths_per_pair opt))] = unat offset # [unat (offset + 1)..<Suc (unat (so_paths_per_pair opt))]"
    using Suc.hyps(2) next_offset by (subst upt_conv_Cons) simp_all
  ultimately show ?case using le by (subst offset_loop.simps) simp
qed

lemma offset_loop_ends: "offset_loop opt i offset st = Some r \<Longrightarrow> so_paths_per_pair opt \<noteq> - 1"
proof (rule offset_loop.raw_induct [where P = "\<lambda>opt i offset st r. so_paths_per_pair opt \<noteq> - 1"])
  fix f :: "fabric_options \<Rightarrow> u32 \<Rightarrow> u32 \<Rightarrow> evidence_store \<times> synthetic_path list \<Rightarrow> (evidence_store \<times> synthetic_path list) option"
    and opt i offset st r
  assume IH: "\<And>opt i offset st r. f opt i offset st = Some r \<Longrightarrow> so_paths_per_pair opt \<noteq> - 1"
    and run: "(if offset \<le> so_paths_per_pair opt then f opt i (offset + 1) (add_synthetic_path opt i offset st) else Some st) = Some r"
  show "so_paths_per_pair opt \<noteq> - 1"
  proof (cases "offset \<le> so_paths_per_pair opt")
    case True
    then show ?thesis using IH run by simp
  next
    case False
    then show ?thesis by (metis word_n1_ge)
  qed
qed


lemma leaf_loop_runs:
  assumes "so_paths_per_pair opt \<noteq> - 1"
  shows "leaf_loop opt is st = Some (fold (\<lambda>i st. fold (\<lambda>k. add_synthetic_path opt (of_nat i) (of_nat k))
    [1..<Suc (unat (so_paths_per_pair opt))] st) is st)"
  by (induction "is" arbitrary: st) (simp_all add: offset_loop_runs [OF assms])

lemma generator_ends:
  "populate_synthetic_fabric opt es = None \<longleftrightarrow> so_paths_per_pair opt = - 1"
proof (cases "so_paths_per_pair opt = - 1")
  case False
  then show ?thesis by (simp add: populate_synthetic_fabric_def leaf_loop_runs split: prod.split)
next
  case True
  have "leaf_count opt \<noteq> 0" by (auto simp: leaf_count_def word_less_nat_alt)
  then have "unat (leaf_count opt) \<noteq> 0" by (simp add: unat_eq_zero)
  then obtain i "is" where leaves: "[0..<unat (leaf_count opt)] = i # is" by (cases "[0..<unat (leaf_count opt)]") auto
  have "offset_loop opt (of_nat i) 1 st = None" for st using offset_loop_ends True by (metis not_None_eq)
  then show ?thesis by (simp add: populate_synthetic_fabric_def leaves True)
qed

text \<open>C40: The generator ends for every option but one: with paths_per_pair at the largest 32-bit value the loop counter wraps
  to zero before it exceeds the bound, and the generator never returns.\<close>

theorem generator_ends_iff:
  "populate_synthetic_fabric opt es = None \<longleftrightarrow> so_paths_per_pair opt = - 1"
  by (rule generator_ends)

section \<open>The catalogue is backed by the evidence\<close>

lemma classify_entity_paths [simp]: "es_paths (classify_entity e pl g c es) = es_paths es"
  by (simp add: classify_entity_def set_domain_membership_def set_srlg_membership_def Let_def)

lemma classify_path_paths [simp]: "es_paths (classify_path opt i j k es) = es_paths es"
  by (simp add: classify_path_def Let_def)

lemma classify_entity_topology [simp]: "es_topology (classify_entity e pl g c es) = es_topology es"
  by (simp add: classify_entity_def set_domain_membership_def set_srlg_membership_def Let_def)

lemma classify_path_topology [simp]: "es_topology (classify_path opt i j k es) = es_topology es"
  by (simp add: classify_path_def Let_def)

definition catalogued :: "evidence_store \<times> synthetic_path list \<Rightarrow> bool" where
  "catalogued st \<longleftrightarrow> es_topology (fst st) = Generation 1 \<and>
     (\<forall>p\<in>set (snd st). sp_generation p = Generation 1 \<and> es_is_authorized (fst st) (sp_path p) (Generation 1) \<and>
        (\<exists>c. es_composition (fst st) (sp_path p) = Some c \<and> pc_path c = sp_path p \<and> pc_authority_generation c = Generation 1 \<and>
           pc_topology_generation c = Generation 1 \<and> pc_canonicalize c = c))"

lemma synthetic_composition_fields [simp]:
  "pc_path (synthetic_composition path i j k) = path" "pc_authority_generation (synthetic_composition path i j k) = Generation 1"
  "pc_topology_generation (synthetic_composition path i j k) = Generation 1"
  "pc_canonicalize (synthetic_composition path i j k) = synthetic_composition path i j k"
  by (simp_all add: synthetic_composition_def)

lemma add_synthetic_path_catalogued:
  assumes "catalogued st"
  shows "catalogued (add_synthetic_path opt i offset st) \<and>
    length (snd (add_synthetic_path opt i offset st)) = Suc (length (snd st))"
proof -
  obtain es paths where st: "st = (es, paths)" by (cases st)
  define j where "j = (i + offset) mod leaf_count opt"
  define k where "k = (i + offset) mod spine_count opt"
  define path :: path_id where "path = StringId (path_name i j offset)"
  define es' where "es' = classify_path opt i j k (set_path (synthetic_composition path i j k) es)"
  have lookup: "map_of (es_paths es') q = (if q = path then Some \<lparr>pr_composition = synthetic_composition path i j k,
      pr_current = Generation 1, pr_authorized = True\<rparr> else map_of (es_paths es) q)" for q
    by (simp add: es'_def set_path_def)
  have new: "es_is_authorized es' path (Generation 1)" "es_composition es' path = Some (synthetic_composition path i j k)"
    by (simp_all add: es_is_authorized_def es_composition_def lookup)
  have old: "es_is_authorized es' q g \<longleftrightarrow> es_is_authorized es q g" "es_composition es' q = es_composition es q" if "q \<noteq> path" for q g
    using that by (simp_all add: es_is_authorized_def es_composition_def lookup)
  have "add_synthetic_path opt i offset st = (es', paths @ [\<lparr>sp_path = path, sp_generation = Generation 1, sp_label = path_name i j offset\<rparr>])"
    by (simp add: st add_synthetic_path_def Let_def synthetic_names_parse es'_def path_def j_def k_def)
  moreover have "es_topology es' = es_topology es" by (simp add: es'_def set_path_def)
  moreover have "sp_generation p = Generation 1 \<and> es_is_authorized es' (sp_path p) (Generation 1) \<and>
      (\<exists>c. es_composition es' (sp_path p) = Some c \<and> pc_path c = sp_path p \<and> pc_authority_generation c = Generation 1 \<and>
         pc_topology_generation c = Generation 1 \<and> pc_canonicalize c = c)" if "p \<in> set paths" for p
    using assms that new old [of "sp_path p"] by (cases "sp_path p = path") (auto simp: catalogued_def st)
  ultimately show ?thesis using assms new by (auto simp: catalogued_def st)
qed

lemma fold_catalogued:
  assumes "\<And>x st. catalogued st \<Longrightarrow> catalogued (f x st) \<and> length (snd (f x st)) = n + length (snd st)" "catalogued st"
  shows "catalogued (fold f xs st) \<and> length (snd (fold f xs st)) = length xs * n + length (snd st)"
  using assms(2) by (induction xs arbitrary: st) (simp_all add: assms(1))

text \<open>Whatever the options, the catalogue the generator returns has paths_per_pair entries per leaf, and each is backed by
  the evidence it filled in: the path is authorized at generation 1 and has a canonical composition under its own
  identity, derived under that authority and the topology generation now in force.\<close>

theorem catalogue_is_backed:
  assumes "populate_synthetic_fabric opt es = Some (es', fabric)"
  shows "length (sf_paths fabric) = unat (leaf_count opt) * unat (so_paths_per_pair opt) \<and>
    (\<forall>p\<in>set (sf_paths fabric). es_is_authorized es' (sp_path p) (sp_generation p) \<and>
       (\<exists>c. es_composition es' (sp_path p) = Some c \<and> pc_path c = sp_path p \<and> pc_authority_generation c = sp_generation p \<and>
          pc_topology_generation c = es_topology es' \<and> pc_canonicalize c = c))"
proof -
  have ends: "so_paths_per_pair opt \<noteq> - 1" using assms generator_ends [of opt es] by auto
  define start :: "evidence_store \<times> synthetic_path list" where
    "start = (set_failure_domain_generation (Generation 1) (set_topology_generation (Generation 1) es), [])"
  let ?n = "unat (so_paths_per_pair opt)"
  define offsets where "offsets = [1..<Suc ?n]"
  let ?row = "\<lambda>i st. fold (\<lambda>k. add_synthetic_path opt (of_nat i) (of_nat k)) offsets st"
  have "catalogued start" by (simp add: catalogued_def start_def set_failure_domain_generation_def set_topology_generation_def)
  moreover have "catalogued (?row i st) \<and> length (snd (?row i st)) = ?n + length (snd st)" if "catalogued st" for i :: nat and st
    using fold_catalogued [of "\<lambda>k. add_synthetic_path opt (of_nat i) (of_nat k)" 1 st offsets] that add_synthetic_path_catalogued
    by (simp add: offsets_def del: upt_Suc)
  ultimately have "catalogued (fold ?row [0..<unat (leaf_count opt)] start) \<and>
      length (snd (fold ?row [0..<unat (leaf_count opt)] start)) = unat (leaf_count opt) * ?n"
    using fold_catalogued [of ?row ?n start "[0..<unat (leaf_count opt)]"] by (simp add: start_def)
  moreover have "(es', sf_paths fabric) = fold ?row [0..<unat (leaf_count opt)] start"
    using assms leaf_loop_runs [OF ends, folded offsets_def]
    by (auto simp: populate_synthetic_fabric_def start_def split: prod.splits)
  ultimately show ?thesis by (auto simp: catalogued_def dest: sym)
qed

lemma catalogue_is_backed_witness:
  "\<exists>es fabric. populate_synthetic_fabric default_options empty_store = Some (es, fabric) \<and> length (sf_paths fabric) = 16"
proof -
  have "populate_synthetic_fabric default_options empty_store \<noteq> None"
    by (simp add: generator_ends) (simp add: default_options_def)
  then obtain es fabric where "populate_synthetic_fabric default_options empty_store = Some (es, fabric)" by auto
  with catalogue_is_backed [OF this] show ?thesis by (auto simp: leaf_count_def default_options_def)
qed

section \<open>A degenerate path\<close>

text \<open>An offset that is a multiple of the number of leaves leads a path back to the host it starts from: its composition
  repeats its leaf, so an evaluation that is asked about it finds it malformed. With paths_per_pair at or above
  leaf_count the generator lists such paths beside the others.\<close>

theorem wrapped_path_is_malformed:
  assumes "(i + offset) mod leaf_count opt = i"
  shows "has_repeated_topology_elements (synthetic_composition path i ((i + offset) mod leaf_count opt) spine) \<and>
    pc_sources (synthetic_composition path i ((i + offset) mod leaf_count opt) spine) =
      pc_destinations (synthetic_composition path i ((i + offset) mod leaf_count opt) spine)"
proof -
  have "\<not> distinct [the_node (leaf_name i), the_node (spine_name spine), the_node (leaf_name i)]" by simp
  then show ?thesis
    using repeated_topology_iff by (auto simp: assms synthetic_composition_def pc_canonicalize_def has_repeated_topology_elements_def)
qed

lemma wrapped_path_is_malformed_witness:
  "has_repeated_topology_elements (synthetic_composition (StringId ''p'') 3 3 0)"
  using wrapped_path_is_malformed [of 3 8 default_options "StringId ''p''" 0] by (simp add: leaf_count_def default_options_def)

end
