(* ===== verification/Cli.thy ===== *)
theory Cli
  imports Json RuntimeView Synthetic RuntimeRestart
begin

text \<open>
  The operator tool, \<open>tools/path_diversity_cli.cpp\<close>: arguments, the built-in profiles, the scenario a command runs in,
  the renderings, the self test and \<open>main\<close>. What the tool prints is text that is appended to the standard output or
  the standard error; the process entropy, the clock, the temporary directory and the outcomes of the file
  operations are parameters. A command that does not return would be \<open>None\<close>.
\<close>

section \<open>Versions and arguments\<close>

definition kSeed :: u64 where "kSeed = 20260101"

definition newline :: string where "newline = [CHR 0x0A]"

definition usage :: string where
  "usage =
     ''usage: path_diversity <command> [policy-name] [options]'' @ newline @
     ''commands: version | selftest | explain <policy-name> | evaluate <policy-name> | render'' @ newline @
     ''policy-name: link | transit-node | device | failure-domain | synthetic | at-least-k | incomplete'' @ newline @
     ''  --pdk <path>   save the runtime store to <path> after the command'' @ newline @
     ''  --load <path>  load a runtime store from <path> first; the command then reports the first'' @ newline @
     ''                 proof bound to the selected policy, or the first stored proof'' @ newline @
     ''  --json         print the deterministic machine-readable rendering'' @ newline @
     ''exit codes: 0 success, 1 failed assertion, 2 usage error, 3 runtime failure.'' @ newline"

definition version_text :: "bool \<Rightarrow> string" where
  "version_text json =
     (if json
      then jobj [''command'', jtext ''version'', ''library'', jtext ''Path Diversity Fabric'', ''version'', jtext ''1.0.0'',
        ''persistence_format'', jnum kPersistenceFormatVersion, ''canonical_encoding'', jnum kCanonicalEncodingVersion,
        ''digest_scheme'', jnum kDigestSchemeVersion, ''wire_protocol'', jnum kWireProtocolVersion,
        ''rule_set'', jnum kDiversityRuleSetVersion]
      else version_report) @ newline"

record cli_options =
  op_command :: string
  op_policy_name :: string
  op_pdk :: string
  op_load :: string
  op_json :: bool

definition no_options :: cli_options where
  "no_options = \<lparr>op_command = [], op_policy_name = [], op_pdk = [], op_load = [], op_json = False\<rparr>"

definition complain :: "string \<Rightarrow> string" where
  "complain message = ''path_diversity: '' @ message @ newline"

fun scan_arguments :: "string list \<Rightarrow> cli_options \<Rightarrow> string list \<Rightarrow> string + cli_options \<times> string list" where
  "scan_arguments [] opt positional = Inr (opt, positional)"
| "scan_arguments (a # arguments) opt positional =
     (if a = ''--json'' then scan_arguments arguments (opt\<lparr>op_json := True\<rparr>) positional
      else if a = ''--pdk'' \<or> a = ''--load''
      then (case arguments of
          [] \<Rightarrow> Inl (complain (a @ '' requires a path''))
        | path # arguments \<Rightarrow>
            scan_arguments arguments (if a = ''--pdk'' then opt\<lparr>op_pdk := path\<rparr> else opt\<lparr>op_load := path\<rparr>) positional)
      else if a \<noteq> [] \<and> hd a = CHR ''-'' then Inl (complain (''unknown option '' @ a))
      else scan_arguments arguments opt (positional @ [a]))"

definition parse_options :: "string list \<Rightarrow> string + cli_options" where
  "parse_options arguments =
     (case scan_arguments arguments no_options [] of
        Inl message \<Rightarrow> Inl message
      | Inr (opt, positional) \<Rightarrow>
          if positional = [] then Inl (complain ''no command given'')
          else let opt = opt\<lparr>op_command := positional ! 0\<rparr>
            in if (op_command opt = ''explain'' \<or> op_command opt = ''evaluate'') \<and> length positional < 2
               then Inl (complain (op_command opt @ '' requires a policy name''))
               else if 2 < length positional then Inl (complain (''unexpected argument '' @ positional ! 2))
               else Inr (if length positional = 2 then opt\<lparr>op_policy_name := positional ! 1\<rparr> else opt))"

section \<open>Profiles\<close>

record profile =
  pf_policy :: diversity_policy
  pf_fabric :: fabric_options
  pf_path_count :: nat

definition profile_fabric :: fabric_options where
  "profile_fabric =
     \<lparr>so_spines = 2, so_leaves = 4, so_racks = 2, so_pods = 2, so_sites = 1, so_paths_per_pair = 1, so_complete = True,
      so_seed = kSeed\<rparr>"

definition simple_policy :: "string \<Rightarrow> diversity_class \<Rightarrow> endpoint_exemption \<Rightarrow> domain_relation list \<Rightarrow> diversity_policy" where
  "simple_policy name klass exemption relations =
     dp_canonicalize ((synthetic_policy (''dpol-cli-'' @ name) default_scope SS_ALL_PAIRS 2)
       \<lparr>dp_required_classes := [klass], dp_endpoint_exemption := exemption, dp_allowed_relations := relations,
        dp_description := ''synthetic '' @ name @ '' profile''\<rparr>)"

definition profile_for :: "string \<Rightarrow> profile option" where
  "profile_for name =
     (let shared = EE_SHARED_SOURCE_AND_DESTINATION;
          plain = (\<lambda>policy. Some \<lparr>pf_policy = policy, pf_fabric = profile_fabric, pf_path_count = 4\<rparr>);
          text = ''dpol-cli-'' @ name
      in if name = ''link'' then plain (simple_policy name DC_LINK_DISJOINT EE_NONE [])
         else if name = ''transit-node'' then plain (simple_policy name DC_TRANSIT_NODE_DISJOINT shared [])
         else if name = ''device'' then plain (simple_policy name DC_DEVICE_DISJOINT shared [])
         else if name = ''failure-domain''
         then plain (simple_policy name DC_FAILURE_DOMAIN_DISJOINT shared [DR_FAILURE_DOMAIN, DR_RACK, DR_POD, DR_SITE])
         else if name = ''at-least-k''
         then Some \<lparr>pf_policy = synthetic_policy text default_scope SS_AT_LEAST_K_INDEPENDENT 3,
                pf_fabric = profile_fabric\<lparr>so_spines := 3, so_leaves := 8\<rparr>, pf_path_count = 8\<rparr>
         else if name = ''synthetic'' \<or> name = ''incomplete''
         then Some \<lparr>pf_policy = synthetic_policy text default_scope SS_ALL_PAIRS 2,
                pf_fabric = profile_fabric\<lparr>so_complete := (name \<noteq> ''incomplete'')\<rparr>, pf_path_count = 4\<rparr>
         else None)"

section \<open>The scenario\<close>

record cli_env =
  ce_salt :: u64
  ce_serial :: u64
  ce_ticks :: u64
  ce_temporary :: "string \<Rightarrow> string"
  ce_process :: nat
  ce_tag :: nat
  ce_load :: read_outcome
  ce_save :: write_outcome
  ce_test_load :: read_outcome
  ce_test_save :: write_outcome
  ce_removes :: bool

record scenario =
  sa_evidence :: evidence_store
  sa_runtime :: runtime
  sa_refs :: "path_ref list"
  sa_publisher :: publisher_id
  sa_boot :: worker_boot_id

definition new_scenario :: "limits \<Rightarrow> scenario" where
  "new_scenario l =
     \<lparr>sa_evidence = empty_store, sa_runtime = new_runtime (new_authority l) l, sa_refs = [], sa_publisher = unset_id,
      sa_boot = unset_id\<rparr>"

definition scenario_views :: "scenario \<Rightarrow> views" where
  "scenario_views s =
     \<lparr>vw_authority = es_authority_view (sa_evidence s), vw_structure = es_structure_view (sa_evidence s),
      vw_domains = es_domain_view (sa_evidence s)\<rparr>"

definition actor :: "string \<Rightarrow> scenario \<Rightarrow> acting_authority" where
  "actor label s =
     \<lparr>aa_epoch = pa_epoch (rt_publication (sa_runtime s)), aa_publisher = sa_publisher s, aa_boot = sa_boot s,
      aa_scope = default_scope,
      aa_attempt = parsed (parse_id ''MutationAttemptId'' mutation_attempt_id_max (''attempt-cli-'' @ label)),
      aa_expected_policy = gen_unset, aa_expected_proof = gen_unset\<rparr>"

text \<open>The serial number of a mint is the number of mints of the process before it, plus one.\<close>

definition scenario_register :: "u64 \<Rightarrow> u64 \<Rightarrow> string \<Rightarrow> scenario \<Rightarrow> bool \<times> scenario" where
  "scenario_register salt serial label s =
     (let s = s\<lparr>sa_publisher := parsed (mint_publisher_id salt serial label),
               sa_boot := parsed (mint_worker_boot_id salt (serial + 1))\<rparr>
      in case register_publisher
             \<lparr>ps_publisher = sa_publisher s, ps_boot = sa_boot s, ps_epoch = pa_epoch (rt_publication (sa_runtime s)),
              ps_scope = default_scope, ps_fenced = False\<rparr> (rt_publication (sa_runtime s)) of
           (status, pub) \<Rightarrow> (status = AS_ACCEPTED, s\<lparr>sa_runtime := (sa_runtime s)\<lparr>rt_publication := pub\<rparr>\<rparr>))"

definition scenario_feed :: "fabric_options \<Rightarrow> scenario \<Rightarrow> scenario option" where
  "scenario_feed opt s =
     (case populate_synthetic_fabric opt (sa_evidence s) of
        None \<Rightarrow> None
      | Some (es, fabric) \<Rightarrow>
          Some (s\<lparr>sa_evidence := es, sa_refs := map (\<lambda>p. PathRef (sp_path p) (sp_generation p)) (sf_paths fabric)\<rparr>))"

definition scenario_request :: "profile \<Rightarrow> path_ref list \<Rightarrow> diversity_policy_generation \<Rightarrow> proof_request" where
  "scenario_request pf refs generation =
     snd (rq_canonicalize
       (empty_request\<lparr>rq_policy := dp_id (pf_policy pf), rq_policy_generation := generation,
          rq_paths := take (min (length refs) (pf_path_count pf)) refs\<rparr>))"

definition scenario_publish :: "profile \<Rightarrow> string \<Rightarrow> scenario \<Rightarrow> mutation_result \<times> scenario" where
  "scenario_publish pf label s =
     (case publish_policy (pf_policy pf) (actor label s) (sa_runtime s) of (r, rt) \<Rightarrow> (r, s\<lparr>sa_runtime := rt\<rparr>))"

definition scenario_evaluate :: "proof_request \<Rightarrow> string \<Rightarrow> scenario \<Rightarrow> mutation_result \<times> scenario" where
  "scenario_evaluate request label s =
     (case evaluate (scenario_views s) (scenario_views s) request (actor label s) (sa_runtime s) of
        (r, rt) \<Rightarrow> (r, s\<lparr>sa_runtime := rt\<rparr>))"

definition store_report :: "bool \<Rightarrow> bool \<Rightarrow> string \<Rightarrow> persistence_status \<Rightarrow> string" where
  "store_report json saving path status =
     (let action = (if saving then ''save'' else ''load'')
      in (if json
          then jobj [''store'', jtext action, ''path'', jtext path, ''status'', jtext (persistence_status_to_string status)]
          else action @ '' '' @ path @ '' status '' @ persistence_status_to_string status) @ newline)"

section \<open>Renderings\<close>

definition jpaths :: "nat list \<Rightarrow> string" where
  "jpaths indices = jarr (map jnum indices)"

definition conflict_json :: "shared_resource \<Rightarrow> string" where
  "conflict_json c =
     jobj [''kind'', jtext (conflict_class_to_string (sr_kind c)), ''relation'', jtext (domain_relation_to_string (sr_relation c)),
       ''id'', jtext (sr_id c), ''paths'', jpaths (sr_paths c)]"

definition class_json :: "class_result \<Rightarrow> string" where
  "class_json r =
     jobj [''class'', jtext (diversity_class_to_string (cr_klass r)), ''outcome'', jtext (proof_outcome_to_string (cr_outcome r)),
       ''evidence_complete'', jbool (cr_evidence_complete r), ''shared_total'', jnum (unat (cr_shared_total r))]"

definition witness_json :: "witness_subset \<Rightarrow> string" where
  "witness_json w =
     jobj [''present'', jbool (ws_present w), ''requested_k'', jnum (ws_requested_k w), ''achieved'', jnum (ws_achieved w),
       ''maximum_exact'', jbool (ws_maximum_exact w)]"

definition proof_json :: "diversity_proof \<Rightarrow> string" where
  "proof_json p =
     jobj [''command'', jtext ''evaluate'', ''proof'', jtext (id_view (dpf_id p)), ''generation'', jnum (unat (gen_value (dpf_generation p))),
       ''policy'', jtext (id_view (rq_policy (dpf_request p))), ''outcome'', jtext (proof_outcome_to_string (dpf_outcome p)),
       ''lifecycle'', jtext (lifecycle_state_to_string (dpf_lifecycle p)), ''currentness'', jtext (currentness_to_string (dpf_currentness p)),
       ''detail'', jtext (dpf_detail p), ''paths'', jarr (map (\<lambda>r. jtext (id_view (pr_path r))) (rq_paths (dpf_request p))),
       ''classes'', jarr (map class_json (dpf_classes p)), ''conflicts'', jarr (map conflict_json (dpf_conflicts p)),
       ''conflicts_total'', jnum (unat (dpf_conflicts_total p)), ''witness'', witness_json (dpf_witness p),
       ''matrix_cells'', jnum (length (pm_cells (dpf_matrix p))), ''request_digest'', jtext (digest_hex (dpf_request_digest p)),
       ''semantic_digest'', jtext (digest_hex (dpf_semantic_digest p))]"

definition proof_lines :: "diversity_proof \<Rightarrow> string" where
  "proof_lines p =
     ''proof '' @ id_view (dpf_id p) @ ''@g'' @ gen_text (dpf_generation p) @ newline @
     ''policy '' @ id_view (rq_policy (dpf_request p)) @ ''@g'' @ gen_text (rq_policy_generation (dpf_request p)) @ newline @
     ''outcome '' @ proof_outcome_to_string (dpf_outcome p) @ '' lifecycle '' @ lifecycle_state_to_string (dpf_lifecycle p) @
     '' currentness '' @ currentness_to_string (dpf_currentness p) @ newline @ ''detail '' @ dpf_detail p @ newline @
     ''paths ['' @ join '','' (map (\<lambda>r. id_view (pr_path r)) (rq_paths (dpf_request p))) @ '']'' @ newline @
     ''classes'' @ concat (map (\<lambda>r. '' '' @ diversity_class_to_string (cr_klass r) @ ''='' @ proof_outcome_to_string (cr_outcome r) @
        ''/'' @ (if cr_evidence_complete r then ''COMPLETE'' else ''INCOMPLETE'') @ ''/shared='' @ decimal (unat (cr_shared_total r)))
       (dpf_classes p)) @ newline @
     ''conflicts '' @ decimal (length (dpf_conflicts p)) @ '' of '' @ decimal (unat (dpf_conflicts_total p)) @ newline @
     concat (map (\<lambda>c. ''  '' @ sr_render c @ newline) (dpf_conflicts p)) @
     ''witness '' @ ws_render (dpf_witness p) @ newline @ ''matrix-cells '' @ decimal (length (pm_cells (dpf_matrix p))) @ newline @
     ''digest request '' @ digest_hex (dpf_request_digest p) @ newline @
     ''digest semantic '' @ digest_hex (dpf_semantic_digest p) @ newline"

definition proof_text :: "diversity_proof \<Rightarrow> bool \<Rightarrow> string" where
  "proof_text p json = (if json then proof_json p @ newline else proof_lines p)"

definition entry_json :: "explanation_entry \<Rightarrow> string" where
  "entry_json e =
     jobj [''kind'', jtext (explanation_kind_to_string (xe_kind e)), ''class'', jtext (diversity_class_to_string (xe_class e)),
       ''outcome'', jtext (proof_outcome_to_string (xe_outcome e)), ''subject'', jtext (xe_subject e),
       ''detail'', jtext (xe_detail e), ''paths'', jpaths (xe_paths e)]"

definition explanation_json :: "explanation \<Rightarrow> string \<Rightarrow> string" where
  "explanation_json x policy =
     jobj [''command'', jtext ''explain'', ''policy'', jtext policy, ''proof'', jtext (id_view (xp_proof x)),
       ''generation'', jnum (unat (gen_value (xp_generation x))), ''outcome'', jtext (proof_outcome_to_string (xp_outcome x)),
       ''truncated'', jbool (xp_truncated x), ''entries_total'', jnum (unat (xp_total x)),
       ''entries'', jarr (map entry_json (xp_entries x))]"

definition stats_json :: "runtime_stats \<Rightarrow> string" where
  "stats_json s =
     jobj [''evaluations'', jnum (unat (rs_evaluations s)), ''commits'', jnum (unat (rs_commits s)),
       ''unchanged_revalidations'', jnum (unat (rs_unchanged s)), ''idempotent_replays'', jnum (unat (rs_idempotent s)),
       ''rejected_mutations'', jnum (unat (rs_rejected s)), ''watermark_rejections'', jnum (unat (rs_watermark_rejections s)),
       ''invalidations'', jnum (unat (rs_invalidations s)), ''demotions'', jnum (unat (rs_demotions s))]"

definition stored_json :: "diversity_proof \<Rightarrow> string" where
  "stored_json p =
     jobj [''id'', jtext (id_view (dpf_id p)), ''generation'', jnum (unat (gen_value (dpf_generation p))),
       ''outcome'', jtext (proof_outcome_to_string (dpf_outcome p)), ''lifecycle'', jtext (lifecycle_state_to_string (dpf_lifecycle p)),
       ''currentness'', jtext (currentness_to_string (dpf_currentness p))]"

definition runtime_json :: "runtime \<Rightarrow> string" where
  "runtime_json rt =
     jobj [''command'', jtext ''render'', ''policy_count'', jnum (policy_count rt), ''proof_count'', jnum (proof_count rt),
       ''stats'', stats_json (rt_stats rt),
       ''proofs'', jarr (map stored_json (List.map_filter (stored_proof rt) (qr_proofs (all_proofs rt))))]"

section \<open>The self test\<close>

record self_test =
  tf_failures :: nat
  tf_checks :: nat
  tf_json :: bool
  tf_cases :: "string list"
  tf_out :: string

definition test_check :: "string \<Rightarrow> bool \<Rightarrow> self_test \<Rightarrow> self_test" where
  "test_check name condition t =
     t\<lparr>tf_checks := tf_checks t + 1, tf_failures := tf_failures t + (if condition then 0 else 1),
       tf_cases := tf_cases t @ [jobj [''name'', jtext name, ''passed'', jbool condition]],
       tf_out := (if tf_json t then tf_out t else tf_out t @ (if condition then ''PASS '' else ''FAIL '') @ name @ newline)\<rparr>"

definition test_report :: "self_test \<Rightarrow> string" where
  "test_report t =
     tf_out t @
     (if tf_json t
      then jobj [''command'', jtext ''selftest'', ''checks'', jnum (tf_checks t), ''failures'', jnum (tf_failures t), ''cases'', jarr (tf_cases t)]
      else ''selftest checks='' @ decimal (tf_checks t) @ '' failures='' @ decimal (tf_failures t)) @ newline"

definition selftest_store_path :: "cli_env \<Rightarrow> string" where
  "selftest_store_path e = ce_temporary e (''path_diversity-cli-selftest-'' @ decimal (unat (ce_ticks e)) @ ''.pdk'')"

text \<open>The checks on the committed proof, the second evaluation among them.\<close>

definition test_proof :: "proof_request \<Rightarrow> diversity_proof \<Rightarrow> self_test \<times> scenario \<Rightarrow> self_test \<times> scenario" where
  "test_proof request p st = (case st of (t, s) \<Rightarrow>
     let t = test_check ''outcome is a defined value'' (is_defined_proof_outcome (proof_outcome_code (dpf_outcome p))) t;
         t = test_check ''semantic digest is stable'' (proof_semantic_digest p = dpf_semantic_digest p) t
     in case scenario_evaluate request ''selftest-evaluate-again'' s of (again, s) \<Rightarrow>
     let t = test_check ''identical re-evaluation does not advance'' (mr_status again = MS_UNCHANGED) t;
         rt = sa_runtime s;
         named = (case rt_explain rt (dpf_id p) of None \<Rightarrow> False | Some x \<Rightarrow> list_ex (\<lambda>e. xe_kind e = XK_PROOF_RESULT) (xp_entries x));
         t = test_check ''explanation is present and names the result'' (rt_explain rt (dpf_id p) \<noteq> None \<and> named) t;
         t = test_check ''snapshot round trip is content addressed''
               (case rt_snapshot rt (dpf_id p) of
                  None \<Rightarrow> False
                | Some snapshot \<Rightarrow> snapshot_digest snapshot = sn_digest snapshot \<and> rt_snapshot_ids rt (dpf_id p) \<noteq> []) t
     in (test_check ''reverse index finds the proof'' (1 \<le> qr_total (proofs_for_path rt (pr_path (rq_paths request ! 0)))) t, s))"

definition test_store :: "cli_env \<Rightarrow> runtime \<Rightarrow> self_test \<Rightarrow> files \<Rightarrow> self_test \<times> files" where
  "test_store e rt t fs =
     (let store = selftest_store_path e in
      case save (ce_test_save e) (temporary_path store (ce_process e) (ce_tag e)) store rt fs of (states, saved) \<Rightarrow>
      let fs = last states;
          t = test_check ''store saved'' (saved = PS_OK) t
      in case (if saved = PS_OK then load (ce_test_load e) store fs (sa_runtime (new_scenario default_limits))
               else (saved, sa_runtime (new_scenario default_limits))) of (status, reloaded) \<Rightarrow>
      let loaded = (saved = PS_OK \<and> status = PS_OK);
          t = test_check ''store loaded'' loaded t;
          t = test_check ''store round trip preserves proofs'' (loaded \<and> proof_count reloaded = proof_count rt) t;
          t = test_check ''store round trip preserves policies'' (loaded \<and> policy_count reloaded = policy_count rt) t
      in (t, if ce_removes e then fs(store := None) else fs))"

definition run_selftest :: "cli_env \<Rightarrow> profile \<Rightarrow> bool \<Rightarrow> files \<Rightarrow> (int \<times> string \<times> files) option" where
  "run_selftest e pf json fs =
     (let t = \<lparr>tf_failures = 0, tf_checks = 0, tf_json = json, tf_cases = [], tf_out = []\<rparr> in
      case scenario_feed (pf_fabric pf) (new_scenario default_limits) of
        None \<Rightarrow> None
      | Some s \<Rightarrow>
        (case scenario_register (ce_salt e) (ce_serial e + 2) ''cli-selftest'' s of (registered, s) \<Rightarrow>
         let t = test_check ''publisher registered'' registered t in
         case scenario_publish pf ''selftest-publish'' s of (published, s) \<Rightarrow>
         let t = test_check ''policy published'' (mr_status published = MS_APPLIED \<and> mr_policy published \<noteq> None) t;
             request = scenario_request pf (sa_refs s) (policy_generation (sa_runtime s) (dp_id (pf_policy pf)));
             t = test_check ''request carries at least two paths'' (2 \<le> length (rq_paths request)) t
         in case scenario_evaluate request ''selftest-evaluate'' s of (committed, s) \<Rightarrow>
         let t = test_check ''proof committed'' (mr_status committed = MS_APPLIED \<and> mr_proof committed \<noteq> None) t
         in case mr_proof committed of
              None \<Rightarrow> Some (1, test_report t, fs)
            | Some p \<Rightarrow>
                (case test_proof request p (t, s) of (t, s) \<Rightarrow>
                 case test_store e (sa_runtime s) t fs of (t, fs) \<Rightarrow>
                 Some (if tf_failures t = 0 then 0 else 1, test_report t, fs))))"

section \<open>Inspection commands\<close>

text \<open>What a command leaves: its exit code and what it printed on the two streams.\<close>

record outcome =
  oc_code :: int
  oc_out :: string
  oc_err :: string

definition succeed :: "string \<Rightarrow> outcome" where
  "succeed text = \<lparr>oc_code = 0, oc_out = text, oc_err = []\<rparr>"

definition fail_with :: "int \<Rightarrow> string \<Rightarrow> outcome" where
  "fail_with code text = \<lparr>oc_code = code, oc_out = [], oc_err = text\<rparr>"

text \<open>Publish the policy and evaluate the request, or take a proof of the loaded store.\<close>

definition inspected_proof :: "profile \<Rightarrow> cli_options \<Rightarrow> scenario \<Rightarrow> (string + diversity_proof_id option) \<times> scenario" where
  "inspected_proof pf opt s =
     (if op_load opt = []
      then (case scenario_publish pf ''publish'' s of (published, s) \<Rightarrow>
        if mr_policy published = None then (Inl (complain (''policy publication failed: '' @ mr_render published)), s)
        else let request = scenario_request pf (sa_refs s) (policy_generation (sa_runtime s) (dp_id (pf_policy pf)))
          in case scenario_evaluate request ''evaluate'' s of (committed, s) \<Rightarrow>
             (case mr_proof committed of
                None \<Rightarrow> (Inl (complain (''evaluation failed: '' @ mr_render committed)), s)
              | Some p \<Rightarrow> (Inr (Some (dpf_id p)), s)))
      else let bound = qr_proofs (proofs_for_policy (sa_runtime s) (dp_id (pf_policy pf))); every = qr_proofs (all_proofs (sa_runtime s))
        in (Inr (if bound \<noteq> [] then Some (hd bound) else if every \<noteq> [] then Some (hd every) else None), s))"

definition show_proof :: "profile \<Rightarrow> cli_options \<Rightarrow> diversity_proof_id option \<Rightarrow> runtime \<Rightarrow> outcome" where
  "show_proof pf opt selected rt =
     (if op_command opt = ''render'' then succeed (if op_json opt then runtime_json rt @ newline else rt_render rt)
      else case selected of
          None \<Rightarrow> fail_with 3 (complain (''no proof is available for '' @ op_command opt))
        | Some i \<Rightarrow>
            if op_command opt = ''explain''
            then (case rt_explain rt i of
                None \<Rightarrow> fail_with 3 (complain (''no proof is stored under '' @ id_view i))
              | Some x \<Rightarrow>
                  succeed (if op_json opt then explanation_json x (id_view (dp_id (pf_policy pf))) @ newline else explanation_render x))
            else (case stored_proof rt i of
                None \<Rightarrow> fail_with 3 (complain (''no proof is stored under '' @ id_view i))
              | Some p \<Rightarrow> succeed (proof_text p (op_json opt))))"

definition run_inspection :: "profile \<Rightarrow> cli_options \<Rightarrow> scenario \<Rightarrow> outcome \<times> scenario" where
  "run_inspection pf opt s =
     (case inspected_proof pf opt s of
        (Inl message, s) \<Rightarrow> (fail_with 3 message, s)
      | (Inr selected, s) \<Rightarrow> (show_proof pf opt selected (sa_runtime s), s))"

section \<open>The program\<close>

definition commands :: "string list" where
  "commands = [''version'', ''selftest'', ''explain'', ''evaluate'', ''render'']"

definition prefixed :: "string \<Rightarrow> outcome \<Rightarrow> outcome" where
  "prefixed text x = x\<lparr>oc_out := text @ oc_out x\<rparr>"

definition run_command :: "cli_env \<Rightarrow> profile \<Rightarrow> cli_options \<Rightarrow> scenario \<Rightarrow> files \<Rightarrow> (outcome \<times> scenario \<times> files) option" where
  "run_command e pf opt s fs =
     (if op_command opt = ''version'' then Some (succeed (version_text (op_json opt)), s, fs)
      else if op_command opt = ''selftest''
      then map_option (\<lambda>(code, text, fs). (\<lparr>oc_code = code, oc_out = text, oc_err = []\<rparr>, s, fs)) (run_selftest e pf (op_json opt) fs)
      else case run_inspection pf opt s of (x, s) \<Rightarrow> Some (x, s, fs))"

text \<open>The save after a command that succeeded.\<close>

definition finish_command :: "cli_env \<Rightarrow> cli_options \<Rightarrow> outcome \<times> scenario \<times> files \<Rightarrow> outcome \<times> files" where
  "finish_command e opt r = (case r of (x, s, fs) \<Rightarrow>
     if oc_code x \<noteq> 0 \<or> op_pdk opt = [] then (x, fs)
     else case save (ce_save e) (temporary_path (op_pdk opt) (ce_process e) (ce_tag e)) (op_pdk opt) (sa_runtime s) fs of
       (states, saved) \<Rightarrow>
         (x\<lparr>oc_out := oc_out x @ store_report (op_json opt) True (op_pdk opt) saved,
            oc_code := (if saved = PS_OK then 0 else 3),
            oc_err := (if saved = PS_OK then oc_err x
              else oc_err x @ complain (''store was not written: '' @ persistence_status_to_string saved))\<rparr>, last states))"

definition run_scenario :: "cli_env \<Rightarrow> profile \<Rightarrow> cli_options \<Rightarrow> files \<Rightarrow> (outcome \<times> files) option" where
  "run_scenario e pf opt fs =
     (case scenario_feed (pf_fabric pf) (new_scenario default_limits) of
        None \<Rightarrow> None
      | Some s \<Rightarrow>
          (case (if op_load opt = [] then (PS_OK, sa_runtime s) else load (ce_load e) (op_load opt) fs (sa_runtime s)) of (loaded, rt) \<Rightarrow>
           let s = s\<lparr>sa_runtime := rt\<rparr>;
               report = (if op_load opt = [] then [] else store_report (op_json opt) False (op_load opt) loaded)
           in if loaded \<noteq> PS_OK
              then Some (prefixed report (fail_with 3
                (complain (''refused store '' @ op_load opt @ '': '' @ persistence_status_to_string loaded))), fs)
              else (case scenario_register (ce_salt e) (ce_serial e) ''cli'' s of (registered, s) \<Rightarrow>
                if \<not> registered then Some (prefixed report (fail_with 3 (complain ''publisher registration was refused'')), fs)
                else map_option (\<lambda>r. case finish_command e opt r of (x, fs) \<Rightarrow> (prefixed report x, fs)) (run_command e pf opt s fs))))"

definition usage_error :: "string \<Rightarrow> outcome" where
  "usage_error message = fail_with 2 (message @ usage)"

text \<open>\<open>main\<close>, given the arguments after the program name.\<close>

definition cli_main :: "cli_env \<Rightarrow> string list \<Rightarrow> files \<Rightarrow> (outcome \<times> files) option" where
  "cli_main e arguments fs =
     (case parse_options arguments of
        Inl message \<Rightarrow> Some (usage_error message, fs)
      | Inr opt \<Rightarrow>
          if op_command opt \<notin> set commands then Some (usage_error (complain (''unknown command '' @ op_command opt)), fs)
          else let name = (if op_policy_name opt = [] then ''synthetic'' else op_policy_name opt)
            in (case profile_for name of
                  None \<Rightarrow> Some (usage_error (complain (''unknown policy name '' @ name)), fs)
                | Some pf \<Rightarrow>
                    if op_command opt = ''version'' \<and> op_pdk opt = [] \<and> op_load opt = []
                    then Some (succeed (version_text (op_json opt)), fs)
                    else run_scenario e pf opt fs))"

end
