(* ===== verification/CliProps.thy ===== *)
theory CliProps
  imports Cli
begin

text \<open>
  What the operator tool promises: it always returns with one of its documented exit codes, its JSON documents read back,
  it writes no file it was not told to write, and a refused store is left alone.
\<close>

section \<open>Arguments and profiles\<close>

definition profile_names :: "string list" where
  "profile_names = [''link'', ''transit-node'', ''device'', ''failure-domain'', ''at-least-k'', ''synthetic'', ''incomplete'']"

lemma profile_known: "profile_for name \<noteq> None \<longleftrightarrow> name \<in> set profile_names"
  unfolding profile_for_def Let_def profile_names_def by (simp split: if_split)

definition plain_profile :: "diversity_policy \<Rightarrow> bool \<Rightarrow> profile" where
  "plain_profile policy complete =
     \<lparr>pf_policy = policy, pf_fabric = profile_fabric\<lparr>so_complete := complete\<rparr>, pf_path_count = 4\<rparr>"

lemma profile_values:
  "profile_for ''link'' = Some (plain_profile (simple_policy ''link'' DC_LINK_DISJOINT EE_NONE []) True)"
  "profile_for ''transit-node'' =
     Some (plain_profile (simple_policy ''transit-node'' DC_TRANSIT_NODE_DISJOINT EE_SHARED_SOURCE_AND_DESTINATION []) True)"
  "profile_for ''device'' = Some (plain_profile (simple_policy ''device'' DC_DEVICE_DISJOINT EE_SHARED_SOURCE_AND_DESTINATION []) True)"
  "profile_for ''failure-domain'' =
     Some (plain_profile (simple_policy ''failure-domain'' DC_FAILURE_DOMAIN_DISJOINT EE_SHARED_SOURCE_AND_DESTINATION
       [DR_FAILURE_DOMAIN, DR_RACK, DR_POD, DR_SITE]) True)"
  "profile_for ''at-least-k'' =
     Some \<lparr>pf_policy = synthetic_policy ''dpol-cli-at-least-k'' default_scope SS_AT_LEAST_K_INDEPENDENT 3,
       pf_fabric = profile_fabric\<lparr>so_spines := 3, so_leaves := 8\<rparr>, pf_path_count = 8\<rparr>"
  "profile_for ''synthetic'' = Some (plain_profile (synthetic_policy ''dpol-cli-synthetic'' default_scope SS_ALL_PAIRS 2) True)"
  "profile_for ''incomplete'' = Some (plain_profile (synthetic_policy ''dpol-cli-incomplete'' default_scope SS_ALL_PAIRS 2) False)"
  by (simp_all add: profile_for_def plain_profile_def profile_fabric_def)

text \<open>What the profiles have in common.\<close>

definition good_profile :: "profile \<Rightarrow> bool" where
  "good_profile pf \<longleftrightarrow> policy_acceptable (pf_policy pf) default_limits \<and> so_paths_per_pair (pf_fabric pf) = 1 \<and>
     2 \<le> pf_path_count pf \<and> pf_path_count pf \<le> 8 \<and> pf_path_count pf = unat (so_leaves (pf_fabric pf)) \<and>
     dp_minimum_independent_paths (pf_policy pf) \<le> pf_path_count pf \<and> dp_unknown_behavior (pf_policy pf) = UB_REJECT_PROOF"

lemma profile_policy_fields [simp]:
  "dp_minimum_independent_paths (synthetic_policy name scope semantics k) = k"
  "dp_minimum_independent_paths (simple_policy name klass exemption relations) = 2"
  "dp_unknown_behavior (synthetic_policy name scope semantics k) = UB_REJECT_PROOF"
  "dp_unknown_behavior (simple_policy name klass exemption relations) = UB_REJECT_PROOF"
  by (simp_all add: synthetic_policy_def simple_policy_def dp_canonicalize_def)

lemma default_scope_valid: "id_valid default_scope"
  by (simp add: default_scope_def parse_id_def parsed_def try_parse_def valid_identity_text_def identity_char_def scope_id_max_def id_valid_def)

lemma synthetic_policy_name:
  "valid_identity_text name diversity_policy_id_max \<Longrightarrow> dp_id (synthetic_policy name scope semantics k) = StringId name"
  by (simp add: synthetic_policy_def try_parse_def dp_canonicalize_def)

lemma synthetic_acceptable:
  assumes "valid_identity_text name diversity_policy_id_max" "2 \<le> k" "k \<le> 64"
  shows "policy_acceptable (synthetic_policy name default_scope semantics k) default_limits"
proof -
  have "length name \<le> diversity_policy_id_max" using assms(1) by (auto simp: valid_identity_text_def split: if_splits)
  then have "length name + 17 \<le> max_persistence_record_bytes default_limits"
    by (simp add: diversity_policy_id_max_def default_limits_def)
  then show ?thesis
    using assms default_scope_valid unfolding policy_acceptable_def synthetic_policy_name [OF assms(1)]
    by (simp add: synthetic_policy_def dp_canonicalize_def gen_is_set_def id_valid_def)
       (auto simp: valid_identity_text_def default_limits_def split: if_splits)
qed

lemma simple_acceptable:
  assumes "valid_identity_text (''dpol-cli-'' @ name) diversity_policy_id_max" "distinct relations"
    and "klass = DC_FAILURE_DOMAIN_DISJOINT \<longrightarrow> relations \<noteq> []"
  shows "policy_acceptable (simple_policy name klass exemption relations) default_limits"
proof -
  have "length name \<le> diversity_policy_id_max" using assms(1) by (auto simp: valid_identity_text_def split: if_splits)
  then have "length name + 18 \<le> max_persistence_record_bytes default_limits"
    by (simp add: diversity_policy_id_max_def default_limits_def)
  moreover have "max_required_classes default_limits = 8" by (simp add: default_limits_def)
  ultimately show ?thesis
    using assms(2,3) synthetic_acceptable [OF assms(1), of 2 SS_ALL_PAIRS]
    unfolding simple_policy_def dp_canonicalize_acceptable unfolding policy_acceptable_def by simp
qed

lemma profile_names_valid: "list_all (\<lambda>name. valid_identity_text (''dpol-cli-'' @ name) diversity_policy_id_max) profile_names"
  by (simp add: profile_names_def valid_identity_text_def identity_char_def diversity_policy_id_max_def)

lemma good_plain: "policy_acceptable policy default_limits \<Longrightarrow> dp_minimum_independent_paths policy = 2 \<Longrightarrow>
    dp_unknown_behavior policy = UB_REJECT_PROOF \<Longrightarrow> good_profile (plain_profile policy complete)"
  by (simp add: good_profile_def plain_profile_def profile_fabric_def)

lemmas profile_name_valid = profile_names_valid [unfolded profile_names_def list.pred_inject append.simps]

lemma good_k:
  "policy_acceptable policy default_limits \<Longrightarrow> dp_minimum_independent_paths policy = 3 \<Longrightarrow>
     dp_unknown_behavior policy = UB_REJECT_PROOF \<Longrightarrow> good_profile \<lparr>pf_policy = policy, pf_fabric = profile_fabric\<lparr>so_spines := 3, so_leaves := 8\<rparr>, pf_path_count = 8\<rparr>"
  by (simp add: good_profile_def profile_fabric_def)

lemma profiles_good: "list_all (\<lambda>name. good_profile (the (profile_for name))) profile_names"
  unfolding profile_names_def list.pred_inject profile_values option.sel
  using profile_name_valid by (intro conjI TrueI good_plain good_k simple_acceptable synthetic_acceptable profile_policy_fields) simp_all

lemma profile_good: "profile_for name = Some pf \<Longrightarrow> good_profile pf"
  using profiles_good profile_known [of name] unfolding list_all_iff by force

lemma profile_ends: "profile_for name = Some pf \<Longrightarrow> so_paths_per_pair (pf_fabric pf) = 1"
  using profile_good by (simp add: good_profile_def)

lemma profile_feeds: "profile_for name = Some pf \<Longrightarrow> \<exists>s'. scenario_feed (pf_fabric pf) s = Some s'"
proof -
  assume p: "profile_for name = Some pf"
  then have "populate_synthetic_fabric (pf_fabric pf) (sa_evidence s) \<noteq> None"
    using profile_ends [OF p] by (simp add: generator_ends)
  then show ?thesis by (auto simp: scenario_feed_def)
qed

definition valid_invocation :: "string list \<Rightarrow> bool" where
  "valid_invocation arguments \<longleftrightarrow>
     (\<exists>opt. parse_options arguments = Inr opt \<and> op_command opt \<in> set commands \<and>
        (op_policy_name opt = [] \<or> op_policy_name opt \<in> set profile_names))"

section \<open>Exit codes\<close>

lemma selftest_returns:
  assumes "profile_for name = Some pf"
  shows "\<exists>code text fs'. run_selftest e pf json fs = Some (code, text, fs') \<and> code \<in> {0, 1}"
proof -
  obtain s where "scenario_feed (pf_fabric pf) (new_scenario default_limits) = Some s" using profile_feeds [OF assms] by blast
  then show ?thesis by (auto simp: run_selftest_def Let_def split: prod.split option.split)
qed

lemma run_inspection_code: "oc_code (fst (run_inspection pf opt s)) \<in> {0, 3}"
  by (auto simp: run_inspection_def show_proof_def succeed_def fail_with_def split: prod.split sum.split option.split)

lemma run_command_returns:
  assumes "profile_for name = Some pf"
  shows "\<exists>x s' fs'. run_command e pf opt s fs = Some (x, s', fs') \<and>
    (oc_code x \<in> {0, 3} \<or> op_command opt = ''selftest'' \<and> oc_code x = 1)"
proof -
  obtain code printed fs' where "run_selftest e pf (op_json opt) fs = Some (code, printed, fs')" "code \<in> {0, 1}"
    using selftest_returns [OF assms] by blast
  then show ?thesis using run_inspection_code [of pf opt s]
    by (cases "run_inspection pf opt s") (auto simp: run_command_def succeed_def)
qed

lemma finish_command_code:
  "oc_code (fst (finish_command e opt (x, s, fs))) \<in> {oc_code x, 0, 3} \<and>
     (oc_code x = 1 \<longleftrightarrow> oc_code (fst (finish_command e opt (x, s, fs))) = 1)"
  by (auto simp: finish_command_def split: prod.split)

lemma prefixed_fields [simp]: "oc_code (prefixed t x) = oc_code x" "oc_err (prefixed t x) = oc_err x"
  by (simp_all add: prefixed_def)

lemma outcome_fields [simp]:
  "oc_code (succeed t) = 0" "oc_code (fail_with c t) = c" "oc_err (succeed t) = []" "oc_out (fail_with c t) = []"
  "oc_out (succeed t) = t" "oc_err (fail_with c t) = t"
  by (simp_all add: succeed_def fail_with_def)

lemma run_scenario_returns:
  assumes "profile_for name = Some pf"
  shows "\<exists>x fs'. run_scenario e pf opt fs = Some (x, fs') \<and>
    (oc_code x \<in> {0, 3} \<or> op_command opt = ''selftest'' \<and> oc_code x = 1)"
proof -
  obtain s where s: "scenario_feed (pf_fabric pf) (new_scenario default_limits) = Some s" using profile_feeds [OF assms] by blast
  obtain loaded rt where l: "(if op_load opt = [] then (PS_OK, sa_runtime s) else load (ce_load e) (op_load opt) fs (sa_runtime s)) = (loaded, rt)"
    by fastforce
  let ?s = "s\<lparr>sa_runtime := rt\<rparr>"
  obtain registered s' where r: "scenario_register (ce_salt e) (ce_serial e) ''cli'' ?s = (registered, s')" by fastforce
  obtain x s'' fs' where c: "run_command e pf opt s' fs = Some (x, s'', fs')"
    "oc_code x \<in> {0, 3} \<or> op_command opt = ''selftest'' \<and> oc_code x = 1"
    using run_command_returns [OF assms] by blast
  show ?thesis using finish_command_code [of e opt x s'' fs'] c(2)
    by (cases "finish_command e opt (x, s'', fs')") (auto simp: run_scenario_def s l r c(1) Let_def)
qed

lemma tool_returns:
  "\<exists>x fs'. cli_main e arguments fs = Some (x, fs') \<and> oc_code x \<in> {0, 1, 2, 3} \<and>
     (oc_code x = 2 \<longleftrightarrow> \<not> valid_invocation arguments) \<and>
     (oc_code x = 2 \<longrightarrow> fs' = fs \<and> oc_out x = [] \<and> (\<exists>complaint. oc_err x = complaint @ usage)) \<and>
     (oc_code x = 1 \<longrightarrow> (\<exists>opt. parse_options arguments = Inr opt \<and> op_command opt = ''selftest''))"
proof (cases "parse_options arguments")
  case (Inl message)
  then show ?thesis by (auto simp: cli_main_def usage_error_def valid_invocation_def)
next
  case (Inr opt)
  let ?name = "if op_policy_name opt = [] then ''synthetic'' else op_policy_name opt"
  have names: "profile_for ?name \<noteq> None \<longleftrightarrow> op_policy_name opt = [] \<or> op_policy_name opt \<in> set profile_names"
    by (cases "op_policy_name opt = []") (simp_all add: profile_known del: not_None_eq, simp add: profile_names_def)
  show ?thesis
  proof (cases "op_command opt \<in> set commands")
    case False
    then show ?thesis by (auto simp: cli_main_def usage_error_def valid_invocation_def Inr)
  next
    case command: True
    show ?thesis
    proof (cases "profile_for ?name")
      case None
      then have "\<not> valid_invocation arguments" using names by (auto simp: valid_invocation_def Inr)
      then show ?thesis using None command by (simp add: cli_main_def usage_error_def Inr Let_def split: if_splits)
    next
      case (Some pf)
      have valid: "valid_invocation arguments" using names Some command by (auto simp: valid_invocation_def Inr)
      obtain x fs' where run: "run_scenario e pf opt fs = Some (x, fs')"
        "oc_code x \<in> {0, 3} \<or> op_command opt = ''selftest'' \<and> oc_code x = 1"
        using run_scenario_returns [OF Some] by blast
      have "cli_main e arguments fs = Some (if op_command opt = ''version'' \<and> op_pdk opt = [] \<and> op_load opt = []
          then (succeed (version_text (op_json opt)), fs) else (x, fs'))"
        using command Some by (simp add: cli_main_def Inr run(1) Let_def split: if_splits)
      then show ?thesis using valid run(2) by (auto simp: Inr split: if_splits)
    qed
  qed
qed

text \<open>C38: The tool always returns, whatever it is called with and whatever its files hold. Its exit code is one of the four it
  documents: 2 exactly for an invocation that is not valid, and then nothing is printed but a complaint with the
  usage text and no file changes; 1 only for the self test.\<close>

theorem tool_always_returns:
  "\<exists>x fs'. cli_main e arguments fs = Some (x, fs') \<and> oc_code x \<in> {0, 1, 2, 3} \<and>
     (oc_code x = 2 \<longleftrightarrow> \<not> valid_invocation arguments) \<and>
     (oc_code x = 2 \<longrightarrow> fs' = fs \<and> oc_out x = [] \<and> (\<exists>complaint. oc_err x = complaint @ usage)) \<and>
     (oc_code x = 1 \<longrightarrow> (\<exists>opt. parse_options arguments = Inr opt \<and> op_command opt = ''selftest''))"
  by (rule tool_returns)

section \<open>Documents\<close>

definition conflict_document :: "shared_resource \<Rightarrow> json" where
  "conflict_document c =
     JObj [(''kind'', JText (conflict_class_to_string (sr_kind c))), (''relation'', JText (domain_relation_to_string (sr_relation c))),
       (''id'', JText (sr_id c)), (''paths'', JArr (map JNum (sr_paths c)))]"

definition class_document :: "class_result \<Rightarrow> json" where
  "class_document r =
     JObj [(''class'', JText (diversity_class_to_string (cr_klass r))), (''outcome'', JText (proof_outcome_to_string (cr_outcome r))),
       (''evidence_complete'', JBool (cr_evidence_complete r)), (''shared_total'', JNum (unat (cr_shared_total r)))]"

definition witness_document :: "witness_subset \<Rightarrow> json" where
  "witness_document w =
     JObj [(''present'', JBool (ws_present w)), (''requested_k'', JNum (ws_requested_k w)), (''achieved'', JNum (ws_achieved w)),
       (''maximum_exact'', JBool (ws_maximum_exact w))]"

definition proof_document :: "diversity_proof \<Rightarrow> json" where
  "proof_document p =
     JObj [(''command'', JText ''evaluate''), (''proof'', JText (id_view (dpf_id p))),
       (''generation'', JNum (unat (gen_value (dpf_generation p)))), (''policy'', JText (id_view (rq_policy (dpf_request p)))),
       (''outcome'', JText (proof_outcome_to_string (dpf_outcome p))), (''lifecycle'', JText (lifecycle_state_to_string (dpf_lifecycle p))),
       (''currentness'', JText (currentness_to_string (dpf_currentness p))), (''detail'', JText (dpf_detail p)),
       (''paths'', JArr (map (\<lambda>r. JText (id_view (pr_path r))) (rq_paths (dpf_request p)))),
       (''classes'', JArr (map class_document (dpf_classes p))), (''conflicts'', JArr (map conflict_document (dpf_conflicts p))),
       (''conflicts_total'', JNum (unat (dpf_conflicts_total p))), (''witness'', witness_document (dpf_witness p)),
       (''matrix_cells'', JNum (length (pm_cells (dpf_matrix p)))), (''request_digest'', JText (digest_hex (dpf_request_digest p))),
       (''semantic_digest'', JText (digest_hex (dpf_semantic_digest p)))]"

definition entry_document :: "explanation_entry \<Rightarrow> json" where
  "entry_document e =
     JObj [(''kind'', JText (explanation_kind_to_string (xe_kind e))), (''class'', JText (diversity_class_to_string (xe_class e))),
       (''outcome'', JText (proof_outcome_to_string (xe_outcome e))), (''subject'', JText (xe_subject e)),
       (''detail'', JText (xe_detail e)), (''paths'', JArr (map JNum (xe_paths e)))]"

definition explanation_document :: "explanation \<Rightarrow> string \<Rightarrow> json" where
  "explanation_document x policy =
     JObj [(''command'', JText ''explain''), (''policy'', JText policy), (''proof'', JText (id_view (xp_proof x))),
       (''generation'', JNum (unat (gen_value (xp_generation x)))), (''outcome'', JText (proof_outcome_to_string (xp_outcome x))),
       (''truncated'', JBool (xp_truncated x)), (''entries_total'', JNum (unat (xp_total x))),
       (''entries'', JArr (map entry_document (xp_entries x)))]"

definition stats_document :: "runtime_stats \<Rightarrow> json" where
  "stats_document s =
     JObj [(''evaluations'', JNum (unat (rs_evaluations s))), (''commits'', JNum (unat (rs_commits s))),
       (''unchanged_revalidations'', JNum (unat (rs_unchanged s))), (''idempotent_replays'', JNum (unat (rs_idempotent s))),
       (''rejected_mutations'', JNum (unat (rs_rejected s))), (''watermark_rejections'', JNum (unat (rs_watermark_rejections s))),
       (''invalidations'', JNum (unat (rs_invalidations s))), (''demotions'', JNum (unat (rs_demotions s)))]"

definition stored_document :: "diversity_proof \<Rightarrow> json" where
  "stored_document p =
     JObj [(''id'', JText (id_view (dpf_id p))), (''generation'', JNum (unat (gen_value (dpf_generation p)))),
       (''outcome'', JText (proof_outcome_to_string (dpf_outcome p))), (''lifecycle'', JText (lifecycle_state_to_string (dpf_lifecycle p))),
       (''currentness'', JText (currentness_to_string (dpf_currentness p)))]"

definition runtime_document :: "runtime \<Rightarrow> json" where
  "runtime_document rt =
     JObj [(''command'', JText ''render''), (''policy_count'', JNum (policy_count rt)), (''proof_count'', JNum (proof_count rt)),
       (''stats'', stats_document (rt_stats rt)),
       (''proofs'', JArr (map stored_document (List.map_filter (stored_proof rt) (qr_proofs (all_proofs rt)))))]"

lemma document_parts:
  "conflict_json c = document (conflict_document c)" "class_json r = document (class_document r)"
  "witness_json w = document (witness_document w)" "entry_json e = document (entry_document e)"
  "stats_json s = document (stats_document s)" "stored_json p = document (stored_document p)"
  by (simp_all add: conflict_json_def conflict_document_def class_json_def class_document_def witness_json_def witness_document_def
      entry_json_def entry_document_def stats_json_def stats_document_def stored_json_def stored_document_def jpaths_def
      document.simps(4,5) comp_def)

lemma document_lists:
  "map conflict_json cs = map document (map conflict_document cs)" "map class_json rs = map document (map class_document rs)"
  "map entry_json es = map document (map entry_document es)" "map stored_json ps = map document (map stored_document ps)"
  by (simp_all add: document_parts)

lemma printed_documents:
  "proof_json p = document (proof_document p)" "explanation_json x policy = document (explanation_document x policy)"
  "runtime_json rt = document (runtime_document rt)"
  unfolding proof_json_def proof_document_def explanation_json_def explanation_document_def runtime_json_def runtime_document_def
    document_lists document_parts
  by (simp_all only: document.simps list.map prod.case concat.simps append.simps) (simp_all add: document.simps comp_def)

text \<open>C39: What the tool prints with --json is JSON and says what the printed object holds. A strict reader takes the document of
  a proof, of an explanation and of the runtime, whatever characters their identities and texts contain, and gets back
  every field: identities, generations, outcomes, texts with their escapes undone, paths, classes, conflicts, digests.\<close>

theorem printed_documents_read_back:
  "read_document (proof_json p) = Some (proof_document p) \<and>
   read_document (explanation_json x policy) = Some (explanation_document x policy) \<and>
   read_document (runtime_json rt) = Some (runtime_document rt)"
  by (simp add: printed_documents document_reads_back)

section \<open>Files\<close>

definition written_paths :: "cli_env \<Rightarrow> cli_options \<Rightarrow> string set" where
  "written_paths e opt =
     (if op_pdk opt = [] then {} else {op_pdk opt, temporary_path (op_pdk opt) (ce_process e) (ce_tag e)}) \<union>
     (if op_command opt = ''selftest''
      then {selftest_store_path e, temporary_path (selftest_store_path e) (ce_process e) (ce_tag e)} else {})"

lemma save_frame:
  assumes "save io (temporary_path target process tag) target rt fs = (states, status)" "p \<noteq> target" "p \<noteq> temporary_path target process tag"
  shows "last states p = fs p"
proof -
  have "states \<noteq> []" using assms(1) by (auto simp: save_def write_store_atomic_def Let_def split: write_outcome.splits)
  then have "last states \<in> set states" by simp
  then show ?thesis
    using write_states_target [OF assms(1) [unfolded save_def]] assms(2,3) temporary_path_differs(1) [of target process tag] by blast
qed

lemma selftest_frame:
  assumes "run_selftest e pf json fs = Some (code, printed, fs')" "p \<noteq> selftest_store_path e"
    "p \<noteq> temporary_path (selftest_store_path e) (ce_process e) (ce_tag e)"
  shows "fs' p = fs p"
proof -
  have "snd (test_store e rt t fs) p = fs p" for rt t
    using save_frame [of "ce_test_save e" "selftest_store_path e" "ce_process e" "ce_tag e" rt fs] assms(2,3)
    by (auto simp: test_store_def Let_def split: prod.split)
  then show ?thesis using assms(1)
    by (auto simp: run_selftest_def Let_def split: option.splits prod.splits) (metis snd_conv)+
qed

lemma run_command_frame:
  assumes "run_command e pf opt s fs = Some (x, s', fs')" "p \<notin> written_paths e opt"
  shows "fs' p = fs p"
proof (cases "op_command opt = ''selftest''")
  case True
  then obtain code printed where "run_selftest e pf (op_json opt) fs = Some (code, printed, fs')"
    using assms(1) by (auto simp: run_command_def)
  then show ?thesis using True assms(2) by (auto intro: selftest_frame simp: written_paths_def)
next
  case False
  then show ?thesis using assms(1) by (auto simp: run_command_def split: if_splits prod.splits)
qed

lemma finish_command_frame:
  assumes "finish_command e opt (x, s, fs) = (x', fs')" "p \<notin> written_paths e opt"
  shows "fs' p = fs p"
  using assms by (auto simp: finish_command_def written_paths_def split: if_splits prod.splits intro: save_frame)

lemma load_status: "rt_limits rt = rt_limits rt' \<Longrightarrow> fst (load io path fs rt) = fst (load io path fs rt')"
  by (simp add: load_def split: sum.split prod.split)

lemma feed_runtime: "scenario_feed opt s = Some s' \<Longrightarrow> sa_runtime s' = sa_runtime s"
  by (auto simp: scenario_feed_def split: option.splits)

text \<open>The tool writes no file it was not told to write: whatever happens, only the path after --pdk, the self test's own
  store and the temporary siblings of the two ever change. When the store after --load is refused, nothing changes
  at all, not even the path after --pdk, and the exit code is 3: a damaged store is never overwritten.\<close>

theorem tool_writes_only_its_stores:
  assumes run: "cli_main e arguments fs = Some (x, fs')" and opt: "parse_options arguments = Inr opt"
  shows "(p \<notin> written_paths e opt \<longrightarrow> fs' p = fs p) \<and>
    (valid_invocation arguments \<and> op_load opt \<noteq> [] \<and>
     fst (load (ce_load e) (op_load opt) fs (new_runtime (new_authority default_limits) default_limits)) \<noteq> PS_OK \<longrightarrow>
       oc_code x = 3 \<and> fs' = fs)"
proof (cases "fs' = fs \<and> oc_code x \<in> {0, 2} \<and> (oc_code x = 0 \<longrightarrow> op_load opt = [])")
  case True
  moreover have "valid_invocation arguments \<Longrightarrow> oc_code x \<noteq> 2" using tool_returns [of e arguments fs] run by auto
  ultimately show ?thesis by auto
next
  case False
  let ?name = "if op_policy_name opt = [] then ''synthetic'' else op_policy_name opt"
  obtain pf where pf: "profile_for ?name = Some pf" and scenario: "run_scenario e pf opt fs = Some (x, fs')"
    using run False by (auto simp: cli_main_def opt usage_error_def Let_def split: if_splits option.splits)
  obtain s where s: "scenario_feed (pf_fabric pf) (new_scenario default_limits) = Some s" using profile_feeds [OF pf] by blast
  obtain loaded rt where l: "(if op_load opt = [] then (PS_OK, sa_runtime s) else load (ce_load e) (op_load opt) fs (sa_runtime s)) = (loaded, rt)"
    by fastforce
  obtain registered s' where r: "scenario_register (ce_salt e) (ce_serial e) ''cli'' (s\<lparr>sa_runtime := rt\<rparr>) = (registered, s')" by fastforce
  obtain y s'' fs'' where c: "run_command e pf opt s' fs = Some (y, s'', fs'')" using run_command_returns [OF pf] by blast
  obtain z fs3 where f: "finish_command e opt (y, s'', fs'') = (z, fs3)" by fastforce
  have "rt_limits (sa_runtime s) = default_limits" using feed_runtime [OF s] by (simp add: new_scenario_def new_runtime_def)
  then have status: "op_load opt \<noteq> [] \<Longrightarrow>
      loaded = fst (load (ce_load e) (op_load opt) fs (new_runtime (new_authority default_limits) default_limits))"
    using l load_status [of "sa_runtime s" "new_runtime (new_authority default_limits) default_limits"]
    by (metis fst_conv new_runtime_limits)
  show ?thesis
  proof (cases "loaded = PS_OK \<and> registered")
    case False
    then have "fs' = fs" "loaded \<noteq> PS_OK \<Longrightarrow> oc_code x = 3" using scenario by (auto simp: run_scenario_def s l r Let_def split: if_splits)
    then show ?thesis using status by auto
  next
    case True
    then have "fs' = fs3" using scenario by (simp add: run_scenario_def s l r c f Let_def)
    then show ?thesis using True status finish_command_frame [OF f] run_command_frame [OF c] by auto
  qed
qed

text \<open>An empty store is refused and stays as it is, although the same path is given for the save.\<close>

definition tool_env :: cli_env where
  "tool_env =
     \<lparr>ce_salt = 1, ce_serial = 1, ce_ticks = 7, ce_temporary = (\<lambda>name. ''/tmp/'' @ name), ce_process = 1, ce_tag = 2,
      ce_load = RO_Done, ce_save = WO_Done, ce_test_load = RO_Done, ce_test_save = WO_Done, ce_removes = True\<rparr>"

lemma sample_arguments:
  "parse_options [''evaluate'', ''link'', ''--load'', ''s'', ''--pdk'', ''s''] =
     Inr \<lparr>op_command = ''evaluate'', op_policy_name = ''link'', op_pdk = ''s'', op_load = ''s'', op_json = False\<rparr>"
  by (simp add: parse_options_def no_options_def)

lemma tool_writes_only_its_stores_witness:
  "\<exists>x. cli_main tool_env [''evaluate'', ''link'', ''--load'', ''s'', ''--pdk'', ''s''] [''s'' \<mapsto> []] = Some (x, [''s'' \<mapsto> []]) \<and>
     oc_code x = 3"
proof -
  let ?arguments = "[''evaluate'', ''link'', ''--load'', ''s'', ''--pdk'', ''s'']" and ?fs = "[''s'' \<mapsto> []] :: files"
  obtain x fs' where run: "cli_main tool_env ?arguments ?fs = Some (x, fs')"
    using tool_returns [of tool_env ?arguments ?fs] by blast
  have "valid_invocation ?arguments" by (simp add: valid_invocation_def sample_arguments commands_def profile_names_def)
  moreover have "fst (load (ce_load tool_env) ''s'' ?fs (new_runtime (new_authority default_limits) default_limits)) \<noteq> PS_OK"
    by (simp add: load_def read_store_bytes_def)
  ultimately show ?thesis using tool_writes_only_its_stores [OF run sample_arguments] run by simp
qed

lemma tool_always_returns_witness:
  "\<exists>x. cli_main tool_env [''evaluate''] Map.empty = Some (x, Map.empty) \<and> oc_code x = 2 \<and> oc_out x = []"
proof -
  have "\<not> valid_invocation [''evaluate'']"
    by (simp add: valid_invocation_def parse_options_def no_options_def)
  with tool_always_returns [of tool_env "[''evaluate'']" Map.empty] show ?thesis by blast
qed

end
