(* ===== verification/Catalogue.thy ===== *)
theory Catalogue
  imports Json Synthetic
begin

text \<open>
  The catalogue of a generated fabric: its paths have different identities, and each is held in the evidence with the
  composition of its source, destination and spine, without a repeated element when no offset leads around the fabric.
\<close>

section \<open>The catalogue names different paths\<close>

lemma decimal_inject: "decimal m = decimal n \<longleftrightarrow> m = n"
  by (metis decimal_value)

lemma split_unique:
  "list_all (\<lambda>c. c \<noteq> d) xs \<Longrightarrow> list_all (\<lambda>c. c \<noteq> d) ys \<Longrightarrow> xs @ d # u = ys @ d # v \<longleftrightarrow> xs = ys \<and> u = v"
proof (induction xs arbitrary: ys)
  case Nil
  then show ?case by (cases ys) auto
next
  case (Cons x xs)
  then show ?case by (cases ys) auto
qed

lemma index_text_plain: "list_all (\<lambda>c. c \<noteq> CHR ''-'') (index_text i)"
  unfolding index_text_def by (rule list.pred_mono_strong [OF decimal_digits]) (auto simp: is_digit_def)

lemma index_text_inject: "index_text i = index_text j \<longleftrightarrow> i = j"
  unfolding index_text_def decimal_inject by (metis unsigned_word_eqI)

lemma path_name_inject: "path_name i j k = path_name i' j' k' \<longleftrightarrow> i = i' \<and> j = j' \<and> k = k'"
  by (simp add: path_name_def split_unique index_text_plain index_text_inject)

definition synthetic_entry :: "fabric_options \<Rightarrow> u32 \<Rightarrow> u32 \<Rightarrow> synthetic_path" where
  "synthetic_entry opt i offset =
     (let text = path_name i ((i + offset) mod leaf_count opt) offset
      in \<lparr>sp_path = StringId text, sp_generation = Generation 1, sp_label = text\<rparr>)"

lemma snd_add_synthetic_path: "snd (add_synthetic_path opt i offset st) = snd st @ [synthetic_entry opt i offset]"
  by (cases st) (simp add: add_synthetic_path_def Let_def synthetic_names_parse synthetic_entry_def)

lemma snd_fold_entries: "snd (fold (\<lambda>k. add_synthetic_path opt i (f k)) ks st) = snd st @ map (\<lambda>k. synthetic_entry opt i (f k)) ks"
  by (induction ks arbitrary: st) (simp_all add: snd_add_synthetic_path)

lemma snd_fold_rows:
  "snd (fold (\<lambda>i st. fold (\<lambda>k. add_synthetic_path opt (g i) (f k)) ks st) is st) =
     snd st @ concat (map (\<lambda>i. map (\<lambda>k. synthetic_entry opt (g i) (f k)) ks) is)"
  by (induction "is" arbitrary: st) (simp_all add: snd_fold_entries)

lemma of_nat_u32_inject: "m < 2 ^ 32 \<Longrightarrow> n < 2 ^ 32 \<Longrightarrow> (of_nat m :: u32) = of_nat n \<longleftrightarrow> m = n"
  by (simp add: word_of_nat_eq_iff take_bit_nat_eq_self)

lemma distinct_rows:
  assumes "distinct is" "distinct ks" "\<And>i k i' k'. i \<in> set is \<Longrightarrow> i' \<in> set is \<Longrightarrow> k \<in> set ks \<Longrightarrow> k' \<in> set ks \<Longrightarrow>
      e i k = e i' k' \<Longrightarrow> i = i' \<and> k = k'"
  shows "distinct (concat (map (\<lambda>i. map (e i) ks) is))"
  using assms
proof (induction "is")
  case (Cons i "is")
  have "inj_on (e i) (set ks)" by (rule inj_onI) (use Cons.prems(3) [of i i] in auto)
  then have "distinct (map (e i) ks)" using Cons.prems(2) by (simp add: distinct_map)
  moreover have "e i k \<notin> set (concat (map (\<lambda>i. map (e i) ks) is))" if k: "k \<in> set ks" for k
  proof
    assume "e i k \<in> set (concat (map (\<lambda>i. map (e i) ks) is))"
    then obtain i' k' where "i' \<in> set is" "k' \<in> set ks" "e i k = e i' k'" by auto
    then show False using Cons.prems(3) [of i i' k k'] k Cons.prems(1) by auto
  qed
  moreover have "distinct (concat (map (\<lambda>i. map (e i) ks) is))"
    by (rule Cons.IH) (use Cons.prems in \<open>auto intro: Cons.prems(3)\<close>)
  ultimately show ?case by auto
qed simp

lemma catalogue_distinct:
  assumes "populate_synthetic_fabric opt es = Some (es', fabric)"
  shows "distinct (map sp_path (sf_paths fabric))"
proof -
  have ends: "so_paths_per_pair opt \<noteq> - 1" using assms generator_ends [of opt es] by auto
  let ?is = "[0..<unat (leaf_count opt)]" and ?ks = "[1..<Suc (unat (so_paths_per_pair opt))]"
  have paths: "sf_paths fabric = concat (map (\<lambda>i. map (\<lambda>k. synthetic_entry opt (of_nat i) (of_nat k)) ?ks) ?is)"
    using assms snd_fold_rows [of opt of_nat of_nat ?ks ?is "(set_failure_domain_generation (Generation 1) (set_topology_generation (Generation 1) es), [])"]
    by (auto simp: populate_synthetic_fabric_def leaf_loop_runs [OF ends] split: prod.splits)
  have small: "unat (leaf_count opt) < 2 ^ 32" "unat (so_paths_per_pair opt) < 2 ^ 32"
    using unsigned_less [of "leaf_count opt"] unsigned_less [of "so_paths_per_pair opt"] by simp_all
  have "map sp_path (sf_paths fabric) = concat (map (\<lambda>i. map (\<lambda>k. sp_path (synthetic_entry opt (of_nat i) (of_nat k))) ?ks) ?is)"
    by (simp add: paths map_concat comp_def)
  moreover have "distinct \<dots>"
  proof (rule distinct_rows)
    fix i k i' k'
    assume "i \<in> set ?is" "i' \<in> set ?is" "k \<in> set ?ks" "k' \<in> set ?ks"
      and same: "sp_path (synthetic_entry opt (of_nat i) (of_nat k)) = sp_path (synthetic_entry opt (of_nat i') (of_nat k'))"
    then have "i < 2 ^ 32" "i' < 2 ^ 32" "k < 2 ^ 32" "k' < 2 ^ 32" using small unfolding set_upt by simp_all
    then show "i = i' \<and> k = k'" using same by (simp add: synthetic_entry_def Let_def path_name_inject of_nat_u32_inject)
  qed simp_all
  ultimately show ?thesis by simp
qed

section \<open>The compositions of the catalogue\<close>

definition entry_composition :: "fabric_options \<Rightarrow> u32 \<Rightarrow> u32 \<Rightarrow> path_composition" where
  "entry_composition opt i offset =
     synthetic_composition (sp_path (synthetic_entry opt i offset)) i ((i + offset) mod leaf_count opt) ((i + offset) mod spine_count opt)"

definition holds_entries :: "fabric_options \<Rightarrow> evidence_store \<times> synthetic_path list \<Rightarrow> bool" where
  "holds_entries opt st \<longleftrightarrow>
     (\<forall>p\<in>set (snd st). \<exists>i offset. p = synthetic_entry opt i offset \<and> i < leaf_count opt \<and> 1 \<le> offset \<and> offset \<le> so_paths_per_pair opt \<and>
        es_composition (fst st) (sp_path p) = Some (entry_composition opt i offset))"

lemma add_holds_entries:
  assumes "holds_entries opt st" "i < leaf_count opt" "1 \<le> offset" "offset \<le> so_paths_per_pair opt"
  shows "holds_entries opt (add_synthetic_path opt i offset st)"
proof -
  obtain es paths where st: "st = (es, paths)" by (cases st)
  let ?new = "synthetic_entry opt i offset" and ?c = "entry_composition opt i offset"
  define es' where "es' = fst (add_synthetic_path opt i offset st)"
  have lookup: "es_composition es' q = (if q = sp_path ?new then Some ?c else es_composition es q)" for q
    by (simp add: es'_def st add_synthetic_path_def Let_def synthetic_names_parse synthetic_entry_def entry_composition_def
        es_composition_def set_path_def)
  have "\<exists>i' offset'. p = synthetic_entry opt i' offset' \<and> i' < leaf_count opt \<and> 1 \<le> offset' \<and> offset' \<le> so_paths_per_pair opt \<and>
      es_composition es' (sp_path p) = Some (entry_composition opt i' offset')" if "p \<in> set paths" for p
  proof -
    obtain i' offset' where p: "p = synthetic_entry opt i' offset'" "i' < leaf_count opt" "1 \<le> offset'" "offset' \<le> so_paths_per_pair opt"
      "es_composition es (sp_path p) = Some (entry_composition opt i' offset')"
      using assms(1) \<open>p \<in> set paths\<close> by (auto simp: holds_entries_def st)
    have "es_composition es' (sp_path p) = Some (entry_composition opt i' offset')"
    proof (cases "sp_path p = sp_path ?new")
      case True
      then have "i' = i" "offset' = offset" by (simp_all add: p(1) synthetic_entry_def Let_def path_name_inject)
      then show ?thesis using True by (simp add: lookup)
    next
      case False
      then show ?thesis using p(5) by (simp add: lookup)
    qed
    then show ?thesis using p by blast
  qed
  moreover have "es_composition es' (sp_path ?new) = Some ?c" by (simp add: lookup)
  moreover have "add_synthetic_path opt i offset st = (es', paths @ [?new])"
    using snd_add_synthetic_path [of opt i offset st] by (simp add: es'_def st prod_eq_iff)
  ultimately show ?thesis using assms(2-4) by (auto simp: holds_entries_def)
qed

lemma fold_holds: "(\<And>x st. x \<in> set xs \<Longrightarrow> P st \<Longrightarrow> P (f x st)) \<Longrightarrow> P st \<Longrightarrow> P (fold f xs st)"
  by (induction xs arbitrary: st) simp_all

lemma catalogue_holds:
  assumes "populate_synthetic_fabric opt es = Some (es', fabric)"
  shows "holds_entries opt (es', sf_paths fabric)"
proof -
  have ends: "so_paths_per_pair opt \<noteq> - 1" using assms generator_ends [of opt es] by auto
  let ?is = "[0..<unat (leaf_count opt)]" and ?ks = "[1..<Suc (unat (so_paths_per_pair opt))]"
  let ?start = "(set_failure_domain_generation (Generation 1) (set_topology_generation (Generation 1) es), [])"
  have "(es', sf_paths fabric) = fold (\<lambda>i st. fold (\<lambda>k. add_synthetic_path opt (of_nat i) (of_nat k)) ?ks st) ?is ?start"
    using assms by (auto simp: populate_synthetic_fabric_def leaf_loop_runs [OF ends] simp del: upt_Suc split: prod.splits)
  moreover have "holds_entries opt (fold (\<lambda>i st. fold (\<lambda>k. add_synthetic_path opt (of_nat i) (of_nat k)) ?ks st) ?is ?start)"
  proof (rule fold_holds, rule fold_holds)
    fix i k st assume i: "i \<in> set ?is" and k: "k \<in> set ?ks" and "holds_entries opt st"
    have small: "unat (leaf_count opt) < 2 ^ 32" "unat (so_paths_per_pair opt) < 2 ^ 32"
      using unsigned_less [of "leaf_count opt"] unsigned_less [of "so_paths_per_pair opt"] by simp_all
    have bounds: "i < unat (leaf_count opt)" "1 \<le> k" "k \<le> unat (so_paths_per_pair opt)" using i k unfolding set_upt by simp_all
    have "unat (of_nat i :: u32) = i" "unat (of_nat k :: u32) = k" using bounds small by (simp_all add: unat_of_nat take_bit_nat_eq_self)
    then have "(of_nat i :: u32) < leaf_count opt" "1 \<le> (of_nat k :: u32)" "of_nat k \<le> so_paths_per_pair opt"
      using bounds by (simp_all add: word_less_nat_alt word_le_nat_alt)
    then show "holds_entries opt (add_synthetic_path opt (of_nat i) (of_nat k) st)"
      using add_holds_entries \<open>holds_entries opt st\<close> by blast
  qed (simp_all add: holds_entries_def)
  ultimately show ?thesis by simp
qed

text \<open>A destination that is not the source gives a composition without a repeated element.\<close>

lemma composition_lists:
  "pc_sources (synthetic_composition path i j k) = sort [the_node (host_name i)]"
  "pc_destinations (synthetic_composition path i j k) = sort [the_node (host_name j)]"
  "pc_transit_nodes (synthetic_composition path i j k) = sort [the_node (leaf_name i), the_node (spine_name k), the_node (leaf_name j)]"
  "pc_links (synthetic_composition path i j k) =
     sort [the_link (link_name (host_name i) (leaf_name i)), the_link (link_name (leaf_name i) (spine_name k)),
       the_link (link_name (spine_name k) (leaf_name j)), the_link (link_name (leaf_name j) (host_name j))]"
  "pc_devices (synthetic_composition path i j k) = sort [the_device (leaf_name i), the_device (spine_name k), the_device (leaf_name j)]"
  by (simp_all add: synthetic_composition_def pc_canonicalize_def del: sort_key_simps)

lemma composition_distinct:
  assumes "i \<noteq> j"
  shows "distinct (pc_sources (synthetic_composition path i j k))" "distinct (pc_destinations (synthetic_composition path i j k))"
    "distinct (pc_transit_nodes (synthetic_composition path i j k))" "distinct (pc_links (synthetic_composition path i j k))"
    "distinct (pc_devices (synthetic_composition path i j k))"
  unfolding composition_lists distinct_sort synthetic_names_parse using assms
  by (simp_all add: leaf_name_def spine_name_def host_name_def index_text_inject)
    (use index_text_ok in \<open>auto simp: link_name_def index_text_inject split_unique index_text_plain\<close>)

lemma composition_entities: "length (path_entities (synthetic_composition path i j k)) = 12"
  by (simp add: path_entities_def synthetic_composition_def pc_canonicalize_def default_path_composition_def)

lemma next_leaf_differs:
  fixes i n :: u32
  assumes "i < n" "2 \<le> n"
  shows "(i + 1) mod n \<noteq> i"
proof
  assume same: "(i + 1) mod n = i"
  have "unat i < unat n" "2 \<le> unat n" using assms by (simp_all add: word_less_nat_alt word_le_nat_alt)
  moreover have "unat n < 2 ^ 32" using unsigned_less [of n] by simp
  ultimately have "unat (i + 1) = unat i + 1" by (simp add: unat_word_ariths)
  then have "(unat i + 1) mod unat n = unat i" using same by (metis unat_mod)
  then show False using \<open>unat i < unat n\<close> \<open>2 \<le> unat n\<close>
    by (cases "unat i + 1 = unat n") (auto simp: mod_less)
qed

end
