(* ===== verification/CliInspect.thy ===== *)
theory CliInspect
  imports CliProps Catalogue
begin

text \<open>
  Every built-in profile can be inspected: the composition of the generator, the publication authority, the runtime and
  the views as the tool puts them together. The catalogue of a profile names different paths, the minted identities
  are accepted, the policy is published at generation 1, the evaluation is committed and its revision is shown.
\<close>

section \<open>The publisher is registered\<close>

lemma hex_digit_identity: "n < 16 \<Longrightarrow> identity_char (hex_digits ! n)"
proof -
  have "list_all identity_char hex_digits" by (simp add: hex_digits_def identity_char_def)
  moreover assume "n < 16"
  then have "n < length hex_digits" by (simp add: hex_digits_def)
  ultimately show ?thesis by (simp add: list_all_length)
qed

lemma hex16_identity: "list_all identity_char (hex16 v)" "length (hex16 v) = 16"
proof -
  have "unat (w AND 15) < 16" for w :: u64
  proof -
    have "w AND 15 \<le> 15" by (rule word_and_le1)
    then show ?thesis by (simp add: word_le_nat_alt)
  qed
  then show "list_all identity_char (hex16 v)" by (simp add: hex16_def list_all_iff hex_digit_identity)
qed (simp add: hex16_def)

lemma minted_boot: "id_valid (parsed (mint_worker_boot_id salt serial))"
proof -
  have "valid_identity_text (''boot-'' @ hex16 v) worker_boot_id_max" for v
    using hex16_identity [of v] by (simp add: valid_identity_text_def identity_char_def worker_boot_id_max_def)
  then show ?thesis by (simp add: mint_worker_boot_id_def parse_id_def parsed_def try_parse_def id_valid_def)
qed

lemma minted_publisher: "id_valid (parsed (mint_publisher_id salt serial label))"
  by (simp add: mint_publisher_id_def Let_def parse_id_def parsed_def try_parse_def id_valid_def
      valid_identity_text_def identity_char_def publisher_id_max_def)

text \<open>A scenario that may act: whatever attempt it names is accepted by the publication authority.\<close>

definition live_scenario :: "scenario \<Rightarrow> bool" where
  "live_scenario s \<longleftrightarrow> rt_limits (sa_runtime s) = default_limits \<and> pa_limits (rt_publication (sa_runtime s)) = default_limits \<and>
     (\<forall>label. id_valid (aa_attempt (actor label s)) \<longrightarrow>
        validate_authority (rt_publication (sa_runtime s)) (actor label s) = AS_ACCEPTED)"

definition attempt_text :: "string \<Rightarrow> string" where
  "attempt_text label = ''attempt-cli-'' @ label"

lemma actor_attempt:
  "valid_identity_text (attempt_text label) mutation_attempt_id_max \<Longrightarrow> aa_attempt (actor label s) = StringId (attempt_text label)"
  by (simp add: actor_def attempt_text_def parse_id_def parsed_def try_parse_def)

lemma registered_scenario:
  assumes "sa_runtime s = new_runtime (new_authority default_limits) default_limits"
  shows "\<exists>s'. scenario_register salt serial label s = (True, s') \<and> live_scenario s' \<and> sa_evidence s' = sa_evidence s \<and>
    sa_refs s' = sa_refs s \<and> rt_policies (sa_runtime s') = [] \<and> rt_proofs (sa_runtime s') = [] \<and>
    pa_attempts (rt_publication (sa_runtime s')) = []"
proof -
  define publisher where "publisher = parsed (mint_publisher_id salt serial label)"
  define boot where "boot = parsed (mint_worker_boot_id salt (serial + 1))"
  define session where "session = \<lparr>ps_publisher = publisher, ps_boot = boot, ps_epoch = Generation 1, ps_scope = default_scope, ps_fenced = False\<rparr>"
  have valid: "id_valid publisher" "id_valid boot" by (simp_all add: publisher_def boot_def minted_publisher minted_boot)
  define pub where "pub = (new_authority default_limits)\<lparr>pa_sessions := [(boot, session)], pa_fenced := [(boot, False)]\<rparr>"
  have "0 < max_publishers default_limits" by (simp add: default_limits_def)
  then have registered: "register_publisher session (new_authority default_limits) = (AS_ACCEPTED, pub)"
    using valid default_scope_valid
    by (simp add: register_publisher_def session_def new_authority_def is_fenced_def gen_is_set_def fence_replaced_def pub_def)
  let ?s = "s\<lparr>sa_publisher := publisher, sa_boot := boot, sa_runtime := (sa_runtime s)\<lparr>rt_publication := pub\<rparr>\<rparr>"
  have run: "scenario_register salt serial label s = (True, ?s)"
    using registered by (simp add: scenario_register_def assms new_runtime_def new_authority_def flip: publisher_def boot_def)
      (simp add: session_def)
  have "live_scenario ?s"
    using valid default_scope_valid
    by (simp add: live_scenario_def assms new_runtime_def pub_def new_authority_def validate_authority_def actor_def gen_is_set_def
        is_fenced_def session_def)
  then show ?thesis using run by (auto simp: assms new_runtime_def pub_def new_authority_def)
qed

section \<open>The policy is published\<close>

lemma live_attempts:
  assumes "live_scenario s" "rt_publication rt = (rt_publication (sa_runtime s))\<lparr>pa_attempts := attempts\<rparr>"
    "rt_limits rt = rt_limits (sa_runtime s)"
  shows "live_scenario (s\<lparr>sa_runtime := rt\<rparr>)" "actor label (s\<lparr>sa_runtime := rt\<rparr>) = actor label s"
proof -
  show actor: "actor label (s\<lparr>sa_runtime := rt\<rparr>) = actor label s" for label by (simp add: actor_def assms(2))
  show "live_scenario (s\<lparr>sa_runtime := rt\<rparr>)" using assms(1) by (simp add: live_scenario_def actor assms(2,3) validate_attempts)
qed

lemma scenario_admits:
  assumes "live_scenario s" "valid_identity_text (attempt_text label) mutation_attempt_id_max"
    "map_of (pa_attempts (rt_publication (sa_runtime s))) (StringId (attempt_text label)) = None"
    "length (pa_attempts (rt_publication (sa_runtime s))) < 4096"
  shows "admit (actor label s) payload (rt_publication (sa_runtime s)) =
    (AS_ACCEPTED, (rt_publication (sa_runtime s))\<lparr>pa_attempts :=
       om_put (StringId (attempt_text label)) (payload, unset_id) (pa_attempts (rt_publication (sa_runtime s)))\<rparr>)"
proof -
  have "id_valid (aa_attempt (actor label s))"
    using assms(2) by (simp add: actor_attempt id_valid_def attempt_text_def)
  then have "validate_authority (rt_publication (sa_runtime s)) (actor label s) = AS_ACCEPTED"
    using assms(1) by (simp add: live_scenario_def)
  moreover have "max_attempts_tracked (pa_limits (rt_publication (sa_runtime s))) = 4096"
    using assms(1) by (simp add: live_scenario_def) (simp add: default_limits_def)
  ultimately show ?thesis using assms(3,4) by (simp add: admit_def actor_attempt [OF assms(2)])
qed

lemma published_scenario:
  assumes "live_scenario s" "rt_policies (sa_runtime s) = []" "pa_attempts (rt_publication (sa_runtime s)) = []"
    "policy_acceptable (pf_policy pf) default_limits" "valid_identity_text (attempt_text label) mutation_attempt_id_max"
  shows "\<exists>r s' payload. scenario_publish pf label s = (r, s') \<and> mr_status r = MS_APPLIED \<and> mr_policy r \<noteq> None \<and> live_scenario s' \<and>
    sa_evidence s' = sa_evidence s \<and> sa_refs s' = sa_refs s \<and> rt_proofs (sa_runtime s') = rt_proofs (sa_runtime s) \<and>
    rt_policies (sa_runtime s') = [(dp_id (pf_policy pf), (dp_canonicalize (pf_policy pf))\<lparr>dp_generation := Generation 1\<rparr>)] \<and>
    pa_attempts (rt_publication (sa_runtime s')) = [(StringId (attempt_text label), payload)]"
proof -
  let ?rt = "sa_runtime s" and ?canonical = "dp_canonicalize (pf_policy pf)"
  have l: "rt_limits ?rt = default_limits" using assms(1) by (simp add: live_scenario_def)
  have valid: "pv_ok (validate_policy ?canonical (rt_limits ?rt))"
    using assms(4) by (simp only: l validate_policy_verdict dp_canonicalize_acceptable)
  define pub where "pub = (rt_publication ?rt)\<lparr>pa_attempts := [(StringId (attempt_text label), (dp_semantic_digest ?canonical, unset_id))]\<rparr>"
  have admitted: "admit (actor label s) (dp_semantic_digest ?canonical) (rt_publication ?rt) = (AS_ACCEPTED, pub)"
    using scenario_admits [OF assms(1,5)] by (simp add: assms(3) pub_def)
  have unset: "aa_expected_policy (actor label s) = gen_unset" by (simp add: actor_def)
  define rt' where "rt' = ?rt\<lparr>rt_publication := pub, rt_policies := [(dp_id (pf_policy pf), ?canonical\<lparr>dp_generation := Generation 1\<rparr>)]\<rparr>"
  have "0 < max_policies default_limits" by (simp add: default_limits_def)
  then have "publish_admitted ?canonical (actor label s) (?rt\<lparr>rt_publication := pub\<rparr>) =
      ((mutation_result MS_APPLIED ''policy published'')\<lparr>mr_policy := Some (?canonical\<lparr>dp_generation := Generation 1\<rparr>)\<rparr>, rt')"
    by (simp add: publish_admitted_def assms(2) l unset rt'_def Let_def)
  then have "scenario_publish pf label s =
      ((mutation_result MS_APPLIED ''policy published'')\<lparr>mr_policy := Some (?canonical\<lparr>dp_generation := Generation 1\<rparr>)\<rparr>, s\<lparr>sa_runtime := rt'\<rparr>)"
    using valid admitted
    by (simp add: scenario_publish_def publish_policy_def admit_attempt_def authority_status_is_success_def Let_def)
  moreover have "live_scenario (s\<lparr>sa_runtime := rt'\<rparr>)" by (rule live_attempts(1) [OF assms(1)]) (simp_all add: rt'_def pub_def)
  ultimately show ?thesis by (simp add: rt'_def pub_def)
qed

section \<open>The evaluation comes to a verdict\<close>

lemma scenario_inputs: "views_inputs (scenario_views s) l = es_inputs (sa_evidence s) l"
  by (simp add: views_inputs_def scenario_views_def es_inputs_def)

lemma resolve_paths_runs:
  "(\<And>r. r \<in> set rs \<Longrightarrow> \<exists>c. resolve_path ob view r = Inr c \<and> length (path_entities c) = n) \<Longrightarrow>
     \<exists>cs' fp'. resolve_paths ob view rs cs fp = Inr (cs', fp') \<and> length fp' = length fp + n * length rs"
proof (induction rs arbitrary: cs fp)
  case (Cons r rs)
  obtain c where c: "resolve_path ob view r = Inr c" "length (path_entities c) = n" using Cons.prems [of r] by auto
  have "\<exists>cs' fp'. resolve_paths ob view rs (cs @ [c]) (fp @ path_entities c) = Inr (cs', fp') \<and>
      length fp' = length (fp @ path_entities c) + n * length rs" by (rule Cons.IH) (simp add: Cons.prems)
  then show ?case using c by auto
qed simp

lemma default_self_consistent: "self_consistent default_limits"
  by (simp add: self_consistent_def default_limits_def)

lemma default_wf: "limits_wf default_limits"
  by (simp add: limits_wf_def default_limits_def)

text \<open>A request for catalogued paths, each generated with the offset 1, passes every check.\<close>

definition near_paths :: "fabric_options \<Rightarrow> evidence_store \<Rightarrow> path_ref list \<Rightarrow> bool" where
  "near_paths opt es rs \<longleftrightarrow> es_topology es = Generation 1 \<and> distinct (map pr_path rs) \<and>
     (\<forall>r\<in>set rs. es_current_generation es (pr_path r) = Some (pr_generation r) \<and> pr_generation r = Generation 1 \<and>
        (\<exists>i. i < leaf_count opt \<and> es_composition es (pr_path r) = Some (entry_composition opt i 1)))"

lemma near_resolves:
  assumes "near_paths opt es rs" "r \<in> set rs" "ob_topology ob = Generation 1"
  shows "\<exists>c. resolve_path ob (es_structure_view es) r = Inr c \<and> length (path_entities c) = 12"
proof -
  obtain i where i: "i < leaf_count opt" "es_composition es (pr_path r) = Some (entry_composition opt i 1)" "pr_generation r = Generation 1"
    using assms(1,2) by (auto simp: near_paths_def)
  have "2 \<le> leaf_count opt" by (simp add: leaf_count_def not_less)
  then have "i \<noteq> (i + 1) mod leaf_count opt" using next_leaf_differs [OF i(1)] by metis
  then have "bound_composition (es_structure_view es) r (entry_composition opt i 1)"
    using assms(1) i composition_distinct by (simp add: bound_composition_def es_structure_view_def near_paths_def entry_composition_def)
  moreover have "ob_topology ob = sv_topology_generation (es_structure_view es)"
    using assms(1,3) by (simp add: near_paths_def es_structure_view_def)
  moreover have "pc_canonicalize (entry_composition opt i 1) = entry_composition opt i 1" by (simp add: entry_composition_def)
  ultimately have "resolve_path ob (es_structure_view es) r = Inr (entry_composition opt i 1)" using resolve_path_Inr by metis
  then show ?thesis by (simp add: entry_composition_def composition_entities)
qed

lemma near_passes:
  assumes near: "near_paths opt es (rq_paths request)" and policy: "policy_acceptable policy default_limits"
    and count: "2 \<le> length (rq_paths request)" "length (rq_paths request) \<le> 8"
      "dp_minimum_independent_paths policy \<le> length (rq_paths request)"
  shows "\<exists>ob cs fp. passes request policy (es_inputs es default_limits) ob default_limits (sort (rq_paths request)) cs fp"
proof -
  let ?rs = "sort (rq_paths request)" and ?n = "length (rq_paths request)"
  define ob where "ob = \<lparr>ob_topology = sv_topology_generation (es_structure_view es), ob_domains = fv_generation (es_domain_view es), ob_observed = True\<rparr>"
  have topology: "ob_topology ob = Generation 1" using near by (simp add: ob_def near_paths_def es_structure_view_def)
  have limits: "max_paths_per_proof default_limits = 64" "max_pairwise_cells default_limits = 4096"
    "max_topology_dependencies default_limits = 4096" by (simp_all add: default_limits_def)
  have cells: "cell_count ?n \<le> 4096"
  proof -
    have "?n = 2 \<or> ?n = 3 \<or> ?n = 4 \<or> ?n = 5 \<or> ?n = 6 \<or> ?n = 7 \<or> ?n = 8" using count(1,2) by presburger
    then show ?thesis by (auto simp: cell_count_def)
  qed
  obtain unique canonical where rq: "rq_canonicalize request = (unique, canonical)" by fastforce
  have "unique" "rq_paths canonical = ?rs"
    using near rq_canonicalize_fst [of request] rq_canonicalize_snd [of request] by (simp_all add: rq near_paths_def)
  then have admit: "admit_request ob default_limits (dp_canonicalize policy) request = Inr ?rs"
    using policy count cells
    by (simp add: admit_request_def admit_paths_def rq default_self_consistent validate_policy_verdict dp_canonicalize_acceptable limits Let_def)
  have authority: "check_authority ob (es_authority_view es) ?rs = None"
    unfolding store.check_authority_current using near by (simp add: near_paths_def es_authority_view_def)
  have "\<exists>c. resolve_path ob (es_structure_view es) r = Inr c \<and> length (path_entities c) = 12" if "r \<in> set ?rs" for r
    using near_resolves [OF near _ topology] that by simp
  then obtain cs fp where resolved: "resolve_paths ob (es_structure_view es) ?rs [] [] = Inr (cs, fp)" "length fp = 12 * ?n"
    using resolve_paths_runs [of ?rs ob "es_structure_view es" 12 "[]" "[]"] by auto
  have "length (remdups_adj (sort fp)) \<le> 4096" using remdups_adj_length [of "sort fp"] resolved(2) count(2) by simp
  then have "\<exists>fp'. resolve_structure ob default_limits (es_structure_view es) ?rs = Inr (cs, fp')"
    by (simp add: resolve_structure_def resolved(1) limits Let_def)
  then show ?thesis using admit authority by (auto simp: passes_def es_inputs_def ob_def)
qed

lemma passes_verdict:
  assumes P: "passes request policy (es_inputs es default_limits) ob default_limits rs cs fp" and "length rs \<le> 8"
    and "dp_unknown_behavior policy = UB_REJECT_PROOF"
  shows "ev_outcome (evaluate_diversity request policy (es_inputs es default_limits)) \<in>
      {PO_PROVEN_DIVERSE, PO_NOT_DIVERSE, PO_UNKNOWN_INCOMPLETE_EVIDENCE}"
proof -
  have view: "in_domains (es_inputs es default_limits) = Some (es_domain_view es)" by (simp add: es_inputs_def)
  note A = passes_admitted [OF P view default_wf]
  have unknown: "unknown_outcome (dp_canonicalize policy) = PO_UNKNOWN_INCOMPLETE_EVIDENCE"
    using assms(3) by (simp add: unknown_outcome_def dp_canonicalize_def)
  have "length cs = length rs" using passes_paths(3) [OF P] by (simp add: es_inputs_def)
  moreover have "max_k_subset_paths default_limits = 10" by (simp add: default_limits_def)
  ultimately have bounds: "length cs \<le> max_k_subset_paths default_limits" "length cs \<le> 32" using assms(2) by simp_all
  have cases: "all_pairs_outcome p v cs \<in> {PO_PROVEN_DIVERSE, PO_NOT_DIVERSE, unknown_outcome p}"
    "k_independent_outcome p v cs \<in> {PO_PROVEN_DIVERSE, PO_NOT_DIVERSE, unknown_outcome p}" for p v
    by (simp_all add: all_pairs_outcome_def k_independent_outcome_def)
  show ?thesis
  proof (cases "dp_semantics (dp_canonicalize policy)")
    case SS_ALL_PAIRS
    show ?thesis unfolding passes_evaluate [OF P] outcome_all_pairs [OF A SS_ALL_PAIRS] using cases(1) unfolding unknown [symmetric] .
  next
    case SS_AT_LEAST_K_INDEPENDENT
    show ?thesis unfolding passes_evaluate [OF P] outcome_k(1) [OF A SS_AT_LEAST_K_INDEPENDENT bounds refl]
      using cases(2) unfolding unknown [symmetric] .
  qed
qed

section \<open>The evaluation is committed\<close>

lemma admitted_binds:
  "\<not> rejected_outcome (ev_outcome (evaluate_admitted ob l p inputs rs cs fp)) \<Longrightarrow>
     db_paths (ev_dependencies (evaluate_admitted ob l p inputs rs cs fp)) = bind_paths rs"
  by (auto simp: evaluate_admitted_def set_stage_def Let_def rejected_outcome_def reject_limit_def reject_def
      split: prod.splits sum.splits if_splits)

lemma unmoved_evaluation:
  assumes P: "passes request policy (es_inputs (sa_evidence s) default_limits) ob default_limits rs cs fp"
    and verdict: "\<not> rejected_outcome (ev_outcome (evaluate_diversity request policy (es_inputs (sa_evidence s) default_limits)))"
    and bound: "\<And>r. r \<in> set rs \<Longrightarrow> es_current_generation (sa_evidence s) (pr_path r) = Some (pr_generation r)"
    and t: "tk_request t = request" "tk_policy t = policy"
  shows "\<not> watermark_drift (run_evaluation default_limits (scenario_views s) (scenario_views s) t)"
proof -
  let ?in = "es_inputs (sa_evidence s) default_limits" and ?fe = "run_evaluation default_limits (scenario_views s) (scenario_views s) t"
  let ?e = "evaluate_diversity request policy ?in"
  have e: "fe_evaluation ?fe = ?e" by (simp add: run_evaluation_def Let_def scenario_inputs t)
  have b: "db_paths (ev_dependencies ?e) = bind_paths rs"
    using verdict admitted_binds unfolding passes_evaluate [OF P] by blast
  have "\<not> binding_moved (es_authority_view (sa_evidence s)) x" if x: "x \<in> set (bind_paths rs)" for x
  proof -
    obtain r where r: "r \<in> set rs" "x = \<lparr>pb_path = pr_path r, pb_generation = pr_generation r\<rparr>"
      using x by (auto simp: bind_paths_def)
    then have "av_current_generation (es_authority_view (sa_evidence s)) (pb_path x) = Some (pb_generation x)"
      using bound by (simp add: es_authority_view_def)
    then show ?thesis by (simp add: binding_moved_def store.authorized)
  qed
  then have "find (binding_moved (es_authority_view (sa_evidence s))) (bind_paths rs) = None" by (rule find_not_moved)
  then have "fe_drift ?fe = None"
    by (simp add: run_evaluation_def Let_def scenario_inputs t authority_drift_def b) (simp add: scenario_views_def)
  moreover have "ev_observed_topology ?e = es_topology (sa_evidence s)" "ev_observed_failure_domain ?e = fv_generation (es_domain_view (sa_evidence s))"
    using evaluation_carries_watermarks [of ?in "es_structure_view (sa_evidence s)" "es_domain_view (sa_evidence s)" request policy]
    by (simp_all add: es_inputs_def es_structure_view_def)
  ultimately show ?thesis
    by (simp add: watermark_drift_def e reported_drift_def)
      (simp add: run_evaluation_def Let_def scenario_views_def es_structure_view_def)
qed

lemma evaluated_scenario:
  assumes live: "live_scenario s" and policy: "rt_policies (sa_runtime s) = [(rq_policy request, policy)]" "dp_generation policy = rq_policy_generation request"
    and proofs: "rt_proofs (sa_runtime s) = []"
    and attempts: "pa_attempts (rt_publication (sa_runtime s)) = [(StringId (attempt_text other), x)]" "other \<noteq> label"
    and label: "valid_identity_text (attempt_text label) mutation_attempt_id_max"
    and request: "rq_canonicalize request = (True, request)"
    and unmoved: "\<And>t. tk_request t = request \<Longrightarrow> tk_policy t = policy \<Longrightarrow>
      \<not> watermark_drift (run_evaluation default_limits (scenario_views s) (scenario_views s) t)"
  shows "\<exists>r s' p. scenario_evaluate request label s = (r, s') \<and> mr_status r = MS_APPLIED \<and> mr_proof r = Some p \<and>
    stored_proof (sa_runtime s') (dpf_id p) = Some p \<and> rt_limits (sa_runtime s') = default_limits \<and>
    dpf_request p = request \<and> dpf_generation p = Generation 1 \<and>
    dpf_outcome p = ev_outcome (evaluate_diversity request policy (es_inputs (sa_evidence s) default_limits))"
proof -
  let ?rt = "sa_runtime s" and ?a = "actor label s"
  have l: "rt_limits ?rt = default_limits" using live by (simp add: live_scenario_def)
  define pub where "pub = (rt_publication ?rt)\<lparr>pa_attempts :=
      om_put (StringId (attempt_text label)) (rq_digest request, unset_id) [(StringId (attempt_text other), x)]\<rparr>"
  have differ: "attempt_text other \<noteq> attempt_text label" using attempts(2) by (simp add: attempt_text_def)
  have admitted: "admit ?a (rq_digest request) (rt_publication ?rt) = (AS_ACCEPTED, pub)"
    using scenario_admits [OF live label] differ by (simp add: attempts(1) pub_def)
  define t where "t = \<lparr>tk_request = request, tk_payload = rq_digest request, tk_policy = policy\<rparr>"
  define rt1 where "rt1 = count_stat inc_evaluations (?rt\<lparr>rt_publication := pub\<rparr>)"
  have begun: "begin_evaluation request ?a ?rt = (Inr t, rt1)"
    using admitted
    by (simp add: begin_evaluation_def request admit_attempt_def authority_status_is_success_def policy Let_def t_def rt1_def)
  define fe where "fe = run_evaluation default_limits (scenario_views s) (scenario_views s) t"
  have drift: "\<not> watermark_drift fe" using unmoved [of t] by (simp add: t_def fe_def)
  have fields: "rt_policies rt1 = [(rq_policy request, policy)]" "rt_proofs rt1 = []" "rt_limits rt1 = default_limits" "rt_publication rt1 = pub"
    by (simp_all add: rt1_def policy proofs l)
  have "id_valid (aa_attempt ?a)" using label by (simp add: actor_attempt id_valid_def attempt_text_def)
  then have accepted: "validate_authority (rt_publication ?rt) ?a = AS_ACCEPTED" using live by (simp add: live_scenario_def)
  then have "\<not> is_fenced pub (aa_boot ?a)" "pa_epoch pub = aa_epoch ?a"
    by (auto simp: pub_def validate_authority_def is_fenced_attempts actor_def split: if_splits)
  then have guard: "commit_guard ?a t rt1 = None" by (simp add: commit_guard_def fields t_def)
  have "\<not> gen_is_set (aa_expected_proof ?a)" by (simp add: actor_def gen_is_set_def gen_unset_def)
  moreover have "0 < max_proofs default_limits" by (simp add: default_limits_def)
  ultimately have stored: "map_of (rt_proofs (snd (commit_evaluation ?a t fe rt1))) (proof_identity request) =
      Some (store_revision (max_history default_limits) (build_revision ?a t (fe_evaluation fe) (Generation 1)) empty_record)"
    and result: "fst (commit_evaluation ?a t fe rt1) =
      (mutation_result MS_APPLIED ''proof committed'')\<lparr>mr_proof := Some (build_revision ?a t (fe_evaluation fe) (Generation 1))\<rparr>"
    using commit_fresh [OF guard _ _ _ drift] guard drift
    by (simp_all add: fields t_def commit_evaluation_def commit_record_def Let_def empty_record_def settled_evaluation_def settled_result_def)
  have limits: "rt_limits (snd (commit_evaluation ?a t fe rt1)) = default_limits"
    using micros_limits [OF commit_micro [of rt1 ?a t fe]] by (simp add: fields)
  let ?p = "build_revision ?a t (fe_evaluation fe) (Generation 1)"
  have "scenario_evaluate request label s =
      (fst (commit_evaluation ?a t fe rt1), s\<lparr>sa_runtime := snd (commit_evaluation ?a t fe rt1)\<rparr>)"
    by (simp add: scenario_evaluate_def evaluate_def begun fields(3) fe_def split_beta)
  moreover have "dpf_id ?p = proof_identity request" "dpf_request ?p = request" "dpf_generation ?p = Generation 1"
    "dpf_outcome ?p = ev_outcome (evaluate_diversity request policy (es_inputs (sa_evidence s) default_limits))"
    by (simp_all add: t_def fe_def run_evaluation_def Let_def scenario_inputs)
  ultimately show ?thesis using stored result limits by (simp add: stored_proof_def store_revision_def)
qed

section \<open>Every profile can be inspected\<close>

lemma catalogue_near:
  assumes pf: "good_profile pf" and fed: "populate_synthetic_fabric (pf_fabric pf) es = Some (es', fabric)"
  shows "near_paths (pf_fabric pf) es' (map (\<lambda>p. PathRef (sp_path p) (sp_generation p)) (sf_paths fabric))"
    "length (sf_paths fabric) = pf_path_count pf"
proof -
  let ?opt = "pf_fabric pf"
  have one: "so_paths_per_pair ?opt = 1" using pf by (simp add: good_profile_def)
  have "\<not> so_leaves ?opt < 2" using pf by (simp add: good_profile_def word_less_nat_alt)
  then have "leaf_count ?opt = so_leaves ?opt" by (simp add: leaf_count_def)
  then show count: "length (sf_paths fabric) = pf_path_count pf"
    using catalogue_is_backed [OF fed] pf by (simp add: good_profile_def)
  have entry: "\<exists>i. p = synthetic_entry ?opt i 1 \<and> i < leaf_count ?opt \<and> es_composition es' (sp_path p) = Some (entry_composition ?opt i 1) \<and>
      es_is_authorized es' (sp_path p) (sp_generation p) \<and> es_topology es' = Generation 1" if p: "p \<in> set (sf_paths fabric)" for p
  proof -
    obtain i offset where i: "p = synthetic_entry ?opt i offset" "i < leaf_count ?opt" "1 \<le> offset" "offset \<le> 1"
      "es_composition es' (sp_path p) = Some (entry_composition ?opt i offset)"
      using catalogue_holds [OF fed] p by (auto simp: holds_entries_def one)
    then have "offset = 1" by simp
    moreover obtain c where "es_is_authorized es' (sp_path p) (sp_generation p)" "es_composition es' (sp_path p) = Some c"
      "pc_topology_generation c = es_topology es'"
      using catalogue_is_backed [OF fed] p by blast
    moreover from this(2,3) i(5) have "es_topology es' = Generation 1" by (auto simp: entry_composition_def)
    ultimately show ?thesis using i by blast
  qed
  have "pf_path_count pf \<noteq> 0" using pf by (simp add: good_profile_def)
  then obtain p where "p \<in> set (sf_paths fabric)" using count by (cases "sf_paths fabric") auto
  then have topology: "es_topology es' = Generation 1" using entry by blast
  have "es_current_generation es' (sp_path p) = Some (sp_generation p) \<and> sp_generation p = Generation 1 \<and>
      (\<exists>i. i < leaf_count ?opt \<and> es_composition es' (sp_path p) = Some (entry_composition ?opt i 1))" if p: "p \<in> set (sf_paths fabric)" for p
  proof -
    obtain i where i: "p = synthetic_entry ?opt i 1" "i < leaf_count ?opt" "es_composition es' (sp_path p) = Some (entry_composition ?opt i 1)"
      "es_is_authorized es' (sp_path p) (sp_generation p)" using entry [OF p] by blast
    have "es_current_generation es' (sp_path p) = Some (sp_generation p)"
      using store.authorized [of es' "sp_path p" "sp_generation p"] i(4) by (simp add: es_authority_view_def)
    moreover have "sp_generation p = Generation 1" by (simp add: i(1) synthetic_entry_def Let_def)
    ultimately show ?thesis using i(2,3) by blast
  qed
  moreover have "distinct (map pr_path (map (\<lambda>p. PathRef (sp_path p) (sp_generation p)) (sf_paths fabric)))"
    using catalogue_distinct [OF fed] by (simp add: comp_def)
  ultimately show "near_paths ?opt es' (map (\<lambda>p. PathRef (sp_path p) (sp_generation p)) (sf_paths fabric))"
    using topology by (simp add: near_paths_def)
qed

text \<open>The request the tool makes for a profile: all its paths, under the policy at generation 1.\<close>

definition profile_request :: "profile \<Rightarrow> path_ref list \<Rightarrow> proof_request" where
  "profile_request pf refs = \<lparr>rq_policy = dp_id (pf_policy pf), rq_policy_generation = Generation 1, rq_paths = sort refs\<rparr>"

definition profile_policy :: "profile \<Rightarrow> diversity_policy" where
  "profile_policy pf = (dp_canonicalize (pf_policy pf))\<lparr>dp_generation := Generation 1\<rparr>"

definition profile_verdict :: "profile \<Rightarrow> evidence_store \<Rightarrow> path_ref list \<Rightarrow> proof_outcome" where
  "profile_verdict pf es refs =
     ev_outcome (evaluate_diversity (profile_request pf refs) (profile_policy pf) (es_inputs es default_limits))"

lemma profile_policy_acceptable: "policy_acceptable (pf_policy pf) l \<Longrightarrow> policy_acceptable (profile_policy pf) l"
proof -
  assume "policy_acceptable (pf_policy pf) l"
  then have "policy_acceptable (dp_canonicalize (pf_policy pf)) l" by (simp only: dp_canonicalize_acceptable)
  then show ?thesis by (simp add: profile_policy_def policy_acceptable_def gen_is_set_def del: dp_canonicalize_fields)
qed

lemma inspected_scenario:
  assumes pf: "good_profile pf" and refs: "near_paths (pf_fabric pf) (sa_evidence s) (sa_refs s)" "length (sa_refs s) = pf_path_count pf"
    and live: "live_scenario s" "rt_policies (sa_runtime s) = []" "rt_proofs (sa_runtime s) = []"
      "pa_attempts (rt_publication (sa_runtime s)) = []"
    and opt: "op_load opt = []"
  shows "profile_verdict pf (sa_evidence s) (sa_refs s) \<in> {PO_PROVEN_DIVERSE, PO_NOT_DIVERSE, PO_UNKNOWN_INCOMPLETE_EVIDENCE}"
    "\<exists>s' p. inspected_proof pf opt s = (Inr (Some (dpf_id p)), s') \<and> stored_proof (sa_runtime s') (dpf_id p) = Some p \<and>
      rt_limits (sa_runtime s') = default_limits \<and> dpf_request p = profile_request pf (sa_refs s) \<and> dpf_generation p = Generation 1 \<and>
      dpf_outcome p = profile_verdict pf (sa_evidence s) (sa_refs s)"
proof -
  let ?request = "profile_request pf (sa_refs s)" and ?policy = "profile_policy pf"
  note g = pf [unfolded good_profile_def]
  have near: "near_paths (pf_fabric pf) (sa_evidence s) (rq_paths ?request)"
    using refs(1) by (simp add: near_paths_def profile_request_def distinct_map)
  have count: "length (rq_paths ?request) = pf_path_count pf" by (simp add: profile_request_def refs(2))
  have policy: "policy_acceptable ?policy default_limits" using g profile_policy_acceptable by blast
  have fields: "dp_minimum_independent_paths ?policy = dp_minimum_independent_paths (pf_policy pf)"
    "dp_unknown_behavior ?policy = UB_REJECT_PROOF" using g by (simp_all add: profile_policy_def) (simp add: dp_canonicalize_def)
  obtain ob cs fp where P: "passes ?request ?policy (es_inputs (sa_evidence s) default_limits) ob default_limits (sort (rq_paths ?request)) cs fp"
    using near_passes [OF near policy] g count fields(1) by auto
  show verdict: "profile_verdict pf (sa_evidence s) (sa_refs s) \<in> {PO_PROVEN_DIVERSE, PO_NOT_DIVERSE, PO_UNKNOWN_INCOMPLETE_EVIDENCE}"
    unfolding profile_verdict_def by (rule passes_verdict [OF P]) (use g count fields(2) in simp_all)
  have labels: "valid_identity_text (attempt_text ''publish'') mutation_attempt_id_max" "valid_identity_text (attempt_text ''evaluate'') mutation_attempt_id_max"
    by (simp_all add: attempt_text_def valid_identity_text_def identity_char_def mutation_attempt_id_max_def)
  obtain r s1 payload where pub: "scenario_publish pf ''publish'' s = (r, s1)" "mr_policy r \<noteq> None" "live_scenario s1"
    "sa_evidence s1 = sa_evidence s" "sa_refs s1 = sa_refs s" "rt_proofs (sa_runtime s1) = rt_proofs (sa_runtime s)"
    "rt_policies (sa_runtime s1) = [(dp_id (pf_policy pf), ?policy)]"
    "pa_attempts (rt_publication (sa_runtime s1)) = [(StringId (attempt_text ''publish''), payload)]"
    using published_scenario [OF live(1,2,4) _ labels(1), of pf] g by (auto simp: profile_policy_def)
  have "distinct (map pr_path (sa_refs s))" using refs(1) by (simp add: near_paths_def)
  then have canonical: "rq_canonicalize ?request = (True, ?request)"
    using rq_canonicalize_fst [of ?request] rq_canonicalize_snd [of ?request]
    by (simp add: prod_eq_iff profile_request_def distinct_map)
  have "policy_generation (sa_runtime s1) (dp_id (pf_policy pf)) = Generation 1"
    by (simp add: policy_generation_def pub(7) profile_policy_def)
  then have made: "scenario_request pf (sa_refs s1) (policy_generation (sa_runtime s1) (dp_id (pf_policy pf))) = ?request"
    by (simp add: scenario_request_def empty_request_def profile_request_def pub(5) refs(2))
  have unmoved: "\<not> watermark_drift (run_evaluation default_limits (scenario_views s1) (scenario_views s1) t)"
    if "tk_request t = ?request" "tk_policy t = ?policy" for t
  proof (rule unmoved_evaluation [OF P [folded pub(4)] _ _ that])
    show "\<not> rejected_outcome (ev_outcome (evaluate_diversity ?request ?policy (es_inputs (sa_evidence s1) default_limits)))"
      using verdict by (auto simp: pub(4) profile_verdict_def rejected_outcome_def)
    show "es_current_generation (sa_evidence s1) (pr_path q) = Some (pr_generation q)" if "q \<in> set (sort (rq_paths ?request))" for q
      using near that by (simp add: near_paths_def pub(4))
  qed
  have shape: "rt_policies (sa_runtime s1) = [(rq_policy ?request, ?policy)]" "dp_generation ?policy = rq_policy_generation ?request"
    by (simp_all add: pub(7) profile_request_def profile_policy_def)
  have empty: "rt_proofs (sa_runtime s1) = []" and other: "''publish'' \<noteq> ''evaluate''" using live(3) pub(6) by simp_all
  obtain c s2 p where ev: "scenario_evaluate ?request ''evaluate'' s1 = (c, s2)" "mr_proof c = Some p"
    "stored_proof (sa_runtime s2) (dpf_id p) = Some p" "rt_limits (sa_runtime s2) = default_limits"
    "dpf_request p = ?request" "dpf_generation p = Generation 1"
    "dpf_outcome p = ev_outcome (evaluate_diversity ?request ?policy (es_inputs (sa_evidence s1) default_limits))"
    using evaluated_scenario [OF pub(3) shape empty pub(8) other labels(2) canonical unmoved] by blast
  have "inspected_proof pf opt s = (Inr (Some (dpf_id p)), s2)"
    using pub(2) by (simp add: inspected_proof_def opt pub(1) made ev(1,2))
  then show "\<exists>s' p. inspected_proof pf opt s = (Inr (Some (dpf_id p)), s') \<and> stored_proof (sa_runtime s') (dpf_id p) = Some p \<and>
      rt_limits (sa_runtime s') = default_limits \<and> dpf_request p = ?request \<and> dpf_generation p = Generation 1 \<and>
      dpf_outcome p = profile_verdict pf (sa_evidence s) (sa_refs s)"
    using ev by (auto simp: profile_verdict_def pub(4))
qed

lemma scan_positional:
  assumes "a \<noteq> []" "hd a \<noteq> CHR ''-''"
  shows "scan_arguments (a # arguments) opt positional = scan_arguments arguments opt (positional @ [a])"
proof -
  have "a \<noteq> ''--json''" "a \<noteq> ''--pdk''" "a \<noteq> ''--load''" using assms(2) by auto
  then show ?thesis using assms by simp
qed

lemma scan_json: "scan_arguments (''--json'' # arguments) opt positional = scan_arguments arguments (opt\<lparr>op_json := True\<rparr>) positional"
  by simp

lemma inspection_arguments:
  assumes name: "name \<noteq> []" "hd name \<noteq> CHR ''-''" and command: "command = ''evaluate'' \<or> command = ''explain''"
  shows "parse_options [command, name] =
      Inr \<lparr>op_command = command, op_policy_name = name, op_pdk = [], op_load = [], op_json = False\<rparr>"
    "parse_options [command, name, ''--json''] =
      Inr \<lparr>op_command = command, op_policy_name = name, op_pdk = [], op_load = [], op_json = True\<rparr>"
proof -
  have c: "command \<noteq> []" "hd command \<noteq> CHR ''-''" using command by auto
  note scan = scan_positional [OF c] scan_positional [OF name] scan_json scan_arguments.simps(1)
  have "scan_arguments [command, name] no_options [] = Inr (no_options, [command, name])"
    "scan_arguments [command, name, ''--json''] no_options [] = Inr (no_options\<lparr>op_json := True\<rparr>, [command, name])"
    by (simp_all only: scan append.simps)
  then show "parse_options [command, name] =
      Inr \<lparr>op_command = command, op_policy_name = name, op_pdk = [], op_load = [], op_json = False\<rparr>"
    "parse_options [command, name, ''--json''] =
      Inr \<lparr>op_command = command, op_policy_name = name, op_pdk = [], op_load = [], op_json = True\<rparr>"
    by (simp_all add: parse_options_def no_options_def)
qed

lemma profile_name_shape: "profile_for name = Some pf \<Longrightarrow> name \<noteq> [] \<and> hd name \<noteq> CHR ''-''"
proof -
  have "list_all (\<lambda>name. name \<noteq> [] \<and> hd name \<noteq> CHR ''-'') profile_names" by (simp add: profile_names_def)
  then show "profile_for name = Some pf \<Longrightarrow> name \<noteq> [] \<and> hd name \<noteq> CHR ''-''"
    using profile_known [of name] by (simp add: list_all_iff)
qed

lemma prefixed_nothing [simp]: "prefixed [] x = x"
  by (simp add: prefixed_def)

text \<open>C37: Every built-in profile can be inspected, in every environment and whatever the files are. Without a store to load or
  save, evaluate and explain end with exit code 0, print nothing on the standard error and change no file: the
  fabric of the profile is generated, the publisher is registered, the policy is published, all paths of the fabric
  are evaluated and come to a verdict, proven, not diverse or unknown, and what is shown, as text or as JSON, is
  the first generation of the proof with that verdict.\<close>

theorem every_profile_can_be_inspected:
  assumes "profile_for name = Some pf"
  shows "\<exists>es fabric p. populate_synthetic_fabric (pf_fabric pf) empty_store = Some (es, fabric) \<and>
    length (sf_paths fabric) = pf_path_count pf \<and>
    rq_paths (dpf_request p) = sort (map (\<lambda>q. PathRef (sp_path q) (sp_generation q)) (sf_paths fabric)) \<and>
    dpf_generation p = Generation 1 \<and> dpf_outcome p \<in> {PO_PROVEN_DIVERSE, PO_NOT_DIVERSE, PO_UNKNOWN_INCOMPLETE_EVIDENCE} \<and>
    dpf_outcome p = ev_outcome (evaluate_diversity (dpf_request p) ((dp_canonicalize (pf_policy pf))\<lparr>dp_generation := Generation 1\<rparr>)
      (es_inputs es default_limits)) \<and>
    cli_main e [''evaluate'', name] fs = Some (succeed (proof_lines p), fs) \<and>
    cli_main e [''evaluate'', name, ''--json''] fs = Some (succeed (proof_json p @ newline), fs) \<and>
    cli_main e [''explain'', name] fs = Some (succeed (explanation_render (explain_proof p default_limits)), fs) \<and>
    cli_main e [''explain'', name, ''--json''] fs =
      Some (succeed (explanation_json (explain_proof p default_limits) (id_view (dp_id (pf_policy pf))) @ newline), fs)"
proof -
  note good = profile_good [OF assms]
  obtain s where feed: "scenario_feed (pf_fabric pf) (new_scenario default_limits) = Some s" using profile_feeds [OF assms] by blast
  then obtain es fabric where fed: "populate_synthetic_fabric (pf_fabric pf) empty_store = Some (es, fabric)"
    and s: "sa_evidence s = es" "sa_refs s = map (\<lambda>q. PathRef (sp_path q) (sp_generation q)) (sf_paths fabric)"
    by (auto simp: scenario_feed_def new_scenario_def split: option.splits)
  have fresh: "sa_runtime s = new_runtime (new_authority default_limits) default_limits"
    using feed_runtime [OF feed] by (simp add: new_scenario_def)
  obtain s1 where reg: "scenario_register (ce_salt e) (ce_serial e) ''cli'' s = (True, s1)" "live_scenario s1"
    "sa_evidence s1 = es" "sa_refs s1 = sa_refs s" "rt_policies (sa_runtime s1) = []" "rt_proofs (sa_runtime s1) = []"
    "pa_attempts (rt_publication (sa_runtime s1)) = []"
    using registered_scenario [OF fresh, of "ce_salt e" "ce_serial e" "''cli''"] s by auto
  have near: "near_paths (pf_fabric pf) (sa_evidence s1) (sa_refs s1)" "length (sa_refs s1) = pf_path_count pf"
    using catalogue_near [OF good fed] by (simp_all add: reg(3,4) s)
  note inspect = inspected_scenario [OF good near reg(2,5-7)]
  obtain s2 p where run: "\<And>opt. op_load opt = [] \<Longrightarrow> inspected_proof pf opt s1 = (Inr (Some (dpf_id p)), s2)"
    and p: "stored_proof (sa_runtime s2) (dpf_id p) = Some p" "rt_limits (sa_runtime s2) = default_limits"
      "dpf_request p = profile_request pf (sa_refs s1)" "dpf_generation p = Generation 1"
      "dpf_outcome p = profile_verdict pf (sa_evidence s1) (sa_refs s1)"
    using inspect(2) [of no_options] by (auto simp: inspected_proof_def no_options_def)
  have shown: "run_scenario e pf opt fs = Some (show_proof pf opt (Some (dpf_id p)) (sa_runtime s2), fs)"
    if opt: "op_load opt = []" "op_pdk opt = []" "op_command opt \<in> {''evaluate'', ''explain''}" for opt
  proof -
    have "run_command e pf opt s1 fs = Some (show_proof pf opt (Some (dpf_id p)) (sa_runtime s2), s2, fs)"
      using opt(3) by (auto simp: run_command_def run_inspection_def run [OF opt(1)])
    then show ?thesis by (simp add: run_scenario_def feed opt reg(1) finish_command_def)
  qed
  have main: "cli_main e arguments fs = Some (show_proof pf opt (Some (dpf_id p)) (sa_runtime s2), fs)"
    if "parse_options arguments = Inr opt" "op_load opt = []" "op_pdk opt = []" "op_command opt \<in> {''evaluate'', ''explain''}"
      "op_policy_name opt = name" for arguments opt
    using that shown [OF that(2-4)] assms profile_name_shape [OF assms] by (auto simp: cli_main_def commands_def Let_def)
  note arguments = inspection_arguments [OF profile_name_shape [OF assms, THEN conjunct1] profile_name_shape [OF assms, THEN conjunct2]]
  have explained: "rt_explain (sa_runtime s2) (dpf_id p) = Some (explain_proof p default_limits)"
    using p(1) by (auto simp: rt_explain_def stored_proof_def p(2))
  have "cli_main e [''evaluate'', name] fs = Some (succeed (proof_lines p), fs)"
    "cli_main e [''evaluate'', name, ''--json''] fs = Some (succeed (proof_json p @ newline), fs)"
    "cli_main e [''explain'', name] fs = Some (succeed (explanation_render (explain_proof p default_limits)), fs)"
    "cli_main e [''explain'', name, ''--json''] fs =
      Some (succeed (explanation_json (explain_proof p default_limits) (id_view (dp_id (pf_policy pf))) @ newline), fs)"
    by (simp_all add: main [OF arguments(1)] main [OF arguments(2)] show_proof_def p(1) explained proof_text_def)
  moreover have "rq_paths (dpf_request p) = sort (map (\<lambda>q. PathRef (sp_path q) (sp_generation q)) (sf_paths fabric))"
    by (simp add: p(3) profile_request_def reg(4) s)
  moreover have "dpf_outcome p \<in> {PO_PROVEN_DIVERSE, PO_NOT_DIVERSE, PO_UNKNOWN_INCOMPLETE_EVIDENCE}"
    using inspect(1) [of no_options] by (simp add: p(5) no_options_def)
  moreover have "dpf_outcome p = ev_outcome (evaluate_diversity (dpf_request p)
      ((dp_canonicalize (pf_policy pf))\<lparr>dp_generation := Generation 1\<rparr>) (es_inputs es default_limits))"
    by (simp add: p(3,5) profile_verdict_def profile_policy_def reg(3))
  ultimately show ?thesis using fed catalogue_near(2) [OF good fed] p(4) by blast
qed

lemma every_profile_can_be_inspected_witness:
  "\<exists>p. cli_main tool_env [''evaluate'', ''incomplete''] Map.empty = Some (succeed (proof_lines p), Map.empty)"
proof -
  obtain pf where "profile_for ''incomplete'' = Some pf" using profile_known [of "''incomplete''"] by (auto simp: profile_names_def)
  from every_profile_can_be_inspected [OF this, of tool_env Map.empty] show ?thesis by blast
qed

end
