(* ===== verification/Spec2Isabelle.thy ===== *)
theory Spec2Isabelle
  imports CoordinatorProps Transport CliInspect
begin

text \<open>
  A verification development for Path Diversity Fabric, a C++ library with a coordinator service and an operator tool.
  The library decides whether a set of network paths is mutually diverse under a policy, from evidence that other
  systems own: who may use a path (Path Authority), what a path consists of (topology), and what fails together
  (failure domains). The verdict is a proof: a content-addressed revision with an outcome, a conflict matrix, a
  witness and the generations of everything it depends on. The runtime keeps proofs current only while all of that
  holds, a store makes them durable, and a coordinator serves the runtime over a framed protocol.

  The model is one HOL function per operation of the code, executable, in the order of the code. A class or struct is a
  \<open>record\<close>, an enumeration a \<open>datatype\<close> with the codes it has on the wire, an error an \<open>Inl\<close>
  or a status. Counters, generations, digests and loop indices keep their machine width; sizes of containers are
  natural numbers. \<open>std::map\<close> and \<open>std::set\<close> are sorted lists, so iteration orders are those of the code.


  PARTS AND SOURCES (files of \<open>include/path_diversity\<close> and \<open>src\<close>)

  Foundations. \<open>Prelude\<close>: integers, decimal rendering, ordered containers, bounded prefixes, the locales
  \<open>keyed_store\<close>, \<open>wire_enum\<close> and \<open>named_enum\<close>. \<open>Identity\<close>: \<open>strong_id.hpp\<close>, \<open>ids.hpp\<close>.
  \<open>Canonical\<close>: \<open>canonical.hpp/.cpp\<close>, byte writer and reader, FNV-1a. \<open>Digest\<close>: \<open>digest.hpp/.cpp\<close>,
  \<open>version.hpp\<close>. \<open>Limits\<close>: \<open>limits.hpp/.cpp\<close>.

  Data. \<open>Domain\<close>: \<open>domain.hpp/.cpp\<close>, \<open>diversity_class.hpp\<close>. \<open>Policy\<close>: \<open>policy.hpp/.cpp\<close>. \<open>Outcome\<close>:
  \<open>outcome.hpp\<close>, \<open>proof.cpp\<close>. \<open>Lifecycle\<close>: \<open>lifecycle.hpp/.cpp\<close>. \<open>PathSet\<close>: \<open>path.hpp\<close>, \<open>proof.hpp\<close>,
  \<open>pathset.cpp\<close>. \<open>Mutation\<close>: \<open>mutation.hpp/.cpp\<close>. \<open>Snapshot\<close>: \<open>snapshot.hpp/.cpp\<close>.

  Evaluation. \<open>EvaluatePair\<close>, \<open>EvaluateGraph\<close>, \<open>EvaluateSet\<close>: the files of the same names; \<open>evaluate_diversity\<close>
  goes from request and views to the outcome. \<open>ClassRules\<close>, \<open>IndependentSet\<close> and \<open>EvaluateSound\<close> hold their
  specifications and proofs. \<open>Evidence\<close>: \<open>evidence.hpp/.cpp\<close>, the in-memory evidence and its three views.

  Runtime. \<open>Authority\<close>: \<open>authority.hpp/.cpp\<close>, epoch, sessions, fences, attempts. \<open>Runtime\<close>, \<open>RuntimeOps\<close>,
  \<open>RuntimeStore\<close>, \<open>RuntimeView\<close>: \<open>runtime.hpp\<close>, \<open>runtime_internal.hpp\<close>, \<open>runtime.cpp\<close>, \<open>runtime_ops.cpp\<close>,
  \<open>runtime_store.cpp\<close>, \<open>runtime_view.cpp\<close>. \<open>RuntimeInv\<close>, \<open>RuntimeSteps\<close>, \<open>RuntimeLife\<close> (the operations and loads of
  a runtime in any order), \<open>RuntimeMutations\<close>, \<open>RuntimeProps\<close>, \<open>RuntimeRestart\<close> hold invariants and properties. \<open>Explain\<close>: \<open>explain.hpp/.cpp\<close>.

  Bytes. \<open>Codec\<close>: the contract of a codec and its readers. \<open>Records\<close>: \<open>persistence_records.cpp\<close>. \<open>SnapshotCodec\<close>,
  \<open>Store\<close>, \<open>StoreFile\<close>: \<open>persistence_store.cpp\<close>. \<open>WireFrames\<close>, \<open>WirePayloads\<close>: \<open>wire.hpp/.cpp\<close>.

  Service. \<open>Distributed\<close>, \<open>Transport\<close>: \<open>distributed.hpp/.cpp\<close>, the handlers, sessions and client calls, and below
  them the loops over the sockets. \<open>CoordinatorProps\<close> holds the properties of the coordinator.

  Tool. \<open>Synthetic\<close>: \<open>synthetic.hpp/.cpp\<close>, the generated evidence, with \<open>Catalogue\<close> for what it generates. \<open>Json\<close>, \<open>Cli\<close>:
  \<open>tools/path_diversity_cli.cpp\<close>, with \<open>CliProps\<close> and \<open>CliInspect\<close> for what the tool promises.


  HOW THE PARTS INTERACT

  A proof is published in two phases. \<open>begin_evaluation\<close> admits the attempt at the publication authority and copies
  the policy under the state lock, \<open>evaluate_diversity\<close> asks the views outside the lock, and \<open>commit_evaluation\<close> looks
  again at policy, epoch, fence and the observed generations before it stores the revision and enters it into the
  reverse indexes. Evidence may change between the phases, so the views before and behind an evaluation are separate
  inputs. An invalidation walks one index with \<open>demote_all\<close>. Saving encodes a part of the state (\<open>save_contents\<close>)
  and replaces the file; loading decodes, merges and rebuilds the indexes. A frame that arrives at the coordinator is
  handled by one function on the connection and the coordinator, which calls the runtime, persists and replies; a reply
  carries the files as they are when it is sent. The tool feeds generated evidence into a runtime of its own and shows what it stores.

  Atomicity follows the locks: what the code does under one lock is one function, and the step relations
  (\<open>authority_step\<close>, \<open>evidence_step\<close>, \<open>runtime_step\<close>, \<open>life_step\<close>, \<open>frame_step\<close>, \<open>coordinator_step\<close>) take these
  functions in any order, with evaluations in flight and evidence that changes. \<open>life_step\<close> adds the loads to the
  runtime operations: \<open>load\<close> checks neither the registry bounds nor the identities of what it merges, so a runtime state
  is \<open>reachable\<close> through loads that fit (\<open>load_fits\<close>); that a fence lasts holds for every load, and a property that needs
  more of the loads, such as that an old store does not bring back the proofs of a boot fenced since, says so. \<open>coordinator_step\<close> has whole handlers and also their
  locked sections for themselves, with the fences that are between their two locks in the state, so threads of
  several connections may interleave between any two locks. Every public runtime operation is a sequence of primitive
  updates (\<open>micro\<close>), so an invariant is proved once for each of them.


  WHAT THE LEMMAS SHOW

  Verdicts. Each class evaluator decides its specification (locale \<open>class_rule\<close>). The independent set solver returns the
  lexicographically least maximum set, and its two computations agree (locale \<open>undirected\<close>). An outcome proven or not
  diverse states a fact about the compositions the views serve; missing evidence proves nothing. The verdict does
  not depend on the order in which the paths are given.

  Currentness. No late, fenced or stale publication becomes current; every invalidation demotes exactly what its index
  names and leaves no current proof that depends on what changed; histories and registries are bounded in every
  reachable state; the latest snapshot is that of the current revision; fences of lost connections are permanent, and
  the proofs they ended stay ended unless a store that was saved before is loaded; a boot that is reported as fenced is
  fenced or its fence is in progress.

  Bytes. Every record, payload, frame and store is read back, what is read is well formed, single-byte changes of frames
  and stores are refused (locale \<open>codec\<close>, interpreted on every record). Whatever the chunks, the assembler delivers the
  frames that were sent and stays within its bound. Replacing a store is safe at every crash point.

  Composition. A call through client, frames and coordinator is the local operation, and its reply is sent after the
  attempt to save, so that it is durable before the reply if a store is configured and can be written. A request over a
  stream socket is the request of the model, and it ends unless a system call under it blocks for ever, which the code
  has no timeout against. A restart restores a runtime whose records the decoder accepts, without giving anybody
  authority. Every built-in profile of the tool comes to a verdict, the tool always returns, and its JSON reads
  back.

  Faults. Some properties state behaviour that contradicts the intent of the code: a commit revives a revoked proof, a
  stored rejection makes the store unreadable, a restart loses demotions by domain, a refused greeting fences the boot
  it named, and the generator does not end for the largest number of paths for each pair.


  BOUNDS, FUEL AND TERMINATION

  Loops are structural or have a measure: the solver recurses on the candidate mask, the assembler on the bytes it
  holds, a send on the bytes that are left. Three loops may run forever and are \<open>partial_function\<close>s: \<open>offset_loop\<close> of the
  generator, \<open>await_over\<close> of the client and \<open>wait_loop\<close> of the coordinator. \<open>Synthetic\<close> shows exactly when the first ends,
  \<open>Transport\<close> that the others do, for every socket and every clock that reaches the deadline; a system call that blocks
  for ever is a value of its own (\<open>Blocks\<close>), apart from a loop that does not end. Only the JSON reader, which is
  a specification, has fuel: one more than the length of the document, enough because a value nests no deeper than it is
  long. The mask of the solver has 64 bits; the K-independent stage
  refuses more than 32 paths, so the properties of the solver take up to 32.


  ASSUMPTIONS AND WHAT IS NOT MODELLED

  Parameters: the answers of evidence views other than the in-memory one, the process entropy of minted identities, the
  clock, the temporary directory, the outcome of each file operation and of each socket call. Properties that need
  them state the documented behaviour of the system as named hypotheses (\<open>sends_prefixes\<close>, \<open>fills_buffers\<close>).

  Not modelled: threads, mutexes and condition variables, beyond the interleaving of locked sections described above; two
  writers of the same store file at the same time. The loss of written data in a power failure (the code never syncs a
  file, and what the model calls a crash is the end of the process), the Windows branches, memory exhaustion, hash and
  streaming adapters, visibility macros and umbrella headers, the benchmarks, and the examples, which only call the
  library. A digest field too short for the decoder makes the code read past its end; C++ gives that read no
  meaning, and the model marks it with an answer of its own (\<open>undefined_read\<close>).
\<close>

end
